(* ===== verification/Prelude.thy ===== *)
theory Prelude
  imports Main "HOL-Library.Word"
begin

unbundle bit_operations_syntax

text \<open>
  Shared vocabulary of the development: the machine integer types of the C code, the loop
  \<open>for (i = 0; i < n; i++) if (P (t[i])) \<dots> break;\<close> as \<open>first_index\<close>, C integer division,
  the collections of facts the component theories extend, and the interfaces (locales) that
  several components implement: a table of slots and a field packed into an encoded value.
\<close>

section \<open>Machine integers\<close>

type_synonym u8 = "8 word"
type_synonym u16 = "16 word"
type_synonym u32 = "32 word"
type_synonym u64 = "64 word"
type_synonym bytes = "8 word list"

text \<open>The C operators \<open>/\<close> and \<open>%\<close> on signed operands truncate towards zero.\<close>

definition c_div :: "int \<Rightarrow> int \<Rightarrow> int" where
  "c_div a b = sgn a * sgn b * (\<bar>a\<bar> div \<bar>b\<bar>)"

definition c_mod :: "int \<Rightarrow> int \<Rightarrow> int" where
  "c_mod a b = a - b * c_div a b"

text \<open>Facts that evaluate the arithmetic of the C code, and facts that keep an invariant.\<close>

named_theorems c_arith \<open>arithmetic of the C operators\<close>
named_theorems wf_intros \<open>introduction rules of the well-formedness invariants\<close>
named_theorems loop_simps \<open>facts on search loops and array updates\<close>

lemma c_div_nonneg [c_arith]: "0 \<le> a \<Longrightarrow> 0 < b \<Longrightarrow> c_div a b = a div b"
  by (cases "a = 0") (auto simp: c_div_def)

lemma c_mod_nonneg [c_arith]: "0 \<le> a \<Longrightarrow> 0 < b \<Longrightarrow> c_mod a b = a mod b"
  by (simp add: c_mod_def c_div_nonneg minus_mult_div_eq_mod)

lemma unat_u8_less [simp]: "unat (x :: u8) < 256"
  by (rule order.strict_trans2 [OF unsigned_less]) simp

text \<open>Two bytes are equal when their eight bits are: masks are evaluated bit by bit.\<close>

lemma u8_eq_iff: "(x :: u8) = y \<longleftrightarrow> (\<forall>n \<in> {0, 1, 2, 3, 4, 5, 6, 7}. bit x n = bit y n)"
proof
  assume bits: "\<forall>n \<in> {0, 1, 2, 3, 4, 5, 6, 7}. bit x n = bit y n"
  show "x = y"
  proof (rule bit_word_eqI)
    fix n assume "n < LENGTH(8)"
    then have "n \<in> {0, 1, 2, 3, 4, 5, 6, 7}" by auto
    with bits show "bit x n = bit y n" by blast
  qed
qed simp

text \<open>Masks of low bits on integers.\<close>

lemma int_masks:
  "v AND (7 :: int) = v mod 8" "v AND (15 :: int) = v mod 16" "v AND (31 :: int) = v mod 32"
  "v AND (63 :: int) = v mod 64" "v AND (127 :: int) = v mod 128" "v AND (255 :: int) = v mod 256"
  using take_bit_eq_mask [of 3 v] take_bit_eq_mask [of 4 v] take_bit_eq_mask [of 5 v]
    take_bit_eq_mask [of 6 v] take_bit_eq_mask [of 7 v] take_bit_eq_mask [of 8 v]
  by (simp_all add: take_bit_eq_mod mask_numeral)

text \<open>A small integer stored in the low bits of a byte.\<close>

lemma low_bits_store:
  "0 \<le> v \<Longrightarrow> v < 8 \<Longrightarrow> uint (word_of_int v AND 7 :: u8) = v"
  "0 \<le> v \<Longrightarrow> v < 16 \<Longrightarrow> uint (word_of_int v AND 15 :: u8) = v"
  "0 \<le> v \<Longrightarrow> v < 32 \<Longrightarrow> uint (word_of_int v AND 31 :: u8) = v"
  "0 \<le> v \<Longrightarrow> v < 64 \<Longrightarrow> uint (word_of_int v AND 63 :: u8) = v"
  "0 \<le> v \<Longrightarrow> v < 128 \<Longrightarrow> uint (word_of_int v AND 127 :: u8) = v"
  by (simp_all add: unsigned_and_eq uint_word_of_int int_masks)

lemma unat_and_7f: "unat ((b :: u8) AND 0x7f) = unat b mod 128"
proof -
  have "unat b AND 127 = unat b mod 2 ^ 7"
    using take_bit_eq_mask [of 7 "unat b"] by (simp add: take_bit_eq_mod mask_numeral)
  then show ?thesis by (simp add: unsigned_and_eq)
qed

lemma odd_div_128: "n < 256 \<Longrightarrow> odd (n div 128) \<longleftrightarrow> 128 \<le> (n :: nat)"
  by (cases "n < 128") (simp_all add: le_div_geq)

lemma and_80_iff: "(b :: u8) AND 0x80 \<noteq> 0 \<longleftrightarrow> 128 \<le> unat b"
proof -
  have "b AND 0x80 \<noteq> 0 \<longleftrightarrow> bit b 7" by (simp add: u8_eq_iff bit_simps)
  also have "\<dots> \<longleftrightarrow> bit (unat b) 7" by (simp add: bit_unsigned_iff)
  also have "\<dots> \<longleftrightarrow> odd (unat b div 128)" by (simp add: bit_iff_odd)
  also have "\<dots> \<longleftrightarrow> 128 \<le> unat b"
    by (rule odd_div_128) simp
  finally show ?thesis .
qed

section \<open>Bytes of a word\<close>

text \<open>The object representation of an \<open>n\<close>-byte integer on a little-endian machine.\<close>

definition le_bytes :: "nat \<Rightarrow> 'a::len word \<Rightarrow> bytes" where
  "le_bytes n w = map (\<lambda>i. ucast (drop_bit (8 * i) w)) [0..<n]"

lemma length_le_bytes [simp]: "length (le_bytes n w) = n"
  by (simp add: le_bytes_def)

lemma nth_le_bytes [simp]: "i < n \<Longrightarrow> le_bytes n w ! i = ucast (drop_bit (8 * i) w)"
  by (simp add: le_bytes_def)

text \<open>The integer stored in some bytes, least significant first.\<close>

fun of_le_bytes :: "bytes \<Rightarrow> nat" where
  "of_le_bytes [] = 0"
| "of_le_bytes (b # bs) = unat b + 256 * of_le_bytes bs"

lemma of_le_bytes_append:
  "of_le_bytes (xs @ ys) = of_le_bytes xs + 256 ^ length xs * of_le_bytes ys"
  by (induction xs) (simp_all add: algebra_simps)

lemma of_le_bytes_le_bytes: "of_le_bytes (le_bytes n w) = unat w mod 256 ^ n"
proof (induction n)
  case 0
  then show ?case by (simp add: le_bytes_def)
next
  case (Suc n)
  have "le_bytes (Suc n) w = le_bytes n w @ [ucast (drop_bit (8 * n) w)]"
    by (simp add: le_bytes_def)
  moreover have "unat (ucast (drop_bit (8 * n) w) :: u8) = (unat w div 256 ^ n) mod 256"
  proof -
    have "unat (drop_bit (8 * n) w) = drop_bit (8 * n) (unat w)" by (rule unat_drop_bit_eq)
    also have "\<dots> = unat w div 2 ^ (8 * n)" by (rule drop_bit_eq_div)
    also have "(2::nat) ^ (8 * n) = 256 ^ n" by (simp add: power_mult)
    finally show ?thesis
      by (simp only: unsigned_ucast_eq take_bit_eq_mod) simp
  qed
  moreover have "unat w mod 256 ^ n + 256 ^ n * ((unat w div 256 ^ n) mod 256)
      = unat w mod 256 ^ Suc n"
    by (metis add.commute mod_mult2_eq mult.commute power_Suc)
  ultimately show ?case using Suc by (simp add: of_le_bytes_append)
qed

lemma of_le_bytes_inverse:
  "LENGTH('a::len) \<le> 8 * n \<Longrightarrow> word_of_nat (of_le_bytes (le_bytes n (w :: 'a word))) = w"
proof -
  assume "LENGTH('a) \<le> 8 * n"
  then have "(2::nat) ^ LENGTH('a) \<le> 2 ^ (8 * n)" by (intro power_increasing) simp_all
  also have "(2::nat) ^ (8 * n) = 256 ^ n" by (simp add: power_mult)
  finally show ?thesis by (simp add: of_le_bytes_le_bytes order.strict_trans2 [OF unsigned_less])
qed

section \<open>Search loops\<close>

text \<open>The index at which the loop breaks, None when it runs to the end.\<close>

fun first_index :: "('a \<Rightarrow> bool) \<Rightarrow> 'a list \<Rightarrow> nat option" where
  "first_index P [] = None"
| "first_index P (x # xs) = (if P x then Some 0 else map_option Suc (first_index P xs))"

lemma first_index_None [loop_simps]: "first_index P xs = None \<longleftrightarrow> (\<forall>x \<in> set xs. \<not> P x)"
  by (induction xs) auto

lemma first_index_SomeD:
  "first_index P xs = Some i \<Longrightarrow> i < length xs \<and> P (xs ! i) \<and> (\<forall>j < i. \<not> P (xs ! j))"
proof (induction xs arbitrary: i)
  case Nil
  then show ?case by simp
next
  case (Cons x xs)
  then show ?case
    by (auto split: if_splits simp: less_Suc_eq_0_disj)
qed

lemmas first_index_less = first_index_SomeD [THEN conjunct1]
lemmas first_index_holds = first_index_SomeD [THEN conjunct2, THEN conjunct1]
lemmas first_index_before = first_index_SomeD [THEN conjunct2, THEN conjunct2]

lemma first_indexI:
  "i < length xs \<Longrightarrow> P (xs ! i) \<Longrightarrow> (\<And>j. j < i \<Longrightarrow> \<not> P (xs ! j)) \<Longrightarrow> first_index P xs = Some i"
proof (induction xs arbitrary: i)
  case Nil
  then show ?case by simp
next
  case (Cons x xs)
  show ?case
  proof (cases i)
    case 0
    with Cons.prems show ?thesis by simp
  next
    case (Suc k)
    from Suc Cons.prems(3) [of 0] have "\<not> P x" by simp
    moreover have "first_index P xs = Some k"
    proof (rule Cons.IH)
      show "k < length xs" "P (xs ! k)" using Cons.prems(1,2) Suc by simp_all
    next
      fix j assume "j < k"
      then show "\<not> P (xs ! j)" using Cons.prems(3) [of "Suc j"] Suc by simp
    qed
    ultimately show ?thesis using Suc by simp
  qed
qed

lemma first_index_ex:
  assumes "x \<in> set xs" and "P x"
  obtains i where "first_index P xs = Some i"
  using assms first_index_None [of P xs] by (cases "first_index P xs") auto

lemma first_index_map: "first_index P (map f xs) = first_index (P \<circ> f) xs"
  by (induction xs) (auto simp: o_def)

lemma first_index_cong:
  "(\<And>x. x \<in> set xs \<Longrightarrow> P x = Q x) \<Longrightarrow> first_index P xs = first_index Q xs"
  by (induction xs) auto

lemma first_index_distinct:
  assumes "distinct (map f xs)" and "i < length xs"
  shows "first_index (\<lambda>x. f x = f (xs ! i)) xs = Some i"
proof (rule first_indexI)
  fix j assume "j < i"
  with assms have "map f xs ! j \<noteq> map f xs ! i"
    by (subst nth_eq_iff_index_eq) auto
  with \<open>j < i\<close> assms(2) show "f (xs ! j) \<noteq> f (xs ! i)" by simp
qed (use assms(2) in simp_all)

section \<open>Array updates\<close>

lemma set_update_subset_insert2: "x \<in> set (xs[i := y]) \<Longrightarrow> x = y \<or> x \<in> set xs"
  using set_update_subset_insert [of xs i y] by auto

lemma filter_length_update [loop_simps]:
  "i < length xs \<Longrightarrow>
     length (filter P (xs[i := y])) + of_bool (P (xs ! i)) = length (filter P xs) + of_bool (P y)"
proof (induction xs arbitrary: i)
  case Nil
  then show ?case by simp
next
  case (Cons x xs)
  show ?case
  proof (cases i)
    case 0
    then show ?thesis by simp
  next
    case (Suc k)
    with Cons.IH [of k] Cons.prems show ?thesis by auto
  qed
qed

section \<open>Tables of slots\<close>

text \<open>
  Several components keep a fixed number of slots in an array and manage it with the same
  three loops: find the slot of a key, find a free slot, release a slot. The interface says
  which slots are \<open>used\<close> and which \<open>key\<close> a used slot holds; \<open>fill k x s\<close> is the slot written when the key
  \<open>k\<close> is stored with payload \<open>x\<close>, \<open>free s\<close> the slot after a release. A client of the interface
  gets the standard facts on storing into a free slot and on releasing.
\<close>

locale slot_table =
  fixes used :: "'s \<Rightarrow> bool"
    and key :: "'s \<Rightarrow> 'k"
    and fill :: "'k \<Rightarrow> 'x \<Rightarrow> 's \<Rightarrow> 's"
    and free :: "'s \<Rightarrow> 's"
  assumes used_fill: "used (fill k x s)"
    and key_fill: "key (fill k x s) = k"
    and used_free: "\<not> used (free s)"
begin

definition holds :: "'k \<Rightarrow> 's \<Rightarrow> bool" where
  "holds k s \<longleftrightarrow> used s \<and> key s = k"

definition keys :: "'s list \<Rightarrow> 'k list" where
  "keys t = map key (filter used t)"

definition free_slot :: "'s list \<Rightarrow> nat option" where
  "free_slot t = first_index (\<lambda>s. \<not> used s) t"

definition put :: "'k \<Rightarrow> 'x \<Rightarrow> 's list \<Rightarrow> 's list" where
  "put k x t = (case free_slot t of None \<Rightarrow> t | Some i \<Rightarrow> t[i := fill k x (t ! i)])"

definition release :: "'k \<Rightarrow> 's list \<Rightarrow> 's list" where
  "release k t = (case first_index (holds k) t of None \<Rightarrow> t | Some i \<Rightarrow> t[i := free (t ! i)])"

lemma length_put [simp]: "length (put k x t) = length t"
  by (simp add: put_def split: option.splits)

lemma length_release [simp]: "length (release k t) = length t"
  by (simp add: release_def split: option.splits)

lemma free_slot_None: "free_slot t = None \<longleftrightarrow> (\<forall>s \<in> set t. used s)"
  by (auto simp: free_slot_def first_index_None)

lemma free_slot_iff_room: "(\<exists>i. free_slot t = Some i) \<longleftrightarrow> length (filter used t) < length t"
proof -
  have "length (filter used t) < length t \<longleftrightarrow> filter used t \<noteq> t"
    by (metis length_filter_le le_neq_implies_less less_irrefl filter_id_conv
        length_filter_less)
  then show ?thesis
    using free_slot_None [of t] by (auto simp: filter_id_conv)
qed

lemma holds_fill [simp]: "holds k (fill k' x s) \<longleftrightarrow> k = k'"
  by (auto simp: holds_def used_fill key_fill)

lemma not_holds_free [simp]: "\<not> holds k (free s)"
  by (simp add: holds_def used_free)

lemma count_put:
  "length (filter used (put k x t)) =
     length (filter used t) + of_bool (length (filter used t) < length t)"
proof (cases "free_slot t")
  case None
  then show ?thesis
    using free_slot_iff_room [of t] by (simp add: put_def)
next
  case (Some i)
  then have i: "i < length t" "\<not> used (t ! i)"
    by (auto simp: free_slot_def dest: first_index_SomeD)
  have "length (filter used t) < length t"
    using Some free_slot_iff_room by blast
  then show ?thesis
    using i filter_length_update [of i t used "fill k x (t ! i)"]
    by (simp add: put_def Some used_fill)
qed

lemma count_release:
  "length (filter used (release k t)) =
     length (filter used t) - of_bool (\<exists>s \<in> set t. holds k s)"
proof (cases "first_index (holds k) t")
  case None
  then have "\<not> (\<exists>s \<in> set t. holds k s)" by (simp add: first_index_None)
  with None show ?thesis by (simp add: release_def)
next
  case (Some i)
  then have i: "i < length t" "holds k (t ! i)"
    by (auto dest: first_index_SomeD)
  then have "\<exists>s \<in> set t. holds k s" by (metis nth_mem)
  with i show ?thesis
    using filter_length_update [of i t used "free (t ! i)"]
    by (simp add: release_def Some used_free holds_def)
qed

lemma put_holds_iff:
  assumes "i < length (put k x t)"
  shows "holds k' (put k x t ! i) \<longleftrightarrow>
    (if free_slot t = Some i then k' = k else holds k' (t ! i))"
  using assms
  by (auto simp: put_def nth_list_update split: option.splits dest!: sym [of "Some _"])

lemma put_keeps:
  assumes "\<exists>s \<in> set t. holds k' s"
  shows "\<exists>s \<in> set (put k x t). holds k' s"
proof -
  from assms obtain i where i: "i < length t" "holds k' (t ! i)"
    by (metis in_set_conv_nth)
  then have "free_slot t \<noteq> Some i"
    by (auto simp: free_slot_def holds_def dest: first_index_SomeD)
  with i have "holds k' (put k x t ! i)"
    by (simp add: put_holds_iff)
  with i show ?thesis by (metis length_put nth_mem)
qed

lemma put_stores:
  assumes "length (filter used t) < length t"
  shows "\<exists>s \<in> set (put k x t). holds k s"
proof -
  obtain i where i: "free_slot t = Some i"
    using assms free_slot_iff_room by blast
  then have "i < length t"
    by (auto simp: free_slot_def dest: first_index_SomeD)
  with i have "holds k (put k x t ! i)" by (simp add: put_holds_iff)
  with \<open>i < length t\<close> show ?thesis by (metis length_put nth_mem)
qed

lemma put_only_adds:
  "s \<in> set (put k x t) \<Longrightarrow> holds k' s \<Longrightarrow> k' = k \<or> (\<exists>s \<in> set t. holds k' s)"
  by (auto simp: put_def split: option.splits dest!: set_update_subset_insert2)

lemma release_only_removes:
  "s \<in> set (release k t) \<Longrightarrow> holds k' s \<Longrightarrow> s \<in> set t"
  by (auto simp: release_def split: option.splits dest!: set_update_subset_insert2)

lemma release_keeps_others:
  assumes "s \<in> set t" and "\<not> holds k s"
  shows "s \<in> set (release k t)"
proof (cases "first_index (holds k) t")
  case None
  then show ?thesis using assms by (simp add: release_def)
next
  case (Some i)
  from assms obtain j where j: "j < length t" "t ! j = s" by (metis in_set_conv_nth)
  with Some assms(2) have "i \<noteq> j" by (auto dest: first_index_SomeD)
  with Some j have "release k t ! j = s" by (simp add: release_def)
  then show ?thesis using j by (metis length_release nth_mem)
qed

text \<open>A key stored at most once is gone after its release.\<close>

definition unique_keys :: "'s list \<Rightarrow> bool" where
  "unique_keys t \<longleftrightarrow> (\<forall>i < length t. \<forall>j < length t.
     used (t ! i) \<longrightarrow> used (t ! j) \<longrightarrow> key (t ! i) = key (t ! j) \<longrightarrow> i = j)"

lemma release_removes:
  assumes "unique_keys t"
  shows "\<not> (\<exists>s \<in> set (release k t). holds k s)"
proof
  assume "\<exists>s \<in> set (release k t). holds k s"
  then obtain j where j: "j < length t" "holds k (release k t ! j)"
    by (metis in_set_conv_nth length_release)
  show False
  proof (cases "first_index (holds k) t")
    case None
    then have "\<forall>s \<in> set t. \<not> holds k s" by (simp add: first_index_None)
    with None j show False by (simp add: release_def)
  next
    case (Some i)
    then have i: "i < length t" "holds k (t ! i)" by (auto dest: first_index_SomeD)
    from j Some i have "i \<noteq> j" by (auto simp: release_def)
    with j Some have "holds k (t ! j)" by (simp add: release_def)
    with i j \<open>i \<noteq> j\<close> assms show False by (auto simp: unique_keys_def holds_def)
  qed
qed

lemma unique_keys_put:
  assumes "unique_keys t" and "\<not> (\<exists>s \<in> set t. holds k s)"
  shows "unique_keys (put k x t)"
proof (cases "free_slot t")
  case None
  then show ?thesis using assms by (simp add: put_def)
next
  case (Some n)
  have fresh: "\<not> holds k (t ! i)" if "i < length t" for i
    using assms(2) that by (meson nth_mem)
  have n: "n < length t"
    using Some by (auto simp: free_slot_def dest: first_index_SomeD)
  show ?thesis
    unfolding unique_keys_def
  proof (intro allI impI)
    fix i j
    assume "i < length (put k x t)" "j < length (put k x t)"
      and "used (put k x t ! i)" "used (put k x t ! j)" "key (put k x t ! i) = key (put k x t ! j)"
    then show "i = j"
      using assms(1) fresh [of i] fresh [of j] n Some
      by (auto simp: unique_keys_def put_def nth_list_update used_fill key_fill holds_def
          split: if_splits)
  qed
qed

lemma unique_keys_release:
  assumes "unique_keys t"
  shows "unique_keys (release k t)"
proof (cases "first_index (holds k) t")
  case None
  with assms show ?thesis by (simp add: release_def)
next
  case (Some n)
  then have n: "n < length t" by (auto dest: first_index_SomeD)
  show ?thesis
    unfolding unique_keys_def
  proof (intro allI impI)
    fix i j
    assume "i < length (release k t)" "j < length (release k t)"
      and "used (release k t ! i)" "used (release k t ! j)"
      and "key (release k t ! i) = key (release k t ! j)"
    then show "i = j"
      using assms n Some
      by (auto simp: unique_keys_def release_def nth_list_update used_free split: if_splits)
  qed
qed

end

section \<open>Packed fields\<close>

text \<open>
  An encoded value (a time stamp, an ASDU header, an APCI) is read and written through
  accessors. A field is a pair of accessors with the values the setter accepts; the laws are
  those the callers rely on: what was set is read back, the last write wins, and writing
  what is there changes nothing.
\<close>

locale packed_field =
  fixes valid :: "'e \<Rightarrow> bool"
    and get :: "'e \<Rightarrow> 'v"
    and set_field :: "'v \<Rightarrow> 'e \<Rightarrow> 'e"
    and dom_field :: "'v \<Rightarrow> bool"
  assumes valid_set: "valid e \<Longrightarrow> dom_field v \<Longrightarrow> valid (set_field v e)"
    and get_set: "valid e \<Longrightarrow> dom_field v \<Longrightarrow> get (set_field v e) = v"
    and set_set: "valid e \<Longrightarrow> dom_field v \<Longrightarrow> dom_field w \<Longrightarrow> set_field w (set_field v e) = set_field w e"
begin

lemma set_idem: "valid e \<Longrightarrow> dom_field v \<Longrightarrow> set_field v (set_field v e) = set_field v e"
  by (rule set_set)

lemma get_set_fold:
  assumes "valid e" and "list_all dom_field vs" and "vs \<noteq> []"
  shows "get (fold set_field vs e) = last vs"
  using assms
proof (induction vs arbitrary: e)
  case Nil
  then show ?case by simp
next
  case (Cons v vs)
  then show ?case by (cases "vs = []") (auto simp: valid_set get_set)
qed

end

text \<open>Two fields of the same encoding that do not disturb each other.\<close>

locale independent_fields =
  a: packed_field valid get_a set_a dom_a + b: packed_field valid get_b set_b dom_b
  for valid :: "'e \<Rightarrow> bool" and get_a :: "'e \<Rightarrow> 'v" and set_a and dom_a
    and get_b :: "'e \<Rightarrow> 'w" and set_b and dom_b +
  assumes get_a_set_b: "valid e \<Longrightarrow> dom_b w \<Longrightarrow> get_a (set_b w e) = get_a e"
    and get_b_set_a: "valid e \<Longrightarrow> dom_a v \<Longrightarrow> get_b (set_a v e) = get_b e"
begin

lemma both_read_back:
  assumes "valid e" "dom_a v" "dom_b w"
  shows "get_a (set_b w (set_a v e)) = v \<and> get_b (set_b w (set_a v e)) = w"
  using assms by (simp add: a.valid_set a.get_set b.get_set get_a_set_b)

end

end
