(* ===== verification/Frame.thy ===== *)
theory Frame
  imports Prelude
begin

text \<open>
  The frame abstraction of lib60870 (\<open>inc/internal/frame.h\<close>, \<open>iec60870/frame.c\<close>): a table of
  virtual functions through which an information object writes itself, with its two
  implementations: the APDU buffer of the TCP link (\<open>cs104/cs104_frame.c\<close>) here, and the payload of an
  ASDU in the theory Asdu. The interface an encoder relies on is the locale below.
\<close>

section \<open>The virtual function table\<close>

record 'f frame_vft =
  vft_setNextByte :: "u8 \<Rightarrow> 'f \<Rightarrow> 'f"
  vft_appendBytes :: "bytes \<Rightarrow> 'f \<Rightarrow> 'f"
  vft_getSpaceLeft :: "'f \<Rightarrow> int"

definition Frame_setNextByte :: "'f frame_vft \<Rightarrow> u8 \<Rightarrow> 'f \<Rightarrow> 'f" where
  "Frame_setNextByte vt b f = vft_setNextByte vt b f"

definition Frame_appendBytes :: "'f frame_vft \<Rightarrow> bytes \<Rightarrow> 'f \<Rightarrow> 'f" where
  "Frame_appendBytes vt bs f = vft_appendBytes vt bs f"

definition Frame_getSpaceLeft :: "'f frame_vft \<Rightarrow> 'f \<Rightarrow> int" where
  "Frame_getSpaceLeft vt f = vft_getSpaceLeft vt f"

text \<open>
  What an encoder may rely on: writing within the space that is left appends to the contents
  and uses up exactly as much space.
\<close>

locale frame_interface =
  fixes vt :: "'f frame_vft"
    and contents :: "'f \<Rightarrow> bytes"
    and frame_wf :: "'f \<Rightarrow> bool"
  assumes set_contents: "frame_wf f \<Longrightarrow> 0 < Frame_getSpaceLeft vt f \<Longrightarrow>
      contents (Frame_setNextByte vt b f) = contents f @ [b]"
    and set_space: "frame_wf f \<Longrightarrow> 0 < Frame_getSpaceLeft vt f \<Longrightarrow>
      Frame_getSpaceLeft vt (Frame_setNextByte vt b f) = Frame_getSpaceLeft vt f - 1"
    and set_wf: "frame_wf f \<Longrightarrow> 0 < Frame_getSpaceLeft vt f \<Longrightarrow> frame_wf (Frame_setNextByte vt b f)"
    and append_contents: "frame_wf f \<Longrightarrow> int (length bs) \<le> Frame_getSpaceLeft vt f \<Longrightarrow>
      contents (Frame_appendBytes vt bs f) = contents f @ bs"
    and append_space: "frame_wf f \<Longrightarrow> int (length bs) \<le> Frame_getSpaceLeft vt f \<Longrightarrow>
      Frame_getSpaceLeft vt (Frame_appendBytes vt bs f) = Frame_getSpaceLeft vt f - int (length bs)"
    and append_wf: "frame_wf f \<Longrightarrow> int (length bs) \<le> Frame_getSpaceLeft vt f \<Longrightarrow>
      frame_wf (Frame_appendBytes vt bs f)"
begin

text \<open>\<open>extends f g bs\<close>: the frame \<open>g\<close> is \<open>f\<close> with \<open>bs\<close> written to it.\<close>

definition extends :: "'f \<Rightarrow> 'f \<Rightarrow> bytes \<Rightarrow> bool" where
  "extends f g bs \<longleftrightarrow> frame_wf g \<and> contents g = contents f @ bs \<and>
     Frame_getSpaceLeft vt g = Frame_getSpaceLeft vt f - int (length bs)"

lemma extends_refl: "frame_wf f \<Longrightarrow> extends f f []"
  by (simp add: extends_def)

lemma extends_set:
  "extends f g bs \<Longrightarrow> int (length bs) + 1 \<le> Frame_getSpaceLeft vt f \<Longrightarrow>
     extends f (Frame_setNextByte vt b g) (bs @ [b])"
  by (simp add: extends_def set_contents set_space set_wf)

lemma extends_append:
  "extends f g bs \<Longrightarrow> int (length bs + length cs) \<le> Frame_getSpaceLeft vt f \<Longrightarrow>
     extends f (Frame_appendBytes vt cs g) (bs @ cs)"
  by (simp add: extends_def append_contents append_space append_wf)

lemma extends_trans:
  "extends f g bs \<Longrightarrow> extends g h cs \<Longrightarrow> extends f h (bs @ cs)"
  by (simp add: extends_def)

end

section \<open>The APDU buffer\<close>

text \<open>\<open>struct sT104Frame\<close>: a buffer of 256 bytes, the first six for the APCI.\<close>

record t104_frame =
  t104_buffer :: bytes
  t104_msgSize :: nat

definition T104Frame_create :: "t104_frame" where
  "T104Frame_create = \<lparr>t104_buffer = (replicate 256 0)[0 := 0x68], t104_msgSize = 6\<rparr>"

definition T104Frame_resetFrame :: "t104_frame \<Rightarrow> t104_frame" where
  "T104Frame_resetFrame f = f\<lparr>t104_msgSize := 6\<rparr>"

text \<open>Length byte and the two sequence numbers of the APCI.\<close>

definition T104Frame_prepareToSend :: "int \<Rightarrow> int \<Rightarrow> t104_frame \<Rightarrow> t104_frame" where
  "T104Frame_prepareToSend sendCounter receiveCounter f =
     f\<lparr>t104_buffer := (t104_buffer f)
        [1 := word_of_int (int (t104_msgSize f) - 2),
         2 := word_of_int (c_mod sendCounter 128 * 2),
         3 := word_of_int (c_div sendCounter 128),
         4 := word_of_int (c_mod receiveCounter 128 * 2),
         5 := word_of_int (c_div receiveCounter 128)]\<rparr>"

definition T104Frame_setNextByte :: "u8 \<Rightarrow> t104_frame \<Rightarrow> t104_frame" where
  "T104Frame_setNextByte b f =
     f\<lparr>t104_buffer := (t104_buffer f)[t104_msgSize f := b], t104_msgSize := t104_msgSize f + 1\<rparr>"

fun write_at :: "nat \<Rightarrow> bytes \<Rightarrow> bytes \<Rightarrow> bytes" where
  "write_at i [] buf = buf"
| "write_at i (b # bs) buf = write_at (Suc i) bs (buf[i := b])"

definition T104Frame_appendBytes :: "bytes \<Rightarrow> t104_frame \<Rightarrow> t104_frame" where
  "T104Frame_appendBytes bs f =
     f\<lparr>t104_buffer := write_at (t104_msgSize f) bs (t104_buffer f),
       t104_msgSize := t104_msgSize f + length bs\<rparr>"

definition T104Frame_getMsgSize :: "t104_frame \<Rightarrow> nat" where
  "T104Frame_getMsgSize f = t104_msgSize f"

definition T104Frame_getSpaceLeft :: "t104_frame \<Rightarrow> int" where
  "T104Frame_getSpaceLeft f = 249 + 6 - int (t104_msgSize f)"

definition t104FrameVFT :: "t104_frame frame_vft" where
  "t104FrameVFT = \<lparr>vft_setNextByte = T104Frame_setNextByte,
     vft_appendBytes = T104Frame_appendBytes, vft_getSpaceLeft = T104Frame_getSpaceLeft\<rparr>"

definition t104_wf :: "t104_frame \<Rightarrow> bool" where
  "t104_wf f \<longleftrightarrow> length (t104_buffer f) = 256 \<and> 6 \<le> t104_msgSize f \<and> t104_msgSize f \<le> 255"

definition t104_contents :: "t104_frame \<Rightarrow> bytes" where
  "t104_contents f = drop 6 (take (t104_msgSize f) (t104_buffer f))"

lemma length_write_at [simp]: "length (write_at i bs buf) = length buf"
  by (induction i bs buf rule: write_at.induct) simp_all

lemma take_write_at: "n \<le> i \<Longrightarrow> take n (write_at i bs buf) = take n buf"
  by (induction i bs buf rule: write_at.induct) simp_all

lemma nth_write_at: "j < i \<Longrightarrow> write_at i bs buf ! j = buf ! j"
  by (induction i bs buf rule: write_at.induct) simp_all

lemma take_through_write_at:
  "i + length bs \<le> length buf \<Longrightarrow> take (i + length bs) (write_at i bs buf) = take i buf @ bs"
proof (induction i bs buf rule: write_at.induct)
  case (1 i buf)
  then show ?case by simp
next
  case (2 i b bs buf)
  then have "take (Suc i + length bs) (write_at (Suc i) bs (buf[i := b])) =
      take (Suc i) (buf[i := b]) @ bs"
    by simp
  also have "take (Suc i) (buf[i := b]) = take i buf @ [b]"
    using 2 by (simp add: take_Suc_conv_app_nth)
  finally show ?case by simp
qed

lemma t104_wf_create: "t104_wf T104Frame_create"
  by (simp add: t104_wf_def T104Frame_create_def)

lemma t104_contents_create [simp]: "t104_contents T104Frame_create = []"
  by (simp add: t104_contents_def T104Frame_create_def)

lemma t104_setNextByte_append: "T104Frame_setNextByte b f = T104Frame_appendBytes [b] f"
  by (simp add: T104Frame_setNextByte_def T104Frame_appendBytes_def)

lemma t104_append_facts:
  assumes "t104_wf f" "int (length bs) \<le> T104Frame_getSpaceLeft f"
  shows "t104_contents (T104Frame_appendBytes bs f) = t104_contents f @ bs"
    and "t104_wf (T104Frame_appendBytes bs f)"
    and "T104Frame_getSpaceLeft (T104Frame_appendBytes bs f) =
      T104Frame_getSpaceLeft f - int (length bs)"
proof -
  have "t104_msgSize f + length bs \<le> length (t104_buffer f)"
    using assms by (simp add: t104_wf_def T104Frame_getSpaceLeft_def)
  from take_through_write_at [OF this]
  show "t104_contents (T104Frame_appendBytes bs f) = t104_contents f @ bs"
    using assms(1) by (simp add: t104_contents_def T104Frame_appendBytes_def t104_wf_def)
qed (use assms in \<open>auto simp: t104_wf_def T104Frame_getSpaceLeft_def T104Frame_appendBytes_def\<close>)

interpretation t104: frame_interface t104FrameVFT t104_contents t104_wf
  by unfold_locales
    (simp_all add: Frame_setNextByte_def Frame_appendBytes_def Frame_getSpaceLeft_def t104FrameVFT_def
      t104_setNextByte_append t104_append_facts)

lemma t104_prepareToSend_contents [simp]:
  "t104_contents (T104Frame_prepareToSend s r f) = t104_contents f"
  by (simp add: t104_contents_def T104Frame_prepareToSend_def drop_take drop_update_cancel)

lemma t104_prepareToSend_wf: "t104_wf f \<Longrightarrow> t104_wf (T104Frame_prepareToSend s r f)"
  by (simp add: t104_wf_def T104Frame_prepareToSend_def)

end
