(* ===== verification/Soft_Float.thy ===== *)
theory Soft_Float
  imports Prelude
begin

text \<open>
  IEEE 754 arithmetic of the C types \<open>float\<close> and \<open>double\<close> on their bit patterns, as far as
  the servers use it: widening and narrowing, subtraction, multiplication, division, absolute
  value, comparison and the conversions to integers, with round to nearest, ties to even
  (\<open>FLT_EVAL_METHOD\<close> 0). A NaN result is the canonical quiet NaN. A conversion to an integer
  type that cannot hold the truncated value is undefined in C; it is None here.
  Values are exact: \<open>Fin s m e\<close> is \<open>(-1)^s * m * 2^e\<close>.
\<close>

section \<open>Exact values\<close>

datatype fval = NaN | Inf bool | Fin bool nat int

fun bitlen :: "nat \<Rightarrow> nat" where
  "bitlen n = (if n = 0 then 0 else Suc (bitlen (n div 2)))"

declare bitlen.simps [simp del]

lemma bitlen_0 [simp]: "bitlen 0 = 0"
  by (simp add: bitlen.simps)

lemma bitlen_le: "n < 2 ^ k \<Longrightarrow> bitlen n \<le> k"
proof (induction k arbitrary: n)
  case 0
  then show ?case by simp
next
  case (Suc k)
  then have "n div 2 < 2 ^ k" by auto
  then have "bitlen (n div 2) \<le> k" by (rule Suc.IH)
  then show ?case by (subst bitlen.simps) simp
qed

lemma bitlen_ge: "2 ^ k \<le> n \<Longrightarrow> k < bitlen n"
proof (induction k arbitrary: n)
  case 0
  then show ?case by (subst bitlen.simps) simp
next
  case (Suc k)
  then have "2 ^ k \<le> n div 2" by auto
  then have "k < bitlen (n div 2)" by (rule Suc.IH)
  moreover have "n \<noteq> 0" using Suc.prems by (metis not_le zero_less_numeral zero_less_power)
  ultimately show ?case by (subst bitlen.simps) simp
qed

lemma bitlen_exact: "2 ^ k \<le> n \<Longrightarrow> n < 2 ^ Suc k \<Longrightarrow> bitlen n = Suc k"
  by (intro antisym bitlen_le Suc_leI bitlen_ge)

section \<open>Decoding and rounding, for \<open>mb\<close> fraction bits and \<open>eb\<close> exponent bits\<close>

definition fp_emin :: "nat \<Rightarrow> nat \<Rightarrow> int" where
  "fp_emin mb eb = 2 - 2 ^ (eb - 1) - int mb"

definition fp_decode :: "nat \<Rightarrow> nat \<Rightarrow> nat \<Rightarrow> fval" where
  "fp_decode mb eb n =
     (let s = odd (n div 2 ^ (mb + eb)); ex = (n div 2 ^ mb) mod 2 ^ eb; fr = n mod 2 ^ mb
      in if ex = 2 ^ eb - 1 then (if fr = 0 then Inf s else NaN)
         else if ex = 0 then Fin s fr (fp_emin mb eb)
         else Fin s (fr + 2 ^ mb) (fp_emin mb eb + int ex - 1))"

text \<open>Round to nearest, ties to even, after dropping \<open>sh\<close> low bits.\<close>

definition round_shift :: "nat \<Rightarrow> nat \<Rightarrow> nat" where
  "round_shift m sh =
     (let q = m div 2 ^ sh; r = m mod 2 ^ sh; half = 2 ^ (sh - 1)
      in if sh = 0 then m else if half < r \<or> (r = half \<and> odd q) then Suc q else q)"

definition fp_round_fin :: "nat \<Rightarrow> nat \<Rightarrow> nat \<Rightarrow> int \<Rightarrow> nat" where
  "fp_round_fin mb eb m e =
     (let sh = max (int (bitlen m) - int (mb + 1)) (fp_emin mb eb - e);
          q = (if sh \<le> 0 then m * 2 ^ nat (- sh) else round_shift m (nat sh));
          n = nat (e + sh - fp_emin mb eb) * 2 ^ mb + q;
          big = (2 ^ eb - 1) * 2 ^ mb
      in if m = 0 then 0 else if big \<le> n then big else n)"

definition fp_encode :: "nat \<Rightarrow> nat \<Rightarrow> fval \<Rightarrow> nat" where
  "fp_encode mb eb v =
     (case v of NaN \<Rightarrow> (2 ^ eb - 1) * 2 ^ mb + 2 ^ (mb - 1)
      | Inf s \<Rightarrow> of_bool s * 2 ^ (mb + eb) + (2 ^ eb - 1) * 2 ^ mb
      | Fin s m e \<Rightarrow> of_bool s * 2 ^ (mb + eb) + fp_round_fin mb eb m e)"

lemma fp_round_exact_sub:
  "m < 2 ^ mb \<Longrightarrow> 1 < eb \<Longrightarrow> fp_round_fin mb eb m (fp_emin mb eb) = m"
proof -
  assume m: "m < 2 ^ mb" and eb: "1 < eb"
  from m have "bitlen m \<le> mb" by (rule bitlen_le)
  have "(2::nat) ^ 1 \<le> 2 ^ eb" using eb by (intro power_increasing) simp_all
  then have "(1::nat) \<le> 2 ^ eb - 1" by simp
  then have "(1::nat) * 2 ^ mb \<le> (2 ^ eb - 1) * 2 ^ mb" by (rule mult_le_mono1)
  with m have "m < (2 ^ eb - 1) * 2 ^ mb" by linarith
  then show ?thesis using \<open>bitlen m \<le> mb\<close>
    by (simp add: fp_round_fin_def Let_def)
qed

lemma fp_round_exact_norm:
  assumes "2 ^ mb \<le> m" "m < 2 ^ Suc mb" "1 \<le> ex" "ex < 2 ^ eb - 1"
  shows "fp_round_fin mb eb m (fp_emin mb eb + int ex - 1) = ex * 2 ^ mb + (m - 2 ^ mb)"
proof -
  have bl: "bitlen m = Suc mb" using assms(1,2) by (rule bitlen_exact)
  have sh: "max (int (bitlen m) - int (mb + 1)) (fp_emin mb eb - (fp_emin mb eb + int ex - 1)) = 0"
    using assms(3) by (simp add: bl)
  have n: "nat (fp_emin mb eb + int ex - 1 - fp_emin mb eb) * 2 ^ mb + m
      = ex * 2 ^ mb + (m - 2 ^ mb)"
    using assms(1,3) by (cases ex) (auto simp: nat_add_distrib algebra_simps)
  have "ex * 2 ^ mb + (m - 2 ^ mb) < (ex + 1) * 2 ^ mb"
    using assms(1,2) by (simp add: algebra_simps)
  also have "\<dots> \<le> (2 ^ eb - 1) * 2 ^ mb"
    using assms(4) by (intro mult_le_mono1) simp
  finally have "ex * 2 ^ mb + (m - 2 ^ mb) < (2 ^ eb - 1) * 2 ^ mb" .
  moreover have "m \<noteq> 0" using assms(1) by (metis not_le zero_less_numeral zero_less_power)
  ultimately show ?thesis
    unfolding fp_round_fin_def Let_def sh using n by simp
qed

text \<open>Rounding loses nothing on a value the format already represents.\<close>

lemma fp_encode_decode:
  assumes "n < 2 ^ Suc (mb + eb)" and "1 < eb" and "fp_decode mb eb n \<noteq> NaN"
  shows "fp_encode mb eb (fp_decode mb eb n) = n"
proof -
  define s where "s = n div 2 ^ (mb + eb)"
  define ex where "ex = (n div 2 ^ mb) mod 2 ^ eb"
  define fr where "fr = n mod 2 ^ mb"
  have "s < 2" using assms(1) by (simp add: s_def less_mult_imp_div_less)
  then have s: "of_bool (odd s) = s" by (cases s) (auto simp: less_Suc_eq numeral_2_eq_2)
  have fr: "fr < 2 ^ mb" by (simp add: fr_def)
  have ex: "ex < 2 ^ eb" by (simp add: ex_def)
  have "s = (n div 2 ^ mb) div 2 ^ eb"
    by (simp add: s_def div_mult2_eq [symmetric] power_add)
  then have "n div 2 ^ mb = s * 2 ^ eb + ex" unfolding ex_def by (metis div_mult_mod_eq)
  moreover have "n = (n div 2 ^ mb) * 2 ^ mb + fr" unfolding fr_def by (metis div_mult_mod_eq)
  ultimately have "n = (s * 2 ^ eb + ex) * 2 ^ mb + fr" by simp
  then have n: "n = s * 2 ^ (mb + eb) + (ex * 2 ^ mb + fr)"
    by (simp add: power_add algebra_simps)
  have dec: "fp_decode mb eb n =
      (if ex = 2 ^ eb - 1 then (if fr = 0 then Inf (odd s) else NaN)
       else if ex = 0 then Fin (odd s) fr (fp_emin mb eb)
       else Fin (odd s) (fr + 2 ^ mb) (fp_emin mb eb + int ex - 1))"
    by (simp add: fp_decode_def Let_def s_def ex_def fr_def)
  consider "ex = 2 ^ eb - 1" "fr = 0" | "ex \<noteq> 2 ^ eb - 1" "ex = 0"
    | "ex \<noteq> 2 ^ eb - 1" "1 \<le> ex"
    using assms(3) dec by (metis One_nat_def Suc_leI neq0_conv)
  then show ?thesis
  proof cases
    case 1
    then have "fp_encode mb eb (fp_decode mb eb n) = s * 2 ^ (mb + eb) + ex * 2 ^ mb"
      using s by (simp add: dec fp_encode_def)
    then show ?thesis using 1 by (simp add: n)
  next
    case 2
    then have "fp_encode mb eb (fp_decode mb eb n) = s * 2 ^ (mb + eb) + fr"
      using s fp_round_exact_sub [OF fr assms(2)] by (simp add: dec fp_encode_def)
    then show ?thesis using 2 by (simp add: n)
  next
    case 3
    then have "ex < 2 ^ eb - 1" using ex by linarith
    then have "fp_round_fin mb eb (fr + 2 ^ mb) (fp_emin mb eb + int ex - 1) = ex * 2 ^ mb + fr"
      using fp_round_exact_norm [of mb "fr + 2 ^ mb" ex eb] 3 fr by simp
    with 3 have "fp_encode mb eb (fp_decode mb eb n) = s * 2 ^ (mb + eb) + (ex * 2 ^ mb + fr)"
      using s by (simp add: dec fp_encode_def)
    then show ?thesis by (simp add: n)
  qed
qed

section \<open>Operations on exact values\<close>

fun fv_neg :: "fval \<Rightarrow> fval" where
  "fv_neg NaN = NaN"
| "fv_neg (Inf s) = Inf (\<not> s)"
| "fv_neg (Fin s m e) = Fin (\<not> s) m e"

fun fv_abs :: "fval \<Rightarrow> fval" where
  "fv_abs NaN = NaN"
| "fv_abs (Inf s) = Inf False"
| "fv_abs (Fin s m e) = Fin False m e"

definition signed :: "bool \<Rightarrow> nat \<Rightarrow> int" where
  "signed s m = (if s then - int m else int m)"

text \<open>The exact sum; a zero sum is positive unless both operands are negative.\<close>

fun fv_add :: "fval \<Rightarrow> fval \<Rightarrow> fval" where
  "fv_add NaN _ = NaN"
| "fv_add _ NaN = NaN"
| "fv_add (Inf s) (Inf t) = (if s = t then Inf s else NaN)"
| "fv_add (Inf s) _ = Inf s"
| "fv_add _ (Inf t) = Inf t"
| "fv_add (Fin s m e) (Fin t n f) =
     (let g = min e f;
          v = signed s m * 2 ^ nat (e - g) + signed t n * 2 ^ nat (f - g)
      in Fin (if v = 0 then s \<and> t else v < 0) (nat \<bar>v\<bar>) g)"

fun fv_mul :: "fval \<Rightarrow> fval \<Rightarrow> fval" where
  "fv_mul NaN _ = NaN"
| "fv_mul _ NaN = NaN"
| "fv_mul (Inf s) (Inf t) = Inf (s \<noteq> t)"
| "fv_mul (Inf s) (Fin t n f) = (if n = 0 then NaN else Inf (s \<noteq> t))"
| "fv_mul (Fin s m e) (Inf t) = (if m = 0 then NaN else Inf (s \<noteq> t))"
| "fv_mul (Fin s m e) (Fin t n f) = Fin (s \<noteq> t) (m * n) (e + f)"

text \<open>
  The quotient to more than enough bits for a correct rounding: 64 bits below the dividend, and a
  last bit that is set when the division is not exact.
\<close>

fun fv_div :: "fval \<Rightarrow> fval \<Rightarrow> fval" where
  "fv_div NaN _ = NaN"
| "fv_div _ NaN = NaN"
| "fv_div (Inf s) (Inf t) = NaN"
| "fv_div (Inf s) (Fin t n f) = Inf (s \<noteq> t)"
| "fv_div (Fin s m e) (Inf t) = Fin (s \<noteq> t) 0 0"
| "fv_div (Fin s m e) (Fin t n f) =
     (if n = 0 then (if m = 0 then NaN else Inf (s \<noteq> t))
      else let k = m * 2 ^ 64
           in Fin (s \<noteq> t) (2 * (k div n) + of_bool (k mod n \<noteq> 0)) (e - f - 65))"

text \<open>The order of the real values; every comparison with NaN is false.\<close>

fun fv_less :: "fval \<Rightarrow> fval \<Rightarrow> bool" where
  "fv_less NaN _ = False"
| "fv_less _ NaN = False"
| "fv_less (Inf s) (Inf t) = (s \<and> \<not> t)"
| "fv_less (Inf s) (Fin t n f) = s"
| "fv_less (Fin s m e) (Inf t) = (\<not> t)"
| "fv_less (Fin s m e) (Fin t n f) =
     (let g = min e f in signed s m * 2 ^ nat (e - g) < signed t n * 2 ^ nat (f - g))"

fun fv_eq :: "fval \<Rightarrow> fval \<Rightarrow> bool" where
  "fv_eq NaN _ = False"
| "fv_eq _ NaN = False"
| "fv_eq (Inf s) (Inf t) = (s = t)"
| "fv_eq (Inf s) (Fin t n f) = False"
| "fv_eq (Fin s m e) (Inf t) = False"
| "fv_eq (Fin s m e) (Fin t n f) =
     (let g = min e f in signed s m * 2 ^ nat (e - g) = signed t n * 2 ^ nat (f - g))"

definition fv_le :: "fval \<Rightarrow> fval \<Rightarrow> bool" where
  "fv_le a b \<longleftrightarrow> fv_less a b \<or> fv_eq a b"

text \<open>The integer a value truncates to (towards zero); None for NaN and the infinities.\<close>

fun fv_trunc :: "fval \<Rightarrow> int option" where
  "fv_trunc NaN = None"
| "fv_trunc (Inf s) = None"
| "fv_trunc (Fin s m e) =
     Some (signed s (if 0 \<le> e then m * 2 ^ nat e else m div 2 ^ nat (- e)))"

section \<open>The C types\<close>

type_synonym f32 = u32
type_synonym f64 = u64

definition f32_val :: "f32 \<Rightarrow> fval" where
  "f32_val w = fp_decode 23 8 (unat w)"

definition f64_val :: "f64 \<Rightarrow> fval" where
  "f64_val w = fp_decode 52 11 (unat w)"

definition f32_of :: "fval \<Rightarrow> f32" where
  "f32_of v = word_of_nat (fp_encode 23 8 v)"

definition f64_of :: "fval \<Rightarrow> f64" where
  "f64_of v = word_of_nat (fp_encode 52 11 v)"

lemma f32_of_val: "f32_val w \<noteq> NaN \<Longrightarrow> f32_of (f32_val w) = w"
proof -
  assume "f32_val w \<noteq> NaN"
  moreover have "unat w < 2 ^ Suc (23 + 8)"
    by (rule order.strict_trans2 [OF unsigned_less]) simp
  ultimately have "fp_encode 23 8 (f32_val w) = unat w"
    unfolding f32_val_def by (intro fp_encode_decode) simp_all
  then show "f32_of (f32_val w) = w" by (simp add: f32_of_def)
qed

definition f32_sub :: "f32 \<Rightarrow> f32 \<Rightarrow> f32" where
  "f32_sub a b = f32_of (fv_add (f32_val a) (fv_neg (f32_val b)))"

definition f32_mul :: "f32 \<Rightarrow> f32 \<Rightarrow> f32" where
  "f32_mul a b = f32_of (fv_mul (f32_val a) (f32_val b))"

definition f32_div :: "f32 \<Rightarrow> f32 \<Rightarrow> f32" where
  "f32_div a b = f32_of (fv_div (f32_val a) (f32_val b))"

definition f32_abs :: "f32 \<Rightarrow> f32" where
  "f32_abs a = f32_of (fv_abs (f32_val a))"

definition f32_less :: "f32 \<Rightarrow> f32 \<Rightarrow> bool" where
  "f32_less a b = fv_less (f32_val a) (f32_val b)"

definition f32_le :: "f32 \<Rightarrow> f32 \<Rightarrow> bool" where
  "f32_le a b = fv_le (f32_val a) (f32_val b)"

text \<open>\<open>(float) d\<close> and \<open>(double) f\<close>.\<close>

definition f32_of_f64 :: "f64 \<Rightarrow> f32" where
  "f32_of_f64 d = f32_of (f64_val d)"

definition f64_of_f32 :: "f32 \<Rightarrow> f64" where
  "f64_of_f32 f = f64_of (f32_val f)"

definition f64_sub :: "f64 \<Rightarrow> f64 \<Rightarrow> f64" where
  "f64_sub a b = f64_of (fv_add (f64_val a) (fv_neg (f64_val b)))"

text \<open>\<open>(T) x\<close> for an integer type with the given bounds.\<close>

definition fv_to_int :: "int \<Rightarrow> int \<Rightarrow> fval \<Rightarrow> int option" where
  "fv_to_int lo hi v =
     (case fv_trunc v of None \<Rightarrow> None | Some i \<Rightarrow> if lo \<le> i \<and> i \<le> hi then Some i else None)"

definition f32_finite :: "f32 \<Rightarrow> bool" where
  "f32_finite a = (case f32_val a of Fin _ _ _ \<Rightarrow> True | _ \<Rightarrow> False)"

text \<open>The literals of the C code.\<close>

definition f32_0 :: f32 where "f32_0 = 0"
definition f32_1 :: f32 where "f32_1 = 0x3F800000"
definition f32_neg1 :: f32 where "f32_neg1 = 0xBF800000"
definition f32_100 :: f32 where "f32_100 = 0x42C80000"
definition f32_1em4 :: f32 where "f32_1em4 = 0x38D1B717"
definition f32_1em6 :: f32 where "f32_1em6 = 0x358637BD"
definition f32_32767 :: f32 where "f32_32767 = 0x46FFFE00"
definition f32_32767_5 :: f32 where "f32_32767_5 = 0x46FFFF00"
definition f64_half :: f64 where "f64_half = 0x3FE0000000000000"

lemmas f32_consts = f32_0_def f32_1_def f32_neg1_def f32_100_def f32_1em4_def f32_1em6_def
  f32_32767_def f32_32767_5_def f64_half_def

section \<open>Facts used by the components\<close>

lemma f32_val_0 [simp]: "f32_val 0 = Fin False 0 (-149)"
  by (simp add: f32_val_def fp_decode_def fp_emin_def Let_def)

lemma f32_of_zero [simp]: "f32_of (Fin False 0 e) = 0"
  by (simp add: f32_of_def fp_encode_def fp_round_fin_def)

lemma f32_sub_self: "f32_finite a \<Longrightarrow> f32_sub a a = 0"
  by (cases "f32_val a") (auto simp: f32_sub_def f32_finite_def Let_def signed_def)

lemma f32_abs_0 [simp]: "f32_abs 0 = 0"
  by (simp add: f32_abs_def)

lemma f32_NaN_less [simp]: "f32_val a = NaN \<Longrightarrow> \<not> f32_less a b"
  by (simp add: f32_less_def)

lemma f32_NaN_le [simp]: "f32_val a = NaN \<Longrightarrow> \<not> f32_le a b"
  by (simp add: f32_le_def fv_le_def)

lemma f32_val_NaN: "f32_val 0x7FC00000 = NaN"
  by (simp add: f32_val_def fp_decode_def Let_def)

lemma f32_of_NaN: "f32_val (f32_of NaN) = NaN"
  by (simp add: f32_of_def fp_encode_def f32_val_NaN)

lemma f32_sub_NaN: "f32_val a = NaN \<or> f32_val b = NaN \<Longrightarrow> f32_val (f32_sub a b) = NaN"
  by (cases "f32_val a"; cases "f32_val b") (auto simp: f32_sub_def f32_of_NaN)

lemma f32_abs_NaN: "f32_val a = NaN \<Longrightarrow> f32_val (f32_abs a) = NaN"
  by (simp add: f32_abs_def f32_of_NaN)

lemma f32_less_irrefl: "\<not> f32_less a a"
  by (cases "f32_val a") (auto simp: f32_less_def)

lemma f32_val_1em4: "f32_val f32_1em4 = Fin False 13743895 (-37)"
  by (simp add: f32_consts f32_val_def fp_decode_def Let_def fp_emin_def)

lemma f32_zero_less_1em4: "f32_less 0 f32_1em4"
  unfolding f32_less_def by (simp add: f32_val_1em4 signed_def Let_def)

end
