(* ===== verification/Info_Objects.thy ===== *)
theory Info_Objects
  imports Frame Soft_Float
begin

text \<open>
  The monitored information objects the servers send (\<open>cs101/cs101_information_objects.c\<close>) and the
  binary counter reading (\<open>cs101/cs101_bcr.c\<close>): construction from a value, encoding through the
  frame interface, and the layout of the encoding as a specification. An object is encoded
  completely or, when the frame has no room, not at all.
\<close>

section \<open>Application layer parameters\<close>

record app_layer_params =
  sizeOfTypeId :: int
  sizeOfVSQ :: int
  sizeOfCOT :: int
  originatorAddress :: int
  sizeOfCA :: int
  sizeOfIOA :: int
  maxSizeOfASDU :: int

text \<open>The values the standard and the comments of the struct allow.\<close>

definition params_ok :: "app_layer_params \<Rightarrow> bool" where
  "params_ok p \<longleftrightarrow> sizeOfCOT p \<in> {1, 2} \<and> sizeOfCA p \<in> {1, 2} \<and> sizeOfIOA p \<in> {1, 2, 3} \<and>
     16 \<le> maxSizeOfASDU p \<and> maxSizeOfASDU p \<le> 254"

text \<open>\<open>defaultAppLayerParameters\<close> of \<open>cs104/cs104_slave.c\<close>.\<close>

definition defaultAppLayerParameters :: app_layer_params where
  "defaultAppLayerParameters = \<lparr>sizeOfTypeId = 1, sizeOfVSQ = 1, sizeOfCOT = 2, originatorAddress = 0,
     sizeOfCA = 2, sizeOfIOA = 3, maxSizeOfASDU = 249\<rparr>"

lemma default_params_ok [simp]: "params_ok defaultAppLayerParameters"
  by (simp add: params_ok_def defaultAppLayerParameters_def)

lemma default_params_simps [simp]:
  "sizeOfCOT defaultAppLayerParameters = 2" "sizeOfCA defaultAppLayerParameters = 2"
  "sizeOfIOA defaultAppLayerParameters = 3" "maxSizeOfASDU defaultAppLayerParameters = 249"
  by (simp_all add: defaultAppLayerParameters_def)

section \<open>Scaled values\<close>

definition getScaledValue :: "bytes \<Rightarrow> int" where
  "getScaledValue ev =
     (let value = uint (ev ! 0) + uint (ev ! 1) * 0x100
      in if value > 32767 then value - 65536 else value)"

definition setScaledValue :: "int \<Rightarrow> bytes" where
  "setScaledValue value =
     (let valueToEncode = (if value < 0 then value + 65536 else value)
      in [word_of_int (c_mod valueToEncode 256), word_of_int (c_div valueToEncode 256)])"

lemma length_setScaledValue [simp]: "length (setScaledValue v) = 2"
  by (simp add: setScaledValue_def Let_def)

lemma getScaledValue_setScaledValue:
  assumes "-32768 \<le> v" "v \<le> 32767"
  shows "getScaledValue (setScaledValue v) = v"
proof -
  define w where "w = (if v < 0 then v + 65536 else v)"
  have w: "0 \<le> w" "w < 65536" using assms by (auto simp: w_def)
  have "uint (word_of_int (w mod 256) :: u8) = w mod 256"
    by (simp add: uint_word_of_int)
  moreover have "uint (word_of_int (w div 256) :: u8) = w div 256"
    using w by (simp add: uint_word_of_int)
  moreover have "w mod 256 + w div 256 * 256 = w" by simp
  ultimately have "getScaledValue (setScaledValue v) = (if w > 32767 then w - 65536 else w)"
    using w by (simp add: getScaledValue_def setScaledValue_def Let_def flip: w_def)
      (simp add: c_arith)
  then show ?thesis using assms by (simp add: w_def)
qed

text \<open>
  \<open>setValue\<close> of the normalized values: clamp to [-1, 1], scale, truncate. Only NaN passes the clamp
  unchanged, and its conversion to int is undefined: None.
\<close>

definition f32_clamp1 :: "f32 \<Rightarrow> f32" where
  "f32_clamp1 value =
     (if f32_less f32_1 value then f32_1 else if f32_less value f32_neg1 then f32_neg1 else value)"

definition c_int_of :: "fval \<Rightarrow> int option" where
  "c_int_of v = fv_to_int (- (2 ^ 31)) (2 ^ 31 - 1) v"

definition MeasuredValueNormalized_setValue :: "f32 \<Rightarrow> bytes option" where
  "MeasuredValueNormalized_setValue value =
     map_option setScaledValue (c_int_of (f32_val (f32_mul (f32_clamp1 value) f32_32767)))"

definition MeasuredValueNormalizedWithoutQuality_setValue :: "f32 \<Rightarrow> bytes option" where
  "MeasuredValueNormalizedWithoutQuality_setValue value =
     map_option setScaledValue
       (c_int_of (f64_val (f64_sub (f64_of_f32 (f32_mul (f32_clamp1 value) f32_32767_5)) f64_half)))"

section \<open>Binary counter readings\<close>

text \<open>\<open>struct sBinaryCounterReading\<close> is its five encoded bytes; creation starts from the
  uninitialised memory \<open>mem\<close> that malloc returns.\<close>

definition BinaryCounterReading_setValue :: "u32 \<Rightarrow> bytes \<Rightarrow> bytes" where
  "BinaryCounterReading_setValue value ev =
     ev[0 := le_bytes 4 value ! 0, 1 := le_bytes 4 value ! 1, 2 := le_bytes 4 value ! 2,
        3 := le_bytes 4 value ! 3]"

definition BinaryCounterReading_getValue :: "bytes \<Rightarrow> u32" where
  "BinaryCounterReading_getValue ev = word_of_nat (of_le_bytes [ev ! 0, ev ! 1, ev ! 2, ev ! 3])"

definition BinaryCounterReading_setSequenceNumber :: "int \<Rightarrow> bytes \<Rightarrow> bytes" where
  "BinaryCounterReading_setSequenceNumber value ev =
     ev[4 := (ev ! 4 AND 0xe0) OR (word_of_int value AND 0x1f)]"

definition BinaryCounterReading_setCarry :: "bool \<Rightarrow> bytes \<Rightarrow> bytes" where
  "BinaryCounterReading_setCarry value ev =
     ev[4 := (if value then ev ! 4 OR 0x20 else ev ! 4 AND 0xdf)]"

definition BinaryCounterReading_setAdjusted :: "bool \<Rightarrow> bytes \<Rightarrow> bytes" where
  "BinaryCounterReading_setAdjusted value ev =
     ev[4 := (if value then ev ! 4 OR 0x40 else ev ! 4 AND 0xbf)]"

definition BinaryCounterReading_setInvalid :: "bool \<Rightarrow> bytes \<Rightarrow> bytes" where
  "BinaryCounterReading_setInvalid value ev =
     ev[4 := (if value then ev ! 4 OR 0x80 else ev ! 4 AND 0x7f)]"

definition BinaryCounterReading_getSequenceNumber :: "bytes \<Rightarrow> int" where
  "BinaryCounterReading_getSequenceNumber ev = uint (ev ! 4 AND 0x1f)"

definition BinaryCounterReading_hasCarry :: "bytes \<Rightarrow> bool" where
  "BinaryCounterReading_hasCarry ev \<longleftrightarrow> ev ! 4 AND 0x20 = 0x20"

definition BinaryCounterReading_isAdjusted :: "bytes \<Rightarrow> bool" where
  "BinaryCounterReading_isAdjusted ev \<longleftrightarrow> ev ! 4 AND 0x40 = 0x40"

definition BinaryCounterReading_isInvalid :: "bytes \<Rightarrow> bool" where
  "BinaryCounterReading_isInvalid ev \<longleftrightarrow> ev ! 4 AND 0x80 = 0x80"

definition BinaryCounterReading_create ::
    "bytes \<Rightarrow> u32 \<Rightarrow> int \<Rightarrow> bool \<Rightarrow> bool \<Rightarrow> bool \<Rightarrow> bytes" where
  "BinaryCounterReading_create mem value seqNumber hasCarry adjusted invalid =
     BinaryCounterReading_setInvalid invalid
       (BinaryCounterReading_setAdjusted adjusted
         (BinaryCounterReading_setCarry hasCarry
           (BinaryCounterReading_setSequenceNumber seqNumber
             (BinaryCounterReading_setValue value mem))))"

lemmas bcr_setters = BinaryCounterReading_setValue_def BinaryCounterReading_setSequenceNumber_def
  BinaryCounterReading_setCarry_def BinaryCounterReading_setAdjusted_def
  BinaryCounterReading_setInvalid_def

lemmas bcr_getters = BinaryCounterReading_getValue_def BinaryCounterReading_getSequenceNumber_def
  BinaryCounterReading_hasCarry_def BinaryCounterReading_isAdjusted_def
  BinaryCounterReading_isInvalid_def

text \<open>A counter reading in memory: five bytes. The fields do not disturb each other.\<close>

definition bcr_wf :: "bytes \<Rightarrow> bool" where
  "bcr_wf ev \<longleftrightarrow> length ev = 5"

lemma le_bytes_4: "le_bytes 4 w = [le_bytes 4 w ! 0, le_bytes 4 w ! 1, le_bytes 4 w ! 2, le_bytes 4 w ! 3]"
  by (simp add: le_bytes_def upt_rec)

lemma bcr_wf_iff: "bcr_wf ev \<longleftrightarrow> (\<exists>a b c d e. ev = [a, b, c, d, e])"
  by (auto simp: bcr_wf_def numeral_eq_Suc length_Suc_conv)

lemma bcr_getValue_setValue:
  assumes "bcr_wf ev"
  shows "BinaryCounterReading_getValue (BinaryCounterReading_setValue v ev) = v"
proof -
  let ?w = "BinaryCounterReading_setValue v ev"
  have "[?w ! 0, ?w ! 1, ?w ! 2, ?w ! 3] = le_bytes 4 v"
    using assms by (subst le_bytes_4) (simp add: bcr_wf_def BinaryCounterReading_setValue_def)
  moreover have "word_of_nat (of_le_bytes (le_bytes 4 v)) = v"
    by (rule of_le_bytes_inverse) simp
  ultimately show ?thesis
    unfolding BinaryCounterReading_getValue_def by (simp only:)
qed

interpretation bcr_value: packed_field bcr_wf BinaryCounterReading_getValue
    BinaryCounterReading_setValue "\<lambda>v. True"
  by unfold_locales
    (use bcr_getValue_setValue in \<open>auto simp: bcr_wf_iff BinaryCounterReading_setValue_def\<close>)

lemma seq_number_set: "((e :: u8) AND 224 OR word_of_int v AND 31) AND 31 = word_of_int v AND 31"
  by (simp add: u8_eq_iff bit_simps)

interpretation bcr_seq: packed_field bcr_wf BinaryCounterReading_getSequenceNumber
    BinaryCounterReading_setSequenceNumber "\<lambda>v. 0 \<le> v \<and> v < 32"
  by unfold_locales
    (simp add: bcr_wf_def bcr_setters,
      auto simp: bcr_wf_iff bcr_setters bcr_getters seq_number_set low_bits_store,
      auto simp: u8_eq_iff bit_simps)

interpretation bcr_carry: packed_field bcr_wf BinaryCounterReading_hasCarry
    BinaryCounterReading_setCarry "\<lambda>v. True"
  by unfold_locales
    (simp add: bcr_wf_def bcr_setters,
      auto simp: bcr_wf_iff bcr_setters bcr_getters u8_eq_iff bit_simps)

interpretation bcr_adjusted: packed_field bcr_wf BinaryCounterReading_isAdjusted
    BinaryCounterReading_setAdjusted "\<lambda>v. True"
  by unfold_locales
    (simp add: bcr_wf_def bcr_setters,
      auto simp: bcr_wf_iff bcr_setters bcr_getters u8_eq_iff bit_simps)

interpretation bcr_invalid: packed_field bcr_wf BinaryCounterReading_isInvalid
    BinaryCounterReading_setInvalid "\<lambda>v. True"
  by unfold_locales
    (simp add: bcr_wf_def bcr_setters,
      auto simp: bcr_wf_iff bcr_setters bcr_getters u8_eq_iff bit_simps)

end
