(* ===== verification/Info_Types.thy ===== *)
theory Info_Types
  imports Info_Objects
begin

text \<open>
  The information objects of \<open>cs101/cs101_information_objects.c\<close>: one constructor per C struct with the
  fields of the struct, and the \<open>create\<close> function of each. The objects of file transfer, the test
  commands, the read command and the bit string commands are left out.
\<close>

section \<open>Type identifiers\<close>

definition M_SP_NA_1 :: u32 where "M_SP_NA_1 = 1"
definition M_SP_TA_1 :: u32 where "M_SP_TA_1 = 2"
definition M_DP_NA_1 :: u32 where "M_DP_NA_1 = 3"
definition M_DP_TA_1 :: u32 where "M_DP_TA_1 = 4"
definition M_ST_NA_1 :: u32 where "M_ST_NA_1 = 5"
definition M_ST_TA_1 :: u32 where "M_ST_TA_1 = 6"
definition M_BO_NA_1 :: u32 where "M_BO_NA_1 = 7"
definition M_BO_TA_1 :: u32 where "M_BO_TA_1 = 8"
definition M_ME_NA_1 :: u32 where "M_ME_NA_1 = 9"
definition M_ME_TA_1 :: u32 where "M_ME_TA_1 = 10"
definition M_ME_NB_1 :: u32 where "M_ME_NB_1 = 11"
definition M_ME_TB_1 :: u32 where "M_ME_TB_1 = 12"
definition M_ME_NC_1 :: u32 where "M_ME_NC_1 = 13"
definition M_ME_TC_1 :: u32 where "M_ME_TC_1 = 14"
definition M_IT_NA_1 :: u32 where "M_IT_NA_1 = 15"
definition M_IT_TA_1 :: u32 where "M_IT_TA_1 = 16"
definition M_EP_TA_1 :: u32 where "M_EP_TA_1 = 17"
definition M_EP_TB_1 :: u32 where "M_EP_TB_1 = 18"
definition M_EP_TC_1 :: u32 where "M_EP_TC_1 = 19"
definition M_PS_NA_1 :: u32 where "M_PS_NA_1 = 20"
definition M_ME_ND_1 :: u32 where "M_ME_ND_1 = 21"
definition M_SP_TB_1 :: u32 where "M_SP_TB_1 = 30"
definition M_DP_TB_1 :: u32 where "M_DP_TB_1 = 31"
definition M_ST_TB_1 :: u32 where "M_ST_TB_1 = 32"
definition M_BO_TB_1 :: u32 where "M_BO_TB_1 = 33"
definition M_ME_TD_1 :: u32 where "M_ME_TD_1 = 34"
definition M_ME_TE_1 :: u32 where "M_ME_TE_1 = 35"
definition M_ME_TF_1 :: u32 where "M_ME_TF_1 = 36"
definition M_IT_TB_1 :: u32 where "M_IT_TB_1 = 37"
definition M_EP_TD_1 :: u32 where "M_EP_TD_1 = 38"
definition M_EP_TE_1 :: u32 where "M_EP_TE_1 = 39"
definition M_EP_TF_1 :: u32 where "M_EP_TF_1 = 40"
definition C_SC_NA_1 :: u32 where "C_SC_NA_1 = 45"
definition C_DC_NA_1 :: u32 where "C_DC_NA_1 = 46"
definition C_RC_NA_1 :: u32 where "C_RC_NA_1 = 47"
definition C_SE_NA_1 :: u32 where "C_SE_NA_1 = 48"
definition C_SE_NB_1 :: u32 where "C_SE_NB_1 = 49"
definition C_SE_NC_1 :: u32 where "C_SE_NC_1 = 50"
definition C_SC_TA_1 :: u32 where "C_SC_TA_1 = 58"
definition C_DC_TA_1 :: u32 where "C_DC_TA_1 = 59"
definition C_RC_TA_1 :: u32 where "C_RC_TA_1 = 60"
definition C_SE_TA_1 :: u32 where "C_SE_TA_1 = 61"
definition C_SE_TB_1 :: u32 where "C_SE_TB_1 = 62"
definition C_SE_TC_1 :: u32 where "C_SE_TC_1 = 63"
definition M_EI_NA_1 :: u32 where "M_EI_NA_1 = 70"
definition C_IC_NA_1 :: u32 where "C_IC_NA_1 = 100"
definition C_CI_NA_1 :: u32 where "C_CI_NA_1 = 101"
definition C_CS_NA_1 :: u32 where "C_CS_NA_1 = 103"
definition C_RP_NA_1 :: u32 where "C_RP_NA_1 = 105"
definition C_CD_NA_1 :: u32 where "C_CD_NA_1 = 106"
definition P_ME_NA_1 :: u32 where "P_ME_NA_1 = 110"
definition P_ME_NB_1 :: u32 where "P_ME_NB_1 = 111"
definition P_ME_NC_1 :: u32 where "P_ME_NC_1 = 112"
definition P_AC_NA_1 :: u32 where "P_AC_NA_1 = 113"

lemmas type_ids = M_SP_NA_1_def M_SP_TA_1_def M_DP_NA_1_def M_DP_TA_1_def M_ST_NA_1_def M_ST_TA_1_def
  M_BO_NA_1_def M_BO_TA_1_def M_ME_NA_1_def M_ME_TA_1_def M_ME_NB_1_def M_ME_TB_1_def M_ME_NC_1_def
  M_ME_TC_1_def M_IT_NA_1_def M_IT_TA_1_def M_EP_TA_1_def M_EP_TB_1_def M_EP_TC_1_def M_PS_NA_1_def
  M_ME_ND_1_def M_SP_TB_1_def M_DP_TB_1_def M_ST_TB_1_def M_BO_TB_1_def M_ME_TD_1_def M_ME_TE_1_def
  M_ME_TF_1_def M_IT_TB_1_def M_EP_TD_1_def M_EP_TE_1_def M_EP_TF_1_def C_SC_NA_1_def C_DC_NA_1_def
  C_RC_NA_1_def C_SE_NA_1_def C_SE_NB_1_def C_SE_NC_1_def C_SC_TA_1_def C_DC_TA_1_def C_RC_TA_1_def
  C_SE_TA_1_def C_SE_TB_1_def C_SE_TC_1_def M_EI_NA_1_def C_IC_NA_1_def C_CI_NA_1_def C_CS_NA_1_def
  C_RP_NA_1_def C_CD_NA_1_def P_ME_NA_1_def P_ME_NB_1_def P_ME_NC_1_def P_AC_NA_1_def

section \<open>The objects and their constructors\<close>

text \<open>
  Fields in the order of the structs: object address, then value or encoded value, quality or
  qualifier, time stamp; for a single command, the interrogation and the reset the one byte of
  the command. A double point is a C enum, four bytes wide.
\<close>

datatype (plugins only: size) information_object =
    SinglePointInformation int bool u8
  | DoublePointInformation int u32 u8
  | MeasuredValueNormalized int bytes u8
  | MeasuredValueNormalizedWithoutQuality int bytes
  | MeasuredValueScaled int bytes u8
  | MeasuredValueShort int f32 u8
  | SinglePointWithCP56Time2a int bool u8 bytes
  | DoublePointWithCP56Time2a int u32 u8 bytes
  | MeasuredValueNormalizedWithCP56Time2a int bytes u8 bytes
  | MeasuredValueScaledWithCP56Time2a int bytes u8 bytes
  | MeasuredValueShortWithCP56Time2a int f32 u8 bytes
  | IntegratedTotalsWithCP56Time2a int bytes bytes
  | SingleCommand int u8
  | SetpointCommandShort int f32 u8
  | InterrogationCommand int u8
  | ClockSynchronizationCommand int bytes
  | ResetProcessCommand int u8
  | SinglePointWithCP24Time2a int bool u8 bytes
  | DoublePointWithCP24Time2a int u32 u8 bytes
  | StepPositionInformation int u8 u8
  | StepPositionWithCP24Time2a int u8 u8 bytes
  | StepPositionWithCP56Time2a int u8 u8 bytes
  | BitString32 int u32 u8
  | Bitstring32WithCP24Time2a int u32 u8 bytes
  | Bitstring32WithCP56Time2a int u32 u8 bytes
  | MeasuredValueNormalizedWithCP24Time2a int bytes u8 bytes
  | MeasuredValueScaledWithCP24Time2a int bytes u8 bytes
  | MeasuredValueShortWithCP24Time2a int f32 u8 bytes
  | IntegratedTotals int bytes
  | IntegratedTotalsWithCP24Time2a int bytes bytes
  | EventOfProtectionEquipment int u8 bytes bytes
  | EventOfProtectionEquipmentWithCP56Time2a int u8 bytes bytes
  | PackedStartEventsOfProtectionEquipment int u8 u8 bytes bytes
  | PackedStartEventsOfProtectionEquipmentWithCP56Time2a int u8 u8 bytes bytes
  | PackedOutputCircuitInfo int u8 u8 bytes bytes
  | PackedOutputCircuitInfoWithCP56Time2a int u8 u8 bytes bytes
  | PackedSinglePointWithSCD int bytes u8
  | DoubleCommand int u8
  | StepCommand int u8
  | SetpointCommandNormalized int bytes u8
  | SetpointCommandScaled int bytes u8
  | SingleCommandWithCP56Time2a int u8 bytes
  | DoubleCommandWithCP56Time2a int u8 bytes
  | StepCommandWithCP56Time2a int u8 bytes
  | SetpointCommandNormalizedWithCP56Time2a int bytes u8 bytes
  | SetpointCommandScaledWithCP56Time2a int bytes u8 bytes
  | SetpointCommandShortWithCP56Time2a int f32 u8 bytes
  | EndOfInitialization int u8
  | CounterInterrogationCommand int u8
  | DelayAcquisitionCommand int bytes
  | ParameterNormalizedValue int bytes u8
  | ParameterScaledValue int bytes u8
  | ParameterFloatValue int f32 u8
  | ParameterActivation int u8

definition SinglePointInformation_create :: "int \<Rightarrow> bool \<Rightarrow> u8 \<Rightarrow> information_object" where
  "SinglePointInformation_create ioa value quality =
     SinglePointInformation ioa value (quality AND 0xf0)"

definition DoublePointInformation_create :: "int \<Rightarrow> u32 \<Rightarrow> u8 \<Rightarrow> information_object" where
  "DoublePointInformation_create ioa value quality =
     DoublePointInformation ioa value (quality AND 0xf0)"

definition MeasuredValueNormalized_create ::
    "int \<Rightarrow> f32 \<Rightarrow> u8 \<Rightarrow> information_object option" where
  "MeasuredValueNormalized_create ioa value quality =
     map_option (\<lambda>ev. MeasuredValueNormalized ioa ev quality) (MeasuredValueNormalized_setValue value)"

definition MeasuredValueNormalizedWithoutQuality_create ::
    "int \<Rightarrow> f32 \<Rightarrow> information_object option" where
  "MeasuredValueNormalizedWithoutQuality_create ioa value =
     map_option (\<lambda>ev. MeasuredValueNormalizedWithoutQuality ioa ev)
       (MeasuredValueNormalizedWithoutQuality_setValue value)"

definition MeasuredValueScaled_create :: "int \<Rightarrow> int \<Rightarrow> u8 \<Rightarrow> information_object" where
  "MeasuredValueScaled_create ioa value quality =
     MeasuredValueScaled ioa (setScaledValue value) quality"

definition MeasuredValueShort_create :: "int \<Rightarrow> f32 \<Rightarrow> u8 \<Rightarrow> information_object" where
  "MeasuredValueShort_create ioa value quality = MeasuredValueShort ioa value quality"

definition SinglePointWithCP56Time2a_create ::
    "int \<Rightarrow> bool \<Rightarrow> u8 \<Rightarrow> bytes \<Rightarrow> information_object" where
  "SinglePointWithCP56Time2a_create ioa value quality timestamp =
     SinglePointWithCP56Time2a ioa value (quality AND 0xf0) timestamp"

definition DoublePointWithCP56Time2a_create ::
    "int \<Rightarrow> u32 \<Rightarrow> u8 \<Rightarrow> bytes \<Rightarrow> information_object" where
  "DoublePointWithCP56Time2a_create ioa value quality timestamp =
     DoublePointWithCP56Time2a ioa value (quality AND 0xf0) timestamp"

definition MeasuredValueNormalizedWithCP56Time2a_create ::
    "int \<Rightarrow> f32 \<Rightarrow> u8 \<Rightarrow> bytes \<Rightarrow> information_object option" where
  "MeasuredValueNormalizedWithCP56Time2a_create ioa value quality timestamp =
     map_option (\<lambda>ev. MeasuredValueNormalizedWithCP56Time2a ioa ev quality timestamp)
       (MeasuredValueNormalized_setValue value)"

definition MeasuredValueScaledWithCP56Time2a_create ::
    "int \<Rightarrow> int \<Rightarrow> u8 \<Rightarrow> bytes \<Rightarrow> information_object" where
  "MeasuredValueScaledWithCP56Time2a_create ioa value quality timestamp =
     MeasuredValueScaledWithCP56Time2a ioa (setScaledValue value) quality timestamp"

definition MeasuredValueShortWithCP56Time2a_create ::
    "int \<Rightarrow> f32 \<Rightarrow> u8 \<Rightarrow> bytes \<Rightarrow> information_object" where
  "MeasuredValueShortWithCP56Time2a_create ioa value quality timestamp =
     MeasuredValueShortWithCP56Time2a ioa value quality timestamp"

definition IntegratedTotalsWithCP56Time2a_create ::
    "int \<Rightarrow> bytes \<Rightarrow> bytes \<Rightarrow> information_object" where
  "IntegratedTotalsWithCP56Time2a_create ioa value timestamp =
     IntegratedTotalsWithCP56Time2a ioa value timestamp"

definition SingleCommand_create :: "int \<Rightarrow> bool \<Rightarrow> bool \<Rightarrow> int \<Rightarrow> information_object" where
  "SingleCommand_create ioa command selectCommand qu =
     (let sco = word_of_int ((qu AND 0x1f) * 4);
          sco = (if command then sco OR 0x01 else sco);
          sco = (if selectCommand then sco OR 0x80 else sco)
      in SingleCommand ioa sco)"

definition SetpointCommandShort_create :: "int \<Rightarrow> f32 \<Rightarrow> bool \<Rightarrow> int \<Rightarrow> information_object" where
  "SetpointCommandShort_create ioa value selectCommand ql =
     (let qos = word_of_int (ql AND 0x7f);
          qos = (if selectCommand then qos OR 0x80 else qos)
      in SetpointCommandShort ioa value qos)"

definition InterrogationCommand_create :: "int \<Rightarrow> u8 \<Rightarrow> information_object" where
  "InterrogationCommand_create ioa qoi = InterrogationCommand ioa qoi"

definition ClockSynchronizationCommand_create :: "int \<Rightarrow> bytes \<Rightarrow> information_object" where
  "ClockSynchronizationCommand_create ioa timestamp = ClockSynchronizationCommand ioa timestamp"

definition ResetProcessCommand_create :: "int \<Rightarrow> u8 \<Rightarrow> information_object" where
  "ResetProcessCommand_create ioa qrp = ResetProcessCommand ioa qrp"

text \<open>The value with transient state of a step position: seven bits, clamped, and the transient flag.\<close>

definition step_vti :: "int \<Rightarrow> bool \<Rightarrow> u8" where
  "step_vti value isTransient =
     (let value = (if value > 63 then 63 else if value < -64 then -64 else value);
          value = (if value < 0 then value + 128 else value)
      in if isTransient then word_of_int value OR 0x80 else word_of_int value)"

definition SinglePointWithCP24Time2a_create ::
    "int \<Rightarrow> bool \<Rightarrow> u8 \<Rightarrow> bytes \<Rightarrow> information_object" where
  "SinglePointWithCP24Time2a_create ioa value quality timestamp =
     SinglePointWithCP24Time2a ioa value (quality AND 0xf0) timestamp"

definition DoublePointWithCP24Time2a_create ::
    "int \<Rightarrow> u32 \<Rightarrow> u8 \<Rightarrow> bytes \<Rightarrow> information_object" where
  "DoublePointWithCP24Time2a_create ioa value quality timestamp =
     DoublePointWithCP24Time2a ioa value (quality AND 0xf0) timestamp"

definition StepPositionInformation_create ::
    "int \<Rightarrow> int \<Rightarrow> bool \<Rightarrow> u8 \<Rightarrow> information_object" where
  "StepPositionInformation_create ioa value isTransient quality =
     StepPositionInformation ioa (step_vti value isTransient) quality"

definition StepPositionWithCP24Time2a_create ::
    "int \<Rightarrow> int \<Rightarrow> bool \<Rightarrow> u8 \<Rightarrow> bytes \<Rightarrow> information_object" where
  "StepPositionWithCP24Time2a_create ioa value isTransient quality timestamp =
     StepPositionWithCP24Time2a ioa (step_vti value isTransient) quality timestamp"

definition StepPositionWithCP56Time2a_create ::
    "int \<Rightarrow> int \<Rightarrow> bool \<Rightarrow> u8 \<Rightarrow> bytes \<Rightarrow> information_object" where
  "StepPositionWithCP56Time2a_create ioa value isTransient quality timestamp =
     StepPositionWithCP56Time2a ioa (step_vti value isTransient) quality timestamp"

definition BitString32_createEx :: "int \<Rightarrow> u32 \<Rightarrow> u8 \<Rightarrow> information_object" where
  "BitString32_createEx ioa value quality = BitString32 ioa value quality"

definition BitString32_create ::
    "int \<Rightarrow> u32 \<Rightarrow> information_object" where
  "BitString32_create ioa value =
     BitString32_createEx ioa value 0"

definition Bitstring32WithCP24Time2a_createEx ::
    "int \<Rightarrow> u32 \<Rightarrow> u8 \<Rightarrow> bytes \<Rightarrow> information_object" where
  "Bitstring32WithCP24Time2a_createEx ioa value quality timestamp =
     Bitstring32WithCP24Time2a ioa value quality timestamp"

definition Bitstring32WithCP24Time2a_create ::
    "int \<Rightarrow> u32 \<Rightarrow> bytes \<Rightarrow> information_object" where
  "Bitstring32WithCP24Time2a_create ioa value timestamp =
     Bitstring32WithCP24Time2a_createEx ioa value 0 timestamp"

definition Bitstring32WithCP56Time2a_createEx ::
    "int \<Rightarrow> u32 \<Rightarrow> u8 \<Rightarrow> bytes \<Rightarrow> information_object" where
  "Bitstring32WithCP56Time2a_createEx ioa value quality timestamp =
     Bitstring32WithCP56Time2a ioa value quality timestamp"

definition Bitstring32WithCP56Time2a_create ::
    "int \<Rightarrow> u32 \<Rightarrow> bytes \<Rightarrow> information_object" where
  "Bitstring32WithCP56Time2a_create ioa value timestamp =
     Bitstring32WithCP56Time2a_createEx ioa value 0 timestamp"

definition MeasuredValueNormalizedWithCP24Time2a_create ::
    "int \<Rightarrow> f32 \<Rightarrow> u8 \<Rightarrow> bytes \<Rightarrow> information_object option" where
  "MeasuredValueNormalizedWithCP24Time2a_create ioa value quality timestamp =
     map_option (\<lambda>ev. MeasuredValueNormalizedWithCP24Time2a ioa ev quality timestamp)
       (MeasuredValueNormalized_setValue value)"

definition MeasuredValueScaledWithCP24Time2a_create ::
    "int \<Rightarrow> int \<Rightarrow> u8 \<Rightarrow> bytes \<Rightarrow> information_object" where
  "MeasuredValueScaledWithCP24Time2a_create ioa value quality timestamp =
     MeasuredValueScaledWithCP24Time2a ioa (setScaledValue value) quality timestamp"

definition MeasuredValueShortWithCP24Time2a_create ::
    "int \<Rightarrow> f32 \<Rightarrow> u8 \<Rightarrow> bytes \<Rightarrow> information_object" where
  "MeasuredValueShortWithCP24Time2a_create ioa value quality timestamp =
     MeasuredValueShortWithCP24Time2a ioa value quality timestamp"

definition IntegratedTotals_create ::
    "int \<Rightarrow> bytes \<Rightarrow> information_object" where
  "IntegratedTotals_create ioa value =
     IntegratedTotals ioa value"

definition IntegratedTotalsWithCP24Time2a_create ::
    "int \<Rightarrow> bytes \<Rightarrow> bytes \<Rightarrow> information_object" where
  "IntegratedTotalsWithCP24Time2a_create ioa value timestamp =
     IntegratedTotalsWithCP24Time2a ioa value timestamp"

definition EventOfProtectionEquipment_create ::
    "int \<Rightarrow> u8 \<Rightarrow> bytes \<Rightarrow> bytes \<Rightarrow> information_object" where
  "EventOfProtectionEquipment_create ioa event elapsedTime timestamp =
     EventOfProtectionEquipment ioa event elapsedTime timestamp"

definition EventOfProtectionEquipmentWithCP56Time2a_create ::
    "int \<Rightarrow> u8 \<Rightarrow> bytes \<Rightarrow> bytes \<Rightarrow> information_object" where
  "EventOfProtectionEquipmentWithCP56Time2a_create ioa event elapsedTime timestamp =
     EventOfProtectionEquipmentWithCP56Time2a ioa event elapsedTime timestamp"

definition PackedStartEventsOfProtectionEquipment_create ::
    "int \<Rightarrow> u8 \<Rightarrow> u8 \<Rightarrow> bytes \<Rightarrow> bytes \<Rightarrow> information_object" where
  "PackedStartEventsOfProtectionEquipment_create ioa event qdp elapsedTime timestamp =
     PackedStartEventsOfProtectionEquipment ioa event qdp elapsedTime timestamp"

definition PackedStartEventsOfProtectionEquipmentWithCP56Time2a_create ::
    "int \<Rightarrow> u8 \<Rightarrow> u8 \<Rightarrow> bytes \<Rightarrow> bytes \<Rightarrow> information_object" where
  "PackedStartEventsOfProtectionEquipmentWithCP56Time2a_create ioa event qdp elapsedTime timestamp =
     PackedStartEventsOfProtectionEquipmentWithCP56Time2a ioa event qdp elapsedTime timestamp"

definition PackedOutputCircuitInfo_create ::
    "int \<Rightarrow> u8 \<Rightarrow> u8 \<Rightarrow> bytes \<Rightarrow> bytes \<Rightarrow> information_object" where
  "PackedOutputCircuitInfo_create ioa oci qdp operatingTime timestamp =
     PackedOutputCircuitInfo ioa oci qdp operatingTime timestamp"

definition PackedOutputCircuitInfoWithCP56Time2a_create ::
    "int \<Rightarrow> u8 \<Rightarrow> u8 \<Rightarrow> bytes \<Rightarrow> bytes \<Rightarrow> information_object" where
  "PackedOutputCircuitInfoWithCP56Time2a_create ioa oci qdp operatingTime timestamp =
     PackedOutputCircuitInfoWithCP56Time2a ioa oci qdp operatingTime timestamp"

definition PackedSinglePointWithSCD_create ::
    "int \<Rightarrow> bytes \<Rightarrow> u8 \<Rightarrow> information_object" where
  "PackedSinglePointWithSCD_create ioa scd qds =
     PackedSinglePointWithSCD ioa scd qds"

text \<open>
  Commands. A normalized set point without time tag is scaled in double, one with time tag in float;
  a value whose scaled number does not fit an int is undefined: None.
\<close>

definition DoubleCommand_create ::
    "int \<Rightarrow> int \<Rightarrow> bool \<Rightarrow> int \<Rightarrow> information_object" where
  "DoubleCommand_create ioa command selectCommand qu =
     (let dcq = word_of_int ((qu AND 0x1f) * 4);
          dcq = dcq + word_of_int (command AND 0x03);
          dcq = (if selectCommand then dcq OR 0x80 else dcq)
      in DoubleCommand ioa dcq)"

definition DoubleCommandWithCP56Time2a_create ::
    "int \<Rightarrow> int \<Rightarrow> bool \<Rightarrow> int \<Rightarrow> bytes \<Rightarrow> information_object" where
  "DoubleCommandWithCP56Time2a_create ioa command selectCommand qu timestamp =
     (let dcq = word_of_int ((qu AND 0x1f) * 4);
          dcq = dcq + word_of_int (command AND 0x03);
          dcq = (if selectCommand then dcq OR 0x80 else dcq)
      in DoubleCommandWithCP56Time2a ioa dcq timestamp)"

definition StepCommand_create ::
    "int \<Rightarrow> int \<Rightarrow> bool \<Rightarrow> int \<Rightarrow> information_object" where
  "StepCommand_create ioa command selectCommand qu =
     (let dcq = word_of_int ((qu AND 0x1f) * 4);
          dcq = dcq + word_of_int (command AND 0x03);
          dcq = (if selectCommand then dcq OR 0x80 else dcq)
      in StepCommand ioa dcq)"

definition StepCommandWithCP56Time2a_create ::
    "int \<Rightarrow> int \<Rightarrow> bool \<Rightarrow> int \<Rightarrow> bytes \<Rightarrow> information_object" where
  "StepCommandWithCP56Time2a_create ioa command selectCommand qu timestamp =
     (let dcq = word_of_int ((qu AND 0x1f) * 4);
          dcq = dcq + word_of_int (command AND 0x03);
          dcq = (if selectCommand then dcq OR 0x80 else dcq)
      in StepCommandWithCP56Time2a ioa dcq timestamp)"

definition SingleCommandWithCP56Time2a_create ::
    "int \<Rightarrow> bool \<Rightarrow> bool \<Rightarrow> int \<Rightarrow> bytes \<Rightarrow> information_object" where
  "SingleCommandWithCP56Time2a_create ioa command selectCommand qu timestamp =
     (let sco = word_of_int ((qu AND 0x1f) * 4);
          sco = (if command then sco OR 0x01 else sco);
          sco = (if selectCommand then sco OR 0x80 else sco)
      in SingleCommandWithCP56Time2a ioa sco timestamp)"

definition f64_32767_5 :: f64 where "f64_32767_5 = 0x40DFFFE000000000"

definition SetpointCommandNormalized_create ::
    "int \<Rightarrow> f32 \<Rightarrow> bool \<Rightarrow> int \<Rightarrow> information_object option" where
  "SetpointCommandNormalized_create ioa value selectCommand ql =
     map_option (\<lambda>scaledValue.
       let qos = word_of_int ql;
           qos = (if selectCommand then qos OR 0x80 else qos)
       in SetpointCommandNormalized ioa (setScaledValue scaledValue) qos)
       (c_int_of (f64_val (f64_sub (f64_of (fv_mul (f64_val (f64_of_f32 value)) (f64_val f64_32767_5))) f64_half)))"

definition SetpointCommandNormalizedWithCP56Time2a_create ::
    "int \<Rightarrow> f32 \<Rightarrow> bool \<Rightarrow> int \<Rightarrow> bytes \<Rightarrow> information_object option" where
  "SetpointCommandNormalizedWithCP56Time2a_create ioa value selectCommand ql timestamp =
     map_option (\<lambda>scaledValue.
       let qos = word_of_int ql;
           qos = (if selectCommand then qos OR 0x80 else qos)
       in SetpointCommandNormalizedWithCP56Time2a ioa (setScaledValue scaledValue) qos timestamp)
       (c_int_of (f32_val (f32_mul value f32_32767)))"

definition SetpointCommandScaled_create ::
    "int \<Rightarrow> int \<Rightarrow> bool \<Rightarrow> int \<Rightarrow> information_object" where
  "SetpointCommandScaled_create ioa value selectCommand ql =
     (let qos = word_of_int ql;
          qos = (if selectCommand then qos OR 0x80 else qos)
      in SetpointCommandScaled ioa (setScaledValue value) qos)"

definition SetpointCommandScaledWithCP56Time2a_create ::
    "int \<Rightarrow> int \<Rightarrow> bool \<Rightarrow> int \<Rightarrow> bytes \<Rightarrow> information_object" where
  "SetpointCommandScaledWithCP56Time2a_create ioa value selectCommand ql timestamp =
     (let qos = word_of_int ql;
          qos = (if selectCommand then qos OR 0x80 else qos)
      in SetpointCommandScaledWithCP56Time2a ioa (setScaledValue value) qos timestamp)"

definition SetpointCommandShortWithCP56Time2a_create ::
    "int \<Rightarrow> f32 \<Rightarrow> bool \<Rightarrow> int \<Rightarrow> bytes \<Rightarrow> information_object" where
  "SetpointCommandShortWithCP56Time2a_create ioa value selectCommand ql timestamp =
     (let qos = word_of_int ql;
          qos = (if selectCommand then qos OR 0x80 else qos)
      in SetpointCommandShortWithCP56Time2a ioa value qos timestamp)"

definition EndOfInitialization_create ::
    "u8 \<Rightarrow> information_object" where
  "EndOfInitialization_create coi =
     EndOfInitialization 0 coi"

definition CounterInterrogationCommand_create ::
    "int \<Rightarrow> u8 \<Rightarrow> information_object" where
  "CounterInterrogationCommand_create ioa qcc =
     CounterInterrogationCommand ioa qcc"

definition DelayAcquisitionCommand_create ::
    "int \<Rightarrow> bytes \<Rightarrow> information_object" where
  "DelayAcquisitionCommand_create ioa delay =
     DelayAcquisitionCommand ioa delay"

definition ParameterNormalizedValue_create ::
    "int \<Rightarrow> f32 \<Rightarrow> u8 \<Rightarrow> information_object option" where
  "ParameterNormalizedValue_create ioa value qpm =
     map_option (\<lambda>ev. ParameterNormalizedValue ioa ev qpm) (MeasuredValueNormalized_setValue value)"

definition ParameterScaledValue_create ::
    "int \<Rightarrow> int \<Rightarrow> u8 \<Rightarrow> information_object" where
  "ParameterScaledValue_create ioa value qpm =
     ParameterScaledValue ioa (setScaledValue value) qpm"

definition ParameterFloatValue_create ::
    "int \<Rightarrow> f32 \<Rightarrow> u8 \<Rightarrow> information_object" where
  "ParameterFloatValue_create ioa value qpm =
     ParameterFloatValue ioa value qpm"

definition ParameterActivation_create ::
    "int \<Rightarrow> u8 \<Rightarrow> information_object" where
  "ParameterActivation_create ioa qpa =
     ParameterActivation ioa qpa"

lemmas io_create_defs = SinglePointInformation_create_def DoublePointInformation_create_def
  MeasuredValueNormalized_create_def MeasuredValueNormalizedWithoutQuality_create_def
  MeasuredValueScaled_create_def MeasuredValueShort_create_def SinglePointWithCP56Time2a_create_def
  DoublePointWithCP56Time2a_create_def MeasuredValueNormalizedWithCP56Time2a_create_def
  MeasuredValueScaledWithCP56Time2a_create_def MeasuredValueShortWithCP56Time2a_create_def
  IntegratedTotalsWithCP56Time2a_create_def SingleCommand_create_def SetpointCommandShort_create_def
  InterrogationCommand_create_def ClockSynchronizationCommand_create_def ResetProcessCommand_create_def
  SinglePointWithCP24Time2a_create_def DoublePointWithCP24Time2a_create_def
  StepPositionInformation_create_def StepPositionWithCP24Time2a_create_def
  StepPositionWithCP56Time2a_create_def BitString32_create_def Bitstring32WithCP24Time2a_create_def
  Bitstring32WithCP56Time2a_create_def MeasuredValueNormalizedWithCP24Time2a_create_def
  MeasuredValueScaledWithCP24Time2a_create_def MeasuredValueShortWithCP24Time2a_create_def
  IntegratedTotals_create_def IntegratedTotalsWithCP24Time2a_create_def
  EventOfProtectionEquipment_create_def EventOfProtectionEquipmentWithCP56Time2a_create_def
  PackedStartEventsOfProtectionEquipment_create_def
  PackedStartEventsOfProtectionEquipmentWithCP56Time2a_create_def PackedOutputCircuitInfo_create_def
  PackedOutputCircuitInfoWithCP56Time2a_create_def PackedSinglePointWithSCD_create_def
  DoubleCommand_create_def StepCommand_create_def SetpointCommandNormalized_create_def
  SetpointCommandScaled_create_def SingleCommandWithCP56Time2a_create_def
  DoubleCommandWithCP56Time2a_create_def StepCommandWithCP56Time2a_create_def
  SetpointCommandNormalizedWithCP56Time2a_create_def SetpointCommandScaledWithCP56Time2a_create_def
  SetpointCommandShortWithCP56Time2a_create_def EndOfInitialization_create_def
  CounterInterrogationCommand_create_def DelayAcquisitionCommand_create_def
  ParameterNormalizedValue_create_def ParameterScaledValue_create_def ParameterFloatValue_create_def
  ParameterActivation_create_def

text \<open>\<open>type\<close>, set by each \<open>initialize\<close>, and \<open>objectAddress\<close>.\<close>

fun InformationObject_getType :: "information_object \<Rightarrow> u32" where
  "InformationObject_getType (SinglePointInformation _ _ _) = M_SP_NA_1"
| "InformationObject_getType (DoublePointInformation _ _ _) = M_DP_NA_1"
| "InformationObject_getType (MeasuredValueNormalized _ _ _) = M_ME_NA_1"
| "InformationObject_getType (MeasuredValueNormalizedWithoutQuality _ _) = M_ME_ND_1"
| "InformationObject_getType (MeasuredValueScaled _ _ _) = M_ME_NB_1"
| "InformationObject_getType (MeasuredValueShort _ _ _) = M_ME_NC_1"
| "InformationObject_getType (SinglePointWithCP56Time2a _ _ _ _) = M_SP_TB_1"
| "InformationObject_getType (DoublePointWithCP56Time2a _ _ _ _) = M_DP_TB_1"
| "InformationObject_getType (MeasuredValueNormalizedWithCP56Time2a _ _ _ _) = M_ME_TD_1"
| "InformationObject_getType (MeasuredValueScaledWithCP56Time2a _ _ _ _) = M_ME_TE_1"
| "InformationObject_getType (MeasuredValueShortWithCP56Time2a _ _ _ _) = M_ME_TF_1"
| "InformationObject_getType (IntegratedTotalsWithCP56Time2a _ _ _) = M_IT_TB_1"
| "InformationObject_getType (SingleCommand _ _) = C_SC_NA_1"
| "InformationObject_getType (SetpointCommandShort _ _ _) = C_SE_NC_1"
| "InformationObject_getType (InterrogationCommand _ _) = C_IC_NA_1"
| "InformationObject_getType (ClockSynchronizationCommand _ _) = C_CS_NA_1"
| "InformationObject_getType (ResetProcessCommand _ _) = C_RP_NA_1"
| "InformationObject_getType (SinglePointWithCP24Time2a _ _ _ _) = M_SP_TA_1"
| "InformationObject_getType (DoublePointWithCP24Time2a _ _ _ _) = M_DP_TA_1"
| "InformationObject_getType (StepPositionInformation _ _ _) = M_ST_NA_1"
| "InformationObject_getType (StepPositionWithCP24Time2a _ _ _ _) = M_ST_TA_1"
| "InformationObject_getType (StepPositionWithCP56Time2a _ _ _ _) = M_ST_TB_1"
| "InformationObject_getType (BitString32 _ _ _) = M_BO_NA_1"
| "InformationObject_getType (Bitstring32WithCP24Time2a _ _ _ _) = M_BO_TA_1"
| "InformationObject_getType (Bitstring32WithCP56Time2a _ _ _ _) = M_BO_TB_1"
| "InformationObject_getType (MeasuredValueNormalizedWithCP24Time2a _ _ _ _) = M_ME_TA_1"
| "InformationObject_getType (MeasuredValueScaledWithCP24Time2a _ _ _ _) = M_ME_TB_1"
| "InformationObject_getType (MeasuredValueShortWithCP24Time2a _ _ _ _) = M_ME_TC_1"
| "InformationObject_getType (IntegratedTotals _ _) = M_IT_NA_1"
| "InformationObject_getType (IntegratedTotalsWithCP24Time2a _ _ _) = M_IT_TA_1"
| "InformationObject_getType (EventOfProtectionEquipment _ _ _ _) = M_EP_TA_1"
| "InformationObject_getType (EventOfProtectionEquipmentWithCP56Time2a _ _ _ _) = M_EP_TD_1"
| "InformationObject_getType (PackedStartEventsOfProtectionEquipment _ _ _ _ _) = M_EP_TB_1"
| "InformationObject_getType (PackedStartEventsOfProtectionEquipmentWithCP56Time2a _ _ _ _ _) = M_EP_TE_1"
| "InformationObject_getType (PackedOutputCircuitInfo _ _ _ _ _) = M_EP_TC_1"
| "InformationObject_getType (PackedOutputCircuitInfoWithCP56Time2a _ _ _ _ _) = M_EP_TF_1"
| "InformationObject_getType (PackedSinglePointWithSCD _ _ _) = M_PS_NA_1"
| "InformationObject_getType (DoubleCommand _ _) = C_DC_NA_1"
| "InformationObject_getType (StepCommand _ _) = C_RC_NA_1"
| "InformationObject_getType (SetpointCommandNormalized _ _ _) = C_SE_NA_1"
| "InformationObject_getType (SetpointCommandScaled _ _ _) = C_SE_NB_1"
| "InformationObject_getType (SingleCommandWithCP56Time2a _ _ _) = C_SC_TA_1"
| "InformationObject_getType (DoubleCommandWithCP56Time2a _ _ _) = C_DC_TA_1"
| "InformationObject_getType (StepCommandWithCP56Time2a _ _ _) = C_RC_TA_1"
| "InformationObject_getType (SetpointCommandNormalizedWithCP56Time2a _ _ _ _) = C_SE_TA_1"
| "InformationObject_getType (SetpointCommandScaledWithCP56Time2a _ _ _ _) = C_SE_TB_1"
| "InformationObject_getType (SetpointCommandShortWithCP56Time2a _ _ _ _) = C_SE_TC_1"
| "InformationObject_getType (EndOfInitialization _ _) = M_EI_NA_1"
| "InformationObject_getType (CounterInterrogationCommand _ _) = C_CI_NA_1"
| "InformationObject_getType (DelayAcquisitionCommand _ _) = C_CD_NA_1"
| "InformationObject_getType (ParameterNormalizedValue _ _ _) = P_ME_NA_1"
| "InformationObject_getType (ParameterScaledValue _ _ _) = P_ME_NB_1"
| "InformationObject_getType (ParameterFloatValue _ _ _) = P_ME_NC_1"
| "InformationObject_getType (ParameterActivation _ _) = P_AC_NA_1"

fun InformationObject_getObjectAddress :: "information_object \<Rightarrow> int" where
  "InformationObject_getObjectAddress (SinglePointInformation a _ _) = a"
| "InformationObject_getObjectAddress (DoublePointInformation a _ _) = a"
| "InformationObject_getObjectAddress (MeasuredValueNormalized a _ _) = a"
| "InformationObject_getObjectAddress (MeasuredValueNormalizedWithoutQuality a _) = a"
| "InformationObject_getObjectAddress (MeasuredValueScaled a _ _) = a"
| "InformationObject_getObjectAddress (MeasuredValueShort a _ _) = a"
| "InformationObject_getObjectAddress (SinglePointWithCP56Time2a a _ _ _) = a"
| "InformationObject_getObjectAddress (DoublePointWithCP56Time2a a _ _ _) = a"
| "InformationObject_getObjectAddress (MeasuredValueNormalizedWithCP56Time2a a _ _ _) = a"
| "InformationObject_getObjectAddress (MeasuredValueScaledWithCP56Time2a a _ _ _) = a"
| "InformationObject_getObjectAddress (MeasuredValueShortWithCP56Time2a a _ _ _) = a"
| "InformationObject_getObjectAddress (IntegratedTotalsWithCP56Time2a a _ _) = a"
| "InformationObject_getObjectAddress (SingleCommand a _) = a"
| "InformationObject_getObjectAddress (SetpointCommandShort a _ _) = a"
| "InformationObject_getObjectAddress (InterrogationCommand a _) = a"
| "InformationObject_getObjectAddress (ClockSynchronizationCommand a _) = a"
| "InformationObject_getObjectAddress (ResetProcessCommand a _) = a"
| "InformationObject_getObjectAddress (SinglePointWithCP24Time2a a _ _ _) = a"
| "InformationObject_getObjectAddress (DoublePointWithCP24Time2a a _ _ _) = a"
| "InformationObject_getObjectAddress (StepPositionInformation a _ _) = a"
| "InformationObject_getObjectAddress (StepPositionWithCP24Time2a a _ _ _) = a"
| "InformationObject_getObjectAddress (StepPositionWithCP56Time2a a _ _ _) = a"
| "InformationObject_getObjectAddress (BitString32 a _ _) = a"
| "InformationObject_getObjectAddress (Bitstring32WithCP24Time2a a _ _ _) = a"
| "InformationObject_getObjectAddress (Bitstring32WithCP56Time2a a _ _ _) = a"
| "InformationObject_getObjectAddress (MeasuredValueNormalizedWithCP24Time2a a _ _ _) = a"
| "InformationObject_getObjectAddress (MeasuredValueScaledWithCP24Time2a a _ _ _) = a"
| "InformationObject_getObjectAddress (MeasuredValueShortWithCP24Time2a a _ _ _) = a"
| "InformationObject_getObjectAddress (IntegratedTotals a _) = a"
| "InformationObject_getObjectAddress (IntegratedTotalsWithCP24Time2a a _ _) = a"
| "InformationObject_getObjectAddress (EventOfProtectionEquipment a _ _ _) = a"
| "InformationObject_getObjectAddress (EventOfProtectionEquipmentWithCP56Time2a a _ _ _) = a"
| "InformationObject_getObjectAddress (PackedStartEventsOfProtectionEquipment a _ _ _ _) = a"
| "InformationObject_getObjectAddress (PackedStartEventsOfProtectionEquipmentWithCP56Time2a a _ _ _ _) = a"
| "InformationObject_getObjectAddress (PackedOutputCircuitInfo a _ _ _ _) = a"
| "InformationObject_getObjectAddress (PackedOutputCircuitInfoWithCP56Time2a a _ _ _ _) = a"
| "InformationObject_getObjectAddress (PackedSinglePointWithSCD a _ _) = a"
| "InformationObject_getObjectAddress (DoubleCommand a _) = a"
| "InformationObject_getObjectAddress (StepCommand a _) = a"
| "InformationObject_getObjectAddress (SetpointCommandNormalized a _ _) = a"
| "InformationObject_getObjectAddress (SetpointCommandScaled a _ _) = a"
| "InformationObject_getObjectAddress (SingleCommandWithCP56Time2a a _ _) = a"
| "InformationObject_getObjectAddress (DoubleCommandWithCP56Time2a a _ _) = a"
| "InformationObject_getObjectAddress (StepCommandWithCP56Time2a a _ _) = a"
| "InformationObject_getObjectAddress (SetpointCommandNormalizedWithCP56Time2a a _ _ _) = a"
| "InformationObject_getObjectAddress (SetpointCommandScaledWithCP56Time2a a _ _ _) = a"
| "InformationObject_getObjectAddress (SetpointCommandShortWithCP56Time2a a _ _ _) = a"
| "InformationObject_getObjectAddress (EndOfInitialization a _) = a"
| "InformationObject_getObjectAddress (CounterInterrogationCommand a _) = a"
| "InformationObject_getObjectAddress (DelayAcquisitionCommand a _) = a"
| "InformationObject_getObjectAddress (ParameterNormalizedValue a _ _) = a"
| "InformationObject_getObjectAddress (ParameterScaledValue a _ _) = a"
| "InformationObject_getObjectAddress (ParameterFloatValue a _ _) = a"
| "InformationObject_getObjectAddress (ParameterActivation a _) = a"

end
