(* ===== verification/Info_Encoding.thy ===== *)
theory Info_Encoding
  imports Info_Types
begin

text \<open>
  The \<open>encode\<close> functions of the information objects (\<open>cs101/cs101_information_objects.c\<close>) over the frame
  interface, and the byte layout they implement. \<open>encode_ok\<close> says that every encode function writes
  exactly the layout when the frame has room for it and leaves the frame untouched otherwise.
\<close>

section \<open>Encoding\<close>

text \<open>The object address, least significant byte first, unless the ASDU is a sequence.\<close>

definition InformationObject_encodeBase ::
    "'f frame_vft \<Rightarrow> app_layer_params \<Rightarrow> bool \<Rightarrow> int \<Rightarrow> 'f \<Rightarrow> 'f" where
  "InformationObject_encodeBase vt p isSequence ioa f =
     (if isSequence then f else
       let f = Frame_setNextByte vt (word_of_int (ioa AND 0xff)) f;
           f = (if sizeOfIOA p > 1
                then Frame_setNextByte vt (word_of_int (c_div ioa 0x100 AND 0xff)) f else f);
           f = (if sizeOfIOA p > 2
                then Frame_setNextByte vt (word_of_int (c_div ioa 0x10000 AND 0xff)) f else f)
       in f)"

definition io_room :: "'f frame_vft \<Rightarrow> app_layer_params \<Rightarrow> bool \<Rightarrow> int \<Rightarrow> 'f \<Rightarrow> bool" where
  "io_room vt p isSequence n f \<longleftrightarrow>
     \<not> Frame_getSpaceLeft vt f < (if isSequence then n else sizeOfIOA p + n)"

definition SinglePointInformation_encode ::
    "'f frame_vft \<Rightarrow> app_layer_params \<Rightarrow> bool \<Rightarrow> int \<Rightarrow> bool \<Rightarrow> u8 \<Rightarrow> 'f \<Rightarrow> bool \<times> 'f" where
  "SinglePointInformation_encode vt p isSequence ioa value quality f =
     (if \<not> io_room vt p isSequence 1 f then (False, f) else
       let f = InformationObject_encodeBase vt p isSequence ioa f;
           val = quality AND 0xf0;
           val = (if value then val + 1 else val);
           f = Frame_setNextByte vt val f
       in (True, f))"

definition DoublePointInformation_encode ::
    "'f frame_vft \<Rightarrow> app_layer_params \<Rightarrow> bool \<Rightarrow> int \<Rightarrow> u32 \<Rightarrow> u8 \<Rightarrow> 'f \<Rightarrow> bool \<times> 'f" where
  "DoublePointInformation_encode vt p isSequence ioa value quality f =
     (if \<not> io_room vt p isSequence 1 f then (False, f) else
       let f = InformationObject_encodeBase vt p isSequence ioa f;
           val = (quality AND 0xf0) + ucast value;
           f = Frame_setNextByte vt val f
       in (True, f))"

definition SinglePointWithCP56Time2a_encode ::
    "'f frame_vft \<Rightarrow> app_layer_params \<Rightarrow> bool \<Rightarrow> int \<Rightarrow> bool \<Rightarrow> u8 \<Rightarrow> bytes \<Rightarrow> 'f \<Rightarrow> bool \<times> 'f" where
  "SinglePointWithCP56Time2a_encode vt p isSequence ioa value quality timestamp f =
     (if \<not> io_room vt p isSequence 8 f then (False, f) else
       let f = InformationObject_encodeBase vt p isSequence ioa f;
           val = quality AND 0xf0;
           val = (if value then val + 1 else val);
           f = Frame_setNextByte vt val f;
           f = Frame_appendBytes vt timestamp f
       in (True, f))"

definition DoublePointWithCP56Time2a_encode ::
    "'f frame_vft \<Rightarrow> app_layer_params \<Rightarrow> bool \<Rightarrow> int \<Rightarrow> u32 \<Rightarrow> u8 \<Rightarrow> bytes \<Rightarrow> 'f \<Rightarrow> bool \<times> 'f" where
  "DoublePointWithCP56Time2a_encode vt p isSequence ioa value quality timestamp f =
     (if \<not> io_room vt p isSequence 8 f then (False, f) else
       let f = InformationObject_encodeBase vt p isSequence ioa f;
           val = (quality AND 0xf0) + ucast value;
           f = Frame_setNextByte vt val f;
           f = Frame_appendBytes vt timestamp f
       in (True, f))"

definition MeasuredValueNormalized_encode ::
    "'f frame_vft \<Rightarrow> app_layer_params \<Rightarrow> bool \<Rightarrow> int \<Rightarrow> bytes \<Rightarrow> u8 \<Rightarrow> 'f \<Rightarrow> bool \<times> 'f" where
  "MeasuredValueNormalized_encode vt p isSequence ioa encodedValue quality f =
     (if \<not> io_room vt p isSequence 3 f then (False, f) else
       let f = InformationObject_encodeBase vt p isSequence ioa f;
           f = Frame_setNextByte vt (encodedValue ! 0) f;
           f = Frame_setNextByte vt (encodedValue ! 1) f;
           f = Frame_setNextByte vt quality f
       in (True, f))"

definition MeasuredValueNormalizedWithoutQuality_encode ::
    "'f frame_vft \<Rightarrow> app_layer_params \<Rightarrow> bool \<Rightarrow> int \<Rightarrow> bytes \<Rightarrow> 'f \<Rightarrow> bool \<times> 'f" where
  "MeasuredValueNormalizedWithoutQuality_encode vt p isSequence ioa encodedValue f =
     (if \<not> io_room vt p isSequence 2 f then (False, f) else
       let f = InformationObject_encodeBase vt p isSequence ioa f;
           f = Frame_setNextByte vt (encodedValue ! 0) f;
           f = Frame_setNextByte vt (encodedValue ! 1) f
       in (True, f))"

definition MeasuredValueScaled_encode ::
    "'f frame_vft \<Rightarrow> app_layer_params \<Rightarrow> bool \<Rightarrow> int \<Rightarrow> bytes \<Rightarrow> u8 \<Rightarrow> 'f \<Rightarrow> bool \<times> 'f" where
  "MeasuredValueScaled_encode vt p isSequence ioa encodedValue quality f =
     MeasuredValueNormalized_encode vt p isSequence ioa encodedValue quality f"

definition MeasuredValueShort_encode ::
    "'f frame_vft \<Rightarrow> app_layer_params \<Rightarrow> bool \<Rightarrow> int \<Rightarrow> f32 \<Rightarrow> u8 \<Rightarrow> 'f \<Rightarrow> bool \<times> 'f" where
  "MeasuredValueShort_encode vt p isSequence ioa value quality f =
     (if \<not> io_room vt p isSequence 5 f then (False, f) else
       let f = InformationObject_encodeBase vt p isSequence ioa f;
           f = Frame_appendBytes vt (le_bytes 4 value) f;
           f = Frame_setNextByte vt quality f
       in (True, f))"

definition IntegratedTotals_encode ::
    "'f frame_vft \<Rightarrow> app_layer_params \<Rightarrow> bool \<Rightarrow> int \<Rightarrow> bytes \<Rightarrow> 'f \<Rightarrow> bool \<times> 'f" where
  "IntegratedTotals_encode vt p isSequence ioa totals f =
     (if \<not> io_room vt p isSequence 5 f then (False, f) else
       let f = InformationObject_encodeBase vt p isSequence ioa f;
           f = Frame_appendBytes vt totals f
       in (True, f))"

definition MeasuredValueNormalizedWithCP56Time2a_encode ::
    "'f frame_vft \<Rightarrow> app_layer_params \<Rightarrow> bool \<Rightarrow> int \<Rightarrow> bytes \<Rightarrow> u8 \<Rightarrow> bytes \<Rightarrow> 'f \<Rightarrow> bool \<times> 'f" where
  "MeasuredValueNormalizedWithCP56Time2a_encode vt p isSequence ioa encodedValue quality timestamp f =
     (if \<not> io_room vt p isSequence 10 f then (False, f) else
       let f = snd (MeasuredValueNormalized_encode vt p isSequence ioa encodedValue quality f);
           f = Frame_appendBytes vt timestamp f
       in (True, f))"

definition MeasuredValueScaledWithCP56Time2a_encode ::
    "'f frame_vft \<Rightarrow> app_layer_params \<Rightarrow> bool \<Rightarrow> int \<Rightarrow> bytes \<Rightarrow> u8 \<Rightarrow> bytes \<Rightarrow> 'f \<Rightarrow> bool \<times> 'f" where
  "MeasuredValueScaledWithCP56Time2a_encode vt p isSequence ioa encodedValue quality timestamp f =
     (if \<not> io_room vt p isSequence 10 f then (False, f) else
       let f = snd (MeasuredValueNormalized_encode vt p isSequence ioa encodedValue quality f);
           f = Frame_appendBytes vt timestamp f
       in (True, f))"

definition MeasuredValueShortWithCP56Time2a_encode ::
    "'f frame_vft \<Rightarrow> app_layer_params \<Rightarrow> bool \<Rightarrow> int \<Rightarrow> f32 \<Rightarrow> u8 \<Rightarrow> bytes \<Rightarrow> 'f \<Rightarrow> bool \<times> 'f" where
  "MeasuredValueShortWithCP56Time2a_encode vt p isSequence ioa value quality timestamp f =
     (if \<not> io_room vt p isSequence 12 f then (False, f) else
       let f = snd (MeasuredValueShort_encode vt p isSequence ioa value quality f);
           f = Frame_appendBytes vt timestamp f
       in (True, f))"

definition IntegratedTotalsWithCP56Time2a_encode ::
    "'f frame_vft \<Rightarrow> app_layer_params \<Rightarrow> bool \<Rightarrow> int \<Rightarrow> bytes \<Rightarrow> bytes \<Rightarrow> 'f \<Rightarrow> bool \<times> 'f" where
  "IntegratedTotalsWithCP56Time2a_encode vt p isSequence ioa totals timestamp f =
     (if \<not> io_room vt p isSequence 12 f then (False, f) else
       let f = snd (IntegratedTotals_encode vt p isSequence ioa totals f);
           f = Frame_appendBytes vt timestamp f
       in (True, f))"

definition SingleCommand_encode ::
    "'f frame_vft \<Rightarrow> app_layer_params \<Rightarrow> bool \<Rightarrow> int \<Rightarrow> u8 \<Rightarrow> 'f \<Rightarrow> bool \<times> 'f" where
  "SingleCommand_encode vt p isSequence ioa b f =
     (if \<not> io_room vt p isSequence 1 f then (False, f) else
       let f = InformationObject_encodeBase vt p isSequence ioa f;
           f = Frame_setNextByte vt b f
       in (True, f))"

definition SetpointCommandShort_encode ::
    "'f frame_vft \<Rightarrow> app_layer_params \<Rightarrow> bool \<Rightarrow> int \<Rightarrow> f32 \<Rightarrow> u8 \<Rightarrow> 'f \<Rightarrow> bool \<times> 'f" where
  "SetpointCommandShort_encode vt p isSequence ioa value qos f =
     (if \<not> io_room vt p isSequence 5 f then (False, f) else
       let f = InformationObject_encodeBase vt p isSequence ioa f;
           f = Frame_appendBytes vt (le_bytes 4 value) f;
           f = Frame_setNextByte vt qos f
       in (True, f))"

definition InterrogationCommand_encode ::
    "'f frame_vft \<Rightarrow> app_layer_params \<Rightarrow> bool \<Rightarrow> int \<Rightarrow> u8 \<Rightarrow> 'f \<Rightarrow> bool \<times> 'f" where
  "InterrogationCommand_encode vt p isSequence ioa b f =
     (if \<not> io_room vt p isSequence 1 f then (False, f) else
       let f = InformationObject_encodeBase vt p isSequence ioa f;
           f = Frame_setNextByte vt b f
       in (True, f))"

definition ClockSynchronizationCommand_encode ::
    "'f frame_vft \<Rightarrow> app_layer_params \<Rightarrow> bool \<Rightarrow> int \<Rightarrow> bytes \<Rightarrow> 'f \<Rightarrow> bool \<times> 'f" where
  "ClockSynchronizationCommand_encode vt p isSequence ioa timestamp f =
     (if \<not> io_room vt p isSequence 7 f then (False, f) else
       let f = InformationObject_encodeBase vt p isSequence ioa f;
           f = Frame_appendBytes vt timestamp f
       in (True, f))"

definition ResetProcessCommand_encode ::
    "'f frame_vft \<Rightarrow> app_layer_params \<Rightarrow> bool \<Rightarrow> int \<Rightarrow> u8 \<Rightarrow> 'f \<Rightarrow> bool \<times> 'f" where
  "ResetProcessCommand_encode vt p isSequence ioa b f =
     (if \<not> io_room vt p isSequence 1 f then (False, f) else
       let f = InformationObject_encodeBase vt p isSequence ioa f;
           f = Frame_setNextByte vt b f
       in (True, f))"

definition SinglePointWithCP24Time2a_encode ::
    "'f frame_vft \<Rightarrow> app_layer_params \<Rightarrow> bool \<Rightarrow> int \<Rightarrow> bool \<Rightarrow> u8 \<Rightarrow> bytes \<Rightarrow> 'f \<Rightarrow> bool \<times> 'f" where
  "SinglePointWithCP24Time2a_encode vt p isSequence ioa v q t f =
     (if \<not> io_room vt p isSequence 4 f then (False, f) else
       let f = InformationObject_encodeBase vt p isSequence ioa f;
           val = q AND 0xf0;
           val = (if v then val + 1 else val);
           f = Frame_setNextByte vt val f;
           f = Frame_appendBytes vt t f
       in (True, f))"

definition DoublePointWithCP24Time2a_encode ::
    "'f frame_vft \<Rightarrow> app_layer_params \<Rightarrow> bool \<Rightarrow> int \<Rightarrow> u32 \<Rightarrow> u8 \<Rightarrow> bytes \<Rightarrow> 'f \<Rightarrow> bool \<times> 'f" where
  "DoublePointWithCP24Time2a_encode vt p isSequence ioa v q t f =
     (if \<not> io_room vt p isSequence 4 f then (False, f) else
       let f = InformationObject_encodeBase vt p isSequence ioa f;
           val = (q AND 0xf0) + ucast v;
           f = Frame_setNextByte vt val f;
           f = Frame_appendBytes vt t f
       in (True, f))"

definition StepPositionInformation_encode ::
    "'f frame_vft \<Rightarrow> app_layer_params \<Rightarrow> bool \<Rightarrow> int \<Rightarrow> u8 \<Rightarrow> u8 \<Rightarrow> 'f \<Rightarrow> bool \<times> 'f" where
  "StepPositionInformation_encode vt p isSequence ioa vti q f =
     (if \<not> io_room vt p isSequence 2 f then (False, f) else
       let f = InformationObject_encodeBase vt p isSequence ioa f;
           f = Frame_setNextByte vt vti f;
           f = Frame_setNextByte vt q f
       in (True, f))"

definition StepPositionWithCP24Time2a_encode ::
    "'f frame_vft \<Rightarrow> app_layer_params \<Rightarrow> bool \<Rightarrow> int \<Rightarrow> u8 \<Rightarrow> u8 \<Rightarrow> bytes \<Rightarrow> 'f \<Rightarrow> bool \<times> 'f" where
  "StepPositionWithCP24Time2a_encode vt p isSequence ioa vti q t f =
     (if \<not> io_room vt p isSequence 5 f then (False, f) else
       let f = InformationObject_encodeBase vt p isSequence ioa f;
           f = Frame_setNextByte vt vti f;
           f = Frame_setNextByte vt q f;
           f = Frame_appendBytes vt t f
       in (True, f))"

definition StepPositionWithCP56Time2a_encode ::
    "'f frame_vft \<Rightarrow> app_layer_params \<Rightarrow> bool \<Rightarrow> int \<Rightarrow> u8 \<Rightarrow> u8 \<Rightarrow> bytes \<Rightarrow> 'f \<Rightarrow> bool \<times> 'f" where
  "StepPositionWithCP56Time2a_encode vt p isSequence ioa vti q t f =
     (if \<not> io_room vt p isSequence 9 f then (False, f) else
       let f = InformationObject_encodeBase vt p isSequence ioa f;
           f = Frame_setNextByte vt vti f;
           f = Frame_setNextByte vt q f;
           f = Frame_appendBytes vt t f
       in (True, f))"

definition BitString32_encode ::
    "'f frame_vft \<Rightarrow> app_layer_params \<Rightarrow> bool \<Rightarrow> int \<Rightarrow> u32 \<Rightarrow> u8 \<Rightarrow> 'f \<Rightarrow> bool \<times> 'f" where
  "BitString32_encode vt p isSequence ioa v q f =
     (if \<not> io_room vt p isSequence 5 f then (False, f) else
       let f = InformationObject_encodeBase vt p isSequence ioa f;
           f = Frame_setNextByte vt (ucast (v mod 0x100)) f;
           f = Frame_setNextByte vt (ucast (v div 0x100 mod 0x100)) f;
           f = Frame_setNextByte vt (ucast (v div 0x10000 mod 0x100)) f;
           f = Frame_setNextByte vt (ucast (v div 0x1000000)) f;
           f = Frame_setNextByte vt q f
       in (True, f))"

definition Bitstring32WithCP24Time2a_encode ::
    "'f frame_vft \<Rightarrow> app_layer_params \<Rightarrow> bool \<Rightarrow> int \<Rightarrow> u32 \<Rightarrow> u8 \<Rightarrow> bytes \<Rightarrow> 'f \<Rightarrow> bool \<times> 'f" where
  "Bitstring32WithCP24Time2a_encode vt p isSequence ioa v q t f =
     (if \<not> io_room vt p isSequence 8 f then (False, f) else
       let f = InformationObject_encodeBase vt p isSequence ioa f;
           f = Frame_setNextByte vt (ucast (v mod 0x100)) f;
           f = Frame_setNextByte vt (ucast (v div 0x100 mod 0x100)) f;
           f = Frame_setNextByte vt (ucast (v div 0x10000 mod 0x100)) f;
           f = Frame_setNextByte vt (ucast (v div 0x1000000)) f;
           f = Frame_setNextByte vt q f;
           f = Frame_appendBytes vt t f
       in (True, f))"

definition Bitstring32WithCP56Time2a_encode ::
    "'f frame_vft \<Rightarrow> app_layer_params \<Rightarrow> bool \<Rightarrow> int \<Rightarrow> u32 \<Rightarrow> u8 \<Rightarrow> bytes \<Rightarrow> 'f \<Rightarrow> bool \<times> 'f" where
  "Bitstring32WithCP56Time2a_encode vt p isSequence ioa v q t f =
     (if \<not> io_room vt p isSequence 12 f then (False, f) else
       let f = InformationObject_encodeBase vt p isSequence ioa f;
           f = Frame_setNextByte vt (ucast (v mod 0x100)) f;
           f = Frame_setNextByte vt (ucast (v div 0x100 mod 0x100)) f;
           f = Frame_setNextByte vt (ucast (v div 0x10000 mod 0x100)) f;
           f = Frame_setNextByte vt (ucast (v div 0x1000000)) f;
           f = Frame_setNextByte vt q f;
           f = Frame_appendBytes vt t f
       in (True, f))"

definition MeasuredValueNormalizedWithCP24Time2a_encode ::
    "'f frame_vft \<Rightarrow> app_layer_params \<Rightarrow> bool \<Rightarrow> int \<Rightarrow> bytes \<Rightarrow> u8 \<Rightarrow> bytes \<Rightarrow> 'f \<Rightarrow> bool \<times> 'f" where
  "MeasuredValueNormalizedWithCP24Time2a_encode vt p isSequence ioa ev q t f =
     (if \<not> io_room vt p isSequence 6 f then (False, f) else
       let f = snd (MeasuredValueNormalized_encode vt p isSequence ioa ev q f);
           f = Frame_appendBytes vt t f
       in (True, f))"

definition MeasuredValueScaledWithCP24Time2a_encode ::
    "'f frame_vft \<Rightarrow> app_layer_params \<Rightarrow> bool \<Rightarrow> int \<Rightarrow> bytes \<Rightarrow> u8 \<Rightarrow> bytes \<Rightarrow> 'f \<Rightarrow> bool \<times> 'f" where
  "MeasuredValueScaledWithCP24Time2a_encode vt p isSequence ioa ev q t f =
     (if \<not> io_room vt p isSequence 6 f then (False, f) else
       let f = snd (MeasuredValueNormalized_encode vt p isSequence ioa ev q f);
           f = Frame_appendBytes vt t f
       in (True, f))"

definition MeasuredValueShortWithCP24Time2a_encode ::
    "'f frame_vft \<Rightarrow> app_layer_params \<Rightarrow> bool \<Rightarrow> int \<Rightarrow> f32 \<Rightarrow> u8 \<Rightarrow> bytes \<Rightarrow> 'f \<Rightarrow> bool \<times> 'f" where
  "MeasuredValueShortWithCP24Time2a_encode vt p isSequence ioa v q t f =
     (if \<not> io_room vt p isSequence 8 f then (False, f) else
       let f = snd (MeasuredValueShort_encode vt p isSequence ioa v q f);
           f = Frame_appendBytes vt t f
       in (True, f))"

definition IntegratedTotalsWithCP24Time2a_encode ::
    "'f frame_vft \<Rightarrow> app_layer_params \<Rightarrow> bool \<Rightarrow> int \<Rightarrow> bytes \<Rightarrow> bytes \<Rightarrow> 'f \<Rightarrow> bool \<times> 'f" where
  "IntegratedTotalsWithCP24Time2a_encode vt p isSequence ioa totals t f =
     (if \<not> io_room vt p isSequence 8 f then (False, f) else
       let f = snd (IntegratedTotals_encode vt p isSequence ioa totals f);
           f = Frame_appendBytes vt t f
       in (True, f))"

definition EventOfProtectionEquipment_encode ::
    "'f frame_vft \<Rightarrow> app_layer_params \<Rightarrow> bool \<Rightarrow> int \<Rightarrow> u8 \<Rightarrow> bytes \<Rightarrow> bytes \<Rightarrow> 'f \<Rightarrow> bool \<times> 'f" where
  "EventOfProtectionEquipment_encode vt p isSequence ioa e el t f =
     (if \<not> io_room vt p isSequence 6 f then (False, f) else
       let f = InformationObject_encodeBase vt p isSequence ioa f;
           f = Frame_setNextByte vt e f;
           f = Frame_appendBytes vt el f;
           f = Frame_appendBytes vt t f
       in (True, f))"

definition EventOfProtectionEquipmentWithCP56Time2a_encode ::
    "'f frame_vft \<Rightarrow> app_layer_params \<Rightarrow> bool \<Rightarrow> int \<Rightarrow> u8 \<Rightarrow> bytes \<Rightarrow> bytes \<Rightarrow> 'f \<Rightarrow> bool \<times> 'f" where
  "EventOfProtectionEquipmentWithCP56Time2a_encode vt p isSequence ioa e el t f =
     (if \<not> io_room vt p isSequence 10 f then (False, f) else
       let f = InformationObject_encodeBase vt p isSequence ioa f;
           f = Frame_setNextByte vt e f;
           f = Frame_appendBytes vt el f;
           f = Frame_appendBytes vt t f
       in (True, f))"

definition PackedStartEventsOfProtectionEquipment_encode ::
    "'f frame_vft \<Rightarrow> app_layer_params \<Rightarrow> bool \<Rightarrow> int \<Rightarrow> u8 \<Rightarrow> u8 \<Rightarrow> bytes \<Rightarrow> bytes \<Rightarrow> 'f \<Rightarrow> bool \<times> 'f" where
  "PackedStartEventsOfProtectionEquipment_encode vt p isSequence ioa e qdp el t f =
     (if \<not> io_room vt p isSequence 7 f then (False, f) else
       let f = InformationObject_encodeBase vt p isSequence ioa f;
           f = Frame_setNextByte vt e f;
           f = Frame_setNextByte vt qdp f;
           f = Frame_appendBytes vt el f;
           f = Frame_appendBytes vt t f
       in (True, f))"

definition PackedStartEventsOfProtectionEquipmentWithCP56Time2a_encode ::
    "'f frame_vft \<Rightarrow> app_layer_params \<Rightarrow> bool \<Rightarrow> int \<Rightarrow> u8 \<Rightarrow> u8 \<Rightarrow> bytes \<Rightarrow> bytes \<Rightarrow> 'f \<Rightarrow> bool \<times> 'f" where
  "PackedStartEventsOfProtectionEquipmentWithCP56Time2a_encode vt p isSequence ioa e qdp el t f =
     (if \<not> io_room vt p isSequence 11 f then (False, f) else
       let f = InformationObject_encodeBase vt p isSequence ioa f;
           f = Frame_setNextByte vt e f;
           f = Frame_setNextByte vt qdp f;
           f = Frame_appendBytes vt el f;
           f = Frame_appendBytes vt t f
       in (True, f))"

definition PackedOutputCircuitInfo_encode ::
    "'f frame_vft \<Rightarrow> app_layer_params \<Rightarrow> bool \<Rightarrow> int \<Rightarrow> u8 \<Rightarrow> u8 \<Rightarrow> bytes \<Rightarrow> bytes \<Rightarrow> 'f \<Rightarrow> bool \<times> 'f" where
  "PackedOutputCircuitInfo_encode vt p isSequence ioa e qdp el t f =
     (if \<not> io_room vt p isSequence 7 f then (False, f) else
       let f = InformationObject_encodeBase vt p isSequence ioa f;
           f = Frame_setNextByte vt e f;
           f = Frame_setNextByte vt qdp f;
           f = Frame_appendBytes vt el f;
           f = Frame_appendBytes vt t f
       in (True, f))"

definition PackedOutputCircuitInfoWithCP56Time2a_encode ::
    "'f frame_vft \<Rightarrow> app_layer_params \<Rightarrow> bool \<Rightarrow> int \<Rightarrow> u8 \<Rightarrow> u8 \<Rightarrow> bytes \<Rightarrow> bytes \<Rightarrow> 'f \<Rightarrow> bool \<times> 'f" where
  "PackedOutputCircuitInfoWithCP56Time2a_encode vt p isSequence ioa e qdp el t f =
     (if \<not> io_room vt p isSequence 11 f then (False, f) else
       let f = InformationObject_encodeBase vt p isSequence ioa f;
           f = Frame_setNextByte vt e f;
           f = Frame_setNextByte vt qdp f;
           f = Frame_appendBytes vt el f;
           f = Frame_appendBytes vt t f
       in (True, f))"

definition PackedSinglePointWithSCD_encode ::
    "'f frame_vft \<Rightarrow> app_layer_params \<Rightarrow> bool \<Rightarrow> int \<Rightarrow> bytes \<Rightarrow> u8 \<Rightarrow> 'f \<Rightarrow> bool \<times> 'f" where
  "PackedSinglePointWithSCD_encode vt p isSequence ioa scd q f =
     (if \<not> io_room vt p isSequence 5 f then (False, f) else
       let f = InformationObject_encodeBase vt p isSequence ioa f;
           f = Frame_appendBytes vt scd f;
           f = Frame_setNextByte vt q f
       in (True, f))"

definition DoubleCommand_encode ::
    "'f frame_vft \<Rightarrow> app_layer_params \<Rightarrow> bool \<Rightarrow> int \<Rightarrow> u8 \<Rightarrow> 'f \<Rightarrow> bool \<times> 'f" where
  "DoubleCommand_encode vt p isSequence ioa b f =
     (if \<not> io_room vt p isSequence 1 f then (False, f) else
       let f = InformationObject_encodeBase vt p isSequence ioa f;
           f = Frame_setNextByte vt b f
       in (True, f))"

definition StepCommand_encode ::
    "'f frame_vft \<Rightarrow> app_layer_params \<Rightarrow> bool \<Rightarrow> int \<Rightarrow> u8 \<Rightarrow> 'f \<Rightarrow> bool \<times> 'f" where
  "StepCommand_encode vt p isSequence ioa b f =
     (if \<not> io_room vt p isSequence 1 f then (False, f) else
       let f = InformationObject_encodeBase vt p isSequence ioa f;
           f = Frame_setNextByte vt b f
       in (True, f))"

definition SetpointCommandNormalized_encode ::
    "'f frame_vft \<Rightarrow> app_layer_params \<Rightarrow> bool \<Rightarrow> int \<Rightarrow> bytes \<Rightarrow> u8 \<Rightarrow> 'f \<Rightarrow> bool \<times> 'f" where
  "SetpointCommandNormalized_encode vt p isSequence ioa ev q f =
     (if \<not> io_room vt p isSequence 3 f then (False, f) else
       let f = InformationObject_encodeBase vt p isSequence ioa f;
           f = Frame_appendBytes vt ev f;
           f = Frame_setNextByte vt q f
       in (True, f))"

definition SetpointCommandScaled_encode ::
    "'f frame_vft \<Rightarrow> app_layer_params \<Rightarrow> bool \<Rightarrow> int \<Rightarrow> bytes \<Rightarrow> u8 \<Rightarrow> 'f \<Rightarrow> bool \<times> 'f" where
  "SetpointCommandScaled_encode vt p isSequence ioa ev q f =
     (if \<not> io_room vt p isSequence 3 f then (False, f) else
       let f = InformationObject_encodeBase vt p isSequence ioa f;
           f = Frame_appendBytes vt ev f;
           f = Frame_setNextByte vt q f
       in (True, f))"

definition SingleCommandWithCP56Time2a_encode ::
    "'f frame_vft \<Rightarrow> app_layer_params \<Rightarrow> bool \<Rightarrow> int \<Rightarrow> u8 \<Rightarrow> bytes \<Rightarrow> 'f \<Rightarrow> bool \<times> 'f" where
  "SingleCommandWithCP56Time2a_encode vt p isSequence ioa b t f =
     (if \<not> io_room vt p isSequence 8 f then (False, f) else
       let f = snd (SingleCommand_encode vt p isSequence ioa b f);
           f = Frame_appendBytes vt t f
       in (True, f))"

definition DoubleCommandWithCP56Time2a_encode ::
    "'f frame_vft \<Rightarrow> app_layer_params \<Rightarrow> bool \<Rightarrow> int \<Rightarrow> u8 \<Rightarrow> bytes \<Rightarrow> 'f \<Rightarrow> bool \<times> 'f" where
  "DoubleCommandWithCP56Time2a_encode vt p isSequence ioa b t f =
     (if \<not> io_room vt p isSequence 8 f then (False, f) else
       let f = snd (DoubleCommand_encode vt p isSequence ioa b f);
           f = Frame_appendBytes vt t f
       in (True, f))"

definition StepCommandWithCP56Time2a_encode ::
    "'f frame_vft \<Rightarrow> app_layer_params \<Rightarrow> bool \<Rightarrow> int \<Rightarrow> u8 \<Rightarrow> bytes \<Rightarrow> 'f \<Rightarrow> bool \<times> 'f" where
  "StepCommandWithCP56Time2a_encode vt p isSequence ioa b t f =
     (if \<not> io_room vt p isSequence 8 f then (False, f) else
       let f = snd (StepCommand_encode vt p isSequence ioa b f);
           f = Frame_appendBytes vt t f
       in (True, f))"

definition SetpointCommandNormalizedWithCP56Time2a_encode ::
    "'f frame_vft \<Rightarrow> app_layer_params \<Rightarrow> bool \<Rightarrow> int \<Rightarrow> bytes \<Rightarrow> u8 \<Rightarrow> bytes \<Rightarrow> 'f \<Rightarrow> bool \<times> 'f" where
  "SetpointCommandNormalizedWithCP56Time2a_encode vt p isSequence ioa ev q t f =
     (if \<not> io_room vt p isSequence 10 f then (False, f) else
       let f = snd (SetpointCommandNormalized_encode vt p isSequence ioa ev q f);
           f = Frame_appendBytes vt t f
       in (True, f))"

definition SetpointCommandScaledWithCP56Time2a_encode ::
    "'f frame_vft \<Rightarrow> app_layer_params \<Rightarrow> bool \<Rightarrow> int \<Rightarrow> bytes \<Rightarrow> u8 \<Rightarrow> bytes \<Rightarrow> 'f \<Rightarrow> bool \<times> 'f" where
  "SetpointCommandScaledWithCP56Time2a_encode vt p isSequence ioa ev q t f =
     (if \<not> io_room vt p isSequence 10 f then (False, f) else
       let f = snd (SetpointCommandScaled_encode vt p isSequence ioa ev q f);
           f = Frame_appendBytes vt t f
       in (True, f))"

definition SetpointCommandShortWithCP56Time2a_encode ::
    "'f frame_vft \<Rightarrow> app_layer_params \<Rightarrow> bool \<Rightarrow> int \<Rightarrow> f32 \<Rightarrow> u8 \<Rightarrow> bytes \<Rightarrow> 'f \<Rightarrow> bool \<times> 'f" where
  "SetpointCommandShortWithCP56Time2a_encode vt p isSequence ioa v q t f =
     (if \<not> io_room vt p isSequence 12 f then (False, f) else
       let f = snd (SetpointCommandShort_encode vt p isSequence ioa v q f);
           f = Frame_appendBytes vt t f
       in (True, f))"

definition EndOfInitialization_encode ::
    "'f frame_vft \<Rightarrow> app_layer_params \<Rightarrow> bool \<Rightarrow> int \<Rightarrow> u8 \<Rightarrow> 'f \<Rightarrow> bool \<times> 'f" where
  "EndOfInitialization_encode vt p isSequence ioa b f =
     (if \<not> io_room vt p isSequence 1 f then (False, f) else
       let f = InformationObject_encodeBase vt p isSequence ioa f;
           f = Frame_setNextByte vt b f
       in (True, f))"

definition CounterInterrogationCommand_encode ::
    "'f frame_vft \<Rightarrow> app_layer_params \<Rightarrow> bool \<Rightarrow> int \<Rightarrow> u8 \<Rightarrow> 'f \<Rightarrow> bool \<times> 'f" where
  "CounterInterrogationCommand_encode vt p isSequence ioa b f =
     (if \<not> io_room vt p isSequence 1 f then (False, f) else
       let f = InformationObject_encodeBase vt p isSequence ioa f;
           f = Frame_setNextByte vt b f
       in (True, f))"

definition DelayAcquisitionCommand_encode ::
    "'f frame_vft \<Rightarrow> app_layer_params \<Rightarrow> bool \<Rightarrow> int \<Rightarrow> bytes \<Rightarrow> 'f \<Rightarrow> bool \<times> 'f" where
  "DelayAcquisitionCommand_encode vt p isSequence ioa t f =
     (if \<not> io_room vt p isSequence 2 f then (False, f) else
       let f = InformationObject_encodeBase vt p isSequence ioa f;
           f = Frame_appendBytes vt t f
       in (True, f))"

definition ParameterActivation_encode ::
    "'f frame_vft \<Rightarrow> app_layer_params \<Rightarrow> bool \<Rightarrow> int \<Rightarrow> u8 \<Rightarrow> 'f \<Rightarrow> bool \<times> 'f" where
  "ParameterActivation_encode vt p isSequence ioa b f =
     (if \<not> io_room vt p isSequence 1 f then (False, f) else
       let f = InformationObject_encodeBase vt p isSequence ioa f;
           f = Frame_setNextByte vt b f
       in (True, f))"

text \<open>\<open>InformationObject_encode\<close>: dispatch through the virtual function table of the object.\<close>

fun InformationObject_encode ::
    "'f frame_vft \<Rightarrow> app_layer_params \<Rightarrow> bool \<Rightarrow> information_object \<Rightarrow> 'f \<Rightarrow> bool \<times> 'f" where
  "InformationObject_encode vt p s (SinglePointInformation a v q) f =
     SinglePointInformation_encode vt p s a v q f"
| "InformationObject_encode vt p s (DoublePointInformation a v q) f =
     DoublePointInformation_encode vt p s a v q f"
| "InformationObject_encode vt p s (MeasuredValueNormalized a ev q) f =
     MeasuredValueNormalized_encode vt p s a ev q f"
| "InformationObject_encode vt p s (MeasuredValueNormalizedWithoutQuality a ev) f =
     MeasuredValueNormalizedWithoutQuality_encode vt p s a ev f"
| "InformationObject_encode vt p s (MeasuredValueScaled a ev q) f =
     MeasuredValueScaled_encode vt p s a ev q f"
| "InformationObject_encode vt p s (MeasuredValueShort a v q) f =
     MeasuredValueShort_encode vt p s a v q f"
| "InformationObject_encode vt p s (SinglePointWithCP56Time2a a v q t) f =
     SinglePointWithCP56Time2a_encode vt p s a v q t f"
| "InformationObject_encode vt p s (DoublePointWithCP56Time2a a v q t) f =
     DoublePointWithCP56Time2a_encode vt p s a v q t f"
| "InformationObject_encode vt p s (MeasuredValueNormalizedWithCP56Time2a a ev q t) f =
     MeasuredValueNormalizedWithCP56Time2a_encode vt p s a ev q t f"
| "InformationObject_encode vt p s (MeasuredValueScaledWithCP56Time2a a ev q t) f =
     MeasuredValueScaledWithCP56Time2a_encode vt p s a ev q t f"
| "InformationObject_encode vt p s (MeasuredValueShortWithCP56Time2a a v q t) f =
     MeasuredValueShortWithCP56Time2a_encode vt p s a v q t f"
| "InformationObject_encode vt p s (IntegratedTotalsWithCP56Time2a a tot t) f =
     IntegratedTotalsWithCP56Time2a_encode vt p s a tot t f"
| "InformationObject_encode vt p s (SingleCommand a b) f = SingleCommand_encode vt p s a b f"
| "InformationObject_encode vt p s (SetpointCommandShort a v q) f =
     SetpointCommandShort_encode vt p s a v q f"
| "InformationObject_encode vt p s (InterrogationCommand a b) f =
     InterrogationCommand_encode vt p s a b f"
| "InformationObject_encode vt p s (ClockSynchronizationCommand a t) f =
     ClockSynchronizationCommand_encode vt p s a t f"
| "InformationObject_encode vt p s (ResetProcessCommand a b) f =
     ResetProcessCommand_encode vt p s a b f"
| "InformationObject_encode vt p s (SinglePointWithCP24Time2a a v q t) f =
     SinglePointWithCP24Time2a_encode vt p s a v q t f"
| "InformationObject_encode vt p s (DoublePointWithCP24Time2a a v q t) f =
     DoublePointWithCP24Time2a_encode vt p s a v q t f"
| "InformationObject_encode vt p s (StepPositionInformation a vti q) f =
     StepPositionInformation_encode vt p s a vti q f"
| "InformationObject_encode vt p s (StepPositionWithCP24Time2a a vti q t) f =
     StepPositionWithCP24Time2a_encode vt p s a vti q t f"
| "InformationObject_encode vt p s (StepPositionWithCP56Time2a a vti q t) f =
     StepPositionWithCP56Time2a_encode vt p s a vti q t f"
| "InformationObject_encode vt p s (BitString32 a v q) f =
     BitString32_encode vt p s a v q f"
| "InformationObject_encode vt p s (Bitstring32WithCP24Time2a a v q t) f =
     Bitstring32WithCP24Time2a_encode vt p s a v q t f"
| "InformationObject_encode vt p s (Bitstring32WithCP56Time2a a v q t) f =
     Bitstring32WithCP56Time2a_encode vt p s a v q t f"
| "InformationObject_encode vt p s (MeasuredValueNormalizedWithCP24Time2a a ev q t) f =
     MeasuredValueNormalizedWithCP24Time2a_encode vt p s a ev q t f"
| "InformationObject_encode vt p s (MeasuredValueScaledWithCP24Time2a a ev q t) f =
     MeasuredValueScaledWithCP24Time2a_encode vt p s a ev q t f"
| "InformationObject_encode vt p s (MeasuredValueShortWithCP24Time2a a v q t) f =
     MeasuredValueShortWithCP24Time2a_encode vt p s a v q t f"
| "InformationObject_encode vt p s (IntegratedTotals a totals) f =
     IntegratedTotals_encode vt p s a totals f"
| "InformationObject_encode vt p s (IntegratedTotalsWithCP24Time2a a totals t) f =
     IntegratedTotalsWithCP24Time2a_encode vt p s a totals t f"
| "InformationObject_encode vt p s (EventOfProtectionEquipment a e el t) f =
     EventOfProtectionEquipment_encode vt p s a e el t f"
| "InformationObject_encode vt p s (EventOfProtectionEquipmentWithCP56Time2a a e el t) f =
     EventOfProtectionEquipmentWithCP56Time2a_encode vt p s a e el t f"
| "InformationObject_encode vt p s (PackedStartEventsOfProtectionEquipment a e qdp el t) f =
     PackedStartEventsOfProtectionEquipment_encode vt p s a e qdp el t f"
| "InformationObject_encode vt p s (PackedStartEventsOfProtectionEquipmentWithCP56Time2a a e qdp el t) f =
     PackedStartEventsOfProtectionEquipmentWithCP56Time2a_encode vt p s a e qdp el t f"
| "InformationObject_encode vt p s (PackedOutputCircuitInfo a e qdp el t) f =
     PackedOutputCircuitInfo_encode vt p s a e qdp el t f"
| "InformationObject_encode vt p s (PackedOutputCircuitInfoWithCP56Time2a a e qdp el t) f =
     PackedOutputCircuitInfoWithCP56Time2a_encode vt p s a e qdp el t f"
| "InformationObject_encode vt p s (PackedSinglePointWithSCD a scd q) f =
     PackedSinglePointWithSCD_encode vt p s a scd q f"
| "InformationObject_encode vt p s (DoubleCommand a b) f =
     DoubleCommand_encode vt p s a b f"
| "InformationObject_encode vt p s (StepCommand a b) f =
     StepCommand_encode vt p s a b f"
| "InformationObject_encode vt p s (SetpointCommandNormalized a ev q) f =
     SetpointCommandNormalized_encode vt p s a ev q f"
| "InformationObject_encode vt p s (SetpointCommandScaled a ev q) f =
     SetpointCommandScaled_encode vt p s a ev q f"
| "InformationObject_encode vt p s (SingleCommandWithCP56Time2a a b t) f =
     SingleCommandWithCP56Time2a_encode vt p s a b t f"
| "InformationObject_encode vt p s (DoubleCommandWithCP56Time2a a b t) f =
     DoubleCommandWithCP56Time2a_encode vt p s a b t f"
| "InformationObject_encode vt p s (StepCommandWithCP56Time2a a b t) f =
     StepCommandWithCP56Time2a_encode vt p s a b t f"
| "InformationObject_encode vt p s (SetpointCommandNormalizedWithCP56Time2a a ev q t) f =
     SetpointCommandNormalizedWithCP56Time2a_encode vt p s a ev q t f"
| "InformationObject_encode vt p s (SetpointCommandScaledWithCP56Time2a a ev q t) f =
     SetpointCommandScaledWithCP56Time2a_encode vt p s a ev q t f"
| "InformationObject_encode vt p s (SetpointCommandShortWithCP56Time2a a v q t) f =
     SetpointCommandShortWithCP56Time2a_encode vt p s a v q t f"
| "InformationObject_encode vt p s (EndOfInitialization a b) f =
     EndOfInitialization_encode vt p s a b f"
| "InformationObject_encode vt p s (CounterInterrogationCommand a b) f =
     CounterInterrogationCommand_encode vt p s a b f"
| "InformationObject_encode vt p s (DelayAcquisitionCommand a t) f =
     DelayAcquisitionCommand_encode vt p s a t f"
| "InformationObject_encode vt p s (ParameterNormalizedValue a ev q) f =
     MeasuredValueNormalized_encode vt p s a ev q f"
| "InformationObject_encode vt p s (ParameterScaledValue a ev q) f =
     MeasuredValueScaled_encode vt p s a ev q f"
| "InformationObject_encode vt p s (ParameterFloatValue a v q) f =
     MeasuredValueShort_encode vt p s a v q f"
| "InformationObject_encode vt p s (ParameterActivation a b) f =
     ParameterActivation_encode vt p s a b f"

lemmas io_encode_defs = SinglePointInformation_encode_def
  DoublePointInformation_encode_def
  MeasuredValueNormalized_encode_def
  MeasuredValueNormalizedWithoutQuality_encode_def
  MeasuredValueScaled_encode_def
  MeasuredValueShort_encode_def
  SinglePointWithCP56Time2a_encode_def
  DoublePointWithCP56Time2a_encode_def
  MeasuredValueNormalizedWithCP56Time2a_encode_def
  MeasuredValueScaledWithCP56Time2a_encode_def
  MeasuredValueShortWithCP56Time2a_encode_def
  IntegratedTotalsWithCP56Time2a_encode_def
  IntegratedTotals_encode_def
  SingleCommand_encode_def
  SetpointCommandShort_encode_def
  InterrogationCommand_encode_def
  ClockSynchronizationCommand_encode_def
  ResetProcessCommand_encode_def
  SinglePointWithCP24Time2a_encode_def DoublePointWithCP24Time2a_encode_def
  StepPositionInformation_encode_def StepPositionWithCP24Time2a_encode_def
  StepPositionWithCP56Time2a_encode_def BitString32_encode_def Bitstring32WithCP24Time2a_encode_def
  Bitstring32WithCP56Time2a_encode_def MeasuredValueNormalizedWithCP24Time2a_encode_def
  MeasuredValueScaledWithCP24Time2a_encode_def MeasuredValueShortWithCP24Time2a_encode_def
  IntegratedTotalsWithCP24Time2a_encode_def EventOfProtectionEquipment_encode_def
  EventOfProtectionEquipmentWithCP56Time2a_encode_def PackedStartEventsOfProtectionEquipment_encode_def
  PackedStartEventsOfProtectionEquipmentWithCP56Time2a_encode_def PackedOutputCircuitInfo_encode_def
  PackedOutputCircuitInfoWithCP56Time2a_encode_def PackedSinglePointWithSCD_encode_def
  DoubleCommand_encode_def StepCommand_encode_def SetpointCommandNormalized_encode_def
  SetpointCommandScaled_encode_def SingleCommandWithCP56Time2a_encode_def
  DoubleCommandWithCP56Time2a_encode_def StepCommandWithCP56Time2a_encode_def
  SetpointCommandNormalizedWithCP56Time2a_encode_def SetpointCommandScaledWithCP56Time2a_encode_def
  SetpointCommandShortWithCP56Time2a_encode_def EndOfInitialization_encode_def
  CounterInterrogationCommand_encode_def DelayAcquisitionCommand_encode_def
  ParameterActivation_encode_def

section \<open>The layout\<close>

definition ioa_bytes :: "app_layer_params \<Rightarrow> int \<Rightarrow> bytes" where
  "ioa_bytes p ioa = take (nat (sizeOfIOA p))
     [word_of_int ioa, word_of_int (c_div ioa 0x100), word_of_int (c_div ioa 0x10000)]"

fun io_body :: "information_object \<Rightarrow> bytes" where
  "io_body (SinglePointInformation _ v q) = [(q AND 0xf0) + of_bool v]"
| "io_body (DoublePointInformation _ v q) = [(q AND 0xf0) + ucast v]"
| "io_body (MeasuredValueNormalized _ ev q) = ev @ [q]"
| "io_body (MeasuredValueNormalizedWithoutQuality _ ev) = ev"
| "io_body (MeasuredValueScaled _ ev q) = ev @ [q]"
| "io_body (MeasuredValueShort _ v q) = le_bytes 4 v @ [q]"
| "io_body (SinglePointWithCP56Time2a _ v q t) = ((q AND 0xf0) + of_bool v) # t"
| "io_body (DoublePointWithCP56Time2a _ v q t) = ((q AND 0xf0) + ucast v) # t"
| "io_body (MeasuredValueNormalizedWithCP56Time2a _ ev q t) = ev @ q # t"
| "io_body (MeasuredValueScaledWithCP56Time2a _ ev q t) = ev @ q # t"
| "io_body (MeasuredValueShortWithCP56Time2a _ v q t) = le_bytes 4 v @ q # t"
| "io_body (IntegratedTotalsWithCP56Time2a _ totals t) = totals @ t"
| "io_body (SingleCommand _ b) = [b]"
| "io_body (SetpointCommandShort _ v q) = le_bytes 4 v @ [q]"
| "io_body (InterrogationCommand _ b) = [b]"
| "io_body (ClockSynchronizationCommand _ t) = t"
| "io_body (ResetProcessCommand _ b) = [b]"
| "io_body (SinglePointWithCP24Time2a _ v q t) = ((q AND 0xf0) + of_bool v) # t"
| "io_body (DoublePointWithCP24Time2a _ v q t) = ((q AND 0xf0) + ucast v) # t"
| "io_body (StepPositionInformation _ vti q) = [vti, q]"
| "io_body (StepPositionWithCP24Time2a _ vti q t) = vti # q # t"
| "io_body (StepPositionWithCP56Time2a _ vti q t) = vti # q # t"
| "io_body (BitString32 _ v q) = le_bytes 4 v @ [q]"
| "io_body (Bitstring32WithCP24Time2a _ v q t) = le_bytes 4 v @ q # t"
| "io_body (Bitstring32WithCP56Time2a _ v q t) = le_bytes 4 v @ q # t"
| "io_body (MeasuredValueNormalizedWithCP24Time2a _ ev q t) = ev @ q # t"
| "io_body (MeasuredValueScaledWithCP24Time2a _ ev q t) = ev @ q # t"
| "io_body (MeasuredValueShortWithCP24Time2a _ v q t) = le_bytes 4 v @ q # t"
| "io_body (IntegratedTotals _ totals) = totals"
| "io_body (IntegratedTotalsWithCP24Time2a _ totals t) = totals @ t"
| "io_body (EventOfProtectionEquipment _ e el t) = e # el @ t"
| "io_body (EventOfProtectionEquipmentWithCP56Time2a _ e el t) = e # el @ t"
| "io_body (PackedStartEventsOfProtectionEquipment _ e qdp el t) = e # qdp # el @ t"
| "io_body (PackedStartEventsOfProtectionEquipmentWithCP56Time2a _ e qdp el t) = e # qdp # el @ t"
| "io_body (PackedOutputCircuitInfo _ e qdp el t) = e # qdp # el @ t"
| "io_body (PackedOutputCircuitInfoWithCP56Time2a _ e qdp el t) = e # qdp # el @ t"
| "io_body (PackedSinglePointWithSCD _ scd q) = scd @ [q]"
| "io_body (DoubleCommand _ b) = [b]"
| "io_body (StepCommand _ b) = [b]"
| "io_body (SetpointCommandNormalized _ ev q) = ev @ [q]"
| "io_body (SetpointCommandScaled _ ev q) = ev @ [q]"
| "io_body (SingleCommandWithCP56Time2a _ b t) = b # t"
| "io_body (DoubleCommandWithCP56Time2a _ b t) = b # t"
| "io_body (StepCommandWithCP56Time2a _ b t) = b # t"
| "io_body (SetpointCommandNormalizedWithCP56Time2a _ ev q t) = ev @ q # t"
| "io_body (SetpointCommandScaledWithCP56Time2a _ ev q t) = ev @ q # t"
| "io_body (SetpointCommandShortWithCP56Time2a _ v q t) = le_bytes 4 v @ q # t"
| "io_body (EndOfInitialization _ b) = [b]"
| "io_body (CounterInterrogationCommand _ b) = [b]"
| "io_body (DelayAcquisitionCommand _ t) = t"
| "io_body (ParameterNormalizedValue _ ev q) = ev @ [q]"
| "io_body (ParameterScaledValue _ ev q) = ev @ [q]"
| "io_body (ParameterFloatValue _ v q) = le_bytes 4 v @ [q]"
| "io_body (ParameterActivation _ b) = [b]"

definition io_layout :: "app_layer_params \<Rightarrow> bool \<Rightarrow> information_object \<Rightarrow> bytes" where
  "io_layout p isSequence io =
     (if isSequence then [] else ioa_bytes p (InformationObject_getObjectAddress io)) @ io_body io"

text \<open>The arrays inside the structs have the sizes the structs declare.\<close>

fun io_wf :: "information_object \<Rightarrow> bool" where
  "io_wf (SinglePointInformation _ _ _) = True"
| "io_wf (DoublePointInformation _ _ _) = True"
| "io_wf (MeasuredValueNormalized _ ev _) = (length ev = 2)"
| "io_wf (MeasuredValueNormalizedWithoutQuality _ ev) = (length ev = 2)"
| "io_wf (MeasuredValueScaled _ ev _) = (length ev = 2)"
| "io_wf (MeasuredValueShort _ _ _) = True"
| "io_wf (SinglePointWithCP56Time2a _ _ _ t) = (length t = 7)"
| "io_wf (DoublePointWithCP56Time2a _ _ _ t) = (length t = 7)"
| "io_wf (MeasuredValueNormalizedWithCP56Time2a _ ev _ t) = (length ev = 2 \<and> length t = 7)"
| "io_wf (MeasuredValueScaledWithCP56Time2a _ ev _ t) = (length ev = 2 \<and> length t = 7)"
| "io_wf (MeasuredValueShortWithCP56Time2a _ _ _ t) = (length t = 7)"
| "io_wf (IntegratedTotalsWithCP56Time2a _ totals t) = (length totals = 5 \<and> length t = 7)"
| "io_wf (SingleCommand _ _) = True"
| "io_wf (SetpointCommandShort _ _ _) = True"
| "io_wf (InterrogationCommand _ _) = True"
| "io_wf (ClockSynchronizationCommand _ t) = (length t = 7)"
| "io_wf (ResetProcessCommand _ _) = True"
| "io_wf (SinglePointWithCP24Time2a _ _ _ t) = (length t = 3)"
| "io_wf (DoublePointWithCP24Time2a _ _ _ t) = (length t = 3)"
| "io_wf (StepPositionInformation _ _ _) = True"
| "io_wf (StepPositionWithCP24Time2a _ _ _ t) = (length t = 3)"
| "io_wf (StepPositionWithCP56Time2a _ _ _ t) = (length t = 7)"
| "io_wf (BitString32 _ _ _) = True"
| "io_wf (Bitstring32WithCP24Time2a _ _ _ t) = (length t = 3)"
| "io_wf (Bitstring32WithCP56Time2a _ _ _ t) = (length t = 7)"
| "io_wf (MeasuredValueNormalizedWithCP24Time2a _ ev _ t) = (length ev = 2 \<and> length t = 3)"
| "io_wf (MeasuredValueScaledWithCP24Time2a _ ev _ t) = (length ev = 2 \<and> length t = 3)"
| "io_wf (MeasuredValueShortWithCP24Time2a _ _ _ t) = (length t = 3)"
| "io_wf (IntegratedTotals _ totals) = (length totals = 5)"
| "io_wf (IntegratedTotalsWithCP24Time2a _ totals t) = (length totals = 5 \<and> length t = 3)"
| "io_wf (EventOfProtectionEquipment _ _ el t) = (length el = 2 \<and> length t = 3)"
| "io_wf (EventOfProtectionEquipmentWithCP56Time2a _ _ el t) = (length el = 2 \<and> length t = 7)"
| "io_wf (PackedStartEventsOfProtectionEquipment _ _ _ el t) = (length el = 2 \<and> length t = 3)"
| "io_wf (PackedStartEventsOfProtectionEquipmentWithCP56Time2a _ _ _ el t) = (length el = 2 \<and> length t = 7)"
| "io_wf (PackedOutputCircuitInfo _ _ _ el t) = (length el = 2 \<and> length t = 3)"
| "io_wf (PackedOutputCircuitInfoWithCP56Time2a _ _ _ el t) = (length el = 2 \<and> length t = 7)"
| "io_wf (PackedSinglePointWithSCD _ scd _) = (length scd = 4)"
| "io_wf (DoubleCommand _ _) = True"
| "io_wf (StepCommand _ _) = True"
| "io_wf (SetpointCommandNormalized _ ev _) = (length ev = 2)"
| "io_wf (SetpointCommandScaled _ ev _) = (length ev = 2)"
| "io_wf (SingleCommandWithCP56Time2a _ _ t) = (length t = 7)"
| "io_wf (DoubleCommandWithCP56Time2a _ _ t) = (length t = 7)"
| "io_wf (StepCommandWithCP56Time2a _ _ t) = (length t = 7)"
| "io_wf (SetpointCommandNormalizedWithCP56Time2a _ ev _ t) = (length ev = 2 \<and> length t = 7)"
| "io_wf (SetpointCommandScaledWithCP56Time2a _ ev _ t) = (length ev = 2 \<and> length t = 7)"
| "io_wf (SetpointCommandShortWithCP56Time2a _ _ _ t) = (length t = 7)"
| "io_wf (EndOfInitialization _ _) = True"
| "io_wf (CounterInterrogationCommand _ _) = True"
| "io_wf (DelayAcquisitionCommand _ t) = (length t = 2)"
| "io_wf (ParameterNormalizedValue _ ev _) = (length ev = 2)"
| "io_wf (ParameterScaledValue _ ev _) = (length ev = 2)"
| "io_wf (ParameterFloatValue _ _ _) = True"
| "io_wf (ParameterActivation _ _) = True"

text \<open>The size of an encoded element depends on its type only.\<close>

definition body_size :: "u32 \<Rightarrow> nat" where
  "body_size ty =
     (if ty \<in> {M_SP_NA_1, M_DP_NA_1, C_SC_NA_1, C_IC_NA_1, C_RP_NA_1, C_DC_NA_1, C_RC_NA_1, M_EI_NA_1, C_CI_NA_1, P_AC_NA_1} then 1
      else if ty \<in> {M_ME_ND_1, M_ST_NA_1, C_CD_NA_1} then 2
      else if ty \<in> {M_ME_NA_1, M_ME_NB_1, C_SE_NA_1, C_SE_NB_1, P_ME_NA_1, P_ME_NB_1} then 3
      else if ty \<in> {M_SP_TA_1, M_DP_TA_1} then 4
      else if ty \<in> {M_ME_NC_1, C_SE_NC_1, M_ST_TA_1, M_BO_NA_1, M_IT_NA_1, M_PS_NA_1, P_ME_NC_1} then 5
      else if ty \<in> {M_ME_TA_1, M_ME_TB_1, M_EP_TA_1} then 6
      else if ty \<in> {C_CS_NA_1, M_EP_TB_1, M_EP_TC_1} then 7
      else if ty \<in> {M_SP_TB_1, M_DP_TB_1, M_BO_TA_1, M_ME_TC_1, M_IT_TA_1, C_SC_TA_1, C_DC_TA_1, C_RC_TA_1} then 8
      else if ty \<in> {M_ST_TB_1} then 9
      else if ty \<in> {M_ME_TD_1, M_ME_TE_1, M_EP_TD_1, C_SE_TA_1, C_SE_TB_1} then 10
      else if ty \<in> {M_EP_TE_1, M_EP_TF_1} then 11
      else 12)"

lemma body_size_simps [simp]:
  "body_size M_SP_NA_1 = 1" "body_size M_SP_TA_1 = 4" "body_size M_DP_NA_1 = 1" "body_size M_DP_TA_1 = 4"
  "body_size M_ST_NA_1 = 2" "body_size M_ST_TA_1 = 5" "body_size M_BO_NA_1 = 5" "body_size M_BO_TA_1 = 8"
  "body_size M_ME_NA_1 = 3" "body_size M_ME_TA_1 = 6" "body_size M_ME_NB_1 = 3" "body_size M_ME_TB_1 = 6"
  "body_size M_ME_NC_1 = 5" "body_size M_ME_TC_1 = 8" "body_size M_IT_NA_1 = 5" "body_size M_IT_TA_1 = 8"
  "body_size M_EP_TA_1 = 6" "body_size M_EP_TB_1 = 7" "body_size M_EP_TC_1 = 7" "body_size M_PS_NA_1 = 5"
  "body_size M_ME_ND_1 = 2" "body_size M_SP_TB_1 = 8" "body_size M_DP_TB_1 = 8" "body_size M_ST_TB_1 = 9"
  "body_size M_BO_TB_1 = 12" "body_size M_ME_TD_1 = 10" "body_size M_ME_TE_1 = 10" "body_size M_ME_TF_1 = 12"
  "body_size M_IT_TB_1 = 12" "body_size M_EP_TD_1 = 10" "body_size M_EP_TE_1 = 11" "body_size M_EP_TF_1 = 11"
  "body_size C_SC_NA_1 = 1" "body_size C_DC_NA_1 = 1" "body_size C_RC_NA_1 = 1" "body_size C_SE_NA_1 = 3"
  "body_size C_SE_NB_1 = 3" "body_size C_SE_NC_1 = 5" "body_size C_SC_TA_1 = 8" "body_size C_DC_TA_1 = 8"
  "body_size C_RC_TA_1 = 8" "body_size C_SE_TA_1 = 10" "body_size C_SE_TB_1 = 10" "body_size C_SE_TC_1 = 12"
  "body_size M_EI_NA_1 = 1" "body_size C_IC_NA_1 = 1" "body_size C_CI_NA_1 = 1" "body_size C_CS_NA_1 = 7"
  "body_size C_RP_NA_1 = 1" "body_size C_CD_NA_1 = 2" "body_size P_ME_NA_1 = 3" "body_size P_ME_NB_1 = 3"
  "body_size P_ME_NC_1 = 5" "body_size P_AC_NA_1 = 1"
  by (simp_all add: body_size_def type_ids)

lemma length_io_body: "io_wf io \<Longrightarrow> length (io_body io) = body_size (InformationObject_getType io)"
  by (cases io) simp_all

lemma length_ioa_bytes: "params_ok p \<Longrightarrow> int (length (ioa_bytes p a)) = sizeOfIOA p"
  by (auto simp: ioa_bytes_def params_ok_def)

lemma length_io_layout:
  "params_ok p \<Longrightarrow> io_wf io \<Longrightarrow> int (length (io_layout p s io)) =
     (if s then 0 else sizeOfIOA p) + int (body_size (InformationObject_getType io))"
  by (simp add: io_layout_def length_io_body length_ioa_bytes)

lemma byte_and_ff: "(word_of_int (v AND 0xff) :: u8) = word_of_int v"
proof -
  have "v AND 255 = take_bit 8 v" using take_bit_eq_mask [of 8 v] by (simp add: mask_numeral)
  then show ?thesis by (simp only: word_of_int_eq_iff) simp
qed

section \<open>Every encoder implements its layout\<close>

lemma two_bytes: "length xs = 2 \<Longrightarrow> xs ! 0 # xs ! Suc 0 # ys = xs @ ys"
  by (auto simp: numeral_2_eq_2 length_Suc_conv)

text \<open>The bytes of a 32 bit number, as quotients.\<close>

lemma le_bytes_quotients:
  "le_bytes 4 (v :: u32) = [ucast (v mod 0x100), ucast (v div 0x100 mod 0x100), ucast (v div 0x10000 mod 0x100), ucast (v div 0x1000000)]"
proof -
  have "(ucast (w mod 0x100) :: u8) = ucast w" for w :: u32
  proof -
    have "w mod 0x100 = take_bit 8 w" by (simp add: take_bit_eq_mod)
    then show ?thesis by (auto intro: bit_eqI simp: bit_simps)
  qed
  then show ?thesis by (simp add: le_bytes_def upt_rec drop_bit_eq_div)
qed

lemma io_room_mono: "io_room vt p s n f \<Longrightarrow> m \<le> n \<Longrightarrow> io_room vt p s m f"
  by (auto simp: io_room_def split: if_splits)

context frame_interface begin

lemma encodeBase_ok:
  assumes "params_ok p" "frame_wf f" "s \<or> sizeOfIOA p \<le> Frame_getSpaceLeft vt f"
  shows "extends f (InformationObject_encodeBase vt p s ioa f) (if s then [] else ioa_bytes p ioa)"
proof (cases s)
  case True
  then show ?thesis using assms by (simp add: InformationObject_encodeBase_def extends_refl)
next
  case False
  let ?f1 = "Frame_setNextByte vt (word_of_int ioa) f"
  let ?f2 = "Frame_setNextByte vt (word_of_int (c_div ioa 0x100)) ?f1"
  let ?f3 = "Frame_setNextByte vt (word_of_int (c_div ioa 0x10000)) ?f2"
  have sz: "sizeOfIOA p \<in> {1, 2, 3}" using assms(1) by (simp add: params_ok_def)
  have 1: "extends f ?f1 [word_of_int ioa]"
    using extends_set [OF extends_refl [OF assms(2)], of "word_of_int ioa"] sz False assms(3) by auto
  have 2: "extends f ?f2 [word_of_int ioa, word_of_int (c_div ioa 0x100)]" if "1 < sizeOfIOA p"
    using extends_set [OF 1, of "word_of_int (c_div ioa 0x100)"] that sz False assms(3) by auto
  have 3: "extends f ?f3 [word_of_int ioa, word_of_int (c_div ioa 0x100), word_of_int (c_div ioa 0x10000)]"
    if "2 < sizeOfIOA p"
    using extends_set [OF 2, of "word_of_int (c_div ioa 0x10000)"] that sz False assms(3) by auto
  from sz consider "sizeOfIOA p = 1" | "sizeOfIOA p = 2" | "sizeOfIOA p = 3" by auto
  then show ?thesis
    using 1 2 3 False
    by cases (simp_all add: InformationObject_encodeBase_def ioa_bytes_def byte_and_ff Let_def)
qed


lemma extends_eq: "extends f g bs \<Longrightarrow> bs = cs \<Longrightarrow> extends f g cs"
  by simp

text \<open>An encode function implements its layout: all of it when there is room, nothing otherwise.\<close>

definition encodes :: "'f \<Rightarrow> bytes \<Rightarrow> bool \<times> 'f \<Rightarrow> bool" where
  "encodes f bs r \<longleftrightarrow>
     (if int (length bs) \<le> Frame_getSpaceLeft vt f then fst r \<and> extends f (snd r) bs
      else r = (False, f))"

lemma encodesI:
  assumes "int (length bs) \<le> Frame_getSpaceLeft vt f \<Longrightarrow> fst r \<and> extends f (snd r) bs"
    and "\<not> int (length bs) \<le> Frame_getSpaceLeft vt f \<Longrightarrow> r = (False, f)"
  shows "encodes f bs r"
  using assms by (simp add: encodes_def)

lemma encode_ok:
  assumes p: "params_ok p" and f: "frame_wf f" and io: "io_wf io"
  shows "encodes f (io_layout p s io) (InformationObject_encode vt p s io f)"
proof -
  define n where "n = int (length (io_body io))"
  define base where "base = (if s then [] else ioa_bytes p (InformationObject_getObjectAddress io))"
  have len: "int (length (io_layout p s io)) = (if s then n else sizeOfIOA p + n)"
    using length_io_layout [OF p io] length_io_body [OF io] by (simp add: n_def)
  have room: "io_room vt p s n f \<longleftrightarrow> int (length (io_layout p s io)) \<le> Frame_getSpaceLeft vt f"
    by (auto simp: io_room_def len)
  have base_len: "int (length base) = (if s then 0 else sizeOfIOA p)"
    by (simp add: base_def length_ioa_bytes [OF p])
  have sz: "0 \<le> sizeOfIOA p" using p by (auto simp: params_ok_def)
  have b: "extends f (InformationObject_encodeBase vt p s (InformationObject_getObjectAddress io) f) base"
    if "io_room vt p s n f"
    unfolding base_def
    using that by (intro encodeBase_ok p f) (auto simp: io_room_def n_def split: if_splits)
  show ?thesis
  proof (rule encodesI)
    assume "\<not> int (length (io_layout p s io)) \<le> Frame_getSpaceLeft vt f"
    then have "\<not> io_room vt p s n f" by (simp add: room)
    then show "InformationObject_encode vt p s io f = (False, f)"
      using io by (cases io) (simp_all add: n_def io_encode_defs)
  next
    assume fits: "int (length (io_layout p s io)) \<le> Frame_getSpaceLeft vt f"
    then have r: "io_room vt p s n f" by (simp add: room)
    have ok: "fst (InformationObject_encode vt p s io f)"
      using r io by (cases io) (simp_all add: n_def io_encode_defs Let_def)
    have space: "int (length base) + n \<le> Frame_getSpaceLeft vt f"
      using fits len base_len by (simp split: if_splits)
    have "extends f (snd (InformationObject_encode vt p s io f)) (base @ io_body io)"
      using b [OF r] r space io unfolding n_def
      by (cases io; simp add: io_encode_defs Let_def io_room_mono)
        ((intro conjI impI)?;
          ((rule extends_eq, (rule extends_set extends_append | assumption)+); simp add: two_bytes le_bytes_quotients))+
    with ok show "fst (InformationObject_encode vt p s io f) \<and>
        extends f (snd (InformationObject_encode vt p s io f)) (io_layout p s io)"
      by (simp add: io_layout_def base_def)
  qed
qed

end

end
