(* ===== verification/Asdu.thy ===== *)
theory Asdu
  imports Info_Encoding
begin

text \<open>
  The application service data unit (\<open>cs101/cs101_asdu.c\<close>): header accessors, creation, the frame
  through which information objects are written into the payload, and
  \<open>CS101_ASDU_addInformationObject\<close>. The specification is the list of information objects the ASDU
  carries: an ASDU represents a list when its element count, its type and its payload are those of
  the list. Adding an object refines appending to the list.
\<close>

section \<open>Data\<close>

text \<open>
  \<open>struct sCS101_ASDU\<close>: the header bytes \<open>asdu[0 .. asduHeaderLength)\<close> and the \<open>payloadSize\<close> bytes that
  follow them.
\<close>

record asdu =
  asdu_parameters :: app_layer_params
  asdu_header :: bytes
  asdu_payload :: bytes

definition asduHeaderLength :: "app_layer_params \<Rightarrow> int" where
  "asduHeaderLength p = 2 + sizeOfCOT p + sizeOfCA p"

definition CS101_ASDU_create ::
    "app_layer_params \<Rightarrow> bool \<Rightarrow> int \<Rightarrow> int \<Rightarrow> int \<Rightarrow> bool \<Rightarrow> bool \<Rightarrow> asdu" where
  "CS101_ASDU_create p isSequence cot oa ca isTest isNegative =
     (let b2 = word_of_int (cot AND 0x3f);
          b2 = (if isTest then b2 OR 0x80 else b2);
          b2 = (if isNegative then b2 OR 0x40 else b2)
      in \<lparr>asdu_parameters = p,
          asdu_header = [0, if isSequence then 0x80 else 0, b2]
            @ (if sizeOfCOT p > 1 then [word_of_int oa] else [])
            @ [word_of_int (c_mod ca 0x100)]
            @ (if sizeOfCA p > 1 then [word_of_int (c_div ca 0x100)] else []),
          asdu_payload = []\<rparr>)"

text \<open>A received message; None for one shorter than the header.\<close>

definition CS101_ASDU_createFromBuffer :: "app_layer_params \<Rightarrow> bytes \<Rightarrow> asdu option" where
  "CS101_ASDU_createFromBuffer p msg =
     (if int (length msg) < asduHeaderLength p then None
      else Some \<lparr>asdu_parameters = p, asdu_header = take (nat (asduHeaderLength p)) msg,
                 asdu_payload = drop (nat (asduHeaderLength p)) msg\<rparr>)"

definition set_header :: "nat \<Rightarrow> u8 \<Rightarrow> asdu \<Rightarrow> asdu" where
  "set_header i b a = a\<lparr>asdu_header := (asdu_header a)[i := b]\<rparr>"

definition CS101_ASDU_addPayload :: "bytes \<Rightarrow> asdu \<Rightarrow> bool \<times> asdu" where
  "CS101_ASDU_addPayload buffer a =
     (if length (asdu_payload a) + length (asdu_header a) + length buffer \<le> 256
      then (True, a\<lparr>asdu_payload := asdu_payload a @ buffer\<rparr>) else (False, a))"

section \<open>Header accessors\<close>

definition CS101_ASDU_isTest :: "asdu \<Rightarrow> bool" where
  "CS101_ASDU_isTest a \<longleftrightarrow> asdu_header a ! 2 AND 0x80 = 0x80"

definition CS101_ASDU_setTest :: "bool \<Rightarrow> asdu \<Rightarrow> asdu" where
  "CS101_ASDU_setTest value a =
     set_header 2 (if value then asdu_header a ! 2 OR 0x80 else asdu_header a ! 2 AND 0x7f) a"

definition CS101_ASDU_isNegative :: "asdu \<Rightarrow> bool" where
  "CS101_ASDU_isNegative a \<longleftrightarrow> asdu_header a ! 2 AND 0x40 = 0x40"

definition CS101_ASDU_setNegative :: "bool \<Rightarrow> asdu \<Rightarrow> asdu" where
  "CS101_ASDU_setNegative value a =
     set_header 2 (if value then asdu_header a ! 2 OR 0x40 else asdu_header a ! 2 AND 0xbf) a"

definition CS101_ASDU_getOA :: "asdu \<Rightarrow> int" where
  "CS101_ASDU_getOA a = (if sizeOfCOT (asdu_parameters a) < 2 then -1 else uint (asdu_header a ! 3))"

definition CS101_ASDU_getCOT :: "asdu \<Rightarrow> u8" where
  "CS101_ASDU_getCOT a = asdu_header a ! 2 AND 0x3f"

definition CS101_ASDU_setCOT :: "u8 \<Rightarrow> asdu \<Rightarrow> asdu" where
  "CS101_ASDU_setCOT value a = set_header 2 ((asdu_header a ! 2 AND 0xc0) + (value AND 0x3f)) a"

definition caIndex :: "asdu \<Rightarrow> nat" where
  "caIndex a = nat (2 + sizeOfCOT (asdu_parameters a))"

definition CS101_ASDU_getCA :: "asdu \<Rightarrow> int" where
  "CS101_ASDU_getCA a =
     (let ca = uint (asdu_header a ! caIndex a)
      in if sizeOfCA (asdu_parameters a) > 1 then ca + uint (asdu_header a ! (caIndex a + 1)) * 0x100
         else ca)"

definition CS101_ASDU_setCA :: "int \<Rightarrow> asdu \<Rightarrow> asdu" where
  "CS101_ASDU_setCA ca a =
     (let sz = sizeOfCA (asdu_parameters a);
          setCa = (if ca < 0 then 0
                   else if sz = 1 then (if ca > 255 then 255 else ca)
                   else if sz > 1 then (if ca > 65535 then 65535 else ca) else ca)
      in if sz = 1 then set_header (caIndex a) (word_of_int setCa) a
         else set_header (caIndex a + 1) (word_of_int (c_div setCa 0x100))
                (set_header (caIndex a) (word_of_int (c_mod setCa 0x100)) a))"

definition CS101_ASDU_getTypeID :: "asdu \<Rightarrow> u8" where
  "CS101_ASDU_getTypeID a = asdu_header a ! 0"

definition CS101_ASDU_setTypeID :: "u8 \<Rightarrow> asdu \<Rightarrow> asdu" where
  "CS101_ASDU_setTypeID typeId a = set_header 0 typeId a"

definition CS101_ASDU_isSequence :: "asdu \<Rightarrow> bool" where
  "CS101_ASDU_isSequence a \<longleftrightarrow> asdu_header a ! 1 AND 0x80 \<noteq> 0"

definition CS101_ASDU_setSequence :: "bool \<Rightarrow> asdu \<Rightarrow> asdu" where
  "CS101_ASDU_setSequence isSequence a =
     set_header 1 (if isSequence then asdu_header a ! 1 OR 0x80 else asdu_header a ! 1 AND 0x7f) a"

definition CS101_ASDU_getNumberOfElements :: "asdu \<Rightarrow> nat" where
  "CS101_ASDU_getNumberOfElements a = unat (asdu_header a ! 1 AND 0x7f)"

definition CS101_ASDU_setNumberOfElements :: "nat \<Rightarrow> asdu \<Rightarrow> asdu" where
  "CS101_ASDU_setNumberOfElements n a =
     set_header 1 ((asdu_header a ! 1 AND 0x80) OR (word_of_nat n AND 0x7f)) a"

definition CS101_ASDU_removeAllElements :: "asdu \<Rightarrow> asdu" where
  "CS101_ASDU_removeAllElements a =
     (set_header 1 (asdu_header a ! 1 AND 0x80) a)\<lparr>asdu_payload := []\<rparr>"

lemmas asdu_getters = CS101_ASDU_isTest_def CS101_ASDU_isNegative_def CS101_ASDU_getOA_def
  CS101_ASDU_getCOT_def CS101_ASDU_getCA_def CS101_ASDU_getTypeID_def CS101_ASDU_isSequence_def
  CS101_ASDU_getNumberOfElements_def

lemmas asdu_setters = CS101_ASDU_setTest_def CS101_ASDU_setNegative_def CS101_ASDU_setCOT_def
  CS101_ASDU_setCA_def CS101_ASDU_setTypeID_def CS101_ASDU_setSequence_def
  CS101_ASDU_setNumberOfElements_def

text \<open>The parameters are admissible and the header has their length.\<close>

definition header_wf :: "asdu \<Rightarrow> bool" where
  "header_wf a \<longleftrightarrow> params_ok (asdu_parameters a) \<and>
     int (length (asdu_header a)) = asduHeaderLength (asdu_parameters a)"

lemma header_wf_create: "params_ok p \<Longrightarrow> header_wf (CS101_ASDU_create p s cot oa ca t n)"
  by (auto simp: header_wf_def CS101_ASDU_create_def asduHeaderLength_def params_ok_def Let_def)

lemma header_wf_set [simp]: "header_wf (set_header i b a) = header_wf a"
  by (simp add: header_wf_def set_header_def)

lemma header_wf_long: "header_wf a \<Longrightarrow> 4 \<le> length (asdu_header a)"
  by (auto simp: header_wf_def asduHeaderLength_def params_ok_def)

lemma set_header_simps [simp]:
  "asdu_parameters (set_header i b a) = asdu_parameters a"
  "asdu_payload (set_header i b a) = asdu_payload a"
  "caIndex (set_header i b a) = caIndex a"
  "set_header i b (set_header i c a) = set_header i b a"
  by (simp_all add: set_header_def caIndex_def)

lemma header_nth: "i < length (asdu_header a) \<Longrightarrow>
    asdu_header (set_header i b a) ! j = (if i = j then b else asdu_header a ! j)"
  by (simp add: set_header_def)

lemma header_nth_low: "header_wf a \<Longrightarrow> i < 4 \<Longrightarrow>
    asdu_header (set_header i b a) ! j = (if i = j then b else asdu_header a ! j)"
  using header_wf_long [of a] by (simp add: header_nth)

lemma set_header_eq: "b = c \<Longrightarrow> set_header i b a = set_header i c a"
  by simp

text \<open>The fields of the header, and those that share a byte and do not disturb each other.\<close>

interpretation asdu_test: packed_field header_wf CS101_ASDU_isTest CS101_ASDU_setTest "\<lambda>v. True"
  by unfold_locales
    (auto simp: asdu_getters asdu_setters header_nth_low u8_eq_iff bit_simps intro!: set_header_eq)

interpretation asdu_negative: packed_field header_wf CS101_ASDU_isNegative CS101_ASDU_setNegative "\<lambda>v. True"
  by unfold_locales
    (auto simp: asdu_getters asdu_setters header_nth_low u8_eq_iff bit_simps intro!: set_header_eq)

interpretation asdu_sequence: packed_field header_wf CS101_ASDU_isSequence CS101_ASDU_setSequence "\<lambda>v. True"
  by unfold_locales
    (auto simp: asdu_getters asdu_setters header_nth_low u8_eq_iff bit_simps intro!: set_header_eq)

interpretation asdu_type: packed_field header_wf CS101_ASDU_getTypeID CS101_ASDU_setTypeID "\<lambda>v. True"
  by unfold_locales (auto simp: asdu_getters asdu_setters header_nth_low)

lemma cot_byte: "((b :: u8) AND 0xc0) + (v AND 0x3f) = (b AND 0xc0) OR (v AND 0x3f)"
  by (rule disjunctive_add_eq_or) (simp add: u8_eq_iff bit_simps)

lemma setCOT_or: "CS101_ASDU_setCOT value a =
    set_header 2 ((asdu_header a ! 2 AND 0xc0) OR (value AND 0x3f)) a"
  by (simp add: CS101_ASDU_setCOT_def cot_byte)

text \<open>A cause of transmission has six bits.\<close>

definition cot_ok :: "u8 \<Rightarrow> bool" where
  "cot_ok v \<longleftrightarrow> v AND 0x3f = v"

lemma cot_set: "cot_ok v \<Longrightarrow> ((b :: u8) AND 0xc0 OR v AND 0x3f) AND 0x3f = v"
  by (simp add: cot_ok_def u8_eq_iff bit_simps)

lemma cot_set2: "(((b :: u8) AND 0xc0 OR v AND 0x3f) AND 0xc0) OR w = (b AND 0xc0) OR w"
  by (simp add: u8_eq_iff bit_simps)

interpretation asdu_cot: packed_field header_wf CS101_ASDU_getCOT CS101_ASDU_setCOT cot_ok
  by unfold_locales
    (simp_all add: CS101_ASDU_getCOT_def setCOT_or header_nth_low cot_set cot_set2)

interpretation cot_negative: independent_fields header_wf CS101_ASDU_getCOT CS101_ASDU_setCOT cot_ok
    CS101_ASDU_isNegative CS101_ASDU_setNegative "\<lambda>v. True"
  by unfold_locales
    (simp_all add: asdu_getters CS101_ASDU_setNegative_def setCOT_or header_nth_low u8_eq_iff bit_simps)

text \<open>Common addresses of two bytes, in the range the setter does not clamp.\<close>

definition ca_wf :: "asdu \<Rightarrow> bool" where
  "ca_wf a \<longleftrightarrow> header_wf a \<and> sizeOfCA (asdu_parameters a) = 2"

definition ca_ok :: "int \<Rightarrow> bool" where
  "ca_ok v \<longleftrightarrow> 0 \<le> v \<and> v \<le> 65535"

lemma caIndex_less: "ca_wf a \<Longrightarrow> caIndex a + 1 < length (asdu_header a)"
  by (auto simp: ca_wf_def header_wf_def caIndex_def asduHeaderLength_def params_ok_def)

lemma ca_bytes: "ca_ok v \<Longrightarrow>
    uint (word_of_int (v mod 256) :: u8) + uint (word_of_int (v div 256) :: u8) * 256 = v"
proof -
  assume "ca_ok v"
  then have "v div 256 mod 256 = v div 256"
    by (intro mod_pos_pos_trivial) (auto simp: ca_ok_def)
  then show ?thesis by (simp add: uint_word_of_int)
qed

lemma set_header_swap: "i \<noteq> j \<Longrightarrow> set_header i b (set_header j c a) = set_header j c (set_header i b a)"
  by (simp add: set_header_def list_update_swap)

lemma length_set_header [simp]: "length (asdu_header (set_header i b a)) = length (asdu_header a)"
  by (simp add: set_header_def)

lemma setCA_two: "ca_wf a \<Longrightarrow> ca_ok v \<Longrightarrow> CS101_ASDU_setCA v a =
    set_header (caIndex a + 1) (word_of_int (v div 256))
      (set_header (caIndex a) (word_of_int (v mod 256)) a)"
  by (auto simp: CS101_ASDU_setCA_def ca_wf_def ca_ok_def Let_def c_arith)

lemma getCA_setCA: "ca_wf a \<Longrightarrow> ca_ok v \<Longrightarrow> CS101_ASDU_getCA (CS101_ASDU_setCA v a) = v"
  using caIndex_less [of a] ca_bytes [of v]
  by (simp add: setCA_two CS101_ASDU_getCA_def header_nth ca_wf_def Let_def)

lemma ca_wf_setCA: "ca_wf a \<Longrightarrow> ca_wf (CS101_ASDU_setCA v a)"
  by (auto simp: ca_wf_def CS101_ASDU_setCA_def Let_def)

lemma setCA_setCA:
  "ca_wf a \<Longrightarrow> ca_ok v \<Longrightarrow> ca_ok w \<Longrightarrow>
     CS101_ASDU_setCA w (CS101_ASDU_setCA v a) = CS101_ASDU_setCA w a"
  using ca_wf_setCA [of a v]
  by (simp add: setCA_two set_header_swap [of "caIndex a" "caIndex a + 1"]
      set_header_swap [of "caIndex a" "Suc (caIndex a)"])

interpretation asdu_ca: packed_field ca_wf CS101_ASDU_getCA CS101_ASDU_setCA ca_ok
  by unfold_locales (simp_all add: ca_wf_setCA getCA_setCA setCA_setCA)

section \<open>The payload as a frame\<close>

definition asduFrame_setNextByte :: "u8 \<Rightarrow> asdu \<Rightarrow> asdu" where
  "asduFrame_setNextByte b a = a\<lparr>asdu_payload := asdu_payload a @ [b]\<rparr>"

definition asduFrame_appendBytes :: "bytes \<Rightarrow> asdu \<Rightarrow> asdu" where
  "asduFrame_appendBytes bs a = a\<lparr>asdu_payload := asdu_payload a @ bs\<rparr>"

definition asduFrame_getSpaceLeft :: "asdu \<Rightarrow> int" where
  "asduFrame_getSpaceLeft a =
     maxSizeOfASDU (asdu_parameters a) - int (length (asdu_payload a)) - int (length (asdu_header a))"

definition asduFrameVFT :: "asdu frame_vft" where
  "asduFrameVFT = \<lparr>vft_setNextByte = asduFrame_setNextByte,
     vft_appendBytes = asduFrame_appendBytes, vft_getSpaceLeft = asduFrame_getSpaceLeft\<rparr>"

lemmas asdu_frame_defs = Frame_setNextByte_def Frame_appendBytes_def Frame_getSpaceLeft_def
  asduFrameVFT_def asduFrame_setNextByte_def asduFrame_appendBytes_def asduFrame_getSpaceLeft_def

text \<open>Besides appending bytes, the frame keeps the header and the parameters.\<close>

interpretation asdu_frame: frame_interface asduFrameVFT asdu_payload
    "\<lambda>a. asdu_parameters a = p \<and> asdu_header a = h" for p h
  by unfold_locales (simp_all add: asdu_frame_defs)

lemma asdu_encode:
  assumes "params_ok p" "asdu_parameters a = p" "io_wf io"
  shows "InformationObject_encode asduFrameVFT p s io a =
    (if int (length (asdu_header a) + length (asdu_payload a) + length (io_layout p s io))
          \<le> maxSizeOfASDU p
     then (True, a\<lparr>asdu_payload := asdu_payload a @ io_layout p s io\<rparr>) else (False, a))"
proof -
  let ?r = "InformationObject_encode asduFrameVFT p s io a"
  have e: "frame_interface.encodes asduFrameVFT asdu_payload
      (\<lambda>b. asdu_parameters b = p \<and> asdu_header b = asdu_header a) a (io_layout p s io) ?r"
    by (rule asdu_frame.encode_ok) (use assms in simp_all)
  have space: "Frame_getSpaceLeft asduFrameVFT a =
      maxSizeOfASDU p - int (length (asdu_payload a)) - int (length (asdu_header a))"
    using assms(2) by (simp add: asdu_frame_defs)
  show ?thesis
    using e assms(2)
    by (cases ?r) (auto simp: asdu_frame.encodes_def asdu_frame.extends_def space
        split: if_splits intro!: asdu.equality)
qed

section \<open>Adding information objects\<close>

definition getFirstIOA :: "asdu \<Rightarrow> int" where
  "getFirstIOA a =
     (let p = asdu_parameters a; ioa = uint (asdu_payload a ! 0);
          ioa = (if sizeOfIOA p > 1 then ioa + uint (asdu_payload a ! 1) * 0x100 else ioa);
          ioa = (if sizeOfIOA p > 2 then ioa + uint (asdu_payload a ! 2) * 0x10000 else ioa)
      in ioa)"

definition CS101_ASDU_addInformationObject :: "asdu \<Rightarrow> information_object \<Rightarrow> bool \<times> asdu" where
  "CS101_ASDU_addInformationObject a io =
     (let p = asdu_parameters a;
          numberOfElements = CS101_ASDU_getNumberOfElements a;
          (encoded, a) =
            (if numberOfElements = 0 then
               let a = set_header 0 (ucast (InformationObject_getType io)) a
               in InformationObject_encode asduFrameVFT p False io a
             else if numberOfElements < 0x7f then
               if asdu_header a ! 0 = ucast (InformationObject_getType io) then
                 if CS101_ASDU_isSequence a then
                   if InformationObject_getObjectAddress io
                        = getFirstIOA a + int (CS101_ASDU_getNumberOfElements a)
                   then InformationObject_encode asduFrameVFT p True io a
                   else (False, a)
                 else InformationObject_encode asduFrameVFT p False io a
               else (False, a)
             else (False, a))
      in (encoded, if encoded then set_header 1 (asdu_header a ! 1 + 1) a else a))"

section \<open>The specification\<close>

text \<open>
  The payload of a list of objects: in a sequence only the first carries its address. Objects fit
  together in one ASDU when they have the same type and, in a sequence, consecutive addresses.
\<close>

fun elements_layout :: "app_layer_params \<Rightarrow> bool \<Rightarrow> information_object list \<Rightarrow> bytes" where
  "elements_layout p isSequence [] = []"
| "elements_layout p isSequence (io # ios) =
     io_layout p False io @ concat (map (io_layout p isSequence) ios)"

definition type_byte :: "information_object \<Rightarrow> u8" where
  "type_byte io = ucast (InformationObject_getType io)"

definition addr_ok :: "app_layer_params \<Rightarrow> information_object \<Rightarrow> bool" where
  "addr_ok p io \<longleftrightarrow> 0 \<le> InformationObject_getObjectAddress io \<and>
     InformationObject_getObjectAddress io < 256 ^ nat (sizeOfIOA p)"

definition compatible :: "bool \<Rightarrow> information_object list \<Rightarrow> information_object \<Rightarrow> bool" where
  "compatible isSequence ios io \<longleftrightarrow> ios = [] \<or> length ios < 127 \<and> type_byte io = type_byte (hd ios) \<and>
     (isSequence \<longrightarrow> InformationObject_getObjectAddress io =
        InformationObject_getObjectAddress (hd ios) + int (length ios))"

definition fits :: "app_layer_params \<Rightarrow> bool \<Rightarrow> information_object list \<Rightarrow> bool" where
  "fits p isSequence ios \<longleftrightarrow>
     asduHeaderLength p + int (length (elements_layout p isSequence ios)) \<le> maxSizeOfASDU p"

definition accepts ::
    "app_layer_params \<Rightarrow> bool \<Rightarrow> information_object list \<Rightarrow> information_object \<Rightarrow> bool" where
  "accepts p isSequence ios io \<longleftrightarrow> compatible isSequence ios io \<and> fits p isSequence (ios @ [io])"

definition represents :: "asdu \<Rightarrow> information_object list \<Rightarrow> bool" where
  "represents a ios \<longleftrightarrow> header_wf a \<and> list_all io_wf ios \<and>
     list_all (addr_ok (asdu_parameters a)) ios \<and>
     CS101_ASDU_getNumberOfElements a = length ios \<and>
     list_all (\<lambda>io. CS101_ASDU_getTypeID a = type_byte io) ios \<and>
     asdu_payload a = elements_layout (asdu_parameters a) (CS101_ASDU_isSequence a) ios \<and>
     fits (asdu_parameters a) (CS101_ASDU_isSequence a) ios"

lemma elements_layout_snoc:
  "elements_layout p s (ios @ [io]) =
     elements_layout p s ios @ io_layout p (if ios = [] then False else s) io"
  by (cases ios) simp_all

lemma count_inc:
  "unat ((b :: u8) AND 0x7f) < 127 \<Longrightarrow> unat (b + 1 AND 0x7f) = unat (b AND 0x7f) + 1"
  "unat ((b :: u8) AND 0x7f) < 127 \<Longrightarrow> (b + 1 AND 0x80 = 0) = (b AND 0x80 = 0)"
proof -
  assume "unat (b AND 0x7f) < 127"
  then have m: "unat b mod 128 < 127" by (simp only: unat_and_7f)
  have l: "unat b < 256" by simp
  have "unat b \<noteq> 255" using m by auto
  with l have "unat b + 1 < 256" by linarith
  then have s: "unat (b + 1) = unat b + 1"
    by (simp add: unat_word_ariths)
  show "unat (b + 1 AND 0x7f) = unat (b AND 0x7f) + 1"
    unfolding unat_and_7f s using m by (simp add: mod_Suc)
  show "(b + 1 AND 0x80 = 0) = (b AND 0x80 = 0)"
    using and_80_iff [of "b + 1"] and_80_iff [of b] m l unfolding s
    by (cases "unat b = 127") auto
qed

lemma uint_byte_ioa: "uint (word_of_int v :: u8) = v mod 256"
  by (simp add: uint_word_of_int)

lemma three_bytes:
  "0 \<le> (v :: int) \<Longrightarrow> v < 65536 * 256 \<Longrightarrow>
     v mod 256 + v div 256 mod 256 * 256 + v div 65536 mod 256 * 65536 = v"
proof -
  assume v: "0 \<le> v" "v < 65536 * 256"
  then have "v div 65536 mod 256 = v div 65536"
    by (intro mod_pos_pos_trivial) (auto simp: pos_imp_zdiv_nonneg_iff)
  moreover have "v mod 65536 = 256 * (v div 256 mod 256) + v mod 256"
    using zmod_zmult2_eq [of 256 v 256] by simp
  moreover have "v div 65536 * 65536 + v mod 65536 = v" by (rule div_mult_mod_eq)
  ultimately show ?thesis by linarith
qed

lemma two_bytes_int:
  "0 \<le> (v :: int) \<Longrightarrow> v < 65536 \<Longrightarrow> v mod 256 + v div 256 mod 256 * 256 = v"
  using three_bytes [of v] by (simp add: div_pos_pos_trivial)

lemma getFirstIOA_layout:
  assumes "params_ok (asdu_parameters a)" "addr_ok (asdu_parameters a) io"
    and "asdu_payload a = ioa_bytes (asdu_parameters a) (InformationObject_getObjectAddress io) @ rest"
  shows "getFirstIOA a = InformationObject_getObjectAddress io"
proof -
  let ?v = "InformationObject_getObjectAddress io"
  from assms(1) consider "sizeOfIOA (asdu_parameters a) = 1" | "sizeOfIOA (asdu_parameters a) = 2"
    | "sizeOfIOA (asdu_parameters a) = 3"
    by (auto simp: params_ok_def)
  then show ?thesis
    using assms(2,3)
    by cases (simp_all add: getFirstIOA_def ioa_bytes_def addr_ok_def uint_byte_ioa c_arith
        two_bytes_int three_bytes Let_def)
qed

text \<open>The header keeps everything but the type byte and the count when an object is added.\<close>

lemma represents_create:
  "params_ok p \<Longrightarrow> represents (CS101_ASDU_create p s cot oa ca t n) []"
  using header_wf_create [of p s cot oa ca t n]
  by (auto simp: represents_def fits_def CS101_ASDU_create_def CS101_ASDU_getNumberOfElements_def
      asduHeaderLength_def params_ok_def Let_def)

lemma isSequence_create [simp]:
  "CS101_ASDU_isSequence (CS101_ASDU_create p s cot oa ca t n) = s"
  by (simp add: CS101_ASDU_create_def CS101_ASDU_isSequence_def Let_def)

lemma parameters_create [simp]: "asdu_parameters (CS101_ASDU_create p s cot oa ca t n) = p"
  by (simp add: CS101_ASDU_create_def Let_def)

text \<open>Which information objects the code writes, in terms of the list represented so far.\<close>

lemma add_step:
  assumes rep: "represents a ios" and io: "io_wf io" and addr: "addr_ok (asdu_parameters a) io"
  shows "CS101_ASDU_addInformationObject a io =
    (if accepts (asdu_parameters a) (CS101_ASDU_isSequence a) ios io
     then (True, (set_header 1 (asdu_header a ! 1 + 1)
        (if ios = [] then set_header 0 (type_byte io) a else a))
          \<lparr>asdu_payload := elements_layout (asdu_parameters a) (CS101_ASDU_isSequence a) (ios @ [io])\<rparr>)
     else (False, if ios = [] then set_header 0 (type_byte io) a else a))"
proof (cases ios)
  case Nil
  have wf: "header_wf a" and pl: "asdu_payload a = []" and n: "CS101_ASDU_getNumberOfElements a = 0"
    using rep Nil by (auto simp: represents_def)
  then have p: "params_ok (asdu_parameters a)"
    and hl: "int (length (asdu_header a)) = asduHeaderLength (asdu_parameters a)"
    by (auto simp: header_wf_def)
  let ?a = "set_header 0 (type_byte io) a"
  have nth: "asdu_header ?a ! 1 = asdu_header a ! 1"
    using wf by (simp add: header_nth_low)
  show ?thesis
    using Nil n pl nth hl asdu_encode [OF p _ io, of ?a False]
    by (auto simp: CS101_ASDU_addInformationObject_def accepts_def compatible_def fits_def
        type_byte_def set_header_def Let_def)
next
  case (Cons io0 r)
  define p where "p = asdu_parameters a"
  have wf: "header_wf a" and n: "CS101_ASDU_getNumberOfElements a = length ios"
    and ty: "asdu_header a ! 0 = type_byte io0"
    and pl: "asdu_payload a = elements_layout p (CS101_ASDU_isSequence a) ios"
    and addr0: "addr_ok p io0"
    using rep Cons by (auto simp: represents_def CS101_ASDU_getTypeID_def p_def)
  then have p: "params_ok p" and hl: "int (length (asdu_header a)) = asduHeaderLength p"
    by (auto simp: header_wf_def p_def)
  have first: "getFirstIOA a = InformationObject_getObjectAddress io0"
    using getFirstIOA_layout [of a io0] p addr0 pl Cons by (simp add: io_layout_def p_def)
  note enc = asdu_encode [OF p p_def [symmetric] io]
  have ne: "ios \<noteq> []" and hd: "hd ios = io0" using Cons by simp_all
  show ?thesis
    using n ty first ne hd hl enc pl
    by (auto simp: CS101_ASDU_addInformationObject_def accepts_def compatible_def fits_def
        type_byte_def elements_layout_snoc set_header_def Let_def simp flip: p_def)
qed

lemma type_retagged:
  "header_wf a \<Longrightarrow> CS101_ASDU_isSequence (set_header 0 b a) = CS101_ASDU_isSequence a"
  "header_wf a \<Longrightarrow> CS101_ASDU_getNumberOfElements (set_header 0 b a) = CS101_ASDU_getNumberOfElements a"
  "header_wf a \<Longrightarrow> CS101_ASDU_getTypeID (set_header 0 b a) = b"
  by (simp_all add: asdu_getters header_nth_low)

lemma counted_up:
  assumes "header_wf a" "CS101_ASDU_getNumberOfElements a < 127"
    and a'_def: "a' = (set_header 1 (asdu_header a ! 1 + 1) a)\<lparr>asdu_payload := bs\<rparr>"
  shows "CS101_ASDU_isSequence a' = CS101_ASDU_isSequence a"
    and "CS101_ASDU_getNumberOfElements a' = CS101_ASDU_getNumberOfElements a + 1"
    and "CS101_ASDU_getTypeID a' = CS101_ASDU_getTypeID a"
    and "header_wf a'"
proof -
  have 1: "asdu_header a' ! 1 = asdu_header a ! 1 + 1"
    using header_nth_low [OF assms(1), of 1 "asdu_header a ! 1 + 1" 1] by (simp add: a'_def)
  have 0: "asdu_header a' ! 0 = asdu_header a ! 0"
    using header_nth_low [OF assms(1), of 1 "asdu_header a ! 1 + 1" 0] by (simp add: a'_def)
  show "CS101_ASDU_isSequence a' = CS101_ASDU_isSequence a"
    "CS101_ASDU_getNumberOfElements a' = CS101_ASDU_getNumberOfElements a + 1"
    using count_inc [of "asdu_header a ! 1"] assms(2)
    by (simp_all add: CS101_ASDU_isSequence_def CS101_ASDU_getNumberOfElements_def 1 [simplified])
  show "CS101_ASDU_getTypeID a' = CS101_ASDU_getTypeID a"
    by (simp add: CS101_ASDU_getTypeID_def 0)
  show "header_wf a'"
    using assms(1) header_wf_set [of 1 "asdu_header a ! 1 + 1" a]
    by (simp add: a'_def header_wf_def)
qed

lemma add_refines_append:
  assumes rep: "represents a ios" and io: "io_wf io" and addr: "addr_ok (asdu_parameters a) io"
    and acc: "accepts (asdu_parameters a) (CS101_ASDU_isSequence a) ios io"
    and r: "CS101_ASDU_addInformationObject a io = (ok, a')"
  shows "ok \<and> represents a' (ios @ [io]) \<and> CS101_ASDU_isSequence a' = CS101_ASDU_isSequence a \<and>
    asdu_parameters a' = asdu_parameters a"
proof -
  define b where "b = (if ios = [] then set_header 0 (type_byte io) a else a)"
  define bs where "bs = elements_layout (asdu_parameters a) (CS101_ASDU_isSequence a) (ios @ [io])"
  have wf: "header_wf a" and n: "CS101_ASDU_getNumberOfElements a = length ios"
    using rep by (simp_all add: represents_def)
  have less: "length ios < 127"
    using acc by (cases "ios = []") (simp_all add: accepts_def compatible_def)
  have wf_b: "header_wf b" and n_b: "CS101_ASDU_getNumberOfElements b = length ios"
    and s_b: "CS101_ASDU_isSequence b = CS101_ASDU_isSequence a"
    using wf n by (simp_all add: b_def type_retagged)
  have h1: "asdu_header b ! 1 = asdu_header a ! 1"
    using wf by (simp add: b_def header_nth_low)
  have a': "ok" "a' = (set_header 1 (asdu_header b ! 1 + 1) b)\<lparr>asdu_payload := bs\<rparr>"
    using r acc add_step [OF rep io addr] by (simp_all add: h1 [simplified] flip: b_def bs_def)
  have less_b: "CS101_ASDU_getNumberOfElements b < 127" using less n_b by simp
  note up = counted_up [OF wf_b less_b a'(2)]
  have ty: "list_all (\<lambda>x. CS101_ASDU_getTypeID a' = type_byte x) (ios @ [io])"
    using rep acc wf up(3)
    by (cases ios) (auto simp: b_def represents_def accepts_def compatible_def type_retagged)
  have pp: "asdu_parameters a' = asdu_parameters a" by (simp add: a'(2) b_def)
  have "asdu_payload a' = bs" by (simp add: a'(2))
  then have "represents a' (ios @ [io])"
    using rep acc ty up(1,2,4) pp n_b s_b io addr
    by (auto simp: represents_def accepts_def bs_def list_all_iff)
  then show ?thesis using a'(1) up(1) s_b pp by simp
qed

lemma add_refines_reject:
  assumes rep: "represents a ios" and io: "io_wf io" and addr: "addr_ok (asdu_parameters a) io"
    and rej: "\<not> accepts (asdu_parameters a) (CS101_ASDU_isSequence a) ios io"
    and r: "CS101_ASDU_addInformationObject a io = (ok, a')"
  shows "\<not> ok \<and> represents a' ios \<and> CS101_ASDU_isSequence a' = CS101_ASDU_isSequence a \<and>
    asdu_parameters a' = asdu_parameters a"
proof -
  have wf: "header_wf a" using rep by (simp add: represents_def)
  have "\<not> ok" "a' = (if ios = [] then set_header 0 (type_byte io) a else a)"
    using r rej add_step [OF rep io addr] by simp_all
  with rep wf show ?thesis by (auto simp: represents_def type_retagged)
qed

section \<open>Filling an ASDU\<close>

text \<open>Adding a list of objects one after the other, as the senders do, ignoring the results.\<close>

definition add_all :: "information_object list \<Rightarrow> asdu \<Rightarrow> asdu" where
  "add_all ios a = fold (\<lambda>io a. snd (CS101_ASDU_addInformationObject a io)) ios a"

text \<open>The objects the ASDU takes of a list offered to it.\<close>

fun taken :: "app_layer_params \<Rightarrow> bool \<Rightarrow> information_object list \<Rightarrow> information_object list \<Rightarrow>
    information_object list" where
  "taken p s acc [] = acc"
| "taken p s acc (io # ios) = taken p s (if accepts p s acc io then acc @ [io] else acc) ios"

lemma add_all_refines:
  assumes "represents a acc" "list_all io_wf ios" "list_all (addr_ok (asdu_parameters a)) ios"
  shows "represents (add_all ios a) (taken (asdu_parameters a) (CS101_ASDU_isSequence a) acc ios)"
  using assms
proof (induction ios arbitrary: a acc)
  case Nil
  then show ?case by (simp add: add_all_def)
next
  case (Cons io ios)
  let ?p = "asdu_parameters a" and ?s = "CS101_ASDU_isSequence a"
  obtain ok a' where r: "CS101_ASDU_addInformationObject a io = (ok, a')" by fastforce
  have "represents a' (if accepts ?p ?s acc io then acc @ [io] else acc) \<and>
      CS101_ASDU_isSequence a' = ?s \<and> asdu_parameters a' = ?p"
    using add_refines_append [of a acc io ok a'] add_refines_reject [of a acc io ok a'] Cons.prems r
    by simp
  then show ?case
    using Cons.IH [of a' "if accepts ?p ?s acc io then acc @ [io] else acc"] Cons.prems r
    by (simp add: add_all_def)
qed

text \<open>Objects of one type, in a sequence with consecutive addresses, and few enough: all are taken.\<close>

definition uniform :: "bool \<Rightarrow> information_object list \<Rightarrow> bool" where
  "uniform s ios \<longleftrightarrow> (\<forall>i < length ios. type_byte (ios ! i) = type_byte (ios ! 0) \<and>
     (s \<longrightarrow> InformationObject_getObjectAddress (ios ! i) =
        InformationObject_getObjectAddress (ios ! 0) + int i))"

lemma length_elements_layout_take:
  "length (elements_layout p s (take n ios)) \<le> length (elements_layout p s ios)"
proof (cases ios)
  case (Cons io r)
  have "length (concat (map g (take k xs))) \<le> length (concat (map g xs))" for g :: "_ \<Rightarrow> bytes" and k xs
    by (metis append_take_drop_id concat_append length_append le_add1 map_append)
  with Cons show ?thesis by (cases n) simp_all
qed simp

lemma taken_uniform:
  assumes "uniform s (acc @ ios)" "length (acc @ ios) \<le> 127" "fits p s (acc @ ios)"
  shows "taken p s acc ios = acc @ ios"
  using assms
proof (induction ios arbitrary: acc)
  case Nil
  then show ?case by simp
next
  case (Cons io ios)
  have eq: "acc @ io # ios = (acc @ [io]) @ ios" by simp
  have "type_byte io = type_byte (hd acc) \<and>
      (s \<longrightarrow> InformationObject_getObjectAddress io =
        InformationObject_getObjectAddress (hd acc) + int (length acc))" if "acc \<noteq> []"
    using Cons.prems(1) that
    by (auto simp: uniform_def nth_append hd_conv_nth dest!: spec [of _ "length acc"])
  moreover have "fits p s (acc @ [io])"
    using Cons.prems(3) length_elements_layout_take [of p s "Suc (length acc)" "acc @ io # ios"]
    by (simp add: fits_def)
  ultimately have "accepts p s acc io"
    using Cons.prems(2) by (auto simp: accepts_def compatible_def)
  then show ?case using Cons.IH [of "acc @ [io]"] Cons.prems by simp
qed

lemma length_taken: "length (taken p s acc ios) \<le> max (length acc) 127"
proof (induction ios arbitrary: acc)
  case Nil
  then show ?case by simp
next
  case (Cons io ios)
  have "accepts p s acc io \<Longrightarrow> length acc < 127"
    by (auto simp: accepts_def compatible_def)
  then show ?case
    using Cons.IH [of "acc @ [io]"] Cons.IH [of acc] by (auto simp: max_def split: if_splits)
qed

text \<open>The size of a payload of objects of one type.\<close>

lemma length_elements_layout:
  assumes "params_ok p" "list_all io_wf ios" "ios \<noteq> []"
    and "list_all (\<lambda>io. body_size (InformationObject_getType io) = n) ios"
  shows "int (length (elements_layout p s ios)) =
    (if s then sizeOfIOA p + int (length ios * n) else int (length ios) * (sizeOfIOA p + int n))"
proof (cases ios)
  case (Cons io r)
  have tail: "list_all io_wf r \<Longrightarrow> list_all (\<lambda>io. body_size (InformationObject_getType io) = n) r \<Longrightarrow>
      int (length (concat (map (io_layout p s) r))) =
        int (length r) * ((if s then 0 else sizeOfIOA p) + int n)" for r
    by (induction r) (simp_all add: length_io_layout [OF assms(1)] algebra_simps)
  show ?thesis
    using Cons assms tail [of r] length_io_layout [OF assms(1), of io False]
    by (simp add: algebra_simps)
qed (use assms in simp)

section \<open>Sending\<close>

definition CS101_ASDU_encode :: "'f frame_vft \<Rightarrow> asdu \<Rightarrow> 'f \<Rightarrow> 'f" where
  "CS101_ASDU_encode vt a f = Frame_appendBytes vt (asdu_header a @ asdu_payload a) f"

lemma fits_length:
  "represents a ios \<Longrightarrow>
     int (length (asdu_header a @ asdu_payload a)) \<le> maxSizeOfASDU (asdu_parameters a)"
  by (simp add: represents_def fits_def header_wf_def)

section \<open>Properties\<close>

text \<open>
  C1: adding an information object to an ASDU refines appending it to the list of objects the ASDU
  represents: the call succeeds exactly when the object is compatible (same type, and in a sequence
  the next address), the 127 elements the count field can hold are not exhausted and the encoding
  fits; then the ASDU represents the longer list, otherwise still the old one.
\<close>

theorem addInformationObject_refines:
  assumes "represents a ios" "io_wf io" "addr_ok (asdu_parameters a) io"
  shows "(case CS101_ASDU_addInformationObject a io of (ok, a') \<Rightarrow>
    ok = accepts (asdu_parameters a) (CS101_ASDU_isSequence a) ios io \<and>
    represents a' (if ok then ios @ [io] else ios))"
proof -
  obtain ok a' where r: "CS101_ASDU_addInformationObject a io = (ok, a')" by fastforce
  show ?thesis
  proof (cases "accepts (asdu_parameters a) (CS101_ASDU_isSequence a) ios io")
    case True
    with add_refines_append [OF assms True r] show ?thesis by (simp add: r)
  next
    case False
    with add_refines_reject [OF assms False r] show ?thesis by (simp add: r)
  qed
qed

theorem addInformationObject_refines_witness:
  "(case CS101_ASDU_addInformationObject (CS101_ASDU_create defaultAppLayerParameters True 20 0 1 False False)
      (SinglePointInformation 100 True 0) of (ok, a') \<Rightarrow>
    ok = accepts defaultAppLayerParameters True [] (SinglePointInformation 100 True 0) \<and>
    represents a' (if ok then [] @ [SinglePointInformation 100 True 0] else []))"
  using addInformationObject_refines [of "CS101_ASDU_create defaultAppLayerParameters True 20 0 1 False False"
      "[]" "SinglePointInformation 100 True 0"]
  by (simp add: represents_create addr_ok_def)

text \<open>
  C2: the APDU that carries an ASDU is what the receiver expects: the start byte, the length of
  everything after the length byte, the ASDU bytes unchanged; it never exceeds the 255 bytes of an
  APDU, whatever the list of objects.
\<close>

theorem apdu_of_asdu:
  assumes "represents a ios" "maxSizeOfASDU (asdu_parameters a) \<le> 249"
  shows "let f = T104Frame_prepareToSend s r (CS101_ASDU_encode t104FrameVFT a T104Frame_create)
    in t104_buffer f ! 0 = 0x68 \<and>
    unat (t104_buffer f ! 1) = t104_msgSize f - 2 \<and>
    t104_msgSize f = 6 + length (asdu_header a @ asdu_payload a) \<and> t104_msgSize f \<le> 255 \<and>
    t104_contents f = asdu_header a @ asdu_payload a"
proof -
  define f where "f = T104Frame_prepareToSend s r (CS101_ASDU_encode t104FrameVFT a T104Frame_create)"
  let ?bs = "asdu_header a @ asdu_payload a"
  let ?g = "T104Frame_appendBytes ?bs T104Frame_create"
  have len: "length ?bs \<le> 249" using fits_length [OF assms(1)] assms(2) by simp
  then have room: "int (length ?bs) \<le> T104Frame_getSpaceLeft T104Frame_create"
    by (simp add: T104Frame_getSpaceLeft_def T104Frame_create_def)
  have f: "f = T104Frame_prepareToSend s r ?g"
    by (simp add: f_def CS101_ASDU_encode_def Frame_appendBytes_def t104FrameVFT_def)
  have c: "t104_contents f = ?bs"
    using t104_append_facts(1) [OF t104_wf_create room] by (simp add: f)
  have size: "t104_msgSize f = 6 + length ?bs"
    by (simp add: f T104Frame_prepareToSend_def T104Frame_appendBytes_def T104Frame_create_def)
  have low: "t104_buffer ?g ! 0 = 0x68" and buf: "length (t104_buffer ?g) = 256"
    by (simp_all add: T104Frame_appendBytes_def T104Frame_create_def nth_write_at)
  have b1: "t104_buffer f ! 1 = word_of_int (int (t104_msgSize f) - 2)"
    using buf by (simp add: f T104Frame_prepareToSend_def)
  have "int (t104_msgSize f) - 2 = int (4 + length ?bs)" using size by simp
  then have "t104_buffer f ! 1 = word_of_nat (4 + length ?bs)"
    unfolding b1 by (simp only: of_int_of_nat_eq)
  then have "unat (t104_buffer f ! 1) = 4 + length ?bs"
    using len by (simp add: unsigned_of_nat take_bit_nat_eq_self del: of_nat_add)
  then have "unat (t104_buffer f ! 1) = t104_msgSize f - 2"
    using size by simp
  moreover have "t104_buffer f ! 0 = 0x68"
    using low buf by (simp add: f T104Frame_prepareToSend_def)
  ultimately show ?thesis using c size len by (simp flip: f_def add: Let_def)
qed

theorem apdu_of_asdu_witness:
  "let f = T104Frame_prepareToSend 5 7 (CS101_ASDU_encode t104FrameVFT
        (CS101_ASDU_create defaultAppLayerParameters False 20 0 1 False False) T104Frame_create)
    in t104_buffer f ! 0 = 0x68 \<and>
    unat (t104_buffer f ! 1) = t104_msgSize f - 2 \<and>
    t104_msgSize f = 6 + length (asdu_header (CS101_ASDU_create defaultAppLayerParameters False 20 0 1 False False)
      @ asdu_payload (CS101_ASDU_create defaultAppLayerParameters False 20 0 1 False False)) \<and>
    t104_msgSize f \<le> 255 \<and>
    t104_contents f = asdu_header (CS101_ASDU_create defaultAppLayerParameters False 20 0 1 False False)
      @ asdu_payload (CS101_ASDU_create defaultAppLayerParameters False 20 0 1 False False)"
  by (rule apdu_of_asdu [of "CS101_ASDU_create defaultAppLayerParameters False 20 0 1 False False" "[]",
        OF represents_create [OF default_params_ok]]) simp

end
