(* ===== verification/Cp56_Time.thy ===== *)
theory Cp56_Time
  imports Prelude
begin

text \<open>
  The seven byte time stamp CP56Time2a (\<open>apl/cpXXtime2a.c\<close>): the field accessors on the encoded
  bytes, the conversion from and to milliseconds since 1970, and the calendar arithmetic of the C
  library behind it. The conversions are inverse to each other for the years 2000 to 2099, the
  years the encoding can tell apart.
\<close>

section \<open>Calendar\<close>

text \<open>\<open>struct tm\<close>, the members the code uses.\<close>

record tm =
  tm_sec :: int
  tm_min :: int
  tm_hour :: int
  tm_mday :: int
  tm_mon :: int
  tm_year :: int

definition is_leap :: "nat \<Rightarrow> bool" where
  "is_leap y \<longleftrightarrow> y mod 4 = 0 \<and> (y mod 100 \<noteq> 0 \<or> y mod 400 = 0)"

definition year_days :: "nat \<Rightarrow> nat" where
  "year_days y = (if is_leap y then 366 else 365)"

definition month_days :: "nat \<Rightarrow> nat list" where
  "month_days y = [31, if is_leap y then 29 else 28, 31, 30, 31, 30, 31, 31, 30, 31, 30, 31]"

text \<open>\<open>gmtime_r\<close>: count off whole years from 1970, then whole months.\<close>

function gm_year :: "nat \<Rightarrow> nat \<Rightarrow> nat \<times> nat" where
  "gm_year d y = (if d < year_days y then (y, d) else gm_year (d - year_days y) (y + 1))"
  by pat_completeness auto
termination
  by (relation "measure fst") (auto simp: year_days_def)

declare gm_year.simps [simp del]

fun gm_month :: "nat \<Rightarrow> nat \<Rightarrow> nat list \<Rightarrow> nat \<times> nat" where
  "gm_month d m [] = (m, d)"
| "gm_month d m (l # ls) = (if d < l then (m, d) else gm_month (d - l) (m + 1) ls)"

definition gmtime :: "nat \<Rightarrow> tm" where
  "gmtime t =
     (let (y, yd) = gm_year (t div 86400) 1970;
          (m, md) = gm_month yd 0 (month_days y);
          s = t mod 86400
      in \<lparr>tm_sec = int (s mod 60), tm_min = int (s div 60 mod 60), tm_hour = int (s div 3600),
          tm_mday = int md + 1, tm_mon = int m, tm_year = int y - 1900\<rparr>)"

definition my_mktime :: "tm \<Rightarrow> int" where
  "my_mktime ptm =
     (let y = tm_year ptm; m = tm_mon ptm;
          (m, y) = (if m < 2 then (m + 12, y - 1) else (m, y))
      in ((((y - 69) * 365 + c_div y 4 - c_div (c_div y 100 * 3) 4 + c_div ((m + 2) * 153) 5 - 446
            + tm_mday ptm) * 24 + tm_hour ptm) * 60 + tm_min ptm) * 60 + tm_sec ptm)"

section \<open>Fields\<close>

definition millies :: "bytes \<Rightarrow> int" where
  "millies ev = uint (ev ! 0) + uint (ev ! 1) * 0x100"

definition put_millies :: "int \<Rightarrow> bytes \<Rightarrow> bytes" where
  "put_millies v ev =
     ev[0 := word_of_int (v AND 0xff), 1 := word_of_int (c_div v 0x100 AND 0xff)]"

definition CP56Time2a_getMillisecond :: "bytes \<Rightarrow> int" where
  "CP56Time2a_getMillisecond ev = c_mod (millies ev) 1000"

definition CP56Time2a_setMillisecond :: "int \<Rightarrow> bytes \<Rightarrow> bytes" where
  "CP56Time2a_setMillisecond value ev =
     put_millies (millies ev - c_mod (millies ev) 1000 + value) ev"

definition CP56Time2a_getSecond :: "bytes \<Rightarrow> int" where
  "CP56Time2a_getSecond ev = c_div (millies ev) 1000"

definition CP56Time2a_setSecond :: "int \<Rightarrow> bytes \<Rightarrow> bytes" where
  "CP56Time2a_setSecond value ev =
     put_millies (value * 1000 + c_mod (millies ev) 1000) ev"

definition CP56Time2a_getMinute :: "bytes \<Rightarrow> int" where
  "CP56Time2a_getMinute ev = uint (ev ! 2 AND 0x3f)"

definition CP56Time2a_setMinute :: "int \<Rightarrow> bytes \<Rightarrow> bytes" where
  "CP56Time2a_setMinute value ev = ev[2 := (ev ! 2 AND 0xc0) OR (word_of_int value AND 0x3f)]"

definition CP56Time2a_isInvalid :: "bytes \<Rightarrow> bool" where
  "CP56Time2a_isInvalid ev \<longleftrightarrow> ev ! 2 AND 0x80 \<noteq> 0"

definition CP56Time2a_setInvalid :: "bool \<Rightarrow> bytes \<Rightarrow> bytes" where
  "CP56Time2a_setInvalid value ev =
     ev[2 := (if value then ev ! 2 OR 0x80 else ev ! 2 AND 0x7f)]"

definition CP56Time2a_isSubstituted :: "bytes \<Rightarrow> bool" where
  "CP56Time2a_isSubstituted ev \<longleftrightarrow> ev ! 2 AND 0x40 = 0x40"

definition CP56Time2a_setSubstituted :: "bool \<Rightarrow> bytes \<Rightarrow> bytes" where
  "CP56Time2a_setSubstituted value ev =
     ev[2 := (if value then ev ! 2 OR 0x40 else ev ! 2 AND 0xbf)]"

definition CP56Time2a_getHour :: "bytes \<Rightarrow> int" where
  "CP56Time2a_getHour ev = uint (ev ! 3 AND 0x1f)"

definition CP56Time2a_setHour :: "int \<Rightarrow> bytes \<Rightarrow> bytes" where
  "CP56Time2a_setHour value ev = ev[3 := (ev ! 3 AND 0xe0) OR (word_of_int value AND 0x1f)]"

definition CP56Time2a_getDayOfWeek :: "bytes \<Rightarrow> int" where
  "CP56Time2a_getDayOfWeek ev = uint (drop_bit 5 (ev ! 4 AND 0xe0))"

definition CP56Time2a_setDayOfWeek :: "int \<Rightarrow> bytes \<Rightarrow> bytes" where
  "CP56Time2a_setDayOfWeek value ev =
     ev[4 := (ev ! 4 AND 0x1f) OR push_bit 5 (word_of_int value AND 0x07)]"

definition CP56Time2a_getDayOfMonth :: "bytes \<Rightarrow> int" where
  "CP56Time2a_getDayOfMonth ev = uint (ev ! 4 AND 0x1f)"

definition CP56Time2a_setDayOfMonth :: "int \<Rightarrow> bytes \<Rightarrow> bytes" where
  "CP56Time2a_setDayOfMonth value ev = ev[4 := (ev ! 4 AND 0xe0) + (word_of_int value AND 0x1f)]"

definition CP56Time2a_getMonth :: "bytes \<Rightarrow> int" where
  "CP56Time2a_getMonth ev = uint (ev ! 5 AND 0x0f)"

definition CP56Time2a_setMonth :: "int \<Rightarrow> bytes \<Rightarrow> bytes" where
  "CP56Time2a_setMonth value ev = ev[5 := (ev ! 5 AND 0xf0) + (word_of_int value AND 0x0f)]"

definition CP56Time2a_getYear :: "bytes \<Rightarrow> int" where
  "CP56Time2a_getYear ev = uint (ev ! 6 AND 0x7f)"

definition CP56Time2a_setYear :: "int \<Rightarrow> bytes \<Rightarrow> bytes" where
  "CP56Time2a_setYear value ev =
     (let value = c_mod value 100
      in ev[6 := (ev ! 6 AND 0x80) + (word_of_int value AND 0x7f)])"

definition CP56Time2a_isSummerTime :: "bytes \<Rightarrow> bool" where
  "CP56Time2a_isSummerTime ev \<longleftrightarrow> ev ! 3 AND 0x80 \<noteq> 0"

definition CP56Time2a_setSummerTime :: "bool \<Rightarrow> bytes \<Rightarrow> bytes" where
  "CP56Time2a_setSummerTime value ev =
     ev[3 := (if value then ev ! 3 OR 0x80 else ev ! 3 AND 0x7f)]"

section \<open>Conversions\<close>

definition CP56Time2a_setFromMsTimestamp :: "u64 \<Rightarrow> bytes \<Rightarrow> bytes" where
  "CP56Time2a_setFromMsTimestamp timestamp ev =
     (let ev = replicate 7 0;
          tmTime = gmtime (unat (timestamp div 1000));
          msPart = uint (timestamp mod 1000);
          ev = CP56Time2a_setMillisecond msPart ev;
          ev = CP56Time2a_setSecond (tm_sec tmTime) ev;
          ev = CP56Time2a_setMinute (tm_min tmTime) ev;
          ev = CP56Time2a_setHour (tm_hour tmTime) ev;
          ev = CP56Time2a_setDayOfMonth (tm_mday tmTime) ev;
          ev = CP56Time2a_setDayOfWeek 0 ev;
          ev = CP56Time2a_setMonth (tm_mon tmTime + 1) ev;
          ev = CP56Time2a_setYear (tm_year tmTime) ev
      in ev)"

definition CP56Time2a_createFromMsTimestamp :: "u64 \<Rightarrow> bytes" where
  "CP56Time2a_createFromMsTimestamp timestamp =
     CP56Time2a_setFromMsTimestamp timestamp (replicate 7 0)"

definition CP56Time2a_toMsTimestamp :: "bytes \<Rightarrow> u64" where
  "CP56Time2a_toMsTimestamp ev =
     (let tmTime = \<lparr>tm_sec = CP56Time2a_getSecond ev, tm_min = CP56Time2a_getMinute ev,
                    tm_hour = CP56Time2a_getHour ev, tm_mday = CP56Time2a_getDayOfMonth ev,
                    tm_mon = CP56Time2a_getMonth ev - 1, tm_year = CP56Time2a_getYear ev + 100\<rparr>
      in word_of_int (my_mktime tmTime) * 1000 + word_of_int (CP56Time2a_getMillisecond ev))"

definition CP56Time2a_getFromBuffer :: "bytes \<Rightarrow> nat \<Rightarrow> bytes option" where
  "CP56Time2a_getFromBuffer msg startIndex =
     (if length msg < startIndex + 7 then None else Some (take 7 (drop startIndex msg)))"

section \<open>The calendar is a bijection\<close>

definition days_before :: "nat \<Rightarrow> nat" where
  "days_before y = sum_list (map year_days [1970..<y])"

lemma days_before_Suc: "1970 \<le> y \<Longrightarrow> days_before (Suc y) = days_before y + year_days y"
  by (simp add: days_before_def)

lemma gm_year_days:
  "gm_year d y = (y', r) \<Longrightarrow> 1970 \<le> y \<Longrightarrow>
     y \<le> y' \<and> r < year_days y' \<and> days_before y + d = days_before y' + r"
proof (induction d y rule: gm_year.induct)
  case (1 d y)
  show ?case
  proof (cases "d < year_days y")
    case True
    with 1(2) show ?thesis by (subst (asm) gm_year.simps) simp
  next
    case False
    with 1(2) have "gm_year (d - year_days y) (y + 1) = (y', r)"
      by (subst (asm) gm_year.simps) simp
    with 1(1) [OF False] 1(3) False show ?thesis by (simp add: days_before_Suc)
  qed
qed

lemma is_leap_range:
  assumes "n \<le> 129"
  shows "is_leap (1970 + n) \<longleftrightarrow> n mod 4 = 2"
proof -
  have "(1970 + n) mod 4 = (2 + n) mod 4" by presburger
  moreover have "(1970 + n) mod 400 = 0" if "(1970 + n) mod 100 = 0"
  proof -
    from that obtain q where q: "1970 + n = 100 * q" by (metis dvd_eq_mod_eq_0 dvdE)
    with assms have "q = 20" by linarith
    with q show ?thesis by simp
  qed
  moreover have "(2 + n) mod 4 = 0 \<longleftrightarrow> n mod 4 = 2" by presburger
  ultimately show ?thesis unfolding is_leap_def by metis
qed

lemma days_before_closed:
  "n \<le> 130 \<Longrightarrow> days_before (1970 + n) = 365 * n + (n + 1) div 4"
proof (induction n)
  case 0
  then show ?case by (simp add: days_before_def)
next
  case (Suc n)
  have "is_leap (1970 + n) \<longleftrightarrow> n mod 4 = 2" using Suc.prems by (intro is_leap_range) simp
  then have "year_days (1970 + n) = 365 + of_bool (n mod 4 = 2)"
    by (simp add: year_days_def)
  moreover have "(Suc n + 1) div 4 = (n + 1) div 4 + of_bool (n mod 4 = 2)"
    by (auto simp: mod_Suc div_Suc split: if_splits)
  ultimately show ?case using Suc days_before_Suc [of "1970 + n"] by simp
qed

lemma gm_month_days:
  "gm_month d k ls = (m, r) \<Longrightarrow> d < sum_list ls \<Longrightarrow>
     k \<le> m \<and> m < k + length ls \<and> r < ls ! (m - k) \<and> d = sum_list (take (m - k) ls) + r"
proof (induction ls arbitrary: d k)
  case Nil
  then show ?case by simp
next
  case (Cons l ls)
  show ?case
  proof (cases "d < l")
    case True
    with Cons.prems show ?thesis by simp
  next
    case False
    then have "gm_month (d - l) (k + 1) ls = (m, r)" and "d - l < sum_list ls"
      using Cons.prems by auto
    from Cons.IH [OF this] have *: "k + 1 \<le> m" "m < k + 1 + length ls" "r < ls ! (m - (k + 1))"
      "d - l = sum_list (take (m - (k + 1)) ls) + r" by auto
    from *(1) have "m - k = Suc (m - (k + 1))" by simp
    with * False show ?thesis by simp
  qed
qed

lemma sum_month_days: "sum_list (month_days y) = year_days y"
  by (simp add: month_days_def year_days_def)

text \<open>The days of the months before month \<open>m\<close> and the formula of \<open>my_mktime\<close>.\<close>

lemma month_formula:
  assumes "m < 12"
  shows "sum_list (take m (month_days y)) =
    (if m < 2 then 31 * m else (m + 2) * 153 div 5 - 63 + of_bool (is_leap y))"
proof -
  from assms have "m = 0 \<or> m = 1 \<or> m = 2 \<or> m = 3 \<or> m = 4 \<or> m = 5 \<or> m = 6 \<or> m = 7 \<or> m = 8 \<or>
    m = 9 \<or> m = 10 \<or> m = 11"
    by presburger
  then show ?thesis by (elim disjE) (simp_all add: month_days_def)
qed

lemma quarter_years:
  "100 \<le> (y :: int) \<Longrightarrow> (y - 69) div 4 = (y - 1) div 4 - 17"
  "100 \<le> (y :: int) \<Longrightarrow> (y - 69) div 4 + of_bool (y mod 4 = 0) = y div 4 - 17"
proof -
  assume "100 \<le> y"
  have "y - 69 = (y - 1) + 4 * (-17)" by simp
  then show 1: "(y - 69) div 4 = (y - 1) div 4 - 17" by presburger
  show "(y - 69) div 4 + of_bool (y mod 4 = 0) = y div 4 - 17"
    unfolding 1 by (cases "y mod 4 = 0") (simp; presburger)+
qed

lemma my_mktime_civil:
  assumes n: "30 \<le> n" "n < 130" and m: "m < 12"
  shows "my_mktime \<lparr>tm_sec = s, tm_min = mi, tm_hour = h, tm_mday = int md + 1, tm_mon = int m,
      tm_year = int n + 70\<rparr> =
    ((int (days_before (1970 + n) + sum_list (take m (month_days (1970 + n))) + md) * 24 + h) * 60 + mi)
      * 60 + s"
proof -
  define Y where "Y = int n + 70"
  have Y: "100 \<le> Y" "Y < 200" using n by (auto simp: Y_def)
  have century: "c_div (c_div y 100 * 3) 4 = 0" if "99 \<le> y" "y < 200" for y
  proof -
    have "y div 100 = 0 \<or> y div 100 = 1" using that by auto
    then show ?thesis using that by (auto simp: c_div_nonneg)
  qed
  have days: "int (days_before (1970 + n)) = 365 * (Y - 70) + (Y - 69) div 4"
    using days_before_closed [of n] n by (simp add: Y_def zdiv_int)
  have "Y mod 4 = 0 \<longleftrightarrow> n mod 4 = 2" unfolding Y_def by presburger
  then have leap: "is_leap (1970 + n) \<longleftrightarrow> Y mod 4 = 0"
    using is_leap_range [of n] n by simp
  have months: "int (sum_list (take m (month_days (1970 + n)))) =
      (if m < 2 then 31 * int m else (int m + 2) * 153 div 5 - 63 + of_bool (Y mod 4 = 0))"
    using month_formula [OF m, of "1970 + n", unfolded leap]
    by (auto simp: zdiv_int of_nat_diff algebra_simps)
  let ?d = "int (days_before (1970 + n) + sum_list (take m (month_days (1970 + n))) + md)"
  show ?thesis
  proof (cases "m < 2")
    case True
    then have "c_div ((int m + 12 + 2) * 153) 5 = 428 + 31 * int m"
      by (cases m) (auto simp: c_div_nonneg)
    then have "(Y - 1 - 69) * 365 + c_div (Y - 1) 4 - c_div (c_div (Y - 1) 100 * 3) 4
        + c_div ((int m + 12 + 2) * 153) 5 - 446 + (int md + 1) = ?d"
      using True months days quarter_years(1) [OF Y(1)] century [of "Y - 1"] Y
      by (simp add: c_div_nonneg)
    with True show ?thesis by (simp add: my_mktime_def flip: Y_def)
  next
    case False
    have "c_div ((int m + 2) * 153) 5 = (int m + 2) * 153 div 5" by (simp add: c_div_nonneg)
    moreover have "c_div Y 4 = Y div 4" using Y by (simp add: c_div_nonneg)
    moreover define q where "q = (int m + 2) * 153 div 5"
    moreover define l where "l = (of_bool (Y mod 4 = 0) :: int)"
    ultimately have "(Y - 69) * 365 + c_div Y 4 - c_div (c_div Y 100 * 3) 4
        + c_div ((int m + 2) * 153) 5 - 446 + (int md + 1) = ?d"
      using False months days quarter_years(2) [OF Y(1)] century [of Y] Y
      by (simp flip: q_def l_def)
    with False show ?thesis by (simp add: my_mktime_def flip: Y_def)
  qed
qed

text \<open>The broken-down time of an instant of the years 2000 to 2099, put together again.\<close>

definition century_21 :: "nat \<Rightarrow> bool" where
  "century_21 t \<longleftrightarrow> 946684800 \<le> t \<and> t < 4102444800"

lemma gmtime_parts:
  assumes "century_21 t"
  obtains n m md where "30 \<le> n" "n < 130" "m < 12" "md < 31"
    and "t div 86400 = days_before (1970 + n) + sum_list (take m (month_days (1970 + n))) + md"
    and "gmtime t = \<lparr>tm_sec = int (t mod 86400 mod 60), tm_min = int (t mod 86400 div 60 mod 60),
      tm_hour = int (t mod 86400 div 3600), tm_mday = int md + 1, tm_mon = int m, tm_year = int n + 70\<rparr>"
proof -
  obtain y yd where y: "gm_year (t div 86400) 1970 = (y, yd)" by fastforce
  obtain m md where m: "gm_month yd 0 (month_days y) = (m, md)" by fastforce
  from gm_year_days [OF y] have y1: "1970 \<le> y" "yd < year_days y"
    and days: "t div 86400 = days_before y + yd"
    by (auto simp: days_before_def)
  define n where "n = y - 1970"
  have yn: "y = 1970 + n" using y1 by (simp add: n_def)
  have t: "10957 \<le> t div 86400" "t div 86400 < 47482"
    using assms by (auto simp: century_21_def)
  have mono: "days_before (1970 + i) \<le> days_before (1970 + j)" if "i \<le> j" for i j
    using that
  proof (induction rule: dec_induct)
    case (step k)
    then show ?case using days_before_Suc [of "1970 + k"] by simp
  qed simp
  have n1: "30 \<le> n"
  proof (rule ccontr)
    assume "\<not> 30 \<le> n"
    then have "days_before (1970 + (n + 1)) \<le> days_before (1970 + 30)" by (intro mono) simp
    then show False
      using days t(1) y1(2) days_before_closed [of 30] days_before_Suc [of y] yn by simp
  qed
  have n2: "n < 130"
  proof (rule ccontr)
    assume "\<not> n < 130"
    then have "days_before (1970 + 130) \<le> days_before (1970 + n)" by (intro mono) simp
    then show False using days t(2) days_before_closed [of 130] yn by simp
  qed
  have "yd < sum_list (month_days y)" using y1(2) by (simp add: sum_month_days)
  from gm_month_days [OF m this] have ms: "m < 12" "md < month_days y ! m"
    and mdays: "yd = sum_list (take m (month_days y)) + md"
    by (auto simp: month_days_def)
  have "\<forall>l \<in> set (month_days y). l \<le> 31" by (auto simp: month_days_def)
  moreover have "month_days y ! m \<in> set (month_days y)"
    using ms(1) by (intro nth_mem) (simp add: month_days_def)
  ultimately have "month_days y ! m \<le> 31" by blast
  then have "md < 31" using ms(2) by simp
  moreover have "gmtime t = \<lparr>tm_sec = int (t mod 86400 mod 60), tm_min = int (t mod 86400 div 60 mod 60),
      tm_hour = int (t mod 86400 div 3600), tm_mday = int md + 1, tm_mon = int m, tm_year = int n + 70\<rparr>"
    by (simp add: gmtime_def y m Let_def) (simp add: yn)
  ultimately show ?thesis
    using that [of n m md] n1 n2 ms(1) days mdays by (simp add: yn)
qed

lemma mktime_gmtime:
  assumes "century_21 t"
  shows "my_mktime (gmtime t) = int t"
proof -
  from gmtime_parts [OF assms] obtain n m md where *: "30 \<le> n" "n < 130" "m < 12"
    and days: "t div 86400 = days_before (1970 + n) + sum_list (take m (month_days (1970 + n))) + md"
    and g: "gmtime t = \<lparr>tm_sec = int (t mod 86400 mod 60), tm_min = int (t mod 86400 div 60 mod 60),
      tm_hour = int (t mod 86400 div 3600), tm_mday = int md + 1, tm_mon = int m, tm_year = int n + 70\<rparr>"
    by blast
  define s where "s = t mod 86400"
  have "s div 3600 = s div 60 div 60" by (simp flip: div_mult2_eq)
  then have "(s div 3600 * 60 + s div 60 mod 60) * 60 + s mod 60 = s" by simp
  moreover have "t div 86400 * 86400 + s = t" by (simp add: s_def)
  ultimately have "((t div 86400 * 24 + s div 3600) * 60 + s div 60 mod 60) * 60 + s mod 60 = t"
    by simp
  then have "((int (t div 86400) * 24 + int (s div 3600)) * 60 + int (s div 60 mod 60)) * 60 +
      int (s mod 60) = int t"
    by (metis of_nat_add of_nat_mult of_nat_numeral)
  then show ?thesis
    unfolding g my_mktime_civil [OF *] by (simp only: days s_def)
qed

section \<open>The fields are packed independently\<close>

definition cp56_wf :: "bytes \<Rightarrow> bool" where
  "cp56_wf ev \<longleftrightarrow> length ev = 7 \<and> millies ev < 60000"

lemma seven: "length ev = 7 \<longleftrightarrow> (\<exists>a b c d e f g. ev = [a, b, c, d, e, f, g])"
  by (auto simp: numeral_eq_Suc length_Suc_conv)

lemma millies_nonneg [simp]: "0 \<le> millies ev"
  by (simp add: millies_def)

lemma millies_put:
  assumes "length ev = 7" "0 \<le> v" "v < 65536"
  shows "millies (put_millies v ev) = v"
proof -
  have "v div 256 mod 256 = v div 256"
    using assms by (intro mod_pos_pos_trivial) (auto simp: pos_imp_zdiv_nonneg_iff)
  moreover have "v mod 256 + v div 256 * 256 = v" by simp
  ultimately show ?thesis
    using assms
    by (simp add: millies_def put_millies_def c_arith int_masks uint_word_of_int)
qed

lemma put_put_millies: "put_millies w (put_millies v ev) = put_millies w ev"
  by (simp add: put_millies_def list_update_swap)

lemma length_put_millies [simp]: "length (put_millies v ev) = length ev"
  by (simp add: put_millies_def)

lemma set_ms: "cp56_wf e \<Longrightarrow> CP56Time2a_setMillisecond v e = put_millies (millies e div 1000 * 1000 + v) e"
  by (simp add: CP56Time2a_setMillisecond_def c_arith minus_mod_eq_div_mult)

lemma set_sec: "CP56Time2a_setSecond v e = put_millies (v * 1000 + millies e mod 1000) e"
  by (simp add: CP56Time2a_setSecond_def c_arith)

lemma get_ms: "CP56Time2a_getMillisecond e = millies e mod 1000"
  by (simp add: CP56Time2a_getMillisecond_def c_arith)

lemma get_sec: "CP56Time2a_getSecond e = millies e div 1000"
  by (simp add: CP56Time2a_getSecond_def c_arith)

lemma sec_bound: "cp56_wf e \<Longrightarrow> millies e div 1000 \<le> 59"
  unfolding cp56_wf_def by presburger

lemma millies_set_ms:
  assumes "cp56_wf e" "0 \<le> v" "v < 1000"
  shows "millies (CP56Time2a_setMillisecond v e) = millies e div 1000 * 1000 + v"
proof -
  have "millies e div 1000 \<le> 59" using assms(1) by (rule sec_bound)
  moreover have "0 \<le> millies e div 1000" by (simp add: pos_imp_zdiv_nonneg_iff)
  ultimately show ?thesis
    using assms by (simp add: set_ms millies_put cp56_wf_def)
qed

lemma millies_set_sec:
  assumes "cp56_wf e" "0 \<le> v" "v < 60"
  shows "millies (CP56Time2a_setSecond v e) = v * 1000 + millies e mod 1000"
proof -
  have "millies e mod 1000 < 1000" "0 \<le> millies e mod 1000" by simp_all
  then show ?thesis
    using assms by (simp add: set_sec millies_put cp56_wf_def)
qed

lemma length_set_ms [simp]: "length (CP56Time2a_setMillisecond v e) = length e"
  "length (CP56Time2a_setSecond v e) = length e"
  by (simp_all add: CP56Time2a_setMillisecond_def CP56Time2a_setSecond_def)

lemma ms_div: "0 \<le> v \<Longrightarrow> v < 1000 \<Longrightarrow> (m * 1000 + v) div 1000 = (m :: int)"
  by simp

lemma wf_set_ms: "cp56_wf e \<Longrightarrow> 0 \<le> v \<Longrightarrow> v < 1000 \<Longrightarrow> cp56_wf (CP56Time2a_setMillisecond v e)"
  using millies_set_ms [of e v] sec_bound [of e] by (auto simp: cp56_wf_def)

lemma wf_set_sec: "cp56_wf e \<Longrightarrow> 0 \<le> v \<Longrightarrow> v < 60 \<Longrightarrow> cp56_wf (CP56Time2a_setSecond v e)"
proof -
  assume *: "cp56_wf e" "0 \<le> v" "v < 60"
  have "millies e mod 1000 < 1000" by simp
  then have "v * 1000 + millies e mod 1000 < 60000" using * by linarith
  then show ?thesis using * millies_set_sec [of e v] by (simp add: cp56_wf_def)
qed

lemma put_millies_eq: "v = w \<Longrightarrow> put_millies v (put_millies u e) = put_millies w e"
  by (simp add: put_put_millies)

interpretation cp56_ms: packed_field cp56_wf CP56Time2a_getMillisecond CP56Time2a_setMillisecond
    "\<lambda>v. 0 \<le> v \<and> v < 1000"
proof
  fix e :: bytes and v w :: int
  assume e: "cp56_wf e" and v: "0 \<le> v \<and> v < 1000"
  then show wf: "cp56_wf (CP56Time2a_setMillisecond v e)" by (simp add: wf_set_ms)
  show "CP56Time2a_getMillisecond (CP56Time2a_setMillisecond v e) = v"
    using e v by (simp add: get_ms millies_set_ms)
  show "CP56Time2a_setMillisecond w (CP56Time2a_setMillisecond v e) = CP56Time2a_setMillisecond w e"
    unfolding set_ms [OF wf] using e v by (simp add: millies_set_ms) (simp add: set_ms put_put_millies)
qed

interpretation cp56_sec: packed_field cp56_wf CP56Time2a_getSecond CP56Time2a_setSecond
    "\<lambda>v. 0 \<le> v \<and> v < 60"
proof
  fix e :: bytes and v w :: int
  assume e: "cp56_wf e" and v: "0 \<le> v \<and> v < 60"
  then show wf: "cp56_wf (CP56Time2a_setSecond v e)" by (simp add: wf_set_sec)
  show "CP56Time2a_getSecond (CP56Time2a_setSecond v e) = v"
    using e v by (simp add: get_sec millies_set_sec)
  show "CP56Time2a_setSecond w (CP56Time2a_setSecond v e) = CP56Time2a_setSecond w e"
    unfolding set_sec [of w] using e v
    by (simp add: millies_set_sec) (simp add: set_sec put_put_millies)
qed

interpretation cp56_ms_sec: independent_fields cp56_wf
    CP56Time2a_getMillisecond CP56Time2a_setMillisecond "\<lambda>v. 0 \<le> v \<and> v < 1000"
    CP56Time2a_getSecond CP56Time2a_setSecond "\<lambda>v. 0 \<le> v \<and> v < 60"
  by unfold_locales (simp_all add: get_ms get_sec millies_set_ms millies_set_sec)

text \<open>The fields in the other bytes.\<close>

lemma add_or:
  "((x :: u8) AND 0xe0) + (v AND 0x1f) = (x AND 0xe0) OR (v AND 0x1f)"
  "((x :: u8) AND 0xf0) + (v AND 0x0f) = (x AND 0xf0) OR (v AND 0x0f)"
  "((x :: u8) AND 0x80) + (v AND 0x7f) = (x AND 0x80) OR (v AND 0x7f)"
  by (rule disjunctive_add_eq_or, simp add: u8_eq_iff bit_simps)+

lemma low_field:
  "((x :: u8) AND 0xc0 OR v AND 0x3f) AND 0x3f = v AND 0x3f"
  "((x :: u8) AND 0xe0 OR v AND 0x1f) AND 0x1f = v AND 0x1f"
  "((x :: u8) AND 0xf0 OR v AND 0x0f) AND 0x0f = v AND 0x0f"
  "((x :: u8) AND 0x80 OR v AND 0x7f) AND 0x7f = v AND 0x7f"
  by (simp_all add: u8_eq_iff bit_simps)

lemma high_field:
  "((x :: u8) AND 0xc0 OR v AND 0x3f) AND 0xc0 = x AND 0xc0"
  "((x :: u8) AND 0xe0 OR v AND 0x1f) AND 0xe0 = x AND 0xe0"
  "((x :: u8) AND 0xf0 OR v AND 0x0f) AND 0xf0 = x AND 0xf0"
  "((x :: u8) AND 0x80 OR v AND 0x7f) AND 0x80 = x AND 0x80"
  by (simp_all add: u8_eq_iff bit_simps)

lemmas cp56_setters = CP56Time2a_setMinute_def CP56Time2a_setInvalid_def CP56Time2a_setSubstituted_def
  CP56Time2a_setHour_def CP56Time2a_setDayOfWeek_def CP56Time2a_setDayOfMonth_def
  CP56Time2a_setMonth_def CP56Time2a_setYear_def CP56Time2a_setSummerTime_def

lemmas cp56_getters = CP56Time2a_getMinute_def CP56Time2a_isInvalid_def CP56Time2a_isSubstituted_def
  CP56Time2a_getHour_def CP56Time2a_getDayOfWeek_def CP56Time2a_getDayOfMonth_def
  CP56Time2a_getMonth_def CP56Time2a_getYear_def CP56Time2a_isSummerTime_def

lemma wf_upd: "2 \<le> i \<Longrightarrow> cp56_wf (ev[i := b]) = cp56_wf ev"
  by (simp add: cp56_wf_def millies_def)

lemma wf_len: "cp56_wf ev \<Longrightarrow> length ev = 7"
  by (simp add: cp56_wf_def)

lemmas cp56_field_simps = cp56_setters cp56_getters wf_upd wf_len add_or low_field high_field
  low_bits_store c_arith Let_def

interpretation cp56_min: packed_field cp56_wf CP56Time2a_getMinute CP56Time2a_setMinute
    "\<lambda>v. 0 \<le> v \<and> v < 64"
  by unfold_locales (simp_all add: cp56_field_simps)

interpretation cp56_hour: packed_field cp56_wf CP56Time2a_getHour CP56Time2a_setHour
    "\<lambda>v. 0 \<le> v \<and> v < 32"
  by unfold_locales (simp_all add: cp56_field_simps)

interpretation cp56_mday: packed_field cp56_wf CP56Time2a_getDayOfMonth CP56Time2a_setDayOfMonth
    "\<lambda>v. 0 \<le> v \<and> v < 32"
  by unfold_locales (simp_all add: cp56_field_simps)

interpretation cp56_mon: packed_field cp56_wf CP56Time2a_getMonth CP56Time2a_setMonth
    "\<lambda>v. 0 \<le> v \<and> v < 16"
  by unfold_locales (simp_all add: cp56_field_simps)

interpretation cp56_year: packed_field cp56_wf CP56Time2a_getYear CP56Time2a_setYear
    "\<lambda>v. 0 \<le> v \<and> v < 100"
  by unfold_locales (simp_all add: cp56_field_simps)

interpretation cp56_invalid: packed_field cp56_wf CP56Time2a_isInvalid CP56Time2a_setInvalid "\<lambda>v. True"
  by unfold_locales
    (auto simp: cp56_field_simps u8_eq_iff bit_simps intro!: arg_cong [where f = "list_update _ 2"])

interpretation cp56_min_invalid: independent_fields cp56_wf
    CP56Time2a_getMinute CP56Time2a_setMinute "\<lambda>v. 0 \<le> v \<and> v < 64"
    CP56Time2a_isInvalid CP56Time2a_setInvalid "\<lambda>v. True"
  by unfold_locales (auto simp: cp56_field_simps u8_eq_iff bit_simps intro!: arg_cong [where f = uint])

section \<open>Round trip\<close>

lemma millies_upd: "2 \<le> i \<Longrightarrow> millies (ev[i := b]) = millies ev"
  by (simp add: millies_def)

text \<open>What the fields of a converted time stamp are.\<close>

lemma setFromMs_fields:
  assumes t: "century_21 (unat (ts div 1000))"
    and ev'_def: "ev' = CP56Time2a_setFromMsTimestamp ts ev" and g_def: "g = gmtime (unat (ts div 1000))"
  shows "CP56Time2a_getMillisecond ev' = uint (ts mod 1000)"
    and "CP56Time2a_getSecond ev' = tm_sec g" and "CP56Time2a_getMinute ev' = tm_min g"
    and "CP56Time2a_getHour ev' = tm_hour g" and "CP56Time2a_getDayOfMonth ev' = tm_mday g"
    and "CP56Time2a_getMonth ev' = tm_mon g + 1" and "CP56Time2a_getYear ev' = tm_year g - 100"
    and "CP56Time2a_getDayOfWeek ev' = 0"
    and "\<not> CP56Time2a_isInvalid ev'" and "\<not> CP56Time2a_isSubstituted ev'"
    and "\<not> CP56Time2a_isSummerTime ev'" and "cp56_wf ev'"
proof -
  define tt where "tt = unat (ts div 1000)"
  from gmtime_parts [OF t] obtain n m md where
    *: "30 \<le> n" "n < 130" "m < 12" "md < 31" and
    g: "g = \<lparr>tm_sec = int (tt mod 86400 mod 60), tm_min = int (tt mod 86400 div 60 mod 60),
      tm_hour = int (tt mod 86400 div 3600), tm_mday = int md + 1, tm_mon = int m, tm_year = int n + 70\<rparr>"
    unfolding g_def tt_def by metis
  have s: "0 \<le> tm_sec g" "tm_sec g < 60" using g by simp_all
  have mi: "0 \<le> tm_min g" "tm_min g < 60" using g by simp_all
  have "tt mod 86400 < 86400" by simp
  then have h: "0 \<le> tm_hour g" "tm_hour g < 24" using g by (simp_all add: less_mult_imp_div_less)
  have d: "0 \<le> tm_mday g" "tm_mday g < 32" and mo: "0 \<le> tm_mon g + 1" "tm_mon g + 1 < 16"
    using g * by simp_all
  have "tm_year g mod 100 = tm_year g - 100"
    using g * by (simp add: mod_pos_geq)
  then have y: "c_mod (tm_year g) 100 = tm_year g - 100" "0 \<le> tm_year g - 100" "tm_year g - 100 < 100"
    using g * by (simp_all add: c_arith)
  have ms: "0 \<le> uint (ts mod 1000)" "uint (ts mod 1000) < 1000"
    using word_mod_less_divisor [of 1000 ts] by (simp_all add: word_less_def)
  define z where "z = CP56Time2a_setMillisecond (uint (ts mod 1000)) (replicate 7 0)"
  have z0: "cp56_wf (replicate 7 0)" "millies (replicate 7 0) = 0"
    by (simp_all add: cp56_wf_def millies_def)
  have z: "cp56_wf z" "millies z = uint (ts mod 1000)"
    using wf_set_ms [OF z0(1) ms] millies_set_ms [OF z0(1) ms] z0(2) by (simp_all add: z_def)
  define w where "w = CP56Time2a_setSecond (tm_sec g) z"
  have w: "cp56_wf w" "millies w = tm_sec g * 1000 + uint (ts mod 1000)"
    using wf_set_sec [OF z(1) s] millies_set_sec [OF z(1) s] z(2) ms by (simp_all add: w_def)
  have wz: "w ! i = 0" if "2 \<le> i" "i < 7" for i
    using that by (simp add: w_def z_def set_sec CP56Time2a_setMillisecond_def put_millies_def)
  have ev': "ev' = w[2 := (word_of_int (tm_min g) AND 0x3f), 3 := (word_of_int (tm_hour g) AND 0x1f),
      4 := (word_of_int (tm_mday g) AND 0x1f), 5 := (word_of_int (tm_mon g + 1) AND 0x0f),
      6 := (word_of_int (tm_year g - 100) AND 0x7f)]"
    using wf_len [OF w(1)] y(1) wz [of 2] wz [of 3] wz [of 4] wz [of 5] wz [of 6]
    by (simp add: ev'_def CP56Time2a_setFromMsTimestamp_def cp56_setters Let_def
        flip: g_def z_def w_def)
  show "CP56Time2a_getMillisecond ev' = uint (ts mod 1000)" "CP56Time2a_getSecond ev' = tm_sec g"
    using w(2) ms by (simp_all add: ev' get_ms get_sec millies_upd)
  show "CP56Time2a_getMinute ev' = tm_min g" "CP56Time2a_getHour ev' = tm_hour g"
    "CP56Time2a_getDayOfMonth ev' = tm_mday g" "CP56Time2a_getMonth ev' = tm_mon g + 1"
    "CP56Time2a_getYear ev' = tm_year g - 100"
    using wf_len [OF w(1)] mi h d low_bits_store(2) [OF mo] low_bits_store(5) [of "tm_year g - 100"] y
    by (simp_all add: ev' cp56_getters low_bits_store)
  show "\<not> CP56Time2a_isInvalid ev'" "\<not> CP56Time2a_isSubstituted ev'" "\<not> CP56Time2a_isSummerTime ev'"
    "CP56Time2a_getDayOfWeek ev' = 0"
    using wf_len [OF w(1)] by (simp_all add: ev' cp56_getters u8_eq_iff bit_simps)
  show "cp56_wf ev'" using w(1) by (simp add: ev' wf_upd)
qed

lemma tm_eta: "\<lparr>tm_sec = tm_sec g, tm_min = tm_min g, tm_hour = tm_hour g, tm_mday = tm_mday g,
    tm_mon = tm_mon g, tm_year = tm_year g\<rparr> = (g :: tm)"
  by (cases g) simp

lemma toMs_setFromMs:
  assumes "century_21 (unat (ts div 1000))"
  shows "CP56Time2a_toMsTimestamp (CP56Time2a_setFromMsTimestamp ts ev) = ts"
proof -
  note f = setFromMs_fields [OF assms refl refl, of ev]
  let ?g = "gmtime (unat (ts div 1000))"
  have "CP56Time2a_toMsTimestamp (CP56Time2a_setFromMsTimestamp ts ev) =
      word_of_int (my_mktime ?g) * 1000 + word_of_int (uint (ts mod 1000))"
    unfolding CP56Time2a_toMsTimestamp_def Let_def f by (simp add: tm_eta del: of_int_uint)
  also have "word_of_int (my_mktime ?g) = ts div 1000"
    using mktime_gmtime [OF assms] by simp
  also have "ts div 1000 * 1000 + word_of_int (uint (ts mod 1000)) = ts"
    by (simp add: div_mult_mod_eq)
  finally show ?thesis .
qed

section \<open>Properties\<close>

text \<open>
  C6: converting an instant of the years 2000 to 2099 to the seven byte time stamp and back gives the
  same millisecond, whatever the buffer held before; the stamp is well-formed and carries no
  invalid, substituted or summer time flag and no day of the week.
\<close>

theorem cp56_roundtrip:
  assumes "century_21 (unat (ts div 1000))"
  shows "CP56Time2a_toMsTimestamp (CP56Time2a_setFromMsTimestamp ts ev) = ts \<and>
    cp56_wf (CP56Time2a_setFromMsTimestamp ts ev) \<and>
    \<not> CP56Time2a_isInvalid (CP56Time2a_setFromMsTimestamp ts ev) \<and>
    \<not> CP56Time2a_isSubstituted (CP56Time2a_setFromMsTimestamp ts ev) \<and>
    \<not> CP56Time2a_isSummerTime (CP56Time2a_setFromMsTimestamp ts ev) \<and>
    CP56Time2a_getDayOfWeek (CP56Time2a_setFromMsTimestamp ts ev) = 0"
  using toMs_setFromMs [OF assms, of ev] setFromMs_fields [OF assms refl refl, of ev] by simp

theorem cp56_roundtrip_witness:
  "CP56Time2a_toMsTimestamp (CP56Time2a_setFromMsTimestamp 1700000000123 []) = 1700000000123"
  using cp56_roundtrip [of 1700000000123 "[]"] by (simp add: century_21_def)

end
