(* ===== verification/Info_Parsing.thy ===== *)
theory Info_Parsing
  imports Info_Types Cp56_Time
begin

text \<open>
  The \<open>getFromBuffer\<close> functions of the information objects (\<open>cs101/cs101_information_objects.c\<close>): one
  object at an index of a received message.
\<close>

section \<open>Parsing one object\<close>

definition InformationObject_ParseObjectAddress :: "app_layer_params \<Rightarrow> bytes \<Rightarrow> nat \<Rightarrow> int" where
  "InformationObject_ParseObjectAddress p msg startIndex =
     (let ioa = uint (msg ! startIndex);
          ioa = (if sizeOfIOA p > 1 then ioa + uint (msg ! (startIndex + 1)) * 0x100 else ioa);
          ioa = (if sizeOfIOA p > 2 then ioa + uint (msg ! (startIndex + 2)) * 0x10000 else ioa)
      in ioa)"

text \<open>
  The common head of the functions: the check of the message size, then the object address. In a
  sequence the address is not in the element; the caller stores it afterwards, and until then the
  model has 0 there. The result is the address and the index of the element, None for NULL.
\<close>

definition io_start ::
    "app_layer_params \<Rightarrow> bytes \<Rightarrow> nat \<Rightarrow> bool \<Rightarrow> nat \<Rightarrow> (int \<times> nat) option" where
  "io_start p msg startIndex isSequence n =
     (let minSize = int startIndex + int n;
          minSize = (if isSequence then minSize else minSize + sizeOfIOA p)
      in if minSize > int (length msg) then None
         else if isSequence then Some (0, startIndex)
         else Some (InformationObject_ParseObjectAddress p msg startIndex,
                    startIndex + nat (sizeOfIOA p)))"

text \<open>The four bytes of a float, and the time stamp, whose own size check cannot fail here.\<close>

definition float_at :: "bytes \<Rightarrow> nat \<Rightarrow> f32" where
  "float_at msg i = word_of_nat (of_le_bytes [msg ! i, msg ! (i + 1), msg ! (i + 2), msg ! (i + 3)])"

definition time_at :: "bytes \<Rightarrow> nat \<Rightarrow> bytes" where
  "time_at msg i = (case CP56Time2a_getFromBuffer msg i of None \<Rightarrow> [] | Some t \<Rightarrow> t)"

definition CP16Time2a_getFromBuffer :: "bytes \<Rightarrow> nat \<Rightarrow> bytes option" where
  "CP16Time2a_getFromBuffer msg startIndex =
     (if length msg < startIndex + 2 then None else Some (take 2 (drop startIndex msg)))"

definition CP24Time2a_getFromBuffer :: "bytes \<Rightarrow> nat \<Rightarrow> bytes option" where
  "CP24Time2a_getFromBuffer msg startIndex =
     (if length msg < startIndex + 3 then None else Some (take 3 (drop startIndex msg)))"

definition time16_at :: "bytes \<Rightarrow> nat \<Rightarrow> bytes" where
  "time16_at msg i = (case CP16Time2a_getFromBuffer msg i of None \<Rightarrow> [] | Some t \<Rightarrow> t)"

definition time24_at :: "bytes \<Rightarrow> nat \<Rightarrow> bytes" where
  "time24_at msg i = (case CP24Time2a_getFromBuffer msg i of None \<Rightarrow> [] | Some t \<Rightarrow> t)"

text \<open>The sum of four bytes with their weights.\<close>

definition uint32_at :: "bytes \<Rightarrow> nat \<Rightarrow> u32" where
  "uint32_at msg i = ucast (msg ! i) + ucast (msg ! (i + 1)) * 0x100 + ucast (msg ! (i + 2)) * 0x10000
     + ucast (msg ! (i + 3)) * 0x1000000"

type_synonym io_parser = "app_layer_params \<Rightarrow> bytes \<Rightarrow> nat \<Rightarrow> bool \<Rightarrow> information_object option"

definition SinglePointInformation_getFromBuffer :: io_parser where
  "SinglePointInformation_getFromBuffer p msg startIndex isSequence =
     map_option (\<lambda>(a, i). SinglePointInformation a (msg ! i AND 0x01 = 0x01) (msg ! i AND 0xf0))
       (io_start p msg startIndex isSequence 1)"

definition DoublePointInformation_getFromBuffer :: io_parser where
  "DoublePointInformation_getFromBuffer p msg startIndex isSequence =
     map_option (\<lambda>(a, i). DoublePointInformation a (ucast (msg ! i AND 0x03)) (msg ! i AND 0xf0))
       (io_start p msg startIndex isSequence 1)"

definition MeasuredValueNormalized_getFromBuffer :: io_parser where
  "MeasuredValueNormalized_getFromBuffer p msg startIndex isSequence =
     map_option (\<lambda>(a, i). MeasuredValueNormalized a [msg ! i, msg ! (i + 1)] (msg ! (i + 2)))
       (io_start p msg startIndex isSequence 3)"

definition MeasuredValueNormalizedWithoutQuality_getFromBuffer :: io_parser where
  "MeasuredValueNormalizedWithoutQuality_getFromBuffer p msg startIndex isSequence =
     map_option (\<lambda>(a, i). MeasuredValueNormalizedWithoutQuality a [msg ! i, msg ! (i + 1)])
       (io_start p msg startIndex isSequence 2)"

definition MeasuredValueScaled_getFromBuffer :: io_parser where
  "MeasuredValueScaled_getFromBuffer p msg startIndex isSequence =
     map_option (\<lambda>(a, i). MeasuredValueScaled a [msg ! i, msg ! (i + 1)] (msg ! (i + 2)))
       (io_start p msg startIndex isSequence 3)"

definition MeasuredValueShort_getFromBuffer :: io_parser where
  "MeasuredValueShort_getFromBuffer p msg startIndex isSequence =
     map_option (\<lambda>(a, i). MeasuredValueShort a (float_at msg i) (msg ! (i + 4)))
       (io_start p msg startIndex isSequence 5)"

definition SinglePointWithCP56Time2a_getFromBuffer :: io_parser where
  "SinglePointWithCP56Time2a_getFromBuffer p msg startIndex isSequence =
     map_option (\<lambda>(a, i). SinglePointWithCP56Time2a a (msg ! i AND 0x01 = 0x01) (msg ! i AND 0xf0) (time_at msg (i + 1)))
       (io_start p msg startIndex isSequence 8)"

definition DoublePointWithCP56Time2a_getFromBuffer :: io_parser where
  "DoublePointWithCP56Time2a_getFromBuffer p msg startIndex isSequence =
     map_option (\<lambda>(a, i). DoublePointWithCP56Time2a a (ucast (msg ! i AND 0x03)) (msg ! i AND 0xf0) (time_at msg (i + 1)))
       (io_start p msg startIndex isSequence 8)"

definition MeasuredValueNormalizedWithCP56Time2a_getFromBuffer :: io_parser where
  "MeasuredValueNormalizedWithCP56Time2a_getFromBuffer p msg startIndex isSequence =
     map_option (\<lambda>(a, i). MeasuredValueNormalizedWithCP56Time2a a [msg ! i, msg ! (i + 1)] (msg ! (i + 2)) (time_at msg (i + 3)))
       (io_start p msg startIndex isSequence 10)"

definition MeasuredValueScaledWithCP56Time2a_getFromBuffer :: io_parser where
  "MeasuredValueScaledWithCP56Time2a_getFromBuffer p msg startIndex isSequence =
     map_option (\<lambda>(a, i). MeasuredValueScaledWithCP56Time2a a [msg ! i, msg ! (i + 1)] (msg ! (i + 2)) (time_at msg (i + 3)))
       (io_start p msg startIndex isSequence 10)"

definition MeasuredValueShortWithCP56Time2a_getFromBuffer :: io_parser where
  "MeasuredValueShortWithCP56Time2a_getFromBuffer p msg startIndex isSequence =
     map_option (\<lambda>(a, i). MeasuredValueShortWithCP56Time2a a (float_at msg i) (msg ! (i + 4)) (time_at msg (i + 5)))
       (io_start p msg startIndex isSequence 12)"

definition IntegratedTotalsWithCP56Time2a_getFromBuffer :: io_parser where
  "IntegratedTotalsWithCP56Time2a_getFromBuffer p msg startIndex isSequence =
     map_option (\<lambda>(a, i). IntegratedTotalsWithCP56Time2a a [msg ! i, msg ! (i + 1), msg ! (i + 2), msg ! (i + 3), msg ! (i + 4)] (time_at msg (i + 5)))
       (io_start p msg startIndex isSequence 12)"

text \<open>A command always carries its address.\<close>

definition SingleCommand_getFromBuffer ::
    "app_layer_params \<Rightarrow> bytes \<Rightarrow> nat \<Rightarrow> information_object option" where
  "SingleCommand_getFromBuffer p msg startIndex =
     map_option (\<lambda>(a, i). SingleCommand a (msg ! i)) (io_start p msg startIndex False 1)"

definition SetpointCommandShort_getFromBuffer ::
    "app_layer_params \<Rightarrow> bytes \<Rightarrow> nat \<Rightarrow> information_object option" where
  "SetpointCommandShort_getFromBuffer p msg startIndex =
     map_option (\<lambda>(a, i). SetpointCommandShort a (float_at msg i) (msg ! (i + 4))) (io_start p msg startIndex False 5)"

definition InterrogationCommand_getFromBuffer ::
    "app_layer_params \<Rightarrow> bytes \<Rightarrow> nat \<Rightarrow> information_object option" where
  "InterrogationCommand_getFromBuffer p msg startIndex =
     map_option (\<lambda>(a, i). InterrogationCommand a (msg ! i)) (io_start p msg startIndex False 1)"

definition ClockSynchronizationCommand_getFromBuffer ::
    "app_layer_params \<Rightarrow> bytes \<Rightarrow> nat \<Rightarrow> information_object option" where
  "ClockSynchronizationCommand_getFromBuffer p msg startIndex =
     map_option (\<lambda>(a, i). ClockSynchronizationCommand a (time_at msg i)) (io_start p msg startIndex False 7)"

definition ResetProcessCommand_getFromBuffer ::
    "app_layer_params \<Rightarrow> bytes \<Rightarrow> nat \<Rightarrow> information_object option" where
  "ResetProcessCommand_getFromBuffer p msg startIndex =
     map_option (\<lambda>(a, i). ResetProcessCommand a (msg ! i)) (io_start p msg startIndex False 1)"

text \<open>Objects of types the servers neither send nor expect.\<close>

definition SinglePointWithCP24Time2a_getFromBuffer ::
    io_parser where
  "SinglePointWithCP24Time2a_getFromBuffer p msg startIndex isSequence =
     map_option (\<lambda>(a, i). SinglePointWithCP24Time2a a (msg ! i AND 0x01 = 0x01) (msg ! i AND 0xf0) (time24_at msg (i + 1)))
       (io_start p msg startIndex isSequence 4)"

definition DoublePointWithCP24Time2a_getFromBuffer ::
    io_parser where
  "DoublePointWithCP24Time2a_getFromBuffer p msg startIndex isSequence =
     map_option (\<lambda>(a, i). DoublePointWithCP24Time2a a (ucast (msg ! i AND 0x03)) (msg ! i AND 0xf0) (time24_at msg (i + 1)))
       (io_start p msg startIndex isSequence 4)"

definition StepPositionInformation_getFromBuffer ::
    io_parser where
  "StepPositionInformation_getFromBuffer p msg startIndex isSequence =
     map_option (\<lambda>(a, i). StepPositionInformation a (msg ! i) (msg ! (i + 1)))
       (io_start p msg startIndex isSequence 2)"

definition StepPositionWithCP24Time2a_getFromBuffer ::
    io_parser where
  "StepPositionWithCP24Time2a_getFromBuffer p msg startIndex isSequence =
     map_option (\<lambda>(a, i). StepPositionWithCP24Time2a a (msg ! i) (msg ! (i + 1)) (time24_at msg (i + 2)))
       (io_start p msg startIndex isSequence 5)"

definition StepPositionWithCP56Time2a_getFromBuffer ::
    io_parser where
  "StepPositionWithCP56Time2a_getFromBuffer p msg startIndex isSequence =
     map_option (\<lambda>(a, i). StepPositionWithCP56Time2a a (msg ! i) (msg ! (i + 1)) (time_at msg (i + 2)))
       (io_start p msg startIndex isSequence 9)"

definition BitString32_getFromBuffer ::
    io_parser where
  "BitString32_getFromBuffer p msg startIndex isSequence =
     map_option (\<lambda>(a, i). BitString32 a (uint32_at msg i) (msg ! (i + 4)))
       (io_start p msg startIndex isSequence 5)"

definition Bitstring32WithCP24Time2a_getFromBuffer ::
    io_parser where
  "Bitstring32WithCP24Time2a_getFromBuffer p msg startIndex isSequence =
     map_option (\<lambda>(a, i). Bitstring32WithCP24Time2a a (uint32_at msg i) (msg ! (i + 4)) (time24_at msg (i + 5)))
       (io_start p msg startIndex isSequence 8)"

definition Bitstring32WithCP56Time2a_getFromBuffer ::
    io_parser where
  "Bitstring32WithCP56Time2a_getFromBuffer p msg startIndex isSequence =
     map_option (\<lambda>(a, i). Bitstring32WithCP56Time2a a (uint32_at msg i) (msg ! (i + 4)) (time_at msg (i + 5)))
       (io_start p msg startIndex isSequence 12)"

definition MeasuredValueNormalizedWithCP24Time2a_getFromBuffer ::
    io_parser where
  "MeasuredValueNormalizedWithCP24Time2a_getFromBuffer p msg startIndex isSequence =
     map_option (\<lambda>(a, i). MeasuredValueNormalizedWithCP24Time2a a [msg ! i, msg ! (i + 1)] (msg ! (i + 2)) (time24_at msg (i + 3)))
       (io_start p msg startIndex isSequence 6)"

definition MeasuredValueScaledWithCP24Time2a_getFromBuffer ::
    io_parser where
  "MeasuredValueScaledWithCP24Time2a_getFromBuffer p msg startIndex isSequence =
     map_option (\<lambda>(a, i). MeasuredValueScaledWithCP24Time2a a [msg ! i, msg ! (i + 1)] (msg ! (i + 2)) (time24_at msg (i + 3)))
       (io_start p msg startIndex isSequence 6)"

definition MeasuredValueShortWithCP24Time2a_getFromBuffer ::
    io_parser where
  "MeasuredValueShortWithCP24Time2a_getFromBuffer p msg startIndex isSequence =
     map_option (\<lambda>(a, i). MeasuredValueShortWithCP24Time2a a (float_at msg i) (msg ! (i + 4)) (time24_at msg (i + 5)))
       (io_start p msg startIndex isSequence 8)"

definition IntegratedTotals_getFromBuffer ::
    io_parser where
  "IntegratedTotals_getFromBuffer p msg startIndex isSequence =
     map_option (\<lambda>(a, i). IntegratedTotals a [msg ! i, msg ! (i + 1), msg ! (i + 2), msg ! (i + 3), msg ! (i + 4)])
       (io_start p msg startIndex isSequence 5)"

definition IntegratedTotalsWithCP24Time2a_getFromBuffer ::
    io_parser where
  "IntegratedTotalsWithCP24Time2a_getFromBuffer p msg startIndex isSequence =
     map_option (\<lambda>(a, i). IntegratedTotalsWithCP24Time2a a [msg ! i, msg ! (i + 1), msg ! (i + 2), msg ! (i + 3), msg ! (i + 4)] (time24_at msg (i + 5)))
       (io_start p msg startIndex isSequence 8)"

definition EventOfProtectionEquipment_getFromBuffer ::
    io_parser where
  "EventOfProtectionEquipment_getFromBuffer p msg startIndex isSequence =
     map_option (\<lambda>(a, i). EventOfProtectionEquipment a (msg ! i) (time16_at msg (i + 1)) (time24_at msg (i + 3)))
       (io_start p msg startIndex isSequence 6)"

definition EventOfProtectionEquipmentWithCP56Time2a_getFromBuffer ::
    io_parser where
  "EventOfProtectionEquipmentWithCP56Time2a_getFromBuffer p msg startIndex isSequence =
     map_option (\<lambda>(a, i). EventOfProtectionEquipmentWithCP56Time2a a (msg ! i) (time16_at msg (i + 1)) (time_at msg (i + 3)))
       (io_start p msg startIndex isSequence 10)"

definition PackedStartEventsOfProtectionEquipment_getFromBuffer ::
    io_parser where
  "PackedStartEventsOfProtectionEquipment_getFromBuffer p msg startIndex isSequence =
     map_option (\<lambda>(a, i). PackedStartEventsOfProtectionEquipment a (msg ! i) (msg ! (i + 1)) (time16_at msg (i + 2)) (time24_at msg (i + 4)))
       (io_start p msg startIndex isSequence 7)"

definition PackedStartEventsOfProtectionEquipmentWithCP56Time2a_getFromBuffer ::
    io_parser where
  "PackedStartEventsOfProtectionEquipmentWithCP56Time2a_getFromBuffer p msg startIndex isSequence =
     map_option (\<lambda>(a, i). PackedStartEventsOfProtectionEquipmentWithCP56Time2a a (msg ! i) (msg ! (i + 1)) (time16_at msg (i + 2)) (time_at msg (i + 4)))
       (io_start p msg startIndex isSequence 11)"

definition PackedOutputCircuitInfo_getFromBuffer ::
    io_parser where
  "PackedOutputCircuitInfo_getFromBuffer p msg startIndex isSequence =
     map_option (\<lambda>(a, i). PackedOutputCircuitInfo a (msg ! i) (msg ! (i + 1)) (time16_at msg (i + 2)) (time24_at msg (i + 4)))
       (io_start p msg startIndex isSequence 7)"

definition PackedOutputCircuitInfoWithCP56Time2a_getFromBuffer ::
    io_parser where
  "PackedOutputCircuitInfoWithCP56Time2a_getFromBuffer p msg startIndex isSequence =
     map_option (\<lambda>(a, i). PackedOutputCircuitInfoWithCP56Time2a a (msg ! i) (msg ! (i + 1)) (time16_at msg (i + 2)) (time_at msg (i + 4)))
       (io_start p msg startIndex isSequence 11)"

definition PackedSinglePointWithSCD_getFromBuffer ::
    io_parser where
  "PackedSinglePointWithSCD_getFromBuffer p msg startIndex isSequence =
     map_option (\<lambda>(a, i). PackedSinglePointWithSCD a [msg ! i, msg ! (i + 1), msg ! (i + 2), msg ! (i + 3)] (msg ! (i + 4)))
       (io_start p msg startIndex isSequence 5)"

definition DoubleCommand_getFromBuffer ::
    "app_layer_params \<Rightarrow> bytes \<Rightarrow> nat \<Rightarrow> information_object option" where
  "DoubleCommand_getFromBuffer p msg startIndex =
     map_option (\<lambda>(a, i). DoubleCommand a (msg ! i))
       (io_start p msg startIndex False 1)"

definition StepCommand_getFromBuffer ::
    "app_layer_params \<Rightarrow> bytes \<Rightarrow> nat \<Rightarrow> information_object option" where
  "StepCommand_getFromBuffer p msg startIndex =
     map_option (\<lambda>(a, i). StepCommand a (msg ! i))
       (io_start p msg startIndex False 1)"

definition SetpointCommandNormalized_getFromBuffer ::
    "app_layer_params \<Rightarrow> bytes \<Rightarrow> nat \<Rightarrow> information_object option" where
  "SetpointCommandNormalized_getFromBuffer p msg startIndex =
     map_option (\<lambda>(a, i). SetpointCommandNormalized a [msg ! i, msg ! (i + 1)] (msg ! (i + 2)))
       (io_start p msg startIndex False 3)"

definition SetpointCommandScaled_getFromBuffer ::
    "app_layer_params \<Rightarrow> bytes \<Rightarrow> nat \<Rightarrow> information_object option" where
  "SetpointCommandScaled_getFromBuffer p msg startIndex =
     map_option (\<lambda>(a, i). SetpointCommandScaled a [msg ! i, msg ! (i + 1)] (msg ! (i + 2)))
       (io_start p msg startIndex False 3)"

definition SingleCommandWithCP56Time2a_getFromBuffer ::
    "app_layer_params \<Rightarrow> bytes \<Rightarrow> nat \<Rightarrow> information_object option" where
  "SingleCommandWithCP56Time2a_getFromBuffer p msg startIndex =
     map_option (\<lambda>(a, i). SingleCommandWithCP56Time2a a (msg ! i) (time_at msg (i + 1)))
       (io_start p msg startIndex False 8)"

definition DoubleCommandWithCP56Time2a_getFromBuffer ::
    "app_layer_params \<Rightarrow> bytes \<Rightarrow> nat \<Rightarrow> information_object option" where
  "DoubleCommandWithCP56Time2a_getFromBuffer p msg startIndex =
     map_option (\<lambda>(a, i). DoubleCommandWithCP56Time2a a (msg ! i) (time_at msg (i + 1)))
       (io_start p msg startIndex False 8)"

definition StepCommandWithCP56Time2a_getFromBuffer ::
    "app_layer_params \<Rightarrow> bytes \<Rightarrow> nat \<Rightarrow> information_object option" where
  "StepCommandWithCP56Time2a_getFromBuffer p msg startIndex =
     map_option (\<lambda>(a, i). StepCommandWithCP56Time2a a (msg ! i) (time_at msg (i + 1)))
       (io_start p msg startIndex False 8)"

definition SetpointCommandNormalizedWithCP56Time2a_getFromBuffer ::
    "app_layer_params \<Rightarrow> bytes \<Rightarrow> nat \<Rightarrow> information_object option" where
  "SetpointCommandNormalizedWithCP56Time2a_getFromBuffer p msg startIndex =
     map_option (\<lambda>(a, i). SetpointCommandNormalizedWithCP56Time2a a [msg ! i, msg ! (i + 1)] (msg ! (i + 2)) (time_at msg (i + 3)))
       (io_start p msg startIndex False 10)"

definition SetpointCommandScaledWithCP56Time2a_getFromBuffer ::
    "app_layer_params \<Rightarrow> bytes \<Rightarrow> nat \<Rightarrow> information_object option" where
  "SetpointCommandScaledWithCP56Time2a_getFromBuffer p msg startIndex =
     map_option (\<lambda>(a, i). SetpointCommandScaledWithCP56Time2a a [msg ! i, msg ! (i + 1)] (msg ! (i + 2)) (time_at msg (i + 3)))
       (io_start p msg startIndex False 10)"

definition SetpointCommandShortWithCP56Time2a_getFromBuffer ::
    "app_layer_params \<Rightarrow> bytes \<Rightarrow> nat \<Rightarrow> information_object option" where
  "SetpointCommandShortWithCP56Time2a_getFromBuffer p msg startIndex =
     map_option (\<lambda>(a, i). SetpointCommandShortWithCP56Time2a a (float_at msg i) (msg ! (i + 4)) (time_at msg (i + 5)))
       (io_start p msg startIndex False 12)"

definition EndOfInitialization_getFromBuffer ::
    "app_layer_params \<Rightarrow> bytes \<Rightarrow> nat \<Rightarrow> information_object option" where
  "EndOfInitialization_getFromBuffer p msg startIndex =
     map_option (\<lambda>(a, i). EndOfInitialization a (msg ! i))
       (io_start p msg startIndex False 1)"

definition CounterInterrogationCommand_getFromBuffer ::
    "app_layer_params \<Rightarrow> bytes \<Rightarrow> nat \<Rightarrow> information_object option" where
  "CounterInterrogationCommand_getFromBuffer p msg startIndex =
     map_option (\<lambda>(a, i). CounterInterrogationCommand a (msg ! i))
       (io_start p msg startIndex False 1)"

definition DelayAcquisitionCommand_getFromBuffer ::
    "app_layer_params \<Rightarrow> bytes \<Rightarrow> nat \<Rightarrow> information_object option" where
  "DelayAcquisitionCommand_getFromBuffer p msg startIndex =
     map_option (\<lambda>(a, i). DelayAcquisitionCommand a (time16_at msg i))
       (io_start p msg startIndex False 2)"

definition ParameterNormalizedValue_getFromBuffer ::
    "app_layer_params \<Rightarrow> bytes \<Rightarrow> nat \<Rightarrow> information_object option" where
  "ParameterNormalizedValue_getFromBuffer p msg startIndex =
     (case MeasuredValueNormalized_getFromBuffer p msg startIndex False of
        Some (MeasuredValueNormalized a ev q) \<Rightarrow> Some (ParameterNormalizedValue a ev q) | _ \<Rightarrow> None)"

definition ParameterScaledValue_getFromBuffer ::
    "app_layer_params \<Rightarrow> bytes \<Rightarrow> nat \<Rightarrow> information_object option" where
  "ParameterScaledValue_getFromBuffer p msg startIndex =
     (case MeasuredValueScaled_getFromBuffer p msg startIndex False of
        Some (MeasuredValueScaled a ev q) \<Rightarrow> Some (ParameterScaledValue a ev q) | _ \<Rightarrow> None)"

definition ParameterFloatValue_getFromBuffer ::
    "app_layer_params \<Rightarrow> bytes \<Rightarrow> nat \<Rightarrow> information_object option" where
  "ParameterFloatValue_getFromBuffer p msg startIndex =
     (case MeasuredValueShort_getFromBuffer p msg startIndex False of
        Some (MeasuredValueShort a v q) \<Rightarrow> Some (ParameterFloatValue a v q) | _ \<Rightarrow> None)"

definition ParameterActivation_getFromBuffer ::
    "app_layer_params \<Rightarrow> bytes \<Rightarrow> nat \<Rightarrow> information_object option" where
  "ParameterActivation_getFromBuffer p msg startIndex =
     map_option (\<lambda>(a, i). ParameterActivation a (msg ! i))
       (io_start p msg startIndex False 1)"

lemmas getFromBuffer_defs =
  SinglePointInformation_getFromBuffer_def
  DoublePointInformation_getFromBuffer_def
  MeasuredValueNormalized_getFromBuffer_def
  MeasuredValueNormalizedWithoutQuality_getFromBuffer_def
  MeasuredValueScaled_getFromBuffer_def
  MeasuredValueShort_getFromBuffer_def
  SinglePointWithCP56Time2a_getFromBuffer_def
  DoublePointWithCP56Time2a_getFromBuffer_def
  MeasuredValueNormalizedWithCP56Time2a_getFromBuffer_def
  MeasuredValueScaledWithCP56Time2a_getFromBuffer_def
  MeasuredValueShortWithCP56Time2a_getFromBuffer_def
  IntegratedTotalsWithCP56Time2a_getFromBuffer_def
  SingleCommand_getFromBuffer_def
  SetpointCommandShort_getFromBuffer_def
  InterrogationCommand_getFromBuffer_def
  ClockSynchronizationCommand_getFromBuffer_def
  ResetProcessCommand_getFromBuffer_def
  SinglePointWithCP24Time2a_getFromBuffer_def DoublePointWithCP24Time2a_getFromBuffer_def
  StepPositionInformation_getFromBuffer_def StepPositionWithCP24Time2a_getFromBuffer_def
  StepPositionWithCP56Time2a_getFromBuffer_def BitString32_getFromBuffer_def
  Bitstring32WithCP24Time2a_getFromBuffer_def Bitstring32WithCP56Time2a_getFromBuffer_def
  MeasuredValueNormalizedWithCP24Time2a_getFromBuffer_def
  MeasuredValueScaledWithCP24Time2a_getFromBuffer_def MeasuredValueShortWithCP24Time2a_getFromBuffer_def
  IntegratedTotals_getFromBuffer_def IntegratedTotalsWithCP24Time2a_getFromBuffer_def
  EventOfProtectionEquipment_getFromBuffer_def EventOfProtectionEquipmentWithCP56Time2a_getFromBuffer_def
  PackedStartEventsOfProtectionEquipment_getFromBuffer_def
  PackedStartEventsOfProtectionEquipmentWithCP56Time2a_getFromBuffer_def
  PackedOutputCircuitInfo_getFromBuffer_def PackedOutputCircuitInfoWithCP56Time2a_getFromBuffer_def
  PackedSinglePointWithSCD_getFromBuffer_def DoubleCommand_getFromBuffer_def
  StepCommand_getFromBuffer_def SetpointCommandNormalized_getFromBuffer_def
  SetpointCommandScaled_getFromBuffer_def SingleCommandWithCP56Time2a_getFromBuffer_def
  DoubleCommandWithCP56Time2a_getFromBuffer_def StepCommandWithCP56Time2a_getFromBuffer_def
  SetpointCommandNormalizedWithCP56Time2a_getFromBuffer_def
  SetpointCommandScaledWithCP56Time2a_getFromBuffer_def
  SetpointCommandShortWithCP56Time2a_getFromBuffer_def EndOfInitialization_getFromBuffer_def
  CounterInterrogationCommand_getFromBuffer_def DelayAcquisitionCommand_getFromBuffer_def
  ParameterNormalizedValue_getFromBuffer_def ParameterScaledValue_getFromBuffer_def
  ParameterFloatValue_getFromBuffer_def ParameterActivation_getFromBuffer_def

end
