(* ===== verification/Effects.thy ===== *)
theory Effects
  imports Asdu
begin

text \<open>
  What the handlers do to the world outside their state, as a trace of actions, and the outcome of
  code that may not return or whose behaviour C leaves undefined. The replies of a connection
  (\<open>_IMasterConnection_sendACT_CON\<close> and \<open>sendACT_TERM\<close> of \<open>cs104/cs104_slave.c\<close>) are built here.
\<close>

section \<open>Outcomes\<close>

text \<open>\<open>Undefined\<close>: undefined behaviour was reached. \<open>Diverges\<close>: the code does not return.\<close>

datatype 'a outcome = Undefined | Diverges | Returns 'a

fun obind :: "'a outcome \<Rightarrow> ('a \<Rightarrow> 'b outcome) \<Rightarrow> 'b outcome" where
  "obind Undefined f = Undefined"
| "obind Diverges f = Diverges"
| "obind (Returns x) f = f x"

fun of_loop :: "'a option \<Rightarrow> 'a outcome" where
  "of_loop None = Diverges"
| "of_loop (Some x) = Returns x"

fun of_defined :: "'a option \<Rightarrow> 'a outcome" where
  "of_defined None = Undefined"
| "of_defined (Some x) = Returns x"

text \<open>One computation per element, in order; the results in order.\<close>

fun traverse :: "('a \<Rightarrow> 'b outcome) \<Rightarrow> 'a list \<Rightarrow> 'b list outcome" where
  "traverse f [] = Returns []"
| "traverse f (x # xs) = obind (f x) (\<lambda>y. obind (traverse f xs) (\<lambda>ys. Returns (y # ys)))"

lemma obind_Returns: "obind m f = Returns y \<longleftrightarrow> (\<exists>x. m = Returns x \<and> f x = Returns y)"
  by (cases m) auto

lemma obindE: assumes "obind m f = Returns y" obtains x where "m = Returns x" "f x = Returns y"
  using assms by (auto simp: obind_Returns)

lemma obind_pairE: assumes "obind m (\<lambda>(a, b). f a b) = Returns y" obtains a b where "m = Returns (a, b)" "f a b = Returns y"
  using assms by (auto simp: obind_Returns)

lemma of_defined_Returns [simp]: "of_defined m = Returns x \<longleftrightarrow> m = Some x"
  by (cases m) auto

lemma traverse_Returns:
  "(\<And>x. x \<in> set xs \<Longrightarrow> f x = Returns (g x)) \<Longrightarrow> traverse f xs = Returns (map g xs)"
  by (induction xs) simp_all

lemma traverse_ex:
  "(\<And>x. x \<in> set xs \<Longrightarrow> \<exists>y. f x = Returns y \<and> P x y) \<Longrightarrow>
     \<exists>ys. traverse f xs = Returns ys \<and> list_all2 P xs ys"
proof (induction xs)
  case (Cons x xs)
  from Cons.prems obtain y where "f x = Returns y" "P x y" by auto
  moreover from Cons obtain ys where "traverse f xs = Returns ys" "list_all2 P xs ys" by auto
  ultimately show ?case by auto
qed simp

lemma traverse_ReturnsD: "traverse f xs = Returns ys \<Longrightarrow> list_all2 (\<lambda>x y. f x = Returns y) xs ys"
  by (induction xs arbitrary: ys) (auto simp: obind_Returns)

section \<open>Actions\<close>

text \<open>A connection is a pointer, compared only for equality.\<close>

type_synonym connection = nat

datatype action =
    SendASDU connection asdu
  | EnqueueASDU asdu
  | Print string

definition COT_PERIODIC :: u8 where "COT_PERIODIC = 1"
definition COT_SPONTANEOUS :: u8 where "COT_SPONTANEOUS = 3"
definition COT_ACTIVATION_CON :: u8 where "COT_ACTIVATION_CON = 7"
definition COT_ACTIVATION_TERMINATION :: u8 where "COT_ACTIVATION_TERMINATION = 10"
definition COT_INTERROGATED_BY_STATION :: u8 where "COT_INTERROGATED_BY_STATION = 20"

lemmas cot_defs = COT_PERIODIC_def COT_SPONTANEOUS_def COT_ACTIVATION_CON_def
  COT_ACTIVATION_TERMINATION_def COT_INTERROGATED_BY_STATION_def

definition sendACT_CON :: "connection \<Rightarrow> asdu \<Rightarrow> bool \<Rightarrow> asdu \<times> action" where
  "sendACT_CON con a negative =
     (let a = CS101_ASDU_setNegative negative (CS101_ASDU_setCOT COT_ACTIVATION_CON a)
      in (a, SendASDU con a))"

definition sendACT_TERM :: "connection \<Rightarrow> asdu \<Rightarrow> asdu \<times> action" where
  "sendACT_TERM con a =
     (let a = CS101_ASDU_setNegative False (CS101_ASDU_setCOT COT_ACTIVATION_TERMINATION a)
      in (a, SendASDU con a))"

text \<open>A reply: the same ASDU with another cause of transmission and P/N bit.\<close>

definition reply_asdu :: "u8 \<Rightarrow> bool \<Rightarrow> asdu \<Rightarrow> asdu" where
  "reply_asdu cot negative a = CS101_ASDU_setNegative negative (CS101_ASDU_setCOT cot a)"

lemma sendACT_simps:
  "sendACT_CON con a n = (reply_asdu COT_ACTIVATION_CON n a, SendASDU con (reply_asdu COT_ACTIVATION_CON n a))"
  "sendACT_TERM con a = (reply_asdu COT_ACTIVATION_TERMINATION False a,
     SendASDU con (reply_asdu COT_ACTIVATION_TERMINATION False a))"
  by (simp_all add: sendACT_CON_def sendACT_TERM_def reply_asdu_def Let_def)

lemma cot_ok_replies [simp]: "cot_ok COT_ACTIVATION_CON" "cot_ok COT_ACTIVATION_TERMINATION"
  by (simp_all add: cot_ok_def cot_defs)

text \<open>A reply differs from the request in the cause and the P/N bit only.\<close>

lemma header_wf_setCOT: "header_wf (CS101_ASDU_setCOT c a) = header_wf a"
  by (simp add: CS101_ASDU_setCOT_def)

lemma header_wf_setNegative: "header_wf (CS101_ASDU_setNegative n a) = header_wf a"
  by (simp add: CS101_ASDU_setNegative_def)

lemma reply_fields:
  assumes "header_wf a" "cot_ok cot"
  shows "CS101_ASDU_getCOT (reply_asdu cot n a) = cot" "CS101_ASDU_isNegative (reply_asdu cot n a) = n"
    "asdu_payload (reply_asdu cot n a) = asdu_payload a"
    "CS101_ASDU_getTypeID (reply_asdu cot n a) = CS101_ASDU_getTypeID a"
    "CS101_ASDU_getCA (reply_asdu cot n a) = CS101_ASDU_getCA a"
    "CS101_ASDU_getNumberOfElements (reply_asdu cot n a) = CS101_ASDU_getNumberOfElements a"
proof -
  show "CS101_ASDU_getCOT (reply_asdu cot n a) = cot" "CS101_ASDU_isNegative (reply_asdu cot n a) = n"
    using cot_negative.both_read_back [OF assms TrueI] by (simp_all add: reply_asdu_def)
  have h: "asdu_header (reply_asdu cot n a) ! i = asdu_header a ! i" if "i \<noteq> 2" for i
    using that assms(1)
    by (simp add: reply_asdu_def CS101_ASDU_setNegative_def CS101_ASDU_setCOT_def header_nth_low)
  have p: "asdu_parameters (reply_asdu cot n a) = asdu_parameters a"
    by (simp add: reply_asdu_def CS101_ASDU_setNegative_def CS101_ASDU_setCOT_def)
  have ca: "caIndex a \<noteq> 2" "caIndex a + 1 \<noteq> 2" "caIndex (reply_asdu cot n a) = caIndex a"
    using assms(1) p by (auto simp: caIndex_def header_wf_def params_ok_def)
  show "CS101_ASDU_getTypeID (reply_asdu cot n a) = CS101_ASDU_getTypeID a"
    "CS101_ASDU_getCA (reply_asdu cot n a) = CS101_ASDU_getCA a"
    "CS101_ASDU_getNumberOfElements (reply_asdu cot n a) = CS101_ASDU_getNumberOfElements a"
    using h p ca by (simp_all add: CS101_ASDU_getTypeID_def CS101_ASDU_getCA_def
        CS101_ASDU_getNumberOfElements_def Let_def)
  show "asdu_payload (reply_asdu cot n a) = asdu_payload a"
    by (simp add: reply_asdu_def CS101_ASDU_setNegative_def CS101_ASDU_setCOT_def)
qed

end
