(* ===== verification/Info_Decoding.thy ===== *)
theory Info_Decoding
  imports Asdu Info_Parsing Effects
begin

text \<open>
  Decoding: the accessors of the received commands, and \<open>CS101_ASDU_getElementEx\<close> of
  \<open>cs101/cs101_asdu.c\<close>, which finds an element of an ASDU by its index. The round trip says that the
  receiver of an ASDU reads back exactly the objects it represents, whatever the mode.
\<close>

section \<open>Accessors of the commands\<close>

text \<open>On the bytes of the command; the handlers cast the object they received.\<close>

definition SingleCommand_getQU :: "u8 \<Rightarrow> int" where
  "SingleCommand_getQU sco = c_div (uint (sco AND 0x7c)) 4"

definition SingleCommand_getState :: "u8 \<Rightarrow> bool" where
  "SingleCommand_getState sco \<longleftrightarrow> sco AND 0x01 = 0x01"

definition SingleCommand_isSelect :: "u8 \<Rightarrow> bool" where
  "SingleCommand_isSelect sco \<longleftrightarrow> sco AND 0x80 = 0x80"

definition SetpointCommandShort_getQL :: "u8 \<Rightarrow> int" where
  "SetpointCommandShort_getQL qos = uint (qos AND 0x7f)"

definition SetpointCommandShort_isSelect :: "u8 \<Rightarrow> bool" where
  "SetpointCommandShort_isSelect qos \<longleftrightarrow> qos AND 0x80 = 0x80"

definition DoubleCommand_getQU :: "u8 \<Rightarrow> int" where
  "DoubleCommand_getQU dcq = c_div (uint (dcq AND 0x7c)) 4"

definition DoubleCommand_getState :: "u8 \<Rightarrow> int" where
  "DoubleCommand_getState dcq = uint (dcq AND 0x03)"

definition DoubleCommand_isSelect :: "u8 \<Rightarrow> bool" where
  "DoubleCommand_isSelect dcq \<longleftrightarrow> dcq AND 0x80 = 0x80"

definition f32_of_int :: "int \<Rightarrow> f32" where
  "f32_of_int i = f32_of (Fin (i < 0) (nat \<bar>i\<bar>) 0)"

definition f32_add :: "f32 \<Rightarrow> f32 \<Rightarrow> f32" where
  "f32_add a b = f32_of (fv_add (f32_val a) (f32_val b))"

definition f32_half :: f32 where "f32_half = 0x3F000000"

definition SetpointCommandNormalized_getValue :: "bytes \<Rightarrow> f32" where
  "SetpointCommandNormalized_getValue ev = f32_div (f32_add (f32_of_int (getScaledValue ev)) f32_half) f32_32767_5"

definition SetpointCommandNormalized_getQL :: "u8 \<Rightarrow> int" where
  "SetpointCommandNormalized_getQL qos = uint (qos AND 0x7f)"

definition SetpointCommandNormalized_isSelect :: "u8 \<Rightarrow> bool" where
  "SetpointCommandNormalized_isSelect qos \<longleftrightarrow> qos AND 0x80 = 0x80"

section \<open>Elements of an ASDU\<close>

fun InformationObject_setObjectAddress :: "int \<Rightarrow> information_object \<Rightarrow> information_object" where
  "InformationObject_setObjectAddress ioa (SinglePointInformation _ x y) = SinglePointInformation ioa x y"
| "InformationObject_setObjectAddress ioa (DoublePointInformation _ x y) = DoublePointInformation ioa x y"
| "InformationObject_setObjectAddress ioa (MeasuredValueNormalized _ x y) = MeasuredValueNormalized ioa x y"
| "InformationObject_setObjectAddress ioa (MeasuredValueNormalizedWithoutQuality _ x) = MeasuredValueNormalizedWithoutQuality ioa x"
| "InformationObject_setObjectAddress ioa (MeasuredValueScaled _ x y) = MeasuredValueScaled ioa x y"
| "InformationObject_setObjectAddress ioa (MeasuredValueShort _ x y) = MeasuredValueShort ioa x y"
| "InformationObject_setObjectAddress ioa (SinglePointWithCP56Time2a _ x y z) = SinglePointWithCP56Time2a ioa x y z"
| "InformationObject_setObjectAddress ioa (DoublePointWithCP56Time2a _ x y z) = DoublePointWithCP56Time2a ioa x y z"
| "InformationObject_setObjectAddress ioa (MeasuredValueNormalizedWithCP56Time2a _ x y z) = MeasuredValueNormalizedWithCP56Time2a ioa x y z"
| "InformationObject_setObjectAddress ioa (MeasuredValueScaledWithCP56Time2a _ x y z) = MeasuredValueScaledWithCP56Time2a ioa x y z"
| "InformationObject_setObjectAddress ioa (MeasuredValueShortWithCP56Time2a _ x y z) = MeasuredValueShortWithCP56Time2a ioa x y z"
| "InformationObject_setObjectAddress ioa (IntegratedTotalsWithCP56Time2a _ x y) = IntegratedTotalsWithCP56Time2a ioa x y"
| "InformationObject_setObjectAddress ioa (SingleCommand _ x) = SingleCommand ioa x"
| "InformationObject_setObjectAddress ioa (SetpointCommandShort _ x y) = SetpointCommandShort ioa x y"
| "InformationObject_setObjectAddress ioa (InterrogationCommand _ x) = InterrogationCommand ioa x"
| "InformationObject_setObjectAddress ioa (ClockSynchronizationCommand _ x) = ClockSynchronizationCommand ioa x"
| "InformationObject_setObjectAddress ioa (ResetProcessCommand _ x) = ResetProcessCommand ioa x"
| "InformationObject_setObjectAddress ioa (SinglePointWithCP24Time2a _ x y z) = SinglePointWithCP24Time2a ioa x y z"
| "InformationObject_setObjectAddress ioa (DoublePointWithCP24Time2a _ x y z) = DoublePointWithCP24Time2a ioa x y z"
| "InformationObject_setObjectAddress ioa (StepPositionInformation _ x y) = StepPositionInformation ioa x y"
| "InformationObject_setObjectAddress ioa (StepPositionWithCP24Time2a _ x y z) = StepPositionWithCP24Time2a ioa x y z"
| "InformationObject_setObjectAddress ioa (StepPositionWithCP56Time2a _ x y z) = StepPositionWithCP56Time2a ioa x y z"
| "InformationObject_setObjectAddress ioa (BitString32 _ x y) = BitString32 ioa x y"
| "InformationObject_setObjectAddress ioa (Bitstring32WithCP24Time2a _ x y z) = Bitstring32WithCP24Time2a ioa x y z"
| "InformationObject_setObjectAddress ioa (Bitstring32WithCP56Time2a _ x y z) = Bitstring32WithCP56Time2a ioa x y z"
| "InformationObject_setObjectAddress ioa (MeasuredValueNormalizedWithCP24Time2a _ x y z) = MeasuredValueNormalizedWithCP24Time2a ioa x y z"
| "InformationObject_setObjectAddress ioa (MeasuredValueScaledWithCP24Time2a _ x y z) = MeasuredValueScaledWithCP24Time2a ioa x y z"
| "InformationObject_setObjectAddress ioa (MeasuredValueShortWithCP24Time2a _ x y z) = MeasuredValueShortWithCP24Time2a ioa x y z"
| "InformationObject_setObjectAddress ioa (IntegratedTotals _ x) = IntegratedTotals ioa x"
| "InformationObject_setObjectAddress ioa (IntegratedTotalsWithCP24Time2a _ x y) = IntegratedTotalsWithCP24Time2a ioa x y"
| "InformationObject_setObjectAddress ioa (EventOfProtectionEquipment _ x y z) = EventOfProtectionEquipment ioa x y z"
| "InformationObject_setObjectAddress ioa (EventOfProtectionEquipmentWithCP56Time2a _ x y z) = EventOfProtectionEquipmentWithCP56Time2a ioa x y z"
| "InformationObject_setObjectAddress ioa (PackedStartEventsOfProtectionEquipment _ x y z w) = PackedStartEventsOfProtectionEquipment ioa x y z w"
| "InformationObject_setObjectAddress ioa (PackedStartEventsOfProtectionEquipmentWithCP56Time2a _ x y z w) = PackedStartEventsOfProtectionEquipmentWithCP56Time2a ioa x y z w"
| "InformationObject_setObjectAddress ioa (PackedOutputCircuitInfo _ x y z w) = PackedOutputCircuitInfo ioa x y z w"
| "InformationObject_setObjectAddress ioa (PackedOutputCircuitInfoWithCP56Time2a _ x y z w) = PackedOutputCircuitInfoWithCP56Time2a ioa x y z w"
| "InformationObject_setObjectAddress ioa (PackedSinglePointWithSCD _ x y) = PackedSinglePointWithSCD ioa x y"
| "InformationObject_setObjectAddress ioa (DoubleCommand _ x) = DoubleCommand ioa x"
| "InformationObject_setObjectAddress ioa (StepCommand _ x) = StepCommand ioa x"
| "InformationObject_setObjectAddress ioa (SetpointCommandNormalized _ x y) = SetpointCommandNormalized ioa x y"
| "InformationObject_setObjectAddress ioa (SetpointCommandScaled _ x y) = SetpointCommandScaled ioa x y"
| "InformationObject_setObjectAddress ioa (SingleCommandWithCP56Time2a _ x y) = SingleCommandWithCP56Time2a ioa x y"
| "InformationObject_setObjectAddress ioa (DoubleCommandWithCP56Time2a _ x y) = DoubleCommandWithCP56Time2a ioa x y"
| "InformationObject_setObjectAddress ioa (StepCommandWithCP56Time2a _ x y) = StepCommandWithCP56Time2a ioa x y"
| "InformationObject_setObjectAddress ioa (SetpointCommandNormalizedWithCP56Time2a _ x y z) = SetpointCommandNormalizedWithCP56Time2a ioa x y z"
| "InformationObject_setObjectAddress ioa (SetpointCommandScaledWithCP56Time2a _ x y z) = SetpointCommandScaledWithCP56Time2a ioa x y z"
| "InformationObject_setObjectAddress ioa (SetpointCommandShortWithCP56Time2a _ x y z) = SetpointCommandShortWithCP56Time2a ioa x y z"
| "InformationObject_setObjectAddress ioa (EndOfInitialization _ x) = EndOfInitialization ioa x"
| "InformationObject_setObjectAddress ioa (CounterInterrogationCommand _ x) = CounterInterrogationCommand ioa x"
| "InformationObject_setObjectAddress ioa (DelayAcquisitionCommand _ x) = DelayAcquisitionCommand ioa x"
| "InformationObject_setObjectAddress ioa (ParameterNormalizedValue _ x y) = ParameterNormalizedValue ioa x y"
| "InformationObject_setObjectAddress ioa (ParameterScaledValue _ x y) = ParameterScaledValue ioa x y"
| "InformationObject_setObjectAddress ioa (ParameterFloatValue _ x y) = ParameterFloatValue ioa x y"
| "InformationObject_setObjectAddress ioa (ParameterActivation _ x) = ParameterActivation ioa x"

text \<open>
  One case of the switch for a monitored type. In a sequence the address is stored into the result of
  the parser without a test for NULL: an element that is not in the payload is undefined behaviour.
\<close>

definition monitored_element :: "io_parser \<Rightarrow> nat \<Rightarrow> asdu \<Rightarrow> nat \<Rightarrow> information_object option outcome" where
  "monitored_element getFromBuffer elementSize a index =
     (let p = asdu_parameters a; msg = asdu_payload a
      in if CS101_ASDU_isSequence a then
           case getFromBuffer p msg (nat (sizeOfIOA p) + index * elementSize) True of
             None \<Rightarrow> Undefined
           | Some io \<Rightarrow> Returns (Some (InformationObject_setObjectAddress
               (InformationObject_ParseObjectAddress p msg 0 + int index) io))
         else Returns (getFromBuffer p msg (index * (nat (sizeOfIOA p) + elementSize)) False))"

text \<open>
  The switch. The types without a constructor here (file transfer, test, read and bit string commands)
  fall under the default case, although the switch knows them.
\<close>

definition CS101_ASDU_getElementEx :: "asdu \<Rightarrow> nat \<Rightarrow> information_object option outcome" where
  "CS101_ASDU_getElementEx a index =
     (let ty = ucast (CS101_ASDU_getTypeID a) :: u32; p = asdu_parameters a; msg = asdu_payload a;
          command = (\<lambda>n. index * (nat (sizeOfIOA p) + n))
      in if ty = M_SP_NA_1 then monitored_element SinglePointInformation_getFromBuffer 1 a index
         else if ty = M_DP_NA_1 then monitored_element DoublePointInformation_getFromBuffer 1 a index
         else if ty = M_ME_NA_1 then monitored_element MeasuredValueNormalized_getFromBuffer 3 a index
         else if ty = M_ME_NB_1 then monitored_element MeasuredValueScaled_getFromBuffer 3 a index
         else if ty = M_ME_NC_1 then monitored_element MeasuredValueShort_getFromBuffer 5 a index
         else if ty = M_ME_ND_1 then monitored_element MeasuredValueNormalizedWithoutQuality_getFromBuffer 2 a index
         else if ty = M_SP_TB_1 then monitored_element SinglePointWithCP56Time2a_getFromBuffer 8 a index
         else if ty = M_DP_TB_1 then monitored_element DoublePointWithCP56Time2a_getFromBuffer 8 a index
         else if ty = M_ME_TD_1 then monitored_element MeasuredValueNormalizedWithCP56Time2a_getFromBuffer 10 a index
         else if ty = M_ME_TE_1 then monitored_element MeasuredValueScaledWithCP56Time2a_getFromBuffer 10 a index
         else if ty = M_ME_TF_1 then monitored_element MeasuredValueShortWithCP56Time2a_getFromBuffer 12 a index
         else if ty = M_IT_TB_1 then monitored_element IntegratedTotalsWithCP56Time2a_getFromBuffer 12 a index
         else if ty = C_SC_NA_1 then Returns (SingleCommand_getFromBuffer p msg (command 1))
         else if ty = C_SE_NC_1 then Returns (SetpointCommandShort_getFromBuffer p msg (command 5))
         else if ty = C_IC_NA_1 then Returns (InterrogationCommand_getFromBuffer p msg 0)
         else if ty = C_CS_NA_1 then Returns (ClockSynchronizationCommand_getFromBuffer p msg 0)
         else if ty = C_RP_NA_1 then Returns (ResetProcessCommand_getFromBuffer p msg 0)
         else if ty = M_SP_TA_1 then monitored_element SinglePointWithCP24Time2a_getFromBuffer 4 a index
         else if ty = M_DP_TA_1 then monitored_element DoublePointWithCP24Time2a_getFromBuffer 4 a index
         else if ty = M_ST_NA_1 then monitored_element StepPositionInformation_getFromBuffer 2 a index
         else if ty = M_ST_TA_1 then monitored_element StepPositionWithCP24Time2a_getFromBuffer 5 a index
         else if ty = M_ST_TB_1 then monitored_element StepPositionWithCP56Time2a_getFromBuffer 9 a index
         else if ty = M_BO_NA_1 then monitored_element BitString32_getFromBuffer 5 a index
         else if ty = M_BO_TA_1 then monitored_element Bitstring32WithCP24Time2a_getFromBuffer 8 a index
         else if ty = M_BO_TB_1 then monitored_element Bitstring32WithCP56Time2a_getFromBuffer 12 a index
         else if ty = M_ME_TA_1 then monitored_element MeasuredValueNormalizedWithCP24Time2a_getFromBuffer 6 a index
         else if ty = M_ME_TB_1 then monitored_element MeasuredValueScaledWithCP24Time2a_getFromBuffer 6 a index
         else if ty = M_ME_TC_1 then monitored_element MeasuredValueShortWithCP24Time2a_getFromBuffer 8 a index
         else if ty = M_IT_NA_1 then monitored_element IntegratedTotals_getFromBuffer 5 a index
         else if ty = M_IT_TA_1 then monitored_element IntegratedTotalsWithCP24Time2a_getFromBuffer 8 a index
         else if ty = M_EP_TA_1 then monitored_element EventOfProtectionEquipment_getFromBuffer 6 a index
         else if ty = M_EP_TD_1 then monitored_element EventOfProtectionEquipmentWithCP56Time2a_getFromBuffer 10 a index
         else if ty = M_EP_TB_1 then monitored_element PackedStartEventsOfProtectionEquipment_getFromBuffer 7 a index
         else if ty = M_EP_TE_1 then monitored_element PackedStartEventsOfProtectionEquipmentWithCP56Time2a_getFromBuffer 11 a index
         else if ty = M_EP_TC_1 then monitored_element PackedOutputCircuitInfo_getFromBuffer 7 a index
         else if ty = M_EP_TF_1 then monitored_element PackedOutputCircuitInfoWithCP56Time2a_getFromBuffer 11 a index
         else if ty = M_PS_NA_1 then monitored_element PackedSinglePointWithSCD_getFromBuffer 5 a index
         else if ty = C_DC_NA_1 then Returns (DoubleCommand_getFromBuffer p msg (command 1))
         else if ty = C_RC_NA_1 then Returns (StepCommand_getFromBuffer p msg (command 1))
         else if ty = C_SE_NA_1 then Returns (SetpointCommandNormalized_getFromBuffer p msg (command 3))
         else if ty = C_SE_NB_1 then Returns (SetpointCommandScaled_getFromBuffer p msg (command 3))
         else if ty = C_SC_TA_1 then Returns (SingleCommandWithCP56Time2a_getFromBuffer p msg (command 8))
         else if ty = C_DC_TA_1 then Returns (DoubleCommandWithCP56Time2a_getFromBuffer p msg (command 8))
         else if ty = C_RC_TA_1 then Returns (StepCommandWithCP56Time2a_getFromBuffer p msg (command 8))
         else if ty = C_SE_TA_1 then Returns (SetpointCommandNormalizedWithCP56Time2a_getFromBuffer p msg (command 10))
         else if ty = C_SE_TB_1 then Returns (SetpointCommandScaledWithCP56Time2a_getFromBuffer p msg (command 10))
         else if ty = C_SE_TC_1 then Returns (SetpointCommandShortWithCP56Time2a_getFromBuffer p msg (command 12))
         else if ty = M_EI_NA_1 then Returns (EndOfInitialization_getFromBuffer p msg 0)
         else if ty = C_CI_NA_1 then Returns (CounterInterrogationCommand_getFromBuffer p msg 0)
         else if ty = C_CD_NA_1 then Returns (DelayAcquisitionCommand_getFromBuffer p msg 0)
         else if ty = P_ME_NA_1 then Returns (ParameterNormalizedValue_getFromBuffer p msg (command 3))
         else if ty = P_ME_NB_1 then Returns (ParameterScaledValue_getFromBuffer p msg (command 3))
         else if ty = P_ME_NC_1 then Returns (ParameterFloatValue_getFromBuffer p msg (command 5))
         else if ty = P_AC_NA_1 then Returns (ParameterActivation_getFromBuffer p msg (command 1))
         else Returns None)"

definition CS101_ASDU_getElement :: "asdu \<Rightarrow> nat \<Rightarrow> information_object option outcome" where
  "CS101_ASDU_getElement a index = CS101_ASDU_getElementEx a index"

section \<open>Reading back what was written\<close>

text \<open>Values that survive the encoding: the quality bits next to a point, two bits of a double point.\<close>

fun io_canonical :: "information_object \<Rightarrow> bool" where
  "io_canonical (SinglePointInformation _ _ q) = (q AND 0xf0 = q)"
| "io_canonical (DoublePointInformation _ v q) = (q AND 0xf0 = q \<and> v < 4)"
| "io_canonical (SinglePointWithCP56Time2a _ _ q _) = (q AND 0xf0 = q)"
| "io_canonical (DoublePointWithCP56Time2a _ v q _) = (q AND 0xf0 = q \<and> v < 4)"
| "io_canonical (SinglePointWithCP24Time2a _ _ q _) = (q AND 0xf0 = q)"
| "io_canonical (DoublePointWithCP24Time2a _ v q _) = (q AND 0xf0 = q \<and> v < 4)"
| "io_canonical _ = True"

fun is_command :: "information_object \<Rightarrow> bool" where
  "is_command (SingleCommand _ _) = True"
| "is_command (SetpointCommandShort _ _ _) = True"
| "is_command (InterrogationCommand _ _) = True"
| "is_command (ClockSynchronizationCommand _ _) = True"
| "is_command (ResetProcessCommand _ _) = True"
| "is_command (DoubleCommand _ _) = True"
| "is_command (StepCommand _ _) = True"
| "is_command (SetpointCommandNormalized _ _ _) = True"
| "is_command (SetpointCommandScaled _ _ _) = True"
| "is_command (SingleCommandWithCP56Time2a _ _ _) = True"
| "is_command (DoubleCommandWithCP56Time2a _ _ _) = True"
| "is_command (StepCommandWithCP56Time2a _ _ _) = True"
| "is_command (SetpointCommandNormalizedWithCP56Time2a _ _ _ _) = True"
| "is_command (SetpointCommandScaledWithCP56Time2a _ _ _ _) = True"
| "is_command (SetpointCommandShortWithCP56Time2a _ _ _ _) = True"
| "is_command (EndOfInitialization _ _) = True"
| "is_command (CounterInterrogationCommand _ _) = True"
| "is_command (DelayAcquisitionCommand _ _) = True"
| "is_command (ParameterNormalizedValue _ _ _) = True"
| "is_command (ParameterScaledValue _ _ _) = True"
| "is_command (ParameterFloatValue _ _ _) = True"
| "is_command (ParameterActivation _ _) = True"
| "is_command _ = False"

text \<open>The six types whose elements are read at the start of the payload, whatever the index.\<close>

definition reads_first :: "information_object \<Rightarrow> bool" where
  "reads_first io \<longleftrightarrow> InformationObject_getType io \<in>
     {C_IC_NA_1, C_CS_NA_1, C_RP_NA_1, M_EI_NA_1, C_CI_NA_1, C_CD_NA_1}"

lemma nth_of_drop: "drop k msg = bs @ rest \<Longrightarrow> j < length bs \<Longrightarrow> msg ! (k + j) = bs ! j"
  by (metis append_is_Nil_conv drop_eq_Nil list.size(3) nat_le_linear not_less_zero nth_append nth_drop)

lemma ParseObjectAddress_layout:
  assumes "params_ok p" "0 \<le> ioa" "ioa < 256 ^ nat (sizeOfIOA p)"
    and "drop i msg = ioa_bytes p ioa @ rest"
  shows "InformationObject_ParseObjectAddress p msg i = ioa"
proof -
  have nth: "msg ! (i + j) = ioa_bytes p ioa ! j" if "j < length (ioa_bytes p ioa)" for j
    using nth_of_drop [OF assms(4) that] .
  from assms(1) consider "sizeOfIOA p = 1" | "sizeOfIOA p = 2" | "sizeOfIOA p = 3"
    by (auto simp: params_ok_def)
  then show ?thesis
    using assms(2,3) nth [of 0] nth [of 1] nth [of 2] three_bytes [of ioa] two_bytes_int [of ioa]
    by cases (simp_all add: InformationObject_ParseObjectAddress_def ioa_bytes_def uint_byte_ioa c_arith
        two_bytes_int three_bytes Let_def)
qed

lemma io_start_layout:
  assumes p: "params_ok p" and io: "io_wf io" "addr_ok p io"
    and msg: "drop i msg = io_layout p s io @ rest"
  defines "k \<equiv> i + (if s then 0 else nat (sizeOfIOA p))"
  shows "io_start p msg i s (body_size (InformationObject_getType io)) =
      Some (if s then 0 else InformationObject_getObjectAddress io, k)"
    and "drop k msg = io_body io @ rest"
proof -
  let ?n = "body_size (InformationObject_getType io)" and ?ioa = "InformationObject_getObjectAddress io"
  have "0 < ?n" by (cases io) simp_all
  then have ne: "io_body io \<noteq> []" using length_io_body [OF io(1)] by auto
  then have "i < length msg" using msg by (cases "i < length msg") (auto simp: io_layout_def)
  then have len: "int (length msg) = int i + int (length (io_layout p s io)) + int (length rest)"
    using arg_cong [OF msg, of length] by simp
  have sz: "length (ioa_bytes p ?ioa) = nat (sizeOfIOA p)" "0 \<le> sizeOfIOA p"
    using length_ioa_bytes [OF p, of ?ioa] by linarith+
  have addr: "InformationObject_ParseObjectAddress p msg i = ?ioa" if "\<not> s"
  proof (rule ParseObjectAddress_layout [OF p])
    show "drop i msg = ioa_bytes p ?ioa @ io_body io @ rest" using msg that by (simp add: io_layout_def)
  qed (use io(2) in \<open>simp_all add: addr_ok_def\<close>)
  show "io_start p msg i s ?n = Some (if s then 0 else ?ioa, k)"
    using len length_io_layout [OF p io(1), of s] addr
    by (simp add: io_start_def k_def Let_def)
  have "drop k msg = drop (k - i) (drop i msg)" by (simp add: k_def add.commute)
  then show "drop k msg = io_body io @ rest"
    using sz unfolding msg by (simp add: k_def io_layout_def split: if_splits)
qed

lemma float_at_layout: "drop k msg = le_bytes 4 v @ rest \<Longrightarrow> float_at msg k = v"
proof -
  assume msg: "drop k msg = le_bytes 4 v @ rest"
  have "[msg ! k, msg ! (k + 1), msg ! (k + 2), msg ! (k + 3)] = le_bytes 4 v"
    using nth_of_drop [OF msg, of 0] nth_of_drop [OF msg, of 1] nth_of_drop [OF msg, of 2]
      nth_of_drop [OF msg, of 3] by (subst le_bytes_4) simp
  then show ?thesis
    unfolding float_at_def by (simp only:) (rule of_le_bytes_inverse, simp)
qed

lemma time_taken:
  assumes "drop k msg = d"
  shows "7 \<le> length d \<Longrightarrow> time_at msg k = take 7 d" "3 \<le> length d \<Longrightarrow> time24_at msg k = take 3 d"
    "2 \<le> length d \<Longrightarrow> time16_at msg k = take 2 d"
  using arg_cong [OF assms, of length] assms
  by (auto simp: time_at_def time24_at_def time16_at_def CP56Time2a_getFromBuffer_def CP24Time2a_getFromBuffer_def
      CP16Time2a_getFromBuffer_def)

lemma uint32_at_float: "uint32_at msg i = float_at msg i"
  by (simp add: uint32_at_def float_at_def algebra_simps)

lemma plus_low_bits: "((q :: u8) AND 0xf0) + (b AND 0x0f) = (q AND 0xf0) OR (b AND 0x0f)"
  by (rule disjunctive_add_eq_or) (simp add: u8_eq_iff bit_simps)

lemma low_bits_of:
  "((q :: u8) AND 0xf0 OR b AND 0x0f) AND 0xf0 = q AND 0xf0"
  "((q :: u8) AND 0xf0 OR b AND 0x0f) AND 0x01 = b AND 0x01"
  "((q :: u8) AND 0xf0 OR b AND 0x0f) AND 0x03 = b AND 0x03"
  by (simp_all add: u8_eq_iff bit_simps)

lemma point_byte:
  "(((q :: u8) AND 0xf0) + of_bool v AND 0x01 = 0x01) = v"
  "((q :: u8) AND 0xf0) + of_bool v AND 0xf0 = q AND 0xf0"
proof -
  have b: "(of_bool v :: u8) AND 0x0f = of_bool v" "((of_bool v :: u8) AND 0x01 = 0x01) = v"
    by (cases v; simp)+
  have "(q AND 0xf0) + of_bool v = q AND 0xf0 OR of_bool v AND 0x0f"
    using plus_low_bits [of q "of_bool v"] by (simp only: b(1))
  then show "((q AND 0xf0) + of_bool v AND 0x01 = 0x01) = v" "(q AND 0xf0) + of_bool v AND 0xf0 = q AND 0xf0"
    by (simp_all only: low_bits_of b(2))
qed

lemma small_word: "(v :: u32) < 4 \<Longrightarrow> v \<in> {0, 1, 2, 3}"
proof -
  assume "v < 4"
  then have "unat v < 4" by (simp add: word_less_nat_alt)
  then have "unat v \<in> {0, 1, 2, 3}" by auto
  then show ?thesis by (auto simp: word_unat_eq_iff)
qed

lemma double_point_byte:
  assumes "(v :: u32) < 4"
  shows "ucast (((q :: u8) AND 0xf0) + ucast v AND 0x03) = v" "((q :: u8) AND 0xf0) + ucast v AND 0xf0 = q AND 0xf0"
proof -
  have b: "(ucast v :: u8) AND 0x0f = ucast v" "ucast ((ucast v :: u8) AND 0x03) = v"
    using small_word [OF assms] by auto
  have "(q AND 0xf0) + ucast v = q AND 0xf0 OR ucast v AND 0x0f"
    using plus_low_bits [of q "ucast v"] by (simp only: b(1))
  then show "ucast ((q AND 0xf0) + ucast v AND 0x03) = v" "(q AND 0xf0) + ucast v AND 0xf0 = q AND 0xf0"
    by (simp_all only: low_bits_of b(2))
qed

lemma canonical_bytes:
  assumes "(q :: u8) AND 0xf0 = q"
  shows "(q + of_bool v AND 0x01 = 0x01) = v" "q + of_bool v AND 0xf0 = q"
    "w < 4 \<Longrightarrow> ucast (q + ucast w AND 0x03) = (w :: u32)" "w < 4 \<Longrightarrow> q + ucast (w :: u32) AND 0xf0 = q"
  using point_byte [of q v] double_point_byte [of w q] by (simp_all only: assms)

text \<open>The parser of a type.\<close>

fun parser_of :: "information_object \<Rightarrow> io_parser" where
  "parser_of (SinglePointInformation _ _ _) = SinglePointInformation_getFromBuffer"
| "parser_of (DoublePointInformation _ _ _) = DoublePointInformation_getFromBuffer"
| "parser_of (MeasuredValueNormalized _ _ _) = MeasuredValueNormalized_getFromBuffer"
| "parser_of (MeasuredValueNormalizedWithoutQuality _ _) = MeasuredValueNormalizedWithoutQuality_getFromBuffer"
| "parser_of (MeasuredValueScaled _ _ _) = MeasuredValueScaled_getFromBuffer"
| "parser_of (MeasuredValueShort _ _ _) = MeasuredValueShort_getFromBuffer"
| "parser_of (SinglePointWithCP56Time2a _ _ _ _) = SinglePointWithCP56Time2a_getFromBuffer"
| "parser_of (DoublePointWithCP56Time2a _ _ _ _) = DoublePointWithCP56Time2a_getFromBuffer"
| "parser_of (MeasuredValueNormalizedWithCP56Time2a _ _ _ _) = MeasuredValueNormalizedWithCP56Time2a_getFromBuffer"
| "parser_of (MeasuredValueScaledWithCP56Time2a _ _ _ _) = MeasuredValueScaledWithCP56Time2a_getFromBuffer"
| "parser_of (MeasuredValueShortWithCP56Time2a _ _ _ _) = MeasuredValueShortWithCP56Time2a_getFromBuffer"
| "parser_of (IntegratedTotalsWithCP56Time2a _ _ _) = IntegratedTotalsWithCP56Time2a_getFromBuffer"
| "parser_of (SingleCommand _ _) = (\<lambda>p msg i s. SingleCommand_getFromBuffer p msg i)"
| "parser_of (SetpointCommandShort _ _ _) = (\<lambda>p msg i s. SetpointCommandShort_getFromBuffer p msg i)"
| "parser_of (InterrogationCommand _ _) = (\<lambda>p msg i s. InterrogationCommand_getFromBuffer p msg i)"
| "parser_of (ClockSynchronizationCommand _ _) = (\<lambda>p msg i s. ClockSynchronizationCommand_getFromBuffer p msg i)"
| "parser_of (ResetProcessCommand _ _) = (\<lambda>p msg i s. ResetProcessCommand_getFromBuffer p msg i)"
| "parser_of (SinglePointWithCP24Time2a _ _ _ _) = SinglePointWithCP24Time2a_getFromBuffer"
| "parser_of (DoublePointWithCP24Time2a _ _ _ _) = DoublePointWithCP24Time2a_getFromBuffer"
| "parser_of (StepPositionInformation _ _ _) = StepPositionInformation_getFromBuffer"
| "parser_of (StepPositionWithCP24Time2a _ _ _ _) = StepPositionWithCP24Time2a_getFromBuffer"
| "parser_of (StepPositionWithCP56Time2a _ _ _ _) = StepPositionWithCP56Time2a_getFromBuffer"
| "parser_of (BitString32 _ _ _) = BitString32_getFromBuffer"
| "parser_of (Bitstring32WithCP24Time2a _ _ _ _) = Bitstring32WithCP24Time2a_getFromBuffer"
| "parser_of (Bitstring32WithCP56Time2a _ _ _ _) = Bitstring32WithCP56Time2a_getFromBuffer"
| "parser_of (MeasuredValueNormalizedWithCP24Time2a _ _ _ _) = MeasuredValueNormalizedWithCP24Time2a_getFromBuffer"
| "parser_of (MeasuredValueScaledWithCP24Time2a _ _ _ _) = MeasuredValueScaledWithCP24Time2a_getFromBuffer"
| "parser_of (MeasuredValueShortWithCP24Time2a _ _ _ _) = MeasuredValueShortWithCP24Time2a_getFromBuffer"
| "parser_of (IntegratedTotals _ _) = IntegratedTotals_getFromBuffer"
| "parser_of (IntegratedTotalsWithCP24Time2a _ _ _) = IntegratedTotalsWithCP24Time2a_getFromBuffer"
| "parser_of (EventOfProtectionEquipment _ _ _ _) = EventOfProtectionEquipment_getFromBuffer"
| "parser_of (EventOfProtectionEquipmentWithCP56Time2a _ _ _ _) = EventOfProtectionEquipmentWithCP56Time2a_getFromBuffer"
| "parser_of (PackedStartEventsOfProtectionEquipment _ _ _ _ _) = PackedStartEventsOfProtectionEquipment_getFromBuffer"
| "parser_of (PackedStartEventsOfProtectionEquipmentWithCP56Time2a _ _ _ _ _) = PackedStartEventsOfProtectionEquipmentWithCP56Time2a_getFromBuffer"
| "parser_of (PackedOutputCircuitInfo _ _ _ _ _) = PackedOutputCircuitInfo_getFromBuffer"
| "parser_of (PackedOutputCircuitInfoWithCP56Time2a _ _ _ _ _) = PackedOutputCircuitInfoWithCP56Time2a_getFromBuffer"
| "parser_of (PackedSinglePointWithSCD _ _ _) = PackedSinglePointWithSCD_getFromBuffer"
| "parser_of (DoubleCommand _ _) = (\<lambda>p msg i s. DoubleCommand_getFromBuffer p msg i)"
| "parser_of (StepCommand _ _) = (\<lambda>p msg i s. StepCommand_getFromBuffer p msg i)"
| "parser_of (SetpointCommandNormalized _ _ _) = (\<lambda>p msg i s. SetpointCommandNormalized_getFromBuffer p msg i)"
| "parser_of (SetpointCommandScaled _ _ _) = (\<lambda>p msg i s. SetpointCommandScaled_getFromBuffer p msg i)"
| "parser_of (SingleCommandWithCP56Time2a _ _ _) = (\<lambda>p msg i s. SingleCommandWithCP56Time2a_getFromBuffer p msg i)"
| "parser_of (DoubleCommandWithCP56Time2a _ _ _) = (\<lambda>p msg i s. DoubleCommandWithCP56Time2a_getFromBuffer p msg i)"
| "parser_of (StepCommandWithCP56Time2a _ _ _) = (\<lambda>p msg i s. StepCommandWithCP56Time2a_getFromBuffer p msg i)"
| "parser_of (SetpointCommandNormalizedWithCP56Time2a _ _ _ _) = (\<lambda>p msg i s. SetpointCommandNormalizedWithCP56Time2a_getFromBuffer p msg i)"
| "parser_of (SetpointCommandScaledWithCP56Time2a _ _ _ _) = (\<lambda>p msg i s. SetpointCommandScaledWithCP56Time2a_getFromBuffer p msg i)"
| "parser_of (SetpointCommandShortWithCP56Time2a _ _ _ _) = (\<lambda>p msg i s. SetpointCommandShortWithCP56Time2a_getFromBuffer p msg i)"
| "parser_of (EndOfInitialization _ _) = (\<lambda>p msg i s. EndOfInitialization_getFromBuffer p msg i)"
| "parser_of (CounterInterrogationCommand _ _) = (\<lambda>p msg i s. CounterInterrogationCommand_getFromBuffer p msg i)"
| "parser_of (DelayAcquisitionCommand _ _) = (\<lambda>p msg i s. DelayAcquisitionCommand_getFromBuffer p msg i)"
| "parser_of (ParameterNormalizedValue _ _ _) = (\<lambda>p msg i s. ParameterNormalizedValue_getFromBuffer p msg i)"
| "parser_of (ParameterScaledValue _ _ _) = (\<lambda>p msg i s. ParameterScaledValue_getFromBuffer p msg i)"
| "parser_of (ParameterFloatValue _ _ _) = (\<lambda>p msg i s. ParameterFloatValue_getFromBuffer p msg i)"
| "parser_of (ParameterActivation _ _) = (\<lambda>p msg i s. ParameterActivation_getFromBuffer p msg i)"

lemma list_of_nth:
  "length xs = 2 \<Longrightarrow> [xs ! 0, xs ! Suc 0] = xs"
  "length xs = 4 \<Longrightarrow> [xs ! 0, xs ! Suc 0, xs ! 2, xs ! 3] = xs"
  "length xs = 5 \<Longrightarrow> [xs ! 0, xs ! Suc 0, xs ! 2, xs ! 3, xs ! 4] = xs"
  "length xs \<in> {2, 3, 4, 5, 7} \<Longrightarrow> (xs = []) = False"
  by (auto simp: numeral_eq_Suc length_Suc_conv)

lemma parse_layout:
  assumes p: "params_ok p" and io: "io_wf io" "addr_ok p io" "io_canonical io"
    and s: "is_command io \<longrightarrow> \<not> s" and msg: "drop i msg = io_layout p s io @ rest"
  shows "parser_of io p msg i s = Some (if s then InformationObject_setObjectAddress 0 io else io)"
proof -
  define k where "k = i + (if s then 0 else nat (sizeOfIOA p))"
  note start = io_start_layout [OF p io(1,2) msg, folded k_def]
  have nth: "msg ! (k + j) = io_body io ! j" if "j < length (io_body io)" for j
    using nth_of_drop [OF start(2) that] .
  have later: "drop (k + j) msg = drop j (io_body io @ rest)" for j
    using start(2) by (metis add.commute drop_drop)
  note at = nth [of 0] nth [of 1] nth [of 2] nth [of 3] nth [of 4]
    time_taken(1,3) [OF start(2)] time_taken [OF later [of 1]] time_taken [OF later [of 2]] time_taken(1,2) [OF later [of 3]]
    time_taken(1,2) [OF later [of 4]] time_taken(1,2) [OF later [of 5]] float_at_layout [of k msg _ "drop 4 (io_body io) @ rest"]
  note at = at [simplified]
  show ?thesis
    using start(1) io s start(2)
    by (cases io) (simp_all add: at getFromBuffer_defs canonical_bytes list_of_nth nth_append uint32_at_float)
qed

text \<open>The type byte of an ASDU selects the parser.\<close>

lemma element_monitored:
  "CS101_ASDU_getTypeID a = type_byte io \<Longrightarrow> \<not> is_command io \<Longrightarrow> CS101_ASDU_getElement a i =
     monitored_element (parser_of io) (body_size (InformationObject_getType io)) a i"
  by (cases io) (simp_all add: CS101_ASDU_getElement_def CS101_ASDU_getElementEx_def type_byte_def type_ids
      body_size_def Let_def)

lemma element_command:
  "CS101_ASDU_getTypeID a = type_byte io \<Longrightarrow> is_command io \<Longrightarrow> CS101_ASDU_getElement a i =
     Returns (parser_of io (asdu_parameters a) (asdu_payload a) (if reads_first io then 0
       else i * (nat (sizeOfIOA (asdu_parameters a)) + body_size (InformationObject_getType io))) False)"
  by (cases io) (simp_all add: CS101_ASDU_getElement_def CS101_ASDU_getElementEx_def type_byte_def type_ids
      reads_first_def body_size_def Let_def)

lemma reads_first_command: "reads_first io \<Longrightarrow> is_command io"
  by (cases io) (simp_all add: reads_first_def type_ids)

lemma type_of_byte: "type_byte io = type_byte io' \<Longrightarrow> InformationObject_getType io = InformationObject_getType io'"
proof -
  have "InformationObject_getType io = ucast (type_byte io)" for io
    by (cases io) (simp_all add: type_byte_def type_ids)
  then show "type_byte io = type_byte io' \<Longrightarrow> InformationObject_getType io = InformationObject_getType io'" by metis
qed

lemma drop_concat:
  assumes "\<And>x. x \<in> set xs \<Longrightarrow> length (f x) = n" "i < length xs"
  shows "drop (i * n) (concat (map f xs)) = f (xs ! i) @ concat (map f (drop (Suc i) xs))"
  using assms
proof (induction xs arbitrary: i)
  case (Cons x xs)
  show ?case
  proof (cases i)
    case (Suc j)
    have "drop (Suc j * n) (f x @ concat (map f xs)) = drop (j * n) (concat (map f xs))"
      using Cons.prems(1) [of x] by simp
    then show ?thesis using Suc Cons.IH [of j] Cons.prems by simp
  qed simp
qed simp

lemma element_position:
  assumes rep: "represents a ios" and i: "i < length ios"
  defines "p \<equiv> asdu_parameters a" and "s \<equiv> CS101_ASDU_isSequence a"
    and "n \<equiv> body_size (InformationObject_getType (ios ! i))"
  shows "\<exists>rest. drop (if s then nat (sizeOfIOA p) + i * n else i * (nat (sizeOfIOA p) + n)) (asdu_payload a)
      = io_layout p s (ios ! i) @ rest"
    and "\<exists>rest. asdu_payload a = ioa_bytes p (InformationObject_getObjectAddress (ios ! 0)) @ rest"
proof -
  have wf: "params_ok p" "list_all io_wf ios" "asdu_payload a = elements_layout p s ios"
    using rep by (simp_all add: represents_def header_wf_def p_def s_def)
  have size: "body_size (InformationObject_getType io) = n" if "io \<in> set ios" for io
  proof -
    have "type_byte io = type_byte (ios ! i)"
      using rep that nth_mem [OF i] unfolding represents_def list_all_iff by metis
    then show ?thesis using type_of_byte [of io "ios ! i"] by (simp add: n_def)
  qed
  have len: "int (length (io_layout p b io)) = (if b then 0 else sizeOfIOA p) + int n" if "io \<in> set ios" for io b
    using length_io_layout [OF wf(1), of io b] wf(2) that size by (simp add: list_all_iff)
  obtain io0 r where ios: "ios = io0 # r" using i by (cases ios) auto
  show "\<exists>rest. asdu_payload a = ioa_bytes p (InformationObject_getObjectAddress (ios ! 0)) @ rest"
    by (simp add: wf(3) ios io_layout_def)
  have sz: "length (ioa_bytes p ioa) = nat (sizeOfIOA p)" "0 \<le> sizeOfIOA p" for ioa
    using length_ioa_bytes [OF wf(1), of ioa] by linarith+
  have l: "length (io_layout p s io) = (if s then n else nat (sizeOfIOA p) + n)" if "io \<in> set ios" for io
    using len [OF that, of s] sz(2) by (cases s) auto
  have "elements_layout p s ios = (if s then ioa_bytes p (InformationObject_getObjectAddress io0) else [])
      @ concat (map (io_layout p s) ios)"
    by (simp add: ios io_layout_def)
  moreover have "drop (i * (if s then n else nat (sizeOfIOA p) + n)) (concat (map (io_layout p s) ios))
      = io_layout p s (ios ! i) @ concat (map (io_layout p s) (drop (Suc i) ios))"
    by (rule drop_concat [OF l i])
  ultimately show "\<exists>rest. drop (if s then nat (sizeOfIOA p) + i * n else i * (nat (sizeOfIOA p) + n)) (asdu_payload a)
      = io_layout p s (ios ! i) @ rest"
    using sz by (cases s) (simp_all add: wf(3))
qed

lemma setObjectAddress_simps [simp]:
  "InformationObject_setObjectAddress x (InformationObject_setObjectAddress y io) = InformationObject_setObjectAddress x io"
  "InformationObject_setObjectAddress (InformationObject_getObjectAddress io) io = io"
  by (cases io; simp)+

lemma element_of_monitored:
  assumes rep: "represents a ios" and i: "i < length ios" and can: "io_canonical (ios ! i)"
    and cmd: "\<not> is_command (ios ! i)"
    and addr: "CS101_ASDU_isSequence a \<Longrightarrow>
      InformationObject_getObjectAddress (ios ! i) = InformationObject_getObjectAddress (ios ! 0) + int i"
  shows "CS101_ASDU_getElement a i = Returns (Some (ios ! i))"
proof -
  let ?p = "asdu_parameters a" and ?s = "CS101_ASDU_isSequence a"
  have ty: "CS101_ASDU_getTypeID a = type_byte (ios ! i)"
    and wf: "params_ok ?p" "io_wf (ios ! i)" "addr_ok ?p (ios ! i)" "addr_ok ?p (ios ! 0)"
    using rep i order.strict_trans1 [OF le0 i] by (simp_all add: represents_def header_wf_def list_all_length)
  obtain rest0 where rest0: "asdu_payload a = ioa_bytes ?p (InformationObject_getObjectAddress (ios ! 0)) @ rest0"
    using element_position(2) [OF rep i] by blast
  have "InformationObject_ParseObjectAddress ?p (asdu_payload a) 0 = InformationObject_getObjectAddress (ios ! 0)"
    using wf(4) rest0 by (intro ParseObjectAddress_layout [OF wf(1)]) (simp_all add: addr_ok_def)
  moreover obtain rest where rest: "drop (if ?s then nat (sizeOfIOA ?p) + i * body_size (InformationObject_getType (ios ! i))
        else i * (nat (sizeOfIOA ?p) + body_size (InformationObject_getType (ios ! i)))) (asdu_payload a)
      = io_layout ?p ?s (ios ! i) @ rest"
    using element_position(1) [OF rep i] by blast
  ultimately show ?thesis
    using parse_layout [OF wf(1-3) can _ rest] addr cmd
    unfolding element_monitored [OF ty cmd] monitored_element_def Let_def
    by (cases ?s) (simp_all flip: addr)
qed

lemma element_out_of_range:
  assumes rep: "represents a ios" and i: "length ios \<le> i" and ne: "ios \<noteq> []" and cmd: "\<not> is_command (ios ! 0)"
  shows "CS101_ASDU_getElement a i = (if CS101_ASDU_isSequence a then Undefined else Returns None)"
proof -
  let ?p = "asdu_parameters a" and ?s = "CS101_ASDU_isSequence a"
    and ?n = "body_size (InformationObject_getType (ios ! 0))"
  have p: "params_ok ?p" and ios: "list_all io_wf ios" and pl: "asdu_payload a = elements_layout ?p ?s ios"
    and ty: "CS101_ASDU_getTypeID a = type_byte (ios ! 0)"
    using rep ne by (simp_all add: represents_def header_wf_def list_all_length)
  have "body_size (InformationObject_getType io) = ?n" if "io \<in> set ios" for io
  proof -
    have "type_byte io = type_byte (ios ! 0)"
      using rep that ty unfolding represents_def list_all_iff by metis
    then show ?thesis using type_of_byte [of io "ios ! 0"] by simp
  qed
  then have len: "int (length (asdu_payload a)) =
      (if ?s then sizeOfIOA ?p + int (length ios * ?n) else int (length ios) * (sizeOfIOA ?p + int ?n))"
    unfolding pl by (intro length_elements_layout [OF p ios ne]) (simp add: list_all_iff)
  have n: "0 < ?n" by (cases "ios ! 0") simp_all
  have "length ios * ?n < i * ?n + ?n" "length ios * (nat (sizeOfIOA ?p) + ?n) < i * (nat (sizeOfIOA ?p) + ?n) + ?n + nat (sizeOfIOA ?p)"
    using mult_le_mono1 [OF i, of ?n] mult_le_mono1 [OF i, of "nat (sizeOfIOA ?p) + ?n"] n by linarith+
  moreover have "sizeOfIOA ?p = int (nat (sizeOfIOA ?p))" using p by (auto simp: params_ok_def)
  ultimately have short: "int (length (asdu_payload a)) <
      int (if ?s then nat (sizeOfIOA ?p) + i * ?n else i * (nat (sizeOfIOA ?p) + ?n)) + int ?n
        + (if ?s then 0 else sizeOfIOA ?p)"
    unfolding len by (smt (verit) of_nat_add of_nat_less_iff of_nat_mult)
  have none: "parser_of (ios ! 0) ?p (asdu_payload a)
      (if ?s then nat (sizeOfIOA ?p) + i * ?n else i * (nat (sizeOfIOA ?p) + ?n)) ?s = None"
    using short cmd by (cases "ios ! 0") (auto simp: getFromBuffer_defs io_start_def Let_def)
  show ?thesis
    using none unfolding element_monitored [OF ty cmd] monitored_element_def Let_def by (cases ?s) simp_all
qed

lemma element_of_commands:
  assumes rep: "represents a ios" and i: "i < length ios" and can: "list_all io_canonical ios"
    and cmd: "is_command (ios ! i)" and s: "\<not> CS101_ASDU_isSequence a"
  shows "CS101_ASDU_getElement a i = Returns (Some (if reads_first (ios ! i) then ios ! 0 else ios ! i))"
proof -
  let ?p = "asdu_parameters a"
  have ne: "0 < length ios" using i by linarith
  have io: "CS101_ASDU_getTypeID a = type_byte (ios ! j)" "params_ok ?p" "io_wf (ios ! j)" "addr_ok ?p (ios ! j)"
    "io_canonical (ios ! j)" if "j < length ios" for j
    using rep can that by (simp_all add: represents_def header_wf_def list_all_length)
  have same: "reads_first (ios ! 0) = reads_first (ios ! i)"
    using io(1) [OF i] io(1) [OF ne] type_of_byte [of "ios ! 0" "ios ! i"] by (simp add: reads_first_def)
  show ?thesis
  proof (cases "reads_first (ios ! i)")
    case True
    obtain rest where rest: "drop 0 (asdu_payload a) = io_layout ?p False (ios ! 0) @ rest"
      using element_position(1) [OF rep ne] s by auto
    show ?thesis
      using parse_layout [OF io(2-5) _ rest] element_command [OF io(1), of 0 i] ne True same
        reads_first_command [of "ios ! 0"] by simp
  next
    case False
    obtain rest where "drop (i * (nat (sizeOfIOA ?p) + body_size (InformationObject_getType (ios ! i)))) (asdu_payload a) =
        io_layout ?p False (ios ! i) @ rest"
      using element_position(1) [OF rep i] s by auto
    then show ?thesis
      using parse_layout [OF io(2-5) [OF i], of False] element_command [OF io(1) [OF i] cmd, of i] False by simp
  qed
qed

lemma element_of_command:
  assumes rep: "represents a [io]" and cmd: "is_command io" and can: "io_canonical io"
  shows "CS101_ASDU_getElement a 0 = Returns (Some io)"
proof -
  let ?p = "asdu_parameters a"
  have ty: "CS101_ASDU_getTypeID a = type_byte io" and wf: "params_ok ?p" "io_wf io" "addr_ok ?p io"
    and pl: "drop 0 (asdu_payload a) = io_layout ?p False io @ []"
    using rep by (simp_all add: represents_def header_wf_def)
  show ?thesis
    using parse_layout [OF wf can _ pl] element_command [OF ty cmd, of 0] by simp
qed

text \<open>A command that is cut off gives NULL.\<close>

lemma element_of_short_command:
  assumes "CS101_ASDU_getTypeID a \<in> {45, 50, 105}" "int (length (asdu_payload a)) < sizeOfIOA (asdu_parameters a) + 1"
  shows "CS101_ASDU_getElement a 0 = Returns None"
  using assms by (auto simp: CS101_ASDU_getElement_def CS101_ASDU_getElementEx_def getFromBuffer_defs io_start_def
      type_ids Let_def)

section \<open>Properties\<close>

text \<open>
  C10: the receiver of an ASDU decodes the information objects the sender put in, in order and with their
  addresses: monitored objects in both modes, commands in individual mode. Only bits the encoding has no room for
  must be zero. Of the six types that \<open>CS101_ASDU_getElement\<close> reads without looking at the index every element
  comes out as the first one.
\<close>

theorem asdu_roundtrip:
  assumes "represents a ios" "uniform (CS101_ASDU_isSequence a) ios" "list_all io_canonical ios"
    and "list_all (\<lambda>io. is_command io \<longrightarrow> \<not> CS101_ASDU_isSequence a) ios"
  shows "map (CS101_ASDU_getElement a) [0..<CS101_ASDU_getNumberOfElements a] =
    map (\<lambda>io. Returns (Some (if reads_first io then ios ! 0 else io))) ios"
proof (rule nth_equalityI)
  have n: "CS101_ASDU_getNumberOfElements a = length ios" using assms(1) by (simp add: represents_def)
  then show "length (map (CS101_ASDU_getElement a) [0..<CS101_ASDU_getNumberOfElements a]) =
      length (map (\<lambda>io. Returns (Some (if reads_first io then ios ! 0 else io))) ios)" by simp
  fix i assume "i < length (map (CS101_ASDU_getElement a) [0..<CS101_ASDU_getNumberOfElements a])"
  then have i: "i < length ios" by (simp add: n)
  have "CS101_ASDU_getElement a i = Returns (Some (if reads_first (ios ! i) then ios ! 0 else ios ! i))"
  proof (cases "is_command (ios ! i)")
    case True
    then show ?thesis
      using assms i by (intro element_of_commands) (auto simp: list_all_length)
  next
    case False
    then have "CS101_ASDU_getElement a i = Returns (Some (ios ! i))"
      using assms i by (intro element_of_monitored) (auto simp: list_all_length uniform_def)
    then show ?thesis using False reads_first_command [of "ios ! i"] by auto
  qed
  then show "map (CS101_ASDU_getElement a) [0..<CS101_ASDU_getNumberOfElements a] ! i =
      map (\<lambda>io. Returns (Some (if reads_first io then ios ! 0 else io))) ios ! i"
    using i by (simp add: n)
qed

definition demo_objects :: "information_object list" where
  "demo_objects = [SinglePointInformation 100 True 0x80, SinglePointInformation 101 False 0,
     SinglePointInformation 102 True 0]"

definition demo_sequence :: asdu where
  "demo_sequence = add_all demo_objects (CS101_ASDU_create defaultAppLayerParameters True 20 0 1 False False)"

lemma add_all_mode:
  assumes "represents a acc" "list_all io_wf ios" "list_all (addr_ok (asdu_parameters a)) ios"
  shows "CS101_ASDU_isSequence (add_all ios a) = CS101_ASDU_isSequence a"
  using assms
proof (induction ios arbitrary: a acc)
  case (Cons io ios)
  let ?acc = "if accepts (asdu_parameters a) (CS101_ASDU_isSequence a) acc io then acc @ [io] else acc"
  obtain ok a' where r: "CS101_ASDU_addInformationObject a io = (ok, a')" by fastforce
  have "represents a' ?acc \<and> CS101_ASDU_isSequence a' = CS101_ASDU_isSequence a \<and>
      asdu_parameters a' = asdu_parameters a"
    using add_refines_append [of a acc io ok a'] add_refines_reject [of a acc io ok a'] Cons.prems r by simp
  then show ?case using Cons.IH [of a' ?acc] Cons.prems r by (simp add: add_all_def)
qed (simp add: add_all_def)

lemma demo_sequence_facts:
  "represents demo_sequence demo_objects" "CS101_ASDU_isSequence demo_sequence"
  "uniform True demo_objects"
proof -
  have u: "uniform True demo_objects"
    by (auto simp: uniform_def demo_objects_def type_byte_def nth_Cons' numeral_eq_Suc)
  then show "uniform True demo_objects" .
  have t: "taken defaultAppLayerParameters True [] demo_objects = demo_objects"
    by (subst taken_uniform) (use u in \<open>simp_all add: fits_def demo_objects_def io_layout_def ioa_bytes_def
        asduHeaderLength_def\<close>)
  show "represents demo_sequence demo_objects"
    using add_all_refines [OF represents_create [OF default_params_ok], of demo_objects True 20 0 1 False False] t
    by (simp add: demo_sequence_def demo_objects_def addr_ok_def)
  show "CS101_ASDU_isSequence demo_sequence"
    unfolding demo_sequence_def
    by (subst add_all_mode [OF represents_create [OF default_params_ok]]) (simp_all add: demo_objects_def addr_ok_def)
qed

text \<open>Two commands, decoded one by one, and two interrogations, of which the second is never seen.\<close>

definition individual_asdu :: "information_object list \<Rightarrow> asdu" where
  "individual_asdu ios = add_all ios (CS101_ASDU_create defaultAppLayerParameters False 6 0 1 False False)"

lemma individual_asdu_facts:
  assumes "uniform False ios" "fits defaultAppLayerParameters False ios" "list_all io_wf ios"
    "list_all (addr_ok defaultAppLayerParameters) ios" "length ios \<le> 127"
  shows "represents (individual_asdu ios) ios" "\<not> CS101_ASDU_isSequence (individual_asdu ios)"
proof -
  have "taken defaultAppLayerParameters False [] ios = ios"
    using taken_uniform [of False "[]" ios defaultAppLayerParameters] assms by simp
  then show "represents (individual_asdu ios) ios"
    using add_all_refines [OF represents_create [OF default_params_ok], of ios False 6 0 1 False False] assms(3,4)
    by (simp add: individual_asdu_def)
  show "\<not> CS101_ASDU_isSequence (individual_asdu ios)"
    using add_all_mode [OF represents_create [OF default_params_ok] assms(3)] assms(4)
    by (simp add: individual_asdu_def)
qed

definition demo_commands :: "information_object list" where
  "demo_commands = [SingleCommand 20 0x01, SingleCommand 21 0x80]"

definition demo_interrogations :: "information_object list" where
  "demo_interrogations = [InterrogationCommand 0 20, InterrogationCommand 0 21]"

lemma demo_commands_facts:
  "uniform False demo_commands" "uniform False demo_interrogations"
  "represents (individual_asdu demo_commands) demo_commands" "\<not> CS101_ASDU_isSequence (individual_asdu demo_commands)"
  "represents (individual_asdu demo_interrogations) demo_interrogations"
  "\<not> CS101_ASDU_isSequence (individual_asdu demo_interrogations)"
proof -
  have u: "uniform False demo_commands" "uniform False demo_interrogations"
    by (auto simp: uniform_def demo_commands_def demo_interrogations_def type_byte_def nth_Cons' numeral_eq_Suc)
  then show "uniform False demo_commands" "uniform False demo_interrogations" .
  show "represents (individual_asdu demo_commands) demo_commands" "\<not> CS101_ASDU_isSequence (individual_asdu demo_commands)"
    "represents (individual_asdu demo_interrogations) demo_interrogations"
    "\<not> CS101_ASDU_isSequence (individual_asdu demo_interrogations)"
    using individual_asdu_facts [OF u(1)] individual_asdu_facts [OF u(2)]
    by (simp_all add: demo_commands_def demo_interrogations_def fits_def io_layout_def ioa_bytes_def asduHeaderLength_def addr_ok_def)
qed

theorem asdu_roundtrip_witness:
  "map (CS101_ASDU_getElement demo_sequence) [0..<CS101_ASDU_getNumberOfElements demo_sequence] =
     map (\<lambda>io. Returns (Some io)) demo_objects \<and>
   map (CS101_ASDU_getElement (individual_asdu demo_commands)) [0..<CS101_ASDU_getNumberOfElements (individual_asdu demo_commands)] =
     map (\<lambda>io. Returns (Some io)) demo_commands \<and>
   map (CS101_ASDU_getElement (individual_asdu demo_interrogations))
       [0..<CS101_ASDU_getNumberOfElements (individual_asdu demo_interrogations)] =
     [Returns (Some (InterrogationCommand 0 20)), Returns (Some (InterrogationCommand 0 20))]"
  using asdu_roundtrip [OF demo_sequence_facts(1)] demo_sequence_facts(2,3)
    asdu_roundtrip [OF demo_commands_facts(3)] asdu_roundtrip [OF demo_commands_facts(5)] demo_commands_facts
  by (simp add: demo_objects_def demo_commands_def demo_interrogations_def reads_first_def type_ids)

text \<open>
  An index beyond the elements of an ASDU is answered with NULL in individual mode, but in sequence
  mode the address is stored through the NULL pointer: undefined behaviour.
\<close>

theorem element_beyond_end:
  assumes "represents a ios" "length ios \<le> i" "ios \<noteq> []" "\<not> is_command (ios ! 0)"
  shows "CS101_ASDU_getElement a i = (if CS101_ASDU_isSequence a then Undefined else Returns None)"
  using assms by (rule element_out_of_range)

theorem element_beyond_end_witness: "CS101_ASDU_getElement demo_sequence 3 = Undefined"
  using element_beyond_end [OF demo_sequence_facts(1), of 3] demo_sequence_facts(2)
  by (simp add: demo_objects_def)

end
