(* ===== verification/Data_Types.thy ===== *)
theory Data_Types
  imports Info_Encoding
begin

text \<open>
  The generic data type system of the server (\<open>json-iec104-server/src/data/data_types.h\<close> and \<open>.c\<close>):
  the value container, the table that describes the ten supported types, and the lookups in it.
\<close>

section \<open>Values\<close>

datatype data_value_type =
    DATA_VALUE_TYPE_BOOL
  | DATA_VALUE_TYPE_DOUBLE_POINT
  | DATA_VALUE_TYPE_INT16
  | DATA_VALUE_TYPE_UINT32
  | DATA_VALUE_TYPE_FLOAT

text \<open>
  The union is its four bytes, read and written through the member accessors below. The member
  \<open>timestamp\<close> has the type \<open>CP56Time2a\<close> of the library, which is a pointer: eight bytes of address.
\<close>

record data_value =
  dv_type :: data_value_type
  dv_value :: u32
  dv_quality :: u8
  dv_has_quality :: bool
  dv_timestamp :: u64
  dv_has_timestamp :: bool

definition bool_val :: "data_value \<Rightarrow> bool" where
  "bool_val d \<longleftrightarrow> (ucast (dv_value d) :: u8) \<noteq> 0"

definition dp_val :: "data_value \<Rightarrow> u32" where
  "dp_val d = dv_value d"

definition int16_val :: "data_value \<Rightarrow> int" where
  "int16_val d = sint (ucast (dv_value d) :: u16)"

definition uint32_val :: "data_value \<Rightarrow> u32" where
  "uint32_val d = dv_value d"

definition float_val :: "data_value \<Rightarrow> f32" where
  "float_val d = dv_value d"

text \<open>A write to a narrow member leaves the other bytes of the union as they are.\<close>

definition set_bool_val :: "bool \<Rightarrow> data_value \<Rightarrow> data_value" where
  "set_bool_val b d = d\<lparr>dv_value := (dv_value d AND 0xFFFFFF00) OR of_bool b\<rparr>"

definition set_dp_val :: "u32 \<Rightarrow> data_value \<Rightarrow> data_value" where
  "set_dp_val v d = d\<lparr>dv_value := v\<rparr>"

definition set_int16_val :: "u16 \<Rightarrow> data_value \<Rightarrow> data_value" where
  "set_int16_val v d = d\<lparr>dv_value := (dv_value d AND 0xFFFF0000) OR ucast v\<rparr>"

definition set_uint32_val :: "u32 \<Rightarrow> data_value \<Rightarrow> data_value" where
  "set_uint32_val v d = d\<lparr>dv_value := v\<rparr>"

definition set_float_val :: "f32 \<Rightarrow> data_value \<Rightarrow> data_value" where
  "set_float_val v d = d\<lparr>dv_value := v\<rparr>"

lemmas union_defs = bool_val_def dp_val_def int16_val_def uint32_val_def float_val_def
  set_bool_val_def set_dp_val_def set_int16_val_def set_uint32_val_def set_float_val_def

text \<open>All bytes zero, as \<open>memset\<close> and \<open>calloc\<close> leave it.\<close>

definition zero_value :: data_value where
  "zero_value = \<lparr>dv_type = DATA_VALUE_TYPE_BOOL, dv_value = 0, dv_quality = 0,
     dv_has_quality = False, dv_timestamp = 0, dv_has_timestamp = False\<rparr>"

section \<open>Quality descriptors and double points\<close>

definition QUALITY_GOOD :: u8 where "QUALITY_GOOD = 0"
definition QUALITY_OVERFLOW :: u8 where "QUALITY_OVERFLOW = 0x01"
definition QUALITY_RESERVED :: u8 where "QUALITY_RESERVED = 0x04"
definition QUALITY_ELAPSED_TIME_INVALID :: u8 where "QUALITY_ELAPSED_TIME_INVALID = 0x08"
definition QUALITY_BLOCKED :: u8 where "QUALITY_BLOCKED = 0x10"
definition QUALITY_SUBSTITUTED :: u8 where "QUALITY_SUBSTITUTED = 0x20"
definition QUALITY_NON_TOPICAL :: u8 where "QUALITY_NON_TOPICAL = 0x40"
definition QUALITY_INVALID :: u8 where "QUALITY_INVALID = 0x80"

definition DOUBLE_POINT_INDETERMINATE :: u32 where "DOUBLE_POINT_INDETERMINATE = 3"

lemmas quality_defs = QUALITY_GOOD_def QUALITY_OVERFLOW_def QUALITY_RESERVED_def
  QUALITY_ELAPSED_TIME_INVALID_def QUALITY_BLOCKED_def QUALITY_SUBSTITUTED_def
  QUALITY_NON_TOPICAL_def QUALITY_INVALID_def

text \<open>\<open>parse_qualifier_from_string\<close>; None is the NULL pointer.\<close>

definition parse_qualifier_from_string :: "string option \<Rightarrow> u8" where
  "parse_qualifier_from_string str =
     (case str of None \<Rightarrow> QUALITY_GOOD
      | Some s \<Rightarrow>
          if s = ''IEC60870_QUALITY_GOOD'' then QUALITY_GOOD
          else if s = ''IEC60870_QUALITY_INVALID'' then QUALITY_INVALID
          else if s = ''IEC60870_QUALITY_OVERFLOW'' then QUALITY_OVERFLOW
          else if s = ''IEC60870_QUALITY_RESERVED'' then QUALITY_RESERVED
          else if s = ''IEC60870_QUALITY_ELAPSED_TIME_INVALID'' then QUALITY_ELAPSED_TIME_INVALID
          else if s = ''IEC60870_QUALITY_BLOCKED'' then QUALITY_BLOCKED
          else if s = ''IEC60870_QUALITY_SUBSTITUTED'' then QUALITY_SUBSTITUTED
          else if s = ''IEC60870_QUALITY_NON_TOPICAL'' then QUALITY_NON_TOPICAL
          else QUALITY_GOOD)"

section \<open>The type table\<close>

record data_type_info =
  dti_type_id :: u32
  dti_name :: string
  dti_value_type :: data_value_type
  dti_has_time_tag :: bool
  dti_has_quality :: bool
  dti_io_size :: int
  dti_offline_equivalent :: u32

definition dti :: "u32 \<Rightarrow> string \<Rightarrow> data_value_type \<Rightarrow> bool \<Rightarrow> bool \<Rightarrow> int \<Rightarrow> u32 \<Rightarrow> data_type_info" where
  "dti ty name vt time q sz offl = \<lparr>dti_type_id = ty, dti_name = name, dti_value_type = vt,
     dti_has_time_tag = time, dti_has_quality = q, dti_io_size = sz, dti_offline_equivalent = offl\<rparr>"

definition DATA_TYPE_TABLE :: "data_type_info list" where
  "DATA_TYPE_TABLE =
    [dti M_SP_TB_1 ''M_SP_TB_1'' DATA_VALUE_TYPE_BOOL True True 11 M_SP_TB_1,
     dti M_DP_TB_1 ''M_DP_TB_1'' DATA_VALUE_TYPE_DOUBLE_POINT True True 11 M_DP_TB_1,
     dti M_ME_TD_1 ''M_ME_TD_1'' DATA_VALUE_TYPE_FLOAT True True 13 M_ME_TD_1,
     dti M_IT_TB_1 ''M_IT_TB_1'' DATA_VALUE_TYPE_UINT32 True False 15 M_IT_TB_1,
     dti M_SP_NA_1 ''M_SP_NA_1'' DATA_VALUE_TYPE_BOOL False True 4 M_SP_TB_1,
     dti M_DP_NA_1 ''M_DP_NA_1'' DATA_VALUE_TYPE_DOUBLE_POINT False True 4 M_DP_TB_1,
     dti M_ME_NA_1 ''M_ME_NA_1'' DATA_VALUE_TYPE_FLOAT False True 6 M_ME_TD_1,
     dti M_ME_NB_1 ''M_ME_NB_1'' DATA_VALUE_TYPE_INT16 False True 6 M_ME_TB_1,
     dti M_ME_NC_1 ''M_ME_NC_1'' DATA_VALUE_TYPE_FLOAT False True 8 M_ME_TF_1,
     dti M_ME_ND_1 ''M_ME_ND_1'' DATA_VALUE_TYPE_FLOAT False False 5 0]"

definition DATA_TYPE_COUNT :: nat where
  "DATA_TYPE_COUNT = length DATA_TYPE_TABLE"

definition get_data_type_info :: "u32 \<Rightarrow> data_type_info option" where
  "get_data_type_info type_id =
     map_option ((!) DATA_TYPE_TABLE) (first_index (\<lambda>i. dti_type_id i = type_id) DATA_TYPE_TABLE)"

definition get_data_type_info_by_name :: "string option \<Rightarrow> data_type_info option" where
  "get_data_type_info_by_name name =
     (case name of None \<Rightarrow> None
      | Some s \<Rightarrow>
          map_option ((!) DATA_TYPE_TABLE) (first_index (\<lambda>i. dti_name i = s) DATA_TYPE_TABLE))"

definition parse_type_id_from_string :: "string option \<Rightarrow> u32" where
  "parse_type_id_from_string str =
     (case get_data_type_info_by_name str of Some info \<Rightarrow> dti_type_id info | None \<Rightarrow> 0)"

definition type_id_to_string :: "u32 \<Rightarrow> string" where
  "type_id_to_string type_id =
     (case get_data_type_info type_id of Some info \<Rightarrow> dti_name info | None \<Rightarrow> ''UNKNOWN'')"

lemmas table_defs = DATA_TYPE_TABLE_def dti_def

lemma data_type_count [simp]: "DATA_TYPE_COUNT = 10"
  by (simp add: DATA_TYPE_COUNT_def DATA_TYPE_TABLE_def)

lemma length_table [simp]: "length DATA_TYPE_TABLE = 10"
  by (simp add: DATA_TYPE_TABLE_def)

section \<open>Facts on the table\<close>

lemma table_types_distinct: "distinct (map dti_type_id DATA_TYPE_TABLE)"
  by (simp add: table_defs type_ids)

lemma table_names_distinct: "distinct (map dti_name DATA_TYPE_TABLE)"
  by (simp add: table_defs)

lemma get_data_type_info_nth:
  "i < 10 \<Longrightarrow> get_data_type_info (dti_type_id (DATA_TYPE_TABLE ! i)) = Some (DATA_TYPE_TABLE ! i)"
  unfolding get_data_type_info_def
  by (subst first_index_distinct [OF table_types_distinct]) simp_all

lemma get_data_type_info_by_name_nth:
  "i < 10 \<Longrightarrow> get_data_type_info_by_name (Some (dti_name (DATA_TYPE_TABLE ! i))) = Some (DATA_TYPE_TABLE ! i)"
  unfolding get_data_type_info_by_name_def option.case
  by (subst first_index_distinct [OF table_names_distinct]) simp_all

lemma get_data_type_info_Some:
  "get_data_type_info t = Some info \<Longrightarrow> info \<in> set DATA_TYPE_TABLE \<and> dti_type_id info = t"
  by (auto simp: get_data_type_info_def dest!: first_index_SomeD)

lemma get_data_type_info_by_name_Some:
  "get_data_type_info_by_name (Some s) = Some info \<Longrightarrow> info \<in> set DATA_TYPE_TABLE \<and> dti_name info = s"
  by (auto simp: get_data_type_info_by_name_def dest!: first_index_SomeD)

text \<open>Names and type identifiers of the table translate into each other.\<close>

lemma name_type_roundtrip:
  assumes "info \<in> set DATA_TYPE_TABLE"
  shows "parse_type_id_from_string (Some (dti_name info)) = dti_type_id info \<and>
    type_id_to_string (dti_type_id info) = dti_name info"
proof -
  from assms obtain i where "i < 10" "info = DATA_TYPE_TABLE ! i"
    by (metis in_set_conv_nth length_table)
  then show ?thesis
    by (simp add: parse_type_id_from_string_def type_id_to_string_def
        get_data_type_info_nth get_data_type_info_by_name_nth)
qed

text \<open>The declared size of an object is the address and the size the encoder needs.\<close>

lemma table_io_size:
  assumes "info \<in> set DATA_TYPE_TABLE"
  shows "dti_io_size info = 3 + int (body_size (dti_type_id info))"
  using assms by (auto simp: table_defs)

end
