(* ===== verification/Data_Manager.thy ===== *)
theory Data_Manager
  imports Data_Types
begin

text \<open>
  The process image of the server (\<open>json-iec104-server/src/data/data_manager.h\<close> and \<open>.c\<close>): one context
  per data type with its configured addresses, current values and offline bookkeeping, the
  comparison of values with deadband, the update and the reset. The specification is the map
  from addresses to values that a context holds.
\<close>

section \<open>State\<close>

text \<open>The global settings that the modules share as \<open>extern\<close> variables (\<open>src/main.c\<close>).\<close>

record globals =
  offline_udt_time :: u32
  deadband_M_ME_NC_1_percent :: f32
  ASDU_address :: int
  command_mode :: string
  tcpPort :: int
  local_ip :: string

definition initial_globals :: globals where
  "initial_globals = \<lparr>offline_udt_time = 0, deadband_M_ME_NC_1_percent = f32_0, ASDU_address = 1,
     command_mode = ''direct'', tcpPort = 2404, local_ip = ''0.0.0.0''\<rparr>"

text \<open>
  \<open>DataTypeContext\<close> with its \<open>DynamicIOAConfig\<close>. An array that is not allocated is empty; for
  \<open>last_offline_update\<close>, which the code tests, NULL is None. The mutex protects each operation as a whole.
\<close>

record data_context =
  ctx_type_id :: u32
  ctx_type_info :: data_type_info
  ioa_list :: "int list"
  ctx_count :: nat
  data_array :: "data_value list"
  last_offline_update :: "u64 list option"

definition init_context :: "data_type_info \<Rightarrow> data_context" where
  "init_context info = \<lparr>ctx_type_id = dti_type_id info, ctx_type_info = info, ioa_list = [],
     ctx_count = 0, data_array = [], last_offline_update = None\<rparr>"

definition init_data_contexts :: "data_context list" where
  "init_data_contexts = map init_context DATA_TYPE_TABLE"

definition cleanup_context :: "data_context \<Rightarrow> data_context" where
  "cleanup_context ctx = ctx\<lparr>ioa_list := [], data_array := [], last_offline_update := None\<rparr>"

definition cleanup_data_contexts :: "data_context list \<Rightarrow> data_context list" where
  "cleanup_data_contexts ctxs = map cleanup_context ctxs"

section \<open>Lookups\<close>

text \<open>The index of an address in the configuration; None is the result \<open>-1\<close>.\<close>

definition find_ioa_index :: "data_context \<Rightarrow> int \<Rightarrow> nat option" where
  "find_ioa_index ctx ioa = first_index (\<lambda>x. x = ioa) (take (ctx_count ctx) (ioa_list ctx))"

text \<open>The index of the context of a type in \<open>g_data_contexts\<close>; None is the result NULL.\<close>

definition get_data_context :: "data_context list \<Rightarrow> u32 \<Rightarrow> nat option" where
  "get_data_context ctxs type_id = first_index (\<lambda>c. ctx_type_id c = type_id) (take DATA_TYPE_COUNT ctxs)"

text \<open>The slave is represented by its number of open connections, None when it is NULL.\<close>

definition is_client_connected :: "int option \<Rightarrow> bool" where
  "is_client_connected slave = (case slave of None \<Rightarrow> False | Some open_connections \<Rightarrow> open_connections > 0)"

section \<open>Comparison\<close>

definition values_equal :: "f32 \<Rightarrow> data_value \<Rightarrow> data_value \<Rightarrow> data_type_info \<Rightarrow> bool" where
  "values_equal deadband v1 v2 info =
     (if dv_type v1 \<noteq> dv_type v2 then False
      else case dv_type v1 of
        DATA_VALUE_TYPE_BOOL \<Rightarrow> bool_val v1 = bool_val v2
      | DATA_VALUE_TYPE_DOUBLE_POINT \<Rightarrow> dp_val v1 = dp_val v2
      | DATA_VALUE_TYPE_INT16 \<Rightarrow> int16_val v1 = int16_val v2
      | DATA_VALUE_TYPE_UINT32 \<Rightarrow> uint32_val v1 = uint32_val v2
      | DATA_VALUE_TYPE_FLOAT \<Rightarrow>
          (let diff = f32_abs (f32_sub (float_val v1) (float_val v2))
           in if dti_type_id info = M_ME_NC_1 \<and> f32_less f32_0 deadband then
                let threshold = f32_mul (f32_abs (float_val v1)) (f32_div deadband f32_100)
                in f32_le diff threshold
              else f32_less diff f32_1em4))"

section \<open>Offline updates\<close>

text \<open>
  \<open>offline_udt_time * 1000\<close> is a product of 32 bit unsigned integers; the difference of the times
  has 64 bits. The pointer argument is not NULL at the only call.
\<close>

definition allow_offline_update :: "u32 \<Rightarrow> u64 \<Rightarrow> u64 \<Rightarrow> bool \<times> u64" where
  "allow_offline_update udt current lst =
     (if current - lst \<ge> ucast (udt * 1000) then (True, current) else (False, lst))"

section \<open>Update and reset\<close>

definition update_data ::
    "globals \<Rightarrow> int option \<Rightarrow> u64 \<Rightarrow> data_context \<Rightarrow> int \<Rightarrow> data_value \<Rightarrow> bool \<times> data_context" where
  "update_data g slave now ctx ioa new_value =
     (case find_ioa_index ctx ioa of None \<Rightarrow> (False, ctx)
      | Some idx \<Rightarrow>
          let changed = \<not> values_equal (deadband_M_ME_NC_1_percent g) (data_array ctx ! idx)
                new_value (ctx_type_info ctx);
              ctx = (if changed then
                let v = new_value;
                    v = (if dti_has_time_tag (ctx_type_info ctx) \<and> dv_has_timestamp new_value
                         then v\<lparr>dv_timestamp := dv_timestamp new_value\<rparr> else v);
                    v = (if dti_has_quality (ctx_type_info ctx) \<and> dv_has_quality new_value
                         then v\<lparr>dv_quality := dv_quality new_value\<rparr> else v)
                in ctx\<lparr>data_array := (data_array ctx)[idx := v]\<rparr> else ctx)
          in if \<not> changed then (False, ctx)
             else if is_client_connected slave then (True, ctx)
             else case last_offline_update ctx of None \<Rightarrow> (False, ctx)
               | Some lst \<Rightarrow>
                   let (ok, t) = allow_offline_update (offline_udt_time g) now (lst ! idx)
                   in (ok, ctx\<lparr>last_offline_update := Some (lst[idx := t])\<rparr>))"

definition reset_context :: "data_context \<Rightarrow> data_context" where
  "reset_context ctx =
     (if data_array ctx \<noteq> [] \<and> ctx_count ctx > 0
      then ctx\<lparr>data_array := replicate (ctx_count ctx) zero_value\<rparr> else ctx)"

definition reset_all_data :: "data_context list \<Rightarrow> data_context list" where
  "reset_all_data ctxs = map reset_context ctxs"

section \<open>Well-formed contexts\<close>

definition ctx_wf :: "data_context \<Rightarrow> bool" where
  "ctx_wf ctx \<longleftrightarrow> ctx_type_info ctx \<in> set DATA_TYPE_TABLE \<and>
     ctx_type_id ctx = dti_type_id (ctx_type_info ctx) \<and>
     length (ioa_list ctx) = ctx_count ctx \<and> length (data_array ctx) = ctx_count ctx \<and>
     (case last_offline_update ctx of None \<Rightarrow> True | Some l \<Rightarrow> length l = ctx_count ctx)"

text \<open>The contexts are those of the table, in its order.\<close>

definition contexts_wf :: "data_context list \<Rightarrow> bool" where
  "contexts_wf ctxs \<longleftrightarrow> list_all ctx_wf ctxs \<and> map ctx_type_info ctxs = DATA_TYPE_TABLE"

lemma ctx_wf_init [wf_intros]: "info \<in> set DATA_TYPE_TABLE \<Longrightarrow> ctx_wf (init_context info)"
  by (simp add: ctx_wf_def init_context_def)

lemma contexts_wf_init [wf_intros]: "contexts_wf init_data_contexts"
proof -
  have "ctx_type_info \<circ> init_context = id" by (auto simp: init_context_def)
  then show ?thesis
    by (simp add: contexts_wf_def init_data_contexts_def list_all_iff ctx_wf_init)
qed

lemma ctx_wf_reset [wf_intros]: "ctx_wf ctx \<Longrightarrow> ctx_wf (reset_context ctx)"
  by (cases "last_offline_update ctx") (simp_all add: ctx_wf_def reset_context_def)

lemma reset_context_info [simp]: "ctx_type_info (reset_context ctx) = ctx_type_info ctx"
  by (simp add: reset_context_def)

lemma contexts_wf_reset [wf_intros]: "contexts_wf ctxs \<Longrightarrow> contexts_wf (reset_all_data ctxs)"
  by (simp add: contexts_wf_def reset_all_data_def list_all_iff ctx_wf_reset o_def)

lemma length_contexts: "contexts_wf ctxs \<Longrightarrow> length ctxs = 10"
  unfolding contexts_wf_def by (metis length_map length_table)

lemma contexts_wf_replace [wf_intros]:
  assumes "contexts_wf ctxs" "i < length ctxs" "ctx_wf c" "ctx_type_info c = ctx_type_info (ctxs ! i)"
  shows "contexts_wf (ctxs[i := c])"
proof -
  have "map ctx_type_info (ctxs[i := c]) = (map ctx_type_info ctxs)[i := map ctx_type_info ctxs ! i]"
    using assms(2,4) by (simp add: map_update)
  then have "map ctx_type_info (ctxs[i := c]) = map ctx_type_info ctxs" by (simp only: list_update_id)
  then show ?thesis
    using assms(1,3) by (auto simp: contexts_wf_def list_all_iff dest!: set_update_subset_insert2)
qed

lemma contexts_wf_nth: "contexts_wf ctxs \<Longrightarrow> i < 10 \<Longrightarrow> ctx_wf (ctxs ! i) \<and> ctx_type_info (ctxs ! i) = DATA_TYPE_TABLE ! i"
  using length_contexts [of ctxs] by (auto simp: contexts_wf_def list_all_length dest: arg_cong [of _ _ "\<lambda>l. l ! i"])

lemma get_data_context_wf:
  assumes "contexts_wf ctxs"
  shows "get_data_context ctxs t = first_index (\<lambda>i. dti_type_id i = t) DATA_TYPE_TABLE"
proof -
  have len: "length ctxs = 10" using assms by (rule length_contexts)
  have "get_data_context ctxs t = first_index (\<lambda>c. ctx_type_id c = t) ctxs"
    by (simp add: get_data_context_def len)
  also have "\<dots> = first_index (\<lambda>c. dti_type_id (ctx_type_info c) = t) ctxs"
    using assms by (intro first_index_cong) (simp add: contexts_wf_def list_all_iff ctx_wf_def)
  also have "\<dots> = first_index (\<lambda>i. dti_type_id i = t) (map ctx_type_info ctxs)"
    by (simp add: first_index_map o_def)
  also have "map ctx_type_info ctxs = DATA_TYPE_TABLE"
    using assms by (simp add: contexts_wf_def)
  finally show ?thesis .
qed

lemma find_ioa_index_less: "find_ioa_index ctx ioa = Some i \<Longrightarrow> i < ctx_count ctx"
  by (auto simp: find_ioa_index_def dest: first_index_less)

lemma find_ioa_index_nth: "find_ioa_index ctx ioa = Some i \<Longrightarrow> ioa_list ctx ! i = ioa"
  unfolding find_ioa_index_def using first_index_SomeD by fastforce

lemma find_ioa_index_None:
  "ctx_wf ctx \<Longrightarrow> find_ioa_index ctx ioa = None \<longleftrightarrow> ioa \<notin> set (ioa_list ctx)"
  by (auto simp: find_ioa_index_def ctx_wf_def first_index_None)

section \<open>The specification: a map from addresses to values\<close>

definition image_of :: "data_context \<Rightarrow> int \<Rightarrow> data_value option" where
  "image_of ctx ioa = map_option ((!) (data_array ctx)) (find_ioa_index ctx ioa)"

text \<open>The new value replaces the old one when the comparison tells them apart.\<close>

definition updated ::
    "f32 \<Rightarrow> data_type_info \<Rightarrow> data_value \<Rightarrow> data_value \<Rightarrow> data_value" where
  "updated deadband info old new_value =
     (if values_equal deadband old new_value info then old else new_value)"

lemma update_data_some:
  assumes "find_ioa_index ctx ioa = Some idx"
  shows "update_data g slave now ctx ioa v =
    (if values_equal (deadband_M_ME_NC_1_percent g) (data_array ctx ! idx) v (ctx_type_info ctx)
     then (False, ctx)
     else let ctx' = ctx\<lparr>data_array := (data_array ctx)[idx := v]\<rparr>
       in if is_client_connected slave then (True, ctx')
          else case last_offline_update ctx of None \<Rightarrow> (False, ctx')
            | Some lst \<Rightarrow>
                (fst (allow_offline_update (offline_udt_time g) now (lst ! idx)),
                 ctx'\<lparr>last_offline_update :=
                   Some (lst[idx := snd (allow_offline_update (offline_udt_time g) now (lst ! idx))])\<rparr>))"
  using assms by (auto simp: update_data_def Let_def split: option.splits prod.splits)

lemma update_data_config:
  "ioa_list (snd (update_data g slave now ctx ioa v)) = ioa_list ctx \<and>
   ctx_count (snd (update_data g slave now ctx ioa v)) = ctx_count ctx \<and>
   ctx_type_info (snd (update_data g slave now ctx ioa v)) = ctx_type_info ctx \<and>
   ctx_type_id (snd (update_data g slave now ctx ioa v)) = ctx_type_id ctx"
proof (cases "find_ioa_index ctx ioa")
  case None
  then show ?thesis by (simp add: update_data_def)
next
  case (Some idx)
  show ?thesis
    unfolding update_data_some [OF Some] Let_def by (cases "last_offline_update ctx") simp_all
qed

lemma ctx_wf_update [wf_intros]:
  assumes "ctx_wf ctx"
  shows "ctx_wf (snd (update_data g slave now ctx ioa v))"
proof (cases "find_ioa_index ctx ioa")
  case None
  then show ?thesis using assms by (simp add: update_data_def)
next
  case (Some idx)
  show ?thesis
    unfolding update_data_some [OF Some] Let_def
    using assms by (cases "last_offline_update ctx") (simp_all add: ctx_wf_def)
qed

lemma find_ioa_index_update:
  "find_ioa_index (snd (update_data g slave now ctx ioa v)) x = find_ioa_index ctx x"
  using update_data_config [of g slave now ctx ioa v] by (simp add: find_ioa_index_def)

lemma update_data_array:
  assumes "find_ioa_index ctx ioa = Some idx" "ctx_wf ctx"
  shows "data_array (snd (update_data g slave now ctx ioa v)) =
    (data_array ctx)[idx := updated (deadband_M_ME_NC_1_percent g) (ctx_type_info ctx)
      (data_array ctx ! idx) v]"
  unfolding update_data_some [OF assms(1)] Let_def
  by (cases "last_offline_update ctx") (simp_all add: updated_def)

lemma image_update:
  assumes "ctx_wf ctx"
  shows "image_of (snd (update_data g slave now ctx ioa v)) =
    (case image_of ctx ioa of None \<Rightarrow> image_of ctx
     | Some old \<Rightarrow> (image_of ctx)(ioa \<mapsto>
         updated (deadband_M_ME_NC_1_percent g) (ctx_type_info ctx) old v))"
proof (cases "find_ioa_index ctx ioa")
  case None
  then show ?thesis by (simp add: update_data_def image_of_def)
next
  case (Some idx)
  have len: "idx < length (data_array ctx)"
    using find_ioa_index_less [OF Some] assms by (simp add: ctx_wf_def)
  have other: "j \<noteq> idx" if "find_ioa_index ctx x = Some j" "x \<noteq> ioa" for x j
    using that find_ioa_index_nth [OF Some] find_ioa_index_nth [of ctx x j] by auto
  show ?thesis
  proof
    fix x
    show "image_of (snd (update_data g slave now ctx ioa v)) x =
      (case image_of ctx ioa of None \<Rightarrow> image_of ctx
       | Some old \<Rightarrow> (image_of ctx)(ioa \<mapsto>
           updated (deadband_M_ME_NC_1_percent g) (ctx_type_info ctx) old v)) x"
      using Some len other [of x]
      by (cases "find_ioa_index ctx x")
        (auto simp: image_of_def find_ioa_index_update update_data_array [OF Some assms])
  qed
qed

section \<open>What is reported\<close>

lemma update_data_reports:
  "fst (update_data g slave now ctx ioa v) \<longleftrightarrow>
    (\<exists>idx. find_ioa_index ctx ioa = Some idx \<and>
      \<not> values_equal (deadband_M_ME_NC_1_percent g) (data_array ctx ! idx) v (ctx_type_info ctx) \<and>
      (is_client_connected slave \<or>
       (\<exists>l. last_offline_update ctx = Some l \<and>
          fst (allow_offline_update (offline_udt_time g) now (l ! idx)))))"
proof (cases "find_ioa_index ctx ioa")
  case None
  then show ?thesis by (simp add: update_data_def)
next
  case (Some idx)
  show ?thesis
    unfolding update_data_some [OF Some] Let_def
    by (cases "last_offline_update ctx") (simp_all add: Some)
qed

text \<open>A finite value equals itself, except where a deadband is in force.\<close>

lemma values_equal_refl:
  assumes "dv_type v = DATA_VALUE_TYPE_FLOAT \<Longrightarrow>
      f32_finite (float_val v) \<and> \<not> (dti_type_id info = M_ME_NC_1 \<and> f32_less f32_0 deadband)"
  shows "values_equal deadband v v info"
  using assms f32_zero_less_1em4
  by (cases "dv_type v") (auto simp: values_equal_def f32_sub_self Let_def)

text \<open>The quality and the time stamp take no part in the comparison.\<close>

lemma values_equal_quality:
  "values_equal db v1 (v2\<lparr>dv_quality := q, dv_timestamp := t\<rparr>) info = values_equal db v1 v2 info"
  by (auto simp: values_equal_def union_defs Let_def split: data_value_type.splits)

section \<open>The rate of offline updates\<close>

text \<open>The instants, of a sequence of attempts, at which an update is let through.\<close>

fun allowed_times :: "u32 \<Rightarrow> u64 \<Rightarrow> u64 list \<Rightarrow> u64 list" where
  "allowed_times udt lst [] = []"
| "allowed_times udt lst (t # ts) =
     (let (ok, lst') = allow_offline_update udt t lst
      in if ok then t # allowed_times udt lst' ts else allowed_times udt lst' ts)"

lemma ucast_interval: "unat udt * 1000 < 2 ^ 32 \<Longrightarrow> unat (ucast (udt * 1000 :: u32) :: u64) = unat udt * 1000"
proof -
  assume "unat udt * 1000 < 2 ^ 32"
  then have "unat (udt * 1000) = unat udt * 1000" by (simp add: unat_word_ariths)
  then show ?thesis
    using \<open>unat udt * 1000 < 2 ^ 32\<close> by (simp add: unsigned_ucast_eq take_bit_eq_mod)
qed

lemma allowed_times_spaced:
  assumes "sorted (map unat (lst # ts))" "unat udt * 1000 < 2 ^ 32"
  shows "successively (\<lambda>a b. unat a + unat udt * 1000 \<le> unat b) (lst # allowed_times udt lst ts)"
  using assms(1)
proof (induction ts arbitrary: lst)
  case Nil
  then show ?case by simp
next
  case (Cons t ts)
  have le: "unat lst \<le> unat t" using Cons.prems by simp
  then have diff: "unat (t - lst) = unat t - unat lst"
    by (simp add: unat_sub word_le_nat_alt)
  show ?case
  proof (cases "t - lst \<ge> ucast (udt * 1000)")
    case True
    then have "unat lst + unat udt * 1000 \<le> unat t"
      using diff le ucast_interval [OF assms(2)] by (simp add: word_le_nat_alt)
    then show ?thesis using True Cons.IH [of t] Cons.prems
      by (simp add: allow_offline_update_def)
  next
    case False
    then show ?thesis using Cons.IH [of lst] Cons.prems
      by (simp add: allow_offline_update_def)
  qed
qed

section \<open>Properties\<close>

text \<open>
  C3: updating a point refines an update of the map from addresses to values: an address that is not
  configured changes nothing, a configured one gets the new value unless the comparison takes the
  two for equal, and every other point keeps its value; the context stays well-formed.
\<close>

theorem update_data_refines:
  assumes "ctx_wf ctx"
  shows "image_of (snd (update_data g slave now ctx ioa v)) =
      (case image_of ctx ioa of None \<Rightarrow> image_of ctx
       | Some old \<Rightarrow> (image_of ctx)(ioa \<mapsto>
           updated (deadband_M_ME_NC_1_percent g) (ctx_type_info ctx) old v)) \<and>
    ctx_wf (snd (update_data g slave now ctx ioa v))"
  using image_update [OF assms] ctx_wf_update [OF assms] by blast

definition demo_context :: data_context where
  "demo_context = \<lparr>ctx_type_id = M_SP_TB_1, ctx_type_info = DATA_TYPE_TABLE ! 0, ioa_list = [100, 101],
     ctx_count = 2, data_array = [zero_value, zero_value], last_offline_update = Some [0, 0]\<rparr>"

lemma demo_context_wf: "ctx_wf demo_context"
  by (simp add: demo_context_def ctx_wf_def table_defs)

theorem update_data_refines_witness:
  "image_of (snd (update_data initial_globals (Some 1) 0 demo_context 101 (set_bool_val True zero_value))) =
      (case image_of demo_context 101 of None \<Rightarrow> image_of demo_context
       | Some old \<Rightarrow> (image_of demo_context)(101 \<mapsto>
           updated (deadband_M_ME_NC_1_percent initial_globals) (ctx_type_info demo_context) old
             (set_bool_val True zero_value)))"
  using update_data_refines [OF demo_context_wf] by blast

text \<open>
  C4: without a client, a new value for a point with offline tracking is reported exactly when at least \<open>offline_udt_time\<close>
  seconds have passed since the last offline report of the point, which then takes the present time (with a clock that does
  not go back and an interval whose milliseconds fit 32 bits). The value is stored in either case, so that a value that is not
  reported now never is: later updates with it, under whatever quality and time stamp, report nothing and change
  nothing, not even when the interval is over or a client has connected. A float has to be finite and without a deadband,
  since otherwise it does not equal itself.
\<close>

theorem offline_change_reported_once:
  assumes "ctx_wf ctx" "find_ioa_index ctx ioa = Some idx" "last_offline_update ctx = Some l" "\<not> is_client_connected slave"
    and "\<not> values_equal (deadband_M_ME_NC_1_percent g) (data_array ctx ! idx) v (ctx_type_info ctx)"
    and "unat (offline_udt_time g) * 1000 < 2 ^ 32" "unat (l ! idx) \<le> unat now"
    and "dv_type v = DATA_VALUE_TYPE_FLOAT \<Longrightarrow> f32_finite (float_val v) \<and>
      \<not> (ctx_type_id ctx = M_ME_NC_1 \<and> f32_less f32_0 (deadband_M_ME_NC_1_percent g))"
  shows "let due = (unat (l ! idx) + unat (offline_udt_time g) * 1000 \<le> unat now)
    in \<exists>ctx'. update_data g slave now ctx ioa v = (due, ctx') \<and> image_of ctx' ioa = Some v \<and>
      last_offline_update ctx' = Some (if due then l[idx := now] else l) \<and>
      (\<forall>slave' now' q t. update_data g slave' now' ctx' ioa (v\<lparr>dv_quality := q, dv_timestamp := t\<rparr>) = (False, ctx'))"
proof -
  define due where "due \<longleftrightarrow> unat (l ! idx) + unat (offline_udt_time g) * 1000 \<le> unat now"
  define ctx' where "ctx' = ctx\<lparr>data_array := (data_array ctx)[idx := v], last_offline_update := Some (if due then l[idx := now] else l)\<rparr>"
  have len: "idx < length (data_array ctx)" using find_ioa_index_less [OF assms(2)] assms(1) by (simp add: ctx_wf_def)
  have "unat (now - l ! idx) = unat now - unat (l ! idx)" using assms(7) by (simp add: unat_sub word_le_nat_alt)
  then have "allow_offline_update (offline_udt_time g) now (l ! idx) = (due, if due then now else l ! idx)"
    using ucast_interval [OF assms(6)] assms(7) by (auto simp: allow_offline_update_def due_def word_le_nat_alt)
  then have run: "update_data g slave now ctx ioa v = (due, ctx')"
    using assms(3-5) by (simp add: update_data_some [OF assms(2)] ctx'_def)
  have found: "find_ioa_index ctx' x = find_ioa_index ctx x" for x by (simp add: ctx'_def find_ioa_index_def)
  have image: "image_of ctx' ioa = Some v" using assms(2) len by (simp add: image_of_def found) (simp add: ctx'_def)
  have "dti_type_id (ctx_type_info ctx) = ctx_type_id ctx" using assms(1) by (simp add: ctx_wf_def)
  then have "values_equal (deadband_M_ME_NC_1_percent g) v v (ctx_type_info ctx)"
    using values_equal_refl [of v "ctx_type_info ctx" "deadband_M_ME_NC_1_percent g"] assms(8) by simp
  moreover have "data_array ctx' ! idx = v" "ctx_type_info ctx' = ctx_type_info ctx" using len by (simp_all add: ctx'_def)
  moreover have "find_ioa_index ctx' ioa = Some idx" using assms(2) found by simp
  ultimately have "update_data g slave' now' ctx' ioa (v\<lparr>dv_quality := q, dv_timestamp := t\<rparr>) = (False, ctx')" for slave' now' q t
    by (simp add: update_data_some values_equal_quality)
  then show ?thesis using run image unfolding Let_def due_def [symmetric] by (intro exI [of _ ctx']) (simp add: ctx'_def)
qed

text \<open>An interval of 5 seconds: a change after 4 seconds is lost, one after 5 seconds is reported.\<close>

theorem offline_change_reported_once_witness:
  "\<exists>lost sent. update_data (initial_globals\<lparr>offline_udt_time := 5\<rparr>) None 4999 demo_context 100 (set_bool_val True zero_value) = (False, lost) \<and>
    update_data (initial_globals\<lparr>offline_udt_time := 5\<rparr>) (Some 1) 60000 lost 100 (set_bool_val True zero_value) = (False, lost) \<and>
    update_data (initial_globals\<lparr>offline_udt_time := 5\<rparr>) None 5000 demo_context 100 (set_bool_val True zero_value) = (True, sent) \<and>
    last_offline_update sent = Some [5000, 0]"
proof -
  let ?g = "initial_globals\<lparr>offline_udt_time := 5\<rparr>" and ?v = "set_bool_val True zero_value"
  have facts: "find_ioa_index demo_context 100 = Some 0" "last_offline_update demo_context = Some [0, 0]"
    "\<not> is_client_connected None" "unat (offline_udt_time ?g) * 1000 < 2 ^ 32"
    "\<not> values_equal (deadband_M_ME_NC_1_percent ?g) (data_array demo_context ! 0) ?v (ctx_type_info demo_context)"
    "dv_type ?v \<noteq> DATA_VALUE_TYPE_FLOAT"
    by (simp_all add: find_ioa_index_def demo_context_def is_client_connected_def values_equal_def zero_value_def union_defs initial_globals_def)
  have same: "?v\<lparr>dv_quality := dv_quality ?v, dv_timestamp := dv_timestamp ?v\<rparr> = ?v" by simp
  obtain lost where "update_data ?g None 4999 demo_context 100 ?v = (False, lost)"
    "\<And>slave now q t. update_data ?g slave now lost 100 (?v\<lparr>dv_quality := q, dv_timestamp := t\<rparr>) = (False, lost)"
    using offline_change_reported_once [OF demo_context_wf facts(1,2,3,5,4), of 4999] facts(6)
    by (auto simp: initial_globals_def)
  moreover obtain sent where "update_data ?g None 5000 demo_context 100 ?v = (True, sent)" "last_offline_update sent = Some [5000, 0]"
    using offline_change_reported_once [OF demo_context_wf facts(1,2,3,5,4), of 5000] facts(6)
    by (auto simp: initial_globals_def)
  ultimately show ?thesis using same by metis
qed

text \<open>
  A change of the quality alone is lost: when the new value compares equal to the stored one, the
  context keeps its old quality and nothing is reported, whatever the new quality and time stamp.
\<close>

theorem quality_change_ignored:
  assumes "find_ioa_index ctx ioa = Some idx"
    and "values_equal (deadband_M_ME_NC_1_percent g) (data_array ctx ! idx) v (ctx_type_info ctx)"
  shows "update_data g slave now ctx ioa (v\<lparr>dv_quality := q, dv_timestamp := t\<rparr>) = (False, ctx)"
  using assms by (simp add: update_data_some values_equal_quality)

theorem quality_change_ignored_witness:
  "update_data initial_globals (Some 1) 0
     (demo_context\<lparr>data_array := replicate 2 (zero_value\<lparr>dv_quality := QUALITY_INVALID\<rparr>)\<rparr>)
     100 (zero_value\<lparr>dv_quality := QUALITY_GOOD, dv_timestamp := 7\<rparr>) =
   (False, demo_context\<lparr>data_array := replicate 2 (zero_value\<lparr>dv_quality := QUALITY_INVALID\<rparr>)\<rparr>)"
  using quality_change_ignored [of "demo_context\<lparr>data_array := replicate 2 (zero_value\<lparr>dv_quality := QUALITY_INVALID\<rparr>)\<rparr>"
      100 0 initial_globals zero_value "Some 1" 0 7 QUALITY_GOOD]
  by (simp add: find_ioa_index_def demo_context_def values_equal_def zero_value_def bool_val_def)

text \<open>
  C5: offline reports of one point are rate limited: of any sequence of attempts at non-decreasing
  times, two that are let through are at least \<open>offline_udt_time\<close> seconds apart, for intervals whose
  milliseconds fit 32 bits; beyond that the product wraps and the interval is shorter. The code takes the configured number
  as seconds, multiplying it by 1000, while the documents give it in milliseconds.
\<close>

theorem offline_rate_limited:
  assumes "sorted (map unat (lst # ts))" "unat udt * 1000 < 2 ^ 32"
  shows "successively (\<lambda>a b. unat a + unat udt * 1000 \<le> unat b) (lst # allowed_times udt lst ts)"
  using assms by (rule allowed_times_spaced)

theorem offline_rate_limited_witness:
  "successively (\<lambda>a b. unat a + unat (2 :: u32) * 1000 \<le> unat b)
     ((0 :: u64) # allowed_times 2 0 [1500, 2000, 3999, 4000])"
  by (rule offline_rate_limited) simp_all

end
