(* ===== verification/C_Format.thy ===== *)
theory C_Format
  imports Soft_Float
begin

text \<open>
  The conversions of \<open>printf\<close> that the servers use: \<open>%d\<close> and \<open>%u\<close> as decimal digits, \<open>%.2f\<close> as the
  exact value of the double rounded to two decimals, ties to even. Decimal output is read back by
  \<open>atoi\<close>, which makes the lines the servers print unambiguous.
\<close>

section \<open>Decimal numbers\<close>

definition digit_char :: "nat \<Rightarrow> char" where
  "digit_char d = char_of (48 + d)"

fun dec_nat :: "nat \<Rightarrow> string" where
  "dec_nat n = (if n < 10 then [digit_char n] else dec_nat (n div 10) @ [digit_char (n mod 10)])"

declare dec_nat.simps [simp del]

definition dec_int :: "int \<Rightarrow> string" where
  "dec_int i = (if i < 0 then ''-'' @ dec_nat (nat (- i)) else dec_nat (nat i))"

definition of_digits :: "string \<Rightarrow> nat" where
  "of_digits s = fold (\<lambda>c n. 10 * n + (of_char c - 48)) s 0"

lemma of_char_digit: "d < 10 \<Longrightarrow> of_char (digit_char d) = 48 + d"
  by (simp add: digit_char_def)

lemma of_digits_dec: "of_digits (dec_nat n) = n"
proof (induction n rule: dec_nat.induct)
  case (1 n)
  then show ?case
    by (subst dec_nat.simps) (auto simp: of_digits_def of_char_digit)
qed

lemma dec_nat_digits: "c \<in> set (dec_nat n) \<Longrightarrow> 48 \<le> (of_char c :: nat) \<and> (of_char c :: nat) < 58"
proof (induction n rule: dec_nat.induct)
  case (1 n)
  then show ?case
    by (subst (asm) (2) dec_nat.simps) (auto simp: of_char_digit split: if_splits)
qed

lemma dec_nat_nonempty [simp]: "dec_nat n \<noteq> []"
  by (subst dec_nat.simps) simp

lemma minus_not_digit: "CHR ''-'' \<notin> set (dec_nat n)"
  using dec_nat_digits [of "CHR ''-''" n] by auto

lemma dec_int_inject: "dec_int i = dec_int j \<longleftrightarrow> i = j"
proof
  assume eq: "dec_int i = dec_int j"
  have hd: "hd (dec_nat n) \<noteq> CHR ''-''" for n
    using minus_not_digit [of n] by (metis dec_nat_nonempty hd_in_set)
  have nn: "dec_nat m = dec_nat n \<Longrightarrow> m = n" for m n
    by (metis of_digits_dec)
  show "i = j"
    using eq hd [of "nat i"] hd [of "nat j"] nn [of "nat (- i)" "nat (- j)"] nn [of "nat i" "nat j"]
    by (auto simp: dec_int_def split: if_splits dest: arg_cong [of _ _ hd])
qed simp

lemma dec_int_chars: "c \<in> set (dec_int i) \<Longrightarrow> c = CHR ''-'' \<or> 48 \<le> (of_char c :: nat) \<and> (of_char c :: nat) < 58"
  by (auto simp: dec_int_def dest: dec_nat_digits split: if_splits)

text \<open>A number ends where a separator follows.\<close>

lemma dec_int_separated:
  assumes "dec_int i @ c # s = dec_int j @ d # t" "c \<in> {CHR '','', CHR ''}'', CHR ''\"''}"
    "d \<in> {CHR '','', CHR ''}'', CHR ''\"''}"
  shows "i = j"
proof -
  let ?P = "\<lambda>c. c = CHR ''-'' \<or> 48 \<le> (of_char c :: nat) \<and> (of_char c :: nat) < 58"
  have stop: "takeWhile ?P (dec_int k @ e # u) = dec_int k"
    if "e \<in> {CHR '','', CHR ''}'', CHR ''\"''}" for k e u
  proof -
    have "\<not> ?P e" using that by auto
    moreover have "\<forall>c \<in> set (dec_int k). ?P c" using dec_int_chars by blast
    ultimately show ?thesis by (simp add: takeWhile_append)
  qed
  have "dec_int i = dec_int j"
    using stop [OF assms(2), of i s] stop [OF assms(3), of j t] assms(1) by simp
  then show ?thesis by (simp only: dec_int_inject)
qed

section \<open>Two decimals\<close>

definition two_digits :: "nat \<Rightarrow> string" where
  "two_digits n = [digit_char (n div 10 mod 10), digit_char (n mod 10)]"

definition hundredths :: "nat \<Rightarrow> int \<Rightarrow> nat" where
  "hundredths m e = (if 0 \<le> e then m * 100 * 2 ^ nat e else round_shift (m * 100) (nat (- e)))"

text \<open>The argument of type float is promoted to double, which changes neither value nor sign.\<close>

definition fmt_2f :: "f32 \<Rightarrow> string" where
  "fmt_2f w =
     (let sign = (if bit w 31 then ''-'' else [])
      in case f32_val w of
           NaN \<Rightarrow> sign @ ''nan''
         | Inf _ \<Rightarrow> sign @ ''inf''
         | Fin _ m e \<Rightarrow> let h = hundredths m e
             in sign @ dec_nat (h div 100) @ ''.'' @ two_digits (h mod 100))"

end
