(* ===== verification/Command_Handler.thy ===== *)
theory Command_Handler
  imports Info_Decoding Data_Manager C_Format
begin

text \<open>
  The command handler (\<open>json-iec104-server/src/protocol/command_handler.c\<close>): single commands, set points
  and the process reset, in direct mode or with select before operate. The select table is an array
  of a hundred slots; it is an instance of the interface \<open>slot_table\<close>. The specification of select
  before operate is stated on the history of requests: an execution needs a recent select of the
  same connection and address, and a select is used up by one execution.
\<close>

section \<open>The select table\<close>

record select_entry =
  se_ioa :: int
  se_connection :: connection
  se_timestamp :: u64
  se_isSelected :: bool

type_synonym select_table = "select_entry list"

definition MAX_SELECT_ENTRIES :: nat where "MAX_SELECT_ENTRIES = 100"
definition SELECT_TIMEOUT_MS :: u64 where "SELECT_TIMEOUT_MS = 5000"

definition empty_select_table :: select_table where
  "empty_select_table = replicate MAX_SELECT_ENTRIES
     \<lparr>se_ioa = 0, se_connection = 0, se_timestamp = 0, se_isSelected = False\<rparr>"

text \<open>The loop stops at the first slot that is free or holds the same address, whoever selected it.\<close>

definition storeSelectState :: "u64 \<Rightarrow> int \<Rightarrow> connection \<Rightarrow> select_table \<Rightarrow> select_table" where
  "storeSelectState now ioa con tab =
     (case first_index (\<lambda>s. \<not> se_isSelected s \<or> se_ioa s = ioa) tab of
        None \<Rightarrow> tab
      | Some i \<Rightarrow> tab[i := (tab ! i)\<lparr>se_ioa := ioa, se_connection := con, se_timestamp := now,
                                    se_isSelected := True\<rparr>])"

definition isPreviouslySelected :: "u64 \<Rightarrow> int \<Rightarrow> connection \<Rightarrow> select_table \<Rightarrow> bool \<times> select_table" where
  "isPreviouslySelected now ioa con tab =
     (case first_index (\<lambda>s. se_isSelected s \<and> se_ioa s = ioa \<and> se_connection s = con) tab of
        None \<Rightarrow> (False, tab)
      | Some i \<Rightarrow>
          if now - se_timestamp (tab ! i) < SELECT_TIMEOUT_MS then (True, tab)
          else (False, tab[i := (tab ! i)\<lparr>se_isSelected := False\<rparr>]))"

definition clearSelectState :: "int \<Rightarrow> connection \<Rightarrow> select_table \<Rightarrow> select_table" where
  "clearSelectState ioa con tab =
     (case first_index (\<lambda>s. se_isSelected s \<and> se_ioa s = ioa \<and> se_connection s = con) tab of
        None \<Rightarrow> tab
      | Some i \<Rightarrow> tab[i := (tab ! i)\<lparr>se_isSelected := False\<rparr>])"

definition select_key :: "select_entry \<Rightarrow> int \<times> connection" where
  "select_key s = (se_ioa s, se_connection s)"

definition select_fill :: "int \<times> connection \<Rightarrow> u64 \<Rightarrow> select_entry \<Rightarrow> select_entry" where
  "select_fill k now s = s\<lparr>se_ioa := fst k, se_connection := snd k, se_timestamp := now, se_isSelected := True\<rparr>"

definition select_free :: "select_entry \<Rightarrow> select_entry" where
  "select_free s = s\<lparr>se_isSelected := False\<rparr>"

interpretation selects: slot_table se_isSelected select_key select_fill select_free
  by unfold_locales (simp_all add: select_key_def select_fill_def select_free_def)

lemma selects_holds: "selects.holds (ioa, con) = (\<lambda>s. se_isSelected s \<and> se_ioa s = ioa \<and> se_connection s = con)"
  by (auto simp: selects.holds_def select_key_def fun_eq_iff)

lemma clearSelectState_release: "clearSelectState ioa con tab = selects.release (ioa, con) tab"
  by (simp add: clearSelectState_def selects.release_def selects_holds select_free_def split: option.split)

section \<open>Lines printed for the process\<close>

text \<open>Without the newline that ends each.\<close>

definition sc_execute_line :: "string \<Rightarrow> int \<Rightarrow> bool \<Rightarrow> string" where
  "sc_execute_line mode ioa value =
     ''{\"type\":\"C_SC_NA_1\",\"action\":\"execute\",\"mode\":\"'' @ mode @ ''\",\"address\":'' @ dec_int ioa
       @ '',\"value\":\"'' @ (if value then ''on'' else ''off'') @ ''\"}''"

definition sc_select_line :: "string \<Rightarrow> int \<Rightarrow> string" where
  "sc_select_line mode ioa =
     ''{\"type\":\"C_SC_NA_1\",\"action\":\"select\",\"mode\":\"'' @ mode @ ''\",\"address\":'' @ dec_int ioa @ ''}''"

definition sp_execute_line :: "string \<Rightarrow> int \<Rightarrow> f32 \<Rightarrow> int \<Rightarrow> string" where
  "sp_execute_line mode ioa value ql =
     ''{\"type\":\"C_SE_NC_1\",\"action\":\"execute\",\"mode\":\"'' @ mode @ ''\",\"address\":'' @ dec_int ioa
       @ '',\"value\":'' @ fmt_2f value @ '',\"qualifier\":'' @ dec_int ql @ ''}''"

definition sp_select_line :: "string \<Rightarrow> int \<Rightarrow> string" where
  "sp_select_line mode ioa =
     ''{\"type\":\"C_SE_NC_1\",\"action\":\"select\",\"mode\":\"'' @ mode @ ''\",\"address\":'' @ dec_int ioa @ ''}''"

definition reset_line :: "int \<Rightarrow> u8 \<Rightarrow> string" where
  "reset_line ioa qrp =
     ''{\"type\":\"C_RP_NA_1\",\"action\":\"reset\",\"address\":'' @ dec_int ioa @ '',\"qrp\":'' @ dec_int (uint qrp) @ ''}''"

definition not_selected_line :: string where
  "not_selected_line = ''{\"error\":\"command not previously selected\"}''"

definition unselected_line :: "int \<Rightarrow> string" where
  "unselected_line ioa = ''{\"warn\":\"execute without select: '' @ dec_int ioa @ ''\"}''"

section \<open>The handlers\<close>

text \<open>Two replies after each other: the request is modified in place, its P/N bit is kept.\<close>

definition confirm :: "connection \<Rightarrow> asdu \<Rightarrow> asdu \<times> action list" where
  "confirm con a = (let a = CS101_ASDU_setCOT COT_ACTIVATION_CON a in (a, [SendASDU con a]))"

definition confirm_terminate :: "connection \<Rightarrow> asdu \<Rightarrow> asdu \<times> action list" where
  "confirm_terminate con a =
     (let a = CS101_ASDU_setCOT COT_ACTIVATION_CON a; b = CS101_ASDU_setCOT COT_ACTIVATION_TERMINATION a
      in (b, [SendASDU con a, SendASDU con b]))"

definition refuse :: "connection \<Rightarrow> asdu \<Rightarrow> asdu \<times> action list" where
  "refuse con a =
     (let a = CS101_ASDU_setNegative True (CS101_ASDU_setCOT COT_ACTIVATION_TERMINATION a) in (a, [SendASDU con a]))"

type_synonym handler_result = "(bool \<times> asdu \<times> action list \<times> select_table) outcome"

text \<open>
  The cast of the element to its type. The element is NULL when the payload is too short, and is used
  without a test: undefined. An object of another type cannot come back, since the type of the ASDU
  has been tested.
\<close>

fun single_command_of :: "information_object option \<Rightarrow> (int \<times> u8) outcome" where
  "single_command_of (Some (SingleCommand ioa sco)) = Returns (ioa, sco)"
| "single_command_of _ = Undefined"

fun set_point_of :: "information_object option \<Rightarrow> (int \<times> f32 \<times> u8) outcome" where
  "set_point_of (Some (SetpointCommandShort ioa value qos)) = Returns (ioa, value, qos)"
| "set_point_of _ = Undefined"

fun reset_process_of :: "information_object option \<Rightarrow> (int \<times> u8) outcome" where
  "reset_process_of (Some (ResetProcessCommand ioa qrp)) = Returns (ioa, qrp)"
| "reset_process_of _ = Undefined"

definition handle_single_command ::
    "string \<Rightarrow> u64 \<Rightarrow> connection \<Rightarrow> asdu \<Rightarrow> select_table \<Rightarrow> handler_result" where
  "handle_single_command mode now con a tab =
     obind (obind (CS101_ASDU_getElement a 0) single_command_of) (\<lambda>(ioa, sco).
         let select = SingleCommand_isSelect sco; value = SingleCommand_getState sco
         in if mode = ''direct'' then
              if \<not> select then
                let (a, sent) = confirm_terminate con a
                in Returns (True, a, Print (sc_execute_line ''direct'' ioa value) # sent, tab)
              else
                let tab = storeSelectState now ioa con tab; (a, sent) = confirm con a
                in Returns (True, a, sent @ [Print (sc_select_line ''direct'' ioa)], tab)
            else if select then
                let tab = storeSelectState now ioa con tab; (a, sent) = confirm con a
                in Returns (True, a, sent @ [Print (sc_select_line ''sbo'' ioa)], tab)
            else
              let (ok, tab) = isPreviouslySelected now ioa con tab
              in if ok then
                   let tab = clearSelectState ioa con tab; (a, sent) = confirm_terminate con a
                   in Returns (True, a, Print (sc_execute_line ''sbo'' ioa value) # sent, tab)
                 else
                   let (a, sent) = refuse con a
                   in Returns (True, a, sent @ [Print not_selected_line], tab))"

definition handle_set_point_command ::
    "string \<Rightarrow> u64 \<Rightarrow> connection \<Rightarrow> asdu \<Rightarrow> select_table \<Rightarrow> handler_result" where
  "handle_set_point_command mode now con a tab =
     obind (obind (CS101_ASDU_getElement a 0) set_point_of) (\<lambda>(ioa, value, qos).
         let select = SetpointCommandShort_isSelect qos; ql = SetpointCommandShort_getQL qos
         in if mode = ''direct'' then
              if \<not> select then
                let (a, sent) = confirm_terminate con a
                in Returns (True, a, Print (sp_execute_line ''direct'' ioa value ql) # sent, tab)
              else
                let tab = storeSelectState now ioa con tab; (a, sent) = confirm con a
                in Returns (True, a, sent @ [Print (sp_select_line ''direct'' ioa)], tab)
            else if select then
                let tab = storeSelectState now ioa con tab; (a, sent) = confirm con a
                in Returns (True, a, sent @ [Print (sp_select_line ''sbo'' ioa)], tab)
            else
              let (ok, tab) = isPreviouslySelected now ioa con tab
              in if ok then
                   let tab = clearSelectState ioa con tab; (a, sent) = confirm_terminate con a
                   in Returns (True, a, Print (sp_execute_line ''sbo'' ioa value ql) # sent, tab)
                 else
                   let (a, sent) = refuse con a
                   in Returns (True, a,
                        sent @ [Print (unselected_line ioa)], tab))"

definition handle_reset_process_command ::
    "connection \<Rightarrow> asdu \<Rightarrow> data_context list \<Rightarrow> (bool \<times> asdu \<times> action list \<times> data_context list) outcome" where
  "handle_reset_process_command con a ctxs =
     obind (obind (CS101_ASDU_getElement a 0) reset_process_of) (\<lambda>(ioa, qrp).
         let a = CS101_ASDU_setCOT COT_ACTIVATION_CON a;
             ctxs = (if qrp = 1 then reset_all_data ctxs else ctxs);
             b = CS101_ASDU_setCOT COT_ACTIVATION_TERMINATION a
         in Returns (True, b, [SendASDU con a, Print (reset_line ioa qrp), SendASDU con b], ctxs))"

lemma cast_Returns:
  "single_command_of io = Returns (ioa, sco) \<longleftrightarrow> io = Some (SingleCommand ioa sco)"
  "set_point_of io = Returns (ioa, v, qos) \<longleftrightarrow> io = Some (SetpointCommandShort ioa v qos)"
  "reset_process_of io = Returns (ioa, qrp) \<longleftrightarrow> io = Some (ResetProcessCommand ioa qrp)"
  by (auto elim: single_command_of.elims set_point_of.elims reset_process_of.elims)

text \<open>The state the handlers share, and the dispatch on the type.\<close>

record command_state =
  cs_table :: select_table
  cs_contexts :: "data_context list"

definition asduHandler ::
    "string \<Rightarrow> u64 \<Rightarrow> connection \<Rightarrow> asdu \<Rightarrow> command_state \<Rightarrow>
       (bool \<times> asdu \<times> action list \<times> command_state) outcome" where
  "asduHandler mode now con a st =
     (let ty = ucast (CS101_ASDU_getTypeID a) :: u32
      in if ty = C_SC_NA_1 then
           obind (handle_single_command mode now con a (cs_table st))
             (\<lambda>(r, a, acts, tab). Returns (r, a, acts, st\<lparr>cs_table := tab\<rparr>))
         else if ty = C_SE_NC_1 then
           obind (handle_set_point_command mode now con a (cs_table st))
             (\<lambda>(r, a, acts, tab). Returns (r, a, acts, st\<lparr>cs_table := tab\<rparr>))
         else if ty = C_RP_NA_1 then
           obind (handle_reset_process_command con a (cs_contexts st))
             (\<lambda>(r, a, acts, ctxs). Returns (r, a, acts, st\<lparr>cs_contexts := ctxs\<rparr>))
         else Returns (False, a, [], st))"

section \<open>Behaviour of one request\<close>

text \<open>The address of a command and whether it selects.\<close>

definition decoded_command :: "asdu \<Rightarrow> (int \<times> bool) option" where
  "decoded_command a =
     (case CS101_ASDU_getElement a 0 of
        Returns (Some (SingleCommand ioa sco)) \<Rightarrow> Some (ioa, SingleCommand_isSelect sco)
      | Returns (Some (SetpointCommandShort ioa value qos)) \<Rightarrow> Some (ioa, SetpointCommandShort_isSelect qos)
      | _ \<Rightarrow> None)"

definition executes_line :: "int \<Rightarrow> action \<Rightarrow> bool" where
  "executes_line ioa act \<longleftrightarrow> (\<exists>v. act = Print (sc_execute_line ''sbo'' ioa v)) \<or>
     (\<exists>v q. act = Print (sp_execute_line ''sbo'' ioa v q))"

lemmas command_lines = sc_execute_line_def sp_execute_line_def sc_select_line_def sp_select_line_def reset_line_def
  not_selected_line_def unselected_line_def

lemma execute_line_inject:
  "sc_execute_line m ioa v = sc_execute_line m ioa' v' \<Longrightarrow> ioa = ioa'"
  "sp_execute_line m ioa f q = sp_execute_line m ioa' f' q' \<Longrightarrow> ioa = ioa'"
  by (auto simp: command_lines dest: dec_int_separated)

lemma executes_line_simps:
  "executes_line ioa (Print (sc_execute_line ''sbo'' ioa' v)) \<longleftrightarrow> ioa = ioa'"
  "executes_line ioa (Print (sp_execute_line ''sbo'' ioa' f q)) \<longleftrightarrow> ioa = ioa'"
  "\<not> executes_line ioa (Print (sc_select_line m ioa'))" "\<not> executes_line ioa (Print (sp_select_line m ioa'))"
  "\<not> executes_line ioa (Print (reset_line ioa' r))" "\<not> executes_line ioa (SendASDU con a)"
  "\<not> executes_line ioa (Print not_selected_line)"
  "\<not> executes_line ioa (Print (unselected_line ioa'))"
  by (auto simp: executes_line_def dest: execute_line_inject) (simp_all add: command_lines)

lemma reply_actions:
  "snd (confirm con a) = [SendASDU con (fst (confirm con a))]"
  "\<exists>b. snd (confirm_terminate con a) = [SendASDU con b, SendASDU con (fst (confirm_terminate con a))]"
  "snd (refuse con a) = [SendASDU con (fst (refuse con a))]"
  by (simp_all add: confirm_def confirm_terminate_def refuse_def Let_def)

definition executed :: "action list \<Rightarrow> int set" where
  "executed acts = {ioa. \<exists>act \<in> set acts. executes_line ioa act}"

lemma executed_simps:
  "executed [] = {}" "executed (Print (sc_execute_line ''sbo'' ioa v) # acts) = insert ioa (executed acts)"
  "executed (Print (sp_execute_line ''sbo'' ioa f q) # acts) = insert ioa (executed acts)"
  "executed (Print (sc_select_line m ioa) # acts) = executed acts"
  "executed (Print (sp_select_line m ioa) # acts) = executed acts"
  "executed (Print (reset_line ioa r) # acts) = executed acts"
  "executed (SendASDU con a # acts) = executed acts"
  "executed (Print not_selected_line # acts) = executed acts"
  "executed (Print (unselected_line ioa') # acts) = executed acts"
  by (auto simp only: executed_def list.set bex_simps executes_line_simps)

text \<open>The four things a request can do to the select table when the mode is not \<open>direct\<close>.\<close>

lemma sbo_step:
  assumes "asduHandler mode now con a st = Returns (r, a', acts, st')" "mode \<noteq> ''direct''"
  obtains
    (select) ioa where "decoded_command a = Some (ioa, True)" "executed acts = {}"
      "cs_table st' = storeSelectState now ioa con (cs_table st)"
  | (execute) ioa tab where "decoded_command a = Some (ioa, False)" "executed acts = {ioa}"
      "isPreviouslySelected now ioa con (cs_table st) = (True, tab)" "cs_table st' = clearSelectState ioa con tab"
  | (refuse) ioa where "decoded_command a = Some (ioa, False)" "executed acts = {}"
      "isPreviouslySelected now ioa con (cs_table st) = (False, cs_table st')"
  | (other) "executed acts = {}" "cs_table st' = cs_table st"
proof -
  let ?ty = "ucast (CS101_ASDU_getTypeID a) :: u32"
  note defs = confirm_def confirm_terminate_def refuse_def Let_def decoded_command_def obind_Returns
  consider "?ty = C_SC_NA_1" | "?ty = C_SE_NC_1" | "?ty = C_RP_NA_1"
    | "?ty \<noteq> C_SC_NA_1" "?ty \<noteq> C_SE_NC_1" "?ty \<noteq> C_RP_NA_1" by blast
  then show thesis
  proof cases
    case 1
    with assms obtain tab where h: "handle_single_command mode now con a (cs_table st) = Returns (r, a', acts, tab)"
      and st': "st' = st\<lparr>cs_table := tab\<rparr>"
      by (auto simp: asduHandler_def obind_Returns)
    from h obtain ioa sco where el: "CS101_ASDU_getElement a 0 = Returns (Some (SingleCommand ioa sco))"
      by (auto simp: handle_single_command_def obind_Returns cast_Returns)
    obtain ok tab2 where p: "isPreviouslySelected now ioa con (cs_table st) = (ok, tab2)" by fastforce
    show thesis
      using h el st' p assms(2) select execute refuse
      by (auto simp: handle_single_command_def defs executed_simps split: if_splits)
  next
    case 2
    then have "?ty \<noteq> C_SC_NA_1" by (simp add: type_ids)
    with 2 assms obtain tab where h: "handle_set_point_command mode now con a (cs_table st) = Returns (r, a', acts, tab)"
      and st': "st' = st\<lparr>cs_table := tab\<rparr>"
      by (auto simp: asduHandler_def obind_Returns)
    from h obtain ioa v qos where el: "CS101_ASDU_getElement a 0 = Returns (Some (SetpointCommandShort ioa v qos))"
      by (auto simp: handle_set_point_command_def obind_Returns cast_Returns)
    obtain ok tab2 where p: "isPreviouslySelected now ioa con (cs_table st) = (ok, tab2)" by fastforce
    show thesis
      using h el st' p assms(2) select execute refuse
      by (auto simp: handle_set_point_command_def defs executed_simps split: if_splits)
  next
    case 3
    then have "?ty \<noteq> C_SC_NA_1" "?ty \<noteq> C_SE_NC_1" by (simp_all add: type_ids)
    with 3 assms obtain ctxs where h: "handle_reset_process_command con a (cs_contexts st) = Returns (r, a', acts, ctxs)"
      and st': "st' = st\<lparr>cs_contexts := ctxs\<rparr>"
      by (auto simp: asduHandler_def obind_Returns)
    from h have "executed acts = {}"
      by (auto simp: handle_reset_process_command_def obind_Returns executed_simps Let_def
  )
    then show thesis using other st' by simp
  next
    case 4
    then show thesis using assms(1) other by (simp add: asduHandler_def executed_simps)
  qed
qed

section \<open>Histories\<close>

type_synonym request = "u64 \<times> connection \<times> asdu \<times> action list"

inductive commands :: "string \<Rightarrow> request list \<Rightarrow> command_state \<Rightarrow> bool" for mode where
  commands_start: "cs_table st = empty_select_table \<Longrightarrow> commands mode [] st"
| commands_request: "commands mode h st \<Longrightarrow> asduHandler mode now con a st = Returns (r, a', acts, st') \<Longrightarrow>
     commands mode (h @ [(now, con, a, acts)]) st'"

definition selects_key :: "int \<times> connection \<Rightarrow> request \<Rightarrow> bool" where
  "selects_key k q = (case q of (t, c, a, acts) \<Rightarrow> c = snd k \<and> decoded_command a = Some (fst k, True))"

definition executes_key :: "int \<times> connection \<Rightarrow> request \<Rightarrow> bool" where
  "executes_key k q = (case q of (t, c, a, acts) \<Rightarrow> c = snd k \<and> fst k \<in> executed acts)"

abbreviation selected_slots :: "int \<times> connection \<Rightarrow> select_table \<Rightarrow> nat" where
  "selected_slots k tab \<equiv> length (filter (selects.holds k) tab)"

lemma isPreviouslySelected_True:
  assumes "isPreviouslySelected now ioa con tab = (True, tab')"
  obtains i where "tab' = tab" "first_index (selects.holds (ioa, con)) tab = Some i" "i < length tab"
    "selects.holds (ioa, con) (tab ! i)" "now - se_timestamp (tab ! i) < SELECT_TIMEOUT_MS"
  using assms first_index_SomeD [of "selects.holds (ioa, con)" tab]
  by (auto simp: isPreviouslySelected_def selects_holds split: option.splits if_splits)

lemma isPreviouslySelected_False:
  assumes "isPreviouslySelected now ioa con tab = (False, tab')"
  shows "tab' = tab \<or> (\<exists>i < length tab. tab' = tab[i := select_free (tab ! i)])"
  using assms first_index_SomeD [of "\<lambda>s. se_isSelected s \<and> se_ioa s = ioa \<and> se_connection s = con" tab]
  by (fastforce simp: isPreviouslySelected_def select_free_def split: option.splits if_splits)

lemma storeSelectState_cases:
  "storeSelectState now ioa con tab = tab \<or>
     (\<exists>i < length tab. storeSelectState now ioa con tab = tab[i := select_fill (ioa, con) now (tab ! i)])"
  using first_index_SomeD [of "\<lambda>s. \<not> se_isSelected s \<or> se_ioa s = ioa" tab]
  by (fastforce simp: storeSelectState_def select_fill_def split: option.splits)

lemma slots_update:
  "i < length tab \<Longrightarrow> selected_slots k (tab[i := s]) + of_bool (selects.holds k (tab ! i)) =
     selected_slots k tab + of_bool (selects.holds k s)"
  by (rule filter_length_update)

lemma slots_fill:
  "i < length tab \<Longrightarrow> selected_slots k (tab[i := select_fill k' now s]) \<le> selected_slots k tab + of_bool (k = k')"
  using slots_update [of i tab k "select_fill k' now s"] by simp

lemma slots_store: "selected_slots k (storeSelectState now ioa con tab) \<le> selected_slots k tab + of_bool (k = (ioa, con))"
  using storeSelectState_cases [of now ioa con tab] slots_fill [of _ tab k "(ioa, con)" now] by fastforce

lemma slots_free: "i < length tab \<Longrightarrow> selected_slots k (tab[i := select_free (tab ! i)]) \<le> selected_slots k tab"
  using slots_update [of i tab k "select_free (tab ! i)"] by simp

lemma slots_execute:
  assumes "isPreviouslySelected now ioa con tab = (True, tab')"
  shows "selected_slots k (clearSelectState ioa con tab') + of_bool (k = (ioa, con)) \<le> selected_slots k tab"
proof -
  obtain i where i: "tab' = tab" "first_index (selects.holds (ioa, con)) tab = Some i" "i < length tab"
    "selects.holds (ioa, con) (tab ! i)"
    using assms by (rule isPreviouslySelected_True)
  then have "clearSelectState ioa con tab' = tab[i := select_free (tab ! i)]"
    by (simp add: clearSelectState_release selects.release_def)
  then show ?thesis
    using i slots_update [of i tab k "select_free (tab ! i)"] by auto
qed

lemma slots_empty: "selected_slots k empty_select_table = 0"
  by (simp add: empty_select_table_def selects.holds_def)

text \<open>Every selected slot comes from a select that was received.\<close>

definition table_justified :: "request list \<Rightarrow> select_table \<Rightarrow> bool" where
  "table_justified h tab \<longleftrightarrow> (\<forall>s \<in> set tab. se_isSelected s \<longrightarrow>
     (\<exists>q \<in> set h. selects_key (select_key s) q \<and> fst q = se_timestamp s))"

lemma justified_weaken:
  "table_justified h tab \<Longrightarrow> set h \<subseteq> set h' \<Longrightarrow> (\<And>s. s \<in> set tab' \<Longrightarrow> se_isSelected s \<Longrightarrow> s \<in> set tab) \<Longrightarrow>
     table_justified h' tab'"
  unfolding table_justified_def by blast

lemma free_only_removes: "s \<in> set (tab[i := select_free x]) \<Longrightarrow> se_isSelected s \<Longrightarrow> s \<in> set tab"
  by (auto simp: select_free_def dest!: set_update_subset_insert2)

lemma clear_only_removes: "s \<in> set (clearSelectState ioa con tab) \<Longrightarrow> se_isSelected s \<Longrightarrow> s \<in> set tab"
  by (auto simp: clearSelectState_release selects.release_def dest: free_only_removes split: option.splits)

lemma commands_justified:
  assumes "commands mode h st" "mode \<noteq> ''direct''"
  shows "table_justified h (cs_table st) \<and>
    (\<forall>k. length (filter (executes_key k) h) + selected_slots k (cs_table st) \<le> length (filter (selects_key k) h))"
  using assms
proof (induction rule: commands.induct)
  case (commands_start st)
  then show ?case by (simp add: slots_empty table_justified_def) (simp add: empty_select_table_def)
next
  case (commands_request h st now con a r a' acts st')
  let ?h = "h @ [(now, con, a, acts)]"
  have just: "table_justified h (cs_table st)"
    and count: "length (filter (executes_key k) h) + selected_slots k (cs_table st) \<le> length (filter (selects_key k) h)" for k
    using commands_request.IH commands_request.prems by blast+
  from commands_request.hyps(2) commands_request.prems show ?case
  proof (cases rule: sbo_step)
    case (select ioa)
    have q: "selects_key (ioa, con) (now, con, a, acts)" using select(1) by (simp add: selects_key_def)
    have "table_justified ?h (storeSelectState now ioa con (cs_table st))"
      unfolding table_justified_def
    proof (intro ballI impI)
      fix s assume s: "s \<in> set (storeSelectState now ioa con (cs_table st))" "se_isSelected s"
      then consider "s \<in> set (cs_table st)" | "select_key s = (ioa, con)" "se_timestamp s = now"
        using storeSelectState_cases [of now ioa con "cs_table st"]
        by (auto simp: select_fill_def select_key_def dest!: set_update_subset_insert2)
      then show "\<exists>q \<in> set ?h. selects_key (select_key s) q \<and> fst q = se_timestamp s"
        using just s(2) q by cases (auto simp: table_justified_def)
    qed
    moreover have "length (filter (executes_key k) ?h) + selected_slots k (cs_table st') \<le> length (filter (selects_key k) ?h)" for k
    proof -
      have "length (filter (executes_key k) ?h) = length (filter (executes_key k) h)"
        "length (filter (selects_key k) h) + of_bool (k = (ioa, con)) \<le> length (filter (selects_key k) ?h)"
        using select(2) q by (auto simp: executes_key_def)
      then show ?thesis
        using count [of k] slots_store [of k now ioa con "cs_table st"] unfolding select(3) by linarith
    qed
    ultimately show ?thesis unfolding select(3) by blast
  next
    case (execute ioa tab)
    have "tab = cs_table st" using execute(3) by (rule isPreviouslySelected_True)
    then have "table_justified ?h (cs_table st')"
      using justified_weaken [OF just, of ?h "cs_table st'"] clear_only_removes unfolding execute(4) by force
    moreover have "length (filter (executes_key k) ?h) + selected_slots k (cs_table st') \<le> length (filter (selects_key k) ?h)" for k
    proof -
      have "length (filter (executes_key k) ?h) = length (filter (executes_key k) h) + of_bool (k = (ioa, con))"
        "length (filter (selects_key k) h) \<le> length (filter (selects_key k) ?h)"
        using execute(2) by (auto simp: executes_key_def prod_eq_iff)
      then show ?thesis
        using count [of k] slots_execute [OF execute(3), of k] unfolding execute(4) by linarith
    qed
    ultimately show ?thesis by blast
  next
    case (refuse ioa)
    have le: "selected_slots k (cs_table st') \<le> selected_slots k (cs_table st)" for k
      using isPreviouslySelected_False [OF refuse(3)] slots_free [of _ "cs_table st" k] by auto
    have "table_justified ?h (cs_table st')"
      using isPreviouslySelected_False [OF refuse(3)] free_only_removes
      by (intro justified_weaken [OF just]) (auto simp: subset_insertI)
    moreover have "\<not> executes_key k (now, con, a, acts)" for k using refuse(2) by (simp add: executes_key_def split_def)
    then have "length (filter (executes_key k) ?h) + selected_slots k (cs_table st') \<le> length (filter (selects_key k) ?h)" for k
      using count [of k] le [of k] by simp
    ultimately show ?thesis by blast
  next
    case other
    have "table_justified ?h (cs_table st')"
      by (intro justified_weaken [OF just]) (auto simp: other)
    moreover have "\<not> executes_key k (now, con, a, acts)" for k using other(1) by (simp add: executes_key_def split_def)
    then have "length (filter (executes_key k) ?h) + selected_slots k (cs_table st') \<le> length (filter (selects_key k) ?h)" for k
      using count [of k] other(2) by simp
    ultimately show ?thesis by blast
  qed
qed

section \<open>Replies\<close>

text \<open>A reply to \<open>a\<close> on connection \<open>con\<close>: everything but the cause and the P/N bit is the request's.\<close>

definition mirrors :: "connection \<Rightarrow> asdu \<Rightarrow> action \<Rightarrow> bool" where
  "mirrors con a act \<longleftrightarrow> (case act of
       SendASDU c b \<Rightarrow> c = con \<and> asdu_payload b = asdu_payload a \<and>
         CS101_ASDU_getTypeID b = CS101_ASDU_getTypeID a \<and> CS101_ASDU_getCA b = CS101_ASDU_getCA a \<and>
         CS101_ASDU_getCOT b \<in> {COT_ACTIVATION_CON, COT_ACTIVATION_TERMINATION}
     | EnqueueASDU b \<Rightarrow> False
     | Print s \<Rightarrow> True)"

lemma cot_fields:
  assumes "header_wf a" "cot_ok cot"
  shows "CS101_ASDU_getCOT (CS101_ASDU_setCOT cot a) = cot" "asdu_payload (CS101_ASDU_setCOT cot a) = asdu_payload a"
    "CS101_ASDU_getTypeID (CS101_ASDU_setCOT cot a) = CS101_ASDU_getTypeID a"
    "CS101_ASDU_getCA (CS101_ASDU_setCOT cot a) = CS101_ASDU_getCA a"
proof -
  show "CS101_ASDU_getCOT (CS101_ASDU_setCOT cot a) = cot"
    using asdu_cot.get_set [OF assms] .
  show "asdu_payload (CS101_ASDU_setCOT cot a) = asdu_payload a" by (simp add: CS101_ASDU_setCOT_def)
  have h: "asdu_header (CS101_ASDU_setCOT cot a) ! i = asdu_header a ! i" if "i \<noteq> 2" for i
    using that assms(1) by (simp add: CS101_ASDU_setCOT_def header_nth_low)
  have "caIndex a \<noteq> 2" "caIndex a + 1 \<noteq> 2" using assms(1) by (auto simp: caIndex_def header_wf_def params_ok_def)
  then show "CS101_ASDU_getTypeID (CS101_ASDU_setCOT cot a) = CS101_ASDU_getTypeID a"
    "CS101_ASDU_getCA (CS101_ASDU_setCOT cot a) = CS101_ASDU_getCA a"
    using h by (simp_all add: CS101_ASDU_getTypeID_def CS101_ASDU_getCA_def CS101_ASDU_setCOT_def Let_def)
qed

lemma mirrors_replies:
  assumes "header_wf a"
  shows "mirrors con a (SendASDU con (CS101_ASDU_setCOT COT_ACTIVATION_CON a))"
    "mirrors con a (SendASDU con (CS101_ASDU_setCOT COT_ACTIVATION_TERMINATION (CS101_ASDU_setCOT COT_ACTIVATION_CON a)))"
    "mirrors con a (SendASDU con (CS101_ASDU_setNegative True (CS101_ASDU_setCOT COT_ACTIVATION_TERMINATION a)))"
    "mirrors con a (Print s)"
  using assms cot_fields [OF assms cot_ok_replies(1)] cot_fields [OF _ cot_ok_replies(2)]
    reply_fields [OF assms cot_ok_replies(2), of True]
  by (simp_all add: mirrors_def header_wf_setCOT flip: reply_asdu_def)

lemma handled_type:
  assumes "asduHandler mode now con a st = Returns (True, a', acts, st')"
  obtains (single) ioa sco tab where "handle_single_command mode now con a (cs_table st) = Returns (True, a', acts, tab)"
      "CS101_ASDU_getElement a 0 = Returns (Some (SingleCommand ioa sco))"
  | (set_point) ioa v qos tab where "handle_set_point_command mode now con a (cs_table st) = Returns (True, a', acts, tab)"
      "CS101_ASDU_getElement a 0 = Returns (Some (SetpointCommandShort ioa v qos))"
  | (reset) ioa qrp ctxs where "handle_reset_process_command con a (cs_contexts st) = Returns (True, a', acts, ctxs)"
      "CS101_ASDU_getElement a 0 = Returns (Some (ResetProcessCommand ioa qrp))"
  using assms
  by (auto simp: asduHandler_def obind_Returns Let_def split: if_splits)
    (auto simp: handle_single_command_def handle_set_point_command_def handle_reset_process_command_def
      obind_Returns cast_Returns)

section \<open>A session\<close>

text \<open>Requests with one command each: a client selects address 5 and executes it a second later.\<close>

definition command_request :: "information_object \<Rightarrow> asdu" where
  "command_request io = add_all [io] (CS101_ASDU_create defaultAppLayerParameters False 6 0 1 False False)"

lemma command_request_represents:
  assumes "io_wf io" "addr_ok defaultAppLayerParameters io" "body_size (InformationObject_getType io) \<le> 12"
  shows "represents (command_request io) [io]"
proof -
  have "fits defaultAppLayerParameters False [io]"
    using length_io_layout [OF default_params_ok assms(1), of False] assms(3)
    by (simp add: fits_def asduHeaderLength_def)
  then have "taken defaultAppLayerParameters False [] [io] = [io]"
    by (simp add: accepts_def compatible_def)
  then show ?thesis
    using add_all_refines [OF represents_create [OF default_params_ok], of "[io]" False 6 0 1 False False] assms
    by (simp add: command_request_def)
qed

definition demo_select :: asdu where "demo_select = command_request (SingleCommand 5 0x81)"
definition demo_execute :: asdu where "demo_execute = command_request (SingleCommand 5 0x01)"

definition demo_state :: command_state where
  "demo_state = \<lparr>cs_table = empty_select_table, cs_contexts = []\<rparr>"

definition demo_selected :: command_state where
  "demo_selected = demo_state\<lparr>cs_table := storeSelectState 1000 5 7 empty_select_table\<rparr>"

definition demo_history :: "request list" where
  "demo_history = [(1000, 7, demo_select,
     [SendASDU 7 (CS101_ASDU_setCOT COT_ACTIVATION_CON demo_select), Print (sc_select_line ''sbo'' 5)])]"

lemma demo_represents: "represents demo_select [SingleCommand 5 0x81]" "represents demo_execute [SingleCommand 5 0x01]"
  unfolding demo_select_def demo_execute_def
  by (rule command_request_represents; simp add: addr_ok_def)+

lemma demo_elements:
  "CS101_ASDU_getElement demo_select 0 = Returns (Some (SingleCommand 5 0x81))"
  "CS101_ASDU_getElement demo_execute 0 = Returns (Some (SingleCommand 5 0x01))"
  using element_of_command [OF demo_represents(1)] element_of_command [OF demo_represents(2)] by simp_all

lemma demo_types: "CS101_ASDU_getTypeID demo_select = 45" "CS101_ASDU_getTypeID demo_execute = 45"
  using demo_represents by (simp_all add: represents_def type_byte_def type_ids)

lemma demo_flags: "SingleCommand_isSelect 0x81" "\<not> SingleCommand_isSelect 0x01"
  by (simp_all add: SingleCommand_isSelect_def)

lemma demo_commands: "commands ''sbo'' demo_history demo_selected"
proof -
  have "asduHandler ''sbo'' 1000 7 demo_select demo_state =
      Returns (True, CS101_ASDU_setCOT COT_ACTIVATION_CON demo_select,
        [SendASDU 7 (CS101_ASDU_setCOT COT_ACTIVATION_CON demo_select), Print (sc_select_line ''sbo'' 5)], demo_selected)"
    using demo_flags
    by (simp add: asduHandler_def demo_types type_ids handle_single_command_def demo_elements confirm_def
        demo_selected_def demo_state_def Let_def)
  from commands_request [OF commands_start this] show ?thesis
    by (simp add: demo_history_def demo_state_def)
qed

lemma demo_table: "demo_selected = demo_state\<lparr>cs_table := \<lparr>se_ioa = 5, se_connection = 7, se_timestamp = 1000,
     se_isSelected = True\<rparr> # tl empty_select_table\<rparr>"
  by (simp add: demo_selected_def storeSelectState_def empty_select_table_def MAX_SELECT_ENTRIES_def
      numeral_eq_Suc)

lemma demo_executes:
  "\<exists>a' acts st'. asduHandler ''sbo'' 2000 7 demo_execute demo_selected = Returns (True, a', acts, st') \<and> 5 \<in> executed acts"
proof -
  have "isPreviouslySelected 2000 5 7 (cs_table demo_selected) = (True, cs_table demo_selected)"
    by (simp add: demo_table isPreviouslySelected_def SELECT_TIMEOUT_MS_def)
  then show ?thesis
    using demo_flags
    by (simp add: asduHandler_def demo_types type_ids handle_single_command_def demo_elements confirm_terminate_def
        executed_simps Let_def)
qed

section \<open>Properties\<close>

text \<open>
  C11: with select before operate a command is executed only after a select of the same address by the
  same connection, received less than five seconds earlier (in the 64 bit clock of the server).
\<close>

theorem sbo_execute_needs_select:
  assumes "commands mode h st" "mode \<noteq> ''direct''" "asduHandler mode now con a st = Returns (r, a', acts, st')"
    and "ioa \<in> executed acts"
  shows "\<exists>(t, c, b, _) \<in> set h. c = con \<and> decoded_command b = Some (ioa, True) \<and> now - t < 5000"
  using assms(3,2)
proof (cases rule: sbo_step)
  case (execute ioa' tab)
  then have "ioa' = ioa" using assms(4) by simp
  with execute(3) obtain i where i: "i < length (cs_table st)" "selects.holds (ioa, con) (cs_table st ! i)"
    "now - se_timestamp (cs_table st ! i) < SELECT_TIMEOUT_MS"
    by (auto elim: isPreviouslySelected_True)
  have "table_justified h (cs_table st)" using commands_justified [OF assms(1,2)] by blast
  with i nth_mem [OF i(1)] obtain q where q: "q \<in> set h" "selects_key (select_key (cs_table st ! i)) q"
    "fst q = se_timestamp (cs_table st ! i)"
    unfolding table_justified_def by (auto simp: selects_holds)
  have key: "select_key (cs_table st ! i) = (ioa, con)" using i(2) by (simp add: selects.holds_def)
  obtain t c b ac where "q = (t, c, b, ac)" by (cases q) auto
  with q i(3) show ?thesis unfolding key
    by (intro bexI [of _ q]) (simp_all add: selects_key_def SELECT_TIMEOUT_MS_def)
qed (use assms(4) in simp_all)

theorem sbo_execute_needs_select_witness:
  "\<exists>(t, c, b, _) \<in> set demo_history. c = 7 \<and> decoded_command b = Some (5, True) \<and> 2000 - t < 5000"
proof -
  obtain a' acts st' where "asduHandler ''sbo'' 2000 7 demo_execute demo_selected = Returns (True, a', acts, st')"
    "5 \<in> executed acts"
    using demo_executes by blast
  then show ?thesis by (intro sbo_execute_needs_select [OF demo_commands]) simp_all
qed

text \<open>
  C12: a select is used up by one execution: in any history the commands executed for an address of a
  connection are not more than the selects it sent for that address.
\<close>

theorem sbo_select_used_once:
  assumes "commands mode h st" "mode \<noteq> ''direct''"
  shows "length (filter (executes_key k) h) \<le> length (filter (selects_key k) h)"
  using commands_justified [OF assms] by (meson add_leD1)

theorem sbo_select_used_once_witness:
  "length (filter (executes_key (5, 7)) demo_history) \<le> length (filter (selects_key (5, 7)) demo_history)"
  by (rule sbo_select_used_once [OF demo_commands]) simp

text \<open>
  C13: a handled command is answered, and every answer goes to the requesting connection and repeats
  the type, the common address and the information objects of the request, with the cause
  activation confirmation or activation termination.
\<close>

theorem command_replies_mirror_request:
  assumes "header_wf a" "asduHandler mode now con a st = Returns (True, a', acts, st')"
  shows "list_all (mirrors con a) acts \<and> (\<exists>b. SendASDU con b \<in> set acts)"
  using assms(2)
proof (cases rule: handled_type)
  case (single ioa sco tab)
  then show ?thesis
    using mirrors_replies [OF assms(1), of con]
    by (auto simp: handle_single_command_def confirm_def confirm_terminate_def refuse_def Let_def split: if_splits prod.splits)
next
  case (set_point ioa v qos tab)
  then show ?thesis
    using mirrors_replies [OF assms(1), of con]
    by (auto simp: handle_set_point_command_def confirm_def confirm_terminate_def refuse_def Let_def split: if_splits prod.splits)
next
  case (reset ioa qrp ctxs)
  then show ?thesis
    using mirrors_replies [OF assms(1), of con] by (auto simp: handle_reset_process_command_def Let_def)
qed

theorem command_replies_mirror_request_witness:
  "\<exists>acts. list_all (mirrors 7 demo_execute) acts \<and> (\<exists>b. SendASDU 7 b \<in> set acts)"
proof -
  obtain a' acts st' where "asduHandler ''sbo'' 2000 7 demo_execute demo_selected = Returns (True, a', acts, st')"
    using demo_executes by blast
  moreover have "header_wf demo_execute" using demo_represents by (simp add: represents_def)
  ultimately show ?thesis using command_replies_mirror_request by blast
qed

text \<open>
  A command whose payload is too short for one object is undefined behaviour in every handler: the
  element is NULL and is dereferenced, so one frame of a client stops the server.
\<close>

theorem short_command_undefined:
  assumes "CS101_ASDU_getTypeID a \<in> {45, 50, 105}"
    and "int (length (asdu_payload a)) < sizeOfIOA (asdu_parameters a) + 1"
  shows "asduHandler mode now con a st = Undefined"
  using element_of_short_command [OF assms] assms(1)
  by (auto simp: asduHandler_def handle_single_command_def handle_set_point_command_def
      handle_reset_process_command_def type_ids Let_def)

theorem short_command_undefined_witness:
  "asduHandler ''sbo'' 0 7 (CS101_ASDU_setTypeID 45 (CS101_ASDU_create defaultAppLayerParameters False 6 0 1 False False))
     demo_state = Undefined"
proof (rule short_command_undefined)
  let ?a = "CS101_ASDU_create defaultAppLayerParameters False 6 0 1 False False"
  have "header_wf ?a" by (rule header_wf_create) simp
  then show "CS101_ASDU_getTypeID (CS101_ASDU_setTypeID 45 ?a) \<in> {45, 50, 105}"
    using asdu_type.get_set [of ?a 45] by simp
qed (simp add: CS101_ASDU_setTypeID_def CS101_ASDU_create_def)

text \<open>
  When the select table is full of other addresses a select is confirmed positively, as if it had
  been stored, but the execution that follows it is refused.
\<close>

theorem select_lost_when_full:
  assumes "\<forall>s \<in> set tab. se_isSelected s \<and> se_ioa s \<noteq> ioa"
    and "CS101_ASDU_getElement a 0 = Returns (Some (SingleCommand ioa sco))" "SingleCommand_isSelect sco"
    and "CS101_ASDU_getElement b 0 = Returns (Some (SingleCommand ioa sco'))" "\<not> SingleCommand_isSelect sco'"
    and "mode \<noteq> ''direct''"
  shows "(\<exists>a'. handle_single_command mode now con a tab =
      Returns (True, a', [SendASDU con (CS101_ASDU_setCOT COT_ACTIVATION_CON a), Print (sc_select_line ''sbo'' ioa)], tab)) \<and>
    (\<exists>b'. handle_single_command mode now' con b tab =
      Returns (True, b', [SendASDU con (reply_asdu COT_ACTIVATION_TERMINATION True b), Print not_selected_line], tab))"
proof -
  have "first_index (\<lambda>s. \<not> se_isSelected s \<or> se_ioa s = ioa) tab = None"
    "first_index (\<lambda>s. se_isSelected s \<and> se_ioa s = ioa \<and> se_connection s = con) tab = None"
    using assms(1) by (auto simp: first_index_None)
  then have "storeSelectState now ioa con tab = tab" "isPreviouslySelected now' ioa con tab = (False, tab)"
    by (simp_all add: storeSelectState_def isPreviouslySelected_def)
  then show ?thesis
    using assms(2-) by (simp add: handle_single_command_def confirm_def refuse_def reply_asdu_def Let_def)
qed

theorem select_lost_when_full_witness:
  "(\<exists>a'. handle_single_command ''sbo'' 1000 7 demo_select
        [\<lparr>se_ioa = 6, se_connection = 7, se_timestamp = 0, se_isSelected = True\<rparr>] =
      Returns (True, a', [SendASDU 7 (CS101_ASDU_setCOT COT_ACTIVATION_CON demo_select),
        Print (sc_select_line ''sbo'' 5)],
        [\<lparr>se_ioa = 6, se_connection = 7, se_timestamp = 0, se_isSelected = True\<rparr>])) \<and>
    (\<exists>b'. handle_single_command ''sbo'' 2000 7 demo_execute
        [\<lparr>se_ioa = 6, se_connection = 7, se_timestamp = 0, se_isSelected = True\<rparr>] =
      Returns (True, b', [SendASDU 7 (reply_asdu COT_ACTIVATION_TERMINATION True demo_execute),
        Print not_selected_line], [\<lparr>se_ioa = 6, se_connection = 7, se_timestamp = 0, se_isSelected = True\<rparr>]))"
  by (rule select_lost_when_full [OF _ demo_elements(1) demo_flags(1) demo_elements(2) demo_flags(2)]) simp_all


text \<open>
  C14: the process reset with the general qualifier overwrites every stored point of every type with
  zero, quality and type tag included, so that points which never had a value become good; the
  configuration and the select table stay. Any other qualifier is answered in the same way and
  changes nothing.
\<close>

theorem reset_process_effect:
  assumes "contexts_wf (cs_contexts st)" "CS101_ASDU_getTypeID a = 105"
    and "CS101_ASDU_getElement a 0 = Returns (Some (ResetProcessCommand ioa qrp))"
  shows "\<exists>a' acts ctxs. asduHandler mode now con a st = Returns (True, a', acts, st\<lparr>cs_contexts := ctxs\<rparr>) \<and>
    contexts_wf ctxs \<and> map ioa_list ctxs = map ioa_list (cs_contexts st) \<and>
    (if qrp = 1 then \<forall>ctx \<in> set ctxs. data_array ctx = replicate (ctx_count ctx) zero_value \<and>
        (\<forall>d \<in> set (data_array ctx). dv_quality d = QUALITY_GOOD)
     else ctxs = cs_contexts st)"
proof -
  let ?ctxs = "if qrp = 1 then reset_all_data (cs_contexts st) else cs_contexts st"
  have "data_array (reset_context ctx) = replicate (ctx_count (reset_context ctx)) zero_value"
    if "ctx \<in> set (cs_contexts st)" for ctx
    using assms(1) that by (auto simp: contexts_wf_def list_all_iff ctx_wf_def reset_context_def)
  moreover have "dv_quality zero_value = QUALITY_GOOD" by (simp add: zero_value_def QUALITY_GOOD_def)
  ultimately have "if qrp = 1 then \<forall>ctx \<in> set ?ctxs. data_array ctx = replicate (ctx_count ctx) zero_value \<and>
      (\<forall>d \<in> set (data_array ctx). dv_quality d = QUALITY_GOOD) else ?ctxs = cs_contexts st"
    by (simp add: reset_all_data_def)
  moreover have "map ioa_list ?ctxs = map ioa_list (cs_contexts st)"
    by (simp add: reset_all_data_def reset_context_def o_def)
  moreover have "\<exists>a' acts. asduHandler mode now con a st = Returns (True, a', acts, st\<lparr>cs_contexts := ?ctxs\<rparr>)"
    using assms(2,3) by (simp add: asduHandler_def handle_reset_process_command_def type_ids Let_def)
  moreover have "contexts_wf ?ctxs" using assms(1) contexts_wf_reset by simp
  ultimately show ?thesis by blast
qed

theorem reset_process_effect_witness:
  "\<exists>a' acts ctxs. asduHandler ''sbo'' 0 7 (command_request (ResetProcessCommand 0 1))
      \<lparr>cs_table = [], cs_contexts = init_data_contexts\<rparr> =
      Returns (True, a', acts, \<lparr>cs_table = [], cs_contexts = init_data_contexts\<rparr>\<lparr>cs_contexts := ctxs\<rparr>) \<and>
    contexts_wf ctxs \<and> map ioa_list ctxs = map ioa_list init_data_contexts \<and>
    (\<forall>ctx \<in> set ctxs. data_array ctx = replicate (ctx_count ctx) zero_value \<and>
      (\<forall>d \<in> set (data_array ctx). dv_quality d = QUALITY_GOOD))"
proof -
  have r: "represents (command_request (ResetProcessCommand 0 1)) [ResetProcessCommand 0 1]"
    by (rule command_request_represents) (simp_all add: addr_ok_def)
  then have "CS101_ASDU_getElement (command_request (ResetProcessCommand 0 1)) 0 = Returns (Some (ResetProcessCommand 0 1))"
    by (rule element_of_command) simp_all
  moreover have "CS101_ASDU_getTypeID (command_request (ResetProcessCommand 0 1)) = 105"
    using r by (simp add: represents_def type_byte_def type_ids)
  ultimately show ?thesis
    using reset_process_effect [of "\<lparr>cs_table = [], cs_contexts = init_data_contexts\<rparr>"
        "command_request (ResetProcessCommand 0 1)" 0 1 "''sbo''" 0 7] contexts_wf_init by simp
qed

end
