(* ===== verification/Interrogation.thy ===== *)
theory Interrogation
  imports Data_Manager Effects
begin

text \<open>
  The station interrogation (\<open>json-iec104-server/src/protocol/interrogation.c\<close>): building an
  information object from a stored value, cutting the configured addresses into runs of consecutive
  addresses and the runs into chunks, and sending one ASDU per chunk. The specification is that
  the chunks cover every configured point once and in order, and that each ASDU carries exactly the
  objects of its chunk; the length limits this needs are explicit.
\<close>

section \<open>Sizes\<close>

definition calcMaxIOAs_SQ0 :: "int \<Rightarrow> int \<Rightarrow> int" where
  "calcMaxIOAs_SQ0 maxASDUSize ioSize = c_div (maxASDUSize - 6) ioSize"

definition calcMaxIOAs_SQ1 :: "int \<Rightarrow> int \<Rightarrow> int \<Rightarrow> int" where
  "calcMaxIOAs_SQ1 maxASDUSize ioSizeWithIOA ioSizeNoIOA =
     (if maxASDUSize \<le> 6 + ioSizeWithIOA then 1
      else c_div (maxASDUSize - 6 - ioSizeWithIOA) ioSizeNoIOA + 1)"

definition getIOSizeNoIOA :: "int \<Rightarrow> int" where
  "getIOSizeNoIOA ioSizeWithIOA = ioSizeWithIOA - 3"

section \<open>Information objects from stored values\<close>

text \<open>
  The time stamp handed to the encoder is the address of the member \<open>timestamp\<close>, so the seven bytes
  that are encoded are the low bytes of the pointer stored there. \<open>mem\<close> is the content of the
  memory that malloc returns for the counter reading. The result None is NULL.
\<close>

definition timestamp_bytes :: "data_value \<Rightarrow> bytes" where
  "timestamp_bytes d = le_bytes 7 (dv_timestamp d)"

definition create_io_for_type ::
    "bytes \<Rightarrow> u32 \<Rightarrow> int \<Rightarrow> data_value \<Rightarrow> information_object option outcome" where
  "create_io_for_type mem type_id ioa d =
     (let ts = timestamp_bytes d; q = dv_quality d
      in if type_id = M_SP_TB_1 then Returns (Some (SinglePointWithCP56Time2a_create ioa (bool_val d) q ts))
      else if type_id = M_DP_TB_1 then Returns (Some (DoublePointWithCP56Time2a_create ioa (dp_val d) q ts))
      else if type_id = M_ME_TD_1 then
        obind (of_defined (MeasuredValueNormalizedWithCP56Time2a_create ioa (float_val d) q ts))
          (\<lambda>io. Returns (Some io))
      else if type_id = M_IT_TB_1 then
        let bcr = BinaryCounterReading_create mem (uint32_val d) 0 False False False
        in Returns (Some (IntegratedTotalsWithCP56Time2a_create ioa bcr ts))
      else if type_id = M_SP_NA_1 then Returns (Some (SinglePointInformation_create ioa (bool_val d) q))
      else if type_id = M_DP_NA_1 then Returns (Some (DoublePointInformation_create ioa (dp_val d) q))
      else if type_id = M_ME_NA_1 then
        obind (of_defined (MeasuredValueNormalized_create ioa (float_val d) q)) (\<lambda>io. Returns (Some io))
      else if type_id = M_ME_NB_1 then Returns (Some (MeasuredValueScaled_create ioa (int16_val d) q))
      else if type_id = M_ME_NC_1 then Returns (Some (MeasuredValueShort_create ioa (float_val d) q))
      else if type_id = M_ME_ND_1 then
        obind (of_defined (MeasuredValueNormalizedWithoutQuality_create ioa (float_val d)))
          (\<lambda>io. Returns (Some io))
      else if type_id = M_ME_TF_1 then
        Returns (Some (MeasuredValueShortWithCP56Time2a_create ioa (float_val d) q ts))
      else if type_id = M_ME_TB_1 then
        Returns (Some (MeasuredValueScaledWithCP56Time2a_create ioa (int16_val d) q ts))
      else Returns None)"

definition create_offline_io_for_type ::
    "bytes \<Rightarrow> u32 \<Rightarrow> int \<Rightarrow> data_value \<Rightarrow> information_object option outcome" where
  "create_offline_io_for_type mem original_type ioa d =
     (case get_data_type_info original_type of None \<Rightarrow> Returns None
      | Some info \<Rightarrow>
          if dti_offline_equivalent info = 0 then Returns None
          else create_io_for_type mem (dti_offline_equivalent info) ioa d)"

section \<open>Runs and chunks\<close>

text \<open>The inner while loop: the length of the run of consecutive addresses that starts at \<open>i\<close>.\<close>

function seq_run :: "int list \<Rightarrow> nat \<Rightarrow> nat \<Rightarrow> nat \<Rightarrow> nat" where
  "seq_run ioas count i seq_len =
     (if i + seq_len < count \<and> ioas ! (i + seq_len) = ioas ! (i + seq_len - 1) + 1
      then seq_run ioas count i (seq_len + 1) else seq_len)"
  by pat_completeness auto
termination
  by (relation "measure (\<lambda>(ioas, count, i, seq_len). count - (i + seq_len))") auto

declare seq_run.simps [simp del]

lemma seq_run_ge: "s \<le> seq_run ioas count i s"
  by (induction ioas count i s rule: seq_run.induct)
    (subst seq_run.simps, use Suc_leD in \<open>auto simp: not_less_eq_eq intro: Suc_leD\<close>)

text \<open>The outer while loop: start and length of every run.\<close>

function blocks :: "int list \<Rightarrow> nat \<Rightarrow> nat \<Rightarrow> (nat \<times> nat) list" where
  "blocks ioas count i =
     (if i < count then let seq_len = seq_run ioas count i 1
        in (i, seq_len) # blocks ioas count (i + seq_len) else [])"
  by pat_completeness auto
termination
proof (relation "measure (\<lambda>(ioas, count, i). count - i)")
  fix ioas :: "int list" and count i s :: nat
  assume "i < count" "s = seq_run ioas count i 1"
  then show "((ioas, count, i + s), ioas, count, i) \<in> measure (\<lambda>(ioas, count, i). count - i)"
    using seq_run_ge [of 1 ioas count i] by auto
qed simp

declare blocks.simps [simp del]

text \<open>
  \<open>for (j = 0; j < seq_len; j += maxIOAs)\<close> with the length of each chunk. The loop does not end when
  \<open>maxIOAs\<close> is not positive.
\<close>

partial_function (option) chunk_loop :: "int \<Rightarrow> int \<Rightarrow> int \<Rightarrow> (int \<times> int) list option" where
  "chunk_loop maxIOAs seq_len j =
     (if j < seq_len then
        let chunk_len = (if j + maxIOAs < seq_len then maxIOAs else seq_len - j)
        in Option.bind (chunk_loop maxIOAs seq_len (j + maxIOAs)) (\<lambda>r. Some ((j, chunk_len) # r))
      else Some [])"

text \<open>The indices of the points of a chunk that starts \<open>j\<close> after the start \<open>i\<close> of its run.\<close>

definition chunk_indices :: "nat \<Rightarrow> int \<times> int \<Rightarrow> nat list" where
  "chunk_indices i jc = [i + nat (fst jc) ..< i + nat (fst jc) + nat (snd jc)]"

text \<open>The mode and the chunks of one run: a sequence from three addresses on.\<close>

definition block_chunks ::
    "int \<Rightarrow> int \<Rightarrow> nat \<times> nat \<Rightarrow> (bool \<times> nat list) list outcome" where
  "block_chunks maxASDUSize ioSizeWithIOA b =
     (case b of (i, seq_len) \<Rightarrow>
       let ioSizeNoIOA = getIOSizeNoIOA ioSizeWithIOA;
           useSequence = (seq_len \<ge> 3);
           maxIOAs = (if useSequence then calcMaxIOAs_SQ1 maxASDUSize ioSizeWithIOA ioSizeNoIOA
                      else calcMaxIOAs_SQ0 maxASDUSize ioSizeWithIOA)
       in obind (of_loop (chunk_loop maxIOAs (int seq_len) 0))
            (\<lambda>cs. Returns (map (\<lambda>jc. (useSequence, chunk_indices i jc)) cs)))"

section \<open>Sending\<close>

text \<open>The loop over \<open>k\<close>: add the object of every index to the ASDU.\<close>

fun add_points :: "bytes \<Rightarrow> data_context \<Rightarrow> nat list \<Rightarrow> asdu \<Rightarrow> asdu outcome" where
  "add_points mem ctx [] a = Returns a"
| "add_points mem ctx (n # ns) a =
     obind (create_io_for_type mem (ctx_type_id ctx) (ioa_list ctx ! n) (data_array ctx ! n))
       (\<lambda>r. case r of None \<Rightarrow> add_points mem ctx ns a
         | Some io \<Rightarrow> add_points mem ctx ns (snd (CS101_ASDU_addInformationObject a io)))"

definition chunk_asdu ::
    "bytes \<Rightarrow> app_layer_params \<Rightarrow> u8 \<Rightarrow> int \<Rightarrow> data_context \<Rightarrow> bool \<times> nat list \<Rightarrow> asdu outcome" where
  "chunk_asdu mem p cot ca ctx c =
     add_points mem ctx (snd c) (CS101_ASDU_create p (fst c) (uint cot) 0 ca False False)"

text \<open>The ASDUs for all points of a context, in the order they are sent.\<close>

definition context_asdus ::
    "bytes \<Rightarrow> app_layer_params \<Rightarrow> u8 \<Rightarrow> int \<Rightarrow> data_context \<Rightarrow> asdu list outcome" where
  "context_asdus mem p cot ca ctx =
     obind (traverse (block_chunks (maxSizeOfASDU p) (dti_io_size (ctx_type_info ctx)))
             (blocks (ioa_list ctx) (ctx_count ctx) 0))
       (\<lambda>css. traverse (chunk_asdu mem p cot ca ctx) (concat css))"

definition send_interrogation_for_type ::
    "bytes \<Rightarrow> app_layer_params \<Rightarrow> int \<Rightarrow> connection \<Rightarrow> data_context \<Rightarrow> action list outcome" where
  "send_interrogation_for_type mem p ca con ctx =
     (if ctx_count ctx > 0
      then obind (context_asdus mem p COT_INTERROGATED_BY_STATION ca ctx)
             (\<lambda>asdus. Returns (map (SendASDU con) asdus))
      else Returns [])"

text \<open>
  The handler. Its result is the answer to the library and the trace; the request is modified in
  place by the replies.
\<close>

definition interrogationHandler ::
    "bytes \<Rightarrow> app_layer_params \<Rightarrow> int \<Rightarrow> data_context list \<Rightarrow> connection \<Rightarrow> asdu \<Rightarrow> u8 \<Rightarrow>
       (bool \<times> asdu \<times> action list) outcome" where
  "interrogationHandler mem p ca ctxs con a qoi =
     (if qoi = 20 then
        let (a, con_action) = sendACT_CON con a False
        in obind (traverse (send_interrogation_for_type mem p ca con) (take DATA_TYPE_COUNT ctxs))
             (\<lambda>data. let (a, term_action) = sendACT_TERM con a
                in Returns (True, a, con_action # concat data @ [term_action]))
      else let (a, con_action) = sendACT_CON con a True in Returns (False, a, [con_action]))"

section \<open>Runs and chunks cover the points in order\<close>

lemma seq_run_le: "i + s \<le> count \<Longrightarrow> i + seq_run ioas count i s \<le> count"
proof (induction ioas count i s rule: seq_run.induct)
  case (1 ioas count i s)
  then show ?case by (subst seq_run.simps) auto
qed

lemma seq_run_consecutive:
  assumes "0 < s" "\<And>k. k < s \<Longrightarrow> ioas ! (i + k) = ioas ! i + int k" "k < seq_run ioas count i s"
  shows "ioas ! (i + k) = ioas ! i + int k"
  using assms
proof (induction ioas count i s rule: seq_run.induct)
  case (1 ioas count i s)
  show ?case
  proof (cases "i + s < count \<and> ioas ! (i + s) = ioas ! (i + s - 1) + 1")
    case True
    have "ioas ! (i + (s - 1)) = ioas ! i + int (s - 1)" using 1(3) [of "s - 1"] 1(2) by simp
    then have next_ioa: "ioas ! (i + s) = ioas ! i + int s"
      using True 1(2) by (simp add: Nat.add_diff_assoc)
    have all: "ioas ! (i + l) = ioas ! i + int l" if "l < s + 1" for l
      using that 1(3) next_ioa by (cases "l = s") auto
    have run: "k < seq_run ioas count i (s + 1)"
      using 1(4) True by (subst (asm) seq_run.simps) simp
    show ?thesis by (rule 1(1) [OF True _ all run]) simp_all
  next
    case False
    then have "seq_run ioas count i s = s" by (subst seq_run.simps) auto
    then have "k < s" using 1(4) by simp
    then show ?thesis by (rule 1(3))
  qed
qed

lemma seq_run_all:
  assumes "i + s \<le> count" "0 < s" "\<And>k. i + k < count \<Longrightarrow> ioas ! (i + k) = ioas ! i + int k"
  shows "seq_run ioas count i s = count - i"
  using assms
proof (induction ioas count i s rule: seq_run.induct)
  case (1 ioas count i s)
  show ?case
  proof (cases "i + s < count")
    case True
    have "ioas ! (i + s) = ioas ! i + int s" "ioas ! (i + (s - 1)) = ioas ! i + int (s - 1)"
      using 1(4) True by simp_all
    then have c: "ioas ! (i + s) = ioas ! (i + s - 1) + 1" using 1(3) by simp
    have "seq_run ioas count i (s + 1) = count - i"
      by (rule 1(1)) (use True c 1(4) in auto)
    then show ?thesis using True c by (subst seq_run.simps) simp
  next
    case False
    then show ?thesis using 1(2) by (subst seq_run.simps) simp
  qed
qed

lemma blocks_cover: "i \<le> count \<Longrightarrow> concat (map (\<lambda>(i, n). [i..<i + n]) (blocks ioas count i)) = [i..<count]"
proof (induction ioas count i rule: blocks.induct)
  case (1 ioas count i)
  show ?case
  proof (cases "i < count")
    case True
    define n where "n = seq_run ioas count i 1"
    have n: "1 \<le> n" "i + n \<le> count"
      using seq_run_ge [of 1 ioas count i] seq_run_le [of i 1 count ioas] True by (simp_all add: n_def)
    then have "[i..<count] = [i..<i + n] @ [i + n..<count]"
      by (metis le_add_diff_inverse upt_add_eq_append le_add1)
    then show ?thesis
      using 1(1) [OF True n_def n(2)] True by (subst blocks.simps) (simp add: n_def [symmetric, unfolded One_nat_def] Let_def)
  next
    case False
    with 1(2) show ?thesis by (subst blocks.simps) simp
  qed
qed

lemma blocks_runs:
  "(i, n) \<in> set (blocks ioas count i0) \<Longrightarrow>
     0 < n \<and> i + n \<le> count \<and> (\<forall>k < n. ioas ! (i + k) = ioas ! i + int k)"
proof (induction ioas count i0 rule: blocks.induct)
  case (1 ioas count i0)
  define m where "m = seq_run ioas count i0 1"
  have lt: "i0 < count" using 1(2) by (subst (asm) blocks.simps) (simp split: if_splits)
  from 1(2) lt consider "i = i0" "n = m" | "(i, n) \<in> set (blocks ioas count (i0 + m))"
    by (subst (asm) blocks.simps) (auto simp: m_def Let_def)
  then show ?case
  proof cases
    case 1
    then show ?thesis
      using seq_run_ge [of 1 ioas count i0] seq_run_le [of i0 1 count ioas] lt
        seq_run_consecutive [of 1 ioas i0 _ count] by (auto simp: m_def)
  next
    case 2
    then show ?thesis using 1(1) [OF lt m_def] by blast
  qed
qed

lemma chunk_loop_ok:
  assumes "0 < m" "0 \<le> j"
  shows "\<exists>cs. chunk_loop m n j = Some cs \<and>
    concat (map (chunk_indices i) cs) = [i + nat j..<i + nat n] \<and>
    (\<forall>(a, l) \<in> set cs. 0 \<le> a \<and> 0 < l \<and> l \<le> m \<and> a + l \<le> n)"
  using assms(2)
proof (induction "nat (n - j)" arbitrary: j rule: less_induct)
  case less
  show ?case
  proof (cases "j < n")
    case False
    then show ?thesis by (subst chunk_loop.simps) simp
  next
    case True
    define l where "l = (if j + m < n then m else n - j)"
    have l: "0 < l" "l \<le> m" "j + l \<le> n" using True assms(1) by (auto simp: l_def)
    from less(1) [of "j + m"] True assms(1) less(2) obtain cs where
      cs: "chunk_loop m n (j + m) = Some cs"
      "concat (map (chunk_indices i) cs) = [i + nat (j + m)..<i + nat n]"
      "\<forall>(a, l) \<in> set cs. 0 \<le> a \<and> 0 < l \<and> l \<le> m \<and> a + l \<le> n"
      by auto
    have r: "chunk_loop m n j = Some ((j, l) # cs)"
      using True cs(1) by (subst chunk_loop.simps) (simp add: l_def Let_def)
    have idx: "chunk_indices i (j, l) = [i + nat j..<i + nat (j + l)]"
      using l less(2) by (simp add: chunk_indices_def nat_add_distrib add.assoc)
    have "[i + nat j..<i + nat (j + l)] @ [i + nat (j + m)..<i + nat n] = [i + nat j..<i + nat n]"
    proof (cases "j + m < n")
      case True
      then have "l = m" by (simp add: l_def)
      moreover have "i + nat j \<le> i + nat (j + m)" "i + nat (j + m) \<le> i + nat n"
        using True assms(1) less(2) by auto
      ultimately show ?thesis by (metis le_Suc_ex upt_add_eq_append)
    next
      case False
      then have "j + l = n" "nat n \<le> nat (j + m)" by (auto simp: l_def)
      then show ?thesis by simp
    qed
    with cs r idx l less(2) show ?thesis by auto
  qed
qed

section \<open>The object of a point\<close>

text \<open>The conversions to normalized values are defined: only NaN has none.\<close>

definition convertible :: "u32 \<Rightarrow> data_value \<Rightarrow> bool" where
  "convertible ty d \<longleftrightarrow>
     (ty \<in> {M_ME_NA_1, M_ME_TD_1} \<longrightarrow> MeasuredValueNormalized_setValue (float_val d) \<noteq> None) \<and>
     (ty = M_ME_ND_1 \<longrightarrow> MeasuredValueNormalizedWithoutQuality_setValue (float_val d) \<noteq> None)"

lemma setValue_length:
  "MeasuredValueNormalized_setValue v = Some ev \<Longrightarrow> length ev = 2"
  "MeasuredValueNormalizedWithoutQuality_setValue v = Some ev \<Longrightarrow> length ev = 2"
  by (auto simp: MeasuredValueNormalized_setValue_def MeasuredValueNormalizedWithoutQuality_setValue_def)

lemma length_bcr_create [simp]: "length (BinaryCounterReading_create mem v s c a i) = length mem"
  by (simp add: BinaryCounterReading_create_def bcr_setters)

definition io_for :: "u32 \<Rightarrow> int \<Rightarrow> information_object \<Rightarrow> bool" where
  "io_for ty ioa io \<longleftrightarrow> InformationObject_getType io = ty \<and>
     InformationObject_getObjectAddress io = ioa \<and> io_wf io"

lemma create_io_for_type_ok:
  assumes "ty \<in> set (map dti_type_id DATA_TYPE_TABLE)" "convertible ty d" "length mem = 5"
  shows "\<exists>io. create_io_for_type mem ty ioa d = Returns (Some io) \<and> io_for ty ioa io"
proof -
  have t: "length (timestamp_bytes d) = 7" by (simp add: timestamp_bytes_def)
  from assms(1) have "ty = M_SP_TB_1 \<or> ty = M_DP_TB_1 \<or> ty = M_ME_TD_1 \<or> ty = M_IT_TB_1 \<or>
      ty = M_SP_NA_1 \<or> ty = M_DP_NA_1 \<or> ty = M_ME_NA_1 \<or> ty = M_ME_NB_1 \<or> ty = M_ME_NC_1 \<or> ty = M_ME_ND_1"
    by (auto simp: table_defs)
  then show ?thesis
    using t assms(2,3)
    by (elim disjE; auto simp: create_io_for_type_def type_ids convertible_def io_create_defs
        io_for_def Let_def intro: setValue_length)
qed

text \<open>The object sent for the point with index \<open>n\<close>.\<close>

definition point_io :: "bytes \<Rightarrow> data_context \<Rightarrow> nat \<Rightarrow> information_object" where
  "point_io mem ctx n =
     (case create_io_for_type mem (ctx_type_id ctx) (ioa_list ctx ! n) (data_array ctx ! n) of
        Returns (Some io) \<Rightarrow> io | _ \<Rightarrow> SinglePointInformation 0 False 0)"

definition points_ok :: "bytes \<Rightarrow> data_context \<Rightarrow> bool" where
  "points_ok mem ctx \<longleftrightarrow> ctx_wf ctx \<and> length mem = 5 \<and>
     list_all (convertible (ctx_type_id ctx)) (data_array ctx) \<and>
     list_all (\<lambda>a. 0 \<le> a \<and> a < 2 ^ 24) (ioa_list ctx)"

lemma point_io_ok:
  assumes "points_ok mem ctx" "n < ctx_count ctx"
  shows "create_io_for_type mem (ctx_type_id ctx) (ioa_list ctx ! n) (data_array ctx ! n)
      = Returns (Some (point_io mem ctx n))"
    and "io_for (ctx_type_id ctx) (ioa_list ctx ! n) (point_io mem ctx n)"
proof -
  have ty: "ctx_type_id ctx \<in> set (map dti_type_id DATA_TYPE_TABLE)" and mem: "length mem = 5"
    using assms(1) by (auto simp: points_ok_def ctx_wf_def)
  have "convertible (ctx_type_id ctx) (data_array ctx ! n)"
    using assms by (auto simp: points_ok_def ctx_wf_def list_all_length)
  from create_io_for_type_ok [OF ty this mem, of "ioa_list ctx ! n"] obtain io where
    "create_io_for_type mem (ctx_type_id ctx) (ioa_list ctx ! n) (data_array ctx ! n) = Returns (Some io)"
    "io_for (ctx_type_id ctx) (ioa_list ctx ! n) io"
    by blast
  then show "create_io_for_type mem (ctx_type_id ctx) (ioa_list ctx ! n) (data_array ctx ! n)
      = Returns (Some (point_io mem ctx n))"
    "io_for (ctx_type_id ctx) (ioa_list ctx ! n) (point_io mem ctx n)"
    by (simp_all add: point_io_def)
qed

lemma add_points_all:
  assumes "points_ok mem ctx" "list_all (\<lambda>n. n < ctx_count ctx) ns"
  shows "add_points mem ctx ns a = Returns (add_all (map (point_io mem ctx) ns) a)"
  using assms(2)
proof (induction ns arbitrary: a)
  case (Cons n ns)
  then show ?case using point_io_ok(1) [OF assms(1), of n] by (simp add: add_all_def)
qed (simp add: add_all_def)

section \<open>Each ASDU carries the objects of its chunk\<close>

text \<open>The parameters of the TCP link: two byte cause and common address, three byte object address.\<close>

definition link_params :: "app_layer_params \<Rightarrow> bool" where
  "link_params p \<longleftrightarrow> sizeOfCOT p = 2 \<and> sizeOfCA p = 2 \<and> sizeOfIOA p = 3 \<and>
     21 \<le> maxSizeOfASDU p \<and> maxSizeOfASDU p \<le> 249"

lemma link_params_ok: "link_params p \<Longrightarrow> params_ok p"
  by (auto simp: link_params_def params_ok_def)

lemma link_params_default [simp]: "link_params defaultAppLayerParameters"
  by (simp add: link_params_def)

text \<open>The largest chunk of a type in each mode.\<close>

definition max_chunk :: "app_layer_params \<Rightarrow> data_type_info \<Rightarrow> bool \<Rightarrow> int" where
  "max_chunk p info s =
     (if s then calcMaxIOAs_SQ1 (maxSizeOfASDU p) (dti_io_size info) (getIOSizeNoIOA (dti_io_size info))
      else calcMaxIOAs_SQ0 (maxSizeOfASDU p) (dti_io_size info))"

lemma table_sizes: "info \<in> set DATA_TYPE_TABLE \<Longrightarrow> 4 \<le> dti_io_size info \<and> dti_io_size info \<le> 15"
  by (auto simp: table_defs)

lemma max_chunk_pos:
  assumes "link_params p" "info \<in> set DATA_TYPE_TABLE"
  shows "0 < max_chunk p info s"
proof -
  let ?n = "maxSizeOfASDU p" and ?z = "dti_io_size info"
  have "?z \<le> ?n - 6" "0 < ?z" "0 < ?z - 3"
    using table_sizes [OF assms(2)] assms(1) by (auto simp: link_params_def)
  moreover from this have "0 < (?n - 6) div ?z"
    by (simp add: pos_imp_zdiv_pos_iff)
  moreover have "0 \<le> (?n - 6 - ?z) div (?z - 3)"
    using calculation by (simp add: pos_imp_zdiv_nonneg_iff)
  ultimately show ?thesis
    by (simp add: max_chunk_def calcMaxIOAs_SQ0_def calcMaxIOAs_SQ1_def getIOSizeNoIOA_def c_arith)
qed

lemma int_div_mult_le: "0 < b \<Longrightarrow> a div b * b \<le> (a :: int)"
  using pos_mod_sign [of b a] div_mult_mod_eq [of a b] by linarith

lemma max_chunk_fits:
  assumes "link_params p" "info \<in> set DATA_TYPE_TABLE" "0 < n" "n \<le> max_chunk p info s"
  shows "6 + (if s then 3 + n * (dti_io_size info - 3) else n * dti_io_size info) \<le> maxSizeOfASDU p"
proof -
  let ?m = "maxSizeOfASDU p" and ?z = "dti_io_size info"
  have z: "?z \<le> ?m - 6" "0 < ?z" "0 < ?z - 3"
    using table_sizes [OF assms(2)] assms(1) by (auto simp: link_params_def)
  show ?thesis
  proof (cases s)
    case False
    then have "n \<le> (?m - 6) div ?z"
      using assms(4) z by (simp add: max_chunk_def calcMaxIOAs_SQ0_def c_arith)
    then have "n * ?z \<le> (?m - 6) div ?z * ?z" using z by (intro mult_right_mono) auto
    also have "\<dots> \<le> ?m - 6" using z(2) by (rule int_div_mult_le)
    finally show ?thesis using False by simp
  next
    case True
    show ?thesis
    proof (cases "?m \<le> 6 + ?z")
      case True
      then have "n \<le> 1"
        using assms(4) \<open>s\<close> by (simp add: max_chunk_def calcMaxIOAs_SQ1_def)
      with assms(3) have "n = 1" by simp
      then show ?thesis using z \<open>s\<close> by simp
    next
      case False
      then have "n - 1 \<le> (?m - 6 - ?z) div (?z - 3)"
        using assms(4) z \<open>s\<close> by (simp add: max_chunk_def calcMaxIOAs_SQ1_def getIOSizeNoIOA_def c_arith)
      then have "(n - 1) * (?z - 3) \<le> (?m - 6 - ?z) div (?z - 3) * (?z - 3)"
        using z by (intro mult_right_mono) auto
      also have "\<dots> \<le> ?m - 6 - ?z" using z(3) by (rule int_div_mult_le)
      finally show ?thesis using \<open>s\<close> by (simp add: algebra_simps)
    qed
  qed
qed

text \<open>A chunk the loops can produce: consecutive indices, and consecutive addresses in a sequence.\<close>

definition good_chunk :: "app_layer_params \<Rightarrow> data_context \<Rightarrow> bool \<times> nat list \<Rightarrow> bool" where
  "good_chunk p ctx c \<longleftrightarrow> snd c \<noteq> [] \<and> list_all (\<lambda>n. n < ctx_count ctx) (snd c) \<and>
     int (length (snd c)) \<le> max_chunk p (ctx_type_info ctx) (fst c) \<and>
     (fst c \<longrightarrow> (\<forall>k < length (snd c). ioa_list ctx ! (snd c ! k) = ioa_list ctx ! (snd c ! 0) + int k))"

lemma points_info:
  "points_ok mem ctx \<Longrightarrow> ctx_type_info ctx \<in> set DATA_TYPE_TABLE \<and> ctx_type_id ctx = dti_type_id (ctx_type_info ctx)"
  by (auto simp: points_ok_def ctx_wf_def)

lemma block_chunks_ok:
  assumes "link_params p" "ctx_type_info ctx \<in> set DATA_TYPE_TABLE"
    and b: "(i, n) \<in> set (blocks (ioa_list ctx) (ctx_count ctx) 0)"
  shows "\<exists>cs. block_chunks (maxSizeOfASDU p) (dti_io_size (ctx_type_info ctx)) (i, n) = Returns cs \<and>
    concat (map snd cs) = [i..<i + n] \<and> list_all (good_chunk p ctx) cs"
proof -
  define s where "s = (3 \<le> n)"
  define m where "m = max_chunk p (ctx_type_info ctx) s"
  have run: "0 < n" "i + n \<le> ctx_count ctx" "\<And>k. k < n \<Longrightarrow> ioa_list ctx ! (i + k) = ioa_list ctx ! i + int k"
    using blocks_runs [OF b] by auto
  obtain cs where cs: "chunk_loop m (int n) 0 = Some cs"
    "concat (map (chunk_indices i) cs) = [i..<i + n]"
    "\<forall>(a, l) \<in> set cs. 0 \<le> a \<and> 0 < l \<and> l \<le> m \<and> a + l \<le> int n"
    using chunk_loop_ok [of m 0 "int n" i] max_chunk_pos [OF assms(1,2), of s] by (auto simp: m_def)
  have r: "block_chunks (maxSizeOfASDU p) (dti_io_size (ctx_type_info ctx)) (i, n) =
      Returns (map (\<lambda>jc. (s, chunk_indices i jc)) cs)"
    using cs(1) by (simp add: block_chunks_def m_def max_chunk_def s_def Let_def cong: if_cong split: if_splits)
  have good: "good_chunk p ctx (s, chunk_indices i (a, l))" if "(a, l) \<in> set cs" for a l
  proof -
    from that cs(3) have al: "0 \<le> a" "0 < l" "l \<le> m" "a + l \<le> int n" by auto
    then have len: "length (chunk_indices i (a, l)) = nat l" by (simp add: chunk_indices_def)
    have nth: "chunk_indices i (a, l) ! k = i + (nat a + k)" if "k < nat l" for k
      using that by (simp add: chunk_indices_def)
    have "i + nat a + nat l \<le> i + n" using al by linarith
    then have 1: "list_all (\<lambda>x. x < ctx_count ctx) (chunk_indices i (a, l))"
      using run(2) by (auto simp: chunk_indices_def list_all_iff)
    have 2: "ioa_list ctx ! (chunk_indices i (a, l) ! k) =
        ioa_list ctx ! (chunk_indices i (a, l) ! 0) + int k" if "k < length (chunk_indices i (a, l))" for k
    proof -
      have "ioa_list ctx ! (i + (nat a + k)) = ioa_list ctx ! (i + (nat a + 0)) + int k"
        using run(3) [of "nat a + k"] run(3) [of "nat a + 0"] al that len by simp
      then show ?thesis using nth [of k] nth [of 0] that len al(2) by simp
    qed
    have 3: "chunk_indices i (a, l) \<noteq> []" using al by (simp add: chunk_indices_def)
    have 4: "int (length (chunk_indices i (a, l))) \<le> max_chunk p (ctx_type_info ctx) s"
      using al len by (simp add: m_def)
    show ?thesis
      unfolding good_chunk_def fst_conv snd_conv using 1 2 3 4 by blast
  qed
  show ?thesis
    using r cs(2) good by (auto simp: list_all_iff o_def)
qed

lemma chunk_objects:
  assumes "points_ok mem ctx" "link_params p" "good_chunk p ctx c"
  defines "ios \<equiv> map (point_io mem ctx) (snd c)"
  shows "list_all io_wf ios" "list_all (addr_ok p) ios" "uniform (fst c) ios" "fits p (fst c) ios"
proof -
  have idx: "\<And>n. n \<in> set (snd c) \<Longrightarrow> n < ctx_count ctx"
    using assms(3) by (auto simp: good_chunk_def list_all_iff)
  have io: "\<And>n. n \<in> set (snd c) \<Longrightarrow> io_for (ctx_type_id ctx) (ioa_list ctx ! n) (point_io mem ctx n)"
    using point_io_ok(2) [OF assms(1)] idx by blast
  have range: "\<And>n. n \<in> set (snd c) \<Longrightarrow> 0 \<le> ioa_list ctx ! n \<and> ioa_list ctx ! n < 2 ^ 24"
    using assms(1) idx by (auto simp: points_ok_def ctx_wf_def list_all_length)
  have sz: "sizeOfIOA p = 3" "sizeOfCOT p = 2" "sizeOfCA p = 2" using assms(2) by (auto simp: link_params_def)
  show wf: "list_all io_wf ios" using io by (auto simp: ios_def io_for_def list_all_iff)
  show "list_all (addr_ok p) ios"
    using io range by (auto simp: ios_def io_for_def list_all_iff addr_ok_def sz)
  show "uniform (fst c) ios"
    unfolding uniform_def
  proof (intro allI impI conjI)
    fix i assume i: "i < length ios"
    then have n: "snd c ! i \<in> set (snd c)" "snd c ! 0 \<in> set (snd c)"
      unfolding ios_def length_map by (auto intro!: nth_mem)
    have "0 < length (snd c)" using i unfolding ios_def length_map by linarith
    then have ios: "ios ! i = point_io mem ctx (snd c ! i)" "ios ! 0 = point_io mem ctx (snd c ! 0)"
      using i by (simp_all add: ios_def)
    then show "type_byte (ios ! i) = type_byte (ios ! 0)"
      using io [OF n(1)] io [OF n(2)] by (simp add: ios io_for_def type_byte_def)
    assume "fst c"
    then have "ioa_list ctx ! (snd c ! i) = ioa_list ctx ! (snd c ! 0) + int i"
      using assms(3) i unfolding good_chunk_def ios_def length_map by blast
    then show "InformationObject_getObjectAddress (ios ! i) =
        InformationObject_getObjectAddress (ios ! 0) + int i"
      using io [OF n(1)] io [OF n(2)] by (simp add: ios io_for_def)
  qed
  have ne: "ios \<noteq> []" using assms(3) by (simp add: ios_def good_chunk_def)
  have info: "ctx_type_info ctx \<in> set DATA_TYPE_TABLE" "ctx_type_id ctx = dti_type_id (ctx_type_info ctx)"
    using points_info [OF assms(1)] by auto
  have body: "list_all (\<lambda>x. body_size (InformationObject_getType x) = body_size (ctx_type_id ctx)) ios"
    using io by (auto simp: ios_def io_for_def list_all_iff)
  have "int (body_size (ctx_type_id ctx)) = dti_io_size (ctx_type_info ctx) - 3"
    using table_io_size [OF info(1)] info(2) by simp
  moreover have "6 + (if fst c then 3 + int (length ios) * (dti_io_size (ctx_type_info ctx) - 3)
      else int (length ios) * dti_io_size (ctx_type_info ctx)) \<le> maxSizeOfASDU p"
    using assms(3) ne by (intro max_chunk_fits [OF assms(2) info(1)]) (auto simp: ios_def good_chunk_def)
  ultimately show "fits p (fst c) ios"
    using length_elements_layout [OF link_params_ok [OF assms(2)] wf ne body, of "fst c"]
    by (simp add: fits_def asduHeaderLength_def sz split: if_splits)
qed

lemma chunk_asdu_taken:
  assumes "points_ok mem ctx" "link_params p" "good_chunk p ctx c"
  shows "\<exists>a. chunk_asdu mem p cot ca ctx c = Returns a \<and>
    represents a (taken p (fst c) [] (map (point_io mem ctx) (snd c)))"
proof -
  let ?a0 = "CS101_ASDU_create p (fst c) (uint cot) 0 ca False False"
  let ?ios = "map (point_io mem ctx) (snd c)"
  have "list_all (\<lambda>n. n < ctx_count ctx) (snd c)" using assms(3) by (simp add: good_chunk_def)
  then have "chunk_asdu mem p cot ca ctx c = Returns (add_all ?ios ?a0)"
    by (simp add: chunk_asdu_def add_points_all [OF assms(1)])
  moreover have "represents (add_all ?ios ?a0) (taken p (fst c) [] ?ios)"
    using add_all_refines [OF represents_create [OF link_params_ok [OF assms(2)]], of ?ios
        "fst c" "uint cot" 0 ca False False] chunk_objects(1,2) [OF assms]
    by simp
  ultimately show ?thesis by blast
qed

lemma chunk_asdu_ok:
  assumes "points_ok mem ctx" "link_params p" "good_chunk p ctx c" "length (snd c) \<le> 127"
  shows "\<exists>a. chunk_asdu mem p cot ca ctx c = Returns a \<and>
    represents a (map (point_io mem ctx) (snd c))"
  using chunk_asdu_taken [OF assms(1-3), of cot ca] chunk_objects(3,4) [OF assms(1-3)] assms(4)
    taken_uniform [of "fst c" "[]" "map (point_io mem ctx) (snd c)" p]
  by simp

section \<open>Completeness\<close>

lemma all_chunks:
  assumes "link_params p" "ctx_type_info ctx \<in> set DATA_TYPE_TABLE"
  shows "\<exists>css. traverse (block_chunks (maxSizeOfASDU p) (dti_io_size (ctx_type_info ctx)))
      (blocks (ioa_list ctx) (ctx_count ctx) 0) = Returns css \<and>
    concat (map snd (concat css)) = [0..<ctx_count ctx] \<and> list_all (good_chunk p ctx) (concat css)"
proof -
  let ?bs = "blocks (ioa_list ctx) (ctx_count ctx) 0"
  let ?P = "\<lambda>b cs. concat (map snd cs) = (case b of (i, n) \<Rightarrow> [i..<i + n]) \<and> list_all (good_chunk p ctx) cs"
  have "\<exists>css. traverse (block_chunks (maxSizeOfASDU p) (dti_io_size (ctx_type_info ctx))) ?bs = Returns css \<and>
      list_all2 ?P ?bs css"
    using block_chunks_ok [OF assms] by (intro traverse_ex) auto
  then obtain css where css: "traverse (block_chunks (maxSizeOfASDU p) (dti_io_size (ctx_type_info ctx))) ?bs
      = Returns css" and all: "list_all2 ?P ?bs css" by blast
  from all have "concat (map snd (concat css)) = concat (map (\<lambda>(i, n). [i..<i + n]) ?bs) \<and>
      list_all (good_chunk p ctx) (concat css)"
    by (induction rule: list_all2_induct) auto
  with css blocks_cover [of 0] show ?thesis by auto
qed

text \<open>No chunk is longer than the count field can say.\<close>

definition short_chunks :: "app_layer_params \<Rightarrow> data_context \<Rightarrow> bool" where
  "short_chunks p ctx \<longleftrightarrow> ctx_count ctx \<le> 127 \<or> max_chunk p (ctx_type_info ctx) True \<le> 127"

lemma single_chunk_short:
  assumes "link_params p" "info \<in> set DATA_TYPE_TABLE"
  shows "max_chunk p info False \<le> 127"
proof -
  let ?z = "dti_io_size info"
  have z: "4 \<le> ?z" using table_sizes [OF assms(2)] by simp
  have "(maxSizeOfASDU p - 6) div ?z * 4 \<le> (maxSizeOfASDU p - 6) div ?z * ?z"
    using z assms(1) by (intro mult_left_mono) (auto simp: link_params_def pos_imp_zdiv_nonneg_iff)
  also have "\<dots> \<le> maxSizeOfASDU p - 6" using z by (intro int_div_mult_le) simp
  finally show ?thesis
    using assms(1) z by (simp add: max_chunk_def calcMaxIOAs_SQ0_def link_params_def c_arith)
qed

text \<open>Only the types with one byte behind the address have chunks that are too long.\<close>

lemma sequence_chunk_short:
  assumes "link_params p" "info \<in> set DATA_TYPE_TABLE" "dti_type_id info \<notin> {M_SP_NA_1, M_DP_NA_1}"
  shows "max_chunk p info True \<le> 127"
proof -
  let ?m = "maxSizeOfASDU p" and ?z = "dti_io_size info"
  have z: "5 \<le> ?z" using assms(2,3) by (auto simp: table_defs type_ids)
  show ?thesis
  proof (cases "?m \<le> 6 + ?z")
    case False
    let ?q = "(?m - 6 - ?z) div (?z - 3)"
    have "?q * 2 \<le> ?q * (?z - 3)" using z False by (intro mult_left_mono) (auto simp: pos_imp_zdiv_nonneg_iff)
    also have "\<dots> \<le> ?m - 6 - ?z" using z by (intro int_div_mult_le) simp
    finally show ?thesis using False z assms(1)
      by (simp add: max_chunk_def calcMaxIOAs_SQ1_def getIOSizeNoIOA_def link_params_def c_arith)
  qed (simp add: max_chunk_def calcMaxIOAs_SQ1_def)
qed

lemma good_chunk_short:
  assumes "good_chunk p ctx c" "short_chunks p ctx" "link_params p" "ctx_type_info ctx \<in> set DATA_TYPE_TABLE"
    and "distinct (snd c)"
  shows "length (snd c) \<le> 127"
proof -
  have "set (snd c) \<subseteq> {..<ctx_count ctx}"
    using assms(1) by (auto simp: good_chunk_def list_all_iff)
  then have le: "length (snd c) \<le> ctx_count ctx"
    using card_mono [of "{..<ctx_count ctx}" "set (snd c)"] distinct_card [OF assms(5)] by simp
  then show ?thesis
    using assms(1,2) single_chunk_short [OF assms(3,4)] by (cases "fst c") (auto simp: good_chunk_def short_chunks_def)
qed

text \<open>The points of a run of addresses behind the 127th of a chunk are not sent.\<close>

lemma taken_prefix:
  assumes "uniform s ios" "fits p s ios" "127 \<le> length ios"
  shows "taken p s [] ios = take 127 ios"
proof -
  have more: "taken p s acc xs = acc" if "length acc = 127" for acc xs
    using that by (induction xs) (auto simp: accepts_def compatible_def)
  have app: "taken p s acc (xs @ ys) = taken p s (taken p s acc xs) ys" for acc xs ys
    by (induction xs arbitrary: acc) simp_all
  have "uniform s (take 127 ios)" using assms(1) by (auto simp: uniform_def)
  moreover have "fits p s (take 127 ios)"
    using assms(2) length_elements_layout_take [of p s 127 ios] by (simp add: fits_def)
  ultimately have "taken p s [] (take 127 ios) = take 127 ios"
    using taken_uniform [of s "[]" "take 127 ios" p] assms(3) by simp
  then show ?thesis
    using app [of "[]" "take 127 ios" "drop 127 ios"] more [of "take 127 ios"] assms(3) by simp
qed

definition long_run :: "data_context \<Rightarrow> nat list \<Rightarrow> bool" where
  "long_run ctx ns \<longleftrightarrow> ctx_type_id ctx \<in> {M_SP_NA_1, M_DP_NA_1} \<and>
     (\<forall>k < length ns. ioa_list ctx ! (ns ! k) = ioa_list ctx ! (ns ! 0) + int k)"

lemma chunk_asdu_127:
  assumes "points_ok mem ctx" "link_params p" "good_chunk p ctx c"
  shows "\<exists>a. chunk_asdu mem p cot ca ctx c = Returns a \<and> represents a (map (point_io mem ctx) (take 127 (snd c))) \<and>
    (127 < length (snd c) \<longrightarrow> long_run ctx (snd c))"
proof (cases "length (snd c) \<le> 127")
  case True
  then show ?thesis using chunk_asdu_ok [OF assms True, of cot ca] by auto
next
  case False
  let ?ios = "map (point_io mem ctx) (snd c)"
  have info: "ctx_type_info ctx \<in> set DATA_TYPE_TABLE" "ctx_type_id ctx = dti_type_id (ctx_type_info ctx)"
    using points_info [OF assms(1)] by auto
  have s: "fst c" using single_chunk_short [OF assms(2) info(1)] False assms(3) by (cases "fst c") (auto simp: good_chunk_def)
  have "taken p (fst c) [] ?ios = take 127 ?ios"
    using chunk_objects(3,4) [OF assms] False by (intro taken_prefix) simp_all
  moreover have "long_run ctx (snd c)"
  proof -
    have "int (length (snd c)) \<le> max_chunk p (ctx_type_info ctx) True"
      using s assms(3) unfolding good_chunk_def by simp
    then have "\<not> max_chunk p (ctx_type_info ctx) True \<le> 127" using False by linarith
    then have "ctx_type_id ctx \<in> {M_SP_NA_1, M_DP_NA_1}"
      using sequence_chunk_short [OF assms(2) info(1)] info(2) by auto
    then show ?thesis using s assms(3) unfolding good_chunk_def long_run_def by blast
  qed
  ultimately show ?thesis using chunk_asdu_taken [OF assms, of cot ca] by (simp add: take_map)
qed

lemma context_asdus_taken:
  assumes "points_ok mem ctx" "link_params p"
  shows "\<exists>asdus chunks. context_asdus mem p cot ca ctx = Returns asdus \<and>
    concat chunks = [0..<ctx_count ctx] \<and>
    list_all2 (\<lambda>a ns. represents a (map (point_io mem ctx) (take 127 ns))) asdus chunks \<and>
    (\<forall>ns \<in> set chunks. 127 < length ns \<longrightarrow> long_run ctx ns) \<and>
    (short_chunks p ctx \<longrightarrow> (\<forall>ns \<in> set chunks. length ns \<le> 127))"
proof -
  have info: "ctx_type_info ctx \<in> set DATA_TYPE_TABLE" using points_info [OF assms(1)] by simp
  from all_chunks [OF assms(2) info] obtain css where
    css: "traverse (block_chunks (maxSizeOfASDU p) (dti_io_size (ctx_type_info ctx)))
      (blocks (ioa_list ctx) (ctx_count ctx) 0) = Returns css"
    and cover: "concat (map snd (concat css)) = [0..<ctx_count ctx]"
    and good: "list_all (good_chunk p ctx) (concat css)" by blast
  have good': "good_chunk p ctx c" if "c \<in> set (concat css)" for c using good that unfolding list_all_iff by blast
  let ?P = "\<lambda>c a. represents a (map (point_io mem ctx) (take 127 (snd c))) \<and> (127 < length (snd c) \<longrightarrow> long_run ctx (snd c))"
  have "\<exists>asdus. traverse (chunk_asdu mem p cot ca ctx) (concat css) = Returns asdus \<and> list_all2 ?P (concat css) asdus"
    by (intro traverse_ex) (metis chunk_asdu_127 [OF assms good'])
  then obtain asdus where
    "traverse (chunk_asdu mem p cot ca ctx) (concat css) = Returns asdus" and all: "list_all2 ?P (concat css) asdus" by blast
  moreover from all have
    "list_all2 (\<lambda>a ns. represents a (map (point_io mem ctx) (take 127 ns))) asdus (map snd (concat css))"
    by (simp add: list_all2_conv_all_nth)
  moreover have "\<forall>ns \<in> set (map snd (concat css)). 127 < length ns \<longrightarrow> long_run ctx ns"
  proof
    fix ns assume "ns \<in> set (map snd (concat css))"
    then obtain i where "i < length (concat css)" "ns = snd (concat css ! i)"
      unfolding in_set_conv_nth by auto
    then show "127 < length ns \<longrightarrow> long_run ctx ns" using all unfolding list_all2_conv_all_nth by simp
  qed
  moreover have "\<forall>ns \<in> set (map snd (concat css)). length ns \<le> 127" if "short_chunks p ctx"
  proof
    fix ns assume "ns \<in> set (map snd (concat css))"
    then obtain c where c: "c \<in> set (concat css)" "ns = snd c" by auto
    have "distinct (concat (map snd (concat css)))" unfolding cover by simp
    then have "distinct (snd c)" using c by (auto simp: distinct_concat_iff)
    then show "length ns \<le> 127" using good_chunk_short [OF good' [OF c(1)] that assms(2) info] c(2) by simp
  qed
  ultimately show ?thesis using css cover by (intro exI [of _ asdus] exI [of _ "map snd (concat css)"]) (simp add: context_asdus_def)
qed

lemma context_asdus_complete:
  assumes "points_ok mem ctx" "link_params p" "short_chunks p ctx"
  shows "\<exists>asdus chunks. context_asdus mem p cot ca ctx = Returns asdus \<and>
    concat chunks = [0..<ctx_count ctx] \<and>
    list_all2 (\<lambda>a ns. represents a (map (point_io mem ctx) ns)) asdus chunks"
proof -
  obtain asdus chunks where "context_asdus mem p cot ca ctx = Returns asdus" "concat chunks = [0..<ctx_count ctx]"
    "list_all2 (\<lambda>a ns. represents a (map (point_io mem ctx) (take 127 ns))) asdus chunks" "\<forall>ns \<in> set chunks. length ns \<le> 127"
    using context_asdus_taken [OF assms(1,2), of cot ca] assms(3) by blast
  moreover from this(3,4) have "list_all2 (\<lambda>a ns. represents a (map (point_io mem ctx) ns)) asdus chunks"
    by (auto simp: list_all2_conv_all_nth)
  ultimately show ?thesis by blast
qed

text \<open>One run that is longer than the count field can say, in one chunk: the rest is not sent.\<close>

lemma context_asdus_long_run:
  assumes "points_ok mem ctx" "link_params p" "127 \<le> ctx_count ctx"
    and "int (ctx_count ctx) \<le> max_chunk p (ctx_type_info ctx) True"
    and "\<And>k. k < ctx_count ctx \<Longrightarrow> ioa_list ctx ! k = ioa_list ctx ! 0 + int k"
  shows "\<exists>a. context_asdus mem p cot ca ctx = Returns [a] \<and>
    represents a (map (point_io mem ctx) [0..<127])"
proof -
  let ?n = "ctx_count ctx" and ?c = "(True, [0..<ctx_count ctx])"
  have "seq_run (ioa_list ctx) ?n 0 1 = ?n - 0"
  proof (rule seq_run_all)
    fix k assume "0 + k < ?n"
    then show "ioa_list ctx ! (0 + k) = ioa_list ctx ! 0 + int k"
      unfolding add_0 by (rule assms(5))
  qed (use assms(3) in simp_all)
  then have b: "blocks (ioa_list ctx) ?n 0 = [(0, ?n)]"
    using assms(3) by (subst blocks.simps) (simp add: blocks.simps)
  have loop: "chunk_loop (max_chunk p (ctx_type_info ctx) True) (int ?n) 0 = Some [(0, int ?n)]"
    using assms(3,4) by (subst chunk_loop.simps) (simp add: chunk_loop.simps)
  have chunks: "block_chunks (maxSizeOfASDU p) (dti_io_size (ctx_type_info ctx)) (0, ?n) = Returns [?c]"
    using loop assms(3) by (simp add: block_chunks_def max_chunk_def chunk_indices_def Let_def)
  have "ioa_list ctx ! ([0..<?n] ! k) = ioa_list ctx ! ([0..<?n] ! 0) + int k" if "k < length [0..<?n]" for k
  proof -
    have "[0..<?n] ! k = k" "[0..<?n] ! 0 = 0" using that by simp_all
    then show ?thesis using assms(5) [of k] that by (simp only: length_upt diff_zero)
  qed
  moreover have "[0..<?n] \<noteq> []" "list_all (\<lambda>n. n < ?n) [0..<?n]"
    "int (length [0..<?n]) \<le> max_chunk p (ctx_type_info ctx) True"
    using assms(3,4) by (simp_all add: list_all_iff)
  ultimately have good: "good_chunk p ctx ?c"
    unfolding good_chunk_def fst_conv snd_conv by blast
  obtain a where a: "chunk_asdu mem p cot ca ctx ?c = Returns a"
    "represents a (taken p True [] (map (point_io mem ctx) [0..<?n]))"
    using chunk_asdu_taken [OF assms(1,2) good] by auto
  have "taken p True [] (map (point_io mem ctx) [0..<?n]) = take 127 (map (point_io mem ctx) [0..<?n])"
    using chunk_objects(3,4) [OF assms(1,2) good] assms(3) by (intro taken_prefix) simp_all
  also have "\<dots> = map (point_io mem ctx) [0..<127]"
    using assms(3) by (simp add: take_map)
  finally show ?thesis using a b chunks by (simp add: context_asdus_def)
qed

lemma send_interrogation_asdus:
  assumes "points_ok mem ctx"
  shows "send_interrogation_for_type mem p ca con ctx =
    obind (context_asdus mem p COT_INTERROGATED_BY_STATION ca ctx) (\<lambda>asdus. Returns (map (SendASDU con) asdus))"
  by (simp add: send_interrogation_for_type_def context_asdus_def blocks.simps)

text \<open>What adding an object does to the payload.\<close>

lemma payload_after_add:
  assumes "represents a ios" "io_wf io" "addr_ok (asdu_parameters a) io"
    and "CS101_ASDU_addInformationObject a io = (ok, a')"
  shows "asdu_payload a' = asdu_payload a @
    (if ok then io_layout (asdu_parameters a) (CS101_ASDU_isSequence a \<and> ios \<noteq> []) io else [])"
  and "ok = accepts (asdu_parameters a) (CS101_ASDU_isSequence a) ios io"
proof -
  let ?p = "asdu_parameters a" and ?s = "CS101_ASDU_isSequence a"
  have "represents a' (if ok then ios @ [io] else ios) \<and> CS101_ASDU_isSequence a' = ?s \<and> asdu_parameters a' = ?p \<and>
      ok = accepts ?p ?s ios io"
    using add_refines_append [OF assms(1-3) _ assms(4)] add_refines_reject [OF assms(1-3) _ assms(4)]
    by (cases "accepts ?p ?s ios io") auto
  then show "asdu_payload a' = asdu_payload a @ (if ok then io_layout ?p (?s \<and> ios \<noteq> []) io else [])"
    "ok = accepts ?p ?s ios io"
    using assms(1) by (auto simp: represents_def elements_layout_snoc)
qed

section \<open>Properties\<close>

text \<open>
  C7: the object size the type table declares, with which the interrogation plans its chunks, is the size the
  encoder uses: adding an object of a type of the table makes the payload longer by the declared size, or by the
  size without the address for a further object of a sequence, and the object is taken exactly when it goes with
  the objects before it and this many bytes are left in the ASDU.
\<close>

theorem declared_size_encoded:
  assumes "get_data_type_info (InformationObject_getType io) = Some info"
    and "represents a ios" "io_wf io" "addr_ok (asdu_parameters a) io" "link_params (asdu_parameters a)"
    and "CS101_ASDU_addInformationObject a io = (ok, a')"
  shows "let grow = (if CS101_ASDU_isSequence a \<and> ios \<noteq> [] then getIOSizeNoIOA (dti_io_size info) else dti_io_size info)
    in int (length (asdu_payload a')) = int (length (asdu_payload a)) + (if ok then grow else 0) \<and>
      (ok \<longleftrightarrow> compatible (CS101_ASDU_isSequence a) ios io \<and>
        6 + int (length (asdu_payload a)) + grow \<le> maxSizeOfASDU (asdu_parameters a))"
proof -
  let ?p = "asdu_parameters a" and ?s = "CS101_ASDU_isSequence a"
  let ?grow = "if ?s \<and> ios \<noteq> [] then getIOSizeNoIOA (dti_io_size info) else dti_io_size info"
  have info: "info \<in> set DATA_TYPE_TABLE" "dti_type_id info = InformationObject_getType io"
    using get_data_type_info_Some [OF assms(1)] by auto
  have sz: "sizeOfIOA ?p = 3" "sizeOfCOT ?p = 2" "sizeOfCA ?p = 2" using assms(5) by (simp_all add: link_params_def)
  have grow: "int (length (io_layout ?p (?s \<and> ios \<noteq> []) io)) = ?grow"
    using length_io_layout [OF link_params_ok [OF assms(5)] assms(3)] table_io_size [OF info(1)] info(2) sz
    by (auto simp: getIOSizeNoIOA_def)
  note add = payload_after_add [OF assms(2-4,6)]
  have "length (elements_layout ?p ?s (ios @ [io])) = length (asdu_payload a) + length (io_layout ?p (?s \<and> ios \<noteq> []) io)"
    using assms(2) by (auto simp: represents_def elements_layout_snoc)
  then have "int (length (elements_layout ?p ?s (ios @ [io]))) = int (length (asdu_payload a)) + ?grow"
    using grow by linarith
  then have "fits ?p ?s (ios @ [io]) \<longleftrightarrow> 6 + int (length (asdu_payload a)) + ?grow \<le> maxSizeOfASDU ?p"
    using sz by (simp add: fits_def asduHeaderLength_def algebra_simps)
  moreover have "int (length (asdu_payload a')) = int (length (asdu_payload a)) + (if ok then ?grow else 0)"
    using grow by (simp add: add(1))
  ultimately show ?thesis by (simp add: Let_def add(2) accepts_def)
qed

text \<open>The first point of a sequence takes four bytes and the second one byte; one that is not consecutive is refused.\<close>

definition one_point :: asdu where
  "one_point = snd (CS101_ASDU_addInformationObject (CS101_ASDU_create defaultAppLayerParameters True 20 0 1 False False)
     (SinglePointInformation 100 True 0))"

lemma one_point_facts:
  "represents one_point [SinglePointInformation 100 True 0]" "CS101_ASDU_isSequence one_point"
  "asdu_parameters one_point = defaultAppLayerParameters" "length (asdu_payload one_point) = 4"
proof -
  let ?a = "CS101_ASDU_create defaultAppLayerParameters True 20 0 1 False False" and ?io = "SinglePointInformation 100 True 0"
  obtain ok a' where r: "CS101_ASDU_addInformationObject ?a ?io = (ok, a')" by fastforce
  have "ok \<and> represents a' ([] @ [?io]) \<and> CS101_ASDU_isSequence a' = CS101_ASDU_isSequence ?a \<and> asdu_parameters a' = asdu_parameters ?a"
    by (rule add_refines_append [OF _ _ _ _ r])
      (simp_all add: represents_create addr_ok_def accepts_def compatible_def fits_def asduHeaderLength_def io_layout_def ioa_bytes_def)
  then show "represents one_point [?io]" "CS101_ASDU_isSequence one_point" "asdu_parameters one_point = defaultAppLayerParameters"
    "length (asdu_payload one_point) = 4"
    by (auto simp: one_point_def r represents_def io_layout_def ioa_bytes_def)
qed

theorem declared_size_encoded_witness:
  "\<exists>a'. CS101_ASDU_addInformationObject one_point (SinglePointInformation 101 True 0) = (True, a') \<and> length (asdu_payload a') = 5 \<and>
    fst (CS101_ASDU_addInformationObject one_point (SinglePointInformation 105 True 0)) = False"
proof -
  have add: "int (length (asdu_payload (snd (CS101_ASDU_addInformationObject one_point (SinglePointInformation ioa True 0))))) =
      4 + (if fst (CS101_ASDU_addInformationObject one_point (SinglePointInformation ioa True 0)) then 1 else 0) \<and>
    (fst (CS101_ASDU_addInformationObject one_point (SinglePointInformation ioa True 0)) \<longleftrightarrow> ioa = 101)"
    if "0 \<le> ioa" "ioa < 1000" for ioa
    using declared_size_encoded [of "SinglePointInformation ioa True 0" "DATA_TYPE_TABLE ! 4", OF _ one_point_facts(1) _ _ _ prod.collapse [symmetric]]
      one_point_facts that get_data_type_info_nth [of 4]
    by (simp add: addr_ok_def compatible_def getIOSizeNoIOA_def table_defs type_byte_def Let_def)
  obtain ok a' where r: "CS101_ASDU_addInformationObject one_point (SinglePointInformation 101 True 0) = (ok, a')" by fastforce
  show ?thesis using add [of 101] add [of 105] r by (auto split: if_splits)
qed

text \<open>
  C8: a station interrogation of one type goes through every configured point exactly once, in the order of
  the configuration: the loops end, and the chunks of indices put together are all indices. The
  ASDU of each chunk represents exactly the information objects of its first 127 points, as many as the
  count field can say. Longer chunks, whose other points are lost, only come from runs of consecutive addresses
  of \<open>M_SP_NA_1\<close> and \<open>M_DP_NA_1\<close>; there are none when the type has at most 127 points or the size formula allows no more.
\<close>

theorem interrogation_complete:
  assumes "points_ok mem ctx" "link_params p"
  shows "\<exists>asdus chunks. send_interrogation_for_type mem p ca con ctx = Returns (map (SendASDU con) asdus) \<and>
    concat chunks = [0..<ctx_count ctx] \<and>
    list_all2 (\<lambda>a ns. represents a (map (point_io mem ctx) (take 127 ns))) asdus chunks \<and>
    (\<forall>ns \<in> set chunks. 127 < length ns \<longrightarrow> long_run ctx ns) \<and>
    (short_chunks p ctx \<longrightarrow> (\<forall>ns \<in> set chunks. length ns \<le> 127))"
proof -
  obtain asdus chunks where r: "context_asdus mem p COT_INTERROGATED_BY_STATION ca ctx = Returns asdus" "concat chunks = [0..<ctx_count ctx]"
    "list_all2 (\<lambda>a ns. represents a (map (point_io mem ctx) (take 127 ns))) asdus chunks"
    "\<forall>ns \<in> set chunks. 127 < length ns \<longrightarrow> long_run ctx ns" "short_chunks p ctx \<longrightarrow> (\<forall>ns \<in> set chunks. length ns \<le> 127)"
    using context_asdus_taken [OF assms, of COT_INTERROGATED_BY_STATION ca] by blast
  then have "send_interrogation_for_type mem p ca con ctx = Returns (map (SendASDU con) asdus)"
    by (simp add: send_interrogation_asdus [OF assms(1)])
  then show ?thesis using r(2-5) by blast
qed

lemma demo_points_ok: "points_ok (replicate 5 0) demo_context"
  using demo_context_wf
  by (simp add: points_ok_def demo_context_def convertible_def type_ids)

lemma demo_short: "short_chunks defaultAppLayerParameters demo_context"
  by (simp add: short_chunks_def demo_context_def)

theorem interrogation_complete_witness:
  "\<exists>asdus chunks. send_interrogation_for_type (replicate 5 0) defaultAppLayerParameters 1 7 demo_context =
      Returns (map (SendASDU 7) asdus) \<and> concat chunks = [0..<2] \<and>
    list_all2 (\<lambda>a ns. represents a (map (point_io (replicate 5 0) demo_context) ns)) asdus chunks"
proof -
  obtain asdus chunks where "send_interrogation_for_type (replicate 5 0) defaultAppLayerParameters 1 7 demo_context =
      Returns (map (SendASDU 7) asdus)" "concat chunks = [0..<ctx_count demo_context]"
    "list_all2 (\<lambda>a ns. represents a (map (point_io (replicate 5 0) demo_context) (take 127 ns))) asdus chunks"
    "\<forall>ns \<in> set chunks. length ns \<le> 127"
    using interrogation_complete [OF demo_points_ok link_params_default, of 1 7] demo_short by blast
  moreover from this(3,4) have "list_all2 (\<lambda>a ns. represents a (map (point_io (replicate 5 0) demo_context) ns)) asdus chunks"
    by (auto simp: list_all2_conv_all_nth)
  ultimately show ?thesis by (auto simp: demo_context_def)
qed

text \<open>
  A run of more than 127 consecutive single or double points that the size formula puts into one
  ASDU loses its tail: the only ASDU that is sent represents the first 127 points and no others.
\<close>

theorem interrogation_truncates_long_runs:
  assumes "points_ok mem ctx" "link_params p" "127 \<le> ctx_count ctx"
    and "int (ctx_count ctx) \<le> max_chunk p (ctx_type_info ctx) True"
    and "\<And>k. k < ctx_count ctx \<Longrightarrow> ioa_list ctx ! k = ioa_list ctx ! 0 + int k"
  shows "\<exists>a. send_interrogation_for_type mem p ca con ctx = Returns [SendASDU con a] \<and>
    represents a (map (point_io mem ctx) [0..<127])"
  using context_asdus_long_run [OF assms, of COT_INTERROGATED_BY_STATION ca]
  by (auto simp: send_interrogation_asdus [OF assms(1)])

definition long_context :: data_context where
  "long_context = \<lparr>ctx_type_id = M_SP_NA_1, ctx_type_info = DATA_TYPE_TABLE ! 4,
     ioa_list = map int [1000..<1200], ctx_count = 200, data_array = replicate 200 zero_value,
     last_offline_update = None\<rparr>"

lemma long_context_ioa: "k < 200 \<Longrightarrow> ioa_list long_context ! k = 1000 + int k"
  unfolding long_context_def data_context.simps by (subst nth_map_upt) simp_all

lemma long_context_points: "points_ok (replicate 5 0) long_context"
  unfolding points_ok_def ctx_wf_def list_all_iff
  by (auto simp: long_context_def convertible_def type_ids table_defs simp del: upt_rec_numeral)

lemma long_context_facts:
  "127 \<le> ctx_count long_context"
  "int (ctx_count long_context) \<le> max_chunk defaultAppLayerParameters (ctx_type_info long_context) True"
  by (simp_all add: long_context_def table_defs max_chunk_def calcMaxIOAs_SQ1_def getIOSizeNoIOA_def c_arith)

theorem interrogation_truncates_long_runs_witness:
  "\<exists>a. send_interrogation_for_type (replicate 5 0) defaultAppLayerParameters 1 7 long_context =
      Returns [SendASDU 7 a] \<and>
    represents a (map (point_io (replicate 5 0) long_context) [0..<127])"
proof (rule interrogation_truncates_long_runs [OF long_context_points link_params_default long_context_facts])
  fix k assume "k < ctx_count long_context"
  then have "k < 200" by (simp add: long_context_def)
  then show "ioa_list long_context ! k = ioa_list long_context ! 0 + int k"
    using long_context_ioa [of k] long_context_ioa [of 0] by simp
qed

text \<open>
  C9: the handler answers a station interrogation with a positive confirmation first, then the data of
  every type in the order of the table, then the termination, all on the requesting connection;
  any other qualifier gets one negative confirmation and nothing else.
\<close>

theorem interrogation_handler_trace:
  assumes "length ctxs = 10" "list_all (\<lambda>ctx. points_ok mem ctx \<and> short_chunks p ctx) ctxs" "link_params p"
  shows "\<exists>asduss. interrogationHandler mem p ca ctxs con a qoi =
    (if qoi = 20 then Returns (True, reply_asdu COT_ACTIVATION_TERMINATION False (reply_asdu COT_ACTIVATION_CON False a),
       SendASDU con (reply_asdu COT_ACTIVATION_CON False a) # map (SendASDU con) (concat asduss) @
       [SendASDU con (reply_asdu COT_ACTIVATION_TERMINATION False (reply_asdu COT_ACTIVATION_CON False a))])
     else Returns (False, reply_asdu COT_ACTIVATION_CON True a, [SendASDU con (reply_asdu COT_ACTIVATION_CON True a)])) \<and>
    list_all2 (\<lambda>ctx asdus. \<exists>chunks. concat chunks = [0..<ctx_count ctx] \<and>
      list_all2 (\<lambda>a ns. represents a (map (point_io mem ctx) ns)) asdus chunks) ctxs asduss"
proof -
  let ?P = "\<lambda>ctx asdus. \<exists>chunks. concat chunks = [0..<ctx_count ctx] \<and>
      list_all2 (\<lambda>a ns. represents a (map (point_io mem ctx) ns)) asdus chunks"
  let ?Q = "\<lambda>ctx acts. \<exists>asdus. acts = map (SendASDU con) asdus \<and> ?P ctx asdus"
  have "\<exists>acts. send_interrogation_for_type mem p ca con ctx = Returns acts \<and> ?Q ctx acts" if "ctx \<in> set ctxs" for ctx
    using context_asdus_complete [of mem ctx p COT_INTERROGATED_BY_STATION ca]
      send_interrogation_asdus [of mem ctx p ca con] assms(2,3) that
    by (fastforce simp: list_all_iff)
  then have "\<exists>data. traverse (send_interrogation_for_type mem p ca con) ctxs = Returns data \<and>
      list_all2 ?Q ctxs data"
    by (intro traverse_ex) blast
  then obtain data where
    data: "traverse (send_interrogation_for_type mem p ca con) ctxs = Returns data"
    and all: "list_all2 ?Q ctxs data" by blast
  from all have "\<exists>asduss. data = map (map (SendASDU con)) asduss \<and> list_all2 ?P ctxs asduss"
  proof (induction rule: list_all2_induct)
    case (Cons c cs acts data)
    then obtain as ass where "acts = map (SendASDU con) as" "?P c as"
      "data = map (map (SendASDU con)) ass" "list_all2 ?P cs ass" by blast
    then show ?case by (intro exI [of _ "as # ass"]) simp
  qed simp
  then obtain asduss where "data = map (map (SendASDU con)) asduss" "list_all2 ?P ctxs asduss" by blast
  with data assms(1) show ?thesis
    by (intro exI [of _ asduss]) (simp add: interrogationHandler_def sendACT_simps map_concat)
qed

definition demo_request :: asdu where
  "demo_request = CS101_ASDU_create defaultAppLayerParameters False 6 0 1 False False"

theorem interrogation_handler_trace_witness:
  "\<exists>asduss. interrogationHandler (replicate 5 0) defaultAppLayerParameters 1 (replicate 10 demo_context) 7 demo_request 20 =
    (if (20 :: u8) = 20 then Returns (True, reply_asdu COT_ACTIVATION_TERMINATION False (reply_asdu COT_ACTIVATION_CON False demo_request),
       SendASDU 7 (reply_asdu COT_ACTIVATION_CON False demo_request) # map (SendASDU 7) (concat asduss) @
       [SendASDU 7 (reply_asdu COT_ACTIVATION_TERMINATION False (reply_asdu COT_ACTIVATION_CON False demo_request))])
     else Returns (False, reply_asdu COT_ACTIVATION_CON True demo_request, [SendASDU 7 (reply_asdu COT_ACTIVATION_CON True demo_request)])) \<and>
    list_all2 (\<lambda>ctx asdus. \<exists>chunks. concat chunks = [0..<ctx_count ctx] \<and>
      list_all2 (\<lambda>a ns. represents a (map (point_io (replicate 5 0) ctx) ns)) asdus chunks)
      (replicate 10 demo_context) asduss"
  by (rule interrogation_handler_trace)
    (use demo_points_ok demo_short in \<open>simp_all add: list_all_iff\<close>)

end
