(* ===== verification/Periodic_Sender.thy ===== *)
theory Periodic_Sender
  imports Interrogation
begin

text \<open>
  The periodic sender (\<open>json-iec104-server/src/threads/periodic_sender.c\<close>): two types are sent again and
  again, each at its own period, with the same runs and chunks as the interrogation (the three
  helper functions are copies) and the cause periodic. The ASDUs go to the queue of the slave.
\<close>

section \<open>State\<close>

record periodic_config =
  pc_enabled :: bool
  pc_period_ms :: int
  pc_last_sent :: u64

definition default_periodic :: periodic_config where
  "default_periodic = \<lparr>pc_enabled = False, pc_period_ms = 5000, pc_last_sent = 0\<rparr>"

section \<open>Sending\<close>

text \<open>In the comparison the period is converted to an unsigned 64 bit value.\<close>

definition send_periodic_data_for_type ::
    "bytes \<Rightarrow> app_layer_params \<Rightarrow> int \<Rightarrow> u64 \<Rightarrow> data_context \<Rightarrow> periodic_config \<Rightarrow>
       (action list \<times> periodic_config) outcome" where
  "send_periodic_data_for_type mem p ca now ctx cfg =
     (if \<not> pc_enabled cfg \<or> ctx_count ctx = 0 then Returns ([], cfg)
      else if now - pc_last_sent cfg < word_of_int (pc_period_ms cfg) then Returns ([], cfg)
      else obind (context_asdus mem p COT_PERIODIC ca ctx)
             (\<lambda>asdus. Returns (map EnqueueASDU asdus, cfg\<lparr>pc_last_sent := now\<rparr>)))"

text \<open>
  One round of the thread, with the clock read for each type. \<open>get_data_context\<close> finds both types in
  any initialised table; NULL would be dereferenced.
\<close>

definition periodic_round ::
    "bytes \<Rightarrow> app_layer_params \<Rightarrow> int \<Rightarrow> int option \<Rightarrow> u64 \<Rightarrow> u64 \<Rightarrow> data_context list \<Rightarrow>
       periodic_config \<times> periodic_config \<Rightarrow> (action list \<times> periodic_config \<times> periodic_config) outcome" where
  "periodic_round mem p ca slave now1 now2 ctxs cfgs =
     (if is_client_connected slave then
        case (get_data_context ctxs M_ME_NC_1, get_data_context ctxs M_SP_TB_1) of
          (Some i, Some k) \<Rightarrow>
            obind (send_periodic_data_for_type mem p ca now1 (ctxs ! i) (fst cfgs)) (\<lambda>(acts1, cfg1).
            obind (send_periodic_data_for_type mem p ca now2 (ctxs ! k) (snd cfgs)) (\<lambda>(acts2, cfg2).
              Returns (acts1 @ acts2, cfg1, cfg2)))
        | _ \<Rightarrow> Undefined
      else Returns ([], cfgs))"

text \<open>\<open>start_periodic_sender\<close> and \<open>stop_periodic_sender\<close> on the flag \<open>running\<close>; the thread is created when the
  flag was off, and \<open>created\<close> is the success of \<open>pthread_create\<close>.\<close>

definition start_periodic_sender :: "bool \<Rightarrow> bool \<Rightarrow> bool" where
  "start_periodic_sender created running = (if running then True else created)"

definition stop_periodic_sender :: "bool \<Rightarrow> bool" where
  "stop_periodic_sender running = False"

section \<open>Both contexts exist\<close>

lemma periodic_contexts:
  assumes "contexts_wf ctxs"
  shows "get_data_context ctxs M_ME_NC_1 = Some 8" "get_data_context ctxs M_SP_TB_1 = Some 0"
  by (simp_all add: get_data_context_wf [OF assms] table_defs type_ids)

lemma send_periodic_cases:
  assumes "points_ok mem ctx" "link_params p" "short_chunks p ctx"
  shows "\<exists>asdus chunks. send_periodic_data_for_type mem p ca now ctx cfg =
      (if pc_enabled cfg \<and> 0 < ctx_count ctx \<and> word_of_int (pc_period_ms cfg) \<le> now - pc_last_sent cfg
       then Returns (map EnqueueASDU asdus, cfg\<lparr>pc_last_sent := now\<rparr>) else Returns ([], cfg)) \<and>
    concat chunks = [0..<ctx_count ctx] \<and>
    list_all2 (\<lambda>a ns. represents a (map (point_io mem ctx) ns)) asdus chunks"
proof -
  obtain asdus chunks where "context_asdus mem p COT_PERIODIC ca ctx = Returns asdus"
    "concat chunks = [0..<ctx_count ctx]"
    "list_all2 (\<lambda>a ns. represents a (map (point_io mem ctx) ns)) asdus chunks"
    using context_asdus_complete [OF assms, of COT_PERIODIC ca] by blast
  moreover have "\<not> now - pc_last_sent cfg < word_of_int (pc_period_ms cfg) \<longleftrightarrow>
      word_of_int (pc_period_ms cfg) \<le> now - pc_last_sent cfg" by (rule linorder_not_less)
  ultimately show ?thesis
    by (intro exI [of _ asdus] exI [of _ chunks])
      (cases "now - pc_last_sent cfg < word_of_int (pc_period_ms cfg)"; simp add: send_periodic_data_for_type_def)
qed

section \<open>Properties\<close>

text \<open>
  C16: a round of the periodic sender always ends; for each of the two types it queues the whole type,
  every point once and in order, exactly when the type is enabled, has points and its period has
  passed since it was sent last, and then records the time; nothing is queued without a client.
\<close>

theorem periodic_round_sends_due_types:
  assumes "contexts_wf ctxs" "link_params p"
    and "\<And>i. i \<in> {0, 8} \<Longrightarrow> points_ok mem (ctxs ! i) \<and> short_chunks p (ctxs ! i)"
  shows "\<exists>acts cfgs'. periodic_round mem p ca slave now now ctxs cfgs = Returns (acts, cfgs') \<and>
    (\<exists>asduss. acts = concat (map (map EnqueueASDU) asduss) \<and>
      list_all2 (\<lambda>(ctx, cfg, cfg') asdus.
        if is_client_connected slave \<and> pc_enabled cfg \<and> 0 < ctx_count ctx \<and>
            word_of_int (pc_period_ms cfg) \<le> now - pc_last_sent cfg
        then cfg' = cfg\<lparr>pc_last_sent := now\<rparr> \<and> (\<exists>chunks. concat chunks = [0..<ctx_count ctx] \<and>
            list_all2 (\<lambda>a ns. represents a (map (point_io mem ctx) ns)) asdus chunks)
        else cfg' = cfg \<and> asdus = [])
      [(ctxs ! 8, fst cfgs, fst cfgs'), (ctxs ! 0, snd cfgs, snd cfgs')] asduss)"
proof (cases "is_client_connected slave")
  case False
  then show ?thesis
    by (intro exI [of _ "[]"] exI [of _ cfgs] conjI exI [of _ "[[], []]"]) (simp_all add: periodic_round_def)
next
  case True
  let ?due = "\<lambda>ctx cfg. pc_enabled cfg \<and> 0 < ctx_count ctx \<and> word_of_int (pc_period_ms cfg) \<le> now - pc_last_sent cfg"
  have each: "\<exists>asdus cfg'. send_periodic_data_for_type mem p ca now ctx cfg = Returns (map EnqueueASDU asdus, cfg') \<and>
      (if ?due ctx cfg then cfg' = cfg\<lparr>pc_last_sent := now\<rparr> \<and> (\<exists>chunks. concat chunks = [0..<ctx_count ctx] \<and>
            list_all2 (\<lambda>a ns. represents a (map (point_io mem ctx) ns)) asdus chunks)
       else cfg' = cfg \<and> asdus = [])"
    if ok: "points_ok mem ctx" "short_chunks p ctx" for ctx cfg
  proof -
    obtain asdus chunks where r: "send_periodic_data_for_type mem p ca now ctx cfg =
        (if ?due ctx cfg then Returns (map EnqueueASDU asdus, cfg\<lparr>pc_last_sent := now\<rparr>) else Returns ([], cfg))"
      and c: "concat chunks = [0..<ctx_count ctx]"
      "list_all2 (\<lambda>a ns. represents a (map (point_io mem ctx) ns)) asdus chunks"
      using send_periodic_cases [OF ok(1) assms(2) ok(2), of ca now cfg] by blast
    show ?thesis
    proof (cases "?due ctx cfg")
      case True
      with r c show ?thesis by (intro exI [of _ asdus] exI [of _ "cfg\<lparr>pc_last_sent := now\<rparr>"]) auto
    next
      case False
      with r show ?thesis by (intro exI [of _ "[]"] exI [of _ cfg]) auto
    qed
  qed
  have ok: "points_ok mem (ctxs ! 8)" "short_chunks p (ctxs ! 8)" "points_ok mem (ctxs ! 0)" "short_chunks p (ctxs ! 0)"
    using assms(3) by simp_all
  obtain as1 c1 where 1: "send_periodic_data_for_type mem p ca now (ctxs ! 8) (fst cfgs) = Returns (map EnqueueASDU as1, c1)"
    and p1: "if ?due (ctxs ! 8) (fst cfgs) then c1 = (fst cfgs)\<lparr>pc_last_sent := now\<rparr> \<and>
        (\<exists>chunks. concat chunks = [0..<ctx_count (ctxs ! 8)] \<and>
            list_all2 (\<lambda>a ns. represents a (map (point_io mem (ctxs ! 8)) ns)) as1 chunks)
       else c1 = fst cfgs \<and> as1 = []"
    using each [OF ok(1,2), of "fst cfgs"] by blast
  obtain as2 c2 where 2: "send_periodic_data_for_type mem p ca now (ctxs ! 0) (snd cfgs) = Returns (map EnqueueASDU as2, c2)"
    and p2: "if ?due (ctxs ! 0) (snd cfgs) then c2 = (snd cfgs)\<lparr>pc_last_sent := now\<rparr> \<and>
        (\<exists>chunks. concat chunks = [0..<ctx_count (ctxs ! 0)] \<and>
            list_all2 (\<lambda>a ns. represents a (map (point_io mem (ctxs ! 0)) ns)) as2 chunks)
       else c2 = snd cfgs \<and> as2 = []"
    using each [OF ok(3,4), of "snd cfgs"] by blast
  have "periodic_round mem p ca slave now now ctxs cfgs =
      Returns (map EnqueueASDU as1 @ map EnqueueASDU as2, c1, c2)"
    using True 1 2 by (simp add: periodic_round_def periodic_contexts [OF assms(1)])
  then show ?thesis
    using True p1 p2 by (intro exI [of _ "map EnqueueASDU as1 @ map EnqueueASDU as2"] exI [of _ "(c1, c2)"] conjI
        exI [of _ "[as1, as2]"]) simp_all
qed

definition demo_contexts :: "data_context list" where
  "demo_contexts = init_data_contexts[0 := demo_context]"

definition demo_period :: periodic_config where
  "demo_period = \<lparr>pc_enabled = True, pc_period_ms = 5000, pc_last_sent = 1000\<rparr>"

lemma demo_contexts_ok:
  "contexts_wf demo_contexts"
  "i \<in> {0, 8} \<Longrightarrow> points_ok (replicate 5 0) (demo_contexts ! i) \<and> short_chunks defaultAppLayerParameters (demo_contexts ! i)"
proof -
  have nth: "init_data_contexts ! 0 = init_context (DATA_TYPE_TABLE ! 0)"
    "demo_contexts ! 8 = init_context (DATA_TYPE_TABLE ! 8)" "demo_contexts ! 0 = demo_context"
    by (simp_all add: demo_contexts_def init_data_contexts_def)
  show "contexts_wf demo_contexts"
    unfolding demo_contexts_def
    by (rule contexts_wf_replace [OF contexts_wf_init _ demo_context_wf])
      (simp_all add: nth init_data_contexts_def, simp add: demo_context_def init_context_def)
  have "ctx_wf (init_context (DATA_TYPE_TABLE ! 8))"
    by (simp add: ctx_wf_def init_context_def)
  then show "i \<in> {0, 8} \<Longrightarrow> points_ok (replicate 5 0) (demo_contexts ! i) \<and>
      short_chunks defaultAppLayerParameters (demo_contexts ! i)"
    using demo_points_ok demo_short
    by (auto simp: nth points_ok_def init_context_def short_chunks_def)
qed

theorem periodic_round_sends_due_types_witness:
  "\<exists>acts cfgs'. periodic_round (replicate 5 0) defaultAppLayerParameters 1 (Some 1) 7000 7000 demo_contexts
      (demo_period, demo_period) = Returns (acts, cfgs') \<and>
    fst cfgs' = demo_period \<and> snd cfgs' = demo_period\<lparr>pc_last_sent := 7000\<rparr>"
proof -
  have "ctx_count (demo_contexts ! 8) = 0" "ctx_count (demo_contexts ! 0) = 2"
    by (simp_all add: demo_contexts_def init_data_contexts_def table_defs init_context_def demo_context_def)
  then show ?thesis
    using periodic_round_sends_due_types [OF demo_contexts_ok(1) link_params_default demo_contexts_ok(2),
        of 1 "Some 1" 7000 "(demo_period, demo_period)"]
    by (fastforce simp: is_client_connected_def demo_period_def list_all2_Cons1)
qed

text \<open>
  A negative period is converted to a huge unsigned one: with a clock below \<open>2 ^ 63\<close> a type with a
  negative period that was never sent is never sent.
\<close>

theorem negative_period_never_sent:
  assumes "pc_period_ms cfg < 0" "- (2 ^ 31) \<le> pc_period_ms cfg" "pc_last_sent cfg = 0" "now < 2 ^ 63"
  shows "send_periodic_data_for_type mem p ca now ctx cfg = Returns ([], cfg)"
proof -
  have "uint (word_of_int (pc_period_ms cfg) :: u64) = pc_period_ms cfg + 2 ^ 64"
    using assms(1,2) mod_add_self2 [of "pc_period_ms cfg" "2 ^ 64"]
      mod_pos_pos_trivial [of "pc_period_ms cfg + 2 ^ 64" "2 ^ 64"] by (simp add: uint_word_of_int)
  moreover have "uint now < 2 ^ 63" using assms(4) by (simp add: word_less_def)
  ultimately have "now < word_of_int (pc_period_ms cfg)"
    using assms(2) by (simp add: word_less_def)
  then show ?thesis using assms(3) by (simp add: send_periodic_data_for_type_def)
qed

theorem negative_period_never_sent_witness:
  "send_periodic_data_for_type (replicate 5 0) defaultAppLayerParameters 1 9000 demo_context
      \<lparr>pc_enabled = True, pc_period_ms = -1, pc_last_sent = 0\<rparr> =
    Returns ([], \<lparr>pc_enabled = True, pc_period_ms = -1, pc_last_sent = 0\<rparr>)"
  by (rule negative_period_never_sent) simp_all

end
