(* ===== verification/Json_Tree.thy ===== *)
theory Json_Tree
  imports Soft_Float
begin

text \<open>
  JSON documents as the servers see them: the tree of \<open>cJSON\<close> nodes (\<open>cJSON/cJSON.c\<close>) with its
  accessors. Names of members may repeat; the lookup returns the first.
\<close>

section \<open>Nodes\<close>

datatype json =
    JNull
  | JFalse
  | JTrue
  | JNumber f64
  | JString string
  | JArray "json list"
  | JObject "(string \<times> json) list"

text \<open>
  The member \<open>valueint\<close>: the number saturated at the limits of int. The parser also stores 1 for
  \<open>true\<close>; \<open>valuedouble\<close> is zero for everything but numbers.
\<close>

definition saturate_int :: "f64 \<Rightarrow> int" where
  "saturate_int d =
     (if fv_le (Fin False 2147483647 0) (f64_val d) then 2147483647
      else if fv_le (f64_val d) (Fin True 2147483648 0) then -2147483648
      else case fv_trunc (f64_val d) of None \<Rightarrow> 0 | Some i \<Rightarrow> i)"

fun valueint :: "json \<Rightarrow> int" where
  "valueint (JNumber d) = saturate_int d"
| "valueint JTrue = 1"
| "valueint _ = 0"

fun valuedouble :: "json \<Rightarrow> f64" where
  "valuedouble (JNumber d) = d"
| "valuedouble _ = 0"

fun cJSON_IsNumber :: "json option \<Rightarrow> bool" where
  "cJSON_IsNumber (Some (JNumber _)) = True"
| "cJSON_IsNumber _ = False"

fun cJSON_IsString :: "json option \<Rightarrow> bool" where
  "cJSON_IsString (Some (JString _)) = True"
| "cJSON_IsString _ = False"

fun cJSON_IsArray :: "json option \<Rightarrow> bool" where
  "cJSON_IsArray (Some (JArray _)) = True"
| "cJSON_IsArray _ = False"

fun cJSON_IsObject :: "json option \<Rightarrow> bool" where
  "cJSON_IsObject (Some (JObject _)) = True"
| "cJSON_IsObject _ = False"

fun cJSON_IsBool :: "json option \<Rightarrow> bool" where
  "cJSON_IsBool (Some JTrue) = True"
| "cJSON_IsBool (Some JFalse) = True"
| "cJSON_IsBool _ = False"

fun cJSON_IsTrue :: "json option \<Rightarrow> bool" where
  "cJSON_IsTrue (Some JTrue) = True"
| "cJSON_IsTrue _ = False"

section \<open>Lookup\<close>

text \<open>\<open>tolower\<close> in the C locale, and the comparison that uses it; 0 means equal.\<close>

definition tolower :: "char \<Rightarrow> int" where
  "tolower c = (let n = of_char c :: int in if 65 \<le> n \<and> n \<le> 90 then n + 32 else n)"

fun case_insensitive_strcmp :: "string \<Rightarrow> string \<Rightarrow> int" where
  "case_insensitive_strcmp [] [] = 0"
| "case_insensitive_strcmp (x # xs) [] = tolower x"
| "case_insensitive_strcmp [] (y # ys) = - tolower y"
| "case_insensitive_strcmp (x # xs) (y # ys) =
     (if tolower x = tolower y then case_insensitive_strcmp xs ys else tolower x - tolower y)"

fun get_object_item :: "json \<Rightarrow> string \<Rightarrow> bool \<Rightarrow> json option" where
  "get_object_item (JObject members) name case_sensitive =
     map_option snd (find (\<lambda>(k, v). if case_sensitive then name = k else case_insensitive_strcmp name k = 0) members)"
| "get_object_item _ name case_sensitive = None"

definition cJSON_GetObjectItem :: "json \<Rightarrow> string \<Rightarrow> json option" where
  "cJSON_GetObjectItem j name = get_object_item j name False"

definition cJSON_GetObjectItemCaseSensitive :: "json \<Rightarrow> string \<Rightarrow> json option" where
  "cJSON_GetObjectItemCaseSensitive j name = get_object_item j name True"

fun elements :: "json \<Rightarrow> json list" where
  "elements (JArray js) = js"
| "elements (JObject members) = map snd members"
| "elements _ = []"

definition cJSON_GetArraySize :: "json \<Rightarrow> nat" where
  "cJSON_GetArraySize j = length (elements j)"

definition cJSON_GetArrayItem :: "json \<Rightarrow> nat \<Rightarrow> json option" where
  "cJSON_GetArrayItem j i = (if i < length (elements j) then Some (elements j ! i) else None)"

section \<open>Construction\<close>

fun cJSON_AddItemToObject :: "json \<Rightarrow> string \<Rightarrow> json \<Rightarrow> json" where
  "cJSON_AddItemToObject (JObject members) name item = JObject (members @ [(name, item)])"
| "cJSON_AddItemToObject j name item = j"

fun cJSON_AddItemToArray :: "json \<Rightarrow> json \<Rightarrow> json" where
  "cJSON_AddItemToArray (JArray js) item = JArray (js @ [item])"
| "cJSON_AddItemToArray j item = j"

definition cJSON_AddStringToObject :: "json \<Rightarrow> string \<Rightarrow> string \<Rightarrow> json" where
  "cJSON_AddStringToObject j name s = cJSON_AddItemToObject j name (JString s)"

definition cJSON_AddNumberToObject :: "json \<Rightarrow> string \<Rightarrow> f64 \<Rightarrow> json" where
  "cJSON_AddNumberToObject j name d = cJSON_AddItemToObject j name (JNumber d)"

text \<open>An integer converted to double.\<close>

definition f64_of_int :: "int \<Rightarrow> f64" where
  "f64_of_int i = f64_of (Fin (i < 0) (nat \<bar>i\<bar>) 0)"

text \<open>A name is found whatever the case of its letters; an exact match is found by both lookups.\<close>

lemma strcmp_refl [simp]: "case_insensitive_strcmp s s = 0"
  by (induction s) simp_all

lemma exact_lookup_found:
  "cJSON_GetObjectItemCaseSensitive j name = Some v \<Longrightarrow> cJSON_GetObjectItem j name \<noteq> None"
proof (cases j)
  case (JObject members)
  assume "cJSON_GetObjectItemCaseSensitive j name = Some v"
  then obtain i where "i < length members" "members ! i = (name, v)"
    by (auto simp: JObject cJSON_GetObjectItemCaseSensitive_def find_Some_iff)
  then have "(name, v) \<in> set members" by (metis nth_mem)
  then have "find (\<lambda>(k, v). case_insensitive_strcmp name k = 0) members \<noteq> None"
    by (auto simp: find_None_iff)
  then show ?thesis by (auto simp: JObject cJSON_GetObjectItem_def)
qed (simp_all add: cJSON_GetObjectItemCaseSensitive_def)

end
