(* ===== verification/Config_Parser.thy ===== *)
theory Config_Parser
  imports Periodic_Sender Json_Tree
begin

text \<open>
  The configuration (\<open>json-iec104-server/src/config/config_parser.c\<close>): global settings, periods and the
  addresses of every data type, read from a JSON document. The parser of the JSON text is an argument.
  The specification says which documents are accepted and which state each leaves behind.
\<close>

section \<open>State\<close>

record server_state =
  sv_globals :: globals
  sv_contexts :: "data_context list"
  sv_periodic_M_ME_NC_1 :: periodic_config
  sv_periodic_M_SP_TB_1 :: periodic_config

definition initial_server :: server_state where
  "initial_server = \<lparr>sv_globals = initial_globals, sv_contexts = init_data_contexts,
     sv_periodic_M_ME_NC_1 = default_periodic, sv_periodic_M_SP_TB_1 = default_periodic\<rparr>"

section \<open>Global settings and periods\<close>

text \<open>Each setting that is present with the right type replaces its global; strings keep 63 characters.\<close>

definition on_number :: "json \<Rightarrow> string \<Rightarrow> (json \<Rightarrow> 'a \<Rightarrow> 'a) \<Rightarrow> 'a \<Rightarrow> 'a" where
  "on_number j key f g =
     (case cJSON_GetObjectItemCaseSensitive j key of
        Some item \<Rightarrow> if cJSON_IsNumber (Some item) then f item g else g
      | None \<Rightarrow> g)"

definition on_string :: "json \<Rightarrow> string \<Rightarrow> (string \<Rightarrow> 'a \<Rightarrow> 'a) \<Rightarrow> 'a \<Rightarrow> 'a" where
  "on_string j key f g =
     (case cJSON_GetObjectItemCaseSensitive j key of
        Some (JString s) \<Rightarrow> f s g
      | _ \<Rightarrow> g)"

definition parse_global_settings :: "json \<Rightarrow> globals \<Rightarrow> bool \<times> globals" where
  "parse_global_settings j g =
     (let g = on_number j ''offline_udt_time'' (\<lambda>item g. g\<lparr>offline_udt_time := word_of_int (valueint item)\<rparr>) g;
          g = on_number j ''deadband_M_ME_NC_1_percent''
                (\<lambda>item g. g\<lparr>deadband_M_ME_NC_1_percent := f32_of_f64 (valuedouble item)\<rparr>) g;
          g = on_number j ''ASDU'' (\<lambda>item g. g\<lparr>ASDU_address := valueint item\<rparr>) g;
          g = on_string j ''command_mode'' (\<lambda>s g. g\<lparr>command_mode := take 63 s\<rparr>) g;
          g = on_number j ''port'' (\<lambda>item g. g\<lparr>tcpPort := valueint item\<rparr>) g;
          g = on_string j ''local_ip'' (\<lambda>s g. g\<lparr>local_ip := take 63 s\<rparr>) g
      in (True, g))"

definition parse_period :: "json \<Rightarrow> string \<Rightarrow> periodic_config \<Rightarrow> periodic_config" where
  "parse_period periodic key cfg =
     (case cJSON_GetObjectItemCaseSensitive periodic key of
        Some item \<Rightarrow>
          if cJSON_IsObject (Some item) then
            let enabled = cJSON_GetObjectItemCaseSensitive item ''enabled'';
                cfg = (if cJSON_IsBool enabled then cfg\<lparr>pc_enabled := cJSON_IsTrue enabled\<rparr> else cfg)
            in on_number item ''period_ms'' (\<lambda>v cfg. cfg\<lparr>pc_period_ms := valueint v\<rparr>) cfg
          else cfg
      | None \<Rightarrow> cfg)"

definition parse_periodic_config :: "json \<Rightarrow> server_state \<Rightarrow> server_state" where
  "parse_periodic_config j sv =
     (case cJSON_GetObjectItemCaseSensitive j ''periodic'' of
        Some periodic \<Rightarrow>
          if cJSON_IsObject (Some periodic) then
            sv\<lparr>sv_periodic_M_ME_NC_1 := parse_period periodic ''M_ME_NC_1'' (sv_periodic_M_ME_NC_1 sv),
               sv_periodic_M_SP_TB_1 := parse_period periodic ''M_SP_TB_1'' (sv_periodic_M_SP_TB_1 sv)\<rparr>
          else sv
      | None \<Rightarrow> sv)"

section \<open>Addresses\<close>

text \<open>The value a point has before any data arrived.\<close>

definition initial_value :: "data_type_info \<Rightarrow> data_value" where
  "initial_value info =
     (let d = zero_value\<lparr>dv_type := dti_value_type info, dv_has_quality := dti_has_quality info,
                         dv_has_timestamp := dti_has_time_tag info\<rparr>;
          d = (if dti_has_quality info then d\<lparr>dv_quality := QUALITY_INVALID\<rparr> else d)
      in case dv_type d of
           DATA_VALUE_TYPE_BOOL \<Rightarrow> set_bool_val False d
         | DATA_VALUE_TYPE_DOUBLE_POINT \<Rightarrow> set_dp_val DOUBLE_POINT_INDETERMINATE d
         | DATA_VALUE_TYPE_INT16 \<Rightarrow> set_int16_val 0 d
         | DATA_VALUE_TYPE_UINT32 \<Rightarrow> set_uint32_val 0 d
         | DATA_VALUE_TYPE_FLOAT \<Rightarrow> set_float_val f32_0 d)"

text \<open>The loop over the addresses; None when an element is not a number.\<close>

fun parse_addresses :: "json list \<Rightarrow> int list option" where
  "parse_addresses [] = Some []"
| "parse_addresses (item # items) =
     (if cJSON_IsNumber (Some item)
      then map_option (\<lambda>ioas. valueint item # ioas) (parse_addresses items) else None)"

text \<open>Memory is assumed to be available.\<close>

definition parse_data_type_config :: "json \<Rightarrow> string \<Rightarrow> data_context \<Rightarrow> bool \<times> data_context" where
  "parse_data_type_config j config_key ctx =
     (case cJSON_GetObjectItemCaseSensitive j config_key of
        None \<Rightarrow> (True, ctx)
      | Some config_array \<Rightarrow>
          if \<not> cJSON_IsArray (Some config_array) then (True, ctx)
          else let count = cJSON_GetArraySize config_array
            in if count = 0 then (True, ctx)
               else case parse_addresses (elements config_array) of
                 None \<Rightarrow> (False, ctx\<lparr>ioa_list := []\<rparr>)
               | Some ioas \<Rightarrow>
                   let ctx = ctx\<lparr>ioa_list := ioas, ctx_count := count,
                                 data_array := replicate count (initial_value (ctx_type_info ctx))\<rparr>
                   in (True, if dti_has_time_tag (ctx_type_info ctx)
                             then ctx\<lparr>last_offline_update := Some (replicate count 0)\<rparr> else ctx))"

definition config_keys :: "(string \<times> u32) list" where
  "config_keys = [(''M_SP_TB_1_config'', M_SP_TB_1), (''M_DP_TB_1_config'', M_DP_TB_1),
     (''M_ME_TD_1_config'', M_ME_TD_1), (''M_IT_TB_1_config'', M_IT_TB_1),
     (''M_SP_NA_1_config'', M_SP_NA_1), (''M_DP_NA_1_config'', M_DP_NA_1),
     (''M_ME_NA_1_config'', M_ME_NA_1), (''M_ME_NB_1_config'', M_ME_NB_1),
     (''M_ME_NC_1_config'', M_ME_NC_1), (''M_ME_ND_1_config'', M_ME_ND_1)]"

text \<open>The loop over the types, with its early returns.\<close>

fun parse_types :: "json \<Rightarrow> (string \<times> u32) list \<Rightarrow> data_context list \<Rightarrow> bool \<times> data_context list" where
  "parse_types j [] ctxs = (True, ctxs)"
| "parse_types j ((key, type_id) # keys) ctxs =
     (case get_data_context ctxs type_id of
        None \<Rightarrow> (False, ctxs)
      | Some i \<Rightarrow>
          let (ok, ctx) = parse_data_type_config j key (ctxs ! i); ctxs = ctxs[i := ctx]
          in if ok then parse_types j keys ctxs else (False, ctxs))"

definition parse_config_from_json ::
    "(string \<Rightarrow> json option) \<Rightarrow> string option \<Rightarrow> server_state \<Rightarrow> bool \<times> server_state" where
  "parse_config_from_json cJSON_Parse json_string sv =
     (case json_string of None \<Rightarrow> (False, sv)
      | Some s \<Rightarrow> (case cJSON_Parse s of None \<Rightarrow> (False, sv)
         | Some j \<Rightarrow>
             let (ok, g) = parse_global_settings j (sv_globals sv); sv = sv\<lparr>sv_globals := g\<rparr>
             in if \<not> ok then (False, sv)
                else let sv = parse_periodic_config j sv;
                         (ok, ctxs) = parse_types j config_keys (sv_contexts sv)
                     in (ok, sv\<lparr>sv_contexts := ctxs\<rparr>)))"

text \<open>
  \<open>file\<close> is the content of the file, None when it cannot be opened; the text that is parsed ends at
  the first NUL character.
\<close>

definition init_config_from_file ::
    "(string \<Rightarrow> json option) \<Rightarrow> string option \<Rightarrow> server_state \<Rightarrow> bool \<times> server_state" where
  "init_config_from_file cJSON_Parse file sv =
     (case file of None \<Rightarrow> (False, sv)
      | Some content \<Rightarrow>
          if content = [] then (False, sv)
          else parse_config_from_json cJSON_Parse (Some (takeWhile (\<lambda>c. c \<noteq> CHR 0x00) content)) sv)"

section \<open>What a document configures\<close>

text \<open>The array of a type in a document; empty when there is none.\<close>

definition type_array :: "json \<Rightarrow> string \<Rightarrow> json list" where
  "type_array j key =
     (case cJSON_GetObjectItemCaseSensitive j key of Some (JArray js) \<Rightarrow> js | _ \<Rightarrow> [])"

definition numeric :: "json list \<Rightarrow> bool" where
  "numeric js \<longleftrightarrow> list_all (\<lambda>item. cJSON_IsNumber (Some item)) js"

definition configured :: "json list \<Rightarrow> data_context \<Rightarrow> data_context" where
  "configured js ctx =
     (if js = [] then ctx
      else ctx\<lparr>ioa_list := map valueint js, ctx_count := length js,
               data_array := replicate (length js) (initial_value (ctx_type_info ctx)),
               last_offline_update := (if dti_has_time_tag (ctx_type_info ctx)
                 then Some (replicate (length js) 0) else last_offline_update ctx)\<rparr>)"

lemma parse_addresses_numeric: "parse_addresses js = (if numeric js then Some (map valueint js) else None)"
  by (induction js) (auto simp: numeric_def)

lemma parse_data_type_config_spec:
  "parse_data_type_config j key ctx =
     (if numeric (type_array j key) then (True, configured (type_array j key) ctx)
      else (False, ctx\<lparr>ioa_list := []\<rparr>))"
proof (cases "cJSON_GetObjectItemCaseSensitive j key")
  case (Some item)
  then show ?thesis
    by (cases item) (simp_all add: parse_data_type_config_def type_array_def configured_def numeric_def
        parse_addresses_numeric cJSON_GetArraySize_def Let_def)
qed (simp add: parse_data_type_config_def type_array_def configured_def numeric_def)

lemma configured_wf [wf_intros]:
  assumes "ctx_wf ctx" "last_offline_update ctx = None \<or> dti_has_time_tag (ctx_type_info ctx)"
  shows "ctx_wf (configured js ctx)"
  using assms by (auto simp: configured_def ctx_wf_def)

lemma configured_info [simp]: "ctx_type_info (configured js ctx) = ctx_type_info ctx"
  "ctx_type_id (configured js ctx) = ctx_type_id ctx"
  by (simp_all add: configured_def)

text \<open>The keys are those of the table, in its order, so each key reaches the context of its type.\<close>

lemma config_keys_table: "config_keys = map (\<lambda>info. (dti_name info @ ''_config'', dti_type_id info)) DATA_TYPE_TABLE"
  by (simp add: config_keys_def table_defs)

lemma contexts_lookup:
  assumes "map ctx_type_id ctxs = map dti_type_id DATA_TYPE_TABLE" "i < 10"
  shows "get_data_context ctxs (dti_type_id (DATA_TYPE_TABLE ! i)) = Some i"
proof -
  have len: "length ctxs = 10" using arg_cong [OF assms(1), of length] by simp
  have "get_data_context ctxs t = first_index (\<lambda>x. x = t) (map ctx_type_id ctxs)" for t
    by (simp add: get_data_context_def len first_index_map o_def)
  also have "\<dots> (dti_type_id (DATA_TYPE_TABLE ! i)) = first_index (\<lambda>x. dti_type_id x = dti_type_id (DATA_TYPE_TABLE ! i)) DATA_TYPE_TABLE"
    by (simp add: assms(1) first_index_map o_def)
  finally show ?thesis
    using first_index_distinct [OF table_types_distinct, of i] assms(2) by simp
qed

text \<open>The documents that are accepted, and the contexts they leave.\<close>

definition type_key :: "data_type_info \<Rightarrow> string" where
  "type_key info = dti_name info @ ''_config''"

definition acceptable :: "json \<Rightarrow> bool" where
  "acceptable j \<longleftrightarrow> list_all (\<lambda>info. numeric (type_array j (type_key info))) DATA_TYPE_TABLE"

definition configured_all :: "json \<Rightarrow> data_context list \<Rightarrow> data_context list" where
  "configured_all j ctxs = map (\<lambda>ctx. configured (type_array j (type_key (ctx_type_info ctx))) ctx) ctxs"

definition table_ids :: "data_context list \<Rightarrow> bool" where
  "table_ids ctxs \<longleftrightarrow> map ctx_type_id ctxs = map dti_type_id DATA_TYPE_TABLE \<and> map ctx_type_info ctxs = DATA_TYPE_TABLE"

lemma contexts_wf_ids: "contexts_wf ctxs \<Longrightarrow> table_ids ctxs"
proof -
  assume wf: "contexts_wf ctxs"
  then have "map ctx_type_id ctxs = map dti_type_id (map ctx_type_info ctxs)"
    unfolding map_map by (intro map_cong) (simp_all add: contexts_wf_def list_all_iff ctx_wf_def)
  then show ?thesis using wf by (simp only: table_ids_def contexts_wf_def)
qed

lemma table_ids_length: "table_ids ctxs \<Longrightarrow> length ctxs = 10"
  unfolding table_ids_def by (metis length_map length_table)

lemma table_ids_nth: "table_ids ctxs \<Longrightarrow> i < 10 \<Longrightarrow> ctx_type_info (ctxs ! i) = DATA_TYPE_TABLE ! i"
  using table_ids_length [of ctxs] unfolding table_ids_def by (metis nth_map)

lemma map_replace_same: "i < length xs \<Longrightarrow> f c = f (xs ! i) \<Longrightarrow> map f (xs[i := c]) = map f xs"
  by (metis list_update_id map_update)

lemma table_ids_replace:
  assumes "table_ids ctxs" "i < 10" "ctx_type_info c = ctx_type_info (ctxs ! i)" "ctx_type_id c = ctx_type_id (ctxs ! i)"
  shows "table_ids (ctxs[i := c])"
  using assms table_ids_length [OF assms(1)]
    map_replace_same [of i ctxs ctx_type_info c] map_replace_same [of i ctxs ctx_type_id c]
  by (simp add: table_ids_def)

lemma parse_types_spec:
  assumes "table_ids ctxs" "n \<le> 10"
  shows "(fst (parse_types j (drop n config_keys) ctxs) \<longleftrightarrow>
      (\<forall>i. n \<le> i \<and> i < 10 \<longrightarrow> numeric (type_array j (type_key (DATA_TYPE_TABLE ! i))))) \<and>
    (fst (parse_types j (drop n config_keys) ctxs) \<longrightarrow>
      snd (parse_types j (drop n config_keys) ctxs) =
        take n ctxs @ map (\<lambda>ctx. configured (type_array j (type_key (ctx_type_info ctx))) ctx) (drop n ctxs))"
  using assms(2,1)
proof (induction n arbitrary: ctxs rule: inc_induct)
  case base
  then show ?case using table_ids_length [of ctxs] by (auto simp: config_keys_table)
next
  case (step n)
  let ?info = "DATA_TYPE_TABLE ! n" and ?ctx = "ctxs ! n"
  let ?js = "type_array j (type_key ?info)"
  have n: "n < 10" using step.hyps by simp
  have len: "length ctxs = 10" using step.prems by (rule table_ids_length)
  have keys: "drop n config_keys = (type_key ?info, dti_type_id ?info) # drop (Suc n) config_keys"
    using n by (subst Cons_nth_drop_Suc [symmetric]) (simp_all add: config_keys_table type_key_def)
  have look: "get_data_context ctxs (dti_type_id ?info) = Some n"
    using contexts_lookup [of ctxs n] step.prems n by (simp add: table_ids_def)
  have info: "ctx_type_info ?ctx = ?info" by (rule table_ids_nth [OF step.prems n])
  have split: "(\<forall>i. n \<le> i \<and> i < 10 \<longrightarrow> P i) \<longleftrightarrow> P n \<and> (\<forall>i. Suc n \<le> i \<and> i < 10 \<longrightarrow> P i)" for P
    using n by (metis Suc_leI le_eq_less_or_eq order_refl Suc_leD)
  show ?case
  proof (cases "numeric ?js")
    case False
    then have "parse_types j (drop n config_keys) ctxs = (False, ctxs[n := ?ctx\<lparr>ioa_list := []\<rparr>])"
      by (simp add: keys look parse_data_type_config_spec)
    then show ?thesis using False n by auto
  next
    case True
    let ?ctxs = "ctxs[n := configured ?js ?ctx]"
    have r: "parse_types j (drop n config_keys) ctxs = parse_types j (drop (Suc n) config_keys) ?ctxs"
      using True by (simp add: keys look parse_data_type_config_spec)
    have "table_ids ?ctxs" by (rule table_ids_replace [OF step.prems n]) simp_all
    note IH = step.IH [OF this]
    have "take (Suc n) ?ctxs @ map f (drop (Suc n) ?ctxs) = take n ctxs @ configured ?js ?ctx # map f (drop (Suc n) ctxs)" for f
      using n len by (simp add: take_Suc_conv_app_nth drop_update_cancel)
    moreover have "drop n ctxs = ?ctx # drop (Suc n) ctxs"
      using n len by (simp add: Cons_nth_drop_Suc)
    ultimately show ?thesis
      using IH True unfolding r split by (simp add: info)
  qed
qed

lemma parse_types_all:
  assumes "table_ids ctxs"
  shows "fst (parse_types j config_keys ctxs) \<longleftrightarrow> acceptable j"
    "fst (parse_types j config_keys ctxs) \<Longrightarrow> snd (parse_types j config_keys ctxs) = configured_all j ctxs"
  using parse_types_spec [OF assms, of 0 j] by (simp_all add: acceptable_def configured_all_def list_all_length)

text \<open>Only types with a time tag keep track of offline updates, as long as the configuration runs once.\<close>

definition untouched :: "data_context list \<Rightarrow> bool" where
  "untouched ctxs \<longleftrightarrow> contexts_wf ctxs \<and>
     list_all (\<lambda>ctx. last_offline_update ctx = None \<or> dti_has_time_tag (ctx_type_info ctx)) ctxs"

lemma untouched_init: "untouched init_data_contexts"
  using contexts_wf_init by (simp add: untouched_def init_data_contexts_def list_all_iff init_context_def)

lemma configured_all_wf: "untouched ctxs \<Longrightarrow> contexts_wf (configured_all j ctxs)"
  by (auto simp: untouched_def contexts_wf_def configured_all_def list_all_iff o_def intro!: configured_wf)

lemma parse_config_contexts:
  assumes "untouched (sv_contexts sv)" "cJSON_Parse s = Some j"
  shows "let (ok, sv') = parse_config_from_json cJSON_Parse (Some s) sv
    in (ok \<longleftrightarrow> acceptable j) \<and>
       (ok \<longrightarrow> sv_contexts sv' = configured_all j (sv_contexts sv) \<and> contexts_wf (sv_contexts sv'))"
proof -
  have ids: "table_ids (sv_contexts sv)"
    using assms(1) contexts_wf_ids by (simp add: untouched_def)
  have c: "sv_contexts (parse_periodic_config j sv') = sv_contexts sv'" for sv'
    by (simp add: parse_periodic_config_def split: option.splits)
  show ?thesis
    using parse_types_all [OF ids, of j] configured_all_wf [OF assms(1), of j]
    by (auto simp: parse_config_from_json_def assms(2) parse_global_settings_def c Let_def split: prod.splits)
qed

text \<open>A document with two points, and the server it configures; the parser knows this document only.\<close>

definition demo_document :: json where
  "demo_document = JObject [(''port'', JNumber (f64_of_int 2405)),
     (''M_SP_TB_1_config'', JArray [JNumber (f64_of_int 100), JNumber (f64_of_int 101)])]"

definition demo_parse :: "string \<Rightarrow> json option" where
  "demo_parse s = (if s = ''demo'' then Some demo_document else None)"

definition demo_server :: server_state where
  "demo_server = snd (parse_config_from_json demo_parse (Some ''demo'') initial_server)"

lemma demo_arrays:
  "type_array demo_document (type_key (DATA_TYPE_TABLE ! 0)) = [JNumber (f64_of_int 100), JNumber (f64_of_int 101)]"
  "list_all (\<lambda>info. type_array demo_document (type_key info) = []) (tl DATA_TYPE_TABLE)"
  by (simp_all add: type_array_def demo_document_def type_key_def table_defs cJSON_GetObjectItemCaseSensitive_def)

lemma demo_config:
  "parse_config_from_json demo_parse (Some ''demo'') initial_server = (True, demo_server)"
  "sv_contexts demo_server = configured_all demo_document init_data_contexts"
proof -
  have "numeric (type_array demo_document (type_key info))" if "info \<in> set DATA_TYPE_TABLE" for info
  proof -
    from that have "info = DATA_TYPE_TABLE ! 0 \<or> info \<in> set (tl DATA_TYPE_TABLE)"
      by (simp add: DATA_TYPE_TABLE_def)
    then show ?thesis using demo_arrays by (auto simp: list_all_iff numeric_def)
  qed
  then have "acceptable demo_document" by (simp add: acceptable_def list_all_iff)
  then show "parse_config_from_json demo_parse (Some ''demo'') initial_server = (True, demo_server)"
    "sv_contexts demo_server = configured_all demo_document init_data_contexts"
    using parse_config_contexts [of initial_server demo_parse "''demo''" demo_document] untouched_init
    by (auto simp: initial_server_def demo_parse_def demo_server_def split: prod.splits)
qed

section \<open>Properties\<close>

text \<open>
  C17: a document that can be parsed is accepted exactly when every array of addresses it has for a data
  type consists of numbers; then every type has the addresses of its array, in order, with the
  initial value and quality invalid for each point, types without an array keep what they had, and
  the contexts are well-formed.
\<close>

theorem config_accepted_iff:
  assumes "untouched (sv_contexts sv)" "cJSON_Parse s = Some j"
  shows "let (ok, sv') = parse_config_from_json cJSON_Parse (Some s) sv
    in (ok \<longleftrightarrow> acceptable j) \<and>
       (ok \<longrightarrow> sv_contexts sv' = configured_all j (sv_contexts sv) \<and> contexts_wf (sv_contexts sv'))"
  using assms by (rule parse_config_contexts)

theorem config_accepted_iff_witness:
  "let (ok, sv') = parse_config_from_json demo_parse (Some ''demo'') initial_server
    in (ok \<longleftrightarrow> acceptable demo_document) \<and>
       (ok \<longrightarrow> sv_contexts sv' = configured_all demo_document init_data_contexts \<and> contexts_wf (sv_contexts sv'))"
  using config_accepted_iff [of initial_server demo_parse "''demo''" demo_document] untouched_init
  by (simp add: initial_server_def demo_parse_def)

text \<open>
  C18: every point of a freshly configured server has the kind of its type, the quality invalid when its type has a quality and
  good otherwise, and the value zero, for double points the indeterminate state, until data arrives.
\<close>

theorem fresh_points_invalid:
  assumes "parse_config_from_json cJSON_Parse (Some s) initial_server = (True, sv)"
    and "ctx \<in> set (sv_contexts sv)" "d \<in> set (data_array ctx)"
  shows "dv_quality d = (if dti_has_quality (ctx_type_info ctx) then QUALITY_INVALID else QUALITY_GOOD) \<and>
    dv_type d = dti_value_type (ctx_type_info ctx) \<and>
    dv_value d = (if dv_type d = DATA_VALUE_TYPE_DOUBLE_POINT then DOUBLE_POINT_INDETERMINATE else 0)"
proof -
  obtain j where j: "cJSON_Parse s = Some j"
    using assms(1) by (auto simp: parse_config_from_json_def split: option.splits)
  have "sv_contexts sv = configured_all j init_data_contexts"
    using parse_config_contexts [of initial_server cJSON_Parse s j] untouched_init assms(1) j
    by (simp add: initial_server_def)
  with assms(2,3) obtain info where "d = initial_value info" "ctx_type_info ctx = info"
    by (auto simp: configured_all_def configured_def init_data_contexts_def init_context_def split: if_splits)
  then show ?thesis
    by (cases "dti_value_type info")
      (auto simp: initial_value_def zero_value_def union_defs f32_0_def QUALITY_GOOD_def Let_def)
qed

theorem fresh_points_invalid_witness:
  "\<exists>sv ctx d. parse_config_from_json demo_parse (Some ''demo'') initial_server = (True, sv) \<and> ctx \<in> set (sv_contexts sv) \<and>
    d \<in> set (data_array ctx) \<and> ctx_count ctx = 2 \<and> dti_name (ctx_type_info ctx) = ''M_SP_TB_1'' \<and>
    dv_quality d = QUALITY_INVALID \<and> dv_type d = DATA_VALUE_TYPE_BOOL \<and> dv_value d = 0"
proof -
  let ?ctx = "configured [JNumber (f64_of_int 100), JNumber (f64_of_int 101)] (init_context (DATA_TYPE_TABLE ! 0))"
  let ?d = "initial_value (DATA_TYPE_TABLE ! 0)"
  have "init_context (DATA_TYPE_TABLE ! 0) \<in> set init_data_contexts"
    by (simp add: init_data_contexts_def)
  moreover have "?ctx = configured (type_array demo_document (type_key (ctx_type_info
      (init_context (DATA_TYPE_TABLE ! 0))))) (init_context (DATA_TYPE_TABLE ! 0))"
    by (simp add: demo_arrays init_context_def)
  ultimately have ctx: "?ctx \<in> set (sv_contexts demo_server)"
    unfolding demo_config(2) configured_all_def set_map by blast
  have d: "?d \<in> set (data_array ?ctx)" by (simp add: configured_def init_context_def)
  have info: "ctx_type_info ?ctx = DATA_TYPE_TABLE ! 0" by (simp add: configured_def init_context_def)
  have row: "dti_has_quality (DATA_TYPE_TABLE ! 0)" "dti_value_type (DATA_TYPE_TABLE ! 0) = DATA_VALUE_TYPE_BOOL"
    "dti_name (DATA_TYPE_TABLE ! 0) = ''M_SP_TB_1''" by (simp_all add: table_defs)
  have ioas: "ctx_count ?ctx = 2" by (simp add: configured_def)
  show ?thesis
    using fresh_points_invalid [OF demo_config(1) ctx d] demo_config(1) ctx d info row ioas by (intro exI [of _ demo_server] exI [of _ ?ctx] exI [of _ ?d]) simp
qed

text \<open>
  The string settings always fit their buffers of 64 bytes with the terminating NUL, whatever the
  document says.
\<close>

theorem string_settings_fit:
  assumes "length (command_mode (sv_globals sv)) < 64" "length (local_ip (sv_globals sv)) < 64"
  shows "length (command_mode (sv_globals (snd (parse_config_from_json cJSON_Parse s sv)))) < 64 \<and>
    length (local_ip (sv_globals (snd (parse_config_from_json cJSON_Parse s sv)))) < 64"
proof -
  have num: "(\<And>v g. F (f v g) = F g) \<Longrightarrow> F (on_number j key f g) = F g" for F :: "globals \<Rightarrow> string" and j key f g
    by (auto simp: on_number_def split: option.splits)
  have str: "F g \<Longrightarrow> (\<And>v. F (f v g)) \<Longrightarrow> F (on_string j key f g)" for F :: "globals \<Rightarrow> bool" and j key f g
    by (auto simp: on_string_def split: option.splits json.splits)
  have "length (command_mode (snd (parse_global_settings j (sv_globals sv)))) < 64 \<and>
      length (local_ip (snd (parse_global_settings j (sv_globals sv)))) < 64" for j
    using assms by (auto simp: parse_global_settings_def num Let_def on_string_def split: option.splits json.splits)
  moreover have "sv_globals (parse_periodic_config j sv') = sv_globals sv'" for j sv'
    by (simp add: parse_periodic_config_def split: option.splits)
  ultimately show ?thesis
    using assms by (auto simp: parse_config_from_json_def Let_def split: option.splits prod.splits)
      (metis snd_conv)+
qed

theorem string_settings_fit_witness:
  "length (command_mode (sv_globals demo_server)) < 64 \<and> length (local_ip (sv_globals demo_server)) < 64"
  unfolding demo_server_def by (rule string_settings_fit) (simp_all add: initial_server_def initial_globals_def)

end
