(* ===== verification/Client_Manager.thy ===== *)
theory Client_Manager
  imports Effects Json_Tree
begin

text \<open>
  The client manager (\<open>json-iec104-server/src/client/client_manager.c\<close>): a table of ten slots with the
  connected clients, kept by the connection events of the library. The table is an instance of the
  interface \<open>slot_table\<close>; the specification is the set of connections it holds.
\<close>

section \<open>State\<close>

record connected_client =
  cc_ip_address :: string
  cc_connection :: connection
  cc_connect_time :: u64
  cc_is_active :: bool

record client_manager =
  cm_clients :: "connected_client list"
  cm_client_count :: int
  cm_initialized :: bool

definition MAX_CLIENTS :: nat where "MAX_CLIENTS = 10"

text \<open>The static variables at program start; NULL is 0.\<close>

definition initial_client_manager :: client_manager where
  "initial_client_manager =
     \<lparr>cm_clients = replicate MAX_CLIENTS
        \<lparr>cc_ip_address = [], cc_connection = 0, cc_connect_time = 0, cc_is_active = False\<rparr>,
      cm_client_count = 0, cm_initialized = False\<rparr>"

definition client_manager_init :: "client_manager \<Rightarrow> client_manager" where
  "client_manager_init m =
     (if cm_initialized m then m else
        \<lparr>cm_clients = map (\<lambda>c. c\<lparr>cc_is_active := False, cc_connection := 0, cc_ip_address := [],
             cc_connect_time := 0\<rparr>) (cm_clients m),
         cm_client_count = 0, cm_initialized = True\<rparr>)"

definition client_manager_cleanup :: "client_manager \<Rightarrow> client_manager" where
  "client_manager_cleanup m =
     (if \<not> cm_initialized m then m else
        \<lparr>cm_clients = map (\<lambda>c. c\<lparr>cc_is_active := False, cc_connection := 0\<rparr>) (cm_clients m),
         cm_client_count = 0, cm_initialized = False\<rparr>)"

section \<open>Events\<close>

text \<open>\<open>strncpy\<close> keeps at most 127 characters of the address.\<close>

definition add_client :: "u64 \<Rightarrow> connection \<Rightarrow> string \<Rightarrow> client_manager \<Rightarrow> client_manager" where
  "add_client now con ip_address m =
     (case first_index (\<lambda>c. cc_is_active c \<and> cc_connection c = con) (cm_clients m) of
        Some _ \<Rightarrow> m
      | None \<Rightarrow>
          case first_index (\<lambda>c. \<not> cc_is_active c) (cm_clients m) of
            None \<Rightarrow> m
          | Some i \<Rightarrow>
              m\<lparr>cm_clients := (cm_clients m)[i := (cm_clients m ! i)\<lparr>cc_ip_address := take 127 ip_address,
                    cc_connection := con, cc_connect_time := now, cc_is_active := True\<rparr>],
                cm_client_count := cm_client_count m + 1\<rparr>)"

definition remove_client :: "connection \<Rightarrow> client_manager \<Rightarrow> client_manager" where
  "remove_client con m =
     (case first_index (\<lambda>c. cc_is_active c \<and> cc_connection c = con) (cm_clients m) of
        None \<Rightarrow> m
      | Some i \<Rightarrow>
          m\<lparr>cm_clients := (cm_clients m)[i := (cm_clients m ! i)\<lparr>cc_is_active := False, cc_connection := 0\<rparr>],
            cm_client_count := cm_client_count m - 1\<rparr>)"

text \<open>The event with the peer address the library reports for the connection.\<close>

datatype connection_event = Opened string | Closed | Activated | Deactivated

fun client_connection_event_handler ::
    "u64 \<Rightarrow> connection \<Rightarrow> connection_event \<Rightarrow> client_manager \<Rightarrow> client_manager" where
  "client_connection_event_handler now con (Opened peerAddr) m = add_client now con peerAddr m"
| "client_connection_event_handler now con Closed m = remove_client con m"
| "client_connection_event_handler now con Activated m = m"
| "client_connection_event_handler now con Deactivated m = m"

definition client_json :: "connected_client \<Rightarrow> json" where
  "client_json c =
     cJSON_AddNumberToObject (cJSON_AddStringToObject (JObject []) ''ip'' (cc_ip_address c))
       ''connect_time'' (f64_of_int (uint (cc_connect_time c)))"

definition client_manager_get_clients_json :: "client_manager \<Rightarrow> json" where
  "client_manager_get_clients_json m =
     (let clients_array = fold (\<lambda>c a. if cc_is_active c then cJSON_AddItemToArray a (client_json c) else a)
            (cm_clients m) (JArray [])
      in cJSON_AddNumberToObject (cJSON_AddItemToObject (JObject []) ''connected_clients'' clients_array)
           ''count'' (f64_of_int (cm_client_count m)))"

section \<open>The table as an instance of the interface\<close>

definition client_fill :: "connection \<Rightarrow> u64 \<times> string \<Rightarrow> connected_client \<Rightarrow> connected_client" where
  "client_fill con x c = c\<lparr>cc_ip_address := take 127 (snd x), cc_connection := con,
     cc_connect_time := fst x, cc_is_active := True\<rparr>"

definition client_free :: "connected_client \<Rightarrow> connected_client" where
  "client_free c = c\<lparr>cc_is_active := False, cc_connection := 0\<rparr>"

interpretation clients: slot_table cc_is_active cc_connection client_fill client_free
  by unfold_locales (simp_all add: client_fill_def client_free_def)

lemma clients_holds: "clients.holds con = (\<lambda>c. cc_is_active c \<and> cc_connection c = con)"
  by (auto simp: clients.holds_def fun_eq_iff)

definition active :: "client_manager \<Rightarrow> connection set" where
  "active m = {con. \<exists>c \<in> set (cm_clients m). clients.holds con c}"

lemma first_holds_None: "first_index (clients.holds con) (cm_clients m) = None \<longleftrightarrow> con \<notin> active m"
  by (simp add: first_index_None active_def)

lemma add_client_put:
  "cm_clients (add_client now con ip m) =
     (if con \<in> active m then cm_clients m else clients.put con (now, ip) (cm_clients m))"
  using first_holds_None [of con m]
  by (auto simp: add_client_def clients.put_def clients.free_slot_def client_fill_def
      simp flip: clients_holds split: option.splits)

lemma remove_client_release: "cm_clients (remove_client con m) = clients.release con (cm_clients m)"
  by (simp add: remove_client_def clients.release_def client_free_def flip: clients_holds split: option.splits)

section \<open>Invariant\<close>

abbreviation used_slots :: "client_manager \<Rightarrow> nat" where
  "used_slots m \<equiv> length (filter cc_is_active (cm_clients m))"

definition clients_wf :: "client_manager \<Rightarrow> bool" where
  "clients_wf m \<longleftrightarrow> length (cm_clients m) = MAX_CLIENTS \<and> clients.unique_keys (cm_clients m) \<and>
     cm_client_count m = int (used_slots m)"

lemma used_slots_all_free: "list_all (\<lambda>c. \<not> cc_is_active c) cs \<Longrightarrow> filter cc_is_active cs = []"
  by (simp add: list_all_iff filter_empty_conv)

lemma unique_all_free: "list_all (\<lambda>c. \<not> cc_is_active c) cs \<Longrightarrow> clients.unique_keys cs"
  by (auto simp: clients.unique_keys_def list_all_length)

lemma wf_initial [wf_intros]: "clients_wf initial_client_manager"
  by (auto simp: clients_wf_def initial_client_manager_def list_all_iff intro!: unique_all_free)

lemma wf_init [wf_intros]: "clients_wf m \<Longrightarrow> clients_wf (client_manager_init m)"
  by (auto simp: clients_wf_def client_manager_init_def list_all_iff filter_empty_conv o_def
      intro!: unique_all_free)

lemma wf_cleanup [wf_intros]: "clients_wf m \<Longrightarrow> clients_wf (client_manager_cleanup m)"
  by (auto simp: clients_wf_def client_manager_cleanup_def list_all_iff filter_empty_conv o_def
      intro!: unique_all_free)

lemma wf_add [wf_intros]: "clients_wf m \<Longrightarrow> clients_wf (add_client now con ip m)"
proof -
  assume wf: "clients_wf m"
  show ?thesis
  proof (cases "con \<in> active m \<or> first_index (\<lambda>c. \<not> cc_is_active c) (cm_clients m) = None")
    case True
    then have "add_client now con ip m = m"
      using first_holds_None [of con m]
      by (auto simp: add_client_def simp flip: clients_holds split: option.splits)
    with wf show ?thesis by simp
  next
    case False
    then obtain i where i: "clients.free_slot (cm_clients m) = Some i" and fresh: "con \<notin> active m"
      by (auto simp: clients.free_slot_def)
    then have "used_slots m < length (cm_clients m)"
      using clients.free_slot_iff_room by blast
    moreover have "cm_client_count (add_client now con ip m) = cm_client_count m + 1"
      using i fresh first_holds_None [of con m]
      by (auto simp: add_client_def clients.free_slot_def simp flip: clients_holds split: option.splits)
    ultimately show ?thesis
      using wf fresh clients.unique_keys_put [of "cm_clients m" con "(now, ip)"]
        clients.count_put [of con "(now, ip)" "cm_clients m"]
      by (auto simp: clients_wf_def add_client_put active_def)
  qed
qed

lemma wf_remove [wf_intros]: "clients_wf m \<Longrightarrow> clients_wf (remove_client con m)"
proof -
  assume wf: "clients_wf m"
  have "cm_client_count (remove_client con m) = cm_client_count m - of_bool (con \<in> active m)"
    using first_holds_None [of con m]
    by (auto simp: remove_client_def simp flip: clients_holds split: option.splits)
  moreover have "int (used_slots m - 1) = int (used_slots m) - 1" if "con \<in> active m"
  proof -
    have "filter cc_is_active (cm_clients m) \<noteq> []"
      using that by (auto simp: active_def clients.holds_def filter_empty_conv)
    then have "1 \<le> used_slots m" by (cases "filter cc_is_active (cm_clients m)") simp_all
    then show ?thesis by simp
  qed
  ultimately show ?thesis
    using wf clients.unique_keys_release [of "cm_clients m" con] clients.count_release [of con "cm_clients m"]
    by (auto simp: clients_wf_def remove_client_release active_def)
qed

lemma wf_event [wf_intros]:
  "clients_wf m \<Longrightarrow> clients_wf (client_connection_event_handler now con e m)"
  by (cases e) (simp_all add: wf_intros)

section \<open>The set of connections\<close>

context slot_table begin

lemma unique_keys_Cons:
  assumes "unique_keys (s # t)"
  shows "unique_keys t \<and> (used s \<longrightarrow> key s \<notin> set (keys t))"
proof
  show "unique_keys t"
    using assms unfolding unique_keys_def by (metis Suc_inject Suc_mono length_Cons nth_Cons_Suc)
  show "used s \<longrightarrow> key s \<notin> set (keys t)"
  proof
    assume "used s"
    show "key s \<notin> set (keys t)"
    proof
      assume "key s \<in> set (keys t)"
      then obtain j where "j < length t" "used (t ! j)" "key (t ! j) = key s"
        by (auto simp: keys_def in_set_conv_nth)
      with assms \<open>used s\<close> show False
        unfolding unique_keys_def by (metis Suc_mono length_Cons nat.distinct(1) nth_Cons_0 nth_Cons_Suc zero_less_Suc)
    qed
  qed
qed

lemma distinct_keys: "unique_keys t \<Longrightarrow> distinct (keys t)"
proof (induction t)
  case (Cons s t)
  then show ?case using unique_keys_Cons [of s t] by (auto simp: keys_def)
qed (simp add: keys_def)

lemma set_keys: "set (keys t) = {k. \<exists>s \<in> set t. holds k s}"
  by (auto simp: keys_def holds_def)

lemma card_keys: "unique_keys t \<Longrightarrow> card {k. \<exists>s \<in> set t. holds k s} = length (filter used t)"
  using distinct_card [OF distinct_keys] by (simp flip: set_keys) (simp add: keys_def)

lemma held_put:
  assumes "length (filter used t) < length t"
  shows "{k'. \<exists>s \<in> set (put k x t). holds k' s} = insert k {k'. \<exists>s \<in> set t. holds k' s}"
proof (rule set_eqI)
  fix k'
  show "k' \<in> {k'. \<exists>s \<in> set (put k x t). holds k' s} \<longleftrightarrow> k' \<in> insert k {k'. \<exists>s \<in> set t. holds k' s}"
    using put_stores [OF assms, of k x] put_keeps [of t k' k x] put_only_adds [of _ k x t k'] by blast
qed

lemma held_release:
  assumes "unique_keys t"
  shows "{k'. \<exists>s \<in> set (release k t). holds k' s} = {k'. \<exists>s \<in> set t. holds k' s} - {k}"
proof (rule set_eqI)
  fix k'
  have "\<not> holds k s" if "holds k' s" "k' \<noteq> k" for s using that by (simp add: holds_def)
  then show "k' \<in> {k'. \<exists>s \<in> set (release k t). holds k' s} \<longleftrightarrow> k' \<in> {k'. \<exists>s \<in> set t. holds k' s} - {k}"
    using release_removes [OF assms, of k] release_only_removes [of _ k t k'] release_keeps_others [of _ t k] by blast
qed

end

lemma card_active: "clients_wf m \<Longrightarrow> card (active m) = used_slots m"
  by (simp add: clients_wf_def active_def clients.card_keys)

fun event_set :: "connection \<Rightarrow> connection_event \<Rightarrow> connection set \<Rightarrow> connection set" where
  "event_set con (Opened peerAddr) S = (if con \<in> S \<or> card S = MAX_CLIENTS then S else insert con S)"
| "event_set con Closed S = S - {con}"
| "event_set con Activated S = S"
| "event_set con Deactivated S = S"

lemma active_add:
  assumes "clients_wf m"
  shows "active (add_client now con ip m) = event_set con (Opened ip) (active m)"
proof (cases "con \<in> active m \<or> card (active m) = MAX_CLIENTS")
  case True
  then have "\<not> used_slots m < length (cm_clients m) \<or> con \<in> active m"
    using assms card_active [OF assms] by (auto simp: clients_wf_def)
  then have "cm_clients (add_client now con ip m) = cm_clients m"
    using clients.free_slot_iff_room [of "cm_clients m"]
    by (cases "clients.free_slot (cm_clients m)") (auto simp: add_client_put clients.put_def)
  then show ?thesis using True by (auto simp: active_def)
next
  case False
  then have room: "used_slots m < length (cm_clients m)"
    using assms card_active [OF assms] clients.count_put [of con "(now, ip)" "cm_clients m"]
      length_filter_le [of cc_is_active "cm_clients m"] by (auto simp: clients_wf_def)
  have "cm_clients (add_client now con ip m) = clients.put con (now, ip) (cm_clients m)"
    using False by (simp add: add_client_put)
  then show ?thesis
    using False clients.held_put [OF room, of con "(now, ip)"] by (simp add: active_def)
qed

lemma active_remove:
  assumes "clients_wf m"
  shows "active (remove_client con m) = active m - {con}"
  using assms by (simp add: active_def remove_client_release clients.held_release clients_wf_def)

lemma active_event:
  "clients_wf m \<Longrightarrow> active (client_connection_event_handler now con e m) = event_set con e (active m)"
  by (cases e) (simp_all add: active_add active_remove)

section \<open>Properties\<close>

text \<open>
  C15: the table refines a set of at most ten connections: after any sequence of connection events it
  holds exactly the connections of the set, each once, and \<open>client_count\<close> is their number.
\<close>

theorem client_table_refines_set:
  "let m = fold (\<lambda>(now, con, e). client_connection_event_handler now con e) events
       (client_manager_init initial_client_manager);
     S = fold (\<lambda>(now, con, e). event_set con e) events {}
   in active m = S \<and> cm_client_count m = int (card S) \<and> card S \<le> 10 \<and> clients.unique_keys (cm_clients m)"
proof -
  let ?run = "fold (\<lambda>(now, con, e). client_connection_event_handler now con e) events"
    and ?S = "fold (\<lambda>(now, con, e). event_set con e) events"
  let ?m0 = "client_manager_init initial_client_manager"
  have step: "clients_wf (?run m) \<and> active (?run m) = ?S (active m)" if "clients_wf m" for m
    using that by (induction events arbitrary: m) (auto simp: active_event wf_event)
  have wf0: "clients_wf ?m0" by (rule wf_init [OF wf_initial])
  then have wf: "clients_wf (?run ?m0)" and act: "active (?run ?m0) = ?S (active ?m0)"
    using step by blast+
  have "active ?m0 = {}"
    by (auto simp: active_def clients.holds_def client_manager_init_def initial_client_manager_def)
  moreover have "card (active (?run ?m0)) \<le> 10" "cm_client_count (?run ?m0) = int (card (active (?run ?m0)))"
    using wf card_active [OF wf] length_filter_le [of cc_is_active "cm_clients (?run ?m0)"]
    by (simp_all add: clients_wf_def MAX_CLIENTS_def)
  ultimately show ?thesis using act wf by (simp add: Let_def clients_wf_def)
qed

text \<open>
  The report of the connected clients lists the occupied slots in the order of the table, and its
  member \<open>count\<close> is the number of listed clients.
\<close>

theorem clients_json_consistent:
  assumes "clients_wf m"
  shows "client_manager_get_clients_json m =
    JObject [(''connected_clients'', JArray (map client_json (filter cc_is_active (cm_clients m)))),
      (''count'', JNumber (f64_of_int (int (length (filter cc_is_active (cm_clients m))))))]"
proof -
  have "fold (\<lambda>c a. if cc_is_active c then cJSON_AddItemToArray a (client_json c) else a) cs (JArray js) =
      JArray (js @ map client_json (filter cc_is_active cs))" for cs js
    by (induction cs arbitrary: js) simp_all
  then show ?thesis
    using assms by (simp add: client_manager_get_clients_json_def cJSON_AddNumberToObject_def clients_wf_def Let_def)
qed

theorem clients_json_consistent_witness:
  "client_manager_get_clients_json (client_manager_init initial_client_manager) =
    JObject [(''connected_clients'', JArray (map client_json (filter cc_is_active
        (cm_clients (client_manager_init initial_client_manager))))),
      (''count'', JNumber (f64_of_int (int (length (filter cc_is_active
        (cm_clients (client_manager_init initial_client_manager)))))))]"
  by (rule clients_json_consistent [OF wf_init [OF wf_initial]])

end
