(* ===== verification/Input_Handler.thy ===== *)
theory Input_Handler
  imports Config_Parser Client_Manager C_Format
begin

text \<open>
  The input handler (\<open>json-iec104-server/src/input/input_handler.c\<close>): a line of JSON from the process is
  a command or an update of a point; an update goes into the process image, and a spontaneous ASDU
  with the one object is queued when it has to be reported. The JSON parser and printer are arguments.
\<close>

section \<open>State\<close>

text \<open>One slot of the static table \<open>offline_tracking\<close>; a type of 0 marks a free slot.\<close>

record tracking =
  tr_type_id :: u32
  tr_timestamps :: "u64 list"
  tr_count :: nat

record input_state =
  in_server :: server_state
  in_clients :: client_manager
  in_tracking :: "tracking list"
  in_initialized :: bool

definition initial_tracking :: "tracking list" where
  "initial_tracking = replicate 10 \<lparr>tr_type_id = 0, tr_timestamps = [], tr_count = 0\<rparr>"

definition input_handler_init :: "input_state \<Rightarrow> input_state" where
  "input_handler_init st = st\<lparr>in_initialized := True\<rparr>"

definition input_handler_cleanup :: "input_state \<Rightarrow> input_state" where
  "input_handler_cleanup st = st\<lparr>in_initialized := False\<rparr>"

text \<open>
  What the handler reads from outside: the parameters of the link, the connections of the slave and
  the length of its queue, the clock, the content of fresh memory and of the local variable \<open>val\<close>, and
  the JSON parser and printer.
\<close>

record environment =
  env_params :: app_layer_params
  env_connections :: int
  env_running :: bool
  env_queue_entries :: int
  env_now :: u64
  env_mem :: bytes
  env_stale :: data_value
  env_parse :: "string \<Rightarrow> json option"
  env_print :: "json \<Rightarrow> string"

section \<open>Values\<close>

text \<open>
  The conversion of the number to the member of the union is undefined when the truncated number does
  not fit. Before it the current time is written through the pointer \<open>out_val->timestamp\<close>, which has not
  been initialised: only NULL is harmless, since the library then allocates (and leaks) a time stamp.
\<close>

definition convert_number :: "data_value_type \<Rightarrow> f64 \<Rightarrow> data_value \<Rightarrow> data_value outcome" where
  "convert_number ty input_val d =
     (case ty of
        DATA_VALUE_TYPE_BOOL \<Rightarrow> Returns (set_bool_val (\<not> fv_eq (f64_val input_val) (Fin False 0 0)) d)
      | DATA_VALUE_TYPE_DOUBLE_POINT \<Rightarrow>
          obind (of_defined (fv_to_int 0 (2 ^ 32 - 1) (f64_val input_val)))
            (\<lambda>i. Returns (set_dp_val (word_of_int i) d))
      | DATA_VALUE_TYPE_INT16 \<Rightarrow>
          obind (of_defined (fv_to_int (- (2 ^ 15)) (2 ^ 15 - 1) (f64_val input_val)))
            (\<lambda>i. Returns (set_int16_val (word_of_int i) d))
      | DATA_VALUE_TYPE_UINT32 \<Rightarrow>
          obind (of_defined (fv_to_int 0 (2 ^ 32 - 1) (f64_val input_val)))
            (\<lambda>i. Returns (set_uint32_val (word_of_int i) d))
      | DATA_VALUE_TYPE_FLOAT \<Rightarrow> Returns (set_float_val (f32_of_f64 input_val) d))"

definition convert_input_to_value :: "data_type_info \<Rightarrow> f64 \<Rightarrow> int \<Rightarrow> data_value \<Rightarrow> data_value outcome" where
  "convert_input_to_value info input_val qualifier out_val =
     (let d = out_val\<lparr>dv_type := dti_value_type info, dv_has_quality := dti_has_quality info,
                      dv_has_timestamp := dti_has_time_tag info, dv_quality := word_of_int qualifier\<rparr>
      in if dv_timestamp d \<noteq> 0 then Undefined else convert_number (dv_type d) input_val d)"

section \<open>Offline tracking\<close>

definition tracking_slot :: "u32 \<Rightarrow> nat \<Rightarrow> tracking list \<Rightarrow> (nat \<times> tracking list) option" where
  "tracking_slot type_id count trs =
     map_option (\<lambda>i. if tr_type_id (trs ! i) = type_id then (i, trs)
         else (i, trs[i := \<lparr>tr_type_id = type_id, tr_timestamps = replicate count 0, tr_count = count\<rparr>]))
       (first_index (\<lambda>t. tr_type_id t = type_id \<or> tr_type_id t = 0) trs)"

definition deadband_passed :: "f32 \<Rightarrow> data_type_info \<Rightarrow> data_value \<Rightarrow> data_value \<Rightarrow> bool" where
  "deadband_passed deadband info old_value new_value =
     (case dti_value_type info of
        DATA_VALUE_TYPE_FLOAT \<Rightarrow>
          let old_val = float_val old_value; new_val = float_val new_value;
              diff = f32_abs (f32_sub old_val new_val);
              percent = (if f32_less f32_1em4 (f32_abs old_val)
                         then f32_mul (f32_div diff (f32_abs old_val)) f32_100
                         else if f32_less f32_1em4 diff then f32_100 else f32_0)
          in f32_le deadband percent \<and> f32_less f32_1em4 diff
      | _ \<Rightarrow> True)"

text \<open>
  Whether an untimed point is reported although no client is connected, with the time of its last such
  report. An index beyond the tracked points is out of bounds.
\<close>

definition offline_check ::
    "globals \<Rightarrow> int option \<Rightarrow> u64 \<Rightarrow> data_type_info \<Rightarrow> data_context \<Rightarrow> int \<Rightarrow> data_value \<Rightarrow> tracking list \<Rightarrow>
       (bool \<times> tracking list) outcome" where
  "offline_check g slave now info ctx ioa val trs =
     (if \<not> dti_has_time_tag info \<and> \<not> is_client_connected slave \<and> dti_offline_equivalent info \<noteq> 0 then
        case find_ioa_index ctx ioa of
          None \<Rightarrow> Returns (False, trs)
        | Some idx \<Rightarrow>
            (case tracking_slot (dti_type_id info) (ctx_count ctx) trs of
               None \<Rightarrow> Returns (False, trs)
             | Some (i, trs) \<Rightarrow>
                 if deadband_passed (deadband_M_ME_NC_1_percent g) info (data_array ctx ! idx) val then
                   let lst = tr_timestamps (trs ! i)
                   in if idx \<ge> length lst then Undefined
                      else if now - lst ! idx \<ge> ucast (offline_udt_time g * 1000)
                      then Returns (True, trs[i := (trs ! i)\<lparr>tr_timestamps := lst[idx := now]\<rparr>])
                      else Returns (False, trs)
                 else Returns (False, trs))
      else Returns (False, trs))"

section \<open>Lines\<close>

text \<open>The type, address, qualifier and number of an update; None when the line is none.\<close>

definition update_type :: "json \<Rightarrow> u32" where
  "update_type item =
     (case item of
        JString s \<Rightarrow> (case get_data_type_info_by_name (Some s) of Some info \<Rightarrow> dti_type_id info | None \<Rightarrow> 0)
      | JNumber d \<Rightarrow> word_of_int (valueint item)
      | _ \<Rightarrow> 0)"

definition update_qualifier :: "json option \<Rightarrow> int" where
  "update_qualifier item =
     (case item of
        Some (JString s) \<Rightarrow> uint (parse_qualifier_from_string (Some s))
      | Some (JNumber d) \<Rightarrow> valueint (JNumber d)
      | _ \<Rightarrow> 0)"

definition parse_update :: "json \<Rightarrow> (u32 \<times> int \<times> int \<times> f64) option" where
  "parse_update j =
     (case (cJSON_GetObjectItem j ''type'', cJSON_GetObjectItem j ''value'') of
        (Some type_item, Some value_item) \<Rightarrow>
          let type_id = update_type type_item; addr_item = cJSON_GetObjectItem j ''address''
          in if type_id \<noteq> 0 \<and> cJSON_IsNumber addr_item
             then Some (type_id, valueint (the addr_item),
                        update_qualifier (cJSON_GetObjectItem j ''qualifier''), valuedouble value_item)
             else None
      | _ \<Rightarrow> None)"

text \<open>The spontaneous ASDU; nothing is queued when no object can be created.\<close>

definition spontaneous ::
    "environment \<Rightarrow> int \<Rightarrow> u32 \<Rightarrow> int \<Rightarrow> data_value \<Rightarrow> bool \<Rightarrow> action list outcome" where
  "spontaneous env ca type_id ioa val offline_enqueue =
     obind (if offline_enqueue then create_offline_io_for_type (env_mem env) type_id ioa val
            else create_io_for_type (env_mem env) type_id ioa val)
       (\<lambda>io. case io of None \<Rightarrow> Returns []
          | Some io \<Rightarrow> Returns [EnqueueASDU (snd (CS101_ASDU_addInformationObject
              (CS101_ASDU_create (env_params env) False (uint COT_SPONTANEOUS) 0 ca False False) io))])"

definition process_update ::
    "environment \<Rightarrow> u32 \<Rightarrow> int \<Rightarrow> int \<Rightarrow> f64 \<Rightarrow> input_state \<Rightarrow> (action list \<times> input_state) outcome" where
  "process_update env type_id ioa qual input_val st =
     (let sv = in_server st; ctxs = sv_contexts sv; g = sv_globals sv; slave = Some (env_connections env)
      in case get_data_context ctxs type_id of
           None \<Rightarrow> Returns ([], st)
         | Some i \<Rightarrow>
             let ctx = ctxs ! i
             in case get_data_type_info type_id of
               None \<Rightarrow> Undefined
             | Some info \<Rightarrow>
                 obind (convert_input_to_value info input_val qual (env_stale env)) (\<lambda>val.
                 obind (offline_check g slave (env_now env) info ctx ioa val (in_tracking st)) (\<lambda>(offline_enqueue, trs).
                   let (should_send, ctx) = update_data g slave (env_now env) ctx ioa val;
                       st = st\<lparr>in_server := sv\<lparr>sv_contexts := ctxs[i := ctx]\<rparr>, in_tracking := trs\<rparr>
                   in if should_send \<or> offline_enqueue then
                        obind (spontaneous env (ASDU_address g) type_id ioa val offline_enqueue)
                          (\<lambda>acts. Returns (acts, st))
                      else Returns ([], st))))"

text \<open>The commands and their replies; the result False asks the main loop to stop.\<close>

definition line_command :: "json \<Rightarrow> string option" where
  "line_command j = (case cJSON_GetObjectItem j ''cmd'' of Some (JString s) \<Rightarrow> Some s | _ \<Rightarrow> None)"

definition run_command :: "environment \<Rightarrow> client_manager \<Rightarrow> string option \<Rightarrow> (bool \<times> action list) option" where
  "run_command env clients cmd =
     (if cmd = Some ''stop'' then Some (False, [])
      else if cmd = Some ''get_connected_clients'' then
        Some (True, [Print (env_print env (client_manager_get_clients_json clients))])
      else if cmd = Some ''get_queue_count'' then
        Some (True, [Print (''{\"queue_count\":'' @
          dec_int (if env_running env then env_queue_entries env else 0) @ ''}'')])
      else None)"

definition input_handler_process_line ::
    "environment \<Rightarrow> string \<Rightarrow> input_state \<Rightarrow> (bool \<times> action list \<times> input_state) outcome" where
  "input_handler_process_line env line st =
     (if \<not> in_initialized st then Returns (True, [], st)
      else case env_parse env line of
        None \<Rightarrow> Returns (True, [], st)
      | Some j \<Rightarrow>
          case run_command env (in_clients st) (line_command j) of
            Some (go, acts) \<Rightarrow> Returns (go, acts, st)
          | None \<Rightarrow>
              case parse_update j of
                None \<Rightarrow> Returns (True, [], st)
              | Some (type_id, ioa, qual, input_val) \<Rightarrow>
                  obind (process_update env type_id ioa qual input_val st)
                    (\<lambda>(acts, st). Returns (True, acts, st)))"

end
