(* ===== verification/Offline_Tracking.thy ===== *)
theory Offline_Tracking
  imports Input_Handler
begin

text \<open>
  The offline tracking of the input handler: its table keeps one slot per type, so that the handler
  always finds one, and remembers for every point the time of its last report without a client.
\<close>

section \<open>The tracking table\<close>

text \<open>The used slots come first, each type has at most one, and its time stamps are those of its context.\<close>

definition slot_matches :: "data_context list \<Rightarrow> tracking \<Rightarrow> bool" where
  "slot_matches ctxs t \<longleftrightarrow> tr_type_id t = 0 \<or>
     list_ex (\<lambda>c. ctx_type_id c = tr_type_id t \<and> length (tr_timestamps t) = ctx_count c) ctxs"

definition tracking_wf :: "data_context list \<Rightarrow> tracking list \<Rightarrow> bool" where
  "tracking_wf ctxs trs \<longleftrightarrow> length trs = 10 \<and> list_all (slot_matches ctxs) trs \<and>
     (let used = takeWhile (\<lambda>t. t \<noteq> 0) (map tr_type_id trs)
      in distinct used \<and> list_all (\<lambda>t. t = 0) (drop (length used) (map tr_type_id trs)))"

lemma tracking_wf_initial [wf_intros]: "tracking_wf ctxs initial_tracking"
  by (simp add: tracking_wf_def initial_tracking_def slot_matches_def Let_def list_all_iff)

lemma contexts_ids: "contexts_wf ctxs \<Longrightarrow> map ctx_type_id ctxs = map dti_type_id DATA_TYPE_TABLE"
proof -
  assume wf: "contexts_wf ctxs"
  then have "map ctx_type_id ctxs = map (dti_type_id \<circ> ctx_type_info) ctxs"
    by (auto simp: contexts_wf_def list_all_iff ctx_wf_def)
  also have "\<dots> = map dti_type_id DATA_TYPE_TABLE" using wf by (simp add: contexts_wf_def flip: map_map)
  finally show ?thesis .
qed

lemma contexts_ids_distinct: "contexts_wf ctxs \<Longrightarrow> distinct (map ctx_type_id ctxs)"
  by (simp add: contexts_ids table_types_distinct)

lemma contexts_ids_nonzero: "contexts_wf ctxs \<Longrightarrow> c \<in> set ctxs \<Longrightarrow> ctx_type_id c \<noteq> 0"
proof -
  assume "contexts_wf ctxs" "c \<in> set ctxs"
  then have "ctx_type_id c \<in> set (map dti_type_id DATA_TYPE_TABLE)" by (metis contexts_ids image_eqI list.set_map)
  then show ?thesis by (auto simp: table_defs type_ids)
qed

lemma slot_matches_cong:
  "map ctx_type_id cs = map ctx_type_id cs' \<Longrightarrow> map ctx_count cs = map ctx_count cs' \<Longrightarrow>
     slot_matches cs = slot_matches cs'"
proof -
  assume "map ctx_type_id cs = map ctx_type_id cs'" "map ctx_count cs = map ctx_count cs'"
  then have "list_all2 (\<lambda>c c'. ctx_type_id c = ctx_type_id c' \<and> ctx_count c = ctx_count c') cs cs'"
    by (auto simp: list_all2_conv_all_nth list_eq_iff_nth_eq)
  then have "list_ex (\<lambda>c. ctx_type_id c = t \<and> n = ctx_count c) cs = list_ex (\<lambda>c. ctx_type_id c = t \<and> n = ctx_count c) cs'"
    for t n by (induction rule: list_all2_induct) auto
  then show ?thesis by (simp add: slot_matches_def fun_eq_iff)
qed

lemma tracking_slot_found:
  assumes ctxs: "contexts_wf ctxs" and trs: "tracking_wf ctxs trs" and c: "c \<in> set ctxs"
  obtains k trs' where "tracking_slot (ctx_type_id c) (ctx_count c) trs = Some (k, trs')" "k < 10"
    "tracking_wf ctxs trs'" "tr_type_id (trs' ! k) = ctx_type_id c"
    "length (tr_timestamps (trs' ! k)) = ctx_count c"
proof -
  define ids used where "ids = map tr_type_id trs" and "used = takeWhile (\<lambda>t. t \<noteq> 0) ids"
  let ?ty = "ctx_type_id c"
  have len: "length trs = 10" "length ids = 10" and dist: "distinct used"
    and match: "\<forall>t \<in> set trs. slot_matches ctxs t"
    and zeros: "\<forall>t \<in> set (drop (length used) ids). t = 0"
    using trs unfolding tracking_wf_def Let_def list_all_iff ids_def used_def length_map by blast+
  have ids: "ids = used @ drop (length used) ids"
    unfolding used_def by (simp flip: dropWhile_eq_drop)
  have used_nz: "0 \<notin> set used" by (auto simp: used_def dest: set_takeWhileD)
  have nz: "?ty \<noteq> 0" using contexts_ids_nonzero [OF ctxs c] .
  have uniq: "c' = c" if "c' \<in> set ctxs" "ctx_type_id c' = ?ty" for c'
    using contexts_ids_distinct [OF ctxs] that c by (meson distinct_map inj_onD)
  have stamps: "length (tr_timestamps t) = ctx_count c" if "t \<in> set trs" "tr_type_id t = ?ty" for t
    using that match nz uniq unfolding slot_matches_def list_ex_iff by metis
  have sub: "set used \<subseteq> ctx_type_id ` set ctxs"
  proof
    fix x assume "x \<in> set used"
    then have "x \<noteq> 0" "x \<in> set ids"
      by (auto simp: used_def dest: set_takeWhileD)
    then show "x \<in> ctx_type_id ` set ctxs"
      using match by (force simp: ids_def slot_matches_def list_ex_iff)
  qed
  show thesis
  proof (cases "?ty \<in> set used")
    case True
    then obtain k where k: "k < length used" "used ! k = ?ty" by (auto simp: in_set_conv_nth)
    have klt: "k < length trs" using k(1) len ids by (metis length_append trans_less_add1)
    have idk: "tr_type_id (trs ! j) = used ! j" if "j < length used" for j
      using that len ids by (metis ids_def length_map nth_append nth_map length_append trans_less_add1)
    have "first_index (\<lambda>t. tr_type_id t = ?ty \<or> tr_type_id t = 0) trs = Some k"
    proof (rule first_indexI [OF klt])
      show "tr_type_id (trs ! k) = ?ty \<or> tr_type_id (trs ! k) = 0" using idk k by simp
      fix j assume "j < k"
      then have "used ! j \<noteq> used ! k" "used ! j \<in> set used"
        using k(1) nth_eq_iff_index_eq [OF dist, of j k] by auto
      then show "\<not> (tr_type_id (trs ! j) = ?ty \<or> tr_type_id (trs ! j) = 0)"
        using idk [of j] \<open>j < k\<close> k used_nz by (metis order_less_trans)
    qed
    then show thesis
      using that [of k trs] idk k klt trs len stamps [of "trs ! k"] by (simp add: tracking_slot_def)
  next
    case False
    let ?k = "length used"
    have "set used \<subseteq> ctx_type_id ` set ctxs - {?ty}" using sub False by blast
    moreover have "card (ctx_type_id ` set ctxs - {?ty}) < 10"
    proof -
      have "card (ctx_type_id ` set ctxs) \<le> 10"
        using card_length [of "map ctx_type_id ctxs"] length_contexts [OF ctxs] by simp
      then show ?thesis using c card_Diff1_less [of "ctx_type_id ` set ctxs" ?ty] by auto
    qed
    ultimately have "card (set used) < 10"
      by (meson card_mono finite_Diff finite_imageI List.finite_set order_le_less_trans)
    then have k: "?k < 10" using distinct_card [OF dist] by simp
    have zero: "tr_type_id (trs ! ?k) = 0"
      using zeros k len by (simp add: ids_def drop_map) (metis Cons_nth_drop_Suc list.set_intros(1) len(1))
    have idk: "tr_type_id (trs ! j) = used ! j" if "j < ?k" for j
      using that k len ids by (metis ids_def nth_append nth_map order_less_trans)
    have "first_index (\<lambda>t. tr_type_id t = ?ty \<or> tr_type_id t = 0) trs = Some ?k"
    proof (rule first_indexI)
      show "?k < length trs" using k len by simp
      show "tr_type_id (trs ! ?k) = ?ty \<or> tr_type_id (trs ! ?k) = 0" using zero by simp
      fix j assume "j < ?k"
      then have "used ! j \<in> set used" by simp
      then show "\<not> (tr_type_id (trs ! j) = ?ty \<or> tr_type_id (trs ! j) = 0)"
        using idk [OF \<open>j < ?k\<close>] False used_nz by metis
    qed
    moreover define trs' where "trs' = trs[?k := \<lparr>tr_type_id = ?ty,
        tr_timestamps = replicate (ctx_count c) 0, tr_count = ctx_count c\<rparr>]"
    moreover have "tracking_wf ctxs trs'"
    proof -
      have "take ?k ids = used" using ids by (metis append_eq_conv_conj)
      then have ids': "map tr_type_id trs' = used @ ?ty # drop (Suc ?k) ids"
        using upd_conv_take_nth_drop [of ?k ids ?ty] k len(2)
        by (simp add: trs'_def map_update flip: ids_def)
      have rest: "\<forall>t \<in> set (drop (Suc ?k) ids). t = 0"
        using zeros by (meson in_set_dropD set_drop_subset_set_drop lessI less_imp_le_nat subsetD)
      have tw: "takeWhile (\<lambda>t. t \<noteq> 0) (map tr_type_id trs') = used @ [?ty]"
      proof -
        have "takeWhile (\<lambda>t. t \<noteq> 0) (drop (Suc ?k) ids) = []"
          using rest by (cases "drop (Suc ?k) ids") auto
        then show ?thesis
          unfolding ids' using nz used_nz by (subst takeWhile_append2) auto
      qed
      have "list_all (slot_matches ctxs) trs'"
        using match c k len by (auto simp: list_all_iff trs'_def slot_matches_def list_ex_iff dest!: set_update_subset_insert2)
      then show ?thesis
        using tw dist False rest len ids' by (simp add: tracking_wf_def Let_def list_all_iff trs'_def)
    qed
    ultimately show thesis
      using that [of ?k trs'] k len zero nz by (simp add: tracking_slot_def)
  qed
qed

section \<open>The last offline report of a point\<close>

definition last_report :: "tracking list \<Rightarrow> u32 \<Rightarrow> nat \<Rightarrow> u64" where
  "last_report trs ty idx =
     (case first_index (\<lambda>t. tr_type_id t = ty) trs of None \<Rightarrow> 0
      | Some k \<Rightarrow> if idx < length (tr_timestamps (trs ! k)) then tr_timestamps (trs ! k) ! idx else 0)"

lemma first_index_update_same: "P (xs ! k) = P y \<Longrightarrow> first_index P (xs[k := y]) = first_index P xs"
proof (induction xs arbitrary: k)
  case (Cons x xs)
  then show ?case by (cases k) auto
qed simp

lemma last_report_update:
  assumes "first_index (\<lambda>t. tr_type_id t = ty) trs = Some k" "idx < length (tr_timestamps (trs ! k))"
  shows "last_report (trs[k := (trs ! k)\<lparr>tr_timestamps := (tr_timestamps (trs ! k))[idx := now]\<rparr>]) ty' n =
    (if ty' = ty \<and> n = idx then now else last_report trs ty' n)"
proof -
  let ?t = "(trs ! k)\<lparr>tr_timestamps := (tr_timestamps (trs ! k))[idx := now]\<rparr>"
  have same: "first_index (\<lambda>t. tr_type_id t = ty') (trs[k := ?t]) = first_index (\<lambda>t. tr_type_id t = ty') trs"
    by (rule first_index_update_same) simp
  have k: "k < length trs" "tr_type_id (trs ! k) = ty"
    using first_index_less [OF assms(1)] first_index_holds [OF assms(1)] by simp_all
  show ?thesis
  proof (cases "first_index (\<lambda>t. tr_type_id t = ty') trs")
    case None
    then show ?thesis using same assms(1) by (auto simp: last_report_def)
  next
    case (Some k')
    then have "tr_type_id (trs ! k') = ty'" using first_index_holds [OF Some] by simp
    then show ?thesis using same assms k Some by (cases "k' = k") (auto simp: last_report_def nth_list_update)
  qed
qed

lemma first_type_after_zero:
  assumes "tracking_wf ctxs trs" "k < length trs" "tr_type_id (trs ! k) = 0" "j < length trs" "k \<le> j"
  shows "tr_type_id (trs ! j) = 0"
proof -
  define ids used where "ids = map tr_type_id trs" and "used = takeWhile (\<lambda>t. t \<noteq> 0) ids"
  have zeros: "\<forall>t \<in> set (drop (length used) ids). t = 0"
    using assms(1) unfolding tracking_wf_def Let_def list_all_iff ids_def used_def by blast
  have "\<not> k < length used"
  proof
    assume "k < length used"
    then have "used ! k \<in> set used" "used ! k = 0"
      using assms(2,3) by (simp_all only: nth_mem) (simp add: used_def takeWhile_nth ids_def)
    then show False by (auto simp: used_def dest: set_takeWhileD)
  qed
  then have "ids ! j \<in> set (drop (length used) ids)"
    using assms(4,5) nth_mem [of "j - length used" "drop (length used) ids"] by (simp add: ids_def)
  then show ?thesis using zeros assms(4) by (simp add: ids_def)
qed

lemma tracking_slot_reports:
  assumes wf: "tracking_wf ctxs trs" and slot: "tracking_slot ty n trs = Some (k, trs')" and ty: "ty \<noteq> 0"
  shows "first_index (\<lambda>t. tr_type_id t = ty) trs' = Some k"
    and "ty' \<noteq> 0 \<Longrightarrow> last_report trs' ty' m = last_report trs ty' m"
proof -
  have k: "first_index (\<lambda>t. tr_type_id t = ty \<or> tr_type_id t = 0) trs = Some k"
    and trs': "trs' = (if tr_type_id (trs ! k) = ty then trs
      else trs[k := \<lparr>tr_type_id = ty, tr_timestamps = replicate n 0, tr_count = n\<rparr>])"
    using slot by (auto simp: tracking_slot_def split: if_splits)
  have lt: "k < length trs" and before: "\<And>j. j < k \<Longrightarrow> tr_type_id (trs ! j) \<noteq> ty"
    and at: "tr_type_id (trs ! k) = ty \<or> tr_type_id (trs ! k) = 0"
    using first_index_less [OF k] first_index_before [OF k] first_index_holds [OF k] by auto
  show first: "first_index (\<lambda>t. tr_type_id t = ty) trs' = Some k"
    using lt before by (intro first_indexI) (auto simp: trs')
  show "last_report trs' ty' m = last_report trs ty' m" if "ty' \<noteq> 0"
  proof (cases "tr_type_id (trs ! k) = ty")
    case True
    then show ?thesis by (simp add: trs')
  next
    case False
    then have zero: "tr_type_id (trs ! k) = 0" using at by simp
    show ?thesis
    proof (cases "ty' = ty")
      case True
      have "tr_type_id (trs ! j) \<noteq> ty" if "j < length trs" for j
        using first_type_after_zero [OF wf lt zero that] before [of j] ty by (cases "j < k") auto
      then have "first_index (\<lambda>t. tr_type_id t = ty) trs = None"
        unfolding first_index_None by (metis in_set_conv_nth)
      moreover have "trs' ! k = \<lparr>tr_type_id = ty, tr_timestamps = replicate n 0, tr_count = n\<rparr>"
        using lt False by (simp add: trs')
      ultimately show ?thesis using first by (simp add: last_report_def True)
    next
      case other: False
      then have same: "first_index (\<lambda>t. tr_type_id t = ty') trs' = first_index (\<lambda>t. tr_type_id t = ty') trs"
        unfolding trs' using False zero that by (auto intro!: first_index_update_same)
      show ?thesis
      proof (cases "first_index (\<lambda>t. tr_type_id t = ty') trs")
        case None
        then show ?thesis using same by (simp add: last_report_def)
      next
        case (Some k')
        then have "k' \<noteq> k" using first_index_holds [OF Some] zero that by auto
        then show ?thesis using same Some False by (simp add: last_report_def trs')
      qed
    qed
  qed
qed

text \<open>The offline check of a configured point while no client is connected.\<close>

lemma offline_check_reports:
  assumes ctxs: "contexts_wf ctxs" and trs: "tracking_wf ctxs trs" and c: "c \<in> set ctxs" "ctx_wf c"
    and untimed: "\<not> dti_has_time_tag info" "dti_offline_equivalent info \<noteq> 0" "\<not> is_client_connected slave"
    and info: "dti_type_id info = ctx_type_id c" and idx: "find_ioa_index c ioa = Some idx"
    and check: "offline_check g slave now info c ioa v trs = Returns (off, trs')"
  shows "off \<longleftrightarrow> deadband_passed (deadband_M_ME_NC_1_percent g) info (data_array c ! idx) v \<and>
      ucast (offline_udt_time g * 1000) \<le> now - last_report trs (ctx_type_id c) idx"
    and "ty' \<noteq> 0 \<Longrightarrow> last_report trs' ty' n =
      (if off \<and> ty' = ctx_type_id c \<and> n = idx then now else last_report trs ty' n)"
proof -
  let ?ty = "ctx_type_id c"
  have nz: "?ty \<noteq> 0" using contexts_ids_nonzero [OF ctxs c(1)] .
  obtain k trs1 where k: "tracking_slot ?ty (ctx_count c) trs = Some (k, trs1)" "k < 10"
    "length (tr_timestamps (trs1 ! k)) = ctx_count c"
    using tracking_slot_found [OF ctxs trs c(1)] by metis
  note r = tracking_slot_reports [OF trs k(1) nz]
  have lt: "idx < length (tr_timestamps (trs1 ! k))" using find_ioa_index_less [OF idx] k(3) by simp
  have last: "tr_timestamps (trs1 ! k) ! idx = last_report trs ?ty idx"
    using r(2) [OF nz, of idx] r(1) lt by (simp add: last_report_def)
  let ?ok = "deadband_passed (deadband_M_ME_NC_1_percent g) info (data_array c ! idx) v \<and>
      ucast (offline_udt_time g * 1000) \<le> now - last_report trs ?ty idx"
  let ?trs = "trs1[k := (trs1 ! k)\<lparr>tr_timestamps := (tr_timestamps (trs1 ! k))[idx := now]\<rparr>]"
  have "offline_check g slave now info c ioa v trs = (if ?ok then Returns (True, ?trs) else Returns (False, trs1))"
    using untimed k info idx lt last by (simp add: offline_check_def Let_def)
  with check have *: "off = ?ok" "trs' = (if ?ok then ?trs else trs1)" by (auto split: if_splits)
  show "off \<longleftrightarrow> ?ok" by (rule *)
  show "last_report trs' ty' n = (if off \<and> ty' = ?ty \<and> n = idx then now else last_report trs ty' n)" if "ty' \<noteq> 0"
    using last_report_update [OF r(1) lt, of now ty' n] r(2) [OF that, of n]
    unfolding * by (cases ?ok) (simp_all only: if_True if_False simp_thms)
qed

end
