(* ===== verification/Input_Lines.thy ===== *)
theory Input_Lines
  imports Offline_Tracking
begin

text \<open>
  What a line does: the spontaneous report of an update, the update of the process image, and the
  main loop (\<open>main.c\<close>) over the lines.
\<close>

section \<open>Lines that are handled\<close>

text \<open>
  The number of an update suits its type: its conversions, to the member of the union and to the
  normalized value of the object sent, are defined, and no wild pointer is followed.
\<close>

definition update_ok :: "environment \<Rightarrow> u32 \<Rightarrow> int \<Rightarrow> f64 \<Rightarrow> bool" where
  "update_ok env type_id qual x =
     (case get_data_type_info type_id of None \<Rightarrow> True
      | Some info \<Rightarrow>
          (case convert_input_to_value info x qual (env_stale env) of
             Returns v \<Rightarrow> convertible type_id v \<and> convertible (dti_offline_equivalent info) v
           | _ \<Rightarrow> False))"

definition env_ok :: "environment \<Rightarrow> bool" where
  "env_ok env \<longleftrightarrow> length (env_mem env) = 5 \<and> link_params (env_params env)"

text \<open>A line whose number would suit its type if the uninitialised pointer happened to be NULL.\<close>

definition line_ok :: "environment \<Rightarrow> string \<Rightarrow> bool" where
  "line_ok env line \<longleftrightarrow> env_ok env \<and>
     (case Option.bind (env_parse env line) parse_update of None \<Rightarrow> True
      | Some (type_id, ioa, qual, x) \<Rightarrow> update_ok (env\<lparr>env_stale := (env_stale env)\<lparr>dv_timestamp := 0\<rparr>\<rparr>) type_id qual x)"

text \<open>
  A line that makes the time be written through the uninitialised pointer: an update of one of the ten types, while
  the local variable holds something else than NULL there.
\<close>

definition wild_update :: "environment \<Rightarrow> string \<Rightarrow> bool" where
  "wild_update env line \<longleftrightarrow> dv_timestamp (env_stale env) \<noteq> 0 \<and>
     (case env_parse env line of None \<Rightarrow> False
      | Some j \<Rightarrow> line_command j \<notin> {Some ''stop'', Some ''get_connected_clients'', Some ''get_queue_count''} \<and>
          (case parse_update j of None \<Rightarrow> False
           | Some (type_id, ioa, qual, x) \<Rightarrow> type_id \<in> set (map dti_type_id DATA_TYPE_TABLE)))"

definition input_wf :: "input_state \<Rightarrow> bool" where
  "input_wf st \<longleftrightarrow> contexts_wf (sv_contexts (in_server st)) \<and>
     tracking_wf (sv_contexts (in_server st)) (in_tracking st)"

lemma context_of_type:
  assumes "contexts_wf ctxs" "get_data_context ctxs ty = Some i"
  shows "i < 10" "ctx_wf (ctxs ! i)" "ctx_type_info (ctxs ! i) = DATA_TYPE_TABLE ! i"
    "ctx_type_id (ctxs ! i) = ty" "get_data_type_info ty = Some (DATA_TYPE_TABLE ! i)"
    "ty \<in> set (map dti_type_id DATA_TYPE_TABLE)"
proof -
  have f: "first_index (\<lambda>i. dti_type_id i = ty) DATA_TYPE_TABLE = Some i"
    using assms get_data_context_wf by metis
  then have i: "i < 10" "dti_type_id (DATA_TYPE_TABLE ! i) = ty"
    using first_index_less [OF f] first_index_holds [OF f] by simp_all
  then show "i < 10" "ctx_wf (ctxs ! i)" "ctx_type_info (ctxs ! i) = DATA_TYPE_TABLE ! i"
    using contexts_wf_nth [OF assms(1)] by blast+
  then show "ctx_type_id (ctxs ! i) = ty" using i by (simp add: ctx_wf_def)
  show "get_data_type_info ty = Some (DATA_TYPE_TABLE ! i)"
    using get_data_type_info_nth [OF i(1)] i by simp
  have "DATA_TYPE_TABLE ! i \<in> set DATA_TYPE_TABLE" using i(1) by simp
  then show "ty \<in> set (map dti_type_id DATA_TYPE_TABLE)" using i(2) by auto
qed

lemma offline_check_ok:
  assumes "contexts_wf ctxs" "tracking_wf ctxs trs" "c \<in> set ctxs" "dti_type_id info = ctx_type_id c" "ctx_wf c"
  obtains b trs' where "offline_check g slave now info c ioa v trs = Returns (b, trs')" "tracking_wf ctxs trs'"
    "b \<Longrightarrow> dti_offline_equivalent info \<noteq> 0"
proof (cases "\<not> dti_has_time_tag info \<and> \<not> is_client_connected slave \<and> dti_offline_equivalent info \<noteq> 0")
  case False
  then show ?thesis using that [of False trs] assms by (auto simp: offline_check_def)
next
  case True
  show ?thesis
  proof (cases "find_ioa_index c ioa")
    case None
    then show ?thesis using that [of False trs] assms True by (simp add: offline_check_def)
  next
    case (Some idx)
    obtain k trs' where k: "tracking_slot (ctx_type_id c) (ctx_count c) trs = Some (k, trs')" "k < 10"
      "tracking_wf ctxs trs'" "tr_type_id (trs' ! k) = ctx_type_id c"
      "length (tr_timestamps (trs' ! k)) = ctx_count c"
      using tracking_slot_found [OF assms(1-3)] .
    let ?trs = "trs'[k := (trs' ! k)\<lparr>tr_timestamps := (tr_timestamps (trs' ! k))[idx := now]\<rparr>]"
    have same: "map tr_type_id ?trs = map tr_type_id trs'"
      using k(2,3) by (intro nth_equalityI) (auto simp: nth_list_update tracking_wf_def)
    have "slot_matches ctxs (trs' ! k)" using k(2,3) by (auto simp: tracking_wf_def list_all_length)
    then have "slot_matches ctxs ((trs' ! k)\<lparr>tr_timestamps := (tr_timestamps (trs' ! k))[idx := now]\<rparr>)"
      by (simp add: slot_matches_def)
    then have "list_all (slot_matches ctxs) ?trs"
      using k(3) by (auto simp: tracking_wf_def list_all_iff dest!: set_update_subset_insert2)
    then have "tracking_wf ctxs ?trs"
      using k(3) same unfolding tracking_wf_def by simp
    moreover have "offline_check g slave now info c ioa v trs =
        (if deadband_passed (deadband_M_ME_NC_1_percent g) info (data_array c ! idx) v \<and>
            now - tr_timestamps (trs' ! k) ! idx \<ge> ucast (offline_udt_time g * 1000)
         then Returns (True, ?trs) else Returns (False, trs'))"
      using True Some k assms(4) find_ioa_index_less [OF Some] by (simp add: offline_check_def Let_def)
    ultimately show ?thesis
      using that [of False trs'] that [of True ?trs] True k(3)
      by (cases "deadband_passed (deadband_M_ME_NC_1_percent g) info (data_array c ! idx) v \<and>
            now - tr_timestamps (trs' ! k) ! idx \<ge> ucast (offline_udt_time g * 1000)") simp_all
  qed
qed

text \<open>The objects built when no client is connected.\<close>

definition offline_type :: "u32 \<Rightarrow> u32" where
  "offline_type ty = (if ty = M_ME_TB_1 then M_ME_TE_1 else ty)"

lemma create_offline_ok:
  assumes "info \<in> set DATA_TYPE_TABLE" "dti_offline_equivalent info \<noteq> 0"
    "convertible (dti_offline_equivalent info) d" "length mem = 5"
  shows "\<exists>io. create_offline_io_for_type mem (dti_type_id info) ioa d = Returns (Some io) \<and>
    create_io_for_type mem (dti_offline_equivalent info) ioa d = Returns (Some io) \<and>
    io_for (offline_type (dti_offline_equivalent info)) ioa io"
proof -
  have t: "length (timestamp_bytes d) = 7" by (simp add: timestamp_bytes_def)
  have lookup: "get_data_type_info (dti_type_id info) = Some info"
    using assms(1) get_data_type_info_nth by (metis in_set_conv_nth length_table)
  from assms(1,2) have "dti_offline_equivalent info \<in> {M_SP_TB_1, M_DP_TB_1, M_ME_TD_1, M_IT_TB_1, M_ME_TB_1, M_ME_TF_1}"
    by (auto simp: table_defs)
  then show ?thesis
    unfolding create_offline_io_for_type_def lookup option.case
    using t assms(2-4)
    by (elim insertE emptyE; auto simp: create_io_for_type_def type_ids convertible_def io_create_defs
        io_for_def offline_type_def Let_def intro: setValue_length)
qed

section \<open>The spontaneous ASDU\<close>

lemma add_header_tail:
  assumes "represents a ios" "io_wf io" "addr_ok (asdu_parameters a) io"
  shows "drop 2 (asdu_header (snd (CS101_ASDU_addInformationObject a io))) = drop 2 (asdu_header a)"
  by (simp add: add_step [OF assms] set_header_def)

lemma header_tail_getters:
  assumes "link_params p" "asdu_parameters a = p" "length (asdu_header a) = 6"
    "drop 2 (asdu_header a) = drop 2 (asdu_header (CS101_ASDU_create p s cot 0 ca False False))"
  shows "CS101_ASDU_getCOT a = word_of_int (cot AND 0x3f) AND 0x3f"
    "ca_ok ca \<Longrightarrow> CS101_ASDU_getCA a = ca"
proof -
  obtain b0 b1 b2 b3 b4 b5 where h: "asdu_header a = [b0, b1, b2, b3, b4, b5]"
    using assms(3) by (auto simp: numeral_eq_Suc length_Suc_conv)
  have sz: "sizeOfCOT p = 2" "sizeOfCA p = 2" using assms(1) by (auto simp: link_params_def)
  have bs: "b2 = word_of_int (cot AND 0x3f)" "b4 = word_of_int (c_mod ca 0x100)" "b5 = word_of_int (c_div ca 0x100)"
    using assms(4) h sz by (simp_all add: CS101_ASDU_create_def Let_def)
  show "CS101_ASDU_getCOT a = word_of_int (cot AND 0x3f) AND 0x3f"
    by (simp add: CS101_ASDU_getCOT_def h bs)
  show "CS101_ASDU_getCA a = ca" if "ca_ok ca"
  proof -
    have "c_mod ca 256 = ca mod 256" "c_div ca 256 = ca div 256"
      using that by (simp_all add: c_arith ca_ok_def)
    then show ?thesis
      using ca_bytes [OF that] assms(2) sz h bs
      by (simp add: CS101_ASDU_getCA_def caIndex_def Let_def)
  qed
qed

definition spontaneous_of :: "app_layer_params \<Rightarrow> int \<Rightarrow> information_object \<Rightarrow> asdu \<Rightarrow> bool" where
  "spontaneous_of p ca io a \<longleftrightarrow> represents a [io] \<and> CS101_ASDU_isSequence a = False \<and>
     CS101_ASDU_getCOT a = COT_SPONTANEOUS \<and> (ca_ok ca \<longrightarrow> CS101_ASDU_getCA a = ca)"

lemma single_fits:
  assumes "link_params p" "io_wf io" "body_size (InformationObject_getType io) \<le> 12"
  shows "fits p s [io]"
  using assms length_io_layout [of p io False]
  by (auto simp: fits_def asduHeaderLength_def link_params_def params_ok_def)

lemma add_single:
  assumes p: "link_params p" and io: "io_wf io" "addr_ok p io" "body_size (InformationObject_getType io) \<le> 12"
  shows "spontaneous_of p ca io (snd (CS101_ASDU_addInformationObject
    (CS101_ASDU_create p False (uint COT_SPONTANEOUS) 0 ca False False) io))"
proof -
  let ?a = "CS101_ASDU_create p False (uint COT_SPONTANEOUS) 0 ca False False"
  let ?b = "snd (CS101_ASDU_addInformationObject ?a io)"
  have rep: "represents ?a []" using represents_create link_params_ok [OF p] by blast
  have acc: "accepts (asdu_parameters ?a) (CS101_ASDU_isSequence ?a) [] io"
    using single_fits [OF p io(1) io(3)] by (simp add: accepts_def compatible_def)
  obtain ok where add: "CS101_ASDU_addInformationObject ?a io = (ok, ?b)" by (metis prod.collapse)
  have addr: "addr_ok (asdu_parameters ?a) io" using io(2) by simp
  have r: "represents ?b [io]" "CS101_ASDU_isSequence ?b = False" "asdu_parameters ?b = p"
    using add_refines_append [OF rep io(1) addr acc add] by simp_all
  then have "length (asdu_header ?b) = 6"
    using p by (auto simp: represents_def header_wf_def asduHeaderLength_def link_params_def)
  with r header_tail_getters [OF p r(3) this add_header_tail [OF rep io(1) addr]]
  show ?thesis by (simp add: spontaneous_of_def COT_SPONTANEOUS_def)
qed

lemma body_size_io_for: "io_for ty ioa io \<Longrightarrow> body_size (InformationObject_getType io) = body_size ty"
  by (simp add: io_for_def)

lemma body_size_offline: "body_size (offline_type ty) = (if ty = M_ME_TB_1 then 10 else body_size ty)"
  by (simp add: offline_type_def)

lemma body_sizes:
  "ty \<in> set (map dti_type_id DATA_TYPE_TABLE) \<Longrightarrow> body_size ty \<le> 12"
  "info \<in> set DATA_TYPE_TABLE \<Longrightarrow> dti_offline_equivalent info \<noteq> 0 \<Longrightarrow>
     body_size (offline_type (dti_offline_equivalent info)) \<le> 12"
  by (auto simp: table_defs body_size_offline)

text \<open>The type of the object an update is reported with.\<close>

definition report_type :: "bool \<Rightarrow> data_type_info \<Rightarrow> u32" where
  "report_type offline_enqueue info =
     (if offline_enqueue then offline_type (dti_offline_equivalent info) else dti_type_id info)"

definition report_create :: "bytes \<Rightarrow> bool \<Rightarrow> u32 \<Rightarrow> int \<Rightarrow> data_value \<Rightarrow> information_object option outcome" where
  "report_create mem offline_enqueue ty ioa v =
     (if offline_enqueue then create_offline_io_for_type mem ty ioa v else create_io_for_type mem ty ioa v)"

definition address_ok :: "int \<Rightarrow> bool" where
  "address_ok ioa \<longleftrightarrow> 0 \<le> ioa \<and> ioa < 2 ^ 24"

lemma spontaneous_ok:
  assumes "env_ok env" "info \<in> set DATA_TYPE_TABLE" "ty = dti_type_id info"
    "convertible ty v" "convertible (dti_offline_equivalent info) v"
    "off \<Longrightarrow> dti_offline_equivalent info \<noteq> 0"
  obtains a io where "spontaneous env ca ty ioa v off = Returns [EnqueueASDU a]"
    "report_create (env_mem env) off ty ioa v = Returns (Some io)" "io_for (report_type off info) ioa io"
    "address_ok ioa \<Longrightarrow> spontaneous_of (env_params env) ca io a"
proof -
  have mem: "length (env_mem env) = 5" and p: "link_params (env_params env)"
    using assms(1) by (simp_all add: env_ok_def)
  have ty: "ty \<in> set (map dti_type_id DATA_TYPE_TABLE)" using assms(2,3) by simp
  obtain io where io: "report_create (env_mem env) off ty ioa v = Returns (Some io)"
      "io_for (report_type off info) ioa io"
    using create_io_for_type_ok [OF ty assms(4) mem, of ioa]
      create_offline_ok [OF assms(2) assms(6) assms(5) mem, of ioa] assms(3)
    by (cases off) (auto simp: report_create_def report_type_def)
  have "body_size (InformationObject_getType io) \<le> 12"
    using body_size_io_for [OF io(2)] body_sizes(1) [OF ty] body_sizes(2) [OF assms(2)] assms(3,6)
    by (cases off) (simp_all add: report_type_def)
  then have "address_ok ioa \<Longrightarrow> spontaneous_of (env_params env) ca io (snd (CS101_ASDU_addInformationObject
      (CS101_ASDU_create (env_params env) False (uint COT_SPONTANEOUS) 0 ca False False) io))"
    using io(2) p by (intro add_single) (auto simp: io_for_def addr_ok_def address_ok_def link_params_def)
  with io show thesis
    using that by (simp add: spontaneous_def report_create_def)
qed

section \<open>Effect of an update\<close>

abbreviation contexts_of :: "input_state \<Rightarrow> data_context list" where
  "contexts_of st \<equiv> sv_contexts (in_server st)"

abbreviation globals_of :: "input_state \<Rightarrow> globals" where
  "globals_of st \<equiv> sv_globals (in_server st)"

definition store :: "nat \<Rightarrow> data_context \<Rightarrow> tracking list \<Rightarrow> input_state \<Rightarrow> input_state" where
  "store i ctx trs st = st\<lparr>in_server := (in_server st)\<lparr>sv_contexts := (contexts_of st)[i := ctx]\<rparr>, in_tracking := trs\<rparr>"

lemma store_simps [simp]:
  "contexts_of (store i ctx trs st) = (contexts_of st)[i := ctx]" "in_tracking (store i ctx trs st) = trs"
  "in_initialized (store i ctx trs st) = in_initialized st" "in_clients (store i ctx trs st) = in_clients st"
  by (simp_all add: store_def)

abbreviation updated_point ::
    "environment \<Rightarrow> input_state \<Rightarrow> nat \<Rightarrow> int \<Rightarrow> data_value \<Rightarrow> bool \<times> data_context" where
  "updated_point env st i ioa v \<equiv>
     update_data (globals_of st) (Some (env_connections env)) (env_now env) (contexts_of st ! i) ioa v"

lemma input_wf_store [wf_intros]:
  assumes "input_wf st" "tracking_wf (contexts_of st) trs" "i < 10"
  shows "input_wf (store i (snd (updated_point env st i ioa v)) trs st)"
proof -
  let ?c = "snd (updated_point env st i ioa v)" and ?cs = "contexts_of st"
  have wf: "contexts_wf ?cs" using assms(1) by (simp add: input_wf_def)
  have ctx: "ctx_wf (?cs ! i)" using contexts_wf_nth [OF wf assms(3)] by blast
  have len: "i < length ?cs" using assms(3) length_contexts [OF wf] by simp
  note config = update_data_config [of "globals_of st" "Some (env_connections env)" "env_now env" "?cs ! i" ioa v]
  have cs: "contexts_wf (?cs[i := ?c])"
    using config by (intro contexts_wf_replace [OF wf len] ctx_wf_update [OF ctx]) blast
  have "map ctx_type_id (?cs[i := ?c]) = map ctx_type_id ?cs" "map ctx_count (?cs[i := ?c]) = map ctx_count ?cs"
    using config len by (simp_all add: map_replace_same)
  then have "tracking_wf (?cs[i := ?c]) trs"
    using slot_matches_cong [of "?cs[i := ?c]" ?cs] assms(2) by (simp add: tracking_wf_def)
  with cs show ?thesis by (simp add: input_wf_def)
qed

lemma update_ok_known:
  assumes "update_ok env ty q x" "get_data_type_info ty = Some info"
  obtains v where "convert_input_to_value info x q (env_stale env) = Returns v"
    "convertible ty v" "convertible (dti_offline_equivalent info) v"
  using assms by (auto simp: update_ok_def split: outcome.splits)

text \<open>An update of a known type, in terms of the offline check and the update of the point.\<close>

lemma process_update_known:
  assumes wf: "input_wf st" "env_ok env" and ok: "update_ok env ty q x"
    and ctx: "get_data_context (contexts_of st) ty = Some i"
    and conv: "convert_input_to_value (DATA_TYPE_TABLE ! i) x q (env_stale env) = Returns v"
  obtains off trs a io where
    "offline_check (globals_of st) (Some (env_connections env)) (env_now env) (DATA_TYPE_TABLE ! i)
       (contexts_of st ! i) ioa v (in_tracking st) = Returns (off, trs)"
    "tracking_wf (contexts_of st) trs"
    "process_update env ty ioa q x st =
       Returns (if fst (updated_point env st i ioa v) \<or> off then [EnqueueASDU a] else [],
                store i (snd (updated_point env st i ioa v)) trs st)"
    "report_create (env_mem env) off ty ioa v = Returns (Some io)"
    "io_for (report_type off (DATA_TYPE_TABLE ! i)) ioa io"
    "address_ok ioa \<Longrightarrow> spontaneous_of (env_params env) (ASDU_address (globals_of st)) io a"
proof -
  let ?cs = "contexts_of st" and ?info = "DATA_TYPE_TABLE ! i"
  have cs: "contexts_wf ?cs" and tr: "tracking_wf ?cs (in_tracking st)"
    using wf(1) by (simp_all add: input_wf_def)
  note c = context_of_type [OF cs ctx]
  have info: "?info \<in> set DATA_TYPE_TABLE" using c(1) by simp
  have mem: "?cs ! i \<in> set ?cs" using c(1) length_contexts [OF cs] by simp
  have ty: "dti_type_id ?info = ctx_type_id (?cs ! i)" "ty = dti_type_id ?info"
    using c(2,3,4) by (simp_all add: ctx_wf_def)
  have conv': "convertible ty v" "convertible (dti_offline_equivalent ?info) v"
    using update_ok_known [OF ok c(5)] conv by auto
  obtain off trs where off: "offline_check (globals_of st) (Some (env_connections env)) (env_now env) ?info
      (?cs ! i) ioa v (in_tracking st) = Returns (off, trs)" "tracking_wf ?cs trs"
      "off \<Longrightarrow> dti_offline_equivalent ?info \<noteq> 0"
    using offline_check_ok [OF cs tr mem ty(1) c(2), where g = "globals_of st" and ioa = ioa and v = v
        and slave = "Some (env_connections env)" and now = "env_now env"] by blast
  obtain a io where a: "spontaneous env (ASDU_address (globals_of st)) ty ioa v off = Returns [EnqueueASDU a]"
      "report_create (env_mem env) off ty ioa v = Returns (Some io)" "io_for (report_type off ?info) ioa io"
      "address_ok ioa \<Longrightarrow> spontaneous_of (env_params env) (ASDU_address (globals_of st)) io a"
    using spontaneous_ok [OF wf(2) info ty(2) conv' off(3), where ca = "ASDU_address (globals_of st)" and ioa = ioa] by blast
  have "process_update env ty ioa q x st =
      Returns (if fst (updated_point env st i ioa v) \<or> off then [EnqueueASDU a] else [],
                store i (snd (updated_point env st i ioa v)) trs st)"
    using ctx c(5) conv off(1) a(1)
    by (cases "updated_point env st i ioa v") (simp add: process_update_def store_def Let_def)
  then show thesis using that off(1,2) a by blast
qed

text \<open>The line is an update: it parses, and has no command.\<close>

definition update_line :: "environment \<Rightarrow> string \<Rightarrow> u32 \<times> int \<times> int \<times> f64 \<Rightarrow> bool" where
  "update_line env line u \<longleftrightarrow>
     (case env_parse env line of None \<Rightarrow> False
      | Some j \<Rightarrow> cJSON_GetObjectItem j ''cmd'' = None \<and> parse_update j = Some u)"

lemma process_line_update:
  assumes "in_initialized st" "update_line env line (ty, ioa, q, x)"
    "process_update env ty ioa q x st = Returns (acts, st')"
  shows "input_handler_process_line env line st = Returns (True, acts, st')"
  using assms
  by (auto simp: input_handler_process_line_def update_line_def line_command_def run_command_def
      split: option.splits)

lemma process_update_preserves:
  assumes "input_wf st" "env_ok env" "update_ok env ty q x"
  obtains acts st' where "process_update env ty ioa q x st = Returns (acts, st')" "input_wf st'"
    "in_initialized st' = in_initialized st"
proof (cases "get_data_context (contexts_of st) ty")
  case None
  then show thesis using that assms(1) by (simp add: process_update_def)
next
  case (Some i)
  have cs: "contexts_wf (contexts_of st)" using assms(1) by (simp add: input_wf_def)
  note c = context_of_type [OF cs Some]
  obtain v where v: "convert_input_to_value (DATA_TYPE_TABLE ! i) x q (env_stale env) = Returns v"
    using update_ok_known [OF assms(3) c(5)] by blast
  obtain acts off trs where "tracking_wf (contexts_of st) trs"
      "process_update env ty ioa q x st = Returns (acts, store i (snd (updated_point env st i ioa v)) trs st)"
    using process_update_known [OF assms Some v, of ioa] by metis
  then show thesis
    using that input_wf_store [OF assms(1) _ c(1)] by simp
qed

lemma known_context: "input_wf st \<Longrightarrow> get_data_context (contexts_of st) ty \<noteq> None \<longleftrightarrow> ty \<in> set (map dti_type_id DATA_TYPE_TABLE)"
  using get_data_context_wf [of "contexts_of st" ty] first_index_None [of "\<lambda>i. dti_type_id i = ty" DATA_TYPE_TABLE]
  by (auto simp: input_wf_def)

lemma run_command_None: "run_command env clients cmd = None \<longleftrightarrow>
    cmd \<notin> {Some ''stop'', Some ''get_connected_clients'', Some ''get_queue_count''}"
  by (simp add: run_command_def)

lemma stale_null: "dv_timestamp (env_stale env) = 0 \<Longrightarrow> env\<lparr>env_stale := (env_stale env)\<lparr>dv_timestamp := 0\<rparr>\<rparr> = env"
  by (cases env, cases "env_stale env") simp

lemma process_line_preserves:
  assumes "input_wf st" "line_ok env line" "\<not> (in_initialized st \<and> wild_update env line)"
  obtains go acts st' where "input_handler_process_line env line st = Returns (go, acts, st')" "input_wf st'"
    "in_initialized st' = in_initialized st"
proof (cases "\<exists>j u. in_initialized st \<and> env_parse env line = Some j \<and>
    run_command env (in_clients st) (line_command j) = None \<and> parse_update j = Some u")
  case False
  then have "\<exists>go acts. input_handler_process_line env line st = Returns (go, acts, st)"
    by (auto simp: input_handler_process_line_def split: option.splits)
  then show thesis using that assms(1) by blast
next
  case True
  then obtain j u where Some: "in_initialized st" "env_parse env line = Some j"
    "run_command env (in_clients st) (line_command j) = None" "parse_update j = Some u" by blast
  obtain ty ioa q x where u: "u = (ty, ioa, q, x)" by (cases u)
  have "\<exists>acts st'. process_update env ty ioa q x st = Returns (acts, st') \<and> input_wf st' \<and> in_initialized st' = in_initialized st"
  proof (cases "ty \<in> set (map dti_type_id DATA_TYPE_TABLE)")
    case True
    then have "dv_timestamp (env_stale env) = 0" using assms(3) Some u by (auto simp: wild_update_def run_command_None)
    then have ok: "env_ok env" "update_ok env ty q x"
      using assms(2) Some u stale_null [of env] by (simp_all add: line_ok_def)
    show ?thesis using process_update_preserves [OF assms(1) ok] by metis
  next
    case False
    then show ?thesis using known_context [OF assms(1), of ty] assms(1) by (simp add: process_update_def)
  qed
  then show thesis
    using that Some u by (auto simp: input_handler_process_line_def)
qed

lemma wild_update_undefined:
  assumes "input_wf st" "in_initialized st" "wild_update env line"
  shows "input_handler_process_line env line st = Undefined"
proof -
  obtain j ty ioa q x where j: "env_parse env line = Some j" "run_command env (in_clients st) (line_command j) = None"
    "parse_update j = Some (ty, ioa, q, x)" "ty \<in> set (map dti_type_id DATA_TYPE_TABLE)" "dv_timestamp (env_stale env) \<noteq> 0"
    using assms(3) by (auto simp: wild_update_def run_command_None split: option.splits)
  obtain i where i: "get_data_context (contexts_of st) ty = Some i" using known_context [OF assms(1)] j(4) by blast
  have cs: "contexts_wf (contexts_of st)" using assms(1) by (simp add: input_wf_def)
  have "process_update env ty ioa q x st = Undefined"
    using context_of_type(5) [OF cs i] i j(5) by (simp add: process_update_def convert_input_to_value_def Let_def)
  then show ?thesis using assms(2) j by (simp add: input_handler_process_line_def)
qed

section \<open>The main loop\<close>

text \<open>
  The loop of \<open>main\<close> over the buffers that \<open>fgets\<close> delivers, each with the environment at that time: the
  text up to the newline is a line, empty lines are skipped, a line that returns False ends the loop.
\<close>

fun run_lines :: "(environment \<times> string) list \<Rightarrow> input_state \<Rightarrow> (bool \<times> action list \<times> input_state) outcome" where
  "run_lines [] st = Returns (True, [], st)"
| "run_lines ((env, buffer) # bs) st =
     (let line = takeWhile (\<lambda>c. c \<noteq> CHR 0x0A) buffer
      in if line = [] then run_lines bs st
         else obind (input_handler_process_line env line st) (\<lambda>(go, acts, st).
           if go then obind (run_lines bs st) (\<lambda>(running, more, st). Returns (running, acts @ more, st))
           else Returns (False, acts, st)))"

text \<open>A line that follows the wild pointer is reached.\<close>

definition wild_reached :: "(environment \<times> string) list \<Rightarrow> input_state \<Rightarrow> bool" where
  "wild_reached bs st \<longleftrightarrow> (\<exists>pre env buffer post acts st'. bs = pre @ (env, buffer) # post \<and>
     run_lines pre st = Returns (True, acts, st') \<and> takeWhile (\<lambda>c. c \<noteq> CHR 0x0A) buffer \<noteq> [] \<and>
     wild_update env (takeWhile (\<lambda>c. c \<noteq> CHR 0x0A) buffer))"

lemma wild_reached_Nil [simp]: "\<not> wild_reached [] st"
  by (simp add: wild_reached_def)

lemma wild_reached_Cons:
  assumes "line = takeWhile (\<lambda>c. c \<noteq> CHR 0x0A) buffer"
  shows "wild_reached ((env, buffer) # bs) st \<longleftrightarrow> line \<noteq> [] \<and> wild_update env line \<or>
    (if line = [] then wild_reached bs st
     else \<exists>acts st'. input_handler_process_line env line st = Returns (True, acts, st') \<and> wild_reached bs st')"
proof
  assume "wild_reached ((env, buffer) # bs) st"
  then obtain pre e b post acts st' where h: "(env, buffer) # bs = pre @ (e, b) # post" "run_lines pre st = Returns (True, acts, st')"
    "takeWhile (\<lambda>c. c \<noteq> CHR 0x0A) b \<noteq> []" "wild_update e (takeWhile (\<lambda>c. c \<noteq> CHR 0x0A) b)"
    unfolding wild_reached_def by blast
  show "line \<noteq> [] \<and> wild_update env line \<or> (if line = [] then wild_reached bs st
     else \<exists>acts st'. input_handler_process_line env line st = Returns (True, acts, st') \<and> wild_reached bs st')"
  proof (cases pre)
    case Nil
    then show ?thesis using h assms by simp
  next
    case (Cons x pre')
    then have x: "x = (env, buffer)" "bs = pre' @ (e, b) # post" using h(1) by simp_all
    then have reached: "\<exists>acts. run_lines pre' s = Returns (True, acts, st') \<Longrightarrow> wild_reached bs s" for s
      using h(3,4) unfolding wild_reached_def by blast
    show ?thesis
    proof (cases "line = []")
      case True
      then show ?thesis using h(2) Cons x reached assms by simp
    next
      case False
      then obtain as s where "input_handler_process_line env line st = Returns (True, as, s)" "\<exists>acts. run_lines pre' s = Returns (True, acts, st')"
        using h(2) Cons x assms by (auto simp: Let_def obind_Returns split: if_splits)
      then show ?thesis using reached False by auto
    qed
  qed
next
  have first: "wild_reached ((env, buffer) # bs) st" if "line \<noteq> []" "wild_update env line"
    unfolding wild_reached_def using that assms
    by (intro exI [of _ "[]"] exI [of _ env] exI [of _ buffer] exI [of _ bs] exI [of _ "[]"] exI [of _ st]) simp
  have later: "wild_reached ((env, buffer) # bs) st"
    if r: "wild_reached bs s" and go: "\<And>pre acts st'. run_lines pre s = Returns (True, acts, st') \<Longrightarrow>
      \<exists>acts. run_lines ((env, buffer) # pre) st = Returns (True, acts, st')" for s
  proof -
    obtain pre e b post acts st' where h: "bs = pre @ (e, b) # post" "run_lines pre s = Returns (True, acts, st')"
      "takeWhile (\<lambda>c. c \<noteq> CHR 0x0A) b \<noteq> []" "wild_update e (takeWhile (\<lambda>c. c \<noteq> CHR 0x0A) b)"
      using r unfolding wild_reached_def by blast
    obtain acts' where "run_lines ((env, buffer) # pre) st = Returns (True, acts', st')" using go [OF h(2)] by blast
    then show ?thesis unfolding wild_reached_def using h
      by (intro exI [of _ "(env, buffer) # pre"] exI [of _ e] exI [of _ b] exI [of _ post] exI [of _ acts'] exI [of _ st']) simp
  qed
  assume "line \<noteq> [] \<and> wild_update env line \<or> (if line = [] then wild_reached bs st
     else \<exists>acts st'. input_handler_process_line env line st = Returns (True, acts, st') \<and> wild_reached bs st')"
  then show "wild_reached ((env, buffer) # bs) st"
    using first later assms by (fastforce simp: Let_def split: if_splits)
qed

lemma run_lines_cases:
  assumes "input_wf st" "in_initialized st"
    and "\<And>env buffer. (env, buffer) \<in> set bs \<Longrightarrow> line_ok env (takeWhile (\<lambda>c. c \<noteq> CHR 0x0A) buffer)"
  shows "if wild_reached bs st then run_lines bs st = Undefined
    else \<exists>running acts st'. run_lines bs st = Returns (running, acts, st') \<and> input_wf st'"
  using assms
proof (induction bs arbitrary: st)
  case (Cons b bs)
  obtain env buffer where b: "b = (env, buffer)" by (cases b)
  define line where "line = takeWhile (\<lambda>c. c \<noteq> CHR 0x0A) buffer"
  note reached = wild_reached_Cons [OF line_def]
  have ok: "line_ok env line" using Cons.prems(3) b line_def by simp
  have run: "run_lines (b # bs) st = (if line = [] then run_lines bs st
      else obind (input_handler_process_line env line st) (\<lambda>(go, acts, st).
        if go then obind (run_lines bs st) (\<lambda>(running, more, st). Returns (running, acts @ more, st)) else Returns (False, acts, st)))"
    by (simp add: b line_def Let_def)
  have IH: "if wild_reached bs s then run_lines bs s = Undefined
      else \<exists>running acts st'. run_lines bs s = Returns (running, acts, st') \<and> input_wf st'"
    if "input_wf s" "in_initialized s" for s
    using Cons.IH [OF that] Cons.prems(3) by simp
  show ?case
  proof (cases "line = [] \<or> wild_update env line")
    case True
    then show ?thesis
      using IH [OF Cons.prems(1,2)] wild_update_undefined [OF Cons.prems(1,2)] run reached [of env bs st] b by auto
  next
    case False
    then obtain go acts s where s: "input_handler_process_line env line st = Returns (go, acts, s)" "input_wf s" "in_initialized s"
      using process_line_preserves [OF Cons.prems(1) ok] Cons.prems(2) by metis
    show ?thesis
      using IH [OF s(2,3)] s run reached [of env bs st] False b by (cases go) (auto split: if_splits)
  qed
qed (simp add: ex_bool_eq)

section \<open>A small server\<close>

definition demo_update :: json where
  "demo_update = JObject [(''type'', JString ''M_SP_NA_1''), (''address'', JNumber 0x4059000000000000),
     (''value'', JNumber 0x3FF0000000000000)]"

definition demo_env :: "int \<Rightarrow> u64 \<Rightarrow> environment" where
  "demo_env connections pointer = \<lparr>env_params = defaultAppLayerParameters, env_connections = connections,
     env_running = True, env_queue_entries = 0, env_now = 5000, env_mem = replicate 5 0,
     env_stale = zero_value\<lparr>dv_timestamp := pointer\<rparr>,
     env_parse = (\<lambda>s. if s = ''up'' then Some demo_update else None), env_print = (\<lambda>j. '''')\<rparr>"

definition demo_input :: input_state where
  "demo_input = \<lparr>in_server = initial_server\<lparr>sv_contexts := init_data_contexts
       [4 := configured [JNumber 0x4059000000000000] (init_context (DATA_TYPE_TABLE ! 4))]\<rparr>,
     in_clients = initial_client_manager, in_tracking = initial_tracking, in_initialized = True\<rparr>"

definition demo_value :: data_value where
  "demo_value = set_bool_val True (zero_value\<lparr>dv_type := DATA_VALUE_TYPE_BOOL, dv_has_quality := True\<rparr>)"

text \<open>The doubles 100 and 1.\<close>

lemma demo_doubles: "f64_val 0x4059000000000000 = Fin False (25 * 2 ^ 48) (- 46)" "f64_val 0x3FF0000000000000 = Fin False (2 ^ 52) (- 52)"
  by (simp_all add: f64_val_def fp_decode_def fp_emin_def Let_def)

lemma demo_address: "saturate_int 0x4059000000000000 = 100"
  by (simp add: saturate_int_def demo_doubles fv_le_def signed_def Let_def)

lemma init_context_nth: "i < 10 \<Longrightarrow> init_data_contexts ! i = init_context (DATA_TYPE_TABLE ! i)"
  by (simp add: init_data_contexts_def)

lemma demo_contexts_wf: "contexts_wf (contexts_of demo_input)"
proof -
  have "ctx_wf (init_context (DATA_TYPE_TABLE ! 4))" by (intro ctx_wf_init nth_mem) simp
  then have "ctx_wf (configured [JNumber 0x4059000000000000] (init_context (DATA_TYPE_TABLE ! 4)))"
    by (intro configured_wf) (simp_all add: init_context_def)
  then show ?thesis
    using length_contexts [OF contexts_wf_init]
    by (simp add: demo_input_def contexts_wf_replace contexts_wf_init init_context_nth)
qed

lemma demo_input_wf: "input_wf demo_input"
  using demo_contexts_wf tracking_wf_initial by (simp add: input_wf_def demo_input_def)

lemma demo_update_parsed: "parse_update demo_update = Some (M_SP_NA_1, 100, 0, 0x3FF0000000000000)"
  using demo_address
  by (simp add: parse_update_def demo_update_def cJSON_GetObjectItem_def tolower_def update_type_def update_qualifier_def
      get_data_type_info_by_name_def table_defs type_ids)

lemma demo_lookup: "get_data_context (contexts_of demo_input) M_SP_NA_1 = Some 4"
proof -
  have "M_SP_NA_1 = dti_type_id (DATA_TYPE_TABLE ! 4)" by (simp add: table_defs)
  then show ?thesis
    using contexts_lookup [OF contexts_ids [OF demo_contexts_wf], of 4] by simp
qed

lemma demo_conversion: "convert_input_to_value (DATA_TYPE_TABLE ! 4) 0x3FF0000000000000 0 (env_stale (demo_env n 0)) = Returns demo_value"
proof -
  have "\<not> fv_eq (f64_val 0x3FF0000000000000) (Fin False 0 0)" by (simp add: demo_doubles signed_def Let_def)
  then show ?thesis
    by (simp add: convert_input_to_value_def convert_number_def demo_env_def demo_value_def zero_value_def table_defs Let_def)
qed

lemma demo_update_ok: "update_ok (demo_env n 0) M_SP_NA_1 0 0x3FF0000000000000"
  using demo_conversion [of n] context_of_type(5) [OF demo_contexts_wf demo_lookup]
  by (simp add: update_ok_def convertible_def type_ids table_defs)

lemma demo_env_ok: "env_ok (demo_env n p)"
  by (simp add: env_ok_def demo_env_def)

lemma demo_line: "update_line (demo_env n p) ''up'' (M_SP_NA_1, 100, 0, 0x3FF0000000000000)"
  using demo_update_parsed
  by (simp add: update_line_def demo_env_def demo_update_def cJSON_GetObjectItem_def tolower_def)

lemma demo_index: "find_ioa_index (contexts_of demo_input ! 4) 100 = Some 0"
  using length_contexts [OF contexts_wf_init] demo_address
  by (simp add: demo_input_def configured_def init_context_def find_ioa_index_def)

lemma demo_facts:
  "in_initialized demo_input" "in_tracking demo_input = initial_tracking"
  "deadband_M_ME_NC_1_percent (globals_of demo_input) = f32_0" "ASDU_address (globals_of demo_input) = 1"
  "offline_udt_time (globals_of demo_input) = 0" "env_connections (demo_env n p) = n" "env_now (demo_env n p) = 5000"
  "env_mem (demo_env n p) = replicate 5 0" "env_params (demo_env n p) = defaultAppLayerParameters"
  by (simp_all add: demo_input_def demo_env_def initial_server_def initial_globals_def)

section \<open>Properties\<close>

text \<open>
  C19: whether the main loop runs safely. From a well-formed state of the running server, any sequence of lines whose numbers suit
  their types has undefined behaviour exactly when a line is reached that is an update of one of the ten types while the
  uninitialised time stamp pointer of the local variable is not NULL (\<open>wild_update\<close>). Otherwise it is processed to the end, or to
  a stop, whatever the clients do meanwhile, and leaves a well-formed state: every context keeps its type and its
  sizes, and the offline tracking at most one slot per type, of the size of its context.
\<close>

theorem main_loop_safe:
  assumes "input_wf st" "in_initialized st"
    and "\<And>env buffer. (env, buffer) \<in> set bs \<Longrightarrow> line_ok env (takeWhile (\<lambda>c. c \<noteq> CHR 0x0A) buffer)"
  shows "if \<exists>pre env buffer post acts st'. bs = pre @ (env, buffer) # post \<and> run_lines pre st = Returns (True, acts, st') \<and>
        takeWhile (\<lambda>c. c \<noteq> CHR 0x0A) buffer \<noteq> [] \<and> wild_update env (takeWhile (\<lambda>c. c \<noteq> CHR 0x0A) buffer)
    then run_lines bs st = Undefined
    else \<exists>running acts st'. run_lines bs st = Returns (running, acts, st') \<and> input_wf st'"
  using run_lines_cases [OF assms] unfolding wild_reached_def .

lemma demo_line_ok: "line_ok (demo_env n p) ''up''"
proof -
  have "(demo_env n p)\<lparr>env_stale := (env_stale (demo_env n p))\<lparr>dv_timestamp := 0\<rparr>\<rparr> = demo_env n 0" by (simp add: demo_env_def)
  then show ?thesis using demo_env_ok [of n p] demo_update_ok [of n] demo_update_parsed by (simp add: line_ok_def demo_env_def)
qed

lemma demo_wild: "wild_update (demo_env n p) ''up'' \<longleftrightarrow> p \<noteq> 0"
  using demo_update_parsed
  by (simp add: wild_update_def demo_env_def line_command_def demo_update_def cJSON_GetObjectItem_def tolower_def type_ids
      DATA_TYPE_TABLE_def dti_def)

theorem main_loop_safe_witness:
  "(\<exists>running acts st'. run_lines [(demo_env 1 0, ''up''), (demo_env 0 0, ''up'')] demo_input = Returns (running, acts, st') \<and> input_wf st') \<and>
   run_lines [(demo_env 1 4096, ''up''), (demo_env 0 0, ''up'')] demo_input = Undefined"
proof
  let ?bs = "[(demo_env 1 0, ''up''), (demo_env 0 0, ''up'')]" and ?ws = "[(demo_env 1 4096, ''up''), (demo_env 0 0, ''up'')]"
  have "\<not> wild_update env (takeWhile (\<lambda>c. c \<noteq> CHR 0x0A) buffer)" if "?bs = pre @ (env, buffer) # post" for pre env buffer post
  proof -
    have "(env, buffer) \<in> set ?bs" unfolding that by simp
    then show ?thesis using demo_wild [of 1 0] demo_wild [of 0 0] by auto
  qed
  then have "\<not> (\<exists>pre env buffer post acts st'. ?bs = pre @ (env, buffer) # post \<and> run_lines pre demo_input = Returns (True, acts, st') \<and>
        takeWhile (\<lambda>c. c \<noteq> CHR 0x0A) buffer \<noteq> [] \<and> wild_update env (takeWhile (\<lambda>c. c \<noteq> CHR 0x0A) buffer))" by blast
  moreover have "line_ok env (takeWhile (\<lambda>c. c \<noteq> CHR 0x0A) buffer)" if "(env, buffer) \<in> set ?bs" for env buffer
    using that demo_line_ok by auto
  ultimately show "\<exists>running acts st'. run_lines ?bs demo_input = Returns (running, acts, st') \<and> input_wf st'"
    using main_loop_safe [OF demo_input_wf demo_facts(1), of ?bs] by presburger
  have "\<exists>pre env buffer post acts st'. ?ws = pre @ (env, buffer) # post \<and> run_lines pre demo_input = Returns (True, acts, st') \<and>
        takeWhile (\<lambda>c. c \<noteq> CHR 0x0A) buffer \<noteq> [] \<and> wild_update env (takeWhile (\<lambda>c. c \<noteq> CHR 0x0A) buffer)"
    using demo_wild [of 1 4096]
    by (intro exI [of _ "[]"] exI [of _ "demo_env 1 4096"] exI [of _ "''up''"] exI [of _ "[(demo_env 0 0, ''up'')]"] exI [of _ "[]"]
        exI [of _ demo_input]) simp
  moreover have "line_ok env (takeWhile (\<lambda>c. c \<noteq> CHR 0x0A) buffer)" if "(env, buffer) \<in> set ?ws" for env buffer
    using that demo_line_ok by auto
  ultimately show "run_lines ?ws demo_input = Undefined"
    using main_loop_safe [OF demo_input_wf demo_facts(1), of ?ws] by presburger
qed



text \<open>
  A line stops the server exactly when it is a JSON object whose first member named \<open>cmd\<close>, in any
  case of its letters, is the string \<open>stop\<close>; then nothing is sent and the state is kept.
\<close>

theorem stop_only_by_command:
  "input_handler_process_line env line st = Returns (False, acts, st') \<longleftrightarrow>
    in_initialized st \<and> acts = [] \<and> st' = st \<and>
    (\<exists>j. env_parse env line = Some j \<and> cJSON_GetObjectItem j ''cmd'' = Some (JString ''stop''))"
proof -
  have cmd: "line_command j = Some s \<longleftrightarrow> cJSON_GetObjectItem j ''cmd'' = Some (JString s)" for j s
    by (auto simp: line_command_def split: option.splits json.splits)
  have run: "run_command env cl c = Some (False, acts) \<longleftrightarrow> c = Some ''stop'' \<and> acts = []" for cl c
    by (auto simp: run_command_def)
  have "input_handler_process_line env line st = Returns (False, acts, st') \<longleftrightarrow> in_initialized st \<and> st' = st \<and>
      (\<exists>j. env_parse env line = Some j \<and> run_command env (in_clients st) (line_command j) = Some (False, acts))"
    by (auto simp: input_handler_process_line_def obind_Returns split: option.splits)
  then show ?thesis by (auto simp: run cmd)
qed

text \<open>
  An update whose local value happens to hold a non-zero word in place of the time stamp pointer
  has undefined behaviour: the current time is written through the uninitialised pointer.
\<close>

theorem wild_timestamp_write:
  assumes "input_wf st" "in_initialized st" "update_line env line (ty, ioa, q, x)"
    and "get_data_context (contexts_of st) ty = Some i" "dv_timestamp (env_stale env) \<noteq> 0"
  shows "input_handler_process_line env line st = Undefined"
proof -
  have cs: "contexts_wf (contexts_of st)" using assms(1) by (simp add: input_wf_def)
  have "process_update env ty ioa q x st = Undefined"
    using context_of_type(5) [OF cs assms(4)] assms(4,5)
    by (simp add: process_update_def convert_input_to_value_def Let_def)
  then show ?thesis
    using assms(2,3) by (auto simp: input_handler_process_line_def update_line_def line_command_def run_command_def
      split: option.splits)
qed

theorem wild_timestamp_write_witness: "input_handler_process_line (demo_env 1 4096) ''up'' demo_input = Undefined"
  using wild_timestamp_write [OF demo_input_wf demo_facts(1) demo_line demo_lookup, of 1 4096]
  by (simp add: demo_env_def)

text \<open>
  C21: an update of an untimed type whose number suits the type (with the uninitialised time stamp pointer NULL), while no client
  is connected, is queued for later exactly when it
  passes the deadband (every update of a type that is not a float does, changed or not) and the
  offline interval has passed since the last such report of the same point. The interval is \<open>offline_udt_time\<close> taken as
  seconds: the code compares milliseconds of the clock with 1000 times the configured number, computed in 32 bits, while the
  documents give that number in milliseconds. The one object queued
  has the time tagged type; only the time of this point is taken.
\<close>

theorem offline_update_queued:
  assumes "input_wf st" "in_initialized st" "env_ok env" "update_line env line (ty, ioa, q, x)" "update_ok env ty q x"
    and "get_data_context (contexts_of st) ty = Some i"
    and "convert_input_to_value (DATA_TYPE_TABLE ! i) x q (env_stale env) = Returns v"
    and "env_connections env \<le> 0" "\<not> dti_has_time_tag (DATA_TYPE_TABLE ! i)"
      "dti_offline_equivalent (DATA_TYPE_TABLE ! i) \<noteq> 0" "last_offline_update (contexts_of st ! i) = None"
    and "find_ioa_index (contexts_of st ! i) ioa = Some idx" "address_ok ioa"
    and "report \<longleftrightarrow> deadband_passed (deadband_M_ME_NC_1_percent (globals_of st)) (DATA_TYPE_TABLE ! i)
        (data_array (contexts_of st ! i) ! idx) v \<and>
      ucast (offline_udt_time (globals_of st) * 1000) \<le> env_now env - last_report (in_tracking st) ty idx"
  shows "\<exists>a io st'. input_handler_process_line env line st = Returns (True, if report then [EnqueueASDU a] else [], st') \<and>
    (report \<longrightarrow> io_for (offline_type (dti_offline_equivalent (DATA_TYPE_TABLE ! i))) ioa io \<and>
      spontaneous_of (env_params env) (ASDU_address (globals_of st)) io a) \<and>
    (\<forall>ty' n. ty' \<noteq> 0 \<longrightarrow> last_report (in_tracking st') ty' n =
      (if report \<and> ty' = ty \<and> n = idx then env_now env else last_report (in_tracking st) ty' n))"
proof -
  let ?c = "contexts_of st ! i" and ?info = "DATA_TYPE_TABLE ! i" and ?slave = "Some (env_connections env)"
  have cs: "contexts_wf (contexts_of st)" and tr: "tracking_wf (contexts_of st) (in_tracking st)"
    using assms(1) by (simp_all add: input_wf_def)
  note c = context_of_type [OF cs assms(6)]
  have mem: "?c \<in> set (contexts_of st)" using c(1) length_contexts [OF cs] by simp
  have conn: "\<not> is_client_connected ?slave" using assms(8) by (simp add: is_client_connected_def)
  have info: "dti_type_id ?info = ctx_type_id ?c" using c(2,3) by (simp add: ctx_wf_def)
  obtain off trs a io where k: "offline_check (globals_of st) ?slave (env_now env) ?info ?c ioa v (in_tracking st) = Returns (off, trs)"
    "process_update env ty ioa q x st = Returns (if fst (updated_point env st i ioa v) \<or> off then [EnqueueASDU a] else [],
                store i (snd (updated_point env st i ioa v)) trs st)"
    "io_for (report_type off ?info) ioa io"
    "spontaneous_of (env_params env) (ASDU_address (globals_of st)) io a"
    by (rule process_update_known [OF assms(1,3,5-7), of ioa]) (use assms(13) in blast)
  note r = offline_check_reports [OF cs tr mem c(2) assms(9,10) conn info assms(12) k(1)]
  have "\<not> fst (updated_point env st i ioa v)"
    using conn assms(11) by (simp add: update_data_reports)
  then have "process_update env ty ioa q x st = Returns (if off then [EnqueueASDU a] else [],
                store i (snd (updated_point env st i ioa v)) trs st)" using k(2) by simp
  moreover have "off = report" using r(1) assms(14) c(4) by simp
  ultimately show ?thesis
    using process_line_update [OF assms(2,4)] k(3,4) r(2) c(4) by (fastforce simp: report_type_def)
qed

theorem offline_update_queued_witness:
  "\<exists>a io st'. input_handler_process_line (demo_env 0 0) ''up'' demo_input = Returns (True, [EnqueueASDU a], st') \<and>
     io_for M_SP_TB_1 100 io \<and> spontaneous_of defaultAppLayerParameters 1 io a \<and> last_report (in_tracking st') M_SP_NA_1 0 = 5000"
proof -
  have t: "DATA_TYPE_TABLE ! 4 = dti M_SP_NA_1 ''M_SP_NA_1'' DATA_VALUE_TYPE_BOOL False True 4 M_SP_TB_1"
    by (simp add: DATA_TYPE_TABLE_def)
  have "deadband_passed d (DATA_TYPE_TABLE ! 4) a b" for d a b
    by (simp add: t dti_def deadband_passed_def)
  moreover have "last_offline_update (contexts_of demo_input ! 4) = None"
    using length_contexts [OF contexts_wf_init] by (simp add: demo_input_def configured_def init_context_def t dti_def)
  ultimately show ?thesis
    using offline_update_queued [OF demo_input_wf demo_facts(1) demo_env_ok demo_line demo_update_ok demo_lookup demo_conversion
      _ _ _ _ demo_index, of 0 True]
    by (simp add: t dti_def type_ids offline_type_def demo_facts address_ok_def)
      (elim exE conjE, intro exI conjI, assumption, assumption, assumption, simp add: demo_facts)
qed

end
