(* ===== verification/Ring_Layout.thy ===== *)
theory Ring_Layout
  imports Prelude
begin

text \<open>
  First-in first-out buffers with entries of different sizes, laid out one behind the other in a buffer
  that is used round and round, as both ASDU queues of the slave (\<open>cs104/cs104_slave.c\<close>) keep them:
  pointers to the first entry, to the last one and to the one at the highest address. The buffer is a
  map from addresses to the entries that start there; a write destroys every entry it overlaps. A queue
  is described by the list of its entries, each with its address.
\<close>

locale ring_layout =
  fixes esize :: "'e \<Rightarrow> nat"
  assumes esize_pos: "0 < esize e"
begin

definition span :: "(nat \<times> 'e) list \<Rightarrow> nat" where
  "span xs = sum_list (map (esize \<circ> snd) xs)"

lemma span_simps [simp]: "span [] = 0" "span (x # xs) = esize (snd x) + span xs" "span (xs @ ys) = span xs + span ys"
  by (simp_all add: span_def)

lemma span_pos: "xs \<noteq> [] \<Longrightarrow> 0 < span xs"
  using esize_pos by (cases xs) (simp_all add: trans_less_add1)

definition place :: "nat \<Rightarrow> 'e \<Rightarrow> (nat \<Rightarrow> 'e option) \<Rightarrow> nat \<Rightarrow> 'e option" where
  "place p e m = (\<lambda>q. if q = p then Some e
     else case m q of None \<Rightarrow> None
       | Some x \<Rightarrow> if q < p + esize e \<and> p < q + esize x then None else Some x)"

lemma place_same [simp]: "place p e m p = Some e"
  by (simp add: place_def)

text \<open>The entries lie one behind the other from the address \<open>p\<close> on.\<close>

fun chain :: "(nat \<Rightarrow> 'e option) \<Rightarrow> nat \<Rightarrow> (nat \<times> 'e) list \<Rightarrow> bool" where
  "chain m p [] \<longleftrightarrow> True"
| "chain m p ((a, e) # xs) \<longleftrightarrow> a = p \<and> m p = Some e \<and> chain m (p + esize e) xs"

lemma chain_append: "chain m p (xs @ ys) \<longleftrightarrow> chain m p xs \<and> chain m (p + span xs) ys"
  by (induction xs arbitrary: p) (auto simp: add.assoc)

lemma chain_hd: "chain m p xs \<Longrightarrow> xs \<noteq> [] \<Longrightarrow> fst (hd xs) = p"
  by (cases xs) auto

lemma chain_last: "chain m p xs \<Longrightarrow> xs \<noteq> [] \<Longrightarrow> fst (last xs) + esize (snd (last xs)) = p + span xs"
  by (induction xs rule: rev_induct) (auto simp: chain_append)

lemma chain_at: "chain m p xs \<Longrightarrow> (a, e) \<in> set xs \<Longrightarrow> m a = Some e \<and> p \<le> a \<and> a + esize e \<le> p + span xs"
proof (induction xs arbitrary: p)
  case (Cons x xs)
  then show ?case by (cases x) (fastforce simp: esize_pos)
qed simp

lemma chain_place:
  "chain m a xs \<Longrightarrow> p + esize e \<le> a \<or> a + span xs \<le> p \<Longrightarrow> chain (place p e m) a xs"
proof (induction xs arbitrary: a)
  case (Cons x xs)
  have "0 < esize (snd x)" "0 < esize e" by (simp_all add: esize_pos)
  then have "place p e m a = Some (snd x)" using Cons.prems by (cases x) (auto simp: place_def)
  moreover have "chain (place p e m) (a + esize (snd x)) xs" using Cons.prems by (intro Cons.IH) (cases x; auto)+
  ultimately show ?case using Cons.prems by (cases x) simp
qed simp

text \<open>Changing one entry in place, without changing its size.\<close>

definition put_back :: "nat \<Rightarrow> 'e \<Rightarrow> (nat \<times> 'e) list \<Rightarrow> (nat \<times> 'e) list" where
  "put_back p e' xs = map (\<lambda>(a, e). if a = p then (a, e') else (a, e)) xs"

lemma put_back_simps [simp]:
  "put_back p e [] = []" "put_back p e' ((a, e) # xs) = (if a = p then (a, e') else (a, e)) # put_back p e' xs"
  "put_back p e (xs @ ys) = put_back p e xs @ put_back p e ys" "length (put_back p e xs) = length xs"
  "put_back p e xs = [] \<longleftrightarrow> xs = []" "map fst (put_back p e xs) = map fst xs"
  by (auto simp: put_back_def case_prod_beta)

lemma fst_put_back: "xs \<noteq> [] \<Longrightarrow> fst (hd (put_back p e xs)) = fst (hd xs) \<and> fst (last (put_back p e xs)) = fst (last xs)"
  by (auto simp: put_back_def hd_map last_map case_prod_beta)

lemma span_put_back: "chain m a xs \<Longrightarrow> m p = Some e \<Longrightarrow> esize e' = esize e \<Longrightarrow> span (put_back p e' xs) = span xs"
  by (induction m a xs rule: chain.induct) auto

lemma chain_put_back:
  "chain m a xs \<Longrightarrow> m p = Some e \<Longrightarrow> esize e' = esize e \<Longrightarrow> chain (m(p \<mapsto> e')) a (put_back p e' xs)"
  by (induction m a xs rule: chain.induct) (auto simp: fun_upd_def)

text \<open>
  The layout of a non-empty queue: the older entries \<open>A\<close> from the first entry up to the one at the highest
  address, then, when the buffer has been used round, the newer ones \<open>B\<close> from the start of the buffer.
\<close>

definition layout :: "(nat \<Rightarrow> 'e option) \<Rightarrow> nat \<Rightarrow> (nat \<times> 'e) list \<Rightarrow> (nat \<times> 'e) list \<Rightarrow> bool" where
  "layout m sz A B \<longleftrightarrow> A \<noteq> [] \<and> chain m (fst (hd A)) A \<and> fst (hd A) + span A \<le> sz \<and>
     chain m 0 B \<and> span B \<le> fst (hd A)"

lemma layout_at: "layout m sz A B \<Longrightarrow> (a, e) \<in> set (A @ B) \<Longrightarrow> m a = Some e"
  using chain_at by (fastforce simp: layout_def)

lemma layout_end:
  assumes "layout m sz A B"
  shows "fst (last (A @ B)) + esize (snd (last (A @ B))) = (if B = [] then fst (hd A) + span A else span B)"
  using assms chain_last [of m "fst (hd A)" A] chain_last [of m 0 B] by (simp add: layout_def)

text \<open>Which comparisons of addresses tell the cases apart.\<close>

lemma layout_round_iff:
  assumes "layout m sz A B"
  shows "fst (last (A @ B)) + esize (snd (last (A @ B))) \<le> fst (hd A) \<longleftrightarrow> B \<noteq> []"
  using layout_end [OF assms] assms span_pos [of A] by (auto simp: layout_def)

lemma chain_single_iff:
  assumes "chain m p (x # xs)"
  shows "fst (last (x # xs)) = p \<longleftrightarrow> xs = []"
proof (cases "xs = []")
  case False
  then have "last (x # xs) \<in> set xs" by simp
  moreover have "chain m (p + esize (snd x)) xs" using assms by (cases x) simp
  ultimately have "p + esize (snd x) \<le> fst (last (x # xs))"
    using chain_at [of m "p + esize (snd x)" xs "fst (last (x # xs))" "snd (last (x # xs))"] by simp
  then show ?thesis using False esize_pos [of "snd x"] by auto
qed (use assms in \<open>cases x; simp\<close>)

lemma layout_highest_iff: "layout m sz (x # A) B \<Longrightarrow> fst x = fst (last (x # A)) \<longleftrightarrow> A = []"
  using chain_single_iff [of m "fst x" x A] by (auto simp: layout_def)

lemma layout_last_iff: "layout m sz (x # A) B \<Longrightarrow> fst x = fst (last (x # A @ B)) \<longleftrightarrow> A = [] \<and> B = []"
proof -
  assume l: "layout m sz (x # A) B"
  show ?thesis
  proof (cases "B = []")
    case True
    then show ?thesis using layout_highest_iff [OF l] by simp
  next
    case False
    then have "fst (last (x # A @ B)) + esize (snd (last (x # A @ B))) \<le> fst x"
      using layout_round_iff [OF l] by simp
    then have "fst (last (x # A @ B)) < fst x"
      using esize_pos [of "snd (last (x # A @ B))"] by linarith
    with False show ?thesis by simp
  qed
qed

text \<open>Removing the oldest entry.\<close>

lemma layout_advance:
  assumes "layout m sz (x # A) B" "A \<noteq> []"
  shows "layout m sz A B" "fst (hd A) = fst x + esize (snd x)"
proof -
  have c: "chain m (fst x + esize (snd x)) A" using assms by (cases x) (simp add: layout_def)
  show "fst (hd A) = fst x + esize (snd x)" using chain_hd [OF c assms(2)] .
  then show "layout m sz A B" using c assms by (auto simp: layout_def)
qed

lemma layout_round:
  assumes "layout m sz A B" "B \<noteq> []"
  shows "layout m sz B []" "fst (hd B) = 0"
proof -
  show "fst (hd B) = 0" using assms chain_hd [of m 0 B] by (simp add: layout_def)
  then show "layout m sz B []" using assms by (auto simp: layout_def)
qed

text \<open>Appending an entry: at the start of an empty buffer, behind the last entry, or round at the start.\<close>

lemma layout_single: "esize e \<le> sz \<Longrightarrow> layout (place 0 e m) sz [(0, e)] []"
  by (simp add: layout_def)

lemma layout_behind:
  assumes "layout m sz A []" "fst (hd A) + span A + esize e \<le> sz"
  shows "layout (place (fst (hd A) + span A) e m) sz (A @ [(fst (hd A) + span A, e)]) []"
proof -
  have "chain (place (fst (hd A) + span A) e m) (fst (hd A)) A"
    using assms by (intro chain_place) (simp_all add: layout_def)
  then show ?thesis using assms by (simp add: layout_def chain_append)
qed

lemma layout_behind_round:
  assumes "layout m sz A B" "span B + esize e \<le> fst (hd A)"
  shows "layout (place (span B) e m) sz A (B @ [(span B, e)])"
proof -
  have "chain (place (span B) e m) (fst (hd A)) A" "chain (place (span B) e m) 0 B"
    using assms by (auto intro!: chain_place simp: layout_def)
  then show ?thesis using assms by (simp add: layout_def chain_append)
qed

lemma layout_put_back:
  assumes "layout m sz A B" "m p = Some e" "esize e' = esize e"
  shows "layout (m(p \<mapsto> e')) sz (put_back p e' A) (put_back p e' B)"
  using assms(1) chain_put_back [of m _ _ p e e', OF _ assms(2,3)] span_put_back [of m "fst (hd A)" A p e e', OF _ assms(2,3)]
    span_put_back [of m 0 B p e e', OF _ assms(2,3)]
    fst_put_back [of A p e'] by (simp add: layout_def)

text \<open>The addresses of the entries are distinct.\<close>

lemma chain_distinct: "chain m p xs \<Longrightarrow> distinct (map fst xs)"
proof (induction xs arbitrary: p)
  case (Cons x xs)
  then have c: "chain m (p + esize (snd x)) xs" "fst x = p" by (cases x; simp)+
  have "fst x \<notin> fst ` set xs"
  proof
    assume "fst x \<in> fst ` set xs"
    then obtain e where "(p, e) \<in> set xs" using c(2) by force
    then show False using chain_at [OF c(1)] esize_pos [of "snd x"] by fastforce
  qed
  then show ?case using Cons.IH [OF c(1)] by simp
qed simp

lemma layout_distinct:
  assumes "layout m sz A B"
  shows "distinct (map fst (A @ B))"
proof -
  have "a < fst (hd A)" if "(a, e) \<in> set B" for a e
    using that chain_at [of m 0 B a e] assms esize_pos [of e] by (auto simp: layout_def)
  moreover have "fst (hd A) \<le> a" if "(a, e) \<in> set A" for a e
    using that chain_at [of m "fst (hd A)" A a e] assms by (auto simp: layout_def)
  ultimately have "fst ` set A \<inter> fst ` set B = {}" by fastforce
  then show ?thesis using assms chain_distinct by (auto simp: layout_def)
qed

end

end
