(* ===== verification/Message_Queue.thy ===== *)
theory Message_Queue
  imports Effects Ring_Layout
begin

text \<open>
  The queue of events of the slave (\<open>MessageQueue\<close> of \<open>cs104/cs104_slave.c\<close>): ASDUs that wait for
  transmission or for their confirmation, in a buffer used round and round, where a new event drops
  the oldest ones when there is no room. The specification is a list of entries with their states.
\<close>

section \<open>State\<close>

datatype entry_state =
    QUEUE_ENTRY_STATE_NOT_USED_OR_CONFIRMED
  | QUEUE_ENTRY_STATE_WAITING_FOR_TRANSMISSION
  | QUEUE_ENTRY_STATE_SENT_BUT_NOT_CONFIRMED

text \<open>An entry is its information (16 bytes) and the encoded ASDU behind it.\<close>

record queue_entry =
  qe_entryId :: u64
  qe_entryState :: entry_state
  qe_asdu :: bytes

definition entry_info_size :: nat where "entry_info_size = 16"

definition entry_size :: "queue_entry \<Rightarrow> nat" where
  "entry_size e = entry_info_size + length (qe_asdu e)"

text \<open>Pointers are offsets into the buffer, None is NULL.\<close>

record message_queue =
  mq_size :: nat
  mq_entryCounter :: int
  mq_firstEntry :: "nat option"
  mq_lastEntry :: "nat option"
  mq_lastInBufferEntry :: "nat option"
  mq_entryId :: u64
  mq_buffer :: "nat \<Rightarrow> queue_entry option"

definition MessageQueue_initialize :: "message_queue \<Rightarrow> message_queue" where
  "MessageQueue_initialize q = q\<lparr>mq_entryCounter := 0, mq_firstEntry := None, mq_lastEntry := None,
     mq_lastInBufferEntry := None, mq_entryId := 1\<rparr>"

definition MessageQueue_create :: "nat \<Rightarrow> message_queue" where
  "MessageQueue_create maxQueueSize = MessageQueue_initialize
     \<lparr>mq_size = maxQueueSize * (entry_info_size + 256), mq_entryCounter = 0, mq_firstEntry = None,
      mq_lastEntry = None, mq_lastInBufferEntry = None, mq_entryId = 0, mq_buffer = (\<lambda>p. None)\<rparr>"

definition MessageQueue_getEntryCount :: "message_queue \<Rightarrow> int" where
  "MessageQueue_getEntryCount q = mq_entryCounter q"

definition MessageQueue_isAsduAvailable :: "message_queue \<Rightarrow> bool" where
  "MessageQueue_isAsduAvailable q \<longleftrightarrow> mq_entryCounter q > 0"

definition MessageQueue_releaseAllQueuedASDUs :: "message_queue \<Rightarrow> message_queue" where
  "MessageQueue_releaseAllQueuedASDUs q = q\<lparr>mq_firstEntry := None, mq_lastEntry := None,
     mq_lastInBufferEntry := None, mq_entryCounter := 0\<rparr>"

text \<open>
  Reading an entry through a pointer: NULL, or an address where no entry starts any more, is
  undefined. Loops are partial functions; one that does not end has the outcome \<open>Diverges\<close>.
\<close>

definition deref :: "message_queue \<Rightarrow> nat option \<Rightarrow> (nat \<times> queue_entry) outcome" where
  "deref q ptr = (case ptr of None \<Rightarrow> Undefined
     | Some p \<Rightarrow> (case mq_buffer q p of None \<Rightarrow> Undefined | Some e \<Rightarrow> Returns (p, e)))"

fun run_loop :: "'a outcome option \<Rightarrow> 'a outcome" where
  "run_loop None = Diverges"
| "run_loop (Some r) = r"

text \<open>The address of the next entry on the way from the first to the last one.\<close>

definition next_entry :: "message_queue \<Rightarrow> nat \<Rightarrow> queue_entry \<Rightarrow> nat" where
  "next_entry q p e = (if mq_lastInBufferEntry q = Some p then 0 else p + entry_size e)"

section \<open>Enqueueing\<close>

partial_function (option) count_until_end :: "message_queue \<Rightarrow> nat \<Rightarrow> int \<Rightarrow> int outcome option" where
  "count_until_end q p count =
     (case mq_buffer q p of None \<Rightarrow> Some Undefined
      | Some e \<Rightarrow> if mq_lastInBufferEntry q = Some p then Some (Returns (count + 1))
                  else count_until_end q (p + entry_size e) (count + 1))"

definition MessageQueue_countEntriesUntilEndOfBuffer :: "message_queue \<Rightarrow> nat \<Rightarrow> int outcome" where
  "MessageQueue_countEntriesUntilEndOfBuffer q firstEntry = run_loop (count_until_end q firstEntry 0)"

text \<open>Dropping old entries until the new one fits before the first entry.\<close>

partial_function (option) make_room :: "nat \<Rightarrow> nat \<Rightarrow> message_queue \<Rightarrow> message_queue outcome option" where
  "make_room nextMsgPtr entrySize q =
     (case mq_firstEntry q of None \<Rightarrow> Some Undefined
      | Some first \<Rightarrow>
          if nextMsgPtr + entrySize > first \<and> mq_entryCounter q > 0 then
            if mq_lastInBufferEntry q = Some first then
              Some (Returns (q\<lparr>mq_entryCounter := mq_entryCounter q - 1, mq_firstEntry := Some 0,
                mq_lastInBufferEntry := Some nextMsgPtr\<rparr>))
            else (case mq_buffer q first of None \<Rightarrow> Some Undefined
              | Some e \<Rightarrow> make_room nextMsgPtr entrySize
                  (q\<lparr>mq_entryCounter := mq_entryCounter q - 1, mq_firstEntry := Some (first + entry_size e)\<rparr>))
          else Some (Returns q))"

text \<open>The address for the new entry behind the last one, or at the start of the buffer.\<close>

definition choose_slot :: "nat \<Rightarrow> nat \<Rightarrow> nat \<Rightarrow> queue_entry \<Rightarrow> message_queue \<Rightarrow> (nat \<times> nat \<times> message_queue) outcome" where
  "choose_slot entrySize first lst e q =
     (let nextMsgPtr = lst + entry_size e
      in if nextMsgPtr + entrySize > mq_size q then
           obind (if nextMsgPtr \<le> first then
                    obind (MessageQueue_countEntriesUntilEndOfBuffer q first) (\<lambda>n.
                      Returns (0, q\<lparr>mq_entryCounter := mq_entryCounter q - n, mq_firstEntry := Some 0\<rparr>))
                  else Returns (first, q))
             (\<lambda>(first, q). Returns (0, first,
                if lst > first then q\<lparr>mq_lastInBufferEntry := Some lst\<rparr> else q))
         else Returns (nextMsgPtr, first, q))"

definition find_slot :: "nat \<Rightarrow> message_queue \<Rightarrow> (nat \<times> message_queue) outcome" where
  "find_slot entrySize q =
     (if mq_entryCounter q = 0 then
        Returns (0, q\<lparr>mq_firstEntry := Some 0, mq_lastInBufferEntry := Some 0\<rparr>)
      else obind (deref q (mq_lastEntry q)) (\<lambda>(lst, e).
        case mq_firstEntry q of None \<Rightarrow> Undefined
        | Some first \<Rightarrow>
            obind (choose_slot entrySize first lst e q) (\<lambda>(nextMsgPtr, first, q).
              if nextMsgPtr \<le> first then
                obind (run_loop (make_room nextMsgPtr entrySize q)) (\<lambda>q. Returns (nextMsgPtr, q))
              else Returns (nextMsgPtr, q))))"

text \<open>Writing an entry destroys those it overlaps.\<close>

definition write_entry :: "nat \<Rightarrow> queue_entry \<Rightarrow> message_queue \<Rightarrow> message_queue" where
  "write_entry p e q = q\<lparr>mq_buffer := (\<lambda>p'. if p' = p then Some e
     else case mq_buffer q p' of None \<Rightarrow> None
       | Some x \<Rightarrow> if p' < p + entry_size e \<and> p < p' + entry_size x then None else Some x)\<rparr>"

definition asdu_bytes :: "asdu \<Rightarrow> bytes" where
  "asdu_bytes a = asdu_header a @ asdu_payload a"

definition append_entry :: "nat \<Rightarrow> asdu \<Rightarrow> message_queue \<Rightarrow> message_queue" where
  "append_entry nextMsgPtr a q =
     (let q = q\<lparr>mq_lastEntry := Some nextMsgPtr\<rparr>;
          q = (case mq_lastInBufferEntry q of None \<Rightarrow> q
               | Some h \<Rightarrow> if nextMsgPtr > h then q\<lparr>mq_lastInBufferEntry := Some nextMsgPtr\<rparr> else q);
          q = q\<lparr>mq_entryCounter := mq_entryCounter q + 1\<rparr>;
          e = \<lparr>qe_entryId = mq_entryId q, qe_entryState = QUEUE_ENTRY_STATE_WAITING_FOR_TRANSMISSION,
               qe_asdu = asdu_bytes a\<rparr>
      in write_entry nextMsgPtr e (q\<lparr>mq_entryId := mq_entryId q + 1\<rparr>))"

definition MessageQueue_enqueueASDU :: "asdu \<Rightarrow> message_queue \<Rightarrow> message_queue outcome" where
  "MessageQueue_enqueueASDU a q =
     (let asduSize = length (asdu_header a) + length (asdu_payload a)
      in if asduSize > 256 - 6 then Returns q
         else obind (find_slot (entry_info_size + asduSize) q)
           (\<lambda>(nextMsgPtr, q). Returns (append_entry nextMsgPtr a q)))"

section \<open>Sending and confirming\<close>

text \<open>A state is written back into the entry, which keeps its size.\<close>

definition set_state :: "nat \<Rightarrow> queue_entry \<Rightarrow> entry_state \<Rightarrow> message_queue \<Rightarrow> message_queue" where
  "set_state p e s q = q\<lparr>mq_buffer := (mq_buffer q)(p \<mapsto> e\<lparr>qe_entryState := s\<rparr>)\<rparr>"

partial_function (option) find_waiting :: "message_queue \<Rightarrow> nat \<Rightarrow> (nat \<times> queue_entry) outcome option" where
  "find_waiting q p =
     (case mq_buffer q p of None \<Rightarrow> Some Undefined
      | Some e \<Rightarrow>
          if qe_entryState e \<noteq> QUEUE_ENTRY_STATE_WAITING_FOR_TRANSMISSION \<and> mq_lastEntry q \<noteq> Some p
          then find_waiting q (next_entry q p e) else Some (Returns (p, e)))"

text \<open>The next event to send, with its identifier, its address and its ASDU.\<close>

definition MessageQueue_getNextWaitingASDU ::
    "message_queue \<Rightarrow> ((u64 \<times> nat \<times> bytes) option \<times> message_queue) outcome" where
  "MessageQueue_getNextWaitingASDU q =
     (if mq_entryCounter q = 0 then Returns (None, q)
      else case mq_firstEntry q of None \<Rightarrow> Undefined
        | Some first \<Rightarrow> obind (run_loop (find_waiting q first)) (\<lambda>(p, e).
            if qe_entryState e = QUEUE_ENTRY_STATE_WAITING_FOR_TRANSMISSION
            then Returns (Some (qe_entryId e, p, qe_asdu e),
                   set_state p e QUEUE_ENTRY_STATE_SENT_BUT_NOT_CONFIRMED q)
            else Returns (None, q)))"

partial_function (option) reset_states :: "nat \<Rightarrow> message_queue \<Rightarrow> message_queue outcome option" where
  "reset_states p q =
     (case mq_buffer q p of None \<Rightarrow> Some Undefined
      | Some e \<Rightarrow>
          let q = (if qe_entryState e = QUEUE_ENTRY_STATE_SENT_BUT_NOT_CONFIRMED
                   then set_state p e QUEUE_ENTRY_STATE_WAITING_FOR_TRANSMISSION q else q)
          in if mq_lastEntry q = Some p then Some (Returns q) else reset_states (next_entry q p e) q)"

definition MessageQueue_setWaitingForTransmissionWhenNotConfirmed :: "message_queue \<Rightarrow> message_queue outcome" where
  "MessageQueue_setWaitingForTransmissionWhenNotConfirmed q =
     (if mq_entryCounter q = 0 then Returns q
      else case mq_firstEntry q of None \<Rightarrow> Returns q | Some first \<Rightarrow> run_loop (reset_states first q))"

definition removeFirstEntry :: "message_queue \<Rightarrow> message_queue outcome" where
  "removeFirstEntry q =
     obind (if mq_firstEntry q = mq_lastInBufferEntry q then
              Returns (if mq_firstEntry q = mq_lastEntry q
                then q\<lparr>mq_firstEntry := None, mq_lastEntry := None, mq_lastInBufferEntry := None\<rparr>
                else q\<lparr>mq_firstEntry := Some 0, mq_lastInBufferEntry := mq_lastEntry q\<rparr>)
            else obind (deref q (mq_firstEntry q)) (\<lambda>(p, e). Returns (q\<lparr>mq_firstEntry := Some (p + entry_size e)\<rparr>)))
       (\<lambda>q. Returns (q\<lparr>mq_entryCounter := mq_entryCounter q - 1\<rparr>))"

definition MessageQueue_markAsduAsConfirmed :: "nat \<Rightarrow> u64 \<Rightarrow> message_queue \<Rightarrow> message_queue outcome" where
  "MessageQueue_markAsduAsConfirmed queueEntry entryId q =
     (if mq_entryCounter q > 0 \<and> uint (mq_entryId q - 1 - entryId) < mq_entryCounter q then
        obind (deref q (Some queueEntry)) (\<lambda>(p, e).
          if qe_entryId e = entryId then
            let q = set_state p e QUEUE_ENTRY_STATE_NOT_USED_OR_CONFIRMED q
            in if mq_firstEntry q = Some queueEntry then removeFirstEntry q else Returns q
          else Returns q)
      else Returns q)"

end
