(* ===== verification/High_Prio_Queue.thy ===== *)
theory High_Prio_Queue
  imports Message_Queue
begin

text \<open>
  The queue of responses of a connection (\<open>HighPriorityASDUQueue\<close> in \<open>cs104/cs104_slave.c\<close>): the encoded
  ASDUs with their sizes, laid out in a byte buffer that is used round. The buffer is a map from addresses
  to the entries that start there, and writing an entry destroys those it overlaps; \<open>Undefined\<close> is a
  read at an address where no entry starts (in C, whatever bytes are there are taken for a size). Every operation runs
  under the lock of the queue, so it is one step.
\<close>

section \<open>State\<close>

record high_prio_queue =
  hp_size :: nat
  hp_entryCounter :: int
  hp_firstEntry :: "nat option"
  hp_lastEntry :: "nat option"
  hp_lastInBufferEntry :: "nat option"
  hp_buffer :: "nat \<Rightarrow> bytes option"

text \<open>An entry is its size (two bytes) and the encoded ASDU behind it.\<close>

definition message_size :: "bytes \<Rightarrow> nat" where
  "message_size bs = 2 + length bs"

definition HighPriorityASDUQueue_initialize :: "high_prio_queue \<Rightarrow> high_prio_queue" where
  "HighPriorityASDUQueue_initialize q = q\<lparr>hp_entryCounter := 0, hp_firstEntry := None, hp_lastEntry := None,
     hp_lastInBufferEntry := None\<rparr>"

definition HighPriorityASDUQueue_create :: "nat \<Rightarrow> high_prio_queue" where
  "HighPriorityASDUQueue_create maxQueueSize = HighPriorityASDUQueue_initialize
     \<lparr>hp_size = maxQueueSize * (2 + 256), hp_entryCounter = 0, hp_firstEntry = None, hp_lastEntry = None,
      hp_lastInBufferEntry = None, hp_buffer = (\<lambda>p. None)\<rparr>"

definition HighPriorityASDUQueue_isAsduAvailable :: "high_prio_queue \<Rightarrow> bool" where
  "HighPriorityASDUQueue_isAsduAvailable q \<longleftrightarrow> hp_entryCounter q > 0"

definition HighPriorityASDUQueue_resetConnectionQueue :: "high_prio_queue \<Rightarrow> high_prio_queue" where
  "HighPriorityASDUQueue_resetConnectionQueue q = HighPriorityASDUQueue_initialize q"

definition hp_deref :: "high_prio_queue \<Rightarrow> nat option \<Rightarrow> (nat \<times> bytes) outcome" where
  "hp_deref q ptr = (case ptr of None \<Rightarrow> Undefined
     | Some p \<Rightarrow> (case hp_buffer q p of None \<Rightarrow> Undefined | Some bs \<Rightarrow> Returns (p, bs)))"

section \<open>Operations\<close>

definition HighPriorityASDUQueue_getNextASDU :: "high_prio_queue \<Rightarrow> (bytes option \<times> high_prio_queue) outcome" where
  "HighPriorityASDUQueue_getNextASDU q =
     (if hp_entryCounter q > 0 then
        let q = q\<lparr>hp_entryCounter := hp_entryCounter q - 1\<rparr>
        in obind (hp_deref q (hp_firstEntry q)) (\<lambda>(p, bs). Returns (Some bs,
             if hp_entryCounter q > 0 then
               if hp_firstEntry q = hp_lastEntry q then
                 q\<lparr>hp_firstEntry := None, hp_lastEntry := None, hp_lastInBufferEntry := None\<rparr>
               else if hp_firstEntry q = hp_lastInBufferEntry q then
                 q\<lparr>hp_firstEntry := Some 0, hp_lastInBufferEntry := hp_lastEntry q\<rparr>
               else q\<lparr>hp_firstEntry := Some (p + message_size bs)\<rparr>
             else q))
      else Returns (None, q))"

definition HighPriorityASDUQueue_isFull :: "high_prio_queue \<Rightarrow> bool outcome" where
  "HighPriorityASDUQueue_isFull q =
     (let entrySize = 2 + (256 - 6)
      in if hp_entryCounter q > 0 then
           obind (hp_deref q (hp_lastEntry q)) (\<lambda>(lst, bs).
             let nextMsgPtr = lst + message_size bs;
                 nextMsgPtr = (if nextMsgPtr + entrySize > hp_size q then 0 else nextMsgPtr)
             in case hp_firstEntry q of None \<Rightarrow> Undefined
                | Some first \<Rightarrow> Returns (nextMsgPtr \<le> first \<and> nextMsgPtr + entrySize > first))
         else Returns False)"

text \<open>
  The address for a new entry. When it does not fit behind the last entry it goes to the start of the
  buffer, and the last entry is taken for the one at the highest address, even if the buffer has been
  used round already.
\<close>

definition hp_slot :: "nat \<Rightarrow> high_prio_queue \<Rightarrow> (nat \<times> high_prio_queue) outcome" where
  "hp_slot entrySize q =
     obind (if hp_entryCounter q = 0 then
              Returns (0, q\<lparr>hp_firstEntry := Some 0, hp_lastInBufferEntry := Some 0\<rparr>)
            else obind (hp_deref q (hp_lastEntry q)) (\<lambda>(lst, bs). Returns (lst + message_size bs, q)))
       (\<lambda>(nextMsgPtr, q). Returns
         (if nextMsgPtr + entrySize > hp_size q then (0, q\<lparr>hp_lastInBufferEntry := hp_lastEntry q\<rparr>)
          else (nextMsgPtr, q)))"

definition hp_write :: "nat \<Rightarrow> bytes \<Rightarrow> high_prio_queue \<Rightarrow> high_prio_queue" where
  "hp_write p bs q = q\<lparr>hp_buffer := (\<lambda>p'. if p' = p then Some bs
     else case hp_buffer q p' of None \<Rightarrow> None
       | Some x \<Rightarrow> if p' < p + message_size bs \<and> p < p' + message_size x then None else Some x)\<rparr>"

definition HighPriorityASDUQueue_enqueue :: "asdu \<Rightarrow> high_prio_queue \<Rightarrow> (bool \<times> high_prio_queue) outcome" where
  "HighPriorityASDUQueue_enqueue a q =
     (let asduSize = length (asdu_header a) + length (asdu_payload a); entrySize = 2 + asduSize
      in if asduSize > 256 - 6 then Returns (False, q)
         else obind (hp_slot entrySize q) (\<lambda>(nextMsgPtr, q).
           obind (if hp_entryCounter q > 0 then
                    case hp_firstEntry q of None \<Rightarrow> Undefined
                    | Some first \<Rightarrow> Returns
                        (if nextMsgPtr \<le> first then (\<not> nextMsgPtr + entrySize > first, q)
                         else (True, q\<lparr>hp_lastInBufferEntry := Some nextMsgPtr\<rparr>))
                  else Returns (True, q))
             (\<lambda>(enqueued, q). Returns (enqueued,
                if enqueued then hp_write nextMsgPtr (asdu_bytes a)
                  (q\<lparr>hp_lastEntry := Some nextMsgPtr, hp_entryCounter := hp_entryCounter q + 1\<rparr>)
                else q))))"

section \<open>The specification\<close>

interpretation responses: ring_layout message_size
  by unfold_locales (simp add: message_size_def)

lemma hp_write_place: "hp_buffer (hp_write p bs q) = responses.place p bs (hp_buffer q)"
  by (simp add: hp_write_def responses.place_def fun_eq_iff split: option.splits)

definition hp_holds :: "high_prio_queue \<Rightarrow> (nat \<times> bytes) list \<Rightarrow> (nat \<times> bytes) list \<Rightarrow> bool" where
  "hp_holds q A B \<longleftrightarrow> 252 \<le> hp_size q \<and> hp_entryCounter q = int (length (A @ B)) \<and>
     (A = [] \<and> B = [] \<or> responses.layout (hp_buffer q) (hp_size q) A B \<and> hp_firstEntry q = Some (fst (hd A)) \<and>
        hp_lastEntry q = Some (fst (last (A @ B))) \<and> hp_lastInBufferEntry q = Some (fst (last A)))"

text \<open>The new entry of \<open>n\<close> bytes fits behind a queue that is used round, or the queue is not.\<close>

definition round_room :: "high_prio_queue \<Rightarrow> (nat \<times> bytes) list \<Rightarrow> nat \<Rightarrow> bool" where
  "round_room q B n \<longleftrightarrow> B = [] \<or> responses.span B + (2 + n) \<le> hp_size q"

definition contents :: "(nat \<times> bytes) list \<Rightarrow> (nat \<times> bytes) list \<Rightarrow> bytes list" where
  "contents A B = map snd (A @ B)"

lemma hp_next_spec:
  assumes "hp_holds q A B"
  shows "\<exists>q' A' B'. HighPriorityASDUQueue_getNextASDU q =
      Returns (case contents A B of [] \<Rightarrow> None | bs # _ \<Rightarrow> Some bs, q') \<and>
    hp_holds q' A' B' \<and> contents A' B' = tl (contents A B)"
proof (cases A)
  case Nil
  then have "B = []" using assms by (auto simp: hp_holds_def responses.layout_def)
  then show ?thesis using Nil assms
    by (intro exI [of _ q] exI [of _ "[]"]) (simp add: HighPriorityASDUQueue_getNextASDU_def hp_holds_def contents_def)
next
  case (Cons x A')
  have l: "responses.layout (hp_buffer q) (hp_size q) (x # A') B" and first: "hp_firstEntry q = Some (fst x)"
    and lst: "hp_lastEntry q = Some (fst (last (x # A' @ B)))" and high: "hp_lastInBufferEntry q = Some (fst (last (x # A')))"
    and count: "hp_entryCounter q = 1 + int (length (A' @ B))" and sz: "252 \<le> hp_size q"
    using assms Cons by (simp_all add: hp_holds_def)
  have at: "hp_buffer q (fst x) = Some (snd x)" using responses.layout_at [OF l, of "fst x" "snd x"] by simp
  have is_last: "fst x = fst (last (x # A' @ B)) \<longleftrightarrow> A' = [] \<and> B = []" using responses.layout_last_iff [OF l] .
  have is_high: "fst x = fst (last (x # A')) \<longleftrightarrow> A' = []" using responses.layout_highest_iff [OF l] .
  let ?q = "q\<lparr>hp_entryCounter := int (length (A' @ B))\<rparr>"
  have bs: "(case contents A B of [] \<Rightarrow> None | bs # _ \<Rightarrow> Some bs) = Some (snd x)" "tl (contents A B) = map snd (A' @ B)"
    using Cons by (simp_all add: contents_def)
  consider "A' = []" "B = []" | "A' = []" "B \<noteq> []" | "A' \<noteq> []" by blast
  then show ?thesis
  proof cases
    case 1
    then have "HighPriorityASDUQueue_getNextASDU q = Returns (Some (snd x), ?q)"
      using first at count by (cases x) (simp add: HighPriorityASDUQueue_getNextASDU_def hp_deref_def)
    moreover have "hp_holds ?q [] []" using 1 sz by (simp add: hp_holds_def)
    ultimately show ?thesis using bs 1 by (intro exI [of _ ?q] exI [of _ "[]"]) (simp add: contents_def)
  next
    case 2
    let ?r = "?q\<lparr>hp_firstEntry := Some 0, hp_lastInBufferEntry := hp_lastEntry q\<rparr>"
    have "HighPriorityASDUQueue_getNextASDU q = Returns (Some (snd x), ?r)"
      using first at count lst high is_last 2
      by (cases x) (simp add: HighPriorityASDUQueue_getNextASDU_def hp_deref_def Let_def)
    moreover have "hp_holds ?r B []"
      using responses.layout_round [OF l 2(2)] 2 sz lst by (simp add: hp_holds_def)
    ultimately show ?thesis using bs 2 by (intro exI [of _ ?r] exI [of _ B] exI [of _ "[]"]) (simp add: contents_def)
  next
    case 3
    have pos: "0 < int (length A') + int (length B)" using 3 by (cases A') simp_all
    let ?r = "?q\<lparr>hp_firstEntry := Some (fst x + message_size (snd x))\<rparr>"
    have "HighPriorityASDUQueue_getNextASDU q = Returns (Some (snd x), ?r)"
      using first at count lst high is_last is_high 3 pos
      by (cases x) (simp add: HighPriorityASDUQueue_getNextASDU_def hp_deref_def Let_def)
    moreover have "hp_holds ?r A' B"
      using responses.layout_advance [OF l 3] 3 sz lst high by (simp add: hp_holds_def)
    ultimately show ?thesis using bs by (intro exI [of _ ?r] exI [of _ A'] exI [of _ B]) (simp add: contents_def)
  qed
qed

text \<open>Where a new entry of \<open>n\<close> bytes has room.\<close>

definition has_room :: "high_prio_queue \<Rightarrow> (nat \<times> bytes) list \<Rightarrow> (nat \<times> bytes) list \<Rightarrow> nat \<Rightarrow> bool" where
  "has_room q A B n \<longleftrightarrow> A = [] \<or>
     (if B = [] then fst (hd A) + responses.span A + (2 + n) \<le> hp_size q \<or> 2 + n \<le> fst (hd A)
      else responses.span B + (2 + n) \<le> fst (hd A))"

lemma message_size_bytes: "message_size (asdu_bytes a) = 2 + (length (asdu_header a) + length (asdu_payload a))"
  by (simp add: message_size_def asdu_bytes_def)

lemma hp_write_simps [simp]:
  "hp_size (hp_write p bs q) = hp_size q" "hp_entryCounter (hp_write p bs q) = hp_entryCounter q"
  "hp_firstEntry (hp_write p bs q) = hp_firstEntry q" "hp_lastEntry (hp_write p bs q) = hp_lastEntry q"
  "hp_lastInBufferEntry (hp_write p bs q) = hp_lastInBufferEntry q"
  by (simp_all add: hp_write_def)

lemma hp_enqueue_spec:
  assumes q: "hp_holds q A B" and len: "length (asdu_bytes a) \<le> 250" and room: "round_room q B (length (asdu_bytes a))"
  shows "\<exists>q' A' B'. HighPriorityASDUQueue_enqueue a q = Returns (has_room q A B (length (asdu_bytes a)), q') \<and>
    hp_holds q' A' B' \<and> hp_size q' = hp_size q \<and>
    contents A' B' = contents A B @ (if has_room q A B (length (asdu_bytes a)) then [asdu_bytes a] else [])"
proof -
  define bs where "bs = asdu_bytes a"
  define n where "n = 2 + (length (asdu_header a) + length (asdu_payload a))"
  have n: "n = message_size bs" "n \<le> 252" "n = 2 + length bs" "0 < n" and short: "\<not> length (asdu_header a) + length (asdu_payload a) > 256 - 6"
    using len by (simp_all add: n_def bs_def message_size_def asdu_bytes_def)
  have sz: "252 \<le> hp_size q" using q by (simp add: hp_holds_def)
  have en: "HighPriorityASDUQueue_enqueue a q = obind (hp_slot n q) (\<lambda>(p, q). obind
      (if hp_entryCounter q > 0 then case hp_firstEntry q of None \<Rightarrow> Undefined
         | Some first \<Rightarrow> Returns (if p \<le> first then (\<not> p + n > first, q) else (True, q\<lparr>hp_lastInBufferEntry := Some p\<rparr>))
       else Returns (True, q))
      (\<lambda>(enqueued, q). Returns (enqueued, if enqueued
         then hp_write p bs (q\<lparr>hp_lastEntry := Some p, hp_entryCounter := hp_entryCounter q + 1\<rparr>) else q)))"
    using short unfolding HighPriorityASDUQueue_enqueue_def Let_def n_def [symmetric] bs_def [symmetric] by simp
  have slot: "hp_slot n q = Returns (if lst + message_size x + n > hp_size q then (0, q\<lparr>hp_lastInBufferEntry := hp_lastEntry q\<rparr>)
      else (lst + message_size x, q))"
    if "0 < hp_entryCounter q" "hp_lastEntry q = Some lst" "hp_buffer q lst = Some x" for lst x
    using that by (simp add: hp_slot_def hp_deref_def)
  consider "A = []" | "A \<noteq> []" "B = []" | "A \<noteq> []" "B \<noteq> []" by blast
  then show ?thesis
  proof cases
    case 1
    then have e: "hp_entryCounter q = 0" "B = []" using q by (auto simp: hp_holds_def responses.layout_def)
    let ?q = "hp_write 0 bs (q\<lparr>hp_firstEntry := Some 0, hp_lastInBufferEntry := Some 0, hp_lastEntry := Some 0, hp_entryCounter := 1\<rparr>)"
    have "HighPriorityASDUQueue_enqueue a q = Returns (True, ?q)"
      using e n(2) sz by (simp add: en hp_slot_def)
    moreover have "hp_holds ?q [(0, bs)] []"
      using responses.layout_single [of bs "hp_size q"] n sz by (simp add: hp_holds_def hp_write_place)
    ultimately show ?thesis using 1 e
      by (intro exI [of _ ?q] exI [of _ "[(0, bs)]"] exI [of _ "[]"]) (simp add: has_room_def contents_def bs_def)
  next
    case 2
    then have l: "responses.layout (hp_buffer q) (hp_size q) A []" and ptr: "hp_firstEntry q = Some (fst (hd A))"
      "hp_lastEntry q = Some (fst (last A))" "hp_lastInBufferEntry q = Some (fst (last A))"
      and count: "hp_entryCounter q = int (length A)" using q by (simp_all add: hp_holds_def)
    have at: "hp_buffer q (fst (last A)) = Some (snd (last A))"
      using responses.layout_at [OF l, of "fst (last A)" "snd (last A)"] 2 by simp
    have nxt: "fst (last A) + message_size (snd (last A)) = fst (hd A) + responses.span A"
      using responses.layout_end [OF l] by simp
    have sp: "0 < responses.span A" using responses.span_pos 2 by blast
    have pos: "0 < hp_entryCounter q" using count 2 by simp
    show ?thesis
    proof (cases "fst (hd A) + responses.span A + n \<le> hp_size q")
      case True
      let ?p = "fst (hd A) + responses.span A"
      let ?q = "hp_write ?p bs (q\<lparr>hp_lastInBufferEntry := Some ?p, hp_lastEntry := Some ?p, hp_entryCounter := hp_entryCounter q + 1\<rparr>)"
      have "HighPriorityASDUQueue_enqueue a q = Returns (True, ?q)"
        using pos True sp ptr nxt slot [OF pos ptr(2) at] by (simp add: en)
      moreover have "hp_holds ?q (A @ [(?p, bs)]) []"
        using responses.layout_behind [OF l, of bs] True n(1) ptr count sz 2 by (simp add: hp_holds_def hp_write_place)
      ultimately show ?thesis using True 2 n
        by (intro exI [of _ ?q] exI [of _ "A @ [(?p, bs)]"] exI [of _ "[]"]) (simp add: has_room_def contents_def bs_def)
    next
      case False
      have same: "q\<lparr>hp_lastInBufferEntry := Some (fst (last A))\<rparr> = q" using ptr(3) by simp
      have slot0: "hp_slot n q = Returns (0, q)"
        using slot [OF pos ptr(2) at] False nxt unfolding ptr(2) same by simp
      show ?thesis
      proof (cases "n \<le> fst (hd A)")
        case True
        let ?q = "hp_write 0 bs (q\<lparr>hp_lastEntry := Some 0, hp_entryCounter := hp_entryCounter q + 1\<rparr>)"
        have "HighPriorityASDUQueue_enqueue a q = Returns (True, ?q)"
          using pos True ptr(1) slot0 by (simp add: en)
        moreover have "hp_holds ?q A [(0, bs)]"
          using responses.layout_behind_round [OF l, of bs] True n(1) ptr count sz 2 by (simp add: hp_holds_def hp_write_place)
        ultimately show ?thesis using True 2 n
          by (intro exI [of _ ?q] exI [of _ A] exI [of _ "[(0, bs)]"]) (simp add: has_room_def contents_def bs_def)
      next
        case full: False
        have "HighPriorityASDUQueue_enqueue a q = Returns (False, q)"
          using pos full ptr(1) slot0 by (simp add: en)
        then show ?thesis using False full 2 n q
          by (intro exI [of _ q] exI [of _ A] exI [of _ "[]"]) (simp add: has_room_def contents_def bs_def)
      qed
    qed
  next
    case 3
    then have l: "responses.layout (hp_buffer q) (hp_size q) A B" and ptr: "hp_firstEntry q = Some (fst (hd A))"
      "hp_lastEntry q = Some (fst (last B))" "hp_lastInBufferEntry q = Some (fst (last A))"
      and count: "hp_entryCounter q = int (length A) + int (length B)" using q by (simp_all add: hp_holds_def)
    have at: "hp_buffer q (fst (last B)) = Some (snd (last B))"
      using responses.layout_at [OF l, of "fst (last B)" "snd (last B)"] 3 by simp
    have nxt: "fst (last B) + message_size (snd (last B)) = responses.span B"
      using responses.layout_end [OF l] 3 by simp
    have le: "responses.span B \<le> fst (hd A)" using l by (simp add: responses.layout_def)
    have pos: "0 < hp_entryCounter q" using count 3 by (cases A) simp_all
    have fits: "responses.span B + n \<le> hp_size q" using room 3 n by (simp add: round_room_def bs_def)
    show ?thesis
    proof (cases "responses.span B + n \<le> fst (hd A)")
      case True
      let ?p = "responses.span B"
      let ?q = "hp_write ?p bs (q\<lparr>hp_lastEntry := Some ?p, hp_entryCounter := hp_entryCounter q + 1\<rparr>)"
      have "HighPriorityASDUQueue_enqueue a q = Returns (True, ?q)"
        using pos fits True le ptr nxt slot [OF pos ptr(2) at] by (simp add: en)
      moreover have "hp_holds ?q A (B @ [(?p, bs)])"
        using responses.layout_behind_round [OF l, of bs] True n(1) ptr count sz 3 by (simp add: hp_holds_def hp_write_place)
      ultimately show ?thesis using True 3 n
        by (intro exI [of _ ?q] exI [of _ A] exI [of _ "B @ [(?p, bs)]"]) (simp add: has_room_def contents_def bs_def)
    next
      case False
      have "HighPriorityASDUQueue_enqueue a q = Returns (False, q)"
        using pos fits False le ptr nxt slot [OF pos ptr(2) at] by (simp add: en)
      then show ?thesis using False 3 n q
        by (intro exI [of _ q] exI [of _ A] exI [of _ B]) (simp add: has_room_def contents_def bs_def)
    qed
  qed
qed

text \<open>Used round, and the newer entries and the new one exceed the buffer: the end mark of the older entries is moved.\<close>

lemma hp_enqueue_overrun:
  assumes q: "hp_holds q A B" and len: "length (asdu_bytes a) \<le> 250" and full: "\<not> round_room q B (length (asdu_bytes a))"
  shows "\<exists>q'. HighPriorityASDUQueue_enqueue a q = Returns (2 + length (asdu_bytes a) \<le> fst (hd A), q') \<and>
    hp_lastInBufferEntry q' = Some (fst (last B)) \<and>
    (if 2 + length (asdu_bytes a) \<le> fst (hd A) then hp_lastEntry q' = Some 0 \<and> hp_buffer q' 0 = Some (asdu_bytes a)
     else hp_lastEntry q' = hp_lastEntry q \<and> hp_buffer q' = hp_buffer q)"
proof -
  let ?n = "2 + length (asdu_bytes a)"
  have B: "B \<noteq> []" and more: "\<not> responses.span B + ?n \<le> hp_size q" using full by (auto simp: round_room_def)
  then have l: "responses.layout (hp_buffer q) (hp_size q) A B" and ptr: "hp_firstEntry q = Some (fst (hd A))"
    "hp_lastEntry q = Some (fst (last B))" and count: "hp_entryCounter q = int (length A) + int (length B)"
    using q by (auto simp: hp_holds_def)
  have at: "hp_buffer q (fst (last B)) = Some (snd (last B))"
    using responses.layout_at [OF l, of "fst (last B)" "snd (last B)"] B by simp
  have nxt: "fst (last B) + message_size (snd (last B)) = responses.span B"
    using responses.layout_end [OF l] B by simp
  have pos: "0 < hp_entryCounter q" using count B by (cases B) simp_all
  have sizes: "length (asdu_header a) + length (asdu_payload a) = length (asdu_bytes a)" by (simp add: asdu_bytes_def)
  have slot: "hp_slot ?n q = Returns (0, q\<lparr>hp_lastInBufferEntry := Some (fst (last B))\<rparr>)"
    using pos ptr at nxt more by (simp add: hp_slot_def hp_deref_def split_beta)
  show ?thesis
    using len pos ptr slot unfolding HighPriorityASDUQueue_enqueue_def sizes Let_def by (simp add: hp_write_def)
qed

section \<open>Properties\<close>

lemma hp_create_simps [simp]:
  "hp_entryCounter (HighPriorityASDUQueue_create n) = 0" "hp_size (HighPriorityASDUQueue_create n) = n * 258"
  "hp_buffer (HighPriorityASDUQueue_create n) p = None"
  by (simp_all add: HighPriorityASDUQueue_create_def HighPriorityASDUQueue_initialize_def)

lemma hp_holds_create: "0 < n \<Longrightarrow> hp_holds (HighPriorityASDUQueue_create n) [] []"
  by (simp add: hp_holds_def)

text \<open>
  C23: the queue of responses refines a first-in first-out list of encoded ASDUs as long as it has round
  room: the buffer is not used round yet, or the newer entries and the new one do not exceed the buffer together.
  The next ASDU is the oldest one and leaves the list. With round room an ASDU of at most 250 bytes is put at the
  end exactly when its entry fits behind the last one or at the start of the buffer before the first one, and
  is refused with the list unchanged otherwise. Without round room the list is not kept: the end mark of the older
  entries moves to the newest entry even when the ASDU is refused, and an ASDU that fits before the first entry is
  accepted and written over the newer ones at the start of the buffer. A longer ASDU is refused and changes nothing.
\<close>

theorem response_queue_refines_fifo:
  assumes "hp_holds q A B"
  shows "(\<exists>q' A' B'. HighPriorityASDUQueue_getNextASDU q =
        Returns (case contents A B of [] \<Rightarrow> None | bs # _ \<Rightarrow> Some bs, q') \<and>
      hp_holds q' A' B' \<and> contents A' B' = tl (contents A B)) \<and>
    (\<forall>a. length (asdu_bytes a) \<le> 250 \<longrightarrow> round_room q B (length (asdu_bytes a)) \<longrightarrow>
      (\<exists>q' A' B'. HighPriorityASDUQueue_enqueue a q = Returns (has_room q A B (length (asdu_bytes a)), q') \<and>
        hp_holds q' A' B' \<and>
        contents A' B' = contents A B @ (if has_room q A B (length (asdu_bytes a)) then [asdu_bytes a] else []))) \<and>
    (\<forall>a. length (asdu_bytes a) \<le> 250 \<longrightarrow> \<not> round_room q B (length (asdu_bytes a)) \<longrightarrow>
      (\<exists>q'. HighPriorityASDUQueue_enqueue a q = Returns (2 + length (asdu_bytes a) \<le> fst (hd A), q') \<and>
        hp_lastInBufferEntry q' = Some (fst (last B)) \<and>
        (if 2 + length (asdu_bytes a) \<le> fst (hd A) then hp_lastEntry q' = Some 0 \<and> hp_buffer q' 0 = Some (asdu_bytes a)
         else hp_lastEntry q' = hp_lastEntry q \<and> hp_buffer q' = hp_buffer q))) \<and>
    (\<forall>a. 250 < length (asdu_bytes a) \<longrightarrow> HighPriorityASDUQueue_enqueue a q = Returns (False, q))"
proof (intro conjI allI impI)
  fix a assume "250 < length (asdu_bytes a)"
  then show "HighPriorityASDUQueue_enqueue a q = Returns (False, q)"
    by (simp add: HighPriorityASDUQueue_enqueue_def asdu_bytes_def Let_def)
qed (use hp_next_spec [OF assms] hp_enqueue_spec [OF assms] hp_enqueue_overrun [OF assms] in blast)+

definition asdu_with_payload :: "nat \<Rightarrow> asdu" where
  "asdu_with_payload n = (CS101_ASDU_create defaultAppLayerParameters False 3 0 1 False False)\<lparr>asdu_payload := replicate n 0\<rparr>"

lemma length_asdu_with_payload [simp]: "length (asdu_bytes (asdu_with_payload n)) = 6 + n"
  by (simp add: asdu_with_payload_def asdu_bytes_def CS101_ASDU_create_def Let_def)

text \<open>
  The first ASDU of an empty queue; and a queue for one large ASDU that is used round, with an older entry at 100 and
  a newer one at 0, where a large one is refused and the end mark moves all the same.
\<close>

definition round_queue :: high_prio_queue where
  "round_queue = (HighPriorityASDUQueue_create 1)\<lparr>hp_entryCounter := 2, hp_firstEntry := Some 100, hp_lastEntry := Some 0,
     hp_lastInBufferEntry := Some 100, hp_buffer := [100 \<mapsto> replicate 98 1, 0 \<mapsto> replicate 98 2]\<rparr>"

lemma round_queue_holds: "hp_holds round_queue [(100, replicate 98 1)] [(0, replicate 98 2)]"
  by (simp add: hp_holds_def round_queue_def responses.layout_def responses.span_def message_size_def)

theorem response_queue_refines_fifo_witness:
  "(\<exists>q' A' B'. HighPriorityASDUQueue_enqueue (asdu_with_payload 92) (HighPriorityASDUQueue_create 1) = Returns (True, q') \<and>
     hp_holds q' A' B' \<and> contents A' B' = [asdu_bytes (asdu_with_payload 92)]) \<and>
   (\<exists>q'. HighPriorityASDUQueue_getNextASDU round_queue = Returns (Some (replicate 98 1), q')) \<and>
   (\<exists>q'. HighPriorityASDUQueue_enqueue (asdu_with_payload 244) round_queue = Returns (False, q') \<and>
     hp_lastInBufferEntry q' = Some 0)"
proof (intro conjI)
  have q: "hp_holds (HighPriorityASDUQueue_create 1) [] []" by (rule hp_holds_create) simp
  show "\<exists>q' A' B'. HighPriorityASDUQueue_enqueue (asdu_with_payload 92) (HighPriorityASDUQueue_create 1) = Returns (True, q') \<and>
     hp_holds q' A' B' \<and> contents A' B' = [asdu_bytes (asdu_with_payload 92)]"
    using response_queue_refines_fifo [OF q, THEN conjunct2, THEN conjunct1, rule_format, of "asdu_with_payload 92"]
    by (simp add: round_room_def has_room_def contents_def)
  note r = response_queue_refines_fifo [OF round_queue_holds]
  show "\<exists>q'. HighPriorityASDUQueue_getNextASDU round_queue = Returns (Some (replicate 98 1), q')"
    using r [THEN conjunct1] by (auto simp: contents_def)
  have "\<not> round_room round_queue [(0, replicate 98 2)] 250"
    by (simp add: round_room_def responses.span_def message_size_def round_queue_def)
  then show "\<exists>q'. HighPriorityASDUQueue_enqueue (asdu_with_payload 244) round_queue = Returns (False, q') \<and>
     hp_lastInBufferEntry q' = Some 0"
    using r [THEN conjunct2, THEN conjunct2, THEN conjunct1, rule_format, of "asdu_with_payload 244"] by auto
qed

text \<open>
  When the newer entries and the next ASDU do exceed the buffer together, the enqueue refuses the
  ASDU but has moved the end mark of the older entries: in a queue for one large ASDU, after two
  smaller ones, a fetch, one more and a large one that is refused, the second fetch from then on reads
  behind the older entries and not the ASDU that was accepted last.
\<close>

theorem response_queue_refusal_corrupts:
  assumes "length (asdu_bytes a) = 98" "length (asdu_bytes b) = 250"
  shows "obind (HighPriorityASDUQueue_enqueue a (HighPriorityASDUQueue_create 1)) (\<lambda>(r1, q).
    obind (HighPriorityASDUQueue_enqueue a q) (\<lambda>(r2, q).
    obind (HighPriorityASDUQueue_getNextASDU q) (\<lambda>(m1, q).
    obind (HighPriorityASDUQueue_enqueue a q) (\<lambda>(r3, q).
    obind (HighPriorityASDUQueue_enqueue b q) (\<lambda>(r4, q).
    obind (HighPriorityASDUQueue_getNextASDU q) (\<lambda>(m2, q'). Returns
      (r1, r2, m1, r3, r4, HighPriorityASDUQueue_isAsduAvailable q', m2, HighPriorityASDUQueue_getNextASDU q'))))))) =
    Returns (True, True, Some (asdu_bytes a), True, False, True, Some (asdu_bytes a), Undefined)"
proof -
  have a: "length (asdu_header a) + length (asdu_payload a) = 98" and b: "length (asdu_header b) + length (asdu_payload b) = 250"
    using assms by (simp_all add: asdu_bytes_def)
  show ?thesis
    using assms
    by (simp add: HighPriorityASDUQueue_enqueue_def hp_slot_def hp_deref_def HighPriorityASDUQueue_getNextASDU_def
        HighPriorityASDUQueue_isAsduAvailable_def hp_write_def message_size_def a b Let_def)
qed

theorem response_queue_refusal_corrupts_witness:
  "\<exists>a b. length (asdu_bytes a) = 98 \<and> length (asdu_bytes b) = 250 \<and>
    obind (HighPriorityASDUQueue_enqueue a (HighPriorityASDUQueue_create 1)) (\<lambda>(r1, q).
    obind (HighPriorityASDUQueue_enqueue a q) (\<lambda>(r2, q).
    obind (HighPriorityASDUQueue_getNextASDU q) (\<lambda>(m1, q).
    obind (HighPriorityASDUQueue_enqueue a q) (\<lambda>(r3, q).
    obind (HighPriorityASDUQueue_enqueue b q) (\<lambda>(r4, q).
    obind (HighPriorityASDUQueue_getNextASDU q) (\<lambda>(m2, q'). Returns
      (r1, r2, m1, r3, r4, HighPriorityASDUQueue_isAsduAvailable q', m2, HighPriorityASDUQueue_getNextASDU q'))))))) =
    Returns (True, True, Some (asdu_bytes a), True, False, True, Some (asdu_bytes a), Undefined)"
  using response_queue_refusal_corrupts [of "asdu_with_payload 92" "asdu_with_payload 244"]
  by (intro exI [of _ "asdu_with_payload 92"] exI [of _ "asdu_with_payload 244"]) simp

end
