(* ===== verification/K_Buffer.thy ===== *)
theory K_Buffer
  imports Message_Queue High_Prio_Queue
begin

text \<open>
  A connection of the slave to one master (\<open>struct sMasterConnection\<close> of \<open>cs104/cs104_slave.c\<close>) and its
  k-buffer: the I frames that were sent and are not acknowledged yet, in an array used round, with the
  counters of the protocol. The two locks of a connection are flags; waiting for a lock that is taken
  does not return, because within one thread nobody else releases it. The operating system is a
  parameter: the clock and the result of each write to the socket. No raw message handler
  and no TLS is configured by the servers.
\<close>

section \<open>State\<close>

record sent_asdu =
  sa_entryId :: u64
  sa_queueEntry :: "nat option"
  sa_sentTime :: u64
  sa_seqNo :: int

text \<open>
  The counters \<open>sendCount\<close> and \<open>receiveCount\<close> are \<open>uint16_t\<close> fields that only ever get values below 32768,
  the two indices \<open>int16_t\<close> fields with values from -1 to k - 1. Besides the fields of the struct the record
  has the queues it points to, the frames given to the socket, in order, and how often the
  clock has been read.
\<close>

record master_connection =
  isUsed :: bool
  isActive :: bool
  isRunning :: bool
  timeoutT2Triggered :: bool
  waitingForTestFRcon :: bool
  maxSentASDUs :: int
  oldestSentASDU :: int
  newestSentASDU :: int
  sendCount :: int
  receiveCount :: int
  unconfirmedReceivedIMessages :: int
  lastConfirmationTime :: u64
  nextT3Timeout :: u64
  nextTestFRConTimeout :: u64
  sentASDUs :: "sent_asdu list"
  sentASDUsLock :: bool
  stateLock :: bool
  recvBuffer :: bytes
  recvBufPos :: int
  lowPrioQueue :: message_queue
  highPrioQueue :: high_prio_queue
  written :: "bytes list"
  consumed :: bytes
  clock_reads :: nat
  socket_reads :: nat

text \<open>The parameters of the protocol (\<open>struct sCS104_APCIParameters\<close>); the times are seconds.\<close>

record apci_parameters =
  apci_k :: int
  apci_w :: int
  apci_t0 :: int
  apci_t1 :: int
  apci_t2 :: int
  apci_t3 :: int

definition defaultConnectionParameters :: apci_parameters where
  "defaultConnectionParameters = \<lparr>apci_k = 12, apci_w = 8, apci_t0 = 10, apci_t1 = 15, apci_t2 = 10, apci_t3 = 20\<rparr>"

text \<open>
  The operating system: the n-th reading of the clock in milliseconds, the result of the n-th \<open>send\<close> and of
  the n-th \<open>recv\<close> for at most a number of bytes. The sockets (\<open>hal/socket/linux/socket_linux.c\<close>) never
  block: a call that would have to wait reports \<open>EAGAIN\<close>.
\<close>

datatype send_result = Sent int | Send_Again | Send_Error
datatype recv_result = Received bytes | Recv_Again | Recv_Error

record platform =
  clock :: "nat \<Rightarrow> u64"
  send :: "nat \<Rightarrow> send_result"
  recv :: "nat \<Rightarrow> int \<Rightarrow> recv_result"

definition Hal_getTimeInMs :: "platform \<Rightarrow> master_connection \<Rightarrow> u64 \<times> master_connection" where
  "Hal_getTimeInMs os con = (clock os (clock_reads con), con\<lparr>clock_reads := clock_reads con + 1\<rparr>)"

definition Socket_write :: "send_result \<Rightarrow> int" where
  "Socket_write r = (case r of Sent n \<Rightarrow> n | Send_Again \<Rightarrow> 0 | Send_Error \<Rightarrow> -1)"

definition writeToSocket :: "platform \<Rightarrow> bytes \<Rightarrow> master_connection \<Rightarrow> int \<times> master_connection" where
  "writeToSocket os buf con = (Socket_write (send os (length (written con))), con\<lparr>written := written con @ [buf]\<rparr>)"

text \<open>Reading gives the number of bytes, 0 for none yet, or -1 when the peer has closed or on an error.\<close>

definition Socket_read :: "recv_result \<Rightarrow> int \<times> bytes" where
  "Socket_read r = (case r of Received bs \<Rightarrow> if bs = [] then (-1, []) else (int (length bs), bs)
     | Recv_Again \<Rightarrow> (0, []) | Recv_Error \<Rightarrow> (-1, []))"

text \<open>The bytes go to the buffer at \<open>pos\<close>.\<close>

definition readFromSocket :: "platform \<Rightarrow> int \<Rightarrow> int \<Rightarrow> master_connection \<Rightarrow> int \<times> master_connection" where
  "readFromSocket os pos n con =
     (let (r, bs) = Socket_read (recv os (socket_reads con) n)
      in (r, con\<lparr>socket_reads := socket_reads con + 1, consumed := consumed con @ bs,
            recvBuffer := take (nat pos) (recvBuffer con) @ bs @ drop (nat pos + length bs) (recvBuffer con)\<rparr>))"

section \<open>Locks\<close>

text \<open>A flag is True while the lock is free.\<close>

definition wait_stateLock :: "master_connection \<Rightarrow> master_connection outcome" where
  "wait_stateLock con = (if stateLock con then Returns (con\<lparr>stateLock := False\<rparr>) else Diverges)"

definition post_stateLock :: "master_connection \<Rightarrow> master_connection" where
  "post_stateLock con = con\<lparr>stateLock := True\<rparr>"

definition with_stateLock ::
    "(master_connection \<Rightarrow> 'a \<times> master_connection) \<Rightarrow> master_connection \<Rightarrow> ('a \<times> master_connection) outcome" where
  "with_stateLock f con = obind (wait_stateLock con) (\<lambda>con.
     case f con of (x, con) \<Rightarrow> Returns (x, post_stateLock con))"

definition with_sentASDUsLock ::
    "(master_connection \<Rightarrow> ('a \<times> master_connection) outcome) \<Rightarrow> master_connection \<Rightarrow> ('a \<times> master_connection) outcome" where
  "with_sentASDUsLock f con =
     (if sentASDUsLock con then obind (f (con\<lparr>sentASDUsLock := False\<rparr>)) (\<lambda>(x, con). Returns (x, con\<lparr>sentASDUsLock := True\<rparr>))
      else Diverges)"

section \<open>Sending\<close>

text \<open>
  An I frame: start byte, length and the two sequence numbers in front of the encoded ASDU.
  \<open>sendIMessage\<close> gets a buffer with room for them and the size of the whole message.
\<close>

definition i_frame :: "int \<Rightarrow> int \<Rightarrow> bytes \<Rightarrow> bytes" where
  "i_frame ns nr msg = [0x68, word_of_int (int (length msg) + 6 - 2), word_of_int (ns mod 128 * 2), word_of_int (ns div 128),
     word_of_int (nr mod 128 * 2), word_of_int (nr div 128)] @ msg"

definition sendIMessage :: "platform \<Rightarrow> bytes \<Rightarrow> master_connection \<Rightarrow> (int \<times> master_connection) outcome" where
  "sendIMessage os msg = with_stateLock (\<lambda>con.
     let (n, con) = writeToSocket os (i_frame (sendCount con) (receiveCount con) msg) con;
         con = (if n > 0 then con\<lparr>sendCount := (sendCount con + 1) mod 32768, unconfirmedReceivedIMessages := 0,
                  timeoutT2Triggered := False\<rparr>
                else con\<lparr>isRunning := False\<rparr>);
         con = con\<lparr>unconfirmedReceivedIMessages := 0\<rparr>
     in (sendCount con, con))"

definition isSentBufferFull :: "master_connection \<Rightarrow> bool" where
  "isSentBufferFull con =
     (if oldestSentASDU con = -1 then False
      else (newestSentASDU con + 1) mod maxSentASDUs con = oldestSentASDU con)"

definition sendASDU :: "platform \<Rightarrow> bytes \<Rightarrow> u64 \<Rightarrow> nat option \<Rightarrow> master_connection \<Rightarrow> master_connection outcome" where
  "sendASDU os msg entryId queueEntry con =
     (let (currentIndex, con) =
            (if oldestSentASDU con = -1 then (0, con\<lparr>oldestSentASDU := 0, newestSentASDU := 0\<rparr>)
             else ((newestSentASDU con + 1) mod maxSentASDUs con, con))
      in obind (sendIMessage os msg con) (\<lambda>(seqNo, con).
           let (sentTime, con) = Hal_getTimeInMs os con
           in Returns (con\<lparr>sentASDUs := (sentASDUs con)[nat currentIndex := \<lparr>sa_entryId = entryId, sa_queueEntry = queueEntry,
                  sa_sentTime = sentTime, sa_seqNo = seqNo\<rparr>], newestSentASDU := currentIndex\<rparr>)))"

section \<open>Acknowledgements\<close>

text \<open>Continuing a loop after a step that may not return.\<close>

fun ocont :: "'a outcome \<Rightarrow> ('a \<Rightarrow> 'b outcome option) \<Rightarrow> 'b outcome option" where
  "ocont Undefined f = Some Undefined"
| "ocont Diverges f = Some Diverges"
| "ocont (Returns x) f = f x"

lemma ocont_mono [partial_function_mono]:
  "(\<And>y. monotone (fun_ord option_ord) option_ord (\<lambda>f. C f y)) \<Longrightarrow>
     monotone (fun_ord option_ord) option_ord (\<lambda>f. ocont m (\<lambda>y. C f y))"
  by (cases m) (simp_all add: monotone_def option.leq_refl)

text \<open>The oldest message is confirmed: it leaves the event queue if it came from there.\<close>

definition confirm_oldest :: "master_connection \<Rightarrow> master_connection outcome" where
  "confirm_oldest con =
     (let i = nat (oldestSentASDU con); e = sentASDUs con ! i
      in case sa_queueEntry e of None \<Rightarrow> Returns con
         | Some p \<Rightarrow> obind (MessageQueue_markAsduAsConfirmed p (sa_entryId e) (lowPrioQueue con)) (\<lambda>q.
             Returns (con\<lparr>lowPrioQueue := q,
               sentASDUs := (sentASDUs con)[i := e\<lparr>sa_queueEntry := None, sa_seqNo := -1\<rparr>]\<rparr>)))"

partial_function (option) remove_confirmed ::
    "bool \<Rightarrow> int \<Rightarrow> int \<Rightarrow> master_connection \<Rightarrow> master_connection outcome option" where
  "remove_confirmed counterOverflowDetected oldestValidSeqNo seqNo con =
     (let oldestAsduSeqNo = sa_seqNo (sentASDUs con ! nat (oldestSentASDU con))
      in if \<not> counterOverflowDetected \<and> seqNo < oldestAsduSeqNo then Some (Returns con)
         else if seqNo = oldestValidSeqNo then Some (Returns con)
         else ocont (confirm_oldest con) (\<lambda>con.
           if oldestAsduSeqNo = seqNo then Some (Returns (con\<lparr>oldestSentASDU :=
             if oldestSentASDU con = newestSentASDU con then -1 else (oldestSentASDU con + 1) mod maxSentASDUs con\<rparr>))
           else
             let con = con\<lparr>oldestSentASDU := (oldestSentASDU con + 1) mod maxSentASDUs con\<rparr>;
                 checkIndex = (newestSentASDU con + 1) mod maxSentASDUs con
             in if oldestSentASDU con = checkIndex then Some (Returns (con\<lparr>oldestSentASDU := -1\<rparr>))
                else remove_confirmed counterOverflowDetected oldestValidSeqNo seqNo con))"

definition sequence_check :: "int \<Rightarrow> master_connection \<Rightarrow> bool \<times> bool \<times> int" where
  "sequence_check seqNo con =
     (if oldestSentASDU con = -1 then (seqNo = sendCount con, False, -1)
      else
        let oldestAsduSeqNo = sa_seqNo (sentASDUs con ! nat (oldestSentASDU con));
            newestAsduSeqNo = sa_seqNo (sentASDUs con ! nat (newestSentASDU con));
            (seqNoIsValid, counterOverflowDetected) =
              (if oldestAsduSeqNo \<le> newestAsduSeqNo
               then (seqNo \<ge> oldestAsduSeqNo \<and> seqNo \<le> newestAsduSeqNo, False)
               else (seqNo \<ge> oldestAsduSeqNo \<or> seqNo \<le> newestAsduSeqNo, True));
            oldestValidSeqNo = (if oldestAsduSeqNo = 0 then 32767 else c_mod (oldestAsduSeqNo - 1) 32768)
        in (seqNoIsValid \<or> oldestValidSeqNo = seqNo, counterOverflowDetected, oldestValidSeqNo))"

definition checkSequenceNumber :: "int \<Rightarrow> master_connection \<Rightarrow> (bool \<times> master_connection) outcome" where
  "checkSequenceNumber seqNo = with_sentASDUsLock (\<lambda>con.
     let (seqNoIsValid, counterOverflowDetected, oldestValidSeqNo) = sequence_check seqNo con
     in if seqNoIsValid \<and> oldestSentASDU con \<noteq> -1
        then obind (run_loop (remove_confirmed counterOverflowDetected oldestValidSeqNo seqNo con)) (\<lambda>con. Returns (True, con))
        else Returns (seqNoIsValid, con))"

end
