(* ===== verification/Connection.thy ===== *)
theory Connection
  imports K_Buffer
begin

text \<open>
  What the thread of a connection does between two messages (\<open>cs104/cs104_slave.c\<close>): receiving the bytes of
  a message, sending from the queues, the timeouts t1, t2 and t3 of the protocol, and the state changes of a
  connection. An ASDU is encoded behind the six bytes of the APCI (\<open>BufferFrame\<close>).
\<close>

section \<open>Receiving\<close>

text \<open>
  Reading a part of a message: -1 for an error, 0 when the message is not complete, otherwise its
  size. The position is stored in \<open>recvBufPos\<close> between the calls.
\<close>

definition receive_length :: "platform \<Rightarrow> int \<Rightarrow> master_connection \<Rightarrow> (int \<times> int) \<times> master_connection" where
  "receive_length os bufPos con =
     (if bufPos = 1 then
        let (n, con) = readFromSocket os 1 1 con
        in if n \<noteq> 1 then ((-1, bufPos), con\<lparr>recvBufPos := 0\<rparr>) else ((0, bufPos + 1), con)
      else ((0, bufPos), con))"

definition receive_rest :: "platform \<Rightarrow> int \<Rightarrow> master_connection \<Rightarrow> int \<times> master_connection" where
  "receive_rest os bufPos con =
     (let len = uint (recvBuffer con ! 1);
          remainingLength = len - bufPos + 2;
          (readCnt, con) = readFromSocket os bufPos remainingLength con
      in if readCnt = remainingLength then (len + 2, con\<lparr>recvBufPos := 0\<rparr>)
         else if readCnt = -1 then (-1, con\<lparr>recvBufPos := 0\<rparr>)
         else (0, con\<lparr>recvBufPos := bufPos + readCnt\<rparr>))"

definition receive_start :: "platform \<Rightarrow> int \<Rightarrow> master_connection \<Rightarrow> (int \<times> int) \<times> master_connection" where
  "receive_start os bufPos con =
     (if bufPos = 0 then
        let (n, con) = readFromSocket os 0 1 con
        in if n < 1 then ((n, -1), con)
           else if recvBuffer con ! 0 \<noteq> 0x68 then ((-1, -1), con)
           else ((0, 1), con)
      else ((0, bufPos), con))"

definition receiveMessage :: "platform \<Rightarrow> master_connection \<Rightarrow> int \<times> master_connection" where
  "receiveMessage os con =
     (case receive_start os (recvBufPos con) con of ((r, bufPos), con) \<Rightarrow>
        if bufPos = -1 then (r, con)
        else (case receive_length os bufPos con of ((r, bufPos), con) \<Rightarrow>
          if r = -1 then (-1, con)
          else if bufPos > 1 then receive_rest os bufPos con
          else (0, con\<lparr>recvBufPos := bufPos\<rparr>)))"

section \<open>Sending\<close>

definition sendASDUInternal :: "platform \<Rightarrow> asdu \<Rightarrow> master_connection \<Rightarrow> (bool \<times> master_connection) outcome" where
  "sendASDUInternal os a con =
     (if isActive con then
        obind (with_sentASDUsLock (\<lambda>con.
            if \<not> isSentBufferFull con
            then obind (sendASDU os (asdu_bytes a) 0 None con) (\<lambda>con. Returns (True, con))
            else Returns (False, con)) con)
          (\<lambda>(sent, con). if sent then Returns (True, con)
             else obind (HighPriorityASDUQueue_enqueue a (highPrioQueue con)) (\<lambda>(asduSent, q).
               Returns (asduSent, con\<lparr>highPrioQueue := q\<rparr>)))
      else Returns (False, con))"

definition MasterConnection_isRunning :: "master_connection \<Rightarrow> (bool \<times> master_connection) outcome" where
  "MasterConnection_isRunning = with_stateLock (\<lambda>con. (isRunning con, con))"

definition MasterConnection_isActive :: "master_connection \<Rightarrow> (bool \<times> master_connection) outcome" where
  "MasterConnection_isActive = with_stateLock (\<lambda>con. (isActive con, con))"

definition sendNextLowPriorityASDU :: "platform \<Rightarrow> master_connection \<Rightarrow> master_connection outcome" where
  "sendNextLowPriorityASDU os con = obind (with_sentASDUsLock (\<lambda>con.
     if isSentBufferFull con then Returns ((), con)
     else obind (MessageQueue_getNextWaitingASDU (lowPrioQueue con)) (\<lambda>(asduBuffer, q).
       let con = con\<lparr>lowPrioQueue := q\<rparr>
       in case asduBuffer of None \<Rightarrow> Returns ((), con)
          | Some (entryId, queueEntry, bs) \<Rightarrow>
              obind (sendASDU os bs entryId (Some queueEntry) con) (\<lambda>con. Returns ((), con)))) con)
     (\<lambda>(_, con). Returns con)"

definition sendNextHighPriorityASDU :: "platform \<Rightarrow> master_connection \<Rightarrow> (bool \<times> master_connection) outcome" where
  "sendNextHighPriorityASDU os = with_sentASDUsLock (\<lambda>con.
     if isSentBufferFull con then Returns (False, con)
     else obind (HighPriorityASDUQueue_getNextASDU (highPrioQueue con)) (\<lambda>(buffer, q).
       let con = con\<lparr>highPrioQueue := q\<rparr>
       in case buffer of None \<Rightarrow> Returns (False, con)
          | Some bs \<Rightarrow> obind (sendASDU os bs 0 None con) (\<lambda>con. Returns (True, con))))"

text \<open>All responses first; True when the loop has to stop early.\<close>

partial_function (option) send_responses :: "platform \<Rightarrow> master_connection \<Rightarrow> (bool \<times> master_connection) outcome option" where
  "send_responses os con =
     (if HighPriorityASDUQueue_isAsduAvailable (highPrioQueue con) then
        ocont (sendNextHighPriorityASDU os con) (\<lambda>(sent, con).
          if \<not> sent then Some (Returns (True, con))
          else ocont (MasterConnection_isRunning con) (\<lambda>(running, con).
            if \<not> running then Some (Returns (True, con)) else send_responses os con))
      else Some (Returns (False, con)))"

definition sendWaitingASDUs :: "platform \<Rightarrow> master_connection \<Rightarrow> (bool \<times> master_connection) outcome" where
  "sendWaitingASDUs os con = obind (run_loop (send_responses os con)) (\<lambda>(stop, con).
     if stop then Returns (True, con)
     else obind (sendNextLowPriorityASDU os con) (\<lambda>con.
       Returns (MessageQueue_isAsduAvailable (lowPrioQueue con), con)))"

definition iMasterConnection_isReady :: "master_connection \<Rightarrow> bool outcome" where
  "iMasterConnection_isReady con =
     (if isActive con then
        if \<not> isSentBufferFull con then Returns True
        else obind (HighPriorityASDUQueue_isFull (highPrioQueue con)) (\<lambda>full. Returns (\<not> full))
      else Returns False)"

section \<open>Timeouts\<close>

definition reset_T3 :: "apci_parameters \<Rightarrow> u64 \<Rightarrow> master_connection \<Rightarrow> master_connection" where
  "reset_T3 P currentTime con = con\<lparr>nextT3Timeout := currentTime + word_of_int (apci_t3 P * 1000)\<rparr>"

definition resetT3Timeout :: "apci_parameters \<Rightarrow> u64 \<Rightarrow> master_connection \<Rightarrow> master_connection outcome" where
  "resetT3Timeout P currentTime con =
     obind (with_stateLock (\<lambda>con. ((), reset_T3 P currentTime con)) con) (\<lambda>(_, con). Returns con)"

definition checkT3Timeout :: "apci_parameters \<Rightarrow> u64 \<Rightarrow> master_connection \<Rightarrow> (bool \<times> master_connection) outcome" where
  "checkT3Timeout P currentTime = with_stateLock (\<lambda>con.
     if waitingForTestFRcon con then (False, con)
     else
       let con = (if nextT3Timeout con > currentTime + word_of_int (apci_t3 P * 1000) then reset_T3 P currentTime con else con)
       in (currentTime > nextT3Timeout con, con))"

definition resetTestFRConTimeout :: "apci_parameters \<Rightarrow> u64 \<Rightarrow> master_connection \<Rightarrow> master_connection" where
  "resetTestFRConTimeout P currentTime con = con\<lparr>nextTestFRConTimeout := currentTime + word_of_int (apci_t1 P * 1000)\<rparr>"

definition checkTestFRConTimeout :: "apci_parameters \<Rightarrow> u64 \<Rightarrow> master_connection \<Rightarrow> bool \<times> master_connection" where
  "checkTestFRConTimeout P currentTime con =
     (let con = (if nextTestFRConTimeout con > currentTime + word_of_int (apci_t1 P * 1000)
                 then resetTestFRConTimeout P currentTime con else con)
      in (currentTime > nextTestFRConTimeout con, con))"

definition s_frame :: "int \<Rightarrow> bytes" where
  "s_frame nr = [0x68, 0x04, 0x01, 0, word_of_int (nr mod 128 * 2), word_of_int (nr div 128)]"

definition send_S :: "platform \<Rightarrow> master_connection \<Rightarrow> master_connection" where
  "send_S os con =
     (let (n, con) = writeToSocket os (s_frame (receiveCount con)) con
      in if n < 0 then con\<lparr>isRunning := False\<rparr> else con)"

definition sendSMessage :: "platform \<Rightarrow> master_connection \<Rightarrow> master_connection outcome" where
  "sendSMessage os con = obind (with_stateLock (\<lambda>con. ((), send_S os con)) con) (\<lambda>(_, con). Returns con)"

definition STARTDT_CON_MSG :: bytes where "STARTDT_CON_MSG = [0x68, 0x04, 0x0b, 0x00, 0x00, 0x00]"
definition STOPDT_CON_MSG :: bytes where "STOPDT_CON_MSG = [0x68, 0x04, 0x23, 0x00, 0x00, 0x00]"
definition TESTFR_CON_MSG :: bytes where "TESTFR_CON_MSG = [0x68, 0x04, 0x83, 0x00, 0x00, 0x00]"
definition TESTFR_ACT_MSG :: bytes where "TESTFR_ACT_MSG = [0x68, 0x04, 0x43, 0x00, 0x00, 0x00]"

text \<open>t3: nothing received for long, so ask for a sign of life.\<close>

definition handle_t3 :: "platform \<Rightarrow> apci_parameters \<Rightarrow> u64 \<Rightarrow> master_connection \<Rightarrow> master_connection outcome" where
  "handle_t3 os P currentTime con = obind (checkT3Timeout P currentTime con) (\<lambda>(timeout, con).
     if timeout then
       let (n, con) = writeToSocket os TESTFR_ACT_MSG con
       in obind (if n < 0 then with_stateLock (\<lambda>con. ((), con\<lparr>isRunning := False\<rparr>)) con else Returns ((), con)) (\<lambda>(_, con).
          obind (with_stateLock (\<lambda>con. ((), resetTestFRConTimeout P currentTime (con\<lparr>waitingForTestFRcon := True\<rparr>))) con)
            (\<lambda>(_, con). Returns con))
     else Returns con)"

text \<open>t2: received I frames have to be acknowledged in time.\<close>

definition handle_t2 :: "platform \<Rightarrow> apci_parameters \<Rightarrow> u64 \<Rightarrow> master_connection \<Rightarrow> master_connection" where
  "handle_t2 os P currentTime con =
     (if unconfirmedReceivedIMessages con > 0 then
        let con = (if lastConfirmationTime con \<noteq> -1 \<and> lastConfirmationTime con > currentTime
                   then con\<lparr>lastConfirmationTime := currentTime\<rparr> else con)
        in if currentTime > lastConfirmationTime con \<and>
              currentTime - lastConfirmationTime con \<ge> word_of_int (apci_t2 P * 1000)
           then send_S os (con\<lparr>lastConfirmationTime := currentTime, unconfirmedReceivedIMessages := 0,
                  timeoutT2Triggered := False\<rparr>)
           else con
      else con)"

text \<open>t1: the oldest I frame has to be acknowledged in time.\<close>

definition handle_t1 :: "apci_parameters \<Rightarrow> u64 \<Rightarrow> master_connection \<Rightarrow> bool \<times> master_connection" where
  "handle_t1 P currentTime con =
     (if oldestSentASDU con \<noteq> -1 then
        let i = nat (oldestSentASDU con);
            con = (if sa_sentTime (sentASDUs con ! i) > currentTime
                   then con\<lparr>sentASDUs := (sentASDUs con)[i := (sentASDUs con ! i)\<lparr>sa_sentTime := currentTime\<rparr>]\<rparr> else con);
            sentTime = sa_sentTime (sentASDUs con ! i)
        in (\<not> (currentTime > sentTime \<and> currentTime - sentTime \<ge> word_of_int (apci_t1 P * 1000)), con)
      else (True, con))"

definition handleTimeouts :: "platform \<Rightarrow> apci_parameters \<Rightarrow> master_connection \<Rightarrow> (bool \<times> master_connection) outcome" where
  "handleTimeouts os P con =
     (let (currentTime, con) = Hal_getTimeInMs os con
      in obind (handle_t3 os P currentTime con) (\<lambda>con.
         obind (with_stateLock (\<lambda>con.
             let (late, con) = (if waitingForTestFRcon con then checkTestFRConTimeout P currentTime con else (False, con))
             in (\<not> late, handle_t2 os P currentTime con)) con) (\<lambda>(testOk, con).
         obind (with_sentASDUsLock (\<lambda>con. Returns (handle_t1 P currentTime con)) con) (\<lambda>(ackOk, con).
           Returns (testOk \<and> ackOk, con)))))"

section \<open>State changes\<close>

definition MasterConnection_close :: "master_connection \<Rightarrow> master_connection outcome" where
  "MasterConnection_close con =
     obind (with_stateLock (\<lambda>con. ((), con\<lparr>isRunning := False\<rparr>)) con) (\<lambda>(_, con). Returns con)"

definition MasterConnection_deactivate :: "master_connection \<Rightarrow> (bool \<times> master_connection) outcome" where
  "MasterConnection_deactivate = with_stateLock (\<lambda>con. (isActive con, con\<lparr>isActive := False\<rparr>))"

definition MasterConnection_activate :: "master_connection \<Rightarrow> (bool \<times> master_connection) outcome" where
  "MasterConnection_activate = with_stateLock (\<lambda>con. (\<not> isActive con, con\<lparr>isActive := True\<rparr>))"

definition MasterConnection_create :: "apci_parameters \<Rightarrow> message_queue \<Rightarrow> high_prio_queue \<Rightarrow> master_connection" where
  "MasterConnection_create P low high =
     \<lparr>isUsed = False, isActive = False, isRunning = False, timeoutT2Triggered = False, waitingForTestFRcon = False,
      maxSentASDUs = apci_k P, oldestSentASDU = 0, newestSentASDU = 0, sendCount = 0, receiveCount = 0,
      unconfirmedReceivedIMessages = 0, lastConfirmationTime = 0, nextT3Timeout = 0, nextTestFRConTimeout = 0,
      sentASDUs = replicate (nat (apci_k P)) \<lparr>sa_entryId = 0, sa_queueEntry = None, sa_sentTime = 0, sa_seqNo = 0\<rparr>,
      sentASDUsLock = True, stateLock = True, recvBuffer = replicate 260 0, recvBufPos = 0,
      lowPrioQueue = low, highPrioQueue = high, written = [], consumed = [], clock_reads = 0, socket_reads = 0\<rparr>"

text \<open>
  A slot is prepared for a new connection; its queues are those of the slave (mode
  \<open>CS104_MODE_SINGLE_REDUNDANCY_GROUP\<close>). The responses waiting in the queue are dropped. With the new socket
  the lists of its calls start again.
\<close>

definition MasterConnection_init ::
    "platform \<Rightarrow> apci_parameters \<Rightarrow> message_queue \<Rightarrow> high_prio_queue \<Rightarrow> master_connection \<Rightarrow> master_connection outcome" where
  "MasterConnection_init os P low high con =
     (let con = con\<lparr>isActive := False, isRunning := False, receiveCount := 0, sendCount := 0, recvBufPos := 0,
            unconfirmedReceivedIMessages := 0, lastConfirmationTime := -1, timeoutT2Triggered := False,
            oldestSentASDU := -1, newestSentASDU := -1, written := [], consumed := [], socket_reads := 0\<rparr>;
          (now, con) = Hal_getTimeInMs os con
      in obind (resetT3Timeout P now con) (\<lambda>con.
           Returns (con\<lparr>lowPrioQueue := low, highPrioQueue := HighPriorityASDUQueue_resetConnectionQueue high,
             waitingForTestFRcon := False\<rparr>)))"

end
