(* ===== verification/Asdu_Dispatch.thy ===== *)
theory Asdu_Dispatch
  imports Info_Decoding Client_Manager Cp56_Time
begin

text \<open>
  The dispatch of a received ASDU to the callbacks of the server (\<open>handleASDU\<close> of \<open>cs104/cs104_slave.c\<close>),
  as a trace of actions like the callbacks themselves, and the clock synchronisation handler
  (\<open>protocol/clock_sync.c\<close>). The callbacks and plugins that no server registers are NULL: counter
  interrogation, read, delay acquisition.
\<close>

section \<open>Callbacks\<close>

definition C_RD_NA_1 :: u32 where "C_RD_NA_1 = 102"
definition C_TS_NA_1 :: u32 where "C_TS_NA_1 = 104"
definition C_TS_TA_1 :: u32 where "C_TS_TA_1 = 107"
definition COT_REQUEST :: u8 where "COT_REQUEST = 5"
definition COT_ACTIVATION :: u8 where "COT_ACTIVATION = 6"
definition COT_DEACTIVATION :: u8 where "COT_DEACTIVATION = 8"
definition COT_UNKNOWN_TYPE_ID :: u8 where "COT_UNKNOWN_TYPE_ID = 44"
definition COT_UNKNOWN_COT :: u8 where "COT_UNKNOWN_COT = 45"

lemmas dispatch_types = C_IC_NA_1_def C_CI_NA_1_def C_RD_NA_1_def C_CS_NA_1_def C_TS_NA_1_def C_RP_NA_1_def C_CD_NA_1_def
  C_TS_TA_1_def
lemmas dispatch_causes = COT_REQUEST_def COT_ACTIVATION_def COT_DEACTIVATION_def COT_UNKNOWN_TYPE_ID_def COT_UNKNOWN_COT_def
  COT_SPONTANEOUS_def COT_ACTIVATION_CON_def

text \<open>
  A callback gets the request and the state of the application, and returns whether it handled the
  request, the request, which it may have changed, its actions and the new state. NULL is None.
\<close>

type_synonym 'g answer = "(bool \<times> asdu \<times> action list \<times> 'g) outcome"

record 'g slave_handlers =
  sh_interrogation :: "(connection \<Rightarrow> asdu \<Rightarrow> u8 \<Rightarrow> 'g \<Rightarrow> 'g answer) option"
  sh_clockSync :: "(connection \<Rightarrow> asdu \<Rightarrow> bytes \<Rightarrow> 'g \<Rightarrow> 'g answer) option"
  sh_resetProcess :: "(connection \<Rightarrow> asdu \<Rightarrow> u8 \<Rightarrow> 'g \<Rightarrow> 'g answer) option"
  sh_asdu :: "(connection \<Rightarrow> asdu \<Rightarrow> 'g \<Rightarrow> 'g answer) option"
  sh_connectionEvent :: "(connection \<Rightarrow> connection_event \<Rightarrow> 'g \<Rightarrow> 'g) option"

section \<open>The dispatch\<close>

text \<open>The branches of the switch: None when the ASDU is corrupted.\<close>

type_synonym 'g branch = "(bool \<times> asdu \<times> action list \<times> 'g) option outcome"

definition unhandled :: "asdu \<Rightarrow> 'g \<Rightarrow> 'g branch" where
  "unhandled a g = Returns (Some (False, a, [], g))"

definition responseCOTUnknown :: "connection \<Rightarrow> asdu \<Rightarrow> 'g \<Rightarrow> 'g branch" where
  "responseCOTUnknown con a g =
     (let a = CS101_ASDU_setNegative True (CS101_ASDU_setCOT COT_UNKNOWN_COT a) in Returns (Some (False, a, [SendASDU con a], g)))"

text \<open>A callback for the first element of the ASDU; a payload without one is corrupted.\<close>

definition with_element :: "asdu \<Rightarrow> (information_object \<Rightarrow> 'g answer) option \<Rightarrow> 'g \<Rightarrow> 'g branch" where
  "with_element a handler g = (case handler of None \<Rightarrow> unhandled a g
     | Some h \<Rightarrow> obind (CS101_ASDU_getElementEx a 0) (\<lambda>io. case io of None \<Rightarrow> Returns None
         | Some io \<Rightarrow> obind (h io) (\<lambda>r. Returns (Some r))))"

fun interrogation_call :: "(u8 \<Rightarrow> 'g answer) \<Rightarrow> information_object \<Rightarrow> 'g answer" where
  "interrogation_call h (InterrogationCommand ioa qoi) = h qoi"
| "interrogation_call h _ = Undefined"

fun reset_process_call :: "(u8 \<Rightarrow> 'g answer) \<Rightarrow> information_object \<Rightarrow> 'g answer" where
  "reset_process_call h (ResetProcessCommand ioa qrp) = h qrp"
| "reset_process_call h _ = Undefined"

text \<open>The library confirms a clock synchronisation itself, after the callback.\<close>

fun clock_sync_call :: "connection \<Rightarrow> (bytes \<Rightarrow> 'g answer) \<Rightarrow> information_object \<Rightarrow> 'g answer" where
  "clock_sync_call con h (ClockSynchronizationCommand ioa newTime) = obind (h newTime) (\<lambda>(ok, a, acts, g).
     let a = (if ok then
                CS101_ASDU_setCOT COT_ACTIVATION_CON
                  (snd (CS101_ASDU_addInformationObject (CS101_ASDU_removeAllElements a) (ClockSynchronizationCommand_create 0 newTime)))
              else CS101_ASDU_setNegative True (CS101_ASDU_setCOT COT_ACTIVATION_CON a))
     in Returns (True, a, acts @ [SendASDU con a], g))"
| "clock_sync_call con h _ = Undefined"

definition test_command :: "connection \<Rightarrow> asdu \<Rightarrow> 'g \<Rightarrow> 'g branch" where
  "test_command con a g =
     (let a = (if CS101_ASDU_getCOT a \<noteq> COT_ACTIVATION
               then CS101_ASDU_setNegative True (CS101_ASDU_setCOT COT_UNKNOWN_COT a)
               else CS101_ASDU_setCOT COT_ACTIVATION_CON a)
      in Returns (Some (True, a, [SendASDU con a], g)))"

definition handle_type :: "'g slave_handlers \<Rightarrow> connection \<Rightarrow> asdu \<Rightarrow> 'g \<Rightarrow> 'g branch" where
  "handle_type H con a g =
     (let cot = CS101_ASDU_getCOT a; ty = ucast (CS101_ASDU_getTypeID a) :: u32
      in if ty = C_IC_NA_1 then
           if cot = COT_ACTIVATION \<or> cot = COT_DEACTIVATION
           then with_element a (map_option (\<lambda>h. interrogation_call (\<lambda>qoi. h con a qoi g)) (sh_interrogation H)) g
           else responseCOTUnknown con a g
         else if ty = C_CI_NA_1 then
           if cot = COT_ACTIVATION \<or> cot = COT_DEACTIVATION then unhandled a g else responseCOTUnknown con a g
         else if ty = C_RD_NA_1 then
           if cot = COT_REQUEST then unhandled a g else responseCOTUnknown con a g
         else if ty = C_CS_NA_1 then
           if cot = COT_ACTIVATION
           then with_element a (map_option (\<lambda>h. clock_sync_call con (\<lambda>t. h con a t g)) (sh_clockSync H)) g
           else responseCOTUnknown con a g
         else if ty = C_TS_NA_1 then test_command con a g
         else if ty = C_RP_NA_1 then
           if cot = COT_ACTIVATION
           then with_element a (map_option (\<lambda>h. reset_process_call (\<lambda>qrp. h con a qrp g)) (sh_resetProcess H)) g
           else responseCOTUnknown con a g
         else if ty = C_CD_NA_1 then
           if cot = COT_ACTIVATION \<or> cot = COT_SPONTANEOUS then unhandled a g else responseCOTUnknown con a g
         else if ty = C_TS_TA_1 then test_command con a g
         else unhandled a g)"

text \<open>The result: whether the ASDU is valid, the actions, the state of the application.\<close>

definition handleASDU :: "'g slave_handlers \<Rightarrow> connection \<Rightarrow> asdu \<Rightarrow> 'g \<Rightarrow> (bool \<times> action list \<times> 'g) outcome" where
  "handleASDU H con a g = obind (handle_type H con a g) (\<lambda>r. case r of
     None \<Rightarrow> Returns (False, [], g)
   | Some (messageHandled, a, acts, g) \<Rightarrow>
       obind (case sh_asdu H of Some h \<Rightarrow> if \<not> messageHandled then h con a g else Returns (messageHandled, a, [], g)
              | None \<Rightarrow> Returns (messageHandled, a, [], g))
         (\<lambda>(messageHandled, a, acts', g).
           let b = CS101_ASDU_setNegative True (CS101_ASDU_setCOT COT_UNKNOWN_TYPE_ID a)
           in Returns (True, acts @ acts' @ (if messageHandled then [] else [SendASDU con b]), g)))"

section \<open>The clock synchronisation handler\<close>

text \<open>
  The time is turned into a \<open>struct tm\<close> and printed; \<open>strftime\<close> after \<open>mktime\<close> is a parameter. The reply is the
  request with another cause. (Setting the system clock is compiled only with \<open>CLOCKSYNC_FROM_IEC\<close>.)
\<close>

record tm =
  tm_sec :: int
  tm_min :: int
  tm_hour :: int
  tm_mday :: int
  tm_mon :: int
  tm_year :: int
  tm_isdst :: int

definition tm_of_cp56 :: "bytes \<Rightarrow> tm" where
  "tm_of_cp56 newTime = \<lparr>tm_sec = CP56Time2a_getSecond newTime, tm_min = CP56Time2a_getMinute newTime,
     tm_hour = CP56Time2a_getHour newTime, tm_mday = CP56Time2a_getDayOfMonth newTime,
     tm_mon = CP56Time2a_getMonth newTime - 1, tm_year = CP56Time2a_getYear newTime + 100, tm_isdst = -1\<rparr>"

definition clockSyncHandler :: "(tm \<Rightarrow> string) \<Rightarrow> connection \<Rightarrow> asdu \<Rightarrow> bytes \<Rightarrow> 'g \<Rightarrow> 'g answer" where
  "clockSyncHandler iso8601 con a newTime g =
     (let a = CS101_ASDU_setCOT COT_ACTIVATION_CON a
      in Returns (True, a, [Print (''{\"type\":\"C_CS_NA_1\",\"value\":\"'' @ iso8601 (tm_of_cp56 newTime) @ ''\"}''), SendASDU con a], g))"

end
