(* ===== verification/Connection_Thread.thy ===== *)
theory Connection_Thread
  imports Connection Asdu_Dispatch
begin

text \<open>
  The thread of a connection (\<open>connectionHandlingThread\<close> of \<open>cs104/cs104_slave.c\<close>): the messages of the
  protocol and one pass of the loop. A connection acts on the state of the application through the
  callbacks, and on the other connections of the slave when it is activated.
\<close>

section \<open>State\<close>

text \<open>What the code reaches through the pointer to the slave; it is fixed while connections are open.\<close>

record 'g slave_setup =
  conParameters :: apci_parameters
  alParameters :: app_layer_params
  handlers :: "'g slave_handlers"

text \<open>The connection with its identity, the other connections of the slave, and the application.\<close>

record 'g thread_state =
  self_id :: connection
  self :: master_connection
  others :: "(connection \<times> master_connection) list"
  app :: 'g

definition connection_event_call :: "'g slave_setup \<Rightarrow> connection \<Rightarrow> connection_event \<Rightarrow> 'g \<Rightarrow> 'g" where
  "connection_event_call S con e g = (case sh_connectionEvent (handlers S) of None \<Rightarrow> g | Some h \<Rightarrow> h con e g)"

definition on_self :: "(master_connection \<Rightarrow> ('a \<times> master_connection) outcome) \<Rightarrow> 'g thread_state \<Rightarrow> ('a \<times> 'g thread_state) outcome" where
  "on_self f t = obind (f (self t)) (\<lambda>(x, con). Returns (x, t\<lparr>self := con\<rparr>))"

section \<open>Actions of the callbacks\<close>

text \<open>
  The replies of the callbacks go to the connection of the request, events to the event queue, which it
  shares with the slave. Printed lines do not concern the connection.
\<close>

fun perform :: "platform \<Rightarrow> action \<Rightarrow> master_connection \<Rightarrow> master_connection outcome" where
  "perform os (SendASDU _ a) con = obind (sendASDUInternal os a con) (\<lambda>(_, con). Returns con)"
| "perform os (EnqueueASDU a) con =
     obind (MessageQueue_enqueueASDU a (lowPrioQueue con)) (\<lambda>q. Returns (con\<lparr>lowPrioQueue := q\<rparr>))"
| "perform os (Print _) con = Returns con"

fun perform_all :: "platform \<Rightarrow> action list \<Rightarrow> master_connection \<Rightarrow> master_connection outcome" where
  "perform_all os [] con = Returns con"
| "perform_all os (x # xs) con = obind (perform os x con) (perform_all os xs)"

section \<open>Activation\<close>

fun deactivate_all :: "'g slave_setup \<Rightarrow> (connection \<times> master_connection) list \<Rightarrow> 'g \<Rightarrow>
    ((connection \<times> master_connection) list \<times> 'g) outcome" where
  "deactivate_all S [] g = Returns ([], g)"
| "deactivate_all S ((i, con) # cs) g =
     obind (MasterConnection_deactivate con) (\<lambda>(was_active, con).
     obind (deactivate_all S cs (if was_active then connection_event_call S i Deactivated g else g)) (\<lambda>(cs, g).
       Returns ((i, con) # cs, g)))"

definition CS104_Slave_activate :: "'g slave_setup \<Rightarrow> 'g thread_state \<Rightarrow> 'g thread_state outcome" where
  "CS104_Slave_activate S t =
     obind (deactivate_all S (others t) (app t)) (\<lambda>(cs, g).
     obind (MasterConnection_activate (self t)) (\<lambda>(was_inactive, con).
       Returns (t\<lparr>self := con, others := cs,
         app := if was_inactive then connection_event_call S (self_id t) Activated g else g\<rparr>)))"

section \<open>Messages\<close>

text \<open>An I frame in sequence is counted, and its ASDU is dispatched if the connection is active.\<close>

definition accept_i_frame ::
    "platform \<Rightarrow> 'g slave_setup \<Rightarrow> bytes \<Rightarrow> int \<Rightarrow> 'g thread_state \<Rightarrow> master_connection \<Rightarrow> (bool \<times> 'g thread_state) outcome" where
  "accept_i_frame os S buffer msgSize t con =
     obind (with_stateLock (\<lambda>con. ((), con\<lparr>receiveCount := (receiveCount con + 1) mod 32768,
         unconfirmedReceivedIMessages := unconfirmedReceivedIMessages con + 1\<rparr>)) con) (\<lambda>(_, con).
     obind (MasterConnection_isActive con) (\<lambda>(active, con).
       if \<not> active then Returns (False, t\<lparr>self := con\<rparr>)
       else case CS101_ASDU_createFromBuffer (alParameters S) (take (nat msgSize - 6) (drop 6 buffer)) of
         None \<Rightarrow> Returns (False, t\<lparr>self := con\<rparr>)
       | Some a \<Rightarrow> obind (handleASDU (handlers S) (self_id t) a (app t)) (\<lambda>(valid, acts, g).
           obind (perform_all os acts con) (\<lambda>con. Returns (valid, t\<lparr>self := con, app := g\<rparr>)))))"

text \<open>
  An I frame. A wrong send sequence number ends the handler while it holds the lock of the state.
\<close>

definition handle_i_frame :: "platform \<Rightarrow> 'g slave_setup \<Rightarrow> u64 \<Rightarrow> bytes \<Rightarrow> int \<Rightarrow> 'g thread_state \<Rightarrow> (bool \<times> 'g thread_state) outcome" where
  "handle_i_frame os S currentTime buffer msgSize t =
     (if msgSize < 7 then Returns (False, t)
      else obind (on_self (with_stateLock (\<lambda>con. ((), if \<not> timeoutT2Triggered con
             then con\<lparr>timeoutT2Triggered := True, lastConfirmationTime := currentTime\<rparr> else con))) t) (\<lambda>(_, t).
        let ns = (uint (buffer ! 3) * 0x100 + uint (buffer ! 2 AND 0xfe)) div 2;
            nr = (uint (buffer ! 5) * 0x100 + uint (buffer ! 4 AND 0xfe)) div 2
        in obind (wait_stateLock (self t)) (\<lambda>con.
           if ns \<noteq> receiveCount con then Returns (False, t\<lparr>self := con\<rparr>)
           else obind (checkSequenceNumber nr (post_stateLock con)) (\<lambda>(ok, con).
             if \<not> ok then Returns (False, t\<lparr>self := con\<rparr>)
             else accept_i_frame os S buffer msgSize t con))))"

definition handle_startdt :: "platform \<Rightarrow> 'g slave_setup \<Rightarrow> 'g thread_state \<Rightarrow> (bool \<times> 'g thread_state) outcome" where
  "handle_startdt os S t = obind (CS104_Slave_activate S t) (\<lambda>t.
     let con = self t;
         con = con\<lparr>highPrioQueue := HighPriorityASDUQueue_resetConnectionQueue (highPrioQueue con)\<rparr>;
         (n, con) = writeToSocket os STARTDT_CON_MSG con
     in Returns (\<not> n < 0, t\<lparr>self := con\<rparr>))"

definition handle_stopdt :: "platform \<Rightarrow> 'g slave_setup \<Rightarrow> 'g thread_state \<Rightarrow> (bool \<times> 'g thread_state) outcome" where
  "handle_stopdt os S t = obind (MasterConnection_deactivate (self t)) (\<lambda>(was_active, con).
     let g = (if was_active then connection_event_call S (self_id t) Deactivated (app t) else app t)
     in obind (with_stateLock (\<lambda>con.
            let (now, con) = Hal_getTimeInMs os con
            in ((), send_S os (con\<lparr>lastConfirmationTime := now, unconfirmedReceivedIMessages := 0,
                  timeoutT2Triggered := False\<rparr>))) con) (\<lambda>(_, con).
          let (n, con) = writeToSocket os STOPDT_CON_MSG con
          in Returns (\<not> n < 0, t\<lparr>self := con, app := g\<rparr>)))"

definition handle_s_frame :: "bytes \<Rightarrow> 'g thread_state \<Rightarrow> (bool \<times> 'g thread_state) outcome" where
  "handle_s_frame buffer t = obind (MasterConnection_isActive (self t)) (\<lambda>(active, con).
     if \<not> active then Returns (False, t\<lparr>self := con\<rparr>)
     else obind (checkSequenceNumber ((uint (buffer ! 4) + uint (buffer ! 5) * 0x100) div 2) con) (\<lambda>(ok, con).
       Returns (ok, t\<lparr>self := con\<rparr>)))"

text \<open>
  The message of \<open>msgSize\<close> bytes at the start of the receive buffer. A known message restarts t3.
\<close>

definition handle_known :: "platform \<Rightarrow> 'g slave_setup \<Rightarrow> u64 \<Rightarrow> bytes \<Rightarrow> int \<Rightarrow> 'g thread_state \<Rightarrow> (bool option \<times> 'g thread_state) outcome" where
  "handle_known os S currentTime buffer msgSize t =
     (let known = (\<lambda>m. obind m (\<lambda>(ok, t). Returns (Some ok, t))); b = buffer ! 2
      in if b AND 1 = 0 then known (handle_i_frame os S currentTime buffer msgSize t)
         else if b AND 0x43 = 0x43 then
           let (n, con) = writeToSocket os TESTFR_CON_MSG (self t) in Returns (Some (\<not> n < 0), t\<lparr>self := con\<rparr>)
         else if b AND 0x07 = 0x07 then known (handle_startdt os S t)
         else if b AND 0x13 = 0x13 then known (handle_stopdt os S t)
         else if b AND 0x83 = 0x83 then
           known (on_self (with_stateLock (\<lambda>con. (True, con\<lparr>waitingForTestFRcon := False\<rparr>))) t)
         else if b = 0x01 then known (handle_s_frame buffer t)
         else Returns (None, t))"

definition handleMessage :: "platform \<Rightarrow> 'g slave_setup \<Rightarrow> bytes \<Rightarrow> int \<Rightarrow> 'g thread_state \<Rightarrow> (bool \<times> 'g thread_state) outcome" where
  "handleMessage os S buffer msgSize t =
     (let (currentTime, con) = Hal_getTimeInMs os (self t); t = t\<lparr>self := con\<rparr>
      in if msgSize < 3 then Returns (False, t)
         else if buffer ! 0 \<noteq> 0x68 then Returns (False, t)
         else if uint (buffer ! 1) \<noteq> msgSize - 2 then Returns (False, t)
         else obind (handle_known os S currentTime buffer msgSize t) (\<lambda>(r, t). case r of
             None \<Rightarrow> Returns (True, t)
           | Some False \<Rightarrow> Returns (False, t)
           | Some True \<Rightarrow> obind (resetT3Timeout (conParameters S) currentTime (self t)) (\<lambda>con. Returns (True, t\<lparr>self := con\<rparr>))))"

section \<open>The loop of the thread\<close>

text \<open>After a message: acknowledge when w I frames have come.\<close>

definition acknowledge_after_w :: "platform \<Rightarrow> apci_parameters \<Rightarrow> master_connection \<Rightarrow> master_connection outcome" where
  "acknowledge_after_w os P con =
     (if unconfirmedReceivedIMessages con \<ge> apci_w P then
        let (now, con) = Hal_getTimeInMs os con
        in sendSMessage os (con\<lparr>lastConfirmationTime := now, unconfirmedReceivedIMessages := 0, timeoutT2Triggered := False\<rparr>)
      else Returns con)"

text \<open>Receiving; an error in the message stops the connection. True when the loop has to end at once.\<close>

definition receive_pass :: "platform \<Rightarrow> 'g slave_setup \<Rightarrow> 'g thread_state \<Rightarrow> (bool \<times> 'g thread_state) outcome" where
  "receive_pass os S t =
     (let (bytesRec, con) = receiveMessage os (self t); t = t\<lparr>self := con\<rparr>
      in if bytesRec = -1 then Returns (True, t)
         else if bytesRec > 0 then
           obind (handleMessage os S (recvBuffer (self t)) bytesRec t) (\<lambda>(ok, t).
           obind (if ok then Returns (self t) else MasterConnection_close (self t)) (\<lambda>con.
           obind (acknowledge_after_w os (conParameters S) con) (\<lambda>con. Returns (False, t\<lparr>self := con\<rparr>))))
         else Returns (False, t))"

text \<open>The timeouts, then sending if the connection is active.\<close>

definition timeouts_and_send :: "platform \<Rightarrow> apci_parameters \<Rightarrow> master_connection \<Rightarrow> master_connection outcome" where
  "timeouts_and_send os P con =
     obind (handleTimeouts os P con) (\<lambda>(timeoutsOk, con).
     obind (if timeoutsOk then Returns con else MasterConnection_close con) (\<lambda>con.
     obind (MasterConnection_isRunning con) (\<lambda>(running, con).
     obind (if running then MasterConnection_isActive con else Returns (False, con)) (\<lambda>(active, con).
     obind (if active then sendWaitingASDUs os con else Returns (False, con)) (\<lambda>(_, con). Returns con)))))"

text \<open>One pass, with whether the socket is ready; True when the loop ends.\<close>

definition thread_pass :: "platform \<Rightarrow> 'g slave_setup \<Rightarrow> bool \<Rightarrow> 'g thread_state \<Rightarrow> (bool \<times> 'g thread_state) outcome" where
  "thread_pass os S ready t =
     obind (MasterConnection_isRunning (self t)) (\<lambda>(running, con).
       let t = t\<lparr>self := con\<rparr>
       in if \<not> running then Returns (True, t)
          else obind (if ready then receive_pass os S t else Returns (False, t)) (\<lambda>(stop, t).
            if stop then Returns (True, t)
            else obind (timeouts_and_send os (conParameters S) (self t)) (\<lambda>con. Returns (False, t\<lparr>self := con\<rparr>))))"

text \<open>Before and after the loop.\<close>

definition thread_start :: "platform \<Rightarrow> 'g slave_setup \<Rightarrow> string \<Rightarrow> 'g thread_state \<Rightarrow> 'g thread_state outcome" where
  "thread_start os S peer t =
     (let (now, con) = Hal_getTimeInMs os (self t)
      in obind (resetT3Timeout (conParameters S) now con) (\<lambda>con.
           Returns (t\<lparr>self := con, app := connection_event_call S (self_id t) (Opened peer) (app t)\<rparr>)))"

definition thread_end :: "'g slave_setup \<Rightarrow> 'g thread_state \<Rightarrow> 'g thread_state outcome" where
  "thread_end S t =
     (let g = connection_event_call S (self_id t) Closed (app t)
      in obind (MasterConnection_close (self t)) (\<lambda>con.
         obind (MessageQueue_setWaitingForTransmissionWhenNotConfirmed (lowPrioQueue con)) (\<lambda>q.
           Returns (t\<lparr>self := con\<lparr>lowPrioQueue := q\<rparr>, app := g\<rparr>))))"

fun thread_loop :: "platform \<Rightarrow> 'g slave_setup \<Rightarrow> bool list \<Rightarrow> 'g thread_state \<Rightarrow> 'g thread_state outcome" where
  "thread_loop os S [] t = Returns t"
| "thread_loop os S (ready # rest) t = obind (thread_pass os S ready t) (\<lambda>(stop, t).
     if stop then thread_end S t else thread_loop os S rest t)"

end
