(* ===== verification/Connection_Roles.thy ===== *)
theory Connection_Roles
  imports Connection_Thread
begin

text \<open>
  Which operations change whether a connection is used and whether it is active: only the activation by
  its master and the deactivation by its master or in favour of another connection.
\<close>

section \<open>One connection\<close>

definition role :: "master_connection \<Rightarrow> bool \<times> bool" where
  "role con = (isUsed con, isActive con)"

named_theorems role_intros \<open>operations that keep the role of a connection\<close>

lemma role_with_stateLock:
  "with_stateLock f con = Returns (x, con') \<Longrightarrow> (\<And>c. role (snd (f c)) = role c) \<Longrightarrow> role con' = role con"
proof -
  assume w: "with_stateLock f con = Returns (x, con')" and f: "\<And>c. role (snd (f c)) = role c"
  obtain y c where c: "f (con\<lparr>stateLock := False\<rparr>) = (y, c)" by fastforce
  then have "role c = role con" using f [of "con\<lparr>stateLock := False\<rparr>"] by (simp add: role_def)
  then show ?thesis using w c
    by (auto simp: with_stateLock_def wait_stateLock_def post_stateLock_def role_def split: if_splits)
qed

lemma role_with_sentASDUsLock:
  "with_sentASDUsLock f con = Returns (x, con') \<Longrightarrow> (\<And>c y c'. f c = Returns (y, c') \<Longrightarrow> role c' = role c) \<Longrightarrow> role con' = role con"
  by (auto simp: with_sentASDUsLock_def obind_Returns role_def split: if_splits)

lemma role_writeToSocket: "writeToSocket os buf con = (n, con') \<Longrightarrow> role con' = role con"
  by (auto simp: writeToSocket_def role_def)

lemma role_sendIMessage [role_intros]: "sendIMessage os msg con = Returns (n, con') \<Longrightarrow> role con' = role con"
  unfolding sendIMessage_def by (erule role_with_stateLock) (simp add: writeToSocket_def role_def)

lemma role_sendASDU [role_intros]: "sendASDU os msg k p con = Returns con' \<Longrightarrow> role con' = role con"
  by (auto simp: sendASDU_def Let_def obind_Returns Hal_getTimeInMs_def role_def split: if_splits
      dest!: role_sendIMessage)

lemma role_confirm_oldest: "confirm_oldest con = Returns con' \<Longrightarrow> role con' = role con"
  by (auto simp: confirm_oldest_def Let_def obind_Returns role_def split: option.splits)

lemma ocont_Some: "ocont m f = Some r \<longleftrightarrow>
    (m = Undefined \<and> r = Undefined) \<or> (m = Diverges \<and> r = Diverges) \<or> (\<exists>x. m = Returns x \<and> f x = Some r)"
  by (cases m) auto

lemma role_remove_confirmed: "remove_confirmed ov old r con = Some m \<Longrightarrow> \<forall>con'. m = Returns con' \<longrightarrow> role con' = role con"
proof (induct rule: remove_confirmed.raw_induct
    [where P = "\<lambda>ov old r con m. \<forall>con'. m = Returns con' \<longrightarrow> role con' = role con", rotated, consumes 1, case_names step])
  case (step loop ov old r con m)
  show ?case
  proof (intro allI impI)
    fix con' assume m: "m = Returns con'"
    have up: "role (c\<lparr>oldestSentASDU := i\<rparr>) = role c" for c :: master_connection and i by (simp add: role_def)
    consider "con' = con" | c i where "confirm_oldest con = Returns c" "con' = c\<lparr>oldestSentASDU := i\<rparr>"
      | c i where "confirm_oldest con = Returns c" "loop ov old r (c\<lparr>oldestSentASDU := i\<rparr>) = Some (Returns con')"
      using step(2) m by (auto simp: Let_def ocont_Some split: if_splits)
    then show "role con' = role con"
      using role_confirm_oldest step(1) up by cases (metis, metis, metis)
  qed
qed

lemma role_checkSequenceNumber [role_intros]: "checkSequenceNumber r con = Returns (ok, con') \<Longrightarrow> role con' = role con"
  unfolding checkSequenceNumber_def
proof (erule role_with_sentASDUsLock)
  fix c y c'
  have loop: "run_loop (remove_confirmed ov old r c) = Returns c' \<Longrightarrow> role c' = role c" for ov old
    using role_remove_confirmed [of ov old r c] by (cases "remove_confirmed ov old r c") auto
  assume "(let (seqNoIsValid, counterOverflowDetected, oldestValidSeqNo) = sequence_check r c
    in if seqNoIsValid \<and> oldestSentASDU c \<noteq> -1
       then obind (run_loop (remove_confirmed counterOverflowDetected oldestValidSeqNo r c)) (\<lambda>con. Returns (True, con))
       else Returns (seqNoIsValid, c)) = Returns (y, c')"
  then show "role c' = role c" using loop by (auto simp: obind_Returns split: prod.splits if_splits)
qed

lemma role_queue: "role (con\<lparr>highPrioQueue := h\<rparr>) = role con" "role (con\<lparr>lowPrioQueue := q\<rparr>) = role con"
  by (simp_all add: role_def)

lemma role_sendASDUInternal [role_intros]: "sendASDUInternal os a con = Returns (ok, con') \<Longrightarrow> role con' = role con"
proof -
  assume s: "sendASDUInternal os a con = Returns (ok, con')"
  have "role c = role con" if "with_sentASDUsLock (\<lambda>con. if \<not> isSentBufferFull con
      then obind (sendASDU os (asdu_bytes a) 0 None con) (\<lambda>con. Returns (True, con)) else Returns (False, con)) con = Returns (x, c)" for x c
    using that by (rule role_with_sentASDUsLock) (auto simp: obind_Returns role_sendASDU split: if_splits)
  then show ?thesis using s
    by (auto simp: sendASDUInternal_def obind_Returns role_queue split: if_splits)
qed

lemma role_isRunning [role_intros]: "MasterConnection_isRunning con = Returns (b, con') \<Longrightarrow> role con' = role con"
  unfolding MasterConnection_isRunning_def by (erule role_with_stateLock) simp

lemma role_isActive [role_intros]: "MasterConnection_isActive con = Returns (b, con') \<Longrightarrow> role con' = role con \<and> b = isActive con"
  by (auto simp: MasterConnection_isActive_def with_stateLock_def wait_stateLock_def post_stateLock_def role_def split: if_splits)

lemma role_close [role_intros]: "MasterConnection_close con = Returns con' \<Longrightarrow> role con' = role con"
proof -
  assume "MasterConnection_close con = Returns con'"
  then have "with_stateLock (\<lambda>con. ((), con\<lparr>isRunning := False\<rparr>)) con = Returns ((), con')"
    by (auto simp: MasterConnection_close_def obind_Returns)
  then show ?thesis by (rule role_with_stateLock) (simp add: role_def)
qed

lemma role_sendNextHigh [role_intros]: "sendNextHighPriorityASDU os con = Returns (ok, con') \<Longrightarrow> role con' = role con"
  unfolding sendNextHighPriorityASDU_def
  by (erule role_with_sentASDUsLock)
    (auto simp: obind_Returns role_queue Let_def split: if_splits option.splits dest!: role_sendASDU)

lemma role_sendNextLow [role_intros]: "sendNextLowPriorityASDU os con = Returns con' \<Longrightarrow> role con' = role con"
  unfolding sendNextLowPriorityASDU_def obind_Returns
  by (auto elim!: role_with_sentASDUsLock)
    (auto simp: obind_Returns role_queue Let_def split: if_splits option.splits dest!: role_sendASDU)

lemma role_send_responses: "send_responses os con = Some m \<Longrightarrow> \<forall>x con'. m = Returns (x, con') \<longrightarrow> role con' = role con"
proof (induct rule: send_responses.raw_induct
    [where P = "\<lambda>os con m. \<forall>x con'. m = Returns (x, con') \<longrightarrow> role con' = role con", rotated, consumes 1, case_names step])
  case (step loop os con m)
  show ?case
  proof (intro allI impI)
    fix x con' assume m: "m = Returns (x, con')"
    consider "con' = con" | ok where "sendNextHighPriorityASDU os con = Returns (ok, con')"
      | ok b c where "sendNextHighPriorityASDU os con = Returns (ok, c)" "MasterConnection_isRunning c = Returns (b, con')"
      | ok b c c' where "sendNextHighPriorityASDU os con = Returns (ok, c)" "MasterConnection_isRunning c = Returns (b, c')"
          "loop os c' = Some (Returns (x, con'))"
      using step(2) m by (auto simp: ocont_Some split: if_splits)
    then show "role con' = role con"
      using role_sendNextHigh role_isRunning step(1) by cases (metis, metis, metis, metis)
  qed
qed

lemma role_sendWaitingASDUs [role_intros]: "sendWaitingASDUs os con = Returns (x, con') \<Longrightarrow> role con' = role con"
proof -
  assume "sendWaitingASDUs os con = Returns (x, con')"
  then obtain stop c where c: "run_loop (send_responses os con) = Returns (stop, c)"
    "con' = c \<or> sendNextLowPriorityASDU os c = Returns con'"
    by (auto simp: sendWaitingASDUs_def obind_Returns split: if_splits)
  then have "role c = role con" using role_send_responses [of os con] by (cases "send_responses os con") auto
  then show ?thesis using c(2) role_sendNextLow by auto
qed

text \<open>The shape \<open>void\<close> functions of the code have here: a locked section without a result.\<close>

lemma role_locked_void:
  "obind (with_stateLock (\<lambda>con. ((), f con)) con) (\<lambda>(_, con). Returns con) = Returns con' \<Longrightarrow>
     (\<And>c. role (f c) = role c) \<Longrightarrow> role con' = role con"
proof -
  assume "obind (with_stateLock (\<lambda>con. ((), f con)) con) (\<lambda>(_, con). Returns con) = Returns con'"
    and f: "\<And>c. role (f c) = role c"
  then have "with_stateLock (\<lambda>con. ((), f con)) con = Returns ((), con')" by (auto simp: obind_Returns)
  then show ?thesis by (rule role_with_stateLock) (simp add: f)
qed

lemma role_send_S [simp]: "role (send_S os con) = role con"
  by (simp add: send_S_def writeToSocket_def role_def)

lemma role_resetT3Timeout [role_intros]: "resetT3Timeout P now con = Returns con' \<Longrightarrow> role con' = role con"
  unfolding resetT3Timeout_def by (erule role_locked_void) (simp add: reset_T3_def role_def)

lemma role_sendSMessage [role_intros]: "sendSMessage os con = Returns con' \<Longrightarrow> role con' = role con"
  unfolding sendSMessage_def by (erule role_locked_void) simp

lemma role_checkT3Timeout: "checkT3Timeout P now con = Returns (b, con') \<Longrightarrow> role con' = role con"
  unfolding checkT3Timeout_def by (erule role_with_stateLock) (simp add: reset_T3_def role_def Let_def)

lemma role_handle_t3: "handle_t3 os P now con = Returns con' \<Longrightarrow> role con' = role con"
proof -
  assume h: "handle_t3 os P now con = Returns con'"
  then obtain b c where c: "checkT3Timeout P now con = Returns (b, c)" by (auto simp: handle_t3_def obind_Returns)
  show ?thesis
  proof (cases b)
    case False
    then show ?thesis using h c role_checkT3Timeout [OF c] by (simp add: handle_t3_def)
  next
    case True
    obtain n d where w: "writeToSocket os TESTFR_ACT_MSG c = (n, d)" by fastforce
    obtain e where e: "(if n < 0 then with_stateLock (\<lambda>con. ((), con\<lparr>isRunning := False\<rparr>)) d else Returns ((), d)) = Returns ((), e)"
      and f: "obind (with_stateLock (\<lambda>con. ((), resetTestFRConTimeout P now (con\<lparr>waitingForTestFRcon := True\<rparr>))) e)
        (\<lambda>(_, con). Returns con) = Returns con'"
      using h c True w by (auto simp: handle_t3_def obind_Returns)
    have "role con' = role e" using f by (rule role_locked_void) (simp add: resetTestFRConTimeout_def role_def)
    also have "role e = role d"
    proof (cases "n < 0")
      case True
      then have "with_stateLock (\<lambda>con. ((), con\<lparr>isRunning := False\<rparr>)) d = Returns ((), e)" using e by simp
      then show ?thesis by (rule role_with_stateLock) (simp add: role_def)
    qed (use e in simp)
    also have "role d = role c" using w by (rule role_writeToSocket)
    also have "role c = role con" using c by (rule role_checkT3Timeout)
    finally show ?thesis .
  qed
qed

lemma role_handle_t2 [simp]: "role (handle_t2 os P now con) = role con"
  by (simp add: handle_t2_def Let_def) (simp add: role_def)

lemma role_handleTimeouts [role_intros]: "handleTimeouts os P con = Returns (ok, con') \<Longrightarrow> role con' = role con"
proof -
  assume h: "handleTimeouts os P con = Returns (ok, con')"
  let ?now = "clock os (clock_reads con)" and ?con = "con\<lparr>clock_reads := clock_reads con + 1\<rparr>"
  let ?test = "\<lambda>con. let (late, con) = (if waitingForTestFRcon con then checkTestFRConTimeout P ?now con else (False, con))
    in (\<not> late, handle_t2 os P ?now con)"
  obtain c d x y where c: "handle_t3 os P ?now ?con = Returns c" and d: "with_stateLock ?test c = Returns (x, d)"
    and e: "with_sentASDUsLock (\<lambda>con. Returns (handle_t1 P ?now con)) d = Returns (y, con')"
    using h by (auto simp: handleTimeouts_def Hal_getTimeInMs_def obind_Returns)
  have "role con' = role d" using e
    by (rule role_with_sentASDUsLock) (auto simp: handle_t1_def Let_def role_def split: if_splits)
  also have "role d = role c" using d
    by (rule role_with_stateLock) (simp add: checkTestFRConTimeout_def resetTestFRConTimeout_def Let_def, simp add: role_def)
  also have "role c = role con" using role_handle_t3 [OF c] by (simp add: role_def)
  finally show ?thesis .
qed

lemma role_perform_all [role_intros]: "perform_all os acts con = Returns con' \<Longrightarrow> role con' = role con"
proof (induction acts arbitrary: con)
  case (Cons x acts)
  then obtain c where c: "perform os x con = Returns c" "perform_all os acts c = Returns con'" by (auto simp: obind_Returns)
  have "role c = role con"
    using c(1) by (cases x) (auto simp: obind_Returns role_queue dest: role_sendASDUInternal)
  then show ?case using Cons.IH [OF c(2)] by simp
qed simp

text \<open>Receiving changes the receive buffer only.\<close>

definition protocol_part :: "master_connection \<Rightarrow> master_connection" where
  "protocol_part con = con\<lparr>socket_reads := 0, consumed := [], recvBuffer := [], recvBufPos := 0\<rparr>"

lemma read_protocol: "protocol_part (snd (readFromSocket os pos n con)) = protocol_part con"
  by (simp add: readFromSocket_def protocol_part_def split: prod.split)

lemma protocol_pos [simp]: "protocol_part (con\<lparr>recvBufPos := p\<rparr>) = protocol_part con"
  by (simp add: protocol_part_def)

lemma receive_protocol: "protocol_part (snd (receiveMessage os con)) = protocol_part con"
proof -
  have 1: "protocol_part (snd (receive_start os p con)) = protocol_part con" for p
    using read_protocol [of os 0 1 con] by (cases "readFromSocket os 0 1 con") (simp add: receive_start_def)
  have 2: "protocol_part (snd (receive_length os p con)) = protocol_part con" for p con
    using read_protocol [of os 1 1 con] by (cases "readFromSocket os 1 1 con") (simp add: receive_length_def)
  have 3: "protocol_part (snd (receive_rest os p con)) = protocol_part con" for p con
    using read_protocol [of os p "uint (recvBuffer con ! 1) - p + 2" con]
    by (cases "readFromSocket os p (uint (recvBuffer con ! 1) - p + 2) con") (simp add: receive_rest_def Let_def)
  obtain r1 p1 c1 where s1: "receive_start os (recvBufPos con) con = ((r1, p1), c1)" by (metis prod.collapse)
  obtain r2 p2 c2 where s2: "receive_length os p1 c1 = ((r2, p2), c2)" by (metis prod.collapse)
  show ?thesis using 1 [of "recvBufPos con"] 2 [of p1 c1] 3 [of p2 c2] unfolding receiveMessage_def s1 by (simp add: s1 s2)
qed

lemma protocol_part_fields:
  shows "stateLock (protocol_part c) = stateLock c" "sentASDUsLock (protocol_part c) = sentASDUsLock c"
    "receiveCount (protocol_part c) = receiveCount c" "isRunning (protocol_part c) = isRunning c"
    "isActive (protocol_part c) = isActive c" "maxSentASDUs (protocol_part c) = maxSentASDUs c"
    "sentASDUs (protocol_part c) = sentASDUs c" "sendCount (protocol_part c) = sendCount c"
    "oldestSentASDU (protocol_part c) = oldestSentASDU c" "newestSentASDU (protocol_part c) = newestSentASDU c"
    "lowPrioQueue (protocol_part c) = lowPrioQueue c" "highPrioQueue (protocol_part c) = highPrioQueue c"
    "written (protocol_part c) = written c" "unconfirmedReceivedIMessages (protocol_part c) = unconfirmedReceivedIMessages c"
    "waitingForTestFRcon (protocol_part c) = waitingForTestFRcon c" "nextT3Timeout (protocol_part c) = nextT3Timeout c"
    "nextTestFRConTimeout (protocol_part c) = nextTestFRConTimeout c" "lastConfirmationTime (protocol_part c) = lastConfirmationTime c"
    "clock_reads (protocol_part c) = clock_reads c" "timeoutT2Triggered (protocol_part c) = timeoutT2Triggered c"
    "isUsed (protocol_part c) = isUsed c"
  by (simp_all add: protocol_part_def)

lemma protocol_fields:
  assumes "protocol_part con' = protocol_part con"
  shows "stateLock con' = stateLock con" "sentASDUsLock con' = sentASDUsLock con" "receiveCount con' = receiveCount con" "isRunning con' = isRunning con"
    "isActive con' = isActive con" "maxSentASDUs con' = maxSentASDUs con" "sentASDUs con' = sentASDUs con" "sendCount con' = sendCount con"
    "oldestSentASDU con' = oldestSentASDU con" "newestSentASDU con' = newestSentASDU con" "lowPrioQueue con' = lowPrioQueue con" "highPrioQueue con' = highPrioQueue con"
    "written con' = written con" "unconfirmedReceivedIMessages con' = unconfirmedReceivedIMessages con" "waitingForTestFRcon con' = waitingForTestFRcon con" "nextT3Timeout con' = nextT3Timeout con"
    "nextTestFRConTimeout con' = nextTestFRConTimeout con" "lastConfirmationTime con' = lastConfirmationTime con" "clock_reads con' = clock_reads con" "timeoutT2Triggered con' = timeoutT2Triggered con"
    "isUsed con' = isUsed con"
  by (metis assms protocol_part_fields)+

lemma role_receiveMessage: "role (snd (receiveMessage os con)) = role con"
  using protocol_fields [OF receive_protocol [of os con]] by (simp add: role_def)

end
