(* ===== verification/Message_Queue_Fifo.thy ===== *)
theory Message_Queue_Fifo
  imports Message_Queue
begin

text \<open>
  Correctness of the queue of events (\<open>MessageQueue\<close>): its buffer is an instance of \<open>ring_layout\<close>, and each
  operation refines one on a list of entries with their addresses.
\<close>

section \<open>The specification\<close>

interpretation events: ring_layout entry_size
  by unfold_locales (simp add: entry_size_def entry_info_size_def)

lemma write_entry_place: "mq_buffer (write_entry p e q) = events.place p e (mq_buffer q)"
  by (simp add: write_entry_def events.place_def fun_eq_iff split: option.splits)

text \<open>
  The queue is a list of entries with their addresses. Identifiers count up to the next one; an ASDU has
  at most 250 bytes. The buffer has room for two entries of the largest size, without which the
  queue does not work, and when it is used round, what is left unused at its end is less than one entry.
\<close>

type_synonym located_entries = "(nat \<times> queue_entry) list"

definition numbered :: "u64 \<Rightarrow> located_entries \<Rightarrow> bool" where
  "numbered nxt xs \<longleftrightarrow> (\<forall>i < length xs. qe_entryId (snd (xs ! i)) = nxt - of_nat (length xs - i))"

definition events_in :: "message_queue \<Rightarrow> located_entries \<Rightarrow> located_entries \<Rightarrow> bool" where
  "events_in q A B \<longleftrightarrow> events.layout (mq_buffer q) (mq_size q) A B \<and> mq_firstEntry q = Some (fst (hd A)) \<and>
     mq_lastInBufferEntry q = Some (fst (last A)) \<and> mq_entryCounter q = int (length (A @ B))"

definition mq_holds :: "message_queue \<Rightarrow> located_entries \<Rightarrow> bool" where
  "mq_holds q xs \<longleftrightarrow> 532 \<le> mq_size q \<and> mq_size q < 2 ^ 63 \<and> mq_entryCounter q = int (length xs) \<and>
     list_all (\<lambda>x. length (qe_asdu (snd x)) \<le> 250) xs \<and> numbered (mq_entryId q) xs \<and>
     (xs = [] \<or> (\<exists>A B. xs = A @ B \<and> events_in q A B \<and> mq_lastEntry q = Some (fst (last xs)) \<and>
        (B \<noteq> [] \<longrightarrow> mq_size q < fst (hd A) + events.span A + 266)))"

lemma mq_holdsI:
  assumes "xs = A @ B" "events_in q A B" "mq_lastEntry q = Some (fst (last xs))"
    "B \<noteq> [] \<Longrightarrow> mq_size q < fst (hd A) + events.span A + 266" "532 \<le> mq_size q" "mq_size q < 2 ^ 63"
    "list_all (\<lambda>x. length (qe_asdu (snd x)) \<le> 250) xs" "numbered (mq_entryId q) xs"
  shows "mq_holds q xs"
proof -
  have "mq_entryCounter q = int (length xs)" using assms(1,2) by (simp add: events_in_def)
  then show ?thesis using assms unfolding mq_holds_def by blast
qed

lemma numbered_drop: "numbered nxt xs \<Longrightarrow> numbered nxt (drop n xs)"
  by (auto simp: numbered_def add.commute)

lemma numbered_snoc: "numbered nxt xs \<Longrightarrow> qe_entryId e = nxt \<Longrightarrow> numbered (nxt + 1) (xs @ [(p, e)])"
  by (auto simp: numbered_def nth_append less_Suc_eq Suc_diff_le)

lemma numbered_put_back:
  assumes "numbered nxt xs" "\<And>x. x \<in> set xs \<Longrightarrow> fst x = p \<Longrightarrow> qe_entryId e = qe_entryId (snd x)"
  shows "numbered nxt (events.put_back p e xs)"
proof -
  have "qe_entryId (snd (events.put_back p e xs ! i)) = qe_entryId (snd (xs ! i))" if "i < length xs" for i
    using assms(2) [of "xs ! i"] that by (simp add: events.put_back_def case_prod_beta)
  then show ?thesis using assms(1) by (simp add: numbered_def)
qed

lemma mq_holds_create: "2 \<le> n \<Longrightarrow> n < 2 ^ 32 \<Longrightarrow> mq_holds (MessageQueue_create n) []"
  by (simp add: mq_holds_def MessageQueue_create_def MessageQueue_initialize_def entry_info_size_def numbered_def)

section \<open>The loops\<close>

lemma count_until_end_chain:
  "events.chain (mq_buffer q) p A \<Longrightarrow> A \<noteq> [] \<Longrightarrow> mq_lastInBufferEntry q = Some (fst (last A)) \<Longrightarrow>
     count_until_end q p n = Some (Returns (n + int (length A)))"
proof (induction A arbitrary: p n)
  case (Cons x A)
  have m: "mq_buffer q p = Some (snd x)" and c: "events.chain (mq_buffer q) (p + entry_size (snd x)) A"
    using Cons.prems(1) by (cases x; simp)+
  show ?case
  proof (cases "A = []")
    case True
    then show ?thesis using m Cons.prems by (cases x) (subst count_until_end.simps, simp)
  next
    case False
    then have "mq_lastInBufferEntry q \<noteq> Some p"
      using events.chain_single_iff [OF Cons.prems(1)] Cons.prems(3) by simp
    then show ?thesis
      using m Cons.IH [OF c False] Cons.prems(3) False by (subst count_until_end.simps) simp
  qed
qed simp

text \<open>What enqueueing leaves untouched while it looks for a place.\<close>

definition same_store :: "message_queue \<Rightarrow> message_queue \<Rightarrow> bool" where
  "same_store q q' \<longleftrightarrow> mq_size q' = mq_size q \<and> mq_entryId q' = mq_entryId q \<and> mq_buffer q' = mq_buffer q"

lemma make_room_spec:
  assumes "events_in q A B"
  shows "\<exists>n q'. make_room p sz q = Some (Returns q') \<and> same_store q q' \<and> (p + sz \<le> fst (hd A) \<longrightarrow> n = 0) \<and>
    (n < length A \<and> p + sz \<le> fst (hd (drop n A)) \<and> events_in q' (drop n A) B \<or>
     n = length A \<and> mq_entryCounter q' = int (length B) \<and> mq_firstEntry q' = Some 0 \<and> mq_lastInBufferEntry q' = Some p)"
  using assms
proof (induction A arbitrary: q)
  case Nil
  then show ?case by (simp add: events_in_def events.layout_def)
next
  case (Cons x A)
  have l: "events.layout (mq_buffer q) (mq_size q) (x # A) B" and first: "mq_firstEntry q = Some (fst x)"
    and high: "mq_lastInBufferEntry q = Some (fst (last (x # A)))" and count: "mq_entryCounter q = int (length (x # A @ B))"
    using Cons.prems by (simp_all add: events_in_def)
  show ?case
  proof (cases "p + sz > fst x")
    case False
    then have "make_room p sz q = Some (Returns q)" using first by (subst make_room.simps) simp
    then show ?thesis using Cons.prems False
      by (intro exI [of _ 0] exI [of _ q]) (simp add: same_store_def)
  next
    case True
    show ?thesis
    proof (cases "A = []")
      case A: True
      have "make_room p sz q = Some (Returns (q\<lparr>mq_entryCounter := mq_entryCounter q - 1, mq_firstEntry := Some 0,
          mq_lastInBufferEntry := Some p\<rparr>))"
        using True first high count A by (subst make_room.simps) simp
      then show ?thesis using True A count
        by (intro exI [of _ "Suc 0"] exI [of _ "q\<lparr>mq_entryCounter := mq_entryCounter q - 1, mq_firstEntry := Some 0,
          mq_lastInBufferEntry := Some p\<rparr>"]) (simp add: same_store_def)
    next
      case A: False
      let ?q = "q\<lparr>mq_entryCounter := mq_entryCounter q - 1, mq_firstEntry := Some (fst x + entry_size (snd x))\<rparr>"
      have "mq_buffer q (fst x) = Some (snd x)" using events.layout_at [OF l, of "fst x" "snd x"] by simp
      moreover have "fst x \<noteq> fst (last (x # A))" using events.layout_highest_iff [OF l] A by simp
      ultimately have step: "make_room p sz q = make_room p sz ?q"
        using True first high count A by (subst make_room.simps) simp
      have "events_in ?q A B"
        using events.layout_advance [OF l A] high count A by (simp add: events_in_def)
      from Cons.IH [OF this] obtain n q' where n: "make_room p sz ?q = Some (Returns q')" "same_store ?q q'"
        "n < length A \<and> p + sz \<le> fst (hd (drop n A)) \<and> events_in q' (drop n A) B \<or>
         n = length A \<and> mq_entryCounter q' = int (length B) \<and> mq_firstEntry q' = Some 0 \<and> mq_lastInBufferEntry q' = Some p"
        by blast
      then show ?thesis using True step
        by (intro exI [of _ "Suc n"] exI [of _ q']) (auto simp: same_store_def)
    qed
  qed
qed

section \<open>Enqueueing\<close>

text \<open>The place that is found: entries \<open>ys\<close> are kept, the new one goes behind them or round to the start.\<close>

definition slot_for :: "message_queue \<Rightarrow> nat \<Rightarrow> nat \<Rightarrow> located_entries \<Rightarrow> bool" where
  "slot_for q sz p ys \<longleftrightarrow> mq_entryCounter q = int (length ys) \<and> p + sz \<le> mq_size q \<and>
     (ys = [] \<and> p = 0 \<and> mq_firstEntry q = Some 0 \<and> mq_lastInBufferEntry q = Some 0 \<or>
      ys \<noteq> [] \<and> events.layout (mq_buffer q) (mq_size q) ys [] \<and> mq_firstEntry q = Some (fst (hd ys)) \<and>
        p = fst (hd ys) + events.span ys \<and> mq_lastInBufferEntry q \<in> {Some p, Some (fst (last ys))} \<or>
      (\<exists>A B. ys = A @ B \<and> events_in q A B \<and> p = events.span B \<and> p + sz \<le> fst (hd A) \<and>
        mq_size q < fst (hd A) + events.span A + 266))"

lemma span_end_drop:
  assumes "events.chain m a A" "n < length A" "a = fst (hd A)"
  shows "fst (hd (drop n A)) + events.span (drop n A) = fst (hd A) + events.span A"
proof -
  have "events.chain m (a + events.span (take n A)) (drop n A)"
    using assms(1) events.chain_append [of m a "take n A" "drop n A"] by simp
  then have "fst (hd (drop n A)) = a + events.span (take n A)" using assms(2) by (simp add: events.chain_hd)
  moreover have "events.span A = events.span (take n A) + events.span (drop n A)"
    using events.span_simps(3) [of "take n A" "drop n A"] by simp
  ultimately show ?thesis using assms(3) by simp
qed

text \<open>Dropping old entries for a place at the end of the newer ones gives such a slot.\<close>

lemma make_room_slot:
  assumes q: "events_in q A B" and tight: "mq_size q < fst (hd A) + events.span A + 266"
    and p: "p = events.span B" "p + sz \<le> mq_size q"
  shows "\<exists>n q'. make_room p sz q = Some (Returns q') \<and> same_store q q' \<and> slot_for q' sz p (drop n (A @ B)) \<and>
    (p + sz \<le> fst (hd A) \<longrightarrow> n = 0)"
proof -
  have l: "events.layout (mq_buffer q) (mq_size q) A B" using q by (simp add: events_in_def)
  obtain n q' where r: "make_room p sz q = Some (Returns q')" "same_store q q'" "p + sz \<le> fst (hd A) \<longrightarrow> n = 0"
    "n < length A \<and> p + sz \<le> fst (hd (drop n A)) \<and> events_in q' (drop n A) B \<or>
     n = length A \<and> mq_entryCounter q' = int (length B) \<and> mq_firstEntry q' = Some 0 \<and> mq_lastInBufferEntry q' = Some p"
    using make_room_spec [OF q, of p sz] by blast
  from r(4) have "slot_for q' sz p (drop n (A @ B))"
  proof (elim disjE conjE)
    assume n: "n < length A" and fit: "p + sz \<le> fst (hd (drop n A))" and e: "events_in q' (drop n A) B"
    have "mq_size q' < fst (hd (drop n A)) + events.span (drop n A) + 266"
      using tight r(2) span_end_drop [of "mq_buffer q" "fst (hd A)" A n] l n by (simp add: same_store_def events.layout_def)
    moreover have "mq_entryCounter q' = int (length (drop n (A @ B)))" using e n by (simp add: events_in_def)
    moreover have "drop n (A @ B) = drop n A @ B" using n by simp
    moreover have "p + sz \<le> mq_size q'" using p(2) r(2) by (simp add: same_store_def)
    ultimately show ?thesis using e fit p(1) unfolding slot_for_def by blast
  next
    assume n: "n = length A" and c: "mq_entryCounter q' = int (length B)" "mq_firstEntry q' = Some 0" "mq_lastInBufferEntry q' = Some p"
    show ?thesis
    proof (cases "B = []")
      case True
      then show ?thesis using n c p r(2) by (simp add: slot_for_def same_store_def)
    next
      case False
      then show ?thesis
        using n c p r(2) events.layout_round [OF l False] by (simp add: slot_for_def same_store_def)
    qed
  qed
  with r show ?thesis by blast
qed

lemma find_slot_spec:
  assumes q: "mq_holds q xs" and sz: "sz \<le> 266"
  shows "\<exists>n p q'. find_slot sz q = Returns (p, q') \<and> same_store q q' \<and> slot_for q' sz p (drop n xs) \<and>
    (events.span xs + 532 \<le> mq_size q \<longrightarrow> n = 0)"
proof (cases "xs = []")
  case True
  then show ?thesis using q sz
    by (intro exI [of _ 0]) (simp add: mq_holds_def find_slot_def slot_for_def same_store_def)
next
  case False
  have size: "532 \<le> mq_size q" and count: "mq_entryCounter q = int (length xs)"
    and short: "\<And>x. x \<in> set xs \<Longrightarrow> entry_size (snd x) \<le> 266"
    using q by (auto simp: mq_holds_def entry_size_def entry_info_size_def list_all_iff)
  obtain A B where xs: "xs = A @ B" and e: "events_in q A B" and lst: "mq_lastEntry q = Some (fst (last xs))"
    and tight: "B \<noteq> [] \<Longrightarrow> mq_size q < fst (hd A) + events.span A + 266"
    using q False by (auto simp: mq_holds_def)
  have l: "events.layout (mq_buffer q) (mq_size q) A B" and first: "mq_firstEntry q = Some (fst (hd A))"
    and high: "mq_lastInBufferEntry q = Some (fst (last A))"
    using e by (simp_all add: events_in_def)
  have A: "A \<noteq> []" "events.chain (mq_buffer q) (fst (hd A)) A" "fst (hd A) + events.span A \<le> mq_size q" "events.span B \<le> fst (hd A)"
    using l by (simp_all add: events.layout_def)
  define nxt where "nxt = fst (last xs) + entry_size (snd (last xs))"
  have nxt: "nxt = (if B = [] then fst (hd A) + events.span A else events.span B)"
    using events.layout_end [OF l] xs by (simp add: nxt_def)
  have round: "nxt \<le> fst (hd A) \<longleftrightarrow> B \<noteq> []"
    using events.layout_round_iff [OF l] xs by (simp add: nxt_def)
  have "mq_buffer q (fst (last xs)) = Some (snd (last xs))"
    using events.layout_at [OF l] xs False by (metis last_in_set prod.collapse)
  then have find: "find_slot sz q = obind (choose_slot sz (fst (hd A)) (fst (last xs)) (snd (last xs)) q)
      (\<lambda>(p, first, q). if p \<le> first then obind (run_loop (make_room p sz q)) (\<lambda>q. Returns (p, q)) else Returns (p, q))"
    using first lst count False by (cases "last xs") (simp add: find_slot_def deref_def)
  show ?thesis
  proof (cases "nxt + sz > mq_size q")
    case fits: False
    then have choose: "choose_slot sz (fst (hd A)) (fst (last xs)) (snd (last xs)) q = Returns (nxt, fst (hd A), q)"
      by (simp add: choose_slot_def nxt_def Let_def)
    show ?thesis
    proof (cases "B = []")
      case True
      then have "slot_for q sz nxt xs"
        using fits nxt A l first high count xs False by (simp add: slot_for_def)
      then show ?thesis using find choose round True
        by (intro exI [of _ 0] exI [of _ nxt] exI [of _ q]) (simp add: same_store_def)
    next
      case B: False
      have p: "nxt = events.span B" "nxt + sz \<le> mq_size q" using nxt B fits by simp_all
      obtain n q' where r: "make_room nxt sz q = Some (Returns q')" "same_store q q'" "slot_for q' sz nxt (drop n (A @ B))"
        "nxt + sz \<le> fst (hd A) \<longrightarrow> n = 0"
        using make_room_slot [OF e tight [OF B] p] by blast
      have "nxt + sz \<le> fst (hd A)" if "events.span xs + 532 \<le> mq_size q"
        using that tight [OF B] p(1) sz xs by simp
      with r find choose round B xs show ?thesis by auto
    qed
  next
    case wrap: True
    show ?thesis
    proof (cases "B = []")
      case True
      have choose: "choose_slot sz (fst (hd A)) (fst (last xs)) (snd (last xs)) q = Returns (0, fst (hd A), q)"
        using wrap round True high xs by (simp add: choose_slot_def nxt_def Let_def)
      have tight: "mq_size q < fst (hd A) + events.span A + 266" using wrap nxt True sz by simp
      have e': "events_in q A []" using e True by simp
      have p: "0 = events.span []" "0 + sz \<le> mq_size q" using size sz by simp_all
      obtain n q' where r: "make_room 0 sz q = Some (Returns q')" "same_store q q'" "slot_for q' sz 0 (drop n (A @ []))"
        "0 + sz \<le> fst (hd A) \<longrightarrow> n = 0"
        using make_room_slot [OF e' tight p] by blast
      have "sz \<le> fst (hd A)" if "events.span xs + 532 \<le> mq_size q"
        using that tight sz xs True by simp
      with r find choose xs True show ?thesis by auto
    next
      case B: False
      let ?q = "q\<lparr>mq_entryCounter := int (length B), mq_firstEntry := Some 0, mq_lastInBufferEntry := Some (fst (last B))\<rparr>"
      have span: "266 < events.span B" using wrap nxt B sz size by simp
      have Bc: "events.chain (mq_buffer q) 0 B" using l by (simp add: events.layout_def)
      have last: "0 < fst (last B)"
      proof (rule ccontr)
        assume "\<not> 0 < fst (last B)"
        then have "events.span B = entry_size (snd (last B))" using events.chain_last [OF Bc B] by simp
        then show False using span short [of "last B"] B xs by simp
      qed
      have "MessageQueue_countEntriesUntilEndOfBuffer q (fst (hd A)) = Returns (int (length A))"
        using count_until_end_chain [OF A(2,1) high, of 0] by (simp add: MessageQueue_countEntriesUntilEndOfBuffer_def)
      then have choose: "choose_slot sz (fst (hd A)) (fst (last xs)) (snd (last xs)) q = Returns (0, 0, ?q)"
        using wrap round B last xs count by (simp add: choose_slot_def nxt_def Let_def)
      have e': "events_in ?q B []"
        using events.layout_round [OF l B] by (simp add: events_in_def)
      have tight: "mq_size ?q < fst (hd B) + events.span B + 266"
        using wrap nxt B sz events.layout_round(2) [OF l B] by simp
      have p: "0 = events.span []" "0 + sz \<le> mq_size ?q" using size sz by simp_all
      obtain n q' where r: "make_room 0 sz ?q = Some (Returns q')" "same_store ?q q'" "slot_for q' sz 0 (drop n (B @ []))"
        using make_room_slot [OF e' tight p] by blast
      have "\<not> events.span xs + 532 \<le> mq_size q"
        using wrap nxt B sz xs by simp
      moreover have "drop n (B @ []) = drop (length A + n) xs" using xs by simp
      ultimately show ?thesis
        using r find choose by (intro exI [of _ "length A + n"] exI [of _ 0] exI [of _ q']) (simp add: same_store_def)
    qed
  qed
qed

text \<open>The entry that is written for an ASDU.\<close>

definition waiting_entry :: "u64 \<Rightarrow> bytes \<Rightarrow> queue_entry" where
  "waiting_entry entryId bs = \<lparr>qe_entryId = entryId,
     qe_entryState = QUEUE_ENTRY_STATE_WAITING_FOR_TRANSMISSION, qe_asdu = bs\<rparr>"

lemma append_entry_simps:
  "mq_size (append_entry p a q) = mq_size q" "mq_entryId (append_entry p a q) = mq_entryId q + 1"
  "mq_lastEntry (append_entry p a q) = Some p" "mq_firstEntry (append_entry p a q) = mq_firstEntry q"
  "mq_entryCounter (append_entry p a q) = mq_entryCounter q + 1"
  "mq_lastInBufferEntry (append_entry p a q) =
     (case mq_lastInBufferEntry q of None \<Rightarrow> None | Some h \<Rightarrow> if p > h then Some p else Some h)"
  "mq_buffer (append_entry p a q) = events.place p (waiting_entry (mq_entryId q) (asdu_bytes a)) (mq_buffer q)"
  unfolding append_entry_def Let_def write_entry_place waiting_entry_def
  by (simp_all add: write_entry_def split: option.split)

lemma enqueue_spec:
  assumes q: "mq_holds q xs" and len: "length (asdu_bytes a) \<le> 250"
  shows "\<exists>n p q'. MessageQueue_enqueueASDU a q = Returns q' \<and>
    mq_holds q' (drop n xs @ [(p, waiting_entry (mq_entryId q) (asdu_bytes a))]) \<and> mq_entryId q' = mq_entryId q + 1 \<and>
    mq_size q' = mq_size q \<and> (events.span xs + 532 \<le> mq_size q \<longrightarrow> n = 0)"
proof -
  define e where "e = waiting_entry (mq_entryId q) (asdu_bytes a)"
  define sz where "sz = entry_size e"
  have sz: "sz = entry_info_size + (length (asdu_header a) + length (asdu_payload a))" "sz \<le> 266" "0 < sz"
    using len by (simp_all add: sz_def e_def entry_size_def waiting_entry_def asdu_bytes_def entry_info_size_def)
  obtain n p q1 where f: "find_slot sz q = Returns (p, q1)" "same_store q q1" "slot_for q1 sz p (drop n xs)"
    "events.span xs + 532 \<le> mq_size q \<longrightarrow> n = 0"
    using find_slot_spec [OF q sz(2)] by blast
  let ?ys = "drop n xs"
  define q3 where "q3 = append_entry p a q1"
  have id: "mq_entryId q1 = mq_entryId q" and count: "mq_entryCounter q1 = int (length ?ys)" and "mq_size q1 = mq_size q"
    using f(2,3) by (simp_all add: same_store_def slot_for_def)
  have run: "MessageQueue_enqueueASDU a q = Returns q3"
    using f(1) sz(1) len by (simp add: MessageQueue_enqueueASDU_def asdu_bytes_def q3_def)
  have size: "mq_size q3 = mq_size q" "mq_entryId q3 = mq_entryId q + 1" "mq_lastEntry q3 = Some p"
    "mq_firstEntry q3 = mq_firstEntry q1" "mq_entryCounter q3 = int (length (?ys @ [(p, e)]))"
    "mq_buffer q3 = events.place p e (mq_buffer q1)" "mq_size q1 = mq_size q"
    using id count \<open>mq_size q1 = mq_size q\<close> by (simp_all add: q3_def append_entry_simps e_def)
  have high: "mq_lastInBufferEntry q3 = (case mq_lastInBufferEntry q1 of None \<Rightarrow> None | Some h \<Rightarrow> if p > h then Some p else Some h)"
    by (simp add: q3_def append_entry_simps)
  have "\<exists>A B. ?ys @ [(p, e)] = A @ B \<and> events_in q3 A B \<and> (B \<noteq> [] \<longrightarrow> mq_size q3 < fst (hd A) + events.span A + 266)"
    using f(3) unfolding slot_for_def
  proof (elim conjE disjE exE)
    assume "?ys = []" "p = 0" "mq_firstEntry q1 = Some 0" "mq_lastInBufferEntry q1 = Some 0" "p + sz \<le> mq_size q1"
    then have "events_in q3 [(p, e)] []"
      using size high events.layout_single [of e "mq_size q1" "mq_buffer q1"] by (simp add: events_in_def sz_def)
    then show ?thesis using \<open>?ys = []\<close> by force
  next
    assume ys: "?ys \<noteq> []" and l: "events.layout (mq_buffer q1) (mq_size q1) ?ys []" and first: "mq_firstEntry q1 = Some (fst (hd ?ys))"
      and p: "p = fst (hd ?ys) + events.span ?ys" and h: "mq_lastInBufferEntry q1 \<in> {Some p, Some (fst (last ?ys))}"
      and fit: "p + sz \<le> mq_size q1"
    have "fst (last ?ys) < p"
      using events.layout_end [OF l] p events.esize_pos [of "snd (last ?ys)"] by simp
    then have "mq_lastInBufferEntry q3 = Some p" using h high by auto
    moreover have "events.layout (mq_buffer q3) (mq_size q3) (?ys @ [(p, e)]) []"
      using events.layout_behind [OF l, of e] fit p size by (simp add: sz_def)
    ultimately have "events_in q3 (?ys @ [(p, e)]) []"
      using ys first size by (simp add: events_in_def)
    then show ?thesis by force
  next
    fix A B
    assume ys: "?ys = A @ B" and e1: "events_in q1 A B" and p: "p = events.span B" and fit: "p + sz \<le> fst (hd A)"
      and tight: "mq_size q1 < fst (hd A) + events.span A + 266"
    have l: "events.layout (mq_buffer q1) (mq_size q1) A B" using e1 by (simp add: events_in_def)
    then have A: "A \<noteq> []" "events.chain (mq_buffer q1) (fst (hd A)) A" by (simp_all add: events.layout_def)
    have "fst (hd A) \<le> fst (last A)"
      using events.chain_at [OF A(2), of "fst (last A)" "snd (last A)"] A(1) by simp
    then have "mq_lastInBufferEntry q3 = Some (fst (last A))"
      using e1 high fit sz(3) by (simp add: events_in_def)
    moreover have "events.layout (mq_buffer q3) (mq_size q3) A (B @ [(p, e)])"
      using events.layout_behind_round [OF l, of e] fit p size by (simp add: sz_def)
    ultimately have "events_in q3 A (B @ [(p, e)])"
      using e1 size ys by (simp add: events_in_def)
    then show ?thesis using ys tight size by (intro exI [of _ A] exI [of _ "B @ [(p, e)]"]) simp
  qed
  moreover have "numbered (mq_entryId q3) (?ys @ [(p, e)])"
    using numbered_snoc [OF numbered_drop, of "mq_entryId q" xs e n p] q size(2)
    by (simp add: mq_holds_def e_def waiting_entry_def)
  moreover have "list_all (\<lambda>x. length (qe_asdu (snd x)) \<le> 250) (?ys @ [(p, e)])"
    using q len by (auto simp: mq_holds_def e_def waiting_entry_def list_all_iff dest: in_set_dropD)
  ultimately have "mq_holds q3 (?ys @ [(p, e)])"
    using q size by (simp add: mq_holds_def)
  then show ?thesis using run size f(4) unfolding e_def by blast
qed

section \<open>States of entries\<close>

definition mark :: "nat \<Rightarrow> entry_state \<Rightarrow> located_entries \<Rightarrow> located_entries" where
  "mark p s xs = map (\<lambda>(a, e). if a = p then (a, e\<lparr>qe_entryState := s\<rparr>) else (a, e)) xs"

lemma mark_simps [simp]:
  "mark p s [] = []" "mark p s (x # xs) = (if fst x = p then (p, (snd x)\<lparr>qe_entryState := s\<rparr>) else x) # mark p s xs"
  "mark p s (xs @ ys) = mark p s xs @ mark p s ys" "length (mark p s xs) = length xs" "mark p s xs = [] \<longleftrightarrow> xs = []"
  by (auto simp: mark_def case_prod_beta)

lemma mark_other: "p \<notin> set (map fst xs) \<Longrightarrow> mark p s xs = xs"
  by (induction xs) auto

lemma fst_mark [simp]: "map fst (mark p s xs) = map fst xs"
  by (simp add: mark_def case_prod_beta)

lemma located_unique: "distinct (map fst xs) \<Longrightarrow> (p, e) \<in> set xs \<Longrightarrow> x \<in> set xs \<Longrightarrow> fst x = p \<Longrightarrow> snd x = e"
  by (metis (no_types, lifting) distinct_map fst_conv inj_onD snd_conv)

lemma mark_put_back:
  assumes "distinct (map fst xs)" "(p, e) \<in> set xs"
  shows "events.put_back p (e\<lparr>qe_entryState := s\<rparr>) xs = mark p s xs"
proof -
  show ?thesis using located_unique [OF assms] by (auto simp: mark_def events.put_back_def case_prod_beta)
qed

lemma mq_holds_distinct: "mq_holds q xs \<Longrightarrow> distinct (map fst xs)"
  using events.layout_distinct by (auto simp: mq_holds_def events_in_def simp del: map_append)

lemma mq_holds_at: "mq_holds q xs \<Longrightarrow> (p, e) \<in> set xs \<Longrightarrow> mq_buffer q p = Some e"
  using events.layout_at by (auto simp: mq_holds_def events_in_def simp del: set_append)

lemma mq_holds_ends:
  assumes "mq_holds q xs" "xs \<noteq> []"
  shows "mq_firstEntry q = Some (fst (hd xs))" "mq_lastEntry q = Some (fst (last xs))" "mq_entryCounter q = int (length xs)"
proof -
  obtain A B where "xs = A @ B" "events_in q A B" "mq_lastEntry q = Some (fst (last xs))"
    using assms by (auto simp: mq_holds_def)
  moreover have "A \<noteq> []" using \<open>events_in q A B\<close> by (simp add: events_in_def events.layout_def)
  ultimately show "mq_firstEntry q = Some (fst (hd xs))" "mq_lastEntry q = Some (fst (last xs))"
    by (simp_all add: events_in_def)
  show "mq_entryCounter q = int (length xs)" using assms by (simp add: mq_holds_def)
qed

lemma set_state_fields:
  "mq_size (set_state p e s q) = mq_size q" "mq_entryId (set_state p e s q) = mq_entryId q"
  "mq_firstEntry (set_state p e s q) = mq_firstEntry q" "mq_lastEntry (set_state p e s q) = mq_lastEntry q"
  "mq_lastInBufferEntry (set_state p e s q) = mq_lastInBufferEntry q" "mq_entryCounter (set_state p e s q) = mq_entryCounter q"
  "mq_buffer (set_state p e s q) = (mq_buffer q)(p \<mapsto> e\<lparr>qe_entryState := s\<rparr>)"
  by (simp_all add: set_state_def)

lemma mq_holds_set_state:
  assumes q: "mq_holds q xs" and p: "(p, e) \<in> set xs"
  shows "mq_holds (set_state p e s q) (mark p s xs)"
proof -
  let ?e = "e\<lparr>qe_entryState := s\<rparr>" and ?q = "set_state p e s q"
  have eq: "events.put_back p ?e xs = mark p s xs" using mark_put_back [OF mq_holds_distinct [OF q] p] .
  obtain A B where xs: "xs = A @ B" and e: "events_in q A B" and lst: "mq_lastEntry q = Some (fst (last xs))"
    and tight: "B \<noteq> [] \<Longrightarrow> mq_size q < fst (hd A) + events.span A + 266"
    using q p by (auto simp: mq_holds_def)
  have l: "events.layout (mq_buffer q) (mq_size q) A B" using e by (simp add: events_in_def)
  then have A: "A \<noteq> []" "events.chain (mq_buffer q) (fst (hd A)) A" by (simp_all add: events.layout_def)
  have at: "mq_buffer q p = Some e" using mq_holds_at [OF q p] .
  have sz: "entry_size ?e = entry_size e" by (simp add: entry_size_def)
  let ?A = "events.put_back p ?e A" and ?B = "events.put_back p ?e B"
  note ends = events.fst_put_back [OF A(1), of p ?e]
  have "events_in ?q ?A ?B"
    using events.layout_put_back [OF l at sz] e ends by (simp add: events_in_def set_state_fields)
  moreover have "events.span ?A = events.span A" using events.span_put_back [OF A(2) at sz] .
  moreover have "fst (last (mark p s xs)) = fst (last xs)"
    using events.fst_put_back [of xs p ?e] p eq by (metis empty_iff list.set(1))
  moreover have "numbered (mq_entryId q) (mark p s xs)"
    unfolding eq [symmetric] using q located_unique [OF mq_holds_distinct [OF q] p]
    by (intro numbered_put_back) (simp_all add: mq_holds_def)
  moreover have "list_all (\<lambda>x. length (qe_asdu (snd x)) \<le> 250) (mark p s xs)"
    using q by (auto simp: mq_holds_def list_all_iff mark_def split: if_splits)
  moreover have "mark p s xs = ?A @ ?B" using eq xs by simp
  moreover have "?B \<noteq> [] \<Longrightarrow> mq_size ?q < fst (hd ?A) + events.span ?A + 266"
    using tight ends calculation(2) by (simp add: set_state_fields)
  ultimately show ?thesis
    using q lst by (intro mq_holdsI [of _ ?A ?B]) (simp_all add: set_state_fields mq_holds_def)
qed

section \<open>Walking through the queue\<close>

lemma chain_next: "events.chain m p (ys @ (a, e) # z # zs) \<Longrightarrow> fst z = a + entry_size e"
  by (cases z) (simp add: events.chain_append)

lemma next_entry_order:
  assumes q: "mq_holds q (ys @ (a, e) # z # zs)"
  shows "next_entry q a e = fst z"
proof -
  obtain A B where xs: "ys @ (a, e) # z # zs = A @ B" and ev: "events_in q A B"
    using q by (auto simp: mq_holds_def)
  have l: "events.layout (mq_buffer q) (mq_size q) A B" and high: "mq_lastInBufferEntry q = Some (fst (last A))"
    using ev by (simp_all add: events_in_def)
  then have A: "A \<noteq> []" "events.chain (mq_buffer q) (fst (hd A)) A" "events.chain (mq_buffer q) 0 B"
    by (simp_all add: events.layout_def)
  have dist: "distinct (map fst (A @ B))" using events.layout_distinct [OF l] .
  consider ws where "A = ys @ (a, e) # z # ws" | "A = ys @ [(a, e)]" "B = z # zs" | ws where "B = ws @ (a, e) # z # zs"
  proof -
    from xs have "(\<exists>us. ys @ us = A \<and> (a, e) # z # zs = us @ B) \<or> (\<exists>us. ys = A @ us \<and> us @ (a, e) # z # zs = B)"
      by (auto simp: append_eq_append_conv2)
    then show thesis
    proof (elim disjE exE conjE)
      fix us assume us: "ys @ us = A" "(a, e) # z # zs = us @ B"
      show thesis
      proof (cases us)
        case Nil
        then show thesis using us that(3) [of "[]"] by simp
      next
        case (Cons u us')
        then show thesis using us that(1) that(2) by (cases us') auto
      qed
    qed (use that(3) in blast)
  qed
  then show ?thesis
  proof cases
    case 1
    then have "fst (last A) \<noteq> a" using dist by auto
    then show ?thesis using high chain_next A(2) 1 by (auto simp: next_entry_def)
  next
    case 2
    then show ?thesis using high A(3) by (cases z) (simp add: next_entry_def)
  next
    case 3
    have "fst (last A) \<in> set (map fst A)" using A(1) by simp
    then have "fst (last A) \<noteq> a" using dist 3 by auto
    then show ?thesis using high chain_next A(3) 3 by (auto simp: next_entry_def)
  qed
qed

lemma last_entry_iff:
  assumes "mq_holds q (ys @ (a, e) # zs)"
  shows "mq_lastEntry q = Some a \<longleftrightarrow> zs = []"
proof -
  have "mq_lastEntry q = Some (fst (last ((a, e) # zs)))" using mq_holds_ends(2) [OF assms] by simp
  moreover have "fst (last zs) \<noteq> a" if "zs \<noteq> []"
    using mq_holds_distinct [OF assms] that last_in_set [OF that] by auto
  ultimately show ?thesis by auto
qed

definition is_waiting :: "nat \<times> queue_entry \<Rightarrow> bool" where
  "is_waiting x \<longleftrightarrow> qe_entryState (snd x) = QUEUE_ENTRY_STATE_WAITING_FOR_TRANSMISSION"

lemma find_waiting_spec:
  "mq_holds q (ys @ zs) \<Longrightarrow> zs \<noteq> [] \<Longrightarrow>
     find_waiting q (fst (hd zs)) = Some (Returns (case find is_waiting zs of Some x \<Rightarrow> x | None \<Rightarrow> last zs))"
proof (induction zs arbitrary: ys)
  case (Cons z zs)
  obtain a e where z: "z = (a, e)" by fastforce
  have m: "mq_buffer q a = Some e" using mq_holds_at [OF Cons.prems(1), of a e] z by simp
  have lst: "mq_lastEntry q = Some a \<longleftrightarrow> zs = []" using last_entry_iff [of q ys a e zs] Cons.prems(1) z by simp
  show ?case
  proof (cases "is_waiting z \<or> zs = []")
    case True
    then show ?thesis using m lst z by (subst find_waiting.simps) (auto simp: is_waiting_def)
  next
    case False
    then obtain z' zs' where zs: "zs = z' # zs'" by (cases zs) auto
    have "next_entry q a e = fst (hd zs)" using next_entry_order [of q ys a e z' zs'] Cons.prems(1) z zs by simp
    moreover have "find_waiting q (fst (hd zs)) = Some (Returns (case find is_waiting zs of Some x \<Rightarrow> x | None \<Rightarrow> last zs))"
      using Cons.IH [of "ys @ [z]"] Cons.prems(1) False by simp
    ultimately show ?thesis using m lst z False
      by (subst find_waiting.simps) (auto simp: is_waiting_def split: option.split)
  qed
qed simp

definition not_sent :: "nat \<times> queue_entry \<Rightarrow> nat \<times> queue_entry" where
  "not_sent x = (if qe_entryState (snd x) = QUEUE_ENTRY_STATE_SENT_BUT_NOT_CONFIRMED
     then (fst x, (snd x)\<lparr>qe_entryState := QUEUE_ENTRY_STATE_WAITING_FOR_TRANSMISSION\<rparr>) else x)"

lemma reset_states_spec:
  "mq_holds q (ys @ zs) \<Longrightarrow> zs \<noteq> [] \<Longrightarrow>
     \<exists>q'. reset_states (fst (hd zs)) q = Some (Returns q') \<and> mq_holds q' (ys @ map not_sent zs)"
proof (induction zs arbitrary: ys q)
  case (Cons z zs)
  obtain a e where z: "z = (a, e)" by fastforce
  have m: "mq_buffer q a = Some e" using mq_holds_at [OF Cons.prems(1), of a e] z by simp
  let ?q = "if qe_entryState e = QUEUE_ENTRY_STATE_SENT_BUT_NOT_CONFIRMED
      then set_state a e QUEUE_ENTRY_STATE_WAITING_FOR_TRANSMISSION q else q"
  have other: "a \<notin> set (map fst ys)" "a \<notin> set (map fst zs)"
    using mq_holds_distinct [OF Cons.prems(1)] z by auto
  have q: "mq_holds ?q ((ys @ [not_sent z]) @ zs)"
    using mq_holds_set_state [OF Cons.prems(1), of a e QUEUE_ENTRY_STATE_WAITING_FOR_TRANSMISSION] Cons.prems(1) z
      mark_other [OF other(1)] mark_other [OF other(2)] by (simp add: not_sent_def)
  have fields: "mq_lastEntry ?q = mq_lastEntry q" "next_entry ?q a e = next_entry q a e"
    by (simp_all add: set_state_fields next_entry_def)
  have lst: "mq_lastEntry q = Some a \<longleftrightarrow> zs = []" using last_entry_iff [of q ys a e zs] Cons.prems(1) z by simp
  show ?case
  proof (cases zs)
    case Nil
    then have "reset_states a q = Some (Returns ?q)"
      using m lst fields by (subst reset_states.simps) (simp add: Let_def)
    then show ?thesis using q z Nil by simp
  next
    case (Cons z' zs')
    have nxt: "next_entry q a e = fst (hd zs)" using next_entry_order [of q ys a e z' zs'] Cons.prems(1) z Cons by simp
    obtain q' where "reset_states (fst (hd zs)) ?q = Some (Returns q')" "mq_holds q' ((ys @ [not_sent z]) @ map not_sent zs)"
      using Cons.IH [OF q] Cons by blast
    moreover have "reset_states a q = reset_states (fst (hd zs)) ?q"
      using m lst fields nxt Cons by (subst reset_states.simps) (simp add: Let_def)
    ultimately show ?thesis using z by auto
  qed
qed simp

section \<open>Removing and confirming\<close>

lemma remove_first_spec:
  assumes q: "mq_holds q (x # xs)"
  shows "\<exists>q'. removeFirstEntry q = Returns q' \<and> mq_holds q' xs"
proof -
  obtain A B where xs: "x # xs = A @ B" and e: "events_in q A B" and lst: "mq_lastEntry q = Some (fst (last (x # xs)))"
    and tight: "B \<noteq> [] \<Longrightarrow> mq_size q < fst (hd A) + events.span A + 266"
    using q unfolding mq_holds_def by blast
  have A: "A \<noteq> []" using e by (simp add: events_in_def events.layout_def)
  then obtain A' where A': "A = x # A'" "xs = A' @ B" using xs by (cases A) auto
  have l: "events.layout (mq_buffer q) (mq_size q) (x # A') B" and first: "mq_firstEntry q = Some (fst x)"
    and high: "mq_lastInBufferEntry q = Some (fst (last (x # A')))" and count: "mq_entryCounter q = 1 + int (length xs)"
    using e A' by (simp_all add: events_in_def)
  have rest: "532 \<le> mq_size q" "mq_size q < 2 ^ 63" "list_all (\<lambda>x. length (qe_asdu (snd x)) \<le> 250) xs" "numbered (mq_entryId q) xs"
    using q numbered_drop [of "mq_entryId q" "x # xs" 1] by (simp_all add: mq_holds_def)
  have is_high: "fst x = fst (last (x # A')) \<longleftrightarrow> A' = []" using events.layout_highest_iff [OF l] .
  have is_last: "fst x = fst (last (x # xs)) \<longleftrightarrow> xs = []" using events.layout_last_iff [OF l] A' by simp
  show ?thesis
  proof (cases "A' = []")
    case True
    show ?thesis
    proof (cases "xs = []")
      case True
      then show ?thesis
        using first high lst count rest \<open>A' = []\<close> by (simp add: removeFirstEntry_def mq_holds_def)
    next
      case False
      then have B: "B \<noteq> []" "xs = B" using A' True by simp_all
      let ?q = "q\<lparr>mq_firstEntry := Some 0, mq_lastInBufferEntry := mq_lastEntry q, mq_entryCounter := int (length xs)\<rparr>"
      have "removeFirstEntry q = Returns ?q"
        using first high lst count is_last False True by (simp add: removeFirstEntry_def)
      moreover have "events_in ?q B []"
        using events.layout_round [OF l B(1)] lst B by (simp add: events_in_def)
      then have "mq_holds ?q xs" using rest B lst by (intro mq_holdsI [of _ B "[]"]) simp_all
      ultimately show ?thesis by blast
    qed
  next
    case False
    let ?q = "q\<lparr>mq_firstEntry := Some (fst x + entry_size (snd x)), mq_entryCounter := int (length xs)\<rparr>"
    have "mq_buffer q (fst x) = Some (snd x)" using events.layout_at [OF l, of "fst x" "snd x"] by simp
    then have "removeFirstEntry q = Returns ?q"
      using first high count is_high False by (cases x) (simp add: removeFirstEntry_def deref_def)
    moreover have "events_in ?q A' B"
      using events.layout_advance [OF l False] high A' False by (simp add: events_in_def)
    moreover have "fst (hd A') + events.span A' = fst (hd A) + events.span A"
      using events.layout_advance(2) [OF l False] A' by simp
    moreover have "xs \<noteq> []" using A' False by simp
    ultimately have "mq_holds ?q xs" using rest lst A' tight False by (intro mq_holdsI [of xs A' B]) simp_all
    with \<open>removeFirstEntry q = Returns ?q\<close> show ?thesis by blast
  qed
qed

text \<open>The confirmation of an event: the first one leaves the queue, another one only changes its state.\<close>

definition confirm_event :: "u64 \<Rightarrow> located_entries \<Rightarrow> located_entries" where
  "confirm_event entryId xs =
     (case first_index (\<lambda>x. qe_entryId (snd x) = entryId) xs of
        None \<Rightarrow> xs
      | Some 0 \<Rightarrow> tl xs
      | Some i \<Rightarrow> mark (fst (xs ! i)) QUEUE_ENTRY_STATE_NOT_USED_OR_CONFIRMED xs)"

lemma mq_holds_length: "mq_holds q xs \<Longrightarrow> length xs < 2 ^ 64"
proof -
  assume q: "mq_holds q xs"
  have len: "length ys \<le> events.span ys" for ys :: located_entries
  proof (induction ys)
    case (Cons y ys)
    then show ?case using events.esize_pos [of "snd y"] by simp
  qed simp
  show ?thesis
  proof (cases "xs = []")
    case False
    then obtain A B where "xs = A @ B" "events.layout (mq_buffer q) (mq_size q) A B"
      using q by (auto simp: mq_holds_def events_in_def)
    then have "events.span xs \<le> 2 * mq_size q" by (auto simp: events.layout_def)
    then show ?thesis using len [of xs] q by (simp add: mq_holds_def)
  qed simp
qed

lemma uint_diff_of_nat: "n < 2 ^ 64 \<Longrightarrow> uint (of_nat n :: u64) = int n"
  by (simp add: unsigned_of_nat take_bit_nat_eq_self)

lemma numbered_ids:
  assumes "numbered nxt xs" "length xs < 2 ^ 64" "i < length xs"
  shows "nxt - 1 - qe_entryId (snd (xs ! i)) = of_nat (length xs - Suc i)"
proof -
  obtain k where k: "length xs = Suc (i + k)" using assms(3) less_iff_Suc_add by blast
  then have "qe_entryId (snd (xs ! i)) = nxt - of_nat (Suc k)" using assms(1,3) by (simp add: numbered_def Suc_diff_le)
  then show ?thesis using k by simp
qed

lemma id_index:
  assumes "numbered nxt xs" "length xs < 2 ^ 64" and u: "uint (nxt - 1 - k) = u"
  shows "first_index (\<lambda>x. qe_entryId (snd x) = k) xs =
    (if u < int (length xs) then Some (length xs - 1 - nat u) else None)"
proof -
  have diff: "qe_entryId (snd (xs ! i)) = k \<longleftrightarrow> u = int (length xs - Suc i)" if "i < length xs" for i
  proof -
    have "uint (nxt - 1 - qe_entryId (snd (xs ! i))) = int (length xs - Suc i)"
      unfolding numbered_ids [OF assms(1,2) that] using assms(2) by (intro uint_diff_of_nat) simp
    then show ?thesis using u by (metis (no_types, lifting) diff_left_imp_eq word_uint_eq_iff)
  qed
  have "0 \<le> u" using u by (metis uint_nonnegative)
  show ?thesis
  proof (cases "u < int (length xs)")
    case True
    let ?i = "length xs - 1 - nat u"
    have i: "?i < length xs" "int (length xs - Suc ?i) = u" using True \<open>0 \<le> u\<close> by linarith+
    have "first_index (\<lambda>x. qe_entryId (snd x) = k) xs = Some ?i"
    proof (rule first_indexI [OF i(1)])
      show "qe_entryId (snd (xs ! ?i)) = k" using diff [OF i(1)] i(2) by simp
      fix j assume "j < ?i"
      then have "j < length xs" "u \<noteq> int (length xs - Suc j)" using \<open>0 \<le> u\<close> by linarith+
      then show "qe_entryId (snd (xs ! j)) \<noteq> k" using diff [of j] by simp
    qed
    then show ?thesis using True by simp
  next
    case False
    have "qe_entryId (snd x) \<noteq> k" if x: "x \<in> set xs" for x
    proof -
      obtain i where "i < length xs" "x = xs ! i" using x by (auto simp: in_set_conv_nth)
      then show ?thesis using diff [of i] False by auto
    qed
    then have "first_index (\<lambda>x. qe_entryId (snd x) = k) xs = None" by (auto simp: first_index_None)
    then show ?thesis using False by simp
  qed
qed

lemma confirm_spec:
  assumes q: "mq_holds q xs" and p: "\<And>x. x \<in> set xs \<Longrightarrow> qe_entryId (snd x) = k \<Longrightarrow> fst x = p"
  shows "\<exists>q'. MessageQueue_markAsduAsConfirmed p k q = Returns q' \<and> mq_holds q' (confirm_event k xs)"
proof -
  have num: "numbered (mq_entryId q) xs" and count: "mq_entryCounter q = int (length xs)"
    using q by (simp_all add: mq_holds_def)
  note id = id_index [OF num mq_holds_length [OF q] refl, of k]
  show ?thesis
  proof (cases "first_index (\<lambda>x. qe_entryId (snd x) = k) xs")
    case None
    then show ?thesis using q id count
      by (simp add: MessageQueue_markAsduAsConfirmed_def confirm_event_def split: if_splits)
  next
    case (Some i)
    have i: "i < length xs" "qe_entryId (snd (xs ! i)) = k"
      using first_index_less [OF Some] first_index_holds [OF Some] by simp_all
    let ?e = "snd (xs ! i)" and ?s = QUEUE_ENTRY_STATE_NOT_USED_OR_CONFIRMED
    have at: "(p, ?e) \<in> set xs" using p [of "xs ! i"] i by (metis nth_mem prod.collapse)
    let ?q = "set_state p ?e ?s q"
    have q': "mq_holds ?q (mark p ?s xs)" using mq_holds_set_state [OF q at] .
    have step: "MessageQueue_markAsduAsConfirmed p k q = (if mq_firstEntry q = Some p then removeFirstEntry ?q else Returns ?q)"
      using mq_holds_at [OF q at] i id count Some
      by (auto simp: MessageQueue_markAsduAsConfirmed_def deref_def set_state_fields split: if_splits)
    have xs: "xs \<noteq> []" using i by auto
    have fst: "fst (xs ! i) = p" using p [of "xs ! i"] i by simp
    have first: "mq_firstEntry q = Some p \<longleftrightarrow> i = 0"
    proof -
      have "fst (xs ! 0) = fst (xs ! i) \<longleftrightarrow> 0 = i"
        using nth_eq_iff_index_eq [OF mq_holds_distinct [OF q], of 0 i] i xs by auto
      then show ?thesis using mq_holds_ends(1) [OF q xs] fst xs by (auto simp: hd_conv_nth)
    qed
    show ?thesis
    proof (cases i)
      case 0
      obtain x xs' where x: "xs = x # xs'" using xs by (cases xs) auto
      have "p \<notin> set (map fst xs')" using mq_holds_distinct [OF q] x fst 0 by auto
      then have "mark p ?s xs' = xs'" by (rule mark_other)
      then obtain y where "mark p ?s xs = y # xs'" using x by simp
      then show ?thesis using remove_first_spec [of ?q y xs'] q' step first 0 Some x by (simp add: confirm_event_def)
    next
      case (Suc j)
      then show ?thesis using q' step first Some fst by (simp add: confirm_event_def)
    qed
  qed
qed

section \<open>Sending\<close>

lemma next_waiting_spec:
  assumes "mq_holds q xs"
  shows "\<exists>q'. MessageQueue_getNextWaitingASDU q =
      Returns (map_option (\<lambda>x. (qe_entryId (snd x), fst x, qe_asdu (snd x))) (find is_waiting xs), q') \<and>
    mq_holds q' (case find is_waiting xs of None \<Rightarrow> xs | Some x \<Rightarrow> mark (fst x) QUEUE_ENTRY_STATE_SENT_BUT_NOT_CONFIRMED xs)"
proof (cases "xs = []")
  case True
  then show ?thesis using assms by (simp add: MessageQueue_getNextWaitingASDU_def mq_holds_def)
next
  case False
  have w: "find_waiting q (fst (hd xs)) = Some (Returns (case find is_waiting xs of Some x \<Rightarrow> x | None \<Rightarrow> last xs))"
    using find_waiting_spec [of q "[]" xs] assms False by simp
  note ends = mq_holds_ends [OF assms False]
  show ?thesis
  proof (cases "find is_waiting xs")
    case None
    then have "\<not> is_waiting (last xs)" using False unfolding find_None_iff using last_in_set by blast
    then show ?thesis using w ends False None assms
      by (cases "last xs") (simp add: MessageQueue_getNextWaitingASDU_def is_waiting_def)
  next
    case (Some x)
    then have "is_waiting x" "x \<in> set xs" by (auto simp: find_Some_iff)
    then show ?thesis
      using w ends False Some mq_holds_set_state [OF assms, of "fst x" "snd x" QUEUE_ENTRY_STATE_SENT_BUT_NOT_CONFIRMED]
      by (cases x) (simp add: MessageQueue_getNextWaitingASDU_def is_waiting_def)
  qed
qed

lemma not_confirmed_spec:
  assumes "mq_holds q xs"
  shows "\<exists>q'. MessageQueue_setWaitingForTransmissionWhenNotConfirmed q = Returns q' \<and> mq_holds q' (map not_sent xs)"
proof (cases "xs = []")
  case True
  then show ?thesis using assms by (simp add: MessageQueue_setWaitingForTransmissionWhenNotConfirmed_def mq_holds_def)
next
  case False
  then show ?thesis
    using reset_states_spec [of q "[]" xs] mq_holds_ends [OF assms False] assms
    by (auto simp: MessageQueue_setWaitingForTransmissionWhenNotConfirmed_def)
qed

lemma release_spec: "mq_holds q xs \<Longrightarrow> mq_holds (MessageQueue_releaseAllQueuedASDUs q) []"
  by (simp add: mq_holds_def MessageQueue_releaseAllQueuedASDUs_def numbered_def)

section \<open>Properties\<close>

text \<open>
  C22: the queue of events refines a list of entries. A new event goes to the end with the next identifier,
  at the cost of the oldest events only, and of none while two more of the largest events would fit.
  The next event to send is the first one waiting, handed out with its identifier and its address
  and marked as sent; confirming an event by them removes it when it is the first one and only marks
  it otherwise; after a lost connection every event that was sent waits again. No loop runs for
  ever, and no entry is read that has been overwritten.
\<close>

theorem event_queue_refines_fifo:
  assumes "mq_holds q xs"
  shows "(\<forall>a. length (asdu_bytes a) \<le> 250 \<longrightarrow> (\<exists>n p q'. MessageQueue_enqueueASDU a q = Returns q' \<and>
      mq_holds q' (drop n xs @ [(p, waiting_entry (mq_entryId q) (asdu_bytes a))]) \<and>
      (events.span xs + 532 \<le> mq_size q \<longrightarrow> n = 0))) \<and>
    (\<exists>q'. MessageQueue_getNextWaitingASDU q =
        Returns (map_option (\<lambda>x. (qe_entryId (snd x), fst x, qe_asdu (snd x))) (find is_waiting xs), q') \<and>
      mq_holds q' (case find is_waiting xs of None \<Rightarrow> xs | Some x \<Rightarrow> mark (fst x) QUEUE_ENTRY_STATE_SENT_BUT_NOT_CONFIRMED xs)) \<and>
    (\<forall>p k. (\<forall>x \<in> set xs. qe_entryId (snd x) = k \<longrightarrow> fst x = p) \<longrightarrow>
      (\<exists>q'. MessageQueue_markAsduAsConfirmed p k q = Returns q' \<and> mq_holds q' (confirm_event k xs))) \<and>
    (\<exists>q'. MessageQueue_setWaitingForTransmissionWhenNotConfirmed q = Returns q' \<and> mq_holds q' (map not_sent xs))"
  using enqueue_spec [OF assms] next_waiting_spec [OF assms] confirm_spec [OF assms] not_confirmed_spec [OF assms]
  by blast

theorem event_queue_refines_fifo_witness:
  "\<exists>n p q'. MessageQueue_enqueueASDU (CS101_ASDU_create defaultAppLayerParameters False 3 0 1 False False)
      (MessageQueue_create 200000) = Returns q' \<and>
    mq_holds q' (drop n [] @ [(p, waiting_entry 1 (asdu_bytes (CS101_ASDU_create defaultAppLayerParameters False 3 0 1 False False)))])"
proof -
  have q: "mq_holds (MessageQueue_create 200000) []" by (rule mq_holds_create) simp_all
  have id: "mq_entryId (MessageQueue_create 200000) = 1"
    by (simp add: MessageQueue_create_def MessageQueue_initialize_def)
  have len: "length (asdu_bytes (CS101_ASDU_create defaultAppLayerParameters False 3 0 1 False False)) \<le> 250"
    by (simp add: asdu_bytes_def CS101_ASDU_create_def Let_def)
  show ?thesis
    using conjunct1 [OF event_queue_refines_fifo [OF q], rule_format, OF len] unfolding id by blast
qed

end
