(* ===== verification/K_Window.thy ===== *)
theory K_Window
  imports K_Buffer Message_Queue_Fifo
begin

text \<open>
  The window of unacknowledged messages of a connection as a list: its ring of slots, what sending and
  acknowledging do to the list, and the effect on the event queue.
\<close>

lemma obind_assoc: "obind (obind m f) g = obind m (\<lambda>x. obind (f x) g)"
  by (cases m) simp_all

section \<open>The window of unacknowledged messages\<close>

text \<open>The sequence numbers of the messages: the newest one has the number \<open>c\<close>.\<close>

fun seq_numbered :: "int \<Rightarrow> sent_asdu list \<Rightarrow> bool" where
  "seq_numbered c [] \<longleftrightarrow> True"
| "seq_numbered c (e # es) \<longleftrightarrow> sa_seqNo e = (c - int (length es)) mod 32768 \<and> seq_numbered c es"

lemma seq_numbered_snoc:
  "seq_numbered ((c + 1) mod 32768) (es @ [e]) \<longleftrightarrow> seq_numbered c es \<and> sa_seqNo e = (c + 1) mod 32768"
  by (induction es) (auto simp: mod_simps algebra_simps)

lemma seq_numbered_drop: "seq_numbered c es \<Longrightarrow> seq_numbered c (drop n es)"
  by (induction es arbitrary: n) (auto simp: drop_Cons split: nat.split)

lemma seq_numbered_last: "seq_numbered c es \<Longrightarrow> es \<noteq> [] \<Longrightarrow> sa_seqNo (last es) = c mod 32768"
  by (induction es) auto

definition window :: "master_connection \<Rightarrow> sent_asdu list \<Rightarrow> bool" where
  "window con es \<longleftrightarrow> 0 < maxSentASDUs con \<and> maxSentASDUs con < 32768 \<and> int (length (sentASDUs con)) = maxSentASDUs con \<and>
     int (length es) \<le> maxSentASDUs con \<and> 0 \<le> sendCount con \<and> sendCount con < 32768 \<and> seq_numbered (sendCount con) es \<and>
     (if es = [] then oldestSentASDU con = -1
      else 0 \<le> oldestSentASDU con \<and> oldestSentASDU con < maxSentASDUs con \<and>
        newestSentASDU con = (oldestSentASDU con + int (length es) - 1) mod maxSentASDUs con \<and>
        (\<forall>i < length es. sentASDUs con ! nat ((oldestSentASDU con + int i) mod maxSentASDUs con) = es ! i))"

lemma ring_distinct:
  fixes o' :: int
  assumes "i < n" "j < n" "int n \<le> k" "(o' + int i) mod k = (o' + int j) mod k"
  shows "i = j"
proof -
  have "k dvd (o' + int i) - (o' + int j)" using assms(4) by (simp add: mod_eq_dvd_iff)
  then have "k dvd int i - int j" by simp
  moreover have "\<bar>int i - int j\<bar> < k" using assms by linarith
  ultimately have "int i - int j = 0" using zdvd_not_zless [of "\<bar>int i - int j\<bar>" k] by fastforce
  then show ?thesis by simp
qed

lemma window_full_iff:
  assumes "window con es"
  shows "isSentBufferFull con \<longleftrightarrow> int (length es) = maxSentASDUs con"
proof (cases "es = []")
  case True
  then show ?thesis using assms by (simp add: window_def isSentBufferFull_def)
next
  case False
  let ?k = "maxSentASDUs con" and ?o = "oldestSentASDU con" and ?n = "int (length es)"
  have o: "0 \<le> ?o" "?o < ?k" "newestSentASDU con = (?o + ?n - 1) mod ?k" "?n \<le> ?k" "0 < ?n"
    using assms False by (simp_all add: window_def)
  then have "(newestSentASDU con + 1) mod ?k = (?o + ?n) mod ?k" by (simp add: mod_simps)
  moreover have "(?o + ?n) mod ?k = ?o \<longleftrightarrow> ?n = ?k"
  proof
    assume "(?o + ?n) mod ?k = ?o"
    then have "?k dvd ?n" using o by (metis add_diff_cancel_left' mod_eq_dvd_iff mod_pos_pos_trivial mod_mod_trivial)
    then show "?n = ?k" using o zdvd_imp_le by fastforce
  qed (use o in simp)
  ultimately show ?thesis using o(1) by (simp add: isSentBufferFull_def)
qed

section \<open>Sending\<close>

definition sent_message :: "u64 \<Rightarrow> nat option \<Rightarrow> u64 \<Rightarrow> int \<Rightarrow> sent_asdu" where
  "sent_message entryId queueEntry t n = \<lparr>sa_entryId = entryId, sa_queueEntry = queueEntry, sa_sentTime = t, sa_seqNo = n\<rparr>"

text \<open>The connection after an I frame was put into slot \<open>i\<close> of the k-buffer.\<close>

definition after_send :: "platform \<Rightarrow> bytes \<Rightarrow> u64 \<Rightarrow> nat option \<Rightarrow> int \<Rightarrow> int \<Rightarrow> master_connection \<Rightarrow> master_connection" where
  "after_send os msg entryId queueEntry oldest i con =
     (let c = (sendCount con + 1) mod 32768
      in con\<lparr>sendCount := c, unconfirmedReceivedIMessages := 0, timeoutT2Triggered := False,
        oldestSentASDU := oldest, newestSentASDU := i, clock_reads := clock_reads con + 1,
        written := written con @ [i_frame (sendCount con) (receiveCount con) msg],
        sentASDUs := (sentASDUs con)[nat i := sent_message entryId queueEntry (clock os (clock_reads con)) c]\<rparr>)"

lemma sendASDU_run:
  assumes "stateLock con" "0 < Socket_write (send os (length (written con)))"
  shows "sendASDU os msg entryId queueEntry con = Returns (after_send os msg entryId queueEntry
    (if oldestSentASDU con = -1 then 0 else oldestSentASDU con)
    (if oldestSentASDU con = -1 then 0 else (newestSentASDU con + 1) mod maxSentASDUs con) con)"
  using assms
  by (simp add: sendASDU_def sendIMessage_def with_stateLock_def wait_stateLock_def post_stateLock_def writeToSocket_def
      Hal_getTimeInMs_def after_send_def sent_message_def Let_def)

lemma after_send_window:
  assumes w: "window con es" and room: "int (length es) < maxSentASDUs con"
  shows "window (after_send os msg entryId queueEntry (if oldestSentASDU con = -1 then 0 else oldestSentASDU con)
      (if oldestSentASDU con = -1 then 0 else (newestSentASDU con + 1) mod maxSentASDUs con) con)
    (es @ [sent_message entryId queueEntry (clock os (clock_reads con)) ((sendCount con + 1) mod 32768)])"
proof (cases "es = []")
  case True
  then have "oldestSentASDU con = -1" "0 < maxSentASDUs con" "int (length (sentASDUs con)) = maxSentASDUs con"
    using w by (simp_all add: window_def)
  then have "0 < length (sentASDUs con)" by linarith
  then show ?thesis using w True seq_numbered_snoc [of "sendCount con" "[]"]
    by (auto simp: window_def after_send_def Let_def sent_message_def)
next
  case False
  let ?k = "maxSentASDUs con" and ?o = "oldestSentASDU con" and ?n = "length es"
  define e where "e = sent_message entryId queueEntry (clock os (clock_reads con)) ((sendCount con + 1) mod 32768)"
  have o: "0 \<le> ?o" "?o < ?k" "newestSentASDU con = (?o + int ?n - 1) mod ?k" "0 < ?k"
    and at: "\<And>i. i < ?n \<Longrightarrow> sentASDUs con ! nat ((?o + int i) mod ?k) = es ! i"
    and len: "int (length (sentASDUs con)) = ?k"
    using w False by (simp_all add: window_def)
  have i: "(newestSentASDU con + 1) mod ?k = (?o + int ?n) mod ?k" using o by (simp add: mod_simps)
  let ?i = "(?o + int ?n) mod ?k"
  have r: "0 \<le> (?o + int j) mod ?k" "(?o + int j) mod ?k < ?k" for j using o by simp_all
  have "(sentASDUs con)[nat ?i := e] ! nat ((?o + int j) mod ?k) = (es @ [e]) ! j" if "j < ?n + 1" for j
  proof (cases "j = ?n")
    case True
    then show ?thesis using r [of ?n] len by simp
  next
    case False
    then have "nat ?i \<noteq> nat ((?o + int j) mod ?k)"
      using ring_distinct [of ?n "?n + 1" j ?k ?o] that room r [of ?n] r [of j] by (auto simp: nat_eq_iff)
    then show ?thesis using at [of j] that False by (simp add: nth_append)
  qed
  moreover have "seq_numbered ((sendCount con + 1) mod 32768) (es @ [e])"
    using w seq_numbered_snoc [of "sendCount con" es e] by (simp add: window_def e_def sent_message_def)
  ultimately show ?thesis
    using w o False room i unfolding e_def [symmetric]
    by (simp add: window_def after_send_def Let_def flip: e_def)
qed

section \<open>Acknowledgements\<close>

text \<open>How many messages an acknowledgement of everything before \<open>r\<close> leaves.\<close>

definition still_open :: "int \<Rightarrow> int \<Rightarrow> nat" where
  "still_open c r = nat ((c - r) mod 32768)"

lemma still_open_int: "int (still_open c r) = (c - r) mod 32768"
  by (simp add: still_open_def)

lemma seq_of:
  fixes c m :: int
  assumes "0 \<le> c" "c < 32768" "0 \<le> m" "m < 32768"
  shows "(c - m) mod 32768 = (if m \<le> c then c - m else c - m + 32768)"
proof (cases "m \<le> c")
  case False
  then have "(c - m + 32768) mod 32768 = c - m + 32768" using assms by (intro mod_pos_pos_trivial) auto
  then show ?thesis using False by simp
qed (use assms in simp)

text \<open>The validity check of the code, with its two cases for the overflow of the counter.\<close>

lemma sequence_check_spec:
  assumes w: "window con es" and ne: "es \<noteq> []" and r: "0 \<le> r" "r < 32768"
  shows "\<exists>ov old. sequence_check r con = (still_open (sendCount con) r \<le> length es, ov, old) \<and>
    (old = r \<longleftrightarrow> still_open (sendCount con) r = length es) \<and> (\<not> ov \<longrightarrow> int (length es) - 1 \<le> sendCount con)"
proof -
  let ?c = "sendCount con" and ?n = "int (length es)" and ?k = "maxSentASDUs con" and ?o = "oldestSentASDU con"
  have b: "0 \<le> ?c" "?c < 32768" "1 \<le> ?n" "?n < 32768" and o: "0 \<le> ?o" "?o < ?k" "newestSentASDU con = (?o + ?n - 1) mod ?k"
    and at: "\<And>i. i < length es \<Longrightarrow> sentASDUs con ! nat ((?o + int i) mod ?k) = es ! i"
    and num: "seq_numbered ?c es"
    using w ne by (auto simp: window_def Suc_le_eq)
  have first: "sa_seqNo (sentASDUs con ! nat ?o) = (?c - (?n - 1)) mod 32768"
    using at [of 0] o ne num by (cases es) simp_all
  have "sentASDUs con ! nat (newestSentASDU con) = last es"
    using at [of "length es - 1"] o ne b by (simp add: last_conv_nth algebra_simps)
  then have lst: "sa_seqNo (sentASDUs con ! nat (newestSentASDU con)) = ?c"
    using seq_numbered_last [OF num ne] b by simp
  have d: "int (still_open ?c r) = (if r \<le> ?c then ?c - r else ?c - r + 32768)"
    using seq_of [OF b(1,2) r] by (simp add: still_open_int)
  have f: "(?c - (?n - 1)) mod 32768 = (if ?n - 1 \<le> ?c then ?c - (?n - 1) else ?c - (?n - 1) + 32768)"
    using b by (intro seq_of) auto
  have old: "c_mod (s - 1) 32768 = s - 1" if "0 < s" "s < 32768" for s :: int
    using that by (simp add: c_mod_nonneg)
  show ?thesis
  proof (cases "?n - 1 \<le> ?c")
    case True
    define s where "s = ?c - (?n - 1)"
    have s: "0 \<le> s" "s \<le> ?c" "sa_seqNo (sentASDUs con ! nat ?o) = s" using True b first f by (simp_all add: s_def)
    have "sequence_check r con = (r \<ge> s \<and> r \<le> ?c \<or> (if s = 0 then 32767 else s - 1) = r, False, if s = 0 then 32767 else s - 1)"
      using o(1) s lst old [of s] b by (auto simp: sequence_check_def Let_def)
    moreover have "(r \<ge> s \<and> r \<le> ?c \<or> (if s = 0 then 32767 else s - 1) = r) \<longleftrightarrow> int (still_open ?c r) \<le> ?n"
      using d s r b unfolding s_def by (auto split: if_splits)
    moreover have "(if s = 0 then 32767 else s - 1) = r \<longleftrightarrow> int (still_open ?c r) = ?n"
      using d s r b unfolding s_def by (auto split: if_splits)
    ultimately show ?thesis using True by auto
  next
    case False
    define s where "s = ?c - (?n - 1) + 32768"
    have s: "?c < s" "s < 32768" "0 < s" "sa_seqNo (sentASDUs con ! nat ?o) = s" using False b first f by (simp_all add: s_def)
    have "sequence_check r con = ((r \<ge> s \<or> r \<le> ?c) \<or> s - 1 = r, True, s - 1)"
      using o(1) s lst old [of s] b by (auto simp: sequence_check_def Let_def)
    moreover have "((r \<ge> s \<or> r \<le> ?c) \<or> s - 1 = r) \<longleftrightarrow> int (still_open ?c r) \<le> ?n"
      using d s r b unfolding s_def by (auto split: if_splits)
    moreover have "s - 1 = r \<longleftrightarrow> int (still_open ?c r) = ?n"
      using d s r b unfolding s_def by (auto split: if_splits)
    ultimately show ?thesis using False by auto
  qed
qed

text \<open>Confirming a list of messages in the event queue, in order.\<close>

fun confirm_all :: "sent_asdu list \<Rightarrow> message_queue \<Rightarrow> message_queue outcome" where
  "confirm_all [] q = Returns q"
| "confirm_all (e # es) q =
     obind (case sa_queueEntry e of None \<Rightarrow> Returns q | Some p \<Rightarrow> MessageQueue_markAsduAsConfirmed p (sa_entryId e) q)
       (confirm_all es)"

text \<open>What an acknowledgement changes: the k-buffer with its oldest index, and the event queue.\<close>

definition acked :: "int \<Rightarrow> sent_asdu list \<Rightarrow> message_queue \<Rightarrow> master_connection \<Rightarrow> master_connection" where
  "acked oldest ss q con = con\<lparr>oldestSentASDU := oldest, sentASDUs := ss, lowPrioQueue := q\<rparr>"

lemma acked_simps [simp]: "acked a s q (acked b t p con) = acked a s q con"
  "sendCount (acked a s q con) = sendCount con" "maxSentASDUs (acked a s q con) = maxSentASDUs con"
  "newestSentASDU (acked a s q con) = newestSentASDU con" "lowPrioQueue (acked a s q con) = q"
  "oldestSentASDU (acked a s q con) = a" "sentASDUs (acked a s q con) = s" "stateLock (acked a s q con) = stateLock con"
  "(acked a s q con)\<lparr>oldestSentASDU := b\<rparr> = acked b s q con"
  by (simp_all add: acked_def)

lemma confirm_oldest_run:
  assumes w: "window con (e # es)" and q: "(case sa_queueEntry e of None \<Rightarrow> Returns (lowPrioQueue con)
      | Some p \<Rightarrow> MessageQueue_markAsduAsConfirmed p (sa_entryId e) (lowPrioQueue con)) = Returns q'"
  shows "\<exists>ss. confirm_oldest con = Returns (acked (oldestSentASDU con) ss q' con) \<and> length ss = length (sentASDUs con) \<and>
    (\<forall>i. i \<noteq> nat (oldestSentASDU con) \<longrightarrow> ss ! i = sentASDUs con ! i)"
proof -
  have at: "sentASDUs con ! nat (oldestSentASDU con) = e"
    using w by (auto simp: window_def dest: spec [of _ 0])
  then show ?thesis
  proof (cases "sa_queueEntry e")
    case None
    then show ?thesis using q at by (intro exI [of _ "sentASDUs con"]) (simp add: confirm_oldest_def acked_def Let_def)
  next
    case (Some p)
    then show ?thesis using q at
      by (intro exI [of _ "(sentASDUs con)[nat (oldestSentASDU con) := e\<lparr>sa_queueEntry := None, sa_seqNo := -1\<rparr>]"])
        (simp add: confirm_oldest_def acked_def Let_def)
  qed
qed

lemma window_tl:
  assumes w: "window con (e # es)" and ne: "es \<noteq> []" and ss: "length ss = length (sentASDUs con)"
    "\<And>i. i \<noteq> nat (oldestSentASDU con) \<Longrightarrow> ss ! i = sentASDUs con ! i"
  shows "window (acked ((oldestSentASDU con + 1) mod maxSentASDUs con) ss q con) es"
proof -
  let ?k = "maxSentASDUs con" and ?o = "oldestSentASDU con"
  have o: "0 \<le> ?o" "?o < ?k" "newestSentASDU con = (?o + int (length es)) mod ?k" and k: "0 < ?k" "int (length es) + 1 \<le> ?k"
    using w by (simp_all add: window_def)
  have at: "sentASDUs con ! nat ((?o + int (Suc i)) mod ?k) = es ! i" if "i < length es" for i
    using w that by (auto simp: window_def dest: spec [of _ "Suc i"])
  have "ss ! nat (((?o + 1) mod ?k + int i) mod ?k) = es ! i" if i: "i < length es" for i
  proof -
    have "(?o + int (Suc i)) mod ?k \<noteq> ?o"
      using ring_distinct [of 0 "Suc (length es)" "Suc i" ?k ?o] i o k by auto
    then have "nat ((?o + int (Suc i)) mod ?k) \<noteq> nat ?o" using o k by (simp add: nat_eq_iff)
    then have "ss ! nat ((?o + int (Suc i)) mod ?k) = es ! i" using ss(2) at [OF i] by metis
    then show ?thesis by (simp add: mod_simps algebra_simps)
  qed
  moreover have "newestSentASDU con = ((?o + 1) mod ?k + int (length es) - 1) mod ?k"
    using o(3) by (metis add.commute add.left_commute add_diff_cancel_left' diff_add_eq mod_add_left_eq mod_diff_left_eq)
  ultimately show ?thesis using w ne k ss(1) by (simp add: window_def)
qed

lemma window_none: "window con (e # es) \<Longrightarrow> length ss = length (sentASDUs con) \<Longrightarrow> window (acked (-1) ss q con) []"
  by (simp add: window_def)

lemma oldest_seq:
  assumes "window con (e # es)"
  shows "sa_seqNo (sentASDUs con ! nat (oldestSentASDU con)) = (sendCount con - int (length es)) mod 32768"
    and "0 \<le> sendCount con" and "sendCount con < 32768" and "int (length es) + 1 < 32768"
    and "0 \<le> oldestSentASDU con" and "oldestSentASDU con < maxSentASDUs con" and "0 < maxSentASDUs con"
    and "newestSentASDU con = (oldestSentASDU con + int (length es)) mod maxSentASDUs con"
    and "int (length es) + 1 \<le> maxSentASDUs con"
  using assms by (auto simp: window_def dest: spec [of _ 0])

lemma oldest_is_newest:
  assumes "window con (e # es)"
  shows "oldestSentASDU con = newestSentASDU con \<longleftrightarrow> es = []"
    and "(oldestSentASDU con + 1) mod maxSentASDUs con = (newestSentASDU con + 1) mod maxSentASDUs con \<longleftrightarrow> es = []"
proof -
  note o = oldest_seq [OF assms]
  have *: "(oldestSentASDU con + int i) mod maxSentASDUs con = (oldestSentASDU con + int j) mod maxSentASDUs con \<longleftrightarrow> i = j"
    if "i \<le> length es" "j \<le> length es" for i j
    using ring_distinct [of i "Suc (length es)" j "maxSentASDUs con" "oldestSentASDU con"] that o(9) by auto
  show "oldestSentASDU con = newestSentASDU con \<longleftrightarrow> es = []"
    using * [of 0 "length es"] o(5-8) by auto
  have "(newestSentASDU con + 1) mod maxSentASDUs con = (oldestSentASDU con + 1 + int (length es)) mod maxSentASDUs con"
    using o(8) by (simp add: mod_simps algebra_simps)
  moreover have "(oldestSentASDU con + 1 + int 0) mod maxSentASDUs con = (oldestSentASDU con + 1 + int (length es)) mod maxSentASDUs con
      \<longleftrightarrow> 0 = length es"
    using ring_distinct [of 0 "Suc (length es)" "length es" "maxSentASDUs con" "oldestSentASDU con + 1"] o(9) by auto
  ultimately show "(oldestSentASDU con + 1) mod maxSentASDUs con = (newestSentASDU con + 1) mod maxSentASDUs con \<longleftrightarrow> es = []"
    by auto
qed

lemma remove_confirmed_spec:
  assumes "window con (e # es)" "still_open (sendCount con) r \<le> length es" "\<not> ov \<longrightarrow> int (length es) \<le> sendCount con"
    "old \<noteq> r" "0 \<le> r" "r < 32768"
    "confirm_all (take (Suc (length es) - still_open (sendCount con) r) (e # es)) (lowPrioQueue con) = Returns q'"
  shows "\<exists>o' ss. remove_confirmed ov old r con = Some (Returns (acked o' ss q' con)) \<and>
    window (acked o' ss q' con) (drop (Suc (length es) - still_open (sendCount con) r) (e # es))"
  using assms
proof (induction es arbitrary: con e)
  case (Nil con e)
  note o = oldest_seq [OF Nil.prems(1)] and d = seq_of [OF oldest_seq(2,3) [OF Nil.prems(1)] Nil.prems(5,6)]
  have "int (still_open (sendCount con) r) = 0" using Nil.prems(2) by simp
  then have r: "r = sendCount con" using d Nil.prems(5,6) o by (auto simp: still_open_int split: if_splits)
  then have z: "still_open (sendCount con) r = 0" by (simp add: still_open_def)
  obtain ss where ss: "confirm_oldest con = Returns (acked (oldestSentASDU con) ss q' con)" "length ss = length (sentASDUs con)"
    using confirm_oldest_run [OF Nil.prems(1)] Nil.prems(7) by (auto simp: z obind_Returns)
  have "remove_confirmed ov old r con = Some (Returns (acked (-1) ss q' con))"
    using ss o(1) r oldest_is_newest [OF Nil.prems(1)] Nil.prems(4) o(2,3) by (subst remove_confirmed.simps) (simp add: Let_def)
  then show ?case using window_none [OF Nil.prems(1) ss(2)] by (auto simp: z)
next
  case (Cons e' es con e)
  let ?d = "still_open (sendCount con) r" and ?n = "length (e' # es)" and ?o = "oldestSentASDU con" and ?k = "maxSentASDUs con"
  note w = Cons.prems(1)
  note o = oldest_seq [OF w] and d = seq_of [OF oldest_seq(2,3) [OF w] Cons.prems(5,6)]
  have f: "(sendCount con - int ?n) mod 32768 = (if int ?n \<le> sendCount con then sendCount con - int ?n else sendCount con - int ?n + 32768)"
    using o by (intro seq_of) auto
  have same: "sa_seqNo (sentASDUs con ! nat ?o) = r \<longleftrightarrow> ?d = ?n"
  proof -
    have "sa_seqNo (sentASDUs con ! nat ?o) = r \<longleftrightarrow> int ?d = int ?n"
      using o(2-4) d f Cons.prems(5,6) unfolding o(1) still_open_int by (auto split: if_splits)
    then show ?thesis unfolding of_nat_eq_iff .
  qed
  have noless: "\<not> (\<not> ov \<and> r < sa_seqNo (sentASDUs con ! nat ?o))"
  proof
    assume a: "\<not> ov \<and> r < sa_seqNo (sentASDUs con ! nat ?o)"
    have "int ?d \<le> int ?n" using Cons.prems(2) by simp
    then show False using a Cons.prems(3,5,6) o(2-4) d f unfolding o(1) still_open_int by (auto split: if_splits)
  qed
  define m where "m = ?n - ?d"
  have take: "Suc ?n - ?d = Suc m" using Cons.prems(2) by (simp add: m_def Suc_diff_le)
  obtain q1 where q1: "(case sa_queueEntry e of None \<Rightarrow> Returns (lowPrioQueue con)
      | Some p \<Rightarrow> MessageQueue_markAsduAsConfirmed p (sa_entryId e) (lowPrioQueue con)) = Returns q1"
    and rest: "confirm_all (take m (e' # es)) q1 = Returns q'"
    using Cons.prems(7) unfolding take by (auto simp: obind_Returns)
  obtain ss where ss: "confirm_oldest con = Returns (acked ?o ss q1 con)" "length ss = length (sentASDUs con)"
    "\<And>i. i \<noteq> nat ?o \<Longrightarrow> ss ! i = sentASDUs con ! i"
    using confirm_oldest_run [OF w q1] by auto
  let ?con = "acked ((?o + 1) mod ?k) ss q1 con"
  have w1: "window ?con (e' # es)" using window_tl [OF w _ ss(2,3)] by simp
  show ?case
  proof (cases "?d = ?n")
    case True
    then have m: "m = 0" by (simp add: m_def)
    have "remove_confirmed ov old r con = Some (Returns ?con)"
      using ss(1) same True oldest_is_newest [OF w] Cons.prems(4) noless
      by (subst remove_confirmed.simps) (simp add: Let_def)
    moreover have "q1 = q'" using rest m by simp
    ultimately show ?thesis using w1 unfolding take m by auto
  next
    case False
    then have le: "?d \<le> length es" using Cons.prems(2) by simp
    have "\<exists>o' ss'. remove_confirmed ov old r ?con = Some (Returns (acked o' ss' q' ?con)) \<and>
        window (acked o' ss' q' ?con) (drop (Suc (length es) - still_open (sendCount ?con) r) (e' # es))"
      using Cons.prems(3-6) le rest w1 by (intro Cons.IH) (auto simp: m_def)
    moreover have "remove_confirmed ov old r con = remove_confirmed ov old r ?con"
      using ss(1) same False oldest_is_newest [OF w] Cons.prems(4) noless
      by (subst remove_confirmed.simps) (auto simp: Let_def)
    ultimately show ?thesis unfolding take by (simp add: m_def)
  qed
qed

text \<open>Fields of a connection that the window does not depend on.\<close>

lemma window_cong:
  assumes "maxSentASDUs con' = maxSentASDUs con" "sentASDUs con' = sentASDUs con" "sendCount con' = sendCount con"
    "oldestSentASDU con' = oldestSentASDU con" "newestSentASDU con' = newestSentASDU con"
  shows "window con' es \<longleftrightarrow> window con es"
  using assms by (simp add: window_def)

lemma window_locks [simp]:
  "window (con\<lparr>sentASDUsLock := b\<rparr>) es \<longleftrightarrow> window con es" "window (con\<lparr>stateLock := b\<rparr>) es \<longleftrightarrow> window con es"
  by (rule window_cong; simp)+

definition acknowledged :: "int \<Rightarrow> int \<Rightarrow> sent_asdu list \<Rightarrow> sent_asdu list" where
  "acknowledged c r es = take (length es - still_open c r) es"

definition unacknowledged :: "int \<Rightarrow> int \<Rightarrow> sent_asdu list \<Rightarrow> sent_asdu list" where
  "unacknowledged c r es = drop (length es - still_open c r) es"

lemma sequence_check_locks [simp]:
  "sequence_check r (con\<lparr>sentASDUsLock := b\<rparr>) = sequence_check r con"
  by (simp add: sequence_check_def)

lemma checkSequenceNumber_rejects:
  assumes "window con es" "sentASDUsLock con" "0 \<le> r" "r < 32768" "\<not> still_open (sendCount con) r \<le> length es"
  shows "checkSequenceNumber r con = Returns (False, con)"
proof -
  have "sequence_check r con = (False, snd (sequence_check r con))"
  proof (cases "es = []")
    case True
    then have o: "oldestSentASDU con = -1" using assms(1) by (simp add: window_def)
    have "r \<noteq> sendCount con" using assms(5) True by (auto simp: still_open_def)
    then show ?thesis using o by (simp add: sequence_check_def)
  next
    case False
    then show ?thesis using sequence_check_spec [OF assms(1) False assms(3,4)] assms(5) by auto
  qed
  then obtain ov old where "sequence_check r con = (False, ov, old)" by (metis prod.collapse)
  then show ?thesis using assms(2) by (simp add: checkSequenceNumber_def with_sentASDUsLock_def Let_def)
qed

lemma checkSequenceNumber_accepts:
  assumes w: "window con es" and lock: "sentASDUsLock con" and r: "0 \<le> r" "r < 32768"
    and d: "still_open (sendCount con) r \<le> length es"
    and q: "confirm_all (acknowledged (sendCount con) r es) (lowPrioQueue con) = Returns q'"
  shows "\<exists>o' ss. checkSequenceNumber r con = Returns (True, acked o' ss q' con) \<and>
    window (acked o' ss q' con) (unacknowledged (sendCount con) r es)"
proof (cases es)
  case Nil
  have o: "oldestSentASDU con = -1" "0 \<le> sendCount con" "sendCount con < 32768" using w Nil by (simp_all add: window_def)
  have "int (still_open (sendCount con) r) = 0" using d Nil by simp
  then have "(if r \<le> sendCount con then sendCount con - r else sendCount con - r + 32768) = 0"
    unfolding still_open_int seq_of [OF o(2,3) r] .
  then have "r = sendCount con" using o(2) r(2) by (simp split: if_splits)
  moreover have "q' = lowPrioQueue con" using q Nil by (simp add: acknowledged_def)
  moreover have "acked (-1) (sentASDUs con) (lowPrioQueue con) con = con" using o(1) by (simp add: acked_def)
  ultimately show ?thesis using lock w o(1) Nil
    by (intro exI [of _ "-1"] exI [of _ "sentASDUs con"])
      (simp add: checkSequenceNumber_def with_sentASDUsLock_def sequence_check_def unacknowledged_def)
next
  case (Cons e es')
  have o: "oldestSentASDU con \<noteq> -1" using oldest_seq(5) w Cons by fastforce
  obtain ov old where c: "sequence_check r con = (True, ov, old)"
    and old: "old = r \<longleftrightarrow> still_open (sendCount con) r = length es" and ov: "\<not> ov \<longrightarrow> int (length es) - 1 \<le> sendCount con"
    using sequence_check_spec [OF w _ r] d Cons by auto
  let ?con = "con\<lparr>sentASDUsLock := False\<rparr>"
  have run: "checkSequenceNumber r con = obind (run_loop (remove_confirmed ov old r ?con)) (\<lambda>con. Returns (True, con\<lparr>sentASDUsLock := True\<rparr>))"
    using lock c o by (simp add: checkSequenceNumber_def with_sentASDUsLock_def Let_def obind_assoc)
  show ?thesis
  proof (cases "old = r")
    case True
    then have all: "acknowledged (sendCount con) r es = []" "unacknowledged (sendCount con) r es = es"
      using old by (simp_all add: acknowledged_def unacknowledged_def)
    have "remove_confirmed ov old r ?con = Some (Returns ?con)"
      using True by (subst remove_confirmed.simps) (simp add: Let_def)
    moreover have "acked (oldestSentASDU con) (sentASDUs con) (lowPrioQueue con) con = con" by (simp add: acked_def)
    ultimately show ?thesis using run all q w lock
      by (intro exI [of _ "oldestSentASDU con"] exI [of _ "sentASDUs con"]) simp
  next
    case False
    have "window ?con (e # es')" using w Cons by simp
    moreover have "still_open (sendCount ?con) r \<le> length es'" using d old False Cons by simp
    ultimately obtain o' ss where l: "remove_confirmed ov old r ?con = Some (Returns (acked o' ss q' ?con))"
      "window (acked o' ss q' ?con) (drop (Suc (length es') - still_open (sendCount con) r) (e # es'))"
      using remove_confirmed_spec [of ?con e es' r ov old q'] ov False r q Cons by (auto simp: acknowledged_def)
    have "(acked o' ss q' ?con)\<lparr>sentASDUsLock := True\<rparr> = acked o' ss q' con" using lock by (simp add: acked_def)
    moreover have "window (acked o' ss q' con) (unacknowledged (sendCount con) r es)"
      using l(2) Cons window_cong [of "acked o' ss q' con" "acked o' ss q' ?con"] by (simp add: unacknowledged_def acked_def)
    ultimately show ?thesis using run l(1) by auto
  qed
qed

section \<open>The event queue behind the window\<close>

text \<open>Sent messages that come from the event queue know the address of their event, as long as it is there.\<close>

definition keys :: "located_entries \<Rightarrow> (u64 \<times> nat) set" where
  "keys xs = (\<lambda>x. (qe_entryId (snd x), fst x)) ` set xs"

definition linked :: "sent_asdu list \<Rightarrow> located_entries \<Rightarrow> bool" where
  "linked es xs \<longleftrightarrow> (\<forall>e \<in> set es. \<forall>p. sa_queueEntry e = Some p \<longrightarrow> (\<forall>p'. (sa_entryId e, p') \<in> keys xs \<longrightarrow> p' = p))"

lemma linked_mono: "linked es xs \<Longrightarrow> set es' \<subseteq> set es \<Longrightarrow> keys xs' \<subseteq> keys xs \<Longrightarrow> linked es' xs'"
  unfolding linked_def by (meson subsetD)

lemma keys_mark [simp]: "keys (mark p s xs) = keys xs"
  by (induction xs) (auto simp: keys_def)

lemma keys_confirm: "keys (confirm_event k xs) \<subseteq> keys xs"
proof -
  have "keys (tl xs) \<subseteq> keys xs" by (cases xs) (auto simp: keys_def)
  then show ?thesis by (simp add: confirm_event_def split: option.split nat.split)
qed

definition event_ids :: "sent_asdu list \<Rightarrow> u64 list" where
  "event_ids es = map sa_entryId (filter (\<lambda>e. sa_queueEntry e \<noteq> None) es)"

lemma confirm_all_holds:
  "mq_holds q xs \<Longrightarrow> linked es xs \<Longrightarrow>
     \<exists>q'. confirm_all es q = Returns q' \<and> mq_holds q' (fold confirm_event (event_ids es) xs)"
proof (induction es arbitrary: q xs)
  case (Cons e es)
  have l: "linked es xs" using Cons.prems(2) by (simp add: linked_def)
  show ?case
  proof (cases "sa_queueEntry e")
    case None
    then show ?thesis using Cons.IH [OF Cons.prems(1) l] by (simp add: event_ids_def)
  next
    case (Some p)
    have "fst x = p" if "x \<in> set xs" "qe_entryId (snd x) = sa_entryId e" for x
      using Cons.prems(2) Some that by (force simp: linked_def keys_def)
    then obtain q1 where q1: "MessageQueue_markAsduAsConfirmed p (sa_entryId e) q = Returns q1"
      "mq_holds q1 (confirm_event (sa_entryId e) xs)"
      using confirm_spec [OF Cons.prems(1), of "sa_entryId e" p] by blast
    have "linked es (confirm_event (sa_entryId e) xs)" using linked_mono [OF l order_refl keys_confirm] .
    then show ?thesis using Cons.IH [OF q1(2)] q1(1) Some by (simp add: event_ids_def)
  qed
qed (simp add: event_ids_def)

lemma keys_fold_confirm: "keys (fold confirm_event ks xs) \<subseteq> keys xs"
proof (induction ks arbitrary: xs)
  case (Cons k ks)
  then show ?case using keys_confirm [of k xs] by (metis (no_types) comp_apply fold_Cons order_trans)
qed simp

text \<open>
  The state of the k-buffer and the event queue together.
\<close>

definition flow :: "master_connection \<Rightarrow> sent_asdu list \<Rightarrow> located_entries \<Rightarrow> bool" where
  "flow con es xs \<longleftrightarrow> window con es \<and> mq_holds (lowPrioQueue con) xs \<and> linked es xs"

lemma acknowledge_spec:
  assumes "flow con es xs" "sentASDUsLock con" "0 \<le> r" "r < 32768"
  shows "if still_open (sendCount con) r \<le> length es
    then \<exists>o' ss q'. checkSequenceNumber r con = Returns (True, acked o' ss q' con) \<and>
      flow (acked o' ss q' con) (unacknowledged (sendCount con) r es)
        (fold confirm_event (event_ids (acknowledged (sendCount con) r es)) xs)
    else checkSequenceNumber r con = Returns (False, con)"
proof (cases "still_open (sendCount con) r \<le> length es")
  case True
  have f: "window con es" "mq_holds (lowPrioQueue con) xs" "linked es xs" using assms(1) by (simp_all add: flow_def)
  let ?a = "acknowledged (sendCount con) r es"
  have "set ?a \<subseteq> set es" "set (unacknowledged (sendCount con) r es) \<subseteq> set es"
    by (simp_all add: acknowledged_def unacknowledged_def set_take_subset set_drop_subset)
  then have l: "linked ?a xs" "linked (unacknowledged (sendCount con) r es) (fold confirm_event (event_ids ?a) xs)"
    using linked_mono [OF f(3)] keys_fold_confirm by blast+
  obtain q' where "confirm_all ?a (lowPrioQueue con) = Returns q'" "mq_holds q' (fold confirm_event (event_ids ?a) xs)"
    using confirm_all_holds [OF f(2) l(1)] by blast
  then show ?thesis using checkSequenceNumber_accepts [OF f(1) assms(2-4) True] True l(2) unfolding flow_def by fastforce
next
  case False
  then show ?thesis using checkSequenceNumber_rejects [of con es r] assms by (simp add: flow_def)
qed

end
