(* ===== verification/Connection_Flow.thy ===== *)
theory Connection_Flow
  imports Connection K_Window
begin

text \<open>
  The flow of messages of a connection: what is acknowledged leaves the window and the event queue, and the
  waiting responses and events are sent, in this order, as far as the window has room.
\<close>

section \<open>Numbered frames\<close>

fun i_frames :: "int \<Rightarrow> int \<Rightarrow> bytes list \<Rightarrow> bytes list" where
  "i_frames ns nr [] = []"
| "i_frames ns nr (m # ms) = i_frame ns nr m # i_frames ((ns + 1) mod 32768) nr ms"

lemma i_frames_append: "0 \<le> ns \<Longrightarrow> ns < 32768 \<Longrightarrow>
  i_frames ns nr (ms @ ms') = i_frames ns nr ms @ i_frames ((ns + int (length ms)) mod 32768) nr ms'"
  by (induction ms arbitrary: ns) (simp_all add: mod_simps algebra_simps)

text \<open>Whether the socket takes the frame written after \<open>j\<close> others.\<close>

definition takes :: "platform \<Rightarrow> master_connection \<Rightarrow> nat \<Rightarrow> bool" where
  "takes os con j \<longleftrightarrow> 0 < Socket_write (send os (length (written con) + j))"

text \<open>What sending leaves alone, and the free locks.\<close>

definition idle :: "master_connection \<Rightarrow> bool" where
  "idle con \<longleftrightarrow> stateLock con \<and> sentASDUsLock con"

definition same_link :: "master_connection \<Rightarrow> master_connection \<Rightarrow> bool" where
  "same_link con con' \<longleftrightarrow> maxSentASDUs con' = maxSentASDUs con \<and> receiveCount con' = receiveCount con \<and>
     isRunning con' = isRunning con \<and> isActive con' = isActive con"

lemma same_link_trans: "same_link a b \<Longrightarrow> same_link b c \<Longrightarrow> same_link a c"
  by (simp add: same_link_def)

text \<open>One message more in the window: what the two queues send.\<close>

definition sent_one :: "master_connection \<Rightarrow> bytes \<Rightarrow> master_connection \<Rightarrow> bool" where
  "sent_one con msg con' \<longleftrightarrow> written con' = written con @ [i_frame (sendCount con) (receiveCount con) msg] \<and>
     sendCount con' = (sendCount con + 1) mod 32768 \<and> same_link con con' \<and> idle con'"

lemma sendASDU_spec:
  assumes "flow con es xs" "stateLock con" "int (length es) < maxSentASDUs con" "takes os con 0"
    and "\<And>p. queueEntry = Some p \<Longrightarrow> linked [sent_message entryId queueEntry 0 0] xs"
  shows "\<exists>con' e. sendASDU os msg entryId queueEntry con = Returns con' \<and> flow con' (es @ [e]) xs \<and>
    written con' = written con @ [i_frame (sendCount con) (receiveCount con) msg] \<and>
    sendCount con' = (sendCount con + 1) mod 32768 \<and> same_link con con' \<and> stateLock con' \<and>
    sentASDUsLock con' = sentASDUsLock con \<and> lowPrioQueue con' = lowPrioQueue con \<and> highPrioQueue con' = highPrioQueue con"
proof -
  let ?o = "if oldestSentASDU con = -1 then 0 else oldestSentASDU con"
  let ?i = "if oldestSentASDU con = -1 then 0 else (newestSentASDU con + 1) mod maxSentASDUs con"
  let ?e = "sent_message entryId queueEntry (clock os (clock_reads con)) ((sendCount con + 1) mod 32768)"
  have f: "window con es" "mq_holds (lowPrioQueue con) xs" "linked es xs" using assms(1) by (simp_all add: flow_def)
  have "linked (es @ [?e]) xs"
    using f(3) assms(5) by (cases queueEntry) (auto simp: linked_def sent_message_def)
  moreover have "lowPrioQueue (after_send os msg entryId queueEntry ?o ?i con) = lowPrioQueue con"
    by (simp add: after_send_def Let_def)
  ultimately have "flow (after_send os msg entryId queueEntry ?o ?i con) (es @ [?e]) xs"
    using after_send_window [OF f(1) assms(3), of os msg entryId queueEntry] f(2) by (simp add: flow_def)
  moreover have "sendASDU os msg entryId queueEntry con = Returns (after_send os msg entryId queueEntry ?o ?i con)"
    using assms(2,4) by (intro sendASDU_run) (simp_all add: takes_def)
  ultimately show ?thesis
    using assms(2) by (intro exI [of _ "after_send os msg entryId queueEntry ?o ?i con"] exI [of _ ?e])
      (simp add: after_send_def Let_def same_link_def)
qed

lemma flow_locks [simp]:
  "flow (con\<lparr>sentASDUsLock := b\<rparr>) es xs \<longleftrightarrow> flow con es xs" "flow (con\<lparr>stateLock := b\<rparr>) es xs \<longleftrightarrow> flow con es xs"
  "flow (con\<lparr>highPrioQueue := h\<rparr>) es xs \<longleftrightarrow> flow con es xs"
  using window_cong [of "con\<lparr>highPrioQueue := h\<rparr>" con es] by (simp_all add: flow_def)

lemma full_cong [simp]:
  "isSentBufferFull (con\<lparr>sentASDUsLock := b\<rparr>) = isSentBufferFull con" "isSentBufferFull (con\<lparr>lowPrioQueue := q\<rparr>) = isSentBufferFull con"
  "isSentBufferFull (con\<lparr>highPrioQueue := h\<rparr>) = isSentBufferFull con"
  by (simp_all add: isSentBufferFull_def)

lemma takes_cong [simp]:
  "takes os (con\<lparr>sentASDUsLock := b\<rparr>) = takes os con" "takes os (con\<lparr>lowPrioQueue := q\<rparr>) = takes os con"
  "takes os (con\<lparr>highPrioQueue := h\<rparr>) = takes os con"
  by (simp_all add: takes_def fun_eq_iff)

lemma takes_after: "written con' = written con @ [m] \<Longrightarrow> takes os con' j = takes os con (Suc j)"
  by (simp add: takes_def)

text \<open>A frame the socket does not take: the connection is stopped, the message is gone from its queue.\<close>

definition failed_one :: "master_connection \<Rightarrow> bytes \<Rightarrow> master_connection \<Rightarrow> bool" where
  "failed_one con msg con' \<longleftrightarrow> written con' = written con @ [i_frame (sendCount con) (receiveCount con) msg] \<and>
     \<not> isRunning con' \<and> idle con'"

lemma sendASDU_fails:
  assumes "stateLock con" "\<not> takes os con 0"
  shows "\<exists>con'. sendASDU os msg entryId queueEntry con = Returns con' \<and>
    written con' = written con @ [i_frame (sendCount con) (receiveCount con) msg] \<and> \<not> isRunning con' \<and> stateLock con' \<and>
    lowPrioQueue con' = lowPrioQueue con \<and> highPrioQueue con' = highPrioQueue con"
  using assms
  by (simp add: sendASDU_def sendIMessage_def with_stateLock_def wait_stateLock_def post_stateLock_def writeToSocket_def
      Hal_getTimeInMs_def takes_def Let_def)

section \<open>Responses\<close>

lemma send_response_spec:
  assumes f: "flow con es xs" and i: "idle con" and ok: "takes os con 0"
    and h: "hp_holds (highPrioQueue con) A B" and ne: "contents A B = msg # rest"
  shows "if int (length es) = maxSentASDUs con then sendNextHighPriorityASDU os con = Returns (False, con)
    else \<exists>con' e A' B'. sendNextHighPriorityASDU os con = Returns (True, con') \<and> flow con' (es @ [e]) xs \<and>
      hp_holds (highPrioQueue con') A' B' \<and> contents A' B' = rest \<and> sent_one con msg con' \<and> lowPrioQueue con' = lowPrioQueue con"
proof (cases "int (length es) = maxSentASDUs con")
  case True
  then show ?thesis using i window_full_iff [of con es] f
    by (simp add: sendNextHighPriorityASDU_def with_sentASDUsLock_def idle_def flow_def)
next
  case False
  then have lt: "int (length es) < maxSentASDUs con" using f by (simp add: flow_def window_def)
  obtain h' A' B' where n: "HighPriorityASDUQueue_getNextASDU (highPrioQueue con) = Returns (Some msg, h')"
    "hp_holds h' A' B'" "contents A' B' = rest"
    using hp_next_spec [OF h] ne by auto
  let ?con = "con\<lparr>sentASDUsLock := False, highPrioQueue := h'\<rparr>"
  have f1: "flow ?con es xs" and ok1: "takes os ?con 0" using f ok by simp_all
  obtain con' e where s: "sendASDU os msg 0 None ?con = Returns con'" "flow con' (es @ [e]) xs"
    "written con' = written con @ [i_frame (sendCount con) (receiveCount con) msg]"
    "sendCount con' = (sendCount con + 1) mod 32768" "same_link con con'" "stateLock con'"
    "lowPrioQueue con' = lowPrioQueue con" "highPrioQueue con' = h'"
    using sendASDU_spec [OF f1 _ _ ok1, of None 0 msg] i lt by (auto simp: idle_def same_link_def)
  have "sendNextHighPriorityASDU os con = Returns (True, con'\<lparr>sentASDUsLock := True\<rparr>)"
    using i n(1) s(1) window_full_iff [of con es] f False
    by (simp add: sendNextHighPriorityASDU_def with_sentASDUsLock_def idle_def flow_def)
  moreover have "sent_one con msg (con'\<lparr>sentASDUsLock := True\<rparr>)"
    using s by (simp add: sent_one_def same_link_def idle_def)
  ultimately show ?thesis using False s n
    by (simp, intro exI [of _ "con'\<lparr>sentASDUsLock := True\<rparr>"] exI [of _ e] conjI; (simp; blast)?)
qed

lemma send_full:
  assumes f: "flow con es xs" and i: "idle con" and full: "int (length es) = maxSentASDUs con"
  shows "sendNextHighPriorityASDU os con = Returns (False, con)"
  using i full window_full_iff [of con es] f
  by (simp add: sendNextHighPriorityASDU_def with_sentASDUsLock_def idle_def flow_def)

lemma send_response_fails:
  assumes f: "flow con es xs" and i: "idle con" and no: "\<not> takes os con 0" and room: "int (length es) < maxSentASDUs con"
    and h: "hp_holds (highPrioQueue con) A B" and ne: "contents A B = msg # rest"
  shows "\<exists>con' A' B'. sendNextHighPriorityASDU os con = Returns (True, con') \<and> failed_one con msg con' \<and>
    hp_holds (highPrioQueue con') A' B' \<and> contents A' B' = rest"
proof -
  obtain h' A' B' where n: "HighPriorityASDUQueue_getNextASDU (highPrioQueue con) = Returns (Some msg, h')"
    "hp_holds h' A' B'" "contents A' B' = rest"
    using hp_next_spec [OF h] ne by auto
  obtain con' where s: "sendASDU os msg 0 None (con\<lparr>sentASDUsLock := False, highPrioQueue := h'\<rparr>) = Returns con'"
    "written con' = written con @ [i_frame (sendCount con) (receiveCount con) msg]" "\<not> isRunning con'" "stateLock con'"
    "highPrioQueue con' = h'"
    using sendASDU_fails [of "con\<lparr>sentASDUsLock := False, highPrioQueue := h'\<rparr>" os msg 0 None] i no by (auto simp: idle_def)
  have "\<not> isSentBufferFull con" using window_full_iff [of con es] f room by (simp add: flow_def)
  then have "sendNextHighPriorityASDU os con = Returns (True, con'\<lparr>sentASDUsLock := True\<rparr>)"
    using i n(1) s(1) by (simp add: sendNextHighPriorityASDU_def with_sentASDUsLock_def idle_def)
  then show ?thesis using s n
    by (intro exI [of _ "con'\<lparr>sentASDUsLock := True\<rparr>"] exI [of _ A'] exI [of _ B']) (simp add: failed_one_def idle_def)
qed

definition room :: "master_connection \<Rightarrow> sent_asdu list \<Rightarrow> nat" where
  "room con es = nat (maxSentASDUs con) - length es"

lemma i_frames_Cons: "take n (m # ms) = m # take (n - 1) ms" if "0 < n"
  using that by (cases n) simp_all

lemma hp_counter: "hp_holds q A B \<Longrightarrow> hp_entryCounter q = int (length (contents A B))"
  by (simp add: hp_holds_def contents_def)

lemma send_responses_spec:
  assumes "flow con es xs" "idle con" "\<forall>j < min (room con es) (length ms). takes os con j" "isRunning con"
    "hp_holds (highPrioQueue con) A B" "contents A B = ms"
  shows "\<exists>con' es' A' B'. send_responses os con = Some (Returns (room con es < length ms, con')) \<and>
    flow con' (es @ es') xs \<and> length es' = min (room con es) (length ms) \<and>
    hp_holds (highPrioQueue con') A' B' \<and> contents A' B' = drop (room con es) ms \<and>
    written con' = written con @ i_frames (sendCount con) (receiveCount con) (take (room con es) ms) \<and>
    sendCount con' = (sendCount con + int (length es')) mod 32768 \<and> same_link con con' \<and> idle con'"
  using assms
proof (induction ms arbitrary: con es A B)
  case Nil
  then have "\<not> HighPriorityASDUQueue_isAsduAvailable (highPrioQueue con)" "0 \<le> sendCount con" "sendCount con < 32768"
    by (auto simp: contents_def hp_holds_def HighPriorityASDUQueue_isAsduAvailable_def flow_def window_def)
  then show ?case using Nil
    by (intro exI [of _ con] exI [of _ "[]"] exI [of _ A] exI [of _ B]) (simp add: send_responses.simps same_link_def)
next
  case (Cons m ms)
  have len: "int (length es) \<le> maxSentASDUs con" "0 \<le> sendCount con" "sendCount con < 32768" "0 < maxSentASDUs con"
    using Cons.prems(1) by (simp_all add: flow_def window_def)
  have avail: "HighPriorityASDUQueue_isAsduAvailable (highPrioQueue con)"
    using hp_counter [OF Cons.prems(5)] Cons.prems(6) by (simp add: HighPriorityASDUQueue_isAsduAvailable_def)
  show ?case
  proof (cases "int (length es) = maxSentASDUs con")
    case True
    then have "room con es = 0" by (simp add: room_def flip: True)
    moreover have "send_responses os con = Some (Returns (True, con))"
      using avail send_full [OF Cons.prems(1,2)] True by (subst send_responses.simps) simp
    ultimately show ?thesis using Cons.prems len
      by (intro exI [of _ con] exI [of _ "[]"] exI [of _ A] exI [of _ B]) (simp add: same_link_def)
  next
    case False
    then have room: "0 < room con es" using len by (simp add: room_def)
    then have ok: "takes os con 0" using Cons.prems(3) by simp
    note step = send_response_spec [OF Cons.prems(1,2) ok Cons.prems(5,6)]
    obtain con1 e A1 B1 where s: "sendNextHighPriorityASDU os con = Returns (True, con1)" "flow con1 (es @ [e]) xs"
      "hp_holds (highPrioQueue con1) A1 B1" "contents A1 B1 = ms" "sent_one con m con1"
      using step False by auto
    have c1: "idle con1" "same_link con con1" "sendCount con1 = (sendCount con + 1) mod 32768"
      "written con1 = written con @ [i_frame (sendCount con) (receiveCount con) m]"
      using s(5) by (simp_all add: sent_one_def)
    have run: "isRunning con1" using c1(2) Cons.prems(4) by (simp add: same_link_def)
    have room1: "room con1 (es @ [e]) = room con es - 1" using c1(2) by (simp add: room_def same_link_def)
    have ok1: "\<forall>j < min (room con1 (es @ [e])) (length ms). takes os con1 j"
      using Cons.prems(3) by (simp add: room1 takes_after [OF c1(4)] less_diff_conv)
    obtain con' es' A' B' where r: "send_responses os con1 = Some (Returns (room con es - 1 < length ms, con'))"
      "flow con' ((es @ [e]) @ es') xs" "length es' = min (room con es - 1) (length ms)"
      "hp_holds (highPrioQueue con') A' B'" "contents A' B' = drop (room con es - 1) ms"
      "written con' = written con1 @ i_frames (sendCount con1) (receiveCount con1) (take (room con es - 1) ms)"
      "sendCount con' = (sendCount con1 + int (length es')) mod 32768" "same_link con1 con'" "idle con'"
      using Cons.IH [OF s(2) c1(1) ok1 run s(3,4)] unfolding room1 by blast
    have "MasterConnection_isRunning con1 = Returns (True, con1)"
      using c1(1) run by (simp add: MasterConnection_isRunning_def with_stateLock_def wait_stateLock_def post_stateLock_def idle_def)
    then have go: "send_responses os con = send_responses os con1"
      using avail s(1) by (subst send_responses.simps) simp
    show ?thesis
    proof (intro exI conjI)
      show "send_responses os con = Some (Returns (room con es < length (m # ms), con'))"
        unfolding go r(1) using room by (simp add: less_Suc_eq_0_disj) arith
      show "flow con' (es @ (e # es')) xs" using r(2) by simp
      show "length (e # es') = min (room con es) (length (m # ms))" using r(3) room by simp
      show "contents A' B' = drop (room con es) (m # ms)" using r(5) room by (cases "room con es") simp_all
      show "written con' = written con @ i_frames (sendCount con) (receiveCount con) (take (room con es) (m # ms))"
        using r(6) c1(2-4) by (simp add: i_frames_Cons [OF room] same_link_def)
      show "sendCount con' = (sendCount con + int (length (e # es'))) mod 32768"
        using r(7) c1(3) by (simp add: mod_simps algebra_simps)
      show "same_link con con'" using same_link_trans [OF c1(2) r(8)] .
    qed (use r in simp_all)
  qed
qed

lemma isRunning_run: "idle con \<Longrightarrow> MasterConnection_isRunning con = Returns (isRunning con, con)"
  by (simp add: MasterConnection_isRunning_def with_stateLock_def wait_stateLock_def post_stateLock_def idle_def)

lemma send_responses_fail:
  assumes "flow con es xs" "idle con" "f < min (room con es) (length ms)" "\<forall>j < f. takes os con j" "\<not> takes os con f"
    "isRunning con" "hp_holds (highPrioQueue con) A B" "contents A B = ms"
  shows "\<exists>con' A' B'. send_responses os con = Some (Returns (True, con')) \<and> \<not> isRunning con' \<and> idle con' \<and>
    written con' = written con @ i_frames (sendCount con) (receiveCount con) (take (Suc f) ms) \<and>
    hp_holds (highPrioQueue con') A' B' \<and> contents A' B' = drop (Suc f) ms"
  using assms
proof (induction f arbitrary: con es A B ms)
  case 0
  then obtain m rest where ms: "ms = m # rest" by (cases ms) auto
  have avail: "HighPriorityASDUQueue_isAsduAvailable (highPrioQueue con)"
    using hp_counter [OF 0(7)] 0(8) ms by (simp add: HighPriorityASDUQueue_isAsduAvailable_def)
  have lt: "int (length es) < maxSentASDUs con" using 0(3) by (auto simp: room_def)
  obtain con' A' B' where s: "sendNextHighPriorityASDU os con = Returns (True, con')" "failed_one con m con'"
    "hp_holds (highPrioQueue con') A' B'" "contents A' B' = rest"
    using send_response_fails [OF 0(1,2,5) lt 0(7)] 0(8) ms by blast
  have "send_responses os con = Some (Returns (True, con'))"
    using avail s(1,2) by (subst send_responses.simps) (simp add: isRunning_run failed_one_def)
  then show ?case using s ms by (intro exI [of _ con'] exI [of _ A'] exI [of _ B']) (simp add: failed_one_def)
next
  case (Suc f)
  then obtain m rest where ms: "ms = m # rest" by (cases ms) auto
  have avail: "HighPriorityASDUQueue_isAsduAvailable (highPrioQueue con)"
    using hp_counter [OF Suc.prems(7)] Suc.prems(8) ms by (simp add: HighPriorityASDUQueue_isAsduAvailable_def)
  have lt: "int (length es) \<noteq> maxSentASDUs con" using Suc.prems(3) by (auto simp: room_def)
  have ok: "takes os con 0" using Suc.prems(4) by simp
  obtain con1 e A1 B1 where s: "sendNextHighPriorityASDU os con = Returns (True, con1)" "flow con1 (es @ [e]) xs"
    "hp_holds (highPrioQueue con1) A1 B1" "contents A1 B1 = rest" "sent_one con m con1"
    using send_response_spec [OF Suc.prems(1,2) ok Suc.prems(7)] Suc.prems(8) ms lt by auto
  have c1: "idle con1" "same_link con con1" "sendCount con1 = (sendCount con + 1) mod 32768"
    "written con1 = written con @ [i_frame (sendCount con) (receiveCount con) m]"
    using s(5) by (simp_all add: sent_one_def)
  have run: "isRunning con1" using c1(2) Suc.prems(6) by (simp add: same_link_def)
  have room1: "room con1 (es @ [e]) = room con es - 1" using c1(2) by (simp add: room_def same_link_def)
  have "f < min (room con1 (es @ [e])) (length rest)" "\<forall>j < f. takes os con1 j" "\<not> takes os con1 f"
    using Suc.prems(3-5) ms by (auto simp: room1 takes_after [OF c1(4)])
  then obtain con' A' B' where r: "send_responses os con1 = Some (Returns (True, con'))" "\<not> isRunning con'" "idle con'"
    "written con' = written con1 @ i_frames (sendCount con1) (receiveCount con1) (take (Suc f) rest)"
    "hp_holds (highPrioQueue con') A' B'" "contents A' B' = drop (Suc f) rest"
    using Suc.IH [OF s(2) c1(1) _ _ _ run s(3,4)] by blast
  have "send_responses os con = send_responses os con1"
    using avail s(1) run by (subst send_responses.simps) (simp add: isRunning_run [OF c1(1)])
  then show ?case using r c1 ms by (intro exI [of _ con'] exI [of _ A'] exI [of _ B']) (simp add: same_link_def)
qed

section \<open>Events\<close>

lemma keys_unique: "mq_holds q xs \<Longrightarrow> (k, p) \<in> keys xs \<Longrightarrow> (k, p') \<in> keys xs \<Longrightarrow> p = p'"
proof -
  assume q: "mq_holds q xs" and k: "(k, p) \<in> keys xs" "(k, p') \<in> keys xs"
  have num: "numbered (mq_entryId q) xs" using q by (simp add: mq_holds_def)
  obtain i j where i: "i < length xs" "qe_entryId (snd (xs ! i)) = k" "fst (xs ! i) = p"
    and j: "j < length xs" "qe_entryId (snd (xs ! j)) = k" "fst (xs ! j) = p'"
    using k unfolding keys_def by (force simp: in_set_conv_nth)
  have "(of_nat (length xs - Suc i) :: u64) = of_nat (length xs - Suc j)"
    using numbered_ids [OF num mq_holds_length [OF q] i(1)] numbered_ids [OF num mq_holds_length [OF q] j(1)] i j by simp
  then have "int (length xs - Suc i) = int (length xs - Suc j)"
    using mq_holds_length [OF q] uint_diff_of_nat by (metis diff_le_self le_less_trans)
  then have "i = j" using i j by linarith
  then show ?thesis using i j by simp
qed

lemma send_event_spec:
  assumes f: "flow con es xs" and i: "idle con" and ok: "room con es = 0 \<or> find is_waiting xs = None \<or> takes os con 0"
  shows "\<exists>con' es' xs'. sendNextLowPriorityASDU os con = Returns con' \<and> flow con' (es @ es') xs' \<and>
    written con' = written con @ i_frames (sendCount con) (receiveCount con)
      (take (room con es) (case find is_waiting xs of None \<Rightarrow> [] | Some x \<Rightarrow> [qe_asdu (snd x)])) \<and>
    xs' = (if room con es = 0 then xs else case find is_waiting xs of None \<Rightarrow> xs
      | Some x \<Rightarrow> mark (fst x) QUEUE_ENTRY_STATE_SENT_BUT_NOT_CONFIRMED xs) \<and>
    same_link con con' \<and> idle con' \<and> highPrioQueue con' = highPrioQueue con"
proof (cases "int (length es) = maxSentASDUs con")
  case True
  then have "sendNextLowPriorityASDU os con = Returns con"
    using i window_full_iff [of con es] f
    by (simp add: sendNextLowPriorityASDU_def with_sentASDUsLock_def idle_def flow_def)
  moreover have "room con es = 0" using True by (simp add: room_def flip: True)
  ultimately show ?thesis using f i by (intro exI [of _ con] exI [of _ "[]"] exI [of _ xs]) (simp add: same_link_def)
next
  case False
  have q: "mq_holds (lowPrioQueue con) xs" and lt: "int (length es) < maxSentASDUs con"
    using f False by (simp_all add: flow_def window_def)
  then have room: "0 < room con es" by (simp add: room_def)
  have nf: "\<not> isSentBufferFull con" using window_full_iff [of con es] f False by (simp add: flow_def)
  let ?xs = "case find is_waiting xs of None \<Rightarrow> xs | Some x \<Rightarrow> mark (fst x) QUEUE_ENTRY_STATE_SENT_BUT_NOT_CONFIRMED xs"
  obtain q' where n: "MessageQueue_getNextWaitingASDU (lowPrioQueue con) =
      Returns (map_option (\<lambda>x. (qe_entryId (snd x), fst x, qe_asdu (snd x))) (find is_waiting xs), q')" "mq_holds q' ?xs"
    using next_waiting_spec [OF q] by blast
  have keys: "keys ?xs = keys xs" by (simp split: option.split)
  let ?con = "con\<lparr>sentASDUsLock := False, lowPrioQueue := q'\<rparr>"
  have "window ?con es" using f window_cong [of ?con con es] by (simp add: flow_def)
  then have f1: "flow ?con es ?xs" using f n(2) linked_mono [of es xs es ?xs] keys by (simp add: flow_def)
  show ?thesis
  proof (cases "find is_waiting xs")
    case None
    have "sendNextLowPriorityASDU os con = Returns (con\<lparr>lowPrioQueue := q'\<rparr>)"
      using i n(1) None nf by (simp add: sendNextLowPriorityASDU_def with_sentASDUsLock_def idle_def)
    moreover have "flow (con\<lparr>lowPrioQueue := q'\<rparr>) es xs"
      using f n(2) None window_cong [of "con\<lparr>lowPrioQueue := q'\<rparr>" con es] by (simp add: flow_def)
    ultimately show ?thesis using None i
      by (intro exI [of _ "con\<lparr>lowPrioQueue := q'\<rparr>"] exI [of _ "[]"] exI [of _ xs]) (simp add: same_link_def idle_def)
  next
    case (Some x)
    then have x: "x \<in> set xs" by (auto simp: find_Some_iff)
    have ok1: "takes os ?con 0" using ok Some room by simp
    have "linked [sent_message (qe_entryId (snd x)) (Some (fst x)) 0 0] ?xs"
      using keys_unique [OF q] x unfolding linked_def keys by (auto simp: sent_message_def keys_def)
    then obtain con' e where s: "sendASDU os (qe_asdu (snd x)) (qe_entryId (snd x)) (Some (fst x)) ?con = Returns con'"
      "flow con' (es @ [e]) ?xs" "written con' = written con @ [i_frame (sendCount con) (receiveCount con) (qe_asdu (snd x))]"
      "same_link con con'" "stateLock con'" "highPrioQueue con' = highPrioQueue con"
      using sendASDU_spec [OF f1 _ _ ok1, of "Some (fst x)" "qe_entryId (snd x)" "qe_asdu (snd x)"] i lt
      by (auto simp: idle_def same_link_def)
    have "sendNextLowPriorityASDU os con = Returns (con'\<lparr>sentASDUsLock := True\<rparr>)"
      using i n(1) Some nf s(1) by (simp add: sendNextLowPriorityASDU_def with_sentASDUsLock_def idle_def)
    then show ?thesis using s Some room
      by (intro exI [of _ "con'\<lparr>sentASDUsLock := True\<rparr>"] exI [of _ "[e]"] exI [of _ ?xs])
        (simp add: same_link_def idle_def i_frames_Cons)
  qed
qed

lemma send_event_fails:
  assumes f: "flow con es xs" and i: "idle con" and x: "find is_waiting xs = Some x" and no: "\<not> takes os con 0" and room: "0 < room con es"
  shows "\<exists>con'. sendNextLowPriorityASDU os con = Returns con' \<and> failed_one con (qe_asdu (snd x)) con' \<and>
    highPrioQueue con' = highPrioQueue con"
proof -
  have q: "mq_holds (lowPrioQueue con) xs" and lt: "int (length es) < maxSentASDUs con"
    using f room by (simp_all add: flow_def window_def room_def)
  then have nf: "\<not> isSentBufferFull con" using window_full_iff [of con es] f by (simp add: flow_def)
  obtain q' where n: "MessageQueue_getNextWaitingASDU (lowPrioQueue con) = Returns (Some (qe_entryId (snd x), fst x, qe_asdu (snd x)), q')"
    using next_waiting_spec [OF q] x by auto
  obtain con' where s: "sendASDU os (qe_asdu (snd x)) (qe_entryId (snd x)) (Some (fst x)) (con\<lparr>sentASDUsLock := False, lowPrioQueue := q'\<rparr>) = Returns con'"
    "written con' = written con @ [i_frame (sendCount con) (receiveCount con) (qe_asdu (snd x))]" "\<not> isRunning con'" "stateLock con'"
    "highPrioQueue con' = highPrioQueue con"
    using sendASDU_fails [of "con\<lparr>sentASDUsLock := False, lowPrioQueue := q'\<rparr>" os "qe_asdu (snd x)" "qe_entryId (snd x)" "Some (fst x)"]
      i no by (auto simp: idle_def)
  have "sendNextLowPriorityASDU os con = Returns (con'\<lparr>sentASDUsLock := True\<rparr>)"
    using i n nf s(1) by (simp add: sendNextLowPriorityASDU_def with_sentASDUsLock_def idle_def)
  then show ?thesis using s by (intro exI [of _ "con'\<lparr>sentASDUsLock := True\<rparr>"]) (simp add: failed_one_def idle_def)
qed

section \<open>A new connection\<close>

lemma with_stateLock_run: "stateLock con \<Longrightarrow> with_stateLock f con =
  Returns (case f (con\<lparr>stateLock := False\<rparr>) of (x, con) \<Rightarrow> (x, post_stateLock con))"
  by (simp add: with_stateLock_def wait_stateLock_def split: prod.split)

definition slot_ok :: "apci_parameters \<Rightarrow> master_connection \<Rightarrow> bool" where
  "slot_ok P con \<longleftrightarrow> idle con \<and> 0 < apci_k P \<and> apci_k P < 32768 \<and> maxSentASDUs con = apci_k P \<and>
     int (length (sentASDUs con)) = apci_k P"

lemma slot_ok_create: "0 < apci_k P \<Longrightarrow> apci_k P < 32768 \<Longrightarrow> slot_ok P (MasterConnection_create P low high)"
  by (simp add: slot_ok_def MasterConnection_create_def idle_def)

lemma init_spec:
  assumes "slot_ok P con" "mq_holds low xs" "252 \<le> hp_size high"
  shows "\<exists>con'. MasterConnection_init os P low high con = Returns con' \<and> flow con' [] xs \<and> idle con' \<and>
    hp_holds (highPrioQueue con') [] [] \<and> sendCount con' = 0 \<and> receiveCount con' = 0 \<and> \<not> isActive con' \<and> \<not> isRunning con' \<and>
    maxSentASDUs con' = apci_k P \<and> written con' = [] \<and> isUsed con' = isUsed con"
  using assms
  by (simp add: MasterConnection_init_def Hal_getTimeInMs_def resetT3Timeout_def with_stateLock_run reset_T3_def
      post_stateLock_def slot_ok_def idle_def flow_def window_def linked_def hp_holds_def
      HighPriorityASDUQueue_resetConnectionQueue_def HighPriorityASDUQueue_initialize_def Let_def)

section \<open>Properties\<close>

text \<open>
  C24: an acknowledgement is accepted exactly when it acknowledges no more than the outstanding messages, counted
  modulo 32768: then the loop ends, the acknowledged messages leave the k-buffer, oldest first, and
  the events among them are confirmed in the event queue in this order; otherwise nothing changes.
\<close>

theorem acknowledgement_refines:
  assumes "flow con es xs" "sentASDUsLock con" "0 \<le> r" "r < 32768"
  shows "if still_open (sendCount con) r \<le> length es
    then \<exists>o' ss q'. checkSequenceNumber r con = Returns (True, acked o' ss q' con) \<and>
      flow (acked o' ss q' con) (unacknowledged (sendCount con) r es)
        (fold confirm_event (event_ids (acknowledged (sendCount con) r es)) xs)
    else checkSequenceNumber r con = Returns (False, con)"
  using assms by (rule acknowledge_spec)

definition demo_os :: platform where
  "demo_os = \<lparr>clock = of_nat, send = (\<lambda>n. Sent 6), recv = (\<lambda>n size. Recv_Again)\<rparr>"

lemma demo_accepts: "takes demo_os con j"
  by (simp add: takes_def demo_os_def Socket_write_def)

definition demo_connection :: "master_connection outcome" where
  "demo_connection = MasterConnection_init demo_os defaultConnectionParameters (MessageQueue_create 10)
     (HighPriorityASDUQueue_create 10) (MasterConnection_create defaultConnectionParameters (MessageQueue_create 10) (HighPriorityASDUQueue_create 10))"

lemma demo_connection_spec:
  "\<exists>con. demo_connection = Returns con \<and> flow con [] [] \<and> idle con \<and> hp_holds (highPrioQueue con) [] [] \<and>
    sendCount con = 0 \<and> receiveCount con = 0 \<and> maxSentASDUs con = 12 \<and> \<not> isActive con \<and> \<not> isRunning con \<and> written con = []"
proof -
  have s: "slot_ok defaultConnectionParameters
      (MasterConnection_create defaultConnectionParameters (MessageQueue_create 10) (HighPriorityASDUQueue_create 10))"
    by (rule slot_ok_create) (simp_all add: defaultConnectionParameters_def)
  have q: "mq_holds (MessageQueue_create 10) []" by (rule mq_holds_create) simp_all
  have h: "252 \<le> hp_size (HighPriorityASDUQueue_create 10)" by simp
  have "apci_k defaultConnectionParameters = 12" by (simp add: defaultConnectionParameters_def)
  then show ?thesis using init_spec [OF s q h, of demo_os] unfolding demo_connection_def by auto
qed

theorem acknowledgement_refines_witness:
  "\<exists>con con1 con2. demo_connection = Returns con \<and> sendASDU demo_os [1, 2, 3] 0 None con = Returns con1 \<and>
    checkSequenceNumber 1 con1 = Returns (True, con2) \<and> flow con2 [] []"
proof -
  obtain con where c: "demo_connection = Returns con" "flow con [] []" "idle con" "sendCount con = 0" "maxSentASDUs con = 12"
    using demo_connection_spec by blast
  obtain con1 e where c1: "sendASDU demo_os [1, 2, 3] 0 None con = Returns con1" "flow con1 [e] []" "sendCount con1 = 1"
    "sentASDUsLock con1"
    using sendASDU_spec [OF c(2) _ _ demo_accepts, of None 0 "[1, 2, 3]"] c(3-5) by (auto simp: idle_def)
  have "still_open 1 1 = 0" by (simp add: still_open_def)
  moreover from this have "unacknowledged 1 1 [e] = []" by (simp add: unacknowledged_def)
  moreover obtain xs where "xs = fold confirm_event (event_ids (acknowledged 1 1 [e])) ([] :: located_entries)" by blast
  moreover from this have "xs = []"
    using keys_fold_confirm [of "event_ids (acknowledged 1 1 [e])" "[]"] by (auto simp: keys_def)
  ultimately show ?thesis using acknowledgement_refines [OF c1(2,4), of 1] c(1) c1(1,3) by auto
qed

lemma length_i_frames [simp]: "length (i_frames ns nr ms) = length ms"
  by (induction ms arbitrary: ns) simp_all

lemma takeWhile_all_upt: "length (takeWhile P [0..<n]) = n \<Longrightarrow> j < n \<Longrightarrow> P j"
  by (metis add_0 diff_zero length_upt nth_upt takeWhile_nth nth_mem set_takeWhileD)

lemma takeWhile_upt:
  assumes "length (takeWhile P [0..<n]) \<noteq> n"
  shows "length (takeWhile P [0..<n]) < n" "\<forall>j < length (takeWhile P [0..<n]). P j" "\<not> P (length (takeWhile P [0..<n]))"
proof -
  show lt: "length (takeWhile P [0..<n]) < n" using length_takeWhile_le [of P "[0..<n]"] assms by simp
  show "\<forall>j < length (takeWhile P [0..<n]). P j"
    using lt by (metis add_0 nth_mem nth_upt order.strict_trans set_takeWhileD takeWhile_nth)
  show "\<not> P (length (takeWhile P [0..<n]))"
    using nth_length_takeWhile [of P "[0..<n]"] lt by simp
qed

definition next_event :: "located_entries \<Rightarrow> bytes list" where
  "next_event xs = (case find is_waiting xs of None \<Rightarrow> [] | Some x \<Rightarrow> [qe_asdu (snd x)])"

text \<open>What is to be sent: all responses, then the first waiting event, as far as the window has room.\<close>

definition waiting_messages :: "nat \<Rightarrow> bytes list \<Rightarrow> located_entries \<Rightarrow> bytes list" where
  "waiting_messages n responses xs = take n (responses @ next_event xs)"

lemma length_waiting: "length (waiting_messages n rs xs) = min n (length rs + length (next_event xs))"
  unfolding waiting_messages_def length_take length_append by (rule min.commute)

lemma send_waiting_all:
  assumes "flow con es xs" "idle con" "isRunning con" "hp_holds (highPrioQueue con) A B"
    and ok: "\<forall>j < length (waiting_messages (room con es) (contents A B) xs). takes os con j"
  shows "\<exists>more con' es' xs' A' B'. sendWaitingASDUs os con = Returns (more, con') \<and> flow con' (es @ es') xs' \<and> idle con' \<and>
    isRunning con' \<and> hp_holds (highPrioQueue con') A' B' \<and> contents A' B' = drop (room con es) (contents A B) \<and>
    written con' = written con @
      i_frames (sendCount con) (receiveCount con) (waiting_messages (room con es) (contents A B) xs)"
proof -
  let ?ms = "contents A B" and ?room = "room con es"
  have ok1: "\<forall>j < min ?room (length ?ms). takes os con j" using ok by (simp add: length_waiting)
  obtain con1 es1 A1 B1 where r: "send_responses os con = Some (Returns (?room < length ?ms, con1))" "flow con1 (es @ es1) xs"
    "length es1 = min ?room (length ?ms)" "hp_holds (highPrioQueue con1) A1 B1" "contents A1 B1 = drop ?room ?ms"
    "written con1 = written con @ i_frames (sendCount con) (receiveCount con) (take ?room ?ms)"
    "sendCount con1 = (sendCount con + int (length es1)) mod 32768" "same_link con con1" "idle con1"
    using send_responses_spec [OF assms(1,2) ok1 assms(3,4) refl] by blast
  have run: "isRunning con1" using r(8) assms(3) by (simp add: same_link_def)
  show ?thesis
  proof (cases "?room < length ?ms")
    case True
    then have "sendWaitingASDUs os con = Returns (True, con1)" using r(1) by (simp add: sendWaitingASDUs_def)
    moreover have "waiting_messages ?room ?ms xs = take ?room ?ms" using True by (simp add: waiting_messages_def)
    ultimately show ?thesis using r run by metis
  next
    case False
    have c: "0 \<le> sendCount con" "sendCount con < 32768" using assms(1) by (simp_all add: flow_def window_def)
    have room1: "room con1 (es @ es1) = ?room - length ?ms" using r(3,8) False by (simp add: room_def same_link_def)
    have "length (written con1) = length (written con) + length ?ms"
      using r(6) False c by (simp add: length_i_frames)
    then have ok2: "room con1 (es @ es1) = 0 \<or> find is_waiting xs = None \<or> takes os con1 0"
      using ok False by (cases "find is_waiting xs") (auto simp: room1 length_waiting next_event_def takes_def dest: spec [of _ "length ?ms"])
    obtain con2 es2 xs2 where e: "sendNextLowPriorityASDU os con1 = Returns con2" "flow con2 ((es @ es1) @ es2) xs2"
      "written con2 = written con1 @ i_frames (sendCount con1) (receiveCount con1) (take (?room - length ?ms) (next_event xs))"
      "same_link con1 con2" "idle con2" "highPrioQueue con2 = highPrioQueue con1"
      using send_event_spec [OF r(2,9) ok2] unfolding room1 next_event_def by blast
    have "sendWaitingASDUs os con = Returns (MessageQueue_isAsduAvailable (lowPrioQueue con2), con2)"
      using r(1) e(1) False by (simp add: sendWaitingASDUs_def)
    moreover have "written con2 = written con @ i_frames (sendCount con) (receiveCount con) (waiting_messages ?room ?ms xs)"
      using e(3) r(3,6-8) False i_frames_append [OF c, of "receiveCount con" ?ms "take (?room - length ?ms) (next_event xs)"]
      by (simp add: same_link_def min_def waiting_messages_def)
    moreover have "isRunning con2" using e(4) run by (simp add: same_link_def)
    ultimately show ?thesis using e r(4,5) by (metis append.assoc)
  qed
qed

lemma send_waiting_fails:
  assumes "flow con es xs" "idle con" "isRunning con" "hp_holds (highPrioQueue con) A B"
    and f: "f < length (waiting_messages (room con es) (contents A B) xs)" "\<forall>j < f. takes os con j" "\<not> takes os con f"
  shows "\<exists>more con' A' B'. sendWaitingASDUs os con = Returns (more, con') \<and> idle con' \<and> \<not> isRunning con' \<and>
    hp_holds (highPrioQueue con') A' B' \<and> contents A' B' = drop (Suc f) (contents A B) \<and>
    written con' = written con @
      i_frames (sendCount con) (receiveCount con) (take (Suc f) (waiting_messages (room con es) (contents A B) xs))"
proof (cases "f < length (contents A B)")
  case True
  then have fr: "f < min (room con es) (length (contents A B))" using f(1) by (simp add: length_waiting)
  from send_responses_fail [OF assms(1,2) fr f(2,3) assms(3,4) refl]
  obtain con' A' B' where r: "send_responses os con = Some (Returns (True, con'))" "\<not> isRunning con'" "idle con'"
    "written con' = written con @ i_frames (sendCount con) (receiveCount con) (take (Suc f) (contents A B))"
    "hp_holds (highPrioQueue con') A' B'" "contents A' B' = drop (Suc f) (contents A B)" by blast
  moreover have "sendWaitingASDUs os con = Returns (True, con')" using r(1) by (simp add: sendWaitingASDUs_def)
  moreover have "take (Suc f) (waiting_messages (room con es) (contents A B) xs) = take (Suc f) (contents A B)"
    using fr by (simp add: waiting_messages_def min_absorb1)
  ultimately show ?thesis by metis
next
  case False
  let ?ms = "contents A B"
  obtain x where x: "find is_waiting xs = Some x" "f = length ?ms" "length ?ms < room con es"
    using f(1) False by (cases "find is_waiting xs") (auto simp: length_waiting next_event_def)
  then have ok1: "\<forall>j < min (room con es) (length ?ms). takes os con j" using f(2) by simp
  obtain con1 es1 A1 B1 where r: "send_responses os con = Some (Returns (False, con1))" "flow con1 (es @ es1) xs"
    "length es1 = length ?ms" "hp_holds (highPrioQueue con1) A1 B1" "contents A1 B1 = []"
    "written con1 = written con @ i_frames (sendCount con) (receiveCount con) ?ms"
    "sendCount con1 = (sendCount con + int (length es1)) mod 32768" "same_link con con1" "idle con1"
    using send_responses_spec [OF assms(1,2) ok1 assms(3,4) refl] x(3) by auto
  have c: "0 \<le> sendCount con" "sendCount con < 32768" using assms(1) by (simp_all add: flow_def window_def)
  have room1: "0 < room con1 (es @ es1)" using r(3,8) x(3) by (simp add: room_def same_link_def)
  have "\<not> takes os con1 0" using f(3) r(6) x(2) by (simp add: takes_def length_i_frames)
  from send_event_fails [OF r(2,9) x(1) this room1]
  obtain con2 where e: "sendNextLowPriorityASDU os con1 = Returns con2" "failed_one con1 (qe_asdu (snd x)) con2"
    "highPrioQueue con2 = highPrioQueue con1" by blast
  have "sendWaitingASDUs os con = Returns (MessageQueue_isAsduAvailable (lowPrioQueue con2), con2)"
    using r(1) e(1) by (simp add: sendWaitingASDUs_def)
  moreover have "take (Suc f) (waiting_messages (room con es) ?ms xs) = ?ms @ [qe_asdu (snd x)]"
    using x by (simp add: waiting_messages_def next_event_def min_def)
  moreover have "written con2 = written con @ i_frames (sendCount con) (receiveCount con) (?ms @ [qe_asdu (snd x)])"
    using e(2) r(3,6-8) i_frames_append [OF c, of "receiveCount con" ?ms "[qe_asdu (snd x)]"]
    by (simp add: failed_one_def same_link_def)
  ultimately show ?thesis using e(2,3) r(4,5) x(2) by (simp add: failed_one_def) (metis)
qed

text \<open>
  C25: the thread sends what is waiting: all responses, oldest first, and then the first waiting event,
  as far as the window of k unacknowledged messages has room, in frames with consecutive send sequence
  numbers that acknowledge everything received. When the socket takes all of them, the loop ends with the
  connection running, the window within k, and the responses there was no room for in their queue. When the
  socket refuses one, this is the last frame tried, the connection is stopped, and the response in it is lost: it
  is in the queue no more. In both cases the loop ends and the locks are free again.
\<close>

theorem waiting_messages_sent:
  assumes "flow con es xs" "idle con" "isRunning con" "hp_holds (highPrioQueue con) A B"
    and "out = waiting_messages (room con es) (contents A B) xs"
    and "n = length (takeWhile (takes os con) [0..<length out])"
  shows "\<exists>more con' A' B'. sendWaitingASDUs os con = Returns (more, con') \<and> idle con' \<and> hp_holds (highPrioQueue con') A' B' \<and>
    written con' = written con @ i_frames (sendCount con) (receiveCount con) (take (Suc n) out) \<and>
    (if n = length out then isRunning con' \<and> contents A' B' = drop (room con es) (contents A B) \<and>
       (\<exists>es' xs'. flow con' (es @ es') xs')
     else \<not> isRunning con' \<and> contents A' B' = drop (Suc n) (contents A B))"
proof (cases "n = length out")
  case True
  then have "\<forall>j < length out. takes os con j" using takeWhile_all_upt [of "takes os con" "length out"] assms(6) by simp
  then obtain more con' es' xs' A' B' where "sendWaitingASDUs os con = Returns (more, con')" "flow con' (es @ es') xs'" "idle con'"
    "isRunning con'" "hp_holds (highPrioQueue con') A' B'" "contents A' B' = drop (room con es) (contents A B)"
    "written con' = written con @ i_frames (sendCount con) (receiveCount con) out"
    using send_waiting_all [OF assms(1-4)] unfolding assms(5) by blast
  then show ?thesis using True by (intro exI [of _ more] exI [of _ con'] exI [of _ A'] exI [of _ B']) auto
next
  case False
  then have "n < length out" "\<forall>j < n. takes os con j" "\<not> takes os con n"
    using takeWhile_upt [of "takes os con" "length out"] assms(6) by simp_all
  then show ?thesis using send_waiting_fails [OF assms(1-4), of n os] False unfolding assms(5) by simp blast
qed

text \<open>A connection with a response and an event, on a socket that takes everything and on one that breaks after a frame.\<close>

definition broken_os :: platform where
  "broken_os = demo_os\<lparr>send := \<lambda>n. if n = 0 then Sent 6 else Send_Error\<rparr>"

lemma demo_queues:
  assumes "flow con [] []" "idle con" "hp_holds (highPrioQueue con) [] []" "maxSentASDUs con = 12"
  shows "\<exists>low high p. MessageQueue_enqueueASDU (asdu_with_payload 7) (lowPrioQueue con) = Returns low \<and>
    HighPriorityASDUQueue_enqueue (asdu_with_payload 4) (highPrioQueue con) = Returns (True, high) \<and>
    (\<forall>c. c = con\<lparr>isRunning := True, lowPrioQueue := low, highPrioQueue := high\<rparr> \<longrightarrow>
       flow c [] [(p, waiting_entry (mq_entryId (lowPrioQueue con)) (asdu_bytes (asdu_with_payload 7)))] \<and> idle c \<and> isRunning c \<and>
       room c [] = 12 \<and> (\<exists>A B. hp_holds (highPrioQueue c) A B \<and> contents A B = [asdu_bytes (asdu_with_payload 4)]))"
proof -
  have q: "mq_holds (lowPrioQueue con) []" using assms(1) by (simp add: flow_def)
  obtain n p low where low: "MessageQueue_enqueueASDU (asdu_with_payload 7) (lowPrioQueue con) = Returns low"
    "mq_holds low (drop n [] @ [(p, waiting_entry (mq_entryId (lowPrioQueue con)) (asdu_bytes (asdu_with_payload 7)))])"
    using enqueue_spec [OF q, of "asdu_with_payload 7"] by auto
  have sz: "252 \<le> hp_size (highPrioQueue con)" using assms(3) by (simp add: hp_holds_def)
  obtain high A B where high: "HighPriorityASDUQueue_enqueue (asdu_with_payload 4) (highPrioQueue con) = Returns (True, high)"
    "hp_holds high A B" "contents A B = [asdu_bytes (asdu_with_payload 4)]"
    using hp_enqueue_spec [OF assms(3), of "asdu_with_payload 4"] sz by (auto simp: round_room_def has_room_def contents_def)
  have "window (con\<lparr>isRunning := True, lowPrioQueue := low, highPrioQueue := high\<rparr>) []"
    using assms(1) window_cong [of "con\<lparr>isRunning := True, lowPrioQueue := low, highPrioQueue := high\<rparr>" con "[]"] by (simp add: flow_def)
  then show ?thesis using low high assms(2,4)
    by (intro exI [of _ low] exI [of _ high] exI [of _ p]) (auto simp: flow_def linked_def idle_def room_def)
qed

theorem waiting_messages_sent_witness:
  "\<exists>con low high more con' more' broken. demo_connection = Returns con \<and>
    MessageQueue_enqueueASDU (asdu_with_payload 7) (lowPrioQueue con) = Returns low \<and>
    HighPriorityASDUQueue_enqueue (asdu_with_payload 4) (highPrioQueue con) = Returns (True, high) \<and>
    sendWaitingASDUs demo_os (con\<lparr>isRunning := True, lowPrioQueue := low, highPrioQueue := high\<rparr>) = Returns (more, con') \<and>
    written con' = [i_frame 0 0 (asdu_bytes (asdu_with_payload 4)), i_frame 1 0 (asdu_bytes (asdu_with_payload 7))] \<and> isRunning con' \<and>
    sendWaitingASDUs broken_os (con\<lparr>isRunning := True, lowPrioQueue := low, highPrioQueue := high\<rparr>) = Returns (more', broken) \<and>
    written broken = written con' \<and> \<not> isRunning broken"
proof -
  obtain con where c: "demo_connection = Returns con" "flow con [] []" "idle con" "hp_holds (highPrioQueue con) [] []"
    "maxSentASDUs con = 12" "sendCount con = 0" "receiveCount con = 0" "written con = []"
    using demo_connection_spec by blast
  obtain low high p where lh: "MessageQueue_enqueueASDU (asdu_with_payload 7) (lowPrioQueue con) = Returns low"
    "HighPriorityASDUQueue_enqueue (asdu_with_payload 4) (highPrioQueue con) = Returns (True, high)"
    and all: "\<And>c. c = con\<lparr>isRunning := True, lowPrioQueue := low, highPrioQueue := high\<rparr> \<Longrightarrow>
       flow c [] [(p, waiting_entry (mq_entryId (lowPrioQueue con)) (asdu_bytes (asdu_with_payload 7)))] \<and> idle c \<and> isRunning c \<and>
       room c [] = 12 \<and> (\<exists>A B. hp_holds (highPrioQueue c) A B \<and> contents A B = [asdu_bytes (asdu_with_payload 4)])"
    using demo_queues [OF c(2-5)] by blast
  define d where "d = con\<lparr>isRunning := True, lowPrioQueue := low, highPrioQueue := high\<rparr>"
  let ?xs = "[(p, waiting_entry (mq_entryId (lowPrioQueue con)) (asdu_bytes (asdu_with_payload 7)))]"
  let ?out = "[asdu_bytes (asdu_with_payload 4), asdu_bytes (asdu_with_payload 7)]"
  obtain A B where s: "flow d [] ?xs" "idle d" "isRunning d" "room d [] = 12" "hp_holds (highPrioQueue d) A B"
    "contents A B = [asdu_bytes (asdu_with_payload 4)]" using all [OF d_def] by blast
  have out: "?out = waiting_messages (room d []) (contents A B) ?xs"
    using s(4,6) by (simp add: waiting_messages_def next_event_def is_waiting_def waiting_entry_def)
  have d: "written d = []" "sendCount d = 0" "receiveCount d = 0" using c by (simp_all add: d_def)
  have n: "length (takeWhile (takes demo_os d) [0..<length ?out]) = 2" "length (takeWhile (takes broken_os d) [0..<length ?out]) = 1"
    using d(1) by (simp_all add: upt_rec demo_accepts takes_def broken_os_def Socket_write_def demo_os_def)
  obtain more con' where 1: "sendWaitingASDUs demo_os d = Returns (more, con')" "isRunning con'"
    "written con' = i_frames 0 0 ?out"
    using waiting_messages_sent [OF s(1,2,3,5) out n(1) [symmetric]] d by auto
  obtain more' broken where 2: "sendWaitingASDUs broken_os d = Returns (more', broken)" "\<not> isRunning broken"
    "written broken = i_frames 0 0 ?out"
    using waiting_messages_sent [OF s(1,2,3,5) out n(2) [symmetric]] d by auto
  show ?thesis using c(1) lh 1 2 unfolding d_def by auto
qed

end
