(* ===== verification/Thread_Locks.thy ===== *)
theory Thread_Locks
  imports Connection_Roles Connection_Flow
begin

text \<open>
  The locks of a connection: which messages leave the lock of the state taken, and what then hangs.
\<close>

section \<open>Waiting for a lock that is not released\<close>

lemma with_stateLock_stuck [simp]: "\<not> stateLock con \<Longrightarrow> with_stateLock f con = Diverges"
  by (simp add: with_stateLock_def wait_stateLock_def)

lemma deactivate_all_stuck:
  "(i, con) \<in> set cs \<Longrightarrow> \<not> stateLock con \<Longrightarrow> deactivate_all S cs g = Diverges"
proof (induction S cs g rule: deactivate_all.induct)
  case (2 S j c cs g)
  show ?case
  proof (cases "stateLock c")
    case True
    then have "(i, con) \<in> set cs" using 2(2,3) by auto
    then show ?thesis using 2(1) 2(3) True by (simp add: MasterConnection_deactivate_def with_stateLock_run)
  qed (simp add: MasterConnection_deactivate_def)
qed simp

lemma activate_stuck: "(i, con) \<in> set (others t) \<Longrightarrow> \<not> stateLock con \<Longrightarrow> CS104_Slave_activate S t = Diverges"
  by (simp add: CS104_Slave_activate_def deactivate_all_stuck [of i con])

section \<open>An I frame out of sequence\<close>

definition i_frame_at :: "bytes \<Rightarrow> int \<Rightarrow> bool" where
  "i_frame_at buffer msgSize \<longleftrightarrow> 7 \<le> msgSize \<and> buffer ! 0 = 0x68 \<and> uint (buffer ! 1) = msgSize - 2 \<and> buffer ! 2 AND 1 = 0"

definition send_number :: "bytes \<Rightarrow> int" where
  "send_number buffer = (uint (buffer ! 3) * 0x100 + uint (buffer ! 2 AND 0xfe)) div 2"

definition receive_number :: "bytes \<Rightarrow> int" where
  "receive_number buffer = (uint (buffer ! 5) * 0x100 + uint (buffer ! 4 AND 0xfe)) div 2"

lemma handle_i_frame_out_of_sequence:
  assumes "stateLock (self t)" "7 \<le> msgSize" "send_number buffer \<noteq> receiveCount (self t)"
  shows "\<exists>con. handle_i_frame os S now buffer msgSize t = Returns (False, t\<lparr>self := con\<rparr>) \<and> \<not> stateLock con"
proof -
  define con where "con = post_stateLock (if \<not> timeoutT2Triggered (self t)
    then (self t)\<lparr>stateLock := False, timeoutT2Triggered := True, lastConfirmationTime := now\<rparr> else (self t)\<lparr>stateLock := False\<rparr>)"
  have con: "stateLock con" "receiveCount con = receiveCount (self t)" by (simp_all add: con_def post_stateLock_def)
  have "on_self (with_stateLock (\<lambda>con. ((), if \<not> timeoutT2Triggered con
      then con\<lparr>timeoutT2Triggered := True, lastConfirmationTime := now\<rparr> else con))) t = Returns ((), t\<lparr>self := con\<rparr>)"
    using assms(1) by (simp add: on_self_def with_stateLock_run con_def)
  moreover have "wait_stateLock con = Returns (con\<lparr>stateLock := False\<rparr>)" using con by (simp add: wait_stateLock_def)
  ultimately have "handle_i_frame os S now buffer msgSize t = Returns (False, t\<lparr>self := con\<lparr>stateLock := False\<rparr>\<rparr>)"
    using assms(2,3) con unfolding handle_i_frame_def send_number_def by simp
  then show ?thesis by auto
qed

lemma handleMessage_out_of_sequence:
  assumes "stateLock (self t)" "i_frame_at buffer msgSize" "send_number buffer \<noteq> receiveCount (self t)"
  shows "\<exists>t'. handleMessage os S buffer msgSize t = Returns (False, t') \<and> \<not> stateLock (self t')"
proof -
  let ?t = "t\<lparr>self := (self t)\<lparr>clock_reads := clock_reads (self t) + 1\<rparr>\<rparr>"
  obtain con where "handle_i_frame os S (clock os (clock_reads (self t))) buffer msgSize ?t = Returns (False, ?t\<lparr>self := con\<rparr>)"
    "\<not> stateLock con"
    using handle_i_frame_out_of_sequence [of ?t msgSize buffer os S "clock os (clock_reads (self t))"] assms
    by (auto simp: i_frame_at_def)
  then show ?thesis
    using assms(2) by (simp add: handleMessage_def Hal_getTimeInMs_def i_frame_at_def handle_known_def)
qed

lemma receiveMessage_fields:
  assumes "receiveMessage os con = (n, con')"
  shows "stateLock con' = stateLock con" "sentASDUsLock con' = sentASDUsLock con" "receiveCount con' = receiveCount con"
    "isRunning con' = isRunning con"
proof -
  have p: "protocol_part con' = protocol_part con" using receive_protocol [of os con] assms by simp
  show "stateLock con' = stateLock con" "sentASDUsLock con' = sentASDUsLock con" "receiveCount con' = receiveCount con"
    "isRunning con' = isRunning con" by (fact protocol_fields [OF p])+
qed

text \<open>
  C27: one I frame with a wrong send sequence number hangs the slave. The thread of the connection waits for
  its own lock for ever, so the connection is never closed, and as soon as another master asks for the start
  of the data transfer, its thread waits for ever too, while it holds the lock of the connections.
\<close>

theorem sequence_error_hangs:
  assumes "stateLock (self t)" "isRunning (self t)" "receiveMessage os (self t) = (msgSize, con)"
    and "i_frame_at (recvBuffer con) msgSize" "send_number (recvBuffer con) \<noteq> receiveCount con"
  shows "thread_pass os S True t = Diverges \<and>
    (\<exists>t'. handleMessage os S (recvBuffer con) msgSize (t\<lparr>self := con\<rparr>) = Returns (False, t') \<and>
       (\<forall>i u. (i, self t') \<in> set (others u) \<longrightarrow> CS104_Slave_activate S u = Diverges))"
proof -
  have l: "stateLock con" "receiveCount con = receiveCount (self t)" using receiveMessage_fields [OF assms(3)] assms(1) by simp_all
  obtain t' where t': "handleMessage os S (recvBuffer con) msgSize (t\<lparr>self := con\<rparr>) = Returns (False, t')" "\<not> stateLock (self t')"
    using handleMessage_out_of_sequence [of "t\<lparr>self := con\<rparr>" "recvBuffer con" msgSize os S] l assms(4,5) by auto
  have pos: "0 < msgSize" using assms(4) by (simp add: i_frame_at_def)
  have "receive_pass os S t = Diverges"
    using assms(3) t' pos by (simp add: receive_pass_def MasterConnection_close_def Let_def)
  moreover have "MasterConnection_isRunning (self t) = Returns (True, self t)"
    using assms(1,2) by (simp add: MasterConnection_isRunning_def with_stateLock_run post_stateLock_def)
  ultimately have "thread_pass os S True t = Diverges" by (simp add: thread_pass_def)
  then show ?thesis using t' activate_stuck by blast
qed

text \<open>An I frame with the send sequence number 1 as the first message of a connection.\<close>

definition wrong_os :: platform where
  "wrong_os = demo_os\<lparr>recv := (\<lambda>n size. if n = 0 then Received [0x68] else if n = 1 then Received [5] else Received [2, 0, 0, 0, 1])\<rparr>"

definition wrong_connection :: master_connection where
  "wrong_connection = (MasterConnection_create defaultConnectionParameters (MessageQueue_create 10) (HighPriorityASDUQueue_create 10))
     \<lparr>isRunning := True\<rparr>"

definition plain_setup :: "unit slave_setup" where
  "plain_setup = \<lparr>conParameters = defaultConnectionParameters, alParameters = defaultAppLayerParameters,
     handlers = \<lparr>sh_interrogation = None, sh_clockSync = None, sh_resetProcess = None, sh_asdu = None, sh_connectionEvent = None\<rparr>\<rparr>"

lemma wrong_received:
  "\<exists>con. receiveMessage wrong_os wrong_connection = (7, con) \<and> take 7 (recvBuffer con) = [0x68, 5, 2, 0, 0, 0, 1] \<and>
     receiveCount con = 0"
  by (simp add: receiveMessage_def receive_start_def receive_length_def receive_rest_def readFromSocket_def Socket_read_def
      wrong_os_def wrong_connection_def MasterConnection_create_def Let_def)

theorem sequence_error_hangs_witness:
  "\<exists>t. self t = wrong_connection \<and> isRunning (self t) \<and> thread_pass wrong_os plain_setup True t = Diverges"
proof -
  define t :: "unit thread_state" where "t = \<lparr>self_id = 0, self = wrong_connection, others = [], app = ()\<rparr>"
  obtain con where c: "receiveMessage wrong_os wrong_connection = (7, con)" "receiveCount con = 0"
    and b: "take 7 (recvBuffer con) = [0x68, 5, 2, 0, 0, 0, 1]"
    using wrong_received by blast
  have at: "recvBuffer con ! i = [0x68, 5, 2, 0, 0, 0, 1] ! i" if "i < 7" for i
    using that nth_take [of i 7 "recvBuffer con"] unfolding b by simp
  have l: "stateLock (self t)" "isRunning (self t)" by (simp_all add: t_def wrong_connection_def MasterConnection_create_def)
  have "i_frame_at (recvBuffer con) 7" "send_number (recvBuffer con) \<noteq> receiveCount con"
    using c(2) at by (simp_all add: i_frame_at_def send_number_def)
  then have "thread_pass wrong_os plain_setup True t = Diverges"
    using sequence_error_hangs [OF l] c(1) by (simp add: t_def)
  then show ?thesis using l by (intro exI [of _ t]) (simp add: t_def)
qed

end
