(* ===== verification/Slave.thy ===== *)
theory Slave
  imports Connection_Thread
begin

text \<open>
  The slave (\<open>struct sCS104_Slave\<close> of \<open>cs104/cs104_slave.c\<close>) with its five connection slots, in the mode
  \<open>CS104_MODE_SINGLE_REDUNDANCY_GROUP\<close> the servers select: all connections share the two queues, and at most
  one of them is active. Its server thread accepts connections and frees the slots of closed ones. The lock
  of the slave's own state protects single accesses only and is left out; threads
  are started and joined by the library.
\<close>

section \<open>State\<close>

definition CONFIG_CS104_MAX_CLIENT_CONNECTIONS :: int where "CONFIG_CS104_MAX_CLIENT_CONNECTIONS = 5"
definition CONFIG_CS104_MESSAGE_QUEUE_SIZE :: int where "CONFIG_CS104_MESSAGE_QUEUE_SIZE = 100"
definition CONFIG_CS104_MESSAGE_QUEUE_HIGH_PRIO_SIZE :: int where "CONFIG_CS104_MESSAGE_QUEUE_HIGH_PRIO_SIZE = 50"

text \<open>The queues are NULL until the slave is started.\<close>

record 'g slave =
  sl_setup :: "'g slave_setup"
  asduQueue :: "message_queue option"
  connectionAsduQueue :: "high_prio_queue option"
  maxLowPrioQueueSize :: int
  maxHighPrioQueueSize :: int
  openConnections :: int
  masterConnections :: "master_connection list"
  openConnectionsLock :: bool
  maxOpenConnections :: int
  slave_isRunning :: bool
  stopRunning :: bool
  tcpPort :: int
  localAddress :: "string option"
  application :: 'g

definition no_handlers :: "'g slave_handlers" where
  "no_handlers = \<lparr>sh_interrogation = None, sh_clockSync = None, sh_resetProcess = None, sh_asdu = None, sh_connectionEvent = None\<rparr>"

definition createSlave :: "int \<Rightarrow> int \<Rightarrow> 'g \<Rightarrow> 'g slave" where
  "createSlave maxLow maxHigh g =
     \<lparr>sl_setup = \<lparr>conParameters = defaultConnectionParameters, alParameters = defaultAppLayerParameters, handlers = no_handlers\<rparr>,
      asduQueue = None, connectionAsduQueue = None, maxLowPrioQueueSize = maxLow, maxHighPrioQueueSize = maxHigh,
      openConnections = 0,
      masterConnections = replicate (nat CONFIG_CS104_MAX_CLIENT_CONNECTIONS)
        (MasterConnection_create defaultConnectionParameters (MessageQueue_create 0) (HighPriorityASDUQueue_create 0)),
      openConnectionsLock = True, maxOpenConnections = CONFIG_CS104_MAX_CLIENT_CONNECTIONS, slave_isRunning = False,
      stopRunning = False, tcpPort = 2404, localAddress = None, application = g\<rparr>"

definition CS104_Slave_create :: "int \<Rightarrow> int \<Rightarrow> 'g \<Rightarrow> 'g slave" where
  "CS104_Slave_create maxLow maxHigh g = createSlave maxLow maxHigh g"

definition CS104_Slave_setLocalAddress :: "string \<Rightarrow> 'g slave \<Rightarrow> 'g slave" where
  "CS104_Slave_setLocalAddress ipAddress sl = sl\<lparr>localAddress := Some ipAddress\<rparr>"

definition CS104_Slave_setLocalPort :: "int \<Rightarrow> 'g slave \<Rightarrow> 'g slave" where
  "CS104_Slave_setLocalPort port sl = sl\<lparr>tcpPort := port\<rparr>"

definition CS104_Slave_setMaxOpenConnections :: "int \<Rightarrow> 'g slave \<Rightarrow> 'g slave" where
  "CS104_Slave_setMaxOpenConnections n sl = sl\<lparr>maxOpenConnections :=
     (if n > CONFIG_CS104_MAX_CLIENT_CONNECTIONS then CONFIG_CS104_MAX_CLIENT_CONNECTIONS else n)\<rparr>"

definition set_handlers :: "('g slave_handlers \<Rightarrow> 'g slave_handlers) \<Rightarrow> 'g slave \<Rightarrow> 'g slave" where
  "set_handlers f sl = sl\<lparr>sl_setup := (sl_setup sl)\<lparr>handlers := f (handlers (sl_setup sl))\<rparr>\<rparr>"

definition CS104_Slave_setInterrogationHandler :: "(connection \<Rightarrow> asdu \<Rightarrow> u8 \<Rightarrow> 'g \<Rightarrow> 'g answer) \<Rightarrow> 'g slave \<Rightarrow> 'g slave" where
  "CS104_Slave_setInterrogationHandler h = set_handlers (\<lambda>H. H\<lparr>sh_interrogation := Some h\<rparr>)"

definition CS104_Slave_setClockSyncHandler :: "(connection \<Rightarrow> asdu \<Rightarrow> bytes \<Rightarrow> 'g \<Rightarrow> 'g answer) \<Rightarrow> 'g slave \<Rightarrow> 'g slave" where
  "CS104_Slave_setClockSyncHandler h = set_handlers (\<lambda>H. H\<lparr>sh_clockSync := Some h\<rparr>)"

definition CS104_Slave_setASDUHandler :: "(connection \<Rightarrow> asdu \<Rightarrow> 'g \<Rightarrow> 'g answer) \<Rightarrow> 'g slave \<Rightarrow> 'g slave" where
  "CS104_Slave_setASDUHandler h = set_handlers (\<lambda>H. H\<lparr>sh_asdu := Some h\<rparr>)"

definition CS104_Slave_setResetProcessHandler :: "(connection \<Rightarrow> asdu \<Rightarrow> u8 \<Rightarrow> 'g \<Rightarrow> 'g answer) \<Rightarrow> 'g slave \<Rightarrow> 'g slave" where
  "CS104_Slave_setResetProcessHandler h = set_handlers (\<lambda>H. H\<lparr>sh_resetProcess := Some h\<rparr>)"

definition CS104_Slave_setConnectionEventHandler :: "(connection \<Rightarrow> connection_event \<Rightarrow> 'g \<Rightarrow> 'g) \<Rightarrow> 'g slave \<Rightarrow> 'g slave" where
  "CS104_Slave_setConnectionEventHandler h = set_handlers (\<lambda>H. H\<lparr>sh_connectionEvent := Some h\<rparr>)"

section \<open>Queues\<close>

definition initializeMessageQueues :: "int \<Rightarrow> int \<Rightarrow> 'g slave \<Rightarrow> 'g slave" where
  "initializeMessageQueues low high sl =
     (let low = (if low < 1 then CONFIG_CS104_MESSAGE_QUEUE_SIZE else low);
          high = (if high < 1 then CONFIG_CS104_MESSAGE_QUEUE_HIGH_PRIO_SIZE else high)
      in sl\<lparr>asduQueue := Some (MessageQueue_create (nat low)),
            connectionAsduQueue := Some (HighPriorityASDUQueue_create (nat high))\<rparr>)"

text \<open>Starting the slave; \<open>bound\<close> tells whether the server socket could be created.\<close>

definition CS104_Slave_start :: "bool \<Rightarrow> 'g slave \<Rightarrow> 'g slave" where
  "CS104_Slave_start bound sl =
     (if \<not> slave_isRunning sl then
        let sl = initializeMessageQueues (maxLowPrioQueueSize sl) (maxHighPrioQueueSize sl) (sl\<lparr>stopRunning := False\<rparr>)
        in if bound then sl\<lparr>slave_isRunning := True\<rparr> else sl
      else sl)"

definition CS104_Slave_enqueueASDU :: "asdu \<Rightarrow> 'g slave \<Rightarrow> 'g slave outcome" where
  "CS104_Slave_enqueueASDU a sl = (case asduQueue sl of None \<Rightarrow> Undefined
     | Some q \<Rightarrow> obind (MessageQueue_enqueueASDU a q) (\<lambda>q. Returns (sl\<lparr>asduQueue := Some q\<rparr>)))"

definition CS104_Slave_getNumberOfQueueEntries :: "'g slave \<Rightarrow> int outcome" where
  "CS104_Slave_getNumberOfQueueEntries sl = (case asduQueue sl of None \<Rightarrow> Undefined
     | Some q \<Rightarrow> Returns (MessageQueue_getEntryCount q))"

section \<open>Connections\<close>

definition with_openConnectionsLock :: "('g slave \<Rightarrow> ('a \<times> 'g slave) outcome) \<Rightarrow> 'g slave \<Rightarrow> ('a \<times> 'g slave) outcome" where
  "with_openConnectionsLock f sl =
     (if openConnectionsLock sl then obind (f (sl\<lparr>openConnectionsLock := False\<rparr>)) (\<lambda>(x, sl). Returns (x, sl\<lparr>openConnectionsLock := True\<rparr>))
      else Diverges)"

definition CS104_Slave_getOpenConnections :: "'g slave \<Rightarrow> (int \<times> 'g slave) outcome" where
  "CS104_Slave_getOpenConnections = with_openConnectionsLock (\<lambda>sl. Returns (openConnections sl, sl))"

text \<open>The first slot that is not used; the slots before it are locked one after the other.\<close>

fun find_free :: "master_connection list \<Rightarrow> (nat option \<times> master_connection list) outcome" where
  "find_free [] = Returns (None, [])"
| "find_free (con # cs) =
     obind (with_stateLock (\<lambda>con. if \<not> isUsed con then (True, con\<lparr>isUsed := True\<rparr>) else (False, con)) con) (\<lambda>(free, con).
       if free then Returns (Some 0, con # cs)
       else obind (find_free cs) (\<lambda>(i, cs). Returns (map_option Suc i, con # cs)))"

definition getFreeConnection :: "'g slave \<Rightarrow> (nat option \<times> 'g slave) outcome" where
  "getFreeConnection = with_openConnectionsLock (\<lambda>sl.
     obind (find_free (masterConnections sl)) (\<lambda>(i, cs). Returns (i, sl\<lparr>masterConnections := cs,
       openConnections := (if i = None then openConnections sl else openConnections sl + 1)\<rparr>)))"

text \<open>A new socket; the address of the peer is None when it cannot be found.\<close>

definition accept_connection :: "platform \<Rightarrow> string option \<Rightarrow> 'g slave \<Rightarrow> 'g slave outcome" where
  "accept_connection os peer sl =
     obind (if maxOpenConnections sl > 0 then
              obind (CS104_Slave_getOpenConnections sl) (\<lambda>(n, sl). Returns (\<not> n \<ge> maxOpenConnections sl, sl))
            else Returns (True, sl)) (\<lambda>(acceptConnection, sl).
       if \<not> acceptConnection \<or> peer = None then Returns sl
       else obind (getFreeConnection sl) (\<lambda>(slot, sl). case slot of None \<Rightarrow> Returns sl
         | Some i \<Rightarrow> (case (asduQueue sl, connectionAsduQueue sl) of
               (Some low, Some high) \<Rightarrow>
                 obind (MasterConnection_init os (conParameters (sl_setup sl)) low high (masterConnections sl ! i)) (\<lambda>con.
                   Returns (sl\<lparr>masterConnections := (masterConnections sl)[i := con\<lparr>isRunning := True\<rparr>],
                     connectionAsduQueue := Some (highPrioQueue con)\<rparr>))
             | _ \<Rightarrow> Undefined)))"

text \<open>
  The search for a connection to close ends at the first slot in use, whether its connection is
  closed or not. True when a slot has become free.
\<close>

fun close_first_used :: "master_connection list \<Rightarrow> (bool \<times> master_connection list) outcome" where
  "close_first_used [] = Returns (False, [])"
| "close_first_used (con # cs) =
     obind (with_stateLock (\<lambda>con. (isUsed con, con)) con) (\<lambda>(used, con).
       if used then
         obind (MasterConnection_isRunning con) (\<lambda>(running, con).
           if \<not> running then obind (with_stateLock (\<lambda>con. ((), con\<lparr>isUsed := False\<rparr>)) con) (\<lambda>(_, con). Returns (True, con # cs))
           else Returns (False, con # cs))
       else obind (close_first_used cs) (\<lambda>(closed, cs). Returns (closed, con # cs)))"

definition close_connections :: "'g slave \<Rightarrow> 'g slave outcome" where
  "close_connections sl = obind (with_openConnectionsLock (\<lambda>sl.
     obind (close_first_used (masterConnections sl)) (\<lambda>(closed, cs). Returns ((), sl\<lparr>masterConnections := cs,
       openConnections := (if closed then openConnections sl - 1 else openConnections sl)\<rparr>))) sl) (\<lambda>(_, sl). Returns sl)"

text \<open>One pass of the server thread, with the new socket if there is one.\<close>

definition server_pass :: "platform \<Rightarrow> string option option \<Rightarrow> 'g slave \<Rightarrow> 'g slave outcome" where
  "server_pass os newSocket sl =
     obind (case newSocket of None \<Rightarrow> Returns sl | Some peer \<Rightarrow> accept_connection os peer sl) close_connections"

text \<open>
  A connection thread works on its slot, the queues of the slave and the other slots.
\<close>

definition thread_view :: "nat \<Rightarrow> 'g slave \<Rightarrow> message_queue \<Rightarrow> high_prio_queue \<Rightarrow> 'g thread_state" where
  "thread_view i sl low high = \<lparr>self_id = i,
     self = (masterConnections sl ! i)\<lparr>lowPrioQueue := low, highPrioQueue := high\<rparr>,
     others = map (\<lambda>j. (j, masterConnections sl ! j)) (filter (\<lambda>j. j \<noteq> i) [0..<length (masterConnections sl)]),
     app = application sl\<rparr>"

definition put_view :: "nat \<Rightarrow> 'g thread_state \<Rightarrow> 'g slave \<Rightarrow> 'g slave" where
  "put_view i t sl = sl\<lparr>
     masterConnections := map (\<lambda>j. if j = i then self t else the (map_of (others t) j)) [0..<length (masterConnections sl)],
     asduQueue := Some (lowPrioQueue (self t)), connectionAsduQueue := Some (highPrioQueue (self t)), application := app t\<rparr>"

definition run_thread :: "('g thread_state \<Rightarrow> ('a \<times> 'g thread_state) outcome) \<Rightarrow> nat \<Rightarrow> 'g slave \<Rightarrow> ('a \<times> 'g slave) outcome" where
  "run_thread f i sl = (case (asduQueue sl, connectionAsduQueue sl) of
     (Some low, Some high) \<Rightarrow> obind (f (thread_view i sl low high)) (\<lambda>(x, t). Returns (x, put_view i t sl))
   | _ \<Rightarrow> Undefined)"

section \<open>Stopping\<close>

fun stop_all :: "master_connection list \<Rightarrow> (int \<times> master_connection list) outcome" where
  "stop_all [] = Returns (0, [])"
| "stop_all (con # cs) =
     obind (with_stateLock (\<lambda>con. (isUsed con, con)) con) (\<lambda>(used, con).
     obind (if used then MasterConnection_close con else Returns con) (\<lambda>con.
     obind (stop_all cs) (\<lambda>(n, cs). Returns (if used then n + 1 else n, con # cs))))"

definition CS104_Slave_stop :: "'g slave \<Rightarrow> 'g slave outcome" where
  "CS104_Slave_stop sl = obind (with_openConnectionsLock (\<lambda>sl.
     obind (stop_all (masterConnections sl)) (\<lambda>(n, cs). Returns ((), sl\<lparr>masterConnections := cs,
       openConnections := openConnections sl - n\<rparr>))) (sl\<lparr>slave_isRunning := False, stopRunning := False\<rparr>)) (\<lambda>(_, sl). Returns sl)"

end
