(* ===== verification/Activation_Steps.thy ===== *)
theory Activation_Steps
  imports Slave Connection_Roles Connection_Flow
begin

text \<open>
  The steps of the slave that the locks keep apart: the server thread, the connection threads and the
  application in any order. The activation of a connection (\<open>CS104_Slave_activate\<close>) is not one step: the other
  connections are deactivated one after the other while \<open>openConnectionsLock\<close> is held, and the
  connection itself is activated after the lock is released, so that the steps of other threads come in between.
\<close>

section \<open>STARTDT\<close>

text \<open>The test of \<open>handleMessage\<close> for the message that activates a connection.\<close>

definition is_STARTDT_ACT :: "bytes \<Rightarrow> int \<Rightarrow> bool" where
  "is_STARTDT_ACT buffer msgSize \<longleftrightarrow> msgSize \<ge> 3 \<and> buffer ! 0 = 0x68 \<and> uint (buffer ! 1) = msgSize - 2 \<and>
     buffer ! 2 AND 1 \<noteq> 0 \<and> buffer ! 2 AND 0x43 \<noteq> 0x43 \<and> buffer ! 2 AND 0x07 = 0x07"

text \<open>Receiving this message, with the time at which its handling begins; None for every other message.\<close>

definition receive_STARTDT :: "platform \<Rightarrow> master_connection \<Rightarrow> (u64 \<times> master_connection) option" where
  "receive_STARTDT os con = (let (bytesRec, con) = receiveMessage os con
     in if is_STARTDT_ACT (recvBuffer con) bytesRec then Some (Hal_getTimeInMs os con) else None)"

text \<open>One pass of the loop that deactivates the other connections.\<close>

definition deactivate_other :: "'g slave_setup \<Rightarrow> connection \<Rightarrow> 'g thread_state \<Rightarrow> 'g thread_state outcome" where
  "deactivate_other S j t = (case map_of (others t) j of None \<Rightarrow> Undefined
     | Some con \<Rightarrow> obind (MasterConnection_deactivate con) (\<lambda>(was_active, con).
         Returns (t\<lparr>others := map (\<lambda>(i, c). if i = j then (i, con) else (i, c)) (others t),
           app := if was_active then connection_event_call S j Deactivated (app t) else app t\<rparr>)))"

fun deactivate_each :: "'g slave_setup \<Rightarrow> connection list \<Rightarrow> 'g thread_state \<Rightarrow> 'g thread_state outcome" where
  "deactivate_each S [] t = Returns t"
| "deactivate_each S (j # js) t = obind (deactivate_other S j t) (deactivate_each S js)"

text \<open>What the pass of the thread does after the loop: activating, the reply and the acknowledgement.\<close>

definition finish_STARTDT :: "platform \<Rightarrow> 'g slave_setup \<Rightarrow> u64 \<Rightarrow> 'g thread_state \<Rightarrow> 'g thread_state outcome" where
  "finish_STARTDT os S currentTime t =
     obind (MasterConnection_activate (self t)) (\<lambda>(was_inactive, con).
     let g = (if was_inactive then connection_event_call S (self_id t) Activated (app t) else app t);
         con = con\<lparr>highPrioQueue := HighPriorityASDUQueue_resetConnectionQueue (highPrioQueue con)\<rparr>;
         (n, con) = writeToSocket os STARTDT_CON_MSG con
     in obind (if n < 0 then MasterConnection_close con else resetT3Timeout (conParameters S) currentTime con) (\<lambda>con.
        obind (acknowledge_after_w os (conParameters S) con) (\<lambda>con. Returns (t\<lparr>self := con, app := g\<rparr>))))"

lemma self_then_app: "t\<lparr>self := c, app := g\<rparr> = t\<lparr>app := g, self := c\<rparr>"
  by simp

lemma deactivate_each_all:
  "others t = done @ cs \<Longrightarrow> distinct (map fst (done @ cs)) \<Longrightarrow>
     deactivate_each S (map fst cs) t = obind (deactivate_all S cs (app t)) (\<lambda>(cs', g). Returns (t\<lparr>others := done @ cs', app := g\<rparr>))"
proof (induction cs arbitrary: t "done")
  case Nil
  then show ?case by simp
next
  case (Cons c cs)
  obtain j con where c: "c = (j, con)" by fastforce
  have new: "j \<notin> fst ` set done" "j \<notin> fst ` set cs" using Cons.prems(2) c by auto
  then have "map_of (others t) j = Some con"
    using Cons.prems(1) c by (simp add: map_add_Some_iff dom_map_of_conv_image_fst map_of_eq_None_iff)
  moreover have "map (\<lambda>(i, d). if i = j then (i, x) else (i, d)) (others t) = (done @ [(j, x)]) @ cs" for x
    using Cons.prems(1) c new by (force intro!: map_idI)
  ultimately show ?case
    using c Cons.prems(2) Cons.IH [of _ "done @ [(j, x)]" for x]
    by (cases "MasterConnection_deactivate con") (auto simp: deactivate_other_def obind_assoc case_prod_unfold)
qed

text \<open>Nothing in between, these parts make up the pass of the thread that receives the message.\<close>

lemma receive_pass_STARTDT:
  assumes r: "receive_STARTDT os (self t) = Some (currentTime, con)" and d: "distinct (map fst (others t))"
  shows "receive_pass os S t = obind (deactivate_each S (map fst (others t)) (t\<lparr>self := con\<rparr>)) (\<lambda>t.
    obind (finish_STARTDT os S currentTime t) (\<lambda>t. Returns (False, t)))"
proof -
  obtain n c where c: "receiveMessage os (self t) = (n, c)" "is_STARTDT_ACT (recvBuffer c) n" "(currentTime, con) = Hal_getTimeInMs os c"
    using r by (auto simp: receive_STARTDT_def Let_def split: prod.splits if_splits)
  have b: "recvBuffer con = recvBuffer c" "con = snd (Hal_getTimeInMs os c)" using c(3) by (simp_all add: Hal_getTimeInMs_def)
  have each: "deactivate_each S (map fst (others t)) (t\<lparr>self := con\<rparr>) =
      obind (deactivate_all S (others t) (app t)) (\<lambda>(cs, g). Returns (t\<lparr>self := con, others := cs, app := g\<rparr>))"
    using deactivate_each_all [of "t\<lparr>self := con\<rparr>" "[]" "others t" S] d by simp
  have m: "handleMessage os S (recvBuffer c) n (t\<lparr>self := c\<rparr>) = obind (handle_startdt os S (t\<lparr>self := con\<rparr>)) (\<lambda>(ok, t).
      if ok then obind (resetT3Timeout (conParameters S) currentTime (self t)) (\<lambda>con. Returns (True, t\<lparr>self := con\<rparr>)) else Returns (False, t))"
    using c(2,3) by (cases "handle_startdt os S (t\<lparr>self := con\<rparr>)")
      (auto simp: handleMessage_def handle_known_def is_STARTDT_ACT_def Let_def split: prod.splits)
  have n: "n \<noteq> -1" "n > 0" using c(2) by (auto simp: is_STARTDT_ACT_def)
  show ?thesis
    unfolding each receive_pass_def c(1) using n m
    apply (simp add: Let_def)
    apply (cases "deactivate_all S (others t) (app t)")
      apply (simp_all add: handle_startdt_def CS104_Slave_activate_def finish_STARTDT_def Let_def split: prod.splits)
    apply (cases "MasterConnection_activate con")
    apply (auto simp: Let_def obind_assoc self_then_app split: prod.splits)
    done
qed

section \<open>Steps\<close>

text \<open>
  Where a connection thread stands: between two messages, waiting for \<open>openConnectionsLock\<close> with a STARTDT
  received at the given time, holding the lock with the given connections left to deactivate, or
  behind the release of the lock with its own connection left to activate.
\<close>

datatype thread_place = Between_Messages | Waiting_For_Lock u64 | Deactivating u64 "connection list" | Activating u64

text \<open>
  A step of a connection thread, with \<open>openConnectionsLock\<close>, its place and its state. The loop under the
  lock is a step for each connection it deactivates, since the flag \<open>isActive\<close> is protected by
  \<open>stateLock\<close> only and other threads may set theirs in between. The rest of a pass is one step for the
  message and one for the timeouts and the sending: it works on the slot of the thread itself and, under
  their locks, on the queues, and never sets \<open>isActive\<close> or \<open>isUsed\<close>, so that where a deactivation by another
  thread falls into it matters for what is sent, but not for the flags. More orders are
  allowed than the loop of the thread has: it may skip the timeouts or the receiving, and start and end at any time.
\<close>

inductive thread_step :: "'g slave_setup \<Rightarrow> bool \<times> thread_place \<times> 'g thread_state \<Rightarrow> bool \<times> thread_place \<times> 'g thread_state \<Rightarrow> bool"
  for S :: "'g slave_setup" where
  started: "thread_start os S peer t = Returns t' \<Longrightarrow> thread_step S (free, Between_Messages, t) (free, Between_Messages, t')"
| received: "isRunning (self t) \<Longrightarrow> receive_STARTDT os (self t) = None \<Longrightarrow> receive_pass os S t = Returns (stop, t') \<Longrightarrow>
    thread_step S (free, Between_Messages, t) (free, Between_Messages, t')"
| startdt: "isRunning (self t) \<Longrightarrow> receive_STARTDT os (self t) = Some (currentTime, con) \<Longrightarrow>
    thread_step S (free, Between_Messages, t) (free, Waiting_For_Lock currentTime, t\<lparr>self := con\<rparr>)"
| locked: "thread_step S (True, Waiting_For_Lock now, t) (False, Deactivating now (map fst (others t)), t)"
| deactivated: "deactivate_other S j t = Returns t' \<Longrightarrow> thread_step S (free, Deactivating now (j # js), t) (free, Deactivating now js, t')"
| released: "thread_step S (free, Deactivating now [], t) (True, Activating now, t)"
| activated: "finish_STARTDT os S now t = Returns t' \<Longrightarrow> thread_step S (free, Activating now, t) (free, Between_Messages, t')"
| timed: "isRunning (self t) \<Longrightarrow> timeouts_and_send os (conParameters S) (self t) = Returns con \<Longrightarrow>
    thread_step S (free, Between_Messages, t) (free, Between_Messages, t\<lparr>self := con\<rparr>)"
| ended: "thread_end S t = Returns t' \<Longrightarrow> thread_step S (free, Between_Messages, t) (free, Between_Messages, t')"

inductive_cases thread_stepE: "thread_step S s s'"

text \<open>A step of the server thread, of the application, or of the thread of slot \<open>i\<close>.\<close>

inductive slave_step :: "'g slave \<times> (nat \<Rightarrow> thread_place) \<Rightarrow> 'g slave \<times> (nat \<Rightarrow> thread_place) \<Rightarrow> bool" where
  accepted: "accept_connection os peer sl = Returns sl' \<Longrightarrow> slave_step (sl, places) (sl', places)"
| closed: "close_connections sl = Returns sl' \<Longrightarrow> slave_step (sl, places) (sl', places)"
| enqueued: "CS104_Slave_enqueueASDU a sl = Returns sl' \<Longrightarrow> slave_step (sl, places) (sl', places)"
| thread: "i < length (masterConnections sl) \<Longrightarrow> asduQueue sl = Some low \<Longrightarrow> connectionAsduQueue sl = Some high \<Longrightarrow>
    thread_step (sl_setup sl) (openConnectionsLock sl, places i, thread_view i sl low high) (free, place, t) \<Longrightarrow>
    slave_step (sl, places) ((put_view i t sl)\<lparr>openConnectionsLock := free\<rparr>, places(i := place))"

inductive_cases slave_stepE: "slave_step s s'"

end
