(* ===== verification/Slave_Flags.thy ===== *)
theory Slave_Flags
  imports Activation_Steps
begin

text \<open>
  What the steps of the threads do to the flags of the slots: the counter of open connections stays the number
  of slots in use, and only the last step of an activation makes a connection active.
\<close>

section \<open>One step of a connection thread\<close>

definition active_ids :: "'g thread_state \<Rightarrow> connection set" where
  "active_ids t = {i. (i = self_id t \<and> isActive (self t)) \<or> (\<exists>con. (i, con) \<in> set (others t) \<and> isActive con)}"

definition used_flags :: "(connection \<times> master_connection) list \<Rightarrow> (connection \<times> bool) list" where
  "used_flags cs = map (\<lambda>(i, con). (i, isUsed con)) cs"

text \<open>The connections keep their slots; quietly, no connection becomes active.\<close>

definition same_slots :: "'g thread_state \<Rightarrow> 'g thread_state \<Rightarrow> bool" where
  "same_slots t t' \<longleftrightarrow> self_id t' = self_id t \<and> isUsed (self t') = isUsed (self t) \<and> used_flags (others t') = used_flags (others t)"

definition quiet :: "'g thread_state \<Rightarrow> 'g thread_state \<Rightarrow> bool" where
  "quiet t t' \<longleftrightarrow> same_slots t t' \<and> active_ids t' \<subseteq> active_ids t"

lemma quiet_trans: "quiet t u \<Longrightarrow> quiet u v \<Longrightarrow> quiet t v"
  by (auto simp: quiet_def same_slots_def)

lemma quiet_same:
  assumes "role con = role (self t)"
  shows "quiet t (t\<lparr>self := con\<rparr>)" "quiet t (t\<lparr>self := con, app := g\<rparr>)"
  using assms by (auto simp: quiet_def same_slots_def role_def active_ids_def)

lemma quiet_on_self:
  "on_self f t = Returns (x, t') \<Longrightarrow> (\<And>c y c'. f c = Returns (y, c') \<Longrightarrow> role c' = role c) \<Longrightarrow> quiet t t'"
  by (auto simp: on_self_def obind_Returns intro: quiet_same)

lemma quiet_accept_i_frame:
  assumes h: "accept_i_frame os S buffer n t con = Returns (ok, t')" and r: "role con = role (self t)"
  shows "quiet t t'"
proof -
  let ?count = "\<lambda>con. ((), con\<lparr>receiveCount := (receiveCount con + 1) mod 32768,
    unconfirmedReceivedIMessages := unconfirmedReceivedIMessages con + 1\<rparr>)"
  obtain d e active where d: "with_stateLock ?count con = Returns ((), d)" "MasterConnection_isActive d = Returns (active, e)"
    using h by (auto simp: accept_i_frame_def obind_Returns)
  have "role d = role con" using d(1) by (rule role_with_stateLock) (simp add: role_def)
  then have e: "role e = role (self t)" using role_isActive [OF d(2)] r by simp
  consider "t' = t\<lparr>self := e\<rparr>" | acts f g where "perform_all os acts e = Returns f" "t' = t\<lparr>self := f, app := g\<rparr>"
    using h d by (auto simp: accept_i_frame_def obind_Returns split: if_splits option.splits)
  then show ?thesis
    using quiet_same [of _ t] e by cases (auto dest: role_perform_all)
qed

lemma quiet_i_frame: "handle_i_frame os S now buffer n t = Returns (ok, t') \<Longrightarrow> quiet t t'"
proof (cases "n < 7")
  case True
  then show "handle_i_frame os S now buffer n t = Returns (ok, t') \<Longrightarrow> quiet t t'"
    using quiet_same(1) [of "self t" t] by (auto simp: handle_i_frame_def)
next
  case False
  assume h: "handle_i_frame os S now buffer n t = Returns (ok, t')"
  let ?nr = "(uint (buffer ! 5) * 0x100 + uint (buffer ! 4 AND 0xfe)) div 2"
  obtain u con where u: "on_self (with_stateLock (\<lambda>con. ((), if \<not> timeoutT2Triggered con
      then con\<lparr>timeoutT2Triggered := True, lastConfirmationTime := now\<rparr> else con))) t = Returns ((), u)"
    "wait_stateLock (self u) = Returns con"
    and cases: "t' = u\<lparr>self := con\<rparr> \<or> (\<exists>b c. checkSequenceNumber ?nr (post_stateLock con) = Returns (b, c) \<and>
      (t' = u\<lparr>self := c\<rparr> \<or> accept_i_frame os S buffer n u c = Returns (ok, t')))"
    using h False by (auto simp: handle_i_frame_def Let_def obind_Returns split: if_splits)
  have tu: "quiet t u" using u(1) by (rule quiet_on_self) (erule role_with_stateLock, simp add: role_def)
  have con: "role (post_stateLock con) = role (self u)" "role con = role (self u)"
    using u(2) by (auto simp: wait_stateLock_def post_stateLock_def role_def split: if_splits)
  have "quiet u t'"
    using cases
  proof (elim disjE exE conjE)
    assume "t' = u\<lparr>self := con\<rparr>"
    then show ?thesis using quiet_same(1) [OF con(2)] by simp
  next
    fix b c assume c: "checkSequenceNumber ?nr (post_stateLock con) = Returns (b, c)"
    have r: "role c = role (self u)" using role_checkSequenceNumber [OF c] con(1) by simp
    { assume "t' = u\<lparr>self := c\<rparr>" then show ?thesis using quiet_same(1) [OF r] by simp }
    { assume "accept_i_frame os S buffer n u c = Returns (ok, t')" then show ?thesis by (rule quiet_accept_i_frame [OF _ r]) }
  qed
  then show ?thesis using tu quiet_trans by blast
qed

lemma quiet_stopdt: "handle_stopdt os S t = Returns (ok, t') \<Longrightarrow> quiet t t'"
proof -
  assume h: "handle_stopdt os S t = Returns (ok, t')"
  let ?ack = "\<lambda>con. let (now, con) = Hal_getTimeInMs os con
    in ((), send_S os (con\<lparr>lastConfirmationTime := now, unconfirmedReceivedIMessages := 0, timeoutT2Triggered := False\<rparr>))"
  obtain b c d g where c: "MasterConnection_deactivate (self t) = Returns (b, c)" "with_stateLock ?ack c = Returns ((), d)"
    "t' = t\<lparr>self := d\<lparr>written := written d @ [STOPDT_CON_MSG]\<rparr>, app := g\<rparr>"
    using h by (auto simp: handle_stopdt_def obind_Returns Let_def writeToSocket_def)
  have "isUsed c = isUsed (self t)" "\<not> isActive c"
    using c(1) by (auto simp: MasterConnection_deactivate_def with_stateLock_def wait_stateLock_def post_stateLock_def split: if_splits)
  moreover have "role d = role c"
    using c(2) by (rule role_with_stateLock) (simp add: Hal_getTimeInMs_def, simp add: role_def)
  ultimately have "isUsed d = isUsed (self t)" "\<not> isActive d" by (simp_all add: role_def)
  then show ?thesis using c(3) by (auto simp: quiet_def same_slots_def active_ids_def)
qed

lemma quiet_s_frame: "handle_s_frame buffer t = Returns (ok, t') \<Longrightarrow> quiet t t'"
  by (auto simp: handle_s_frame_def obind_Returns split: if_splits
      intro!: quiet_same(1) dest!: role_isActive role_checkSequenceNumber)

lemma quiet_known:
  assumes h: "handle_known os S now buffer n t = Returns (r, t')"
    and other: "\<not> (buffer ! 2 AND 1 \<noteq> 0 \<and> buffer ! 2 AND 0x43 \<noteq> 0x43 \<and> buffer ! 2 AND 0x07 = 0x07)"
  shows "quiet t t'"
proof -
  have w: "quiet t (t\<lparr>self := snd (writeToSocket os TESTFR_CON_MSG (self t))\<rparr>)"
    by (rule quiet_same(1)) (simp add: writeToSocket_def role_def)
  have test: "quiet t u" if "on_self (with_stateLock (\<lambda>con. (True, con\<lparr>waitingForTestFRcon := False\<rparr>))) t = Returns (x, u)" for x u
    using that by (rule quiet_on_self) (erule role_with_stateLock, simp add: role_def)
  have "quiet t t" using quiet_same(1) [of "self t" t] by simp
  then show ?thesis using h w test other
    by (auto simp: handle_known_def Let_def obind_Returns split: if_splits prod.splits
        dest: quiet_i_frame quiet_stopdt quiet_s_frame)
qed

lemma quiet_message:
  assumes h: "handleMessage os S buffer n t = Returns (ok, t')" and other: "\<not> is_STARTDT_ACT buffer n"
  shows "quiet t t'"
proof -
  let ?t = "t\<lparr>self := (self t)\<lparr>clock_reads := clock_reads (self t) + 1\<rparr>\<rparr>"
  have 1: "quiet t ?t" by (rule quiet_same(1)) (simp add: role_def)
  consider "t' = ?t" | r u where "handle_known os S (clock os (clock_reads (self t))) buffer n ?t = Returns (r, u)"
    "n \<ge> 3" "buffer ! 0 = 0x68" "uint (buffer ! 1) = n - 2"
    "t' = u \<or> (\<exists>con. resetT3Timeout (conParameters S) (clock os (clock_reads (self t))) (self u) = Returns con \<and> t' = u\<lparr>self := con\<rparr>)"
    using h by (auto simp: handleMessage_def Hal_getTimeInMs_def Let_def obind_Returns split: if_splits option.splits bool.splits)
  then show ?thesis
  proof cases
    case 2
    then have "quiet ?t u" using other by (intro quiet_known [OF 2(1)]) (auto simp: is_STARTDT_ACT_def)
    moreover have "quiet u t'" using 2(5) quiet_same(1) [of "self u" u] by (auto intro!: quiet_same(1) role_resetT3Timeout)
    ultimately show ?thesis using 1 quiet_trans by blast
  qed (use 1 in simp)
qed

lemma role_acknowledge: "acknowledge_after_w os P con = Returns con' \<Longrightarrow> role con' = role con"
proof (cases "unconfirmedReceivedIMessages con \<ge> apci_w P")
  case True
  assume "acknowledge_after_w os P con = Returns con'"
  then have "sendSMessage os (con\<lparr>clock_reads := clock_reads con + 1, lastConfirmationTime := clock os (clock_reads con),
      unconfirmedReceivedIMessages := 0, timeoutT2Triggered := False\<rparr>) = Returns con'"
    using True by (simp add: acknowledge_after_w_def Hal_getTimeInMs_def)
  from role_sendSMessage [OF this] show ?thesis by (simp add: role_def)
qed (simp add: acknowledge_after_w_def)

lemma quiet_receive:
  assumes h: "receive_pass os S t = Returns (stop, t')" and other: "receive_STARTDT os (self t) = None"
  shows "quiet t t'"
proof -
  obtain n con where r: "receiveMessage os (self t) = (n, con)" by fastforce
  have no: "\<not> is_STARTDT_ACT (recvBuffer con) n" using other r by (simp add: receive_STARTDT_def Let_def split: if_splits)
  let ?t = "t\<lparr>self := con\<rparr>"
  have 1: "quiet t ?t" using role_receiveMessage [of os "self t"] r by (intro quiet_same(1)) simp
  consider "t' = ?t" | ok u c d where "handleMessage os S (recvBuffer con) n ?t = Returns (ok, u)"
    "(if ok then Returns (self u) else MasterConnection_close (self u)) = Returns c"
    "acknowledge_after_w os (conParameters S) c = Returns d" "t' = u\<lparr>self := d\<rparr>"
  proof (cases "n = -1 \<or> \<not> n > 0")
    case True
    then show ?thesis using h r that(1) by (auto simp: receive_pass_def Let_def split: if_splits)
  next
    case False
    then have "obind (handleMessage os S (recvBuffer con) n ?t) (\<lambda>(ok, t).
        obind (if ok then Returns (self t) else MasterConnection_close (self t)) (\<lambda>con.
        obind (acknowledge_after_w os (conParameters S) con) (\<lambda>con. Returns (False, t\<lparr>self := con\<rparr>)))) = Returns (stop, t')"
      using h r by (simp add: receive_pass_def Let_def)
    then show ?thesis using that(2) by (elim obind_pairE obindE) auto
  qed
  then show ?thesis
  proof cases
    case 2
    have "role c = role (self u)" using 2(2) role_close by (auto split: if_splits)
    then have "role d = role (self u)" using role_acknowledge [OF 2(3)] by simp
    then show ?thesis using quiet_message [OF 2(1) no] quiet_same(1) [of d u] 1 2(4) quiet_trans by blast
  qed (use 1 in simp)
qed

lemma role_timeouts_and_send: "timeouts_and_send os P con = Returns con' \<Longrightarrow> role con' = role con"
  unfolding timeouts_and_send_def
proof (elim obind_pairE obindE)
  fix ok c d run e active f x g
  assume "handleTimeouts os P con = Returns (ok, c)"
    "(if ok then Returns c else MasterConnection_close c) = Returns d"
    "MasterConnection_isRunning d = Returns (run, e)"
    "(if run then MasterConnection_isActive e else Returns (False, e)) = Returns (active, f)"
    "(if active then sendWaitingASDUs os f else Returns (False, f)) = Returns (x, g)" "Returns g = Returns con'"
  then have "role con' = role f" "role f = role e" "role e = role d" "role d = role c" "role c = role con"
    by (auto split: if_splits dest: role_intros)
  then show ?thesis by simp
qed

lemma quiet_end: "thread_end S t = Returns t' \<Longrightarrow> quiet t t'"
  by (auto simp: thread_end_def Let_def obind_Returns role_queue intro!: quiet_same(2) dest!: role_close)

lemma quiet_start: "thread_start os S peer t = Returns t' \<Longrightarrow> quiet t t'"
  by (auto simp: thread_start_def Let_def obind_Returns Hal_getTimeInMs_def intro!: quiet_same(2) dest!: role_resetT3Timeout)
    (simp_all add: role_def)

section \<open>The slots of the slave\<close>

definition active_slots :: "'g slave \<Rightarrow> nat set" where
  "active_slots sl = {i. i < length (masterConnections sl) \<and> isActive (masterConnections sl ! i)}"

definition used_slots_of :: "'g slave \<Rightarrow> int" where
  "used_slots_of sl = int (length (filter isUsed (masterConnections sl)))"

lemma view_others: "others (thread_view i sl low high) = map (\<lambda>j. (j, masterConnections sl ! j))
    (filter (\<lambda>j. j \<noteq> i) [0..<length (masterConnections sl)])"
  by (simp add: thread_view_def)

lemma view_active: "i < length (masterConnections sl) \<Longrightarrow> active_ids (thread_view i sl low high) = active_slots sl"
  by (auto simp: active_ids_def active_slots_def thread_view_def)

lemma map_of_used_flags: "map_of (used_flags cs) j = map_option isUsed (map_of cs j)"
  by (induction cs) (auto simp: used_flags_def)

lemma put_view_spec:
  assumes i: "i < length (masterConnections sl)" and h: "same_slots (thread_view i sl low high) t"
  shows "active_slots (put_view i t sl) = active_ids t" "map isUsed (masterConnections (put_view i t sl)) = map isUsed (masterConnections sl)"
proof -
  let ?n = "length (masterConnections sl)" and ?js = "filter (\<lambda>j. j \<noteq> i) [0..<length (masterConnections sl)]"
  have flags: "used_flags (others t) = map (\<lambda>j. (j, isUsed (masterConnections sl ! j))) ?js"
    using h by (simp add: quiet_def same_slots_def thread_view_def used_flags_def o_def)
  then have "map fst (used_flags (others t)) = ?js" by (simp add: o_def)
  then have fsts: "map fst (others t) = ?js" by (simp add: used_flags_def case_prod_beta o_def)
  have id: "self_id t = i" and used: "isUsed (self t) = isUsed (masterConnections sl ! i)"
    using h by (simp_all add: quiet_def same_slots_def thread_view_def)
  have at: "\<exists>con. map_of (others t) j = Some con \<and> (j, con) \<in> set (others t) \<and> isUsed con = isUsed (masterConnections sl ! j)"
    if "j < ?n" "j \<noteq> i" for j
  proof -
    have "map_of (used_flags (others t)) j = Some (isUsed (masterConnections sl ! j))"
      unfolding flags using that by (intro map_of_is_SomeI) (auto simp: o_def)
    then show ?thesis unfolding map_of_used_flags by (auto dest: map_of_SomeD)
  qed
  have dist: "distinct (map fst (others t))" using fsts by simp
  have ids: "j < ?n \<and> j \<noteq> i" if "(j, con) \<in> set (others t)" for j con
  proof -
    have "j \<in> set (map fst (others t))" using that by force
    then show ?thesis unfolding fsts by simp
  qed
  have nth: "masterConnections (put_view i t sl) ! j = (if j = i then self t else the (map_of (others t) j))" if "j < ?n" for j
    using that by (simp add: put_view_def)
  have len: "length (masterConnections (put_view i t sl)) = ?n" by (simp add: put_view_def)
  show "active_slots (put_view i t sl) = active_ids t"
  proof (intro set_eqI iffI)
    fix j assume "j \<in> active_slots (put_view i t sl)"
    then have j: "j < ?n" "isActive (if j = i then self t else the (map_of (others t) j))"
      using nth by (auto simp: active_slots_def len)
    then show "j \<in> active_ids t" using at [OF j(1)] id by (cases "j = i") (auto simp: active_ids_def)
  next
    fix j assume "j \<in> active_ids t"
    then consider "j = i" "isActive (self t)" | con where "(j, con) \<in> set (others t)" "isActive con"
      using id by (auto simp: active_ids_def)
    then show "j \<in> active_slots (put_view i t sl)"
      using i nth ids map_of_is_SomeI [OF dist] by cases (auto simp: active_slots_def len)
  qed
  show "map isUsed (masterConnections (put_view i t sl)) = map isUsed (masterConnections sl)"
  proof (rule nth_equalityI)
    fix j assume "j < length (map isUsed (masterConnections (put_view i t sl)))"
    then have j: "j < ?n" by (simp add: len)
    then show "map isUsed (masterConnections (put_view i t sl)) ! j = map isUsed (masterConnections sl) ! j"
      using nth [OF j] at [OF j] used by (cases "j = i") (auto simp: len)
  qed (simp add: len)
qed

section \<open>Steps of the threads\<close>

lemma step_deactivated:
  assumes "deactivate_other S j t = Returns t'" and d: "distinct (map fst (others t))"
  shows "same_slots t t'" "active_ids t' \<subseteq> insert (self_id t) (active_ids t - {j})" "quiet t t'"
proof -
  obtain con b con' g where c: "map_of (others t) j = Some con" "MasterConnection_deactivate con = Returns (b, con')"
    "t' = t\<lparr>others := map (\<lambda>(i, c). if i = j then (i, con') else (i, c)) (others t), app := g\<rparr>"
    using assms(1) by (auto simp: deactivate_other_def obind_Returns split: option.splits)
  have off: "\<not> isActive con'" "isUsed con' = isUsed con"
    using c(2) by (auto simp: MasterConnection_deactivate_def with_stateLock_def wait_stateLock_def post_stateLock_def split: if_splits)
  have same: "c = con" if "(j, c) \<in> set (others t)" for c
    using c(1) map_of_is_SomeI [OF d that] by simp
  have "used_flags (others t') = used_flags (others t)"
    using c(3) off(2) same by (auto simp: used_flags_def)
  then show slots: "same_slots t t'" using c(3) by (simp add: same_slots_def)
  show ids: "active_ids t' \<subseteq> insert (self_id t) (active_ids t - {j})"
    using c(3) off(1) by (auto simp: active_ids_def split: if_splits)
  have "active_ids t' \<subseteq> active_ids t" using c(3) off(1) by (auto simp: active_ids_def split: if_splits)
  then show "quiet t t'" using slots by (simp add: quiet_def)
qed

lemma step_activated:
  assumes "finish_STARTDT os S now t = Returns t'"
  shows "same_slots t t'" "active_ids t' = insert (self_id t) (active_ids t)"
proof -
  obtain b con n con1 con2 con3 g where c: "MasterConnection_activate (self t) = Returns (b, con)"
    "writeToSocket os STARTDT_CON_MSG (con\<lparr>highPrioQueue := HighPriorityASDUQueue_resetConnectionQueue (highPrioQueue con)\<rparr>) = (n, con1)"
    "(if n < 0 then MasterConnection_close con1 else resetT3Timeout (conParameters S) now con1) = Returns con2"
    "acknowledge_after_w os (conParameters S) con2 = Returns con3" "t' = t\<lparr>self := con3, app := g\<rparr>"
    using assms unfolding finish_STARTDT_def by (elim obind_pairE) (auto simp: Let_def obind_Returns split: prod.splits)
  have "role con3 = role con2" "role con2 = role con1" "role con1 = role con"
    using c(2-4) by (auto simp: role_queue split: if_splits dest: role_acknowledge role_intros role_writeToSocket)
  moreover have "role con = (isUsed (self t), True)"
    using c(1) by (auto simp: MasterConnection_activate_def with_stateLock_def wait_stateLock_def post_stateLock_def role_def split: if_splits)
  ultimately have "isUsed con3 = isUsed (self t)" "isActive con3" by (simp_all add: role_def)
  then show "same_slots t t'" "active_ids t' = insert (self_id t) (active_ids t)"
    using c(5) by (auto simp: same_slots_def active_ids_def)
qed

lemma receive_STARTDT_role: "receive_STARTDT os con = Some (now, con') \<Longrightarrow> role con' = role con"
  using role_receiveMessage [of os con]
  by (auto simp: receive_STARTDT_def Let_def Hal_getTimeInMs_def role_def split: prod.splits if_splits)

text \<open>Every step keeps the slots, and only the last step of an activation activates anything.\<close>

lemma thread_step_quiet:
  assumes "thread_step S (free, place, t) (free', place', t')" and d: "distinct (map fst (others t))"
  shows "same_slots t t'" "active_ids t' \<subseteq> (case place of Activating now \<Rightarrow> insert (self_id t) (active_ids t) | _ \<Rightarrow> active_ids t)"
proof -
  have "quiet t t' \<or> (\<exists>now os. place = Activating now \<and> finish_STARTDT os S now t = Returns t')"
    using assms(1) quiet_same(1) [of "self t" t]
    by (cases rule: thread_step.cases) (auto dest: quiet_start quiet_receive receive_STARTDT_role role_timeouts_and_send quiet_end
        step_deactivated(3) [OF _ d] intro: quiet_same(1))
  then show "same_slots t t'" "active_ids t' \<subseteq> (case place of Activating now \<Rightarrow> insert (self_id t) (active_ids t) | _ \<Rightarrow> active_ids t)"
    by (auto simp: quiet_def step_activated split: thread_place.splits)
qed

text \<open>What a thread in the middle of an activation knows of the active connections.\<close>

fun place_ok :: "nat \<Rightarrow> thread_place \<Rightarrow> nat set \<Rightarrow> bool" where
  "place_ok i (Deactivating now js) A \<longleftrightarrow> A \<subseteq> insert i (set js)"
| "place_ok i (Activating now) A \<longleftrightarrow> A \<subseteq> {i}"
| "place_ok i _ A \<longleftrightarrow> True"

lemma place_ok_mono: "place_ok i p A \<Longrightarrow> B \<subseteq> A \<Longrightarrow> place_ok i p B"
  by (cases p) auto

lemma thread_step_place:
  assumes "thread_step S (free, place, t) (free', place', t')" "place_ok (self_id t) place (active_ids t)"
    and d: "distinct (map fst (others t))"
  shows "place_ok (self_id t) place' (active_ids t')"
  using assms(1)
proof (cases rule: thread_step.cases)
  case (locked now)
  then show ?thesis by (force simp: active_ids_def)
next
  case (deactivated j now js)
  then show ?thesis using step_deactivated(2) [OF deactivated(4) d] assms(2) by auto
qed (use assms(2) in auto)

section \<open>The invariants of the slave\<close>

definition counted :: "'g slave \<Rightarrow> bool" where
  "counted sl \<longleftrightarrow> openConnections sl = used_slots_of sl \<and> length (masterConnections sl) = 5"

lemma used_slots_flags: "used_slots_of sl = int (length (filter (\<lambda>b. b) (map isUsed (masterConnections sl))))"
  by (simp add: used_slots_of_def filter_map o_def)

lemma used_slots_cong: "map isUsed (masterConnections sl') = map isUsed (masterConnections sl) \<Longrightarrow> used_slots_of sl' = used_slots_of sl"
  by (simp add: used_slots_flags)

lemma active_slots_cong: "map isActive (masterConnections sl') = map isActive (masterConnections sl) \<Longrightarrow> active_slots sl' = active_slots sl"
  by (auto simp: active_slots_def list_eq_iff_nth_eq)

text \<open>The server thread: what it does to the flags of the slots.\<close>

lemma with_stateLock_Returns: "with_stateLock f con = Returns (x, con') \<longleftrightarrow>
    stateLock con \<and> (\<exists>c. f (con\<lparr>stateLock := False\<rparr>) = (x, c) \<and> con' = post_stateLock c)"
  by (auto simp: with_stateLock_def wait_stateLock_def split: prod.splits)

lemma find_free_spec:
  "find_free cs = Returns (i, cs') \<Longrightarrow> map isActive cs' = map isActive cs \<and>
     (case i of None \<Rightarrow> map isUsed cs' = map isUsed cs
      | Some i \<Rightarrow> i < length cs \<and> \<not> isUsed (cs ! i) \<and> map isUsed cs' = (map isUsed cs)[i := True])"
proof (induction cs arbitrary: i cs')
  case (Cons con cs)
  let ?f = "\<lambda>con. if \<not> isUsed con then (True, con\<lparr>isUsed := True\<rparr>) else (False, con)"
  obtain b c where b: "with_stateLock ?f con = Returns (b, c)" using Cons.prems by (auto simp: obind_Returns)
  then have c: "b \<longleftrightarrow> \<not> isUsed con" "isActive c = isActive con" "isUsed c"
    by (auto simp: with_stateLock_Returns post_stateLock_def split: if_splits)
  show ?case
  proof (cases b)
    case True
    then show ?thesis using Cons.prems b c by auto
  next
    case False
    then obtain j ds where j: "find_free cs = Returns (j, ds)" "i = map_option Suc j" "cs' = c # ds"
      using Cons.prems b by (auto simp: obind_Returns)
    then show ?thesis using Cons.IH [OF j(1)] c False by (cases j) auto
  qed
qed simp

lemma close_first_used_spec:
  "close_first_used cs = Returns (closed, cs') \<Longrightarrow> map isActive cs' = map isActive cs \<and>
     (if closed then \<exists>i. i < length cs \<and> isUsed (cs ! i) \<and> map isUsed cs' = (map isUsed cs)[i := False]
      else map isUsed cs' = map isUsed cs)"
proof (induction cs arbitrary: closed cs')
  case (Cons con cs)
  obtain used c where c: "with_stateLock (\<lambda>con. (isUsed con, con)) con = Returns (used, c)" using Cons.prems by (auto simp: obind_Returns)
  then have u: "used = isUsed con" "isUsed c = isUsed con" "isActive c = isActive con"
    by (auto simp: with_stateLock_Returns post_stateLock_def)
  show ?case
  proof (cases used)
    case True
    then obtain running d where d: "MasterConnection_isRunning c = Returns (running, d)"
      "if running then closed = False \<and> cs' = d # cs
       else \<exists>e. with_stateLock (\<lambda>con. ((), con\<lparr>isUsed := False\<rparr>)) d = Returns ((), e) \<and> closed = True \<and> cs' = e # cs"
      using Cons.prems c by (auto simp: obind_Returns split: if_splits)
    have "isUsed d = isUsed con" "isActive d = isActive con" using role_isRunning [OF d(1)] u by (simp_all add: role_def)
    then show ?thesis using d(2) True u(1)
      by (cases running) (auto simp: with_stateLock_Returns post_stateLock_def intro!: exI [of _ 0])
  next
    case False
    then obtain ds where ds: "close_first_used cs = Returns (closed, ds)" "cs' = c # ds"
      using Cons.prems c by (auto simp: obind_Returns)
    show ?thesis
    proof (cases closed)
      case True
      then obtain i where "i < length cs" "isUsed (cs ! i)" "map isUsed ds = (map isUsed cs)[i := False]" "map isActive ds = map isActive cs"
        using Cons.IH [OF ds(1)] by auto
      then show ?thesis using ds(2) u True by (auto intro!: exI [of _ "Suc i"])
    qed (use Cons.IH [OF ds(1)] ds(2) u in simp)
  qed
qed simp

definition flags_set :: "bool list \<Rightarrow> int" where
  "flags_set bs = int (length (filter (\<lambda>b. b) bs))"

lemma flags_set_simps [simp]: "flags_set [] = 0" "flags_set (b # bs) = (if b then 1 else 0) + flags_set bs"
  by (simp_all add: flags_set_def)

lemma flags_set_update:
  "i < length bs \<Longrightarrow> flags_set (bs[i := b]) = flags_set bs - (if bs ! i then 1 else 0) + (if b then 1 else 0)"
proof (induction bs arbitrary: i)
  case (Cons a bs)
  show ?case
  proof (cases i)
    case (Suc j)
    then have "flags_set (bs[j := b]) = flags_set bs - (if bs ! j then 1 else 0) + (if b then 1 else 0)" using Cons by simp
    then show ?thesis using Suc by simp
  qed simp
qed simp

lemma used_slots_flags_set: "used_slots_of sl = flags_set (map isUsed (masterConnections sl))"
  by (simp add: used_slots_flags flags_set_def)

lemma with_openConnectionsLock_Returns: "with_openConnectionsLock f sl = Returns (x, sl') \<longleftrightarrow>
    openConnectionsLock sl \<and> (\<exists>s. f (sl\<lparr>openConnectionsLock := False\<rparr>) = Returns (x, s) \<and> sl' = s\<lparr>openConnectionsLock := True\<rparr>)"
  by (auto simp: with_openConnectionsLock_def obind_Returns)

lemma counted_flags: "counted sl \<longleftrightarrow> openConnections sl = flags_set (map isUsed (masterConnections sl)) \<and> length (masterConnections sl) = 5"
  by (simp add: counted_def used_slots_flags_set)

text \<open>The counter stays right, and no slot becomes active.\<close>

definition settled :: "'g slave \<Rightarrow> 'g slave \<Rightarrow> bool" where
  "settled sl sl' \<longleftrightarrow> (counted sl \<longrightarrow> counted sl') \<and> active_slots sl' \<subseteq> active_slots sl"

lemma settled_refl [simp]: "settled sl sl"
  by (simp add: settled_def)

lemma settled_trans: "settled sl s \<Longrightarrow> settled s sl' \<Longrightarrow> settled sl sl'"
  by (auto simp: settled_def)

lemma active_slots_clear:
  assumes "map isActive (masterConnections sl') = (map isActive (masterConnections sl))[i := False]"
  shows "active_slots sl' \<subseteq> active_slots sl"
proof
  fix j assume j: "j \<in> active_slots sl'"
  have "length (masterConnections sl') = length (masterConnections sl)" using assms by (metis length_list_update length_map)
  then have "j < length (masterConnections sl)" "(map isActive (masterConnections sl))[i := False] ! j"
    using j unfolding assms [symmetric] by (auto simp: active_slots_def)
  then show "j \<in> active_slots sl" by (cases "j = i") (auto simp: active_slots_def)
qed

lemma settled_getFree:
  assumes "getFreeConnection sl = Returns (slot, sl')"
  shows "settled sl sl' \<and> (case slot of None \<Rightarrow> True | Some i \<Rightarrow> i < length (masterConnections sl'))"
proof -
  obtain cs where cs: "find_free (masterConnections sl) = Returns (slot, cs)"
    "masterConnections sl' = cs" "openConnections sl' = (if slot = None then openConnections sl else openConnections sl + 1)"
    using assms by (auto simp: getFreeConnection_def with_openConnectionsLock_Returns obind_Returns)
  note f = find_free_spec [OF cs(1)]
  then have l: "length cs = length (masterConnections sl)" by (metis length_map)
  have "active_slots sl' = active_slots sl" using f cs(2) by (intro active_slots_cong) simp
  then show ?thesis using f cs l
    by (cases slot) (auto simp: settled_def counted_flags flags_set_update)
qed

lemma init_flags: "MasterConnection_init os P low high con = Returns con' \<Longrightarrow> \<not> isActive con' \<and> isUsed con' = isUsed con"
  by (auto simp: MasterConnection_init_def Let_def Hal_getTimeInMs_def obind_Returns dest!: role_resetT3Timeout)
    (simp_all add: role_def)

lemma settled_init:
  assumes "MasterConnection_init os P low high (masterConnections sl ! i) = Returns con" "i < length (masterConnections sl)"
    "masterConnections sl' = (masterConnections sl)[i := con\<lparr>isRunning := True\<rparr>]" "openConnections sl' = openConnections sl"
  shows "settled sl sl'"
proof -
  have "map isActive (masterConnections sl') = (map isActive (masterConnections sl))[i := False]"
    "map isUsed (masterConnections sl') = map isUsed (masterConnections sl)"
    using init_flags [OF assms(1)] assms(2,3) by (simp_all add: map_update list_update_same_conv)
  then show ?thesis using assms(3,4) active_slots_clear [of sl' sl i] by (simp add: settled_def counted_flags)
qed

lemma settled_accept:
  assumes h: "accept_connection os peer sl = Returns sl'"
  shows "settled sl sl'"
proof -
  obtain accept s where s: "(if maxOpenConnections sl > 0 then
      obind (CS104_Slave_getOpenConnections sl) (\<lambda>(n, sl). Returns (\<not> n \<ge> maxOpenConnections sl, sl))
    else Returns (True, sl)) = Returns (accept, s)"
    "(if \<not> accept \<or> peer = None then Returns s
      else obind (getFreeConnection s) (\<lambda>(slot, sl). case slot of None \<Rightarrow> Returns sl
         | Some i \<Rightarrow> (case (asduQueue sl, connectionAsduQueue sl) of
               (Some low, Some high) \<Rightarrow>
                 obind (MasterConnection_init os (conParameters (sl_setup sl)) low high (masterConnections sl ! i)) (\<lambda>con.
                   Returns (sl\<lparr>masterConnections := (masterConnections sl)[i := con\<lparr>isRunning := True\<rparr>],
                     connectionAsduQueue := Some (highPrioQueue con)\<rparr>))
             | _ \<Rightarrow> Undefined))) = Returns sl'"
    using h unfolding accept_connection_def by (elim obind_pairE)
  have s_ok: "settled sl s" using s(1)
    by (auto simp: CS104_Slave_getOpenConnections_def with_openConnectionsLock_Returns settled_def counted_flags active_slots_def
        split: if_splits elim!: obind_pairE)
  show ?thesis
  proof (cases "\<not> accept \<or> peer = None")
    case True
    then show ?thesis using s(2) s_ok by simp
  next
    case False
    then obtain slot u where u: "getFreeConnection s = Returns (slot, u)"
      "(case slot of None \<Rightarrow> Returns u
         | Some i \<Rightarrow> (case (asduQueue u, connectionAsduQueue u) of
               (Some low, Some high) \<Rightarrow>
                 obind (MasterConnection_init os (conParameters (sl_setup u)) low high (masterConnections u ! i)) (\<lambda>con.
                   Returns (u\<lparr>masterConnections := (masterConnections u)[i := con\<lparr>isRunning := True\<rparr>],
                     connectionAsduQueue := Some (highPrioQueue con)\<rparr>))
             | _ \<Rightarrow> Undefined)) = Returns sl'"
      using s(2) by (auto simp: obind_Returns)
    note free = settled_getFree [OF u(1)]
    have "settled u sl'"
    proof (cases slot)
      case (Some i)
      then obtain low high con where "MasterConnection_init os (conParameters (sl_setup u)) low high (masterConnections u ! i) = Returns con"
        "masterConnections sl' = (masterConnections u)[i := con\<lparr>isRunning := True\<rparr>]" "openConnections sl' = openConnections u"
        using u(2) by (auto simp: obind_Returns split: option.splits)
      then show ?thesis using free Some by (auto intro: settled_init)
    qed (use u in simp)
    then show ?thesis using s_ok free settled_trans by blast
  qed
qed

lemma settled_close:
  assumes "close_connections sl = Returns sl'"
  shows "settled sl sl'"
proof -
  obtain closed cs where cs: "close_first_used (masterConnections sl) = Returns (closed, cs)"
    "masterConnections sl' = cs" "openConnections sl' = (if closed then openConnections sl - 1 else openConnections sl)"
    using assms by (auto simp: close_connections_def with_openConnectionsLock_Returns obind_Returns)
  note f = close_first_used_spec [OF cs(1)]
  then have l: "length cs = length (masterConnections sl)" by (metis length_map)
  have "active_slots sl' = active_slots sl" using f cs(2) by (intro active_slots_cong) simp
  then show ?thesis using f cs l
    by (auto simp: settled_def counted_flags flags_set_update split: if_splits)
qed

lemma settled_enqueue: "CS104_Slave_enqueueASDU a sl = Returns sl' \<Longrightarrow> settled sl sl'"
  by (auto simp: CS104_Slave_enqueueASDU_def obind_Returns settled_def counted_flags active_slots_def split: option.splits)

text \<open>The step of a thread, seen from the slave.\<close>

lemma view_distinct: "distinct (map fst (others (thread_view i sl low high)))"
  by (simp add: thread_view_def o_def)

lemma slave_thread_step:
  assumes i: "i < length (masterConnections sl)"
    and step: "thread_step (sl_setup sl) (openConnectionsLock sl, place, thread_view i sl low high) (free, place', t)"
    and sl': "sl' = (put_view i t sl)\<lparr>openConnectionsLock := free\<rparr>"
  shows "counted sl \<longrightarrow> counted sl'"
    "active_slots sl' \<subseteq> (case place of Activating now \<Rightarrow> insert i (active_slots sl) | _ \<Rightarrow> active_slots sl)"
    "place_ok i place (active_slots sl) \<Longrightarrow> place_ok i place' (active_slots sl')"
proof -
  note q = thread_step_quiet [OF step view_distinct]
  note p = put_view_spec [OF i q(1)]
  have id: "self_id (thread_view i sl low high) = i" by (simp add: thread_view_def)
  have a: "active_slots sl' = active_ids t" using p(1) sl' by (simp add: active_slots_def)
  show "counted sl \<longrightarrow> counted sl'" using p(2) sl' by (auto simp: counted_flags put_view_def)
  show "active_slots sl' \<subseteq> (case place of Activating now \<Rightarrow> insert i (active_slots sl) | _ \<Rightarrow> active_slots sl)"
    using q(2) a id view_active [OF i, of low high] by (simp split: thread_place.splits)
  show "place_ok i place' (active_slots sl')" if "place_ok i place (active_slots sl)"
    using thread_step_place [OF step _ view_distinct] that id a view_active [OF i, of low high] q(1) by (simp add: same_slots_def)
qed

lemma counted_step: "slave_step (sl, places) (sl', places') \<Longrightarrow> counted sl \<Longrightarrow> counted sl'"
  by (cases rule: slave_step.cases)
    (auto dest: settled_accept settled_close settled_enqueue slave_thread_step(1) simp: settled_def)

lemma counted_reachable: "slave_step\<^sup>*\<^sup>* s s' \<Longrightarrow> counted (fst s) \<Longrightarrow> counted (fst s')"
  by (induction rule: rtranclp_induct) (auto dest: counted_step)

end
