(* ===== verification/Slave_Activity.thy ===== *)
theory Slave_Activity
  imports Slave_Flags
begin

text \<open>
  The invariants of the slave: the counter of open connections is the number of slots in use, in every
  interleaving, and at most one connection is active as long as no two activations overlap. When two
  overlap, both connections can end up active. The slots of closed connections are not freed behind a running one.
\<close>

section \<open>Reachable states\<close>

text \<open>A slave that has been created and started, with any handlers, sizes, port and address.\<close>

definition fresh_slave :: "'g slave \<Rightarrow> bool" where
  "fresh_slave sl \<longleftrightarrow> openConnections sl = 0 \<and>
     masterConnections sl = replicate (nat CONFIG_CS104_MAX_CLIENT_CONNECTIONS)
       (MasterConnection_create defaultConnectionParameters (MessageQueue_create 0) (HighPriorityASDUQueue_create 0))"

lemma fresh_slave_create: "fresh_slave (CS104_Slave_create low high g)"
  by (simp add: fresh_slave_def CS104_Slave_create_def createSlave_def)

lemma fresh_slave_start: "fresh_slave sl \<Longrightarrow> fresh_slave (CS104_Slave_start bound sl)"
  by (simp add: fresh_slave_def CS104_Slave_start_def initializeMessageQueues_def Let_def)

lemma fresh_slave_counted: "fresh_slave sl \<Longrightarrow> counted sl \<and> active_slots sl = {}"
  by (auto simp: fresh_slave_def counted_def active_slots_def used_slots_of_def MasterConnection_create_def
      CONFIG_CS104_MAX_CLIENT_CONNECTIONS_def)


text \<open>No thread is between two messages at first.\<close>

definition all_between :: "nat \<Rightarrow> thread_place" where
  "all_between = (\<lambda>i. Between_Messages)"


section \<open>One activation after the other\<close>

definition in_activation :: "thread_place \<Rightarrow> bool" where
  "in_activation p \<longleftrightarrow> (case p of Deactivating now js \<Rightarrow> True | Activating now \<Rightarrow> True | _ \<Rightarrow> False)"

text \<open>At most one thread is between taking \<open>openConnectionsLock\<close> and activating its connection.\<close>

definition no_overlap :: "(nat \<Rightarrow> thread_place) \<Rightarrow> bool" where
  "no_overlap places \<longleftrightarrow> (\<forall>i j. in_activation (places i) \<longrightarrow> in_activation (places j) \<longrightarrow> i = j)"

definition serial_step :: "'g slave \<times> (nat \<Rightarrow> thread_place) \<Rightarrow> 'g slave \<times> (nat \<Rightarrow> thread_place) \<Rightarrow> bool" where
  "serial_step s s' \<longleftrightarrow> slave_step s s' \<and> no_overlap (snd s')"

definition one_active :: "'g slave \<times> (nat \<Rightarrow> thread_place) \<Rightarrow> bool" where
  "one_active s \<longleftrightarrow> (\<forall>i \<in> active_slots (fst s). \<forall>j \<in> active_slots (fst s). i = j) \<and>
     (\<forall>i. place_ok i (snd s i) (active_slots (fst s)))"

lemma place_ok_idle: "\<not> in_activation p \<Longrightarrow> place_ok i p A"
  by (cases p) (simp_all add: in_activation_def)

lemma one_active_mono: "one_active (sl, places) \<Longrightarrow> active_slots sl' \<subseteq> active_slots sl \<Longrightarrow> one_active (sl', places)"
  unfolding one_active_def fst_conv snd_conv by (meson place_ok_mono subsetD)

lemma one_active_settled: "one_active (sl, places) \<Longrightarrow> settled sl sl' \<Longrightarrow> one_active (sl', places)"
  using one_active_mono by (auto simp: settled_def)

lemma one_active_step:
  assumes step: "slave_step (sl, places) (sl', places')" and ok: "one_active (sl, places)" "no_overlap places"
  shows "one_active (sl', places')"
  using step
proof (cases rule: slave_step.cases)
  case (thread i low high free place t)
  note s = slave_thread_step [OF thread(3,6,1)]
  have own: "place_ok i place (active_slots sl')" using s(3) ok(1) by (simp add: one_active_def)
  show ?thesis
  proof (cases "\<exists>now. places i = Activating now")
    case True
    then obtain now where now: "places i = Activating now" by blast
    then have sub: "active_slots sl' \<subseteq> {i}"
      using s(2) ok(1) unfolding one_active_def by (fastforce dest: spec [of _ i])
    have "place_ok k (places' k) (active_slots sl')" for k
    proof (cases "k = i")
      case False
      then have "\<not> in_activation (places k)" using ok(2) now by (auto simp: no_overlap_def in_activation_def)
      then show ?thesis using False thread(2) place_ok_idle by simp
    qed (use own thread(2) in simp)
    then show ?thesis using sub by (auto simp: one_active_def)
  next
    case False
    then have "active_slots sl' \<subseteq> active_slots sl" using s(2) by (cases "places i") auto
    then have "one_active (sl', places)" using one_active_mono [OF ok(1)] by blast
    then show ?thesis using own thread(2) by (auto simp: one_active_def)
  qed
qed (use ok(1) in \<open>auto intro: one_active_settled settled_accept settled_close settled_enqueue\<close>)

lemma one_active_reachable:
  "serial_step\<^sup>*\<^sup>* s s' \<Longrightarrow> one_active s \<and> no_overlap (snd s) \<Longrightarrow> one_active s' \<and> no_overlap (snd s')"
proof (induction rule: rtranclp_induct)
  case (step s' s'')
  then show ?case using one_active_step [of "fst s'" "snd s'" "fst s''" "snd s''"] by (simp add: serial_step_def)
qed

text \<open>
  C26: at most one connection of a slave is active at a time, whatever the clients send, the operating system
  does and the application enqueues, and in whatever order the server thread and the connection threads
  take their steps, as long as no two activations overlap: while one thread deactivates the other
  connections and then activates its own, no other thread does so.
\<close>

theorem at_most_one_active:
  assumes "fresh_slave sl" "serial_step\<^sup>*\<^sup>* (sl, all_between) (sl', places')"
  shows "\<exists>i. active_slots sl' \<subseteq> {i}"
proof -
  have "one_active (sl, all_between)" "no_overlap all_between"
    using fresh_slave_counted [OF assms(1)] by (simp_all add: one_active_def all_between_def no_overlap_def in_activation_def)
  then have "\<forall>i \<in> active_slots sl'. \<forall>j \<in> active_slots sl'. i = j"
    using one_active_reachable [OF assms(2)] by (simp add: one_active_def)
  then show ?thesis by (cases "active_slots sl' = {}") blast+
qed

section \<open>Overlapping activations\<close>

text \<open>The slave between its steps: it has its queues, and all locks of the slots are free.\<close>

definition awake :: "'g slave \<Rightarrow> bool" where
  "awake sl \<longleftrightarrow> asduQueue sl \<noteq> None \<and> connectionAsduQueue sl \<noteq> None \<and> (\<forall>con \<in> set (masterConnections sl). stateLock con)"

text \<open>The next message on the socket of the running connection \<open>i\<close> is STARTDT.\<close>

definition STARTDT_waits :: "platform \<Rightarrow> nat \<Rightarrow> 'g slave \<Rightarrow> bool" where
  "STARTDT_waits os i sl \<longleftrightarrow> i < length (masterConnections sl) \<and> isRunning (masterConnections sl ! i) \<and>
     (\<exists>low high. asduQueue sl = Some low \<and> connectionAsduQueue sl = Some high \<and>
        receive_STARTDT os (self (thread_view i sl low high)) \<noteq> None)"

text \<open>A step of the thread of slot \<open>i\<close>.\<close>

definition step_of :: "nat \<Rightarrow> 'g slave \<times> (nat \<Rightarrow> thread_place) \<Rightarrow> 'g slave \<times> (nat \<Rightarrow> thread_place) \<Rightarrow> bool" where
  "step_of i s s' \<longleftrightarrow> slave_step s s' \<and> (\<forall>k. k \<noteq> i \<longrightarrow> snd s' k = snd s k)"

lemma put_own:
  assumes "others t = others (thread_view i sl low high)" "i < length (masterConnections sl)"
  shows "masterConnections (put_view i t sl) = (masterConnections sl)[i := self t]"
proof (rule nth_equalityI)
  fix j assume "j < length (masterConnections (put_view i t sl))"
  then have j: "j < length (masterConnections sl)" by (simp add: put_view_def)
  have "map_of (others t) j = Some (masterConnections sl ! j)" if "j \<noteq> i"
    unfolding assms(1) view_others using j that by (intro map_of_is_SomeI) (auto simp: o_def)
  then show "masterConnections (put_view i t sl) ! j = (masterConnections sl)[i := self t] ! j"
    using j assms(2) by (auto simp: put_view_def nth_list_update)
qed (simp add: put_view_def)

lemma receive_STARTDT_fields:
  assumes "receive_STARTDT os con = Some (now, con')"
  shows "lowPrioQueue con' = lowPrioQueue con" "highPrioQueue con' = highPrioQueue con" "stateLock con' = stateLock con"
proof -
  obtain n c where c: "receiveMessage os con = (n, c)" by fastforce
  have "protocol_part c = protocol_part con" using receive_protocol [of os con] c by simp
  note f = protocol_fields [OF this]
  have "con' = c\<lparr>clock_reads := clock_reads c + 1\<rparr>"
    using assms c by (simp add: receive_STARTDT_def Let_def Hal_getTimeInMs_def split: if_splits)
  then show "lowPrioQueue con' = lowPrioQueue con" "highPrioQueue con' = highPrioQueue con" "stateLock con' = stateLock con"
    by (simp_all add: f)
qed

lemma race_receive:
  assumes w: "STARTDT_waits os i sl" and a: "awake sl" and p: "places i = Between_Messages"
  shows "\<exists>sl' now. step_of i (sl, places) (sl', places(i := Waiting_For_Lock now)) \<and> awake sl' \<and>
    openConnectionsLock sl' = openConnectionsLock sl \<and> length (masterConnections sl') = length (masterConnections sl) \<and>
    (\<forall>os' j. j \<noteq> i \<longrightarrow> STARTDT_waits os' j sl \<longrightarrow> STARTDT_waits os' j sl')"
proof -
  obtain low high now con where i: "i < length (masterConnections sl)" "isRunning (masterConnections sl ! i)"
    and q: "asduQueue sl = Some low" "connectionAsduQueue sl = Some high"
    and r: "receive_STARTDT os (self (thread_view i sl low high)) = Some (now, con)"
    using w by (auto simp: STARTDT_waits_def)
  let ?t = "(thread_view i sl low high)\<lparr>self := con\<rparr>"
  let ?sl = "(put_view i ?t sl)\<lparr>openConnectionsLock := openConnectionsLock sl\<rparr>"
  have "slave_step (sl, places) (?sl, places(i := Waiting_For_Lock now))"
    using i(2) p thread_step.startdt [OF _ r] by (intro slave_step.thread [OF i(1) q]) (simp add: thread_view_def)
  moreover have c: "lowPrioQueue con = low" "highPrioQueue con = high" "stateLock con = stateLock (masterConnections sl ! i)"
    using receive_STARTDT_fields [OF r] by (simp_all add: thread_view_def)
  moreover have m: "masterConnections ?sl = (masterConnections sl)[i := con]"
    using put_own [of ?t i sl low high] i(1) by simp
  moreover have "awake ?sl" using a m i(1) c q by (auto simp: awake_def put_view_def dest!: set_update_subset_insert [THEN subsetD])
  moreover have "STARTDT_waits os' j ?sl" if "j \<noteq> i" "STARTDT_waits os' j sl" for os' j
    using that q c m by (simp add: STARTDT_waits_def thread_view_def put_view_def)
  ultimately show ?thesis by (intro exI [of _ ?sl] exI [of _ now]) (auto simp: step_of_def put_view_def)
qed

lemma put_other:
  assumes "others t = map (\<lambda>(k, c). if k = j then (k, con) else (k, c)) (others (thread_view i sl low high))"
    and "i < length (masterConnections sl)" "j \<noteq> i"
  shows "masterConnections (put_view i t sl) = (masterConnections sl)[i := self t, j := con]"
proof (rule nth_equalityI)
  fix k assume "k < length (masterConnections (put_view i t sl))"
  then have k: "k < length (masterConnections sl)" by (simp add: put_view_def)
  have "others t = map (\<lambda>k. (k, if k = j then con else masterConnections sl ! k)) (filter (\<lambda>k. k \<noteq> i) [0..<length (masterConnections sl)])"
    unfolding assms(1) view_others by simp
  then have "map_of (others t) k = Some (if k = j then con else masterConnections sl ! k)" if "k \<noteq> i"
    using k that by (intro map_of_is_SomeI) (auto simp: o_def)
  then show "masterConnections (put_view i t sl) ! k = (masterConnections sl)[i := self t, j := con] ! k"
    using k assms(2,3) by (auto simp: put_view_def nth_list_update)
qed (simp add: put_view_def)

lemma race_deactivate_one:
  assumes a: "awake sl" and p: "places i = Deactivating now (j # js)"
    and i: "i < length (masterConnections sl)" and j: "j < length (masterConnections sl)" "j \<noteq> i"
  shows "\<exists>sl'. step_of i (sl, places) (sl', places(i := Deactivating now js)) \<and> awake sl' \<and>
    openConnectionsLock sl' = openConnectionsLock sl \<and> length (masterConnections sl') = length (masterConnections sl)"
proof -
  obtain low high where q: "asduQueue sl = Some low" "connectionAsduQueue sl = Some high" using a by (auto simp: awake_def)
  let ?v = "thread_view i sl low high"
  let ?con = "(masterConnections sl ! j)\<lparr>isActive := False, stateLock := True\<rparr>"
  let ?g = "if isActive (masterConnections sl ! j) then connection_event_call (sl_setup sl) j Deactivated (app ?v) else app ?v"
  let ?t = "?v\<lparr>others := map (\<lambda>(k, c). if k = j then (k, ?con) else (k, c)) (others ?v), app := ?g\<rparr>"
  let ?sl = "(put_view i ?t sl)\<lparr>openConnectionsLock := openConnectionsLock sl\<rparr>"
  have free: "\<forall>con \<in> set (masterConnections sl). stateLock con" using a by (simp add: awake_def)
  have "map_of (others ?v) j = Some (masterConnections sl ! j)"
    unfolding view_others using j by (intro map_of_is_SomeI) (auto simp: o_def)
  moreover have "MasterConnection_deactivate (masterConnections sl ! j) = Returns (isActive (masterConnections sl ! j), ?con)"
    using free j(1) by (simp add: MasterConnection_deactivate_def with_stateLock_def wait_stateLock_def post_stateLock_def)
  ultimately have d: "deactivate_other (sl_setup sl) j ?v = Returns ?t" by (simp add: deactivate_other_def)
  have "slave_step (sl, places) (?sl, places(i := Deactivating now js))"
    using p thread_step.deactivated [OF d] by (intro slave_step.thread [OF i q]) simp
  moreover have m: "masterConnections ?sl = (masterConnections sl)[i := self ?v, j := ?con]"
    using put_other [of ?t j ?con i sl low high] i j by simp
  moreover have "stateLock (self ?v)" using free i by (simp add: thread_view_def)
  moreover have "awake ?sl"
    using free m \<open>stateLock (self ?v)\<close> by (auto simp: awake_def put_view_def dest!: set_update_subset_insert [THEN subsetD])
  ultimately show ?thesis by (intro exI [of _ ?sl]) (auto simp: step_of_def put_view_def)
qed

lemma step_of_trans:
  "step_of i s s' \<Longrightarrow> (step_of i)\<^sup>*\<^sup>* s' s'' \<Longrightarrow> (step_of i)\<^sup>*\<^sup>* s s''"
  by (rule converse_rtranclp_into_rtranclp)

lemma race_deactivate:
  assumes "awake sl" "places i = Deactivating now js" "i < length (masterConnections sl)"
    and "set js \<subseteq> {j. j < length (masterConnections sl) \<and> j \<noteq> i}"
  shows "\<exists>sl'. (step_of i)\<^sup>*\<^sup>* (sl, places) (sl', places(i := Deactivating now [])) \<and> awake sl' \<and>
    openConnectionsLock sl' = openConnectionsLock sl \<and> length (masterConnections sl') = length (masterConnections sl)"
  using assms
proof (induction js arbitrary: sl places)
  case Nil
  then have "places(i := Deactivating now []) = places" by auto
  then show ?case using Nil by (intro exI [of _ sl]) simp
next
  case (Cons j js)
  obtain s where s: "step_of i (sl, places) (s, places(i := Deactivating now js))" "awake s"
    "openConnectionsLock s = openConnectionsLock sl" "length (masterConnections s) = length (masterConnections sl)"
    using race_deactivate_one [of sl places i now j js] Cons.prems by auto
  have at: "(places(i := Deactivating now js)) i = Deactivating now js" "i < length (masterConnections s)"
    "set js \<subseteq> {j. j < length (masterConnections s) \<and> j \<noteq> i}"
    using Cons.prems(3,4) s(4) by auto
  obtain sl' where "(step_of i)\<^sup>*\<^sup>* (s, places(i := Deactivating now js)) (sl', places(i := Deactivating now []))" "awake sl'"
    "openConnectionsLock sl' = openConnectionsLock s" "length (masterConnections sl') = length (masterConnections s)"
    using Cons.IH [of s "places(i := Deactivating now js)", OF s(2) at] unfolding fun_upd_upd by blast
  then show ?case using step_of_trans [OF s(1)] s(3,4) by metis
qed

lemma race_lock:
  assumes a: "awake sl" and p: "places i = Waiting_For_Lock now" and i: "i < length (masterConnections sl)" and l: "openConnectionsLock sl"
  shows "\<exists>sl'. (step_of i)\<^sup>*\<^sup>* (sl, places) (sl', places(i := Activating now)) \<and> awake sl' \<and>
    openConnectionsLock sl' \<and> length (masterConnections sl') = length (masterConnections sl)"
proof -
  have own: "\<exists>sl'. step_of i (s, pl) (sl', pl(i := place)) \<and> awake sl' \<and> openConnectionsLock sl' = free \<and>
      length (masterConnections sl') = length (masterConnections s)"
    if h: "awake s" "i < length (masterConnections s)"
      "\<And>low high. thread_step (sl_setup s) (openConnectionsLock s, pl i, thread_view i s low high) (free, place, thread_view i s low high)"
    for s :: "'a slave" and pl free place
  proof -
    obtain low high where q: "asduQueue s = Some low" "connectionAsduQueue s = Some high" using h(1) by (auto simp: awake_def)
    let ?v = "thread_view i s low high"
    let ?sl = "(put_view i ?v s)\<lparr>openConnectionsLock := free\<rparr>"
    have m: "masterConnections ?sl = (masterConnections s)[i := self ?v]" using put_own [of ?v i s low high] h(2) by simp
    moreover have "stateLock (self ?v)" using h(1,2) by (simp add: thread_view_def awake_def)
    ultimately have "awake ?sl"
      using h(1) by (auto simp: awake_def put_view_def dest!: set_update_subset_insert [THEN subsetD])
    moreover have "step_of i (s, pl) (?sl, pl(i := place))"
      using slave_step.thread [where places = pl, OF h(2) q h(3) [of low high]] by (simp add: step_of_def)
    ultimately show ?thesis using m by (intro exI [of _ ?sl]) simp
  qed
  let ?js = "filter (\<lambda>j. j \<noteq> i) [0..<length (masterConnections sl)]"
  have js: "map fst (others (thread_view i sl low high)) = ?js" for low high by (simp add: thread_view_def o_def)
  let ?p1 = "places(i := Deactivating now ?js)" and ?p2 = "places(i := Deactivating now [])"
  have "thread_step (sl_setup sl) (openConnectionsLock sl, places i, thread_view i sl low high) (False, Deactivating now ?js, thread_view i sl low high)"
    for low high using thread_step.locked [of "sl_setup sl" now "thread_view i sl low high"] p l js by simp
  then obtain s where s: "step_of i (sl, places) (s, ?p1)" "awake s" "length (masterConnections s) = length (masterConnections sl)"
    using own [OF a i] by blast
  have at: "?p1 i = Deactivating now ?js" "i < length (masterConnections s)"
    "set ?js \<subseteq> {j. j < length (masterConnections s) \<and> j \<noteq> i}" using i s(3) by auto
  obtain u where u: "(step_of i)\<^sup>*\<^sup>* (s, ?p1) (u, ?p2)" "awake u" "length (masterConnections u) = length (masterConnections s)"
    using race_deactivate [of s ?p1, OF s(2) at] unfolding fun_upd_upd by blast
  have "thread_step (sl_setup u) (openConnectionsLock u, ?p2 i, thread_view i u low high) (True, Activating now, thread_view i u low high)"
    for low high using thread_step.released by simp
  then obtain sl' where sl': "step_of i (u, ?p2) (sl', ?p2(i := Activating now))" "awake sl'" "openConnectionsLock sl'"
    "length (masterConnections sl') = length (masterConnections u)"
    using own [OF u(2)] i s(3) u(3) by metis
  have "(step_of i)\<^sup>*\<^sup>* (sl, places) (sl', places(i := Activating now))"
    using step_of_trans [OF s(1)] rtranclp.rtrancl_into_rtrancl [OF u(1) sl'(1)] by simp
  then show ?thesis using sl' u(3) s(3) by auto
qed

lemma finish_returns:
  assumes "stateLock (self t)"
  shows "\<exists>t'. finish_STARTDT os S now t = Returns t' \<and> others t' = others t \<and> stateLock (self t')"
proof -
  obtain b con where con: "MasterConnection_activate (self t) = Returns (b, con)" "stateLock con"
    using assms by (simp add: MasterConnection_activate_def with_stateLock_def wait_stateLock_def post_stateLock_def)
  obtain n con1 where con1: "writeToSocket os STARTDT_CON_MSG (con\<lparr>highPrioQueue := HighPriorityASDUQueue_resetConnectionQueue (highPrioQueue con)\<rparr>) = (n, con1)"
    "stateLock con1" using con(2) by (simp add: writeToSocket_def)
  have "\<exists>c. (if n < 0 then MasterConnection_close con1 else resetT3Timeout (conParameters S) now con1) = Returns c \<and> stateLock c"
    using con1(2) by (simp add: MasterConnection_close_def resetT3Timeout_def with_stateLock_def wait_stateLock_def post_stateLock_def)
  then obtain con2 where con2: "(if n < 0 then MasterConnection_close con1 else resetT3Timeout (conParameters S) now con1) = Returns con2"
    "stateLock con2" by blast
  have "\<exists>c. acknowledge_after_w os (conParameters S) con2 = Returns c \<and> stateLock c"
    using con2(2) by (simp add: acknowledge_after_w_def Hal_getTimeInMs_def sendSMessage_def with_stateLock_def wait_stateLock_def post_stateLock_def
        split: prod.split)
  then show ?thesis using con(1) con1(1) con2(1) by (auto simp: finish_STARTDT_def Let_def)
qed

lemma race_activate:
  assumes a: "awake sl" and p: "places i = Activating now" and i: "i < length (masterConnections sl)"
  shows "\<exists>sl'. step_of i (sl, places) (sl', places(i := Between_Messages)) \<and> awake sl' \<and>
    openConnectionsLock sl' = openConnectionsLock sl \<and> length (masterConnections sl') = length (masterConnections sl) \<and>
    active_slots sl' = insert i (active_slots sl)"
proof -
  obtain low high where q: "asduQueue sl = Some low" "connectionAsduQueue sl = Some high" using a by (auto simp: awake_def)
  let ?v = "thread_view i sl low high"
  have "stateLock (self ?v)" using a i by (simp add: awake_def thread_view_def)
  then obtain os :: platform and t where t: "finish_STARTDT os (sl_setup sl) now ?v = Returns t" "others t = others ?v" "stateLock (self t)"
    using finish_returns by metis
  let ?sl = "(put_view i t sl)\<lparr>openConnectionsLock := openConnectionsLock sl\<rparr>"
  have m: "masterConnections ?sl = (masterConnections sl)[i := self t]" using put_own [OF t(2) i] by simp
  have "awake ?sl" using a t(3) m by (auto simp: awake_def put_view_def dest!: set_update_subset_insert [THEN subsetD])
  moreover have "step_of i (sl, places) (?sl, places(i := Between_Messages))"
    using slave_step.thread [where places = places, OF i q] thread_step.activated [OF t(1)] p by (simp add: step_of_def)
  moreover have "active_slots ?sl = insert i (active_slots sl)"
    using put_view_spec(1) [OF i step_activated(1) [OF t(1)]] step_activated(2) [OF t(1)] view_active [OF i, of low high]
    by (simp add: active_slots_def) (simp add: thread_view_def)
  ultimately show ?thesis using m by (intro exI [of _ ?sl]) simp
qed

lemma steps_of_slave: "(step_of i)\<^sup>*\<^sup>* s s' \<Longrightarrow> slave_step\<^sup>*\<^sup>* s s'"
  by (erule rtranclp_mono [THEN predicate2D, rotated]) (auto simp: step_of_def)

text \<open>
  C36: two connections can be active at the same time. Whenever the next message of two running connections is STARTDT, no
  matter what was active before, the two threads can take their steps in such an order that
  both connections are active and both threads are ready for the next message: each deactivates the other
  connections under the lock before either activates its own.
\<close>

theorem activation_race:
  assumes "awake sl" "openConnectionsLock sl" "i \<noteq> j" "STARTDT_waits os i sl" "STARTDT_waits os' j sl"
  shows "\<exists>sl'. slave_step\<^sup>*\<^sup>* (sl, all_between) (sl', all_between) \<and> {i, j} \<subseteq> active_slots sl'"
proof -
  have ij: "i < length (masterConnections sl)" "j < length (masterConnections sl)" using assms(4,5) by (simp_all add: STARTDT_waits_def)
  obtain s1 n1 where 1: "step_of i (sl, all_between) (s1, all_between(i := Waiting_For_Lock n1))" "awake s1" "openConnectionsLock s1"
    "length (masterConnections s1) = length (masterConnections sl)" "STARTDT_waits os' j s1"
    using race_receive [OF assms(4,1), of all_between] assms(2,3,5) unfolding all_between_def by metis
  let ?p1 = "all_between(i := Waiting_For_Lock n1)"
  have "?p1 j = Between_Messages" using assms(3) by (simp add: all_between_def)
  then obtain s2 n2 where 2: "step_of j (s1, ?p1) (s2, ?p1(j := Waiting_For_Lock n2))" "awake s2" "openConnectionsLock s2"
    "length (masterConnections s2) = length (masterConnections sl)"
    using race_receive [OF 1(5,2)] 1(3,4) by metis
  let ?p2 = "?p1(j := Waiting_For_Lock n2)"
  have "?p2 i = Waiting_For_Lock n1" using assms(3) by simp
  then obtain s3 where 3: "(step_of i)\<^sup>*\<^sup>* (s2, ?p2) (s3, ?p2(i := Activating n1))" "awake s3" "openConnectionsLock s3"
    "length (masterConnections s3) = length (masterConnections sl)"
    using race_lock [OF 2(2)] 2(3,4) ij by metis
  let ?p3 = "?p2(i := Activating n1)"
  have "?p3 j = Waiting_For_Lock n2" using assms(3) by simp
  then obtain s4 where 4: "(step_of j)\<^sup>*\<^sup>* (s3, ?p3) (s4, ?p3(j := Activating n2))" "awake s4"
    "length (masterConnections s4) = length (masterConnections sl)"
    using race_lock [OF 3(2)] 3(3,4) ij by metis
  let ?p4 = "?p3(j := Activating n2)"
  have "?p4 i = Activating n1" using assms(3) by simp
  then obtain s5 where 5: "step_of i (s4, ?p4) (s5, ?p4(i := Between_Messages))" "awake s5" "i \<in> active_slots s5"
    "length (masterConnections s5) = length (masterConnections sl)"
    using race_activate [OF 4(2)] 4(3) ij by (metis insertI1)
  let ?p5 = "?p4(i := Between_Messages)"
  have "?p5 j = Activating n2" using assms(3) by simp
  then obtain s6 where 6: "step_of j (s5, ?p5) (s6, ?p5(j := Between_Messages))" "{i, j} \<subseteq> active_slots s6"
    using race_activate [OF 5(2)] 5(3,4) ij by (metis insertCI insert_subset empty_subsetI)
  have "slave_step\<^sup>*\<^sup>* (sl, all_between) (s2, ?p2)"
    using 1(1) 2(1) unfolding step_of_def by (meson r_into_rtranclp rtranclp.rtrancl_into_rtrancl)
  moreover have "slave_step\<^sup>*\<^sup>* (s2, ?p2) (s4, ?p4)"
    using rtranclp_trans [OF steps_of_slave [OF 3(1)] steps_of_slave [OF 4(1)]] .
  moreover have "slave_step\<^sup>*\<^sup>* (s4, ?p4) (s6, ?p5(j := Between_Messages))"
    using 5(1) 6(1) unfolding step_of_def by (meson r_into_rtranclp rtranclp.rtrancl_into_rtrancl)
  moreover have "?p5(j := Between_Messages) = all_between" by (simp add: all_between_def fun_eq_iff)
  ultimately have "slave_step\<^sup>*\<^sup>* (sl, all_between) (s6, all_between)" by (metis rtranclp_trans)
  then show ?thesis using 6(2) by blast
qed

section \<open>Examples\<close>

definition demo_slave :: "unit slave" where
  "demo_slave = CS104_Slave_start True (CS104_Slave_create 10 10 ())"

lemma demo_slave_fresh: "fresh_slave demo_slave"
  by (simp add: demo_slave_def fresh_slave_start fresh_slave_create)

text \<open>Clients that send STARTDT at once.\<close>

definition startdt_os :: platform where
  "startdt_os = demo_os\<lparr>recv := \<lambda>n size. Received (if n = 0 then [0x68] else if n = 1 then [0x04] else [0x07, 0, 0, 0])\<rparr>"

lemma startdt_received:
  assumes "recvBufPos con = 0" "socket_reads con = 0" "length (recvBuffer con) = 260"
  shows "\<exists>now con'. receive_STARTDT startdt_os con = Some (now, con')"
proof -
  obtain a bs where a: "recvBuffer con = a # bs" "length bs = 259" using assms(3) by (cases "recvBuffer con") auto
  obtain b cs where b: "bs = b # cs" using a(2) by (cases bs) auto
  show ?thesis using assms(1,2) a(1) b
    by (simp add: receive_STARTDT_def receiveMessage_def receive_start_def receive_length_def receive_rest_def readFromSocket_def
        startdt_os_def Socket_read_def is_STARTDT_ACT_def Let_def)
qed

text \<open>Two connections are accepted, and both clients send STARTDT.\<close>

definition two_clients :: "unit slave outcome" where
  "two_clients = obind (accept_connection demo_os (Some ''10.0.0.7'') demo_slave) (accept_connection demo_os (Some ''10.0.0.8''))"

lemmas slave_evaluation = accept_connection_def demo_slave_def CS104_Slave_start_def CS104_Slave_create_def createSlave_def
  initializeMessageQueues_def Let_def CS104_Slave_getOpenConnections_def with_openConnectionsLock_def getFreeConnection_def
  CONFIG_CS104_MAX_CLIENT_CONNECTIONS_def MasterConnection_create_def with_stateLock_def wait_stateLock_def
  post_stateLock_def MasterConnection_init_def Hal_getTimeInMs_def resetT3Timeout_def reset_T3_def

lemma five_slots: "replicate 5 con = [con, con, con, con, con]"
  by (simp add: eval_nat_numeral)

lemma two_clients_spec: "\<exists>sl1 sl. accept_connection demo_os (Some ''10.0.0.7'') demo_slave = Returns sl1 \<and>
    accept_connection demo_os (Some ''10.0.0.8'') sl1 = Returns sl \<and>
    awake sl \<and> openConnectionsLock sl \<and> STARTDT_waits startdt_os 0 sl \<and> STARTDT_waits startdt_os 1 sl \<and> openConnections sl = 2"
  by (simp add: slave_evaluation five_slots awake_def STARTDT_waits_def thread_view_def startdt_received)

lemma two_clients_reached:
  "\<exists>sl. serial_step\<^sup>*\<^sup>* (demo_slave, all_between) (sl, all_between) \<and> slave_step\<^sup>*\<^sup>* (demo_slave, all_between) (sl, all_between) \<and>
     awake sl \<and> openConnectionsLock sl \<and> STARTDT_waits startdt_os 0 sl \<and> STARTDT_waits startdt_os 1 sl \<and> openConnections sl = 2"
proof -
  obtain sl1 sl where sl: "accept_connection demo_os (Some ''10.0.0.7'') demo_slave = Returns sl1"
    "accept_connection demo_os (Some ''10.0.0.8'') sl1 = Returns sl" "awake sl" "openConnectionsLock sl"
    "STARTDT_waits startdt_os 0 sl" "STARTDT_waits startdt_os 1 sl" "openConnections sl = 2"
    using two_clients_spec by blast
  have steps: "slave_step (demo_slave, all_between) (sl1, all_between)" "slave_step (sl1, all_between) (sl, all_between)"
    using slave_step.accepted [OF sl(1)] slave_step.accepted [OF sl(2)] by blast+
  have "no_overlap all_between" by (simp add: no_overlap_def all_between_def in_activation_def)
  then have "serial_step (demo_slave, all_between) (sl1, all_between)" "serial_step (sl1, all_between) (sl, all_between)"
    using steps by (simp_all add: serial_step_def)
  then show ?thesis using steps sl(3-7) by (meson r_into_rtranclp rtranclp.rtrancl_into_rtrancl)
qed


theorem activation_race_witness:
  "\<exists>sl. slave_step\<^sup>*\<^sup>* (demo_slave, all_between) (sl, all_between) \<and> {0, 1} \<subseteq> active_slots sl"
proof -
  obtain sl where sl: "slave_step\<^sup>*\<^sup>* (demo_slave, all_between) (sl, all_between)" "awake sl" "openConnectionsLock sl"
    "STARTDT_waits startdt_os 0 sl" "STARTDT_waits startdt_os 1 sl"
    using two_clients_reached by blast
  then show ?thesis using activation_race [OF sl(2,3) _ sl(4,5)] by (meson rtranclp_trans zero_neq_one)
qed

text \<open>One activation behind the other: the second connection takes over.\<close>

lemma serial_steps:
  assumes "(step_of i)\<^sup>*\<^sup>* s s'" "\<forall>k. k \<noteq> i \<longrightarrow> \<not> in_activation (snd s k)"
  shows "serial_step\<^sup>*\<^sup>* s s' \<and> (\<forall>k. k \<noteq> i \<longrightarrow> snd s' k = snd s k)"
  using assms(1)
proof (induction rule: rtranclp_induct)
  case (step s' s'')
  then have same: "\<forall>k. k \<noteq> i \<longrightarrow> snd s'' k = snd s k" by (simp add: step_of_def)
  then have "no_overlap (snd s'')" using assms(2) by (metis no_overlap_def)
  then have "serial_step s' s''" using step(2) by (simp add: step_of_def serial_step_def)
  then show ?case using step(3) same by (meson rtranclp.rtrancl_into_rtrancl)
qed simp

lemma serial_activation:
  assumes "awake sl" "openConnectionsLock sl" "places i = Waiting_For_Lock now" "i < length (masterConnections sl)"
    and "\<forall>k. k \<noteq> i \<longrightarrow> \<not> in_activation (places k)"
  shows "\<exists>sl'. serial_step\<^sup>*\<^sup>* (sl, places) (sl', places(i := Between_Messages)) \<and> awake sl' \<and> openConnectionsLock sl' \<and>
    length (masterConnections sl') = length (masterConnections sl) \<and> i \<in> active_slots sl'"
proof -
  obtain s where s: "(step_of i)\<^sup>*\<^sup>* (sl, places) (s, places(i := Activating now))" "awake s" "openConnectionsLock s"
    "length (masterConnections s) = length (masterConnections sl)"
    using race_lock [where places = places, OF assms(1,3,4,2)] by blast
  have at: "(places(i := Activating now)) i = Activating now" "i < length (masterConnections s)" using s(4) assms(4) by simp_all
  obtain sl' where sl': "step_of i (s, places(i := Activating now)) (sl', places(i := Between_Messages))" "awake sl'"
    "openConnectionsLock sl'" "length (masterConnections sl') = length (masterConnections sl)" "i \<in> active_slots sl'"
    using race_activate [where places = "places(i := Activating now)", OF s(2) at] s(3,4) unfolding fun_upd_upd by auto
  have "(step_of i)\<^sup>*\<^sup>* (sl, places) (sl', places(i := Between_Messages))" using rtranclp.rtrancl_into_rtrancl [OF s(1) sl'(1)] .
  then show ?thesis using serial_steps [of i] assms(5) sl'(2-5) by fastforce
qed

theorem at_most_one_active_witness:
  "\<exists>sl. serial_step\<^sup>*\<^sup>* (demo_slave, all_between) (sl, all_between) \<and> active_slots sl = {1}"
proof -
  obtain sl where sl: "serial_step\<^sup>*\<^sup>* (demo_slave, all_between) (sl, all_between)" "awake sl" "openConnectionsLock sl"
    "STARTDT_waits startdt_os 0 sl" "STARTDT_waits startdt_os 1 sl"
    using two_clients_reached by blast
  have len: "0 < length (masterConnections sl)" "1 < length (masterConnections sl)" using sl(4,5) by (simp_all add: STARTDT_waits_def)
  obtain s1 n1 where 1: "step_of 0 (sl, all_between) (s1, all_between(0 := Waiting_For_Lock n1))" "awake s1" "openConnectionsLock s1"
    "length (masterConnections s1) = length (masterConnections sl)" "STARTDT_waits startdt_os 1 s1"
    using race_receive [OF sl(4,2), of all_between] sl(3,5) unfolding all_between_def by (metis zero_neq_one)
  let ?p1 = "all_between(0 := Waiting_For_Lock n1)"
  obtain s2 n2 where 2: "step_of 1 (s1, ?p1) (s2, ?p1(1 := Waiting_For_Lock n2))" "awake s2" "openConnectionsLock s2"
    "length (masterConnections s2) = length (masterConnections sl)"
    using race_receive [OF 1(5,2), of ?p1] 1(3,4) by (auto simp: all_between_def)
  let ?p2 = "?p1(1 := Waiting_For_Lock n2)"
  have at: "?p2 0 = Waiting_For_Lock n1" "0 < length (masterConnections s2)" "\<forall>k. k \<noteq> 0 \<longrightarrow> \<not> in_activation (?p2 k)"
    using len 2(4) by (auto simp: in_activation_def all_between_def)
  obtain s3 where 3: "serial_step\<^sup>*\<^sup>* (s2, ?p2) (s3, ?p2(0 := Between_Messages))" "awake s3" "openConnectionsLock s3"
    "length (masterConnections s3) = length (masterConnections sl)"
    using serial_activation [where places = ?p2, OF 2(2,3) at] 2(4) by metis
  let ?p3 = "?p2(0 := Between_Messages)"
  have at': "?p3 1 = Waiting_For_Lock n2" "1 < length (masterConnections s3)" "\<forall>k. k \<noteq> 1 \<longrightarrow> \<not> in_activation (?p3 k)"
    using len 3(4) by (auto simp: in_activation_def all_between_def)
  obtain s4 where 4: "serial_step\<^sup>*\<^sup>* (s3, ?p3) (s4, ?p3(1 := Between_Messages))" "1 \<in> active_slots s4"
    using serial_activation [where places = ?p3, OF 3(2,3) at'] by metis
  have "serial_step (sl, all_between) (s1, ?p1)" "serial_step (s1, ?p1) (s2, ?p2)"
    using 1(1) 2(1) by (auto simp: serial_step_def step_of_def no_overlap_def in_activation_def all_between_def)
  then have "serial_step\<^sup>*\<^sup>* (demo_slave, all_between) (s4, ?p3(1 := Between_Messages))"
    using sl(1) 3(1) 4(1) by (meson rtranclp.rtrancl_into_rtrancl rtranclp_trans)
  moreover have "?p3(1 := Between_Messages) = all_between" by (simp add: all_between_def fun_eq_iff)
  ultimately have reached: "serial_step\<^sup>*\<^sup>* (demo_slave, all_between) (s4, all_between)" by simp
  obtain i where "active_slots s4 \<subseteq> {i}" using at_most_one_active [OF demo_slave_fresh reached] by blast
  then have "active_slots s4 = {1}" using 4(2) by auto
  then show ?thesis using reached by blast
qed

section \<open>Slots that are not freed, responses that are dropped\<close>

text \<open>
  C28: the search for closed connections stops at the first slot in use. While the oldest connection is running,
  the slots of the closed connections behind it are not freed: with the maximum of open connections
  reached, every pass of the server thread refuses the new client and changes nothing, even when
  all other connections are closed.
\<close>

theorem closed_connection_keeps_slot:
  assumes "masterConnections sl = con # cs" "isUsed con" "isRunning con" "stateLock con" "openConnectionsLock sl"
    and "0 < maxOpenConnections sl" "maxOpenConnections sl \<le> openConnections sl"
  shows "server_pass os newSocket sl = Returns sl"
proof -
  have con: "con\<lparr>stateLock := False, stateLock := True\<rparr> = con" "con\<lparr>stateLock := True\<rparr> = con" using assms(4) by simp_all
  have "CS104_Slave_getOpenConnections sl = Returns (openConnections sl, sl)"
    using assms(5) by (simp add: CS104_Slave_getOpenConnections_def with_openConnectionsLock_def)
  then have "accept_connection os peer sl = Returns sl" for peer
    using assms(6,7) by (simp add: accept_connection_def)
  moreover have "close_first_used (masterConnections sl) = Returns (False, masterConnections sl)"
    using assms(1-4) con by (simp add: with_stateLock_def wait_stateLock_def post_stateLock_def MasterConnection_isRunning_def)
  then have "close_connections sl = Returns sl"
    using assms(5) by (simp add: close_connections_def with_openConnectionsLock_def)
  ultimately show ?thesis by (simp add: server_pass_def split: option.splits)
qed

text \<open>Five slots in use, of which only the first has a running connection.\<close>

definition crowded_slave :: "unit slave" where
  "crowded_slave = demo_slave\<lparr>openConnections := 5, masterConnections :=
     (case masterConnections demo_slave of [] \<Rightarrow> [] | con # cs \<Rightarrow>
        con\<lparr>isUsed := True, isRunning := True\<rparr> # map (\<lambda>con. con\<lparr>isUsed := True, isRunning := False\<rparr>) cs)\<rparr>"

theorem closed_connection_keeps_slot_witness:
  "server_pass demo_os (Some (Some ''10.0.0.7'')) crowded_slave = Returns crowded_slave \<and> used_slots_of crowded_slave = 5 \<and>
   map isRunning (masterConnections crowded_slave) = [True, False, False, False, False]"
proof -
  let ?con = "MasterConnection_create defaultConnectionParameters (MessageQueue_create 0) (HighPriorityASDUQueue_create 0)"
  have slots: "masterConnections crowded_slave = ?con\<lparr>isUsed := True, isRunning := True\<rparr> # replicate 4 (?con\<lparr>isUsed := True, isRunning := False\<rparr>)"
    by (simp add: crowded_slave_def demo_slave_def CS104_Slave_start_def CS104_Slave_create_def createSlave_def
        initializeMessageQueues_def Let_def CONFIG_CS104_MAX_CLIENT_CONNECTIONS_def eval_nat_numeral del: MasterConnection_create_def)
  moreover have "openConnectionsLock crowded_slave" "maxOpenConnections crowded_slave = 5" "openConnections crowded_slave = 5"
    by (simp_all add: crowded_slave_def demo_slave_def CS104_Slave_start_def CS104_Slave_create_def createSlave_def
        initializeMessageQueues_def Let_def CONFIG_CS104_MAX_CLIENT_CONNECTIONS_def)
  ultimately show ?thesis using closed_connection_keeps_slot [OF slots, of demo_os "Some (Some ''10.0.0.7'')"]
    by (simp add: used_slots_of_def MasterConnection_create_def eval_nat_numeral)
qed

lemma find_free_available:
  assumes "\<forall>con \<in> set cs. stateLock con" "\<exists>con \<in> set cs. \<not> isUsed con"
  shows "\<exists>i cs'. find_free cs = Returns (Some i, cs') \<and> i < length cs' \<and> (\<forall>con \<in> set cs'. stateLock con)"
  using assms
proof (induction cs)
  case (Cons con cs)
  show ?case
  proof (cases "isUsed con")
    case True
    then obtain i cs' where "find_free cs = Returns (Some i, cs')" "i < length cs'" "\<forall>con \<in> set cs'. stateLock con"
      using Cons by auto
    then show ?thesis using True Cons.prems(1)
      by (simp add: with_stateLock_def wait_stateLock_def post_stateLock_def)
  qed (use Cons.prems(1) in \<open>simp add: with_stateLock_def wait_stateLock_def post_stateLock_def\<close>)
qed simp

lemma init_resets_responses:
  "stateLock con \<Longrightarrow> \<exists>con'. MasterConnection_init os P low high con = Returns con' \<and>
     highPrioQueue con' = HighPriorityASDUQueue_resetConnectionQueue high"
  by (simp add: MasterConnection_init_def Let_def Hal_getTimeInMs_def resetT3Timeout_def with_stateLock_def wait_stateLock_def post_stateLock_def)

text \<open>
  Accepting a client drops the responses that wait in the queue, those of the connection that is active
  included, since all connections share the one queue of the slave; the events stay.
\<close>

theorem new_connection_drops_responses:
  assumes "asduQueue sl = Some low" "connectionAsduQueue sl = Some high" "openConnectionsLock sl"
    and "openConnections sl < maxOpenConnections sl"
    and "\<forall>con \<in> set (masterConnections sl). stateLock con" "\<exists>con \<in> set (masterConnections sl). \<not> isUsed con"
  shows "\<exists>sl' high'. accept_connection os (Some peer) sl = Returns sl' \<and> openConnections sl' = openConnections sl + 1 \<and>
    asduQueue sl' = Some low \<and> connectionAsduQueue sl' = Some high' \<and> \<not> HighPriorityASDUQueue_isAsduAvailable high'"
proof -
  obtain i cs where free: "find_free (masterConnections sl) = Returns (Some i, cs)" "i < length cs" "stateLock (cs ! i)"
    using find_free_available [OF assms(5,6)] by auto
  obtain con where con: "MasterConnection_init os (conParameters (sl_setup sl)) low high (cs ! i) = Returns con"
    "highPrioQueue con = HighPriorityASDUQueue_resetConnectionQueue high"
    using init_resets_responses [OF free(3)] by blast
  have "CS104_Slave_getOpenConnections sl = Returns (openConnections sl, sl)"
    using assms(3) by (simp add: CS104_Slave_getOpenConnections_def with_openConnectionsLock_def)
  then show ?thesis using assms(1-4) free(1) con
    by (simp add: accept_connection_def getFreeConnection_def with_openConnectionsLock_def
        HighPriorityASDUQueue_isAsduAvailable_def HighPriorityASDUQueue_resetConnectionQueue_def HighPriorityASDUQueue_initialize_def)
qed

text \<open>The response that waits before the client is accepted.\<close>

definition answering_slave :: "unit slave" where
  "answering_slave = demo_slave\<lparr>connectionAsduQueue := (case HighPriorityASDUQueue_enqueue (asdu_with_payload 4)
     (HighPriorityASDUQueue_create 10) of Returns (_, q) \<Rightarrow> Some q | _ \<Rightarrow> None)\<rparr>"

lemma answering_slave_simps:
  "\<exists>low. asduQueue answering_slave = Some low" "openConnectionsLock answering_slave"
  "openConnections answering_slave < maxOpenConnections answering_slave"
  "\<forall>con \<in> set (masterConnections answering_slave). stateLock con" "\<exists>con \<in> set (masterConnections answering_slave). \<not> isUsed con"
  by (simp_all add: answering_slave_def demo_slave_def CS104_Slave_start_def CS104_Slave_create_def createSlave_def
      initializeMessageQueues_def Let_def CONFIG_CS104_MAX_CLIENT_CONNECTIONS_def MasterConnection_create_def)

lemma answering_slave_waits:
  "\<exists>high. connectionAsduQueue answering_slave = Some high \<and> HighPriorityASDUQueue_isAsduAvailable high"
proof -
  have "length (asdu_header (asdu_with_payload 4)) + length (asdu_payload (asdu_with_payload 4)) = 10"
    using length_asdu_with_payload [of 4] by (simp add: asdu_bytes_def)
  then show ?thesis
    by (simp add: answering_slave_def HighPriorityASDUQueue_enqueue_def hp_slot_def HighPriorityASDUQueue_create_def
        HighPriorityASDUQueue_initialize_def HighPriorityASDUQueue_isAsduAvailable_def hp_write_def Let_def)
qed

theorem new_connection_drops_responses_witness:
  "\<exists>high sl' high'. connectionAsduQueue answering_slave = Some high \<and> HighPriorityASDUQueue_isAsduAvailable high \<and>
     accept_connection demo_os (Some ''10.0.0.7'') answering_slave = Returns sl' \<and>
     connectionAsduQueue sl' = Some high' \<and> \<not> HighPriorityASDUQueue_isAsduAvailable high'"
proof -
  obtain low high where q: "asduQueue answering_slave = Some low" "connectionAsduQueue answering_slave = Some high"
    "HighPriorityASDUQueue_isAsduAvailable high"
    using answering_slave_simps(1) answering_slave_waits by blast
  show ?thesis
    using new_connection_drops_responses [OF q(1,2) answering_slave_simps(2-5), of demo_os "''10.0.0.7''"] q(2,3) by blast
qed

end
