(* ===== verification/Modbus_Config.thy ===== *)
theory Modbus_Config
  imports Json_Tree
begin

text \<open>
  The configuration of the Modbus servers: \<open>config_load\<close> of \<open>modbus-server/src/config/config_loader.c\<close> and
  \<open>load_config\<close> of the single file server \<open>modbus-server/json-modbus-server.c\<close>, whose globals are the fields
  of \<open>ModbusConfig\<close>. The text of the file is an argument, None when it cannot be opened, and so is the
  parser of the JSON text. (In \<open>config_load\<close> a device name of 63 characters or more leaves the array without
  its terminating zero; the model keeps the 63 characters.)
\<close>

section \<open>Settings\<close>

record modbus_config =
  enable_tcp :: bool
  enable_rtu :: bool
  tcp_port :: int
  serial_device :: string
  baudrate :: int
  parity :: char
  data_bits :: int
  stop_bits :: int
  unit_id :: int
  coils_start :: int
  nb_coils :: int
  input_bits_start :: int
  nb_input_bits :: int
  holding_regs_start :: int
  nb_holding_regs :: int
  input_regs_start :: int
  nb_input_regs :: int

definition default_config :: modbus_config where
  "default_config = \<lparr>enable_tcp = True, enable_rtu = False, tcp_port = 1502, serial_device = ''/dev/ttyUSB0'',
     baudrate = 9600, parity = CHR ''N'', data_bits = 8, stop_bits = 1, unit_id = 1, coils_start = 0, nb_coils = 0,
     input_bits_start = 0, nb_input_bits = 0, holding_regs_start = 0, nb_holding_regs = 0, input_regs_start = 0,
     nb_input_regs = 0\<rparr>"

text \<open>The globals of the single file server start with both transports switched off.\<close>

definition initial_globals_modbus :: modbus_config where
  "initial_globals_modbus = default_config\<lparr>enable_tcp := False\<rparr>"

section \<open>Parsing\<close>

fun strstr :: "string \<Rightarrow> string \<Rightarrow> bool" where
  "strstr [] pat = (pat = [])"
| "strstr (c # s) pat = (take (length pat) (c # s) = pat \<or> strstr s pat)"

fun valuestring :: "json \<Rightarrow> string option" where
  "valuestring (JString s) = Some s"
| "valuestring _ = None"

text \<open>A setting that is present with a number or a string.\<close>

definition number_item :: "json \<Rightarrow> string \<Rightarrow> (int \<Rightarrow> 'a \<Rightarrow> 'a) \<Rightarrow> 'a \<Rightarrow> 'a" where
  "number_item root key f c = (case cJSON_GetObjectItem root key of
     Some j \<Rightarrow> if cJSON_IsNumber (Some j) then f (valueint j) c else c
   | None \<Rightarrow> c)"

definition string_item :: "json \<Rightarrow> string \<Rightarrow> (string \<Rightarrow> 'a \<Rightarrow> 'a) \<Rightarrow> 'a \<Rightarrow> 'a" where
  "string_item root key f c = (case cJSON_GetObjectItem root key of
     Some (JString s) \<Rightarrow> f s c
   | _ \<Rightarrow> c)"

definition first_char :: "string \<Rightarrow> char" where
  "first_char s = (case s of [] \<Rightarrow> CHR 0x00 | c # _ \<Rightarrow> c)"

definition parse_serial :: "json \<Rightarrow> modbus_config \<Rightarrow> modbus_config" where
  "parse_serial root c = (case cJSON_GetObjectItem root ''serial'' of
     Some j \<Rightarrow> if cJSON_IsObject (Some j) then
         let c = string_item j ''device'' (\<lambda>s c. c\<lparr>serial_device := take 63 s\<rparr>) c;
             c = number_item j ''baudrate'' (\<lambda>n c. c\<lparr>baudrate := n\<rparr>) c;
             c = string_item j ''parity'' (\<lambda>s c. c\<lparr>parity := first_char s\<rparr>) c;
             c = number_item j ''data_bits'' (\<lambda>n c. c\<lparr>data_bits := n\<rparr>) c
         in number_item j ''stop_bits'' (\<lambda>n c. c\<lparr>stop_bits := n\<rparr>) c
       else c
   | None \<Rightarrow> c)"

text \<open>Start and count of a register area: an object with two numbers, or the first two elements of an array.\<close>

definition parse_reg_config :: "json \<Rightarrow> string \<Rightarrow> (int \<Rightarrow> int \<Rightarrow> 'a \<Rightarrow> 'a) \<Rightarrow> 'a \<Rightarrow> 'a" where
  "parse_reg_config root name f c = (case cJSON_GetObjectItem root name of
     Some (JObject members) \<Rightarrow>
       (case (cJSON_GetObjectItem (JObject members) ''start_address'', cJSON_GetObjectItem (JObject members) ''count'') of
          (Some (JNumber s), Some (JNumber n)) \<Rightarrow> f (valueint (JNumber s)) (valueint (JNumber n)) c
        | _ \<Rightarrow> c)
   | Some (JArray (s # n # _)) \<Rightarrow> f (valueint s) (valueint n) c
   | _ \<Rightarrow> c)"

definition parse_areas :: "json \<Rightarrow> modbus_config \<Rightarrow> modbus_config" where
  "parse_areas root c =
     (let c = parse_reg_config root ''coils'' (\<lambda>s n c. c\<lparr>coils_start := s, nb_coils := n\<rparr>) c;
          c = parse_reg_config root ''input_bits'' (\<lambda>s n c. c\<lparr>input_bits_start := s, nb_input_bits := n\<rparr>) c;
          c = parse_reg_config root ''holding_registers'' (\<lambda>s n c. c\<lparr>holding_regs_start := s, nb_holding_regs := n\<rparr>) c
      in parse_reg_config root ''input_registers'' (\<lambda>s n c. c\<lparr>input_regs_start := s, nb_input_regs := n\<rparr>) c)"

definition parse_ports :: "json \<Rightarrow> modbus_config \<Rightarrow> modbus_config" where
  "parse_ports root c =
     number_item root ''unit_id'' (\<lambda>n c. c\<lparr>unit_id := n\<rparr>) (number_item root ''tcp_port'' (\<lambda>n c. c\<lparr>tcp_port := n\<rparr>) c)"

definition set_mode :: "string \<Rightarrow> modbus_config \<Rightarrow> modbus_config" where
  "set_mode s c = c\<lparr>enable_tcp := strstr s ''tcp'', enable_rtu := strstr s ''rtu''\<rparr>"

text \<open>What is read of a file: at most 2047 bytes, up to the first zero byte.\<close>

definition file_buffer :: "string \<Rightarrow> string" where
  "file_buffer text = takeWhile (\<lambda>c. c \<noteq> CHR 0x00) (take 2047 text)"

definition config_load :: "(string \<Rightarrow> json option) \<Rightarrow> string option \<Rightarrow> int \<times> modbus_config" where
  "config_load parse file = (case file of None \<Rightarrow> (0, default_config)
     | Some text \<Rightarrow> (case parse (file_buffer text) of None \<Rightarrow> (-1, default_config)
         | Some root \<Rightarrow> (0, parse_areas root (parse_serial root (parse_ports root (string_item root ''mode'' set_mode default_config))))))"

text \<open>The single file server copies the mode into an array of 16 characters first.\<close>

definition load_config :: "(string \<Rightarrow> json option) \<Rightarrow> string option \<Rightarrow> modbus_config \<Rightarrow> int \<times> modbus_config" where
  "load_config parse file g = (case file of None \<Rightarrow> (-1, g)
     | Some text \<Rightarrow> (case parse (file_buffer text) of None \<Rightarrow> (-1, g)
         | Some root \<Rightarrow> (0, parse_areas root (parse_serial root (parse_ports root
             (string_item root ''mode'' (\<lambda>s. set_mode (take 15 s)) g))))))"

section \<open>The two loaders\<close>

text \<open>Changing the transports commutes with every other setting.\<close>

definition transports :: "bool \<Rightarrow> bool \<Rightarrow> modbus_config \<Rightarrow> modbus_config" where
  "transports tcp rtu c = c\<lparr>enable_tcp := tcp, enable_rtu := rtu\<rparr>"

lemma transports_item:
  "(\<And>n c. f n (transports a b c) = transports a b (f n c)) \<Longrightarrow>
     number_item root key f (transports a b c) = transports a b (number_item root key f c)"
  "(\<And>s c. g s (transports a b c) = transports a b (g s c)) \<Longrightarrow>
     string_item root key g (transports a b c) = transports a b (string_item root key g c)"
  "(\<And>s n c. h s n (transports a b c) = transports a b (h s n c)) \<Longrightarrow>
     parse_reg_config root key h (transports a b c) = transports a b (parse_reg_config root key h c)"
  by (auto simp: number_item_def string_item_def parse_reg_config_def split: option.splits json.splits list.splits)

lemma transports_updates:
  "(transports a b c)\<lparr>tcp_port := n\<rparr> = transports a b (c\<lparr>tcp_port := n\<rparr>)"
  "(transports a b c)\<lparr>unit_id := n\<rparr> = transports a b (c\<lparr>unit_id := n\<rparr>)"
  "(transports a b c)\<lparr>serial_device := s\<rparr> = transports a b (c\<lparr>serial_device := s\<rparr>)"
  "(transports a b c)\<lparr>baudrate := n\<rparr> = transports a b (c\<lparr>baudrate := n\<rparr>)"
  "(transports a b c)\<lparr>parity := p\<rparr> = transports a b (c\<lparr>parity := p\<rparr>)"
  "(transports a b c)\<lparr>data_bits := n\<rparr> = transports a b (c\<lparr>data_bits := n\<rparr>)"
  "(transports a b c)\<lparr>stop_bits := n\<rparr> = transports a b (c\<lparr>stop_bits := n\<rparr>)"
  "(transports a b c)\<lparr>coils_start := m, nb_coils := n\<rparr> = transports a b (c\<lparr>coils_start := m, nb_coils := n\<rparr>)"
  "(transports a b c)\<lparr>input_bits_start := m, nb_input_bits := n\<rparr> = transports a b (c\<lparr>input_bits_start := m, nb_input_bits := n\<rparr>)"
  "(transports a b c)\<lparr>holding_regs_start := m, nb_holding_regs := n\<rparr> = transports a b (c\<lparr>holding_regs_start := m, nb_holding_regs := n\<rparr>)"
  "(transports a b c)\<lparr>input_regs_start := m, nb_input_regs := n\<rparr> = transports a b (c\<lparr>input_regs_start := m, nb_input_regs := n\<rparr>)"
  by (simp_all add: transports_def)

lemma transports_rest:
  "parse_areas root (parse_serial root (parse_ports root (transports a b c))) =
     transports a b (parse_areas root (parse_serial root (parse_ports root c)))"
  by (simp add: parse_areas_def parse_serial_def parse_ports_def Let_def transports_item transports_updates split: option.splits)

lemma set_mode_transports: "set_mode s c = transports (strstr s ''tcp'') (strstr s ''rtu'') c"
  by (simp add: set_mode_def transports_def)

lemma globals_transports: "initial_globals_modbus = transports False False default_config"
  by (simp add: initial_globals_modbus_def transports_def default_config_def)

lemma transports_sel: "enable_tcp (transports a b c) = a" "enable_rtu (transports a b c) = b"
  by (simp_all add: transports_def)

lemma transports_transports [simp]: "transports a b (transports a' b' c) = transports a b c"
  by (simp add: transports_def)

text \<open>
  From a file that can be read and parsed the two servers load the same settings when the mode is a string of at
  most 15 characters. Without such a mode the single file server starts neither transport, while the other one serves TCP.
\<close>

theorem config_loaders_agree:
  assumes "parse (file_buffer text) = Some root"
  shows "\<exists>c d. config_load parse (Some text) = (0, c) \<and> load_config parse (Some text) initial_globals_modbus = (0, d) \<and>
    (case cJSON_GetObjectItem root ''mode'' of
       Some (JString s) \<Rightarrow> length s \<le> 15 \<longrightarrow> d = c
     | _ \<Rightarrow> enable_tcp c \<and> \<not> enable_rtu c \<and> d = c\<lparr>enable_tcp := False\<rparr>)"
proof -
  let ?rest = "\<lambda>c. parse_areas root (parse_serial root (parse_ports root c))"
  have d: "default_config = transports True False default_config" by (simp add: transports_def default_config_def)
  have rest: "?rest default_config = transports True False (?rest default_config)"
    by (subst (1) d) (rule transports_rest)
  show ?thesis
  proof (cases "\<exists>s. cJSON_GetObjectItem root ''mode'' = Some (JString s)")
    case True
    then obtain s where s: "cJSON_GetObjectItem root ''mode'' = Some (JString s)" by blast
    then show ?thesis using assms
      by (simp add: config_load_def load_config_def string_item_def set_mode_transports globals_transports)
  next
    case False
    let ?c = "?rest default_config"
    have "config_load parse (Some text) = (0, ?c)" "load_config parse (Some text) initial_globals_modbus = (0, transports False False ?c)"
      using False assms by (auto simp: config_load_def load_config_def string_item_def globals_transports transports_rest
          split: option.splits json.splits)
    moreover have "enable_tcp ?c" "\<not> enable_rtu ?c"
      using arg_cong [OF rest, of enable_tcp] arg_cong [OF rest, of enable_rtu] by (simp_all add: transports_sel)
    ultimately show ?thesis using False rest
      by (auto simp: transports_def split: option.splits json.splits)
  qed
qed

text \<open>The shipped configuration in short: mode tcp_rtu and forty holding registers from address 100.\<close>

definition demo_modbus_document :: json where
  "demo_modbus_document = JObject [(''mode'', JString ''tcp_rtu''),
     (''holding_registers'', JArray [JNumber 0x4059000000000000, JNumber 0x4044000000000000])]"

lemma demo_modbus_numbers: "valueint (JNumber 0x4059000000000000) = 100" "valueint (JNumber 0x4044000000000000) = 40"
  by (simp_all add: saturate_int_def f64_val_def fp_decode_def fv_le_def fp_emin_def Let_def signed_def)

theorem config_loaders_agree_witness:
  "load_config (\<lambda>t. Some demo_modbus_document) (Some []) initial_globals_modbus = config_load (\<lambda>t. Some demo_modbus_document) (Some []) \<and>
   (\<lambda>c. (enable_tcp c, enable_rtu c, holding_regs_start c, nb_holding_regs c)) (snd (config_load (\<lambda>t. Some demo_modbus_document) (Some [])))
     = (True, True, 100, 40)"
proof -
  have mode: "cJSON_GetObjectItem demo_modbus_document ''mode'' = Some (JString ''tcp_rtu'')"
    by (simp add: demo_modbus_document_def cJSON_GetObjectItem_def)
  have "(\<lambda>c. (enable_tcp c, enable_rtu c, holding_regs_start c, nb_holding_regs c)) (snd (config_load (\<lambda>t. Some demo_modbus_document) (Some [])))
     = (True, True, 100, 40)"
    by (simp add: config_load_def demo_modbus_document_def string_item_def number_item_def parse_ports_def parse_serial_def
        parse_areas_def parse_reg_config_def cJSON_GetObjectItem_def set_mode_def Let_def demo_modbus_numbers tolower_def
        del: valueint.simps)
  then show ?thesis using config_loaders_agree [of "\<lambda>t. Some demo_modbus_document" "[]" demo_modbus_document] mode by auto
qed

end
