(* ===== verification/Modbus_Registers.thy ===== *)
theory Modbus_Registers
  imports Modbus_Config Effects C_Format
begin

text \<open>
  Registers of the Modbus servers and the JSON commands that change them: \<open>utils/byte_order.c\<close> and
  \<open>json/json_command.c\<close> of \<open>modbus-server/src\<close>, and \<open>process_json\<close> of the single file server. The structure of the
  mapping is that of libmodbus (\<open>modbus.h\<close>); a write behind its registers is undefined. Reading a value
  back is the specification.
\<close>

section \<open>Registers\<close>

record modbus_mapping =
  nb_bits :: int
  start_bits :: int
  nb_input_bits_of :: int
  start_input_bits :: int
  nb_input_registers :: int
  start_input_registers :: int
  nb_registers :: int
  start_registers :: int
  tab_bits :: bytes
  tab_input_bits :: bytes
  tab_input_registers :: "u16 list"
  tab_registers :: "u16 list"

datatype byte_order = ORDER_LE | ORDER_BE | ORDER_SWAP

definition strcasecmp :: "string \<Rightarrow> string \<Rightarrow> int" where
  "strcasecmp s t = case_insensitive_strcmp s t"

definition parse_byte_order :: "string option \<Rightarrow> byte_order" where
  "parse_byte_order s = (case s of None \<Rightarrow> ORDER_LE
     | Some s \<Rightarrow> if strcasecmp s ''LE'' = 0 then ORDER_LE
         else if strcasecmp s ''BE'' = 0 then ORDER_BE
         else if strcasecmp s ''SWAP'' = 0 then ORDER_SWAP
         else ORDER_LE)"

definition swap_bytes :: "u16 \<Rightarrow> u16" where
  "swap_bytes w = drop_bit 8 w OR push_bit 8 w"

definition set_register :: "int \<Rightarrow> u16 \<Rightarrow> u16 list \<Rightarrow> u16 list outcome" where
  "set_register i w regs = (if 0 \<le> i \<and> i < int (length regs) then Returns (regs[nat i := w]) else Undefined)"

fun set_registers :: "int \<Rightarrow> u16 list \<Rightarrow> u16 list \<Rightarrow> u16 list outcome" where
  "set_registers i [] regs = Returns regs"
| "set_registers i (w # ws) regs = obind (set_register i w regs) (set_registers (i + 1) ws)"

definition write_registers :: "int \<Rightarrow> u16 list \<Rightarrow> byte_order \<Rightarrow> u16 list \<Rightarrow> u16 list outcome" where
  "write_registers start_idx words order regs =
     (let words = (if order = ORDER_SWAP then map swap_bytes words else words);
          words = (if order = ORDER_BE \<and> length words = 2 then [words ! 1, words ! 0] else words)
      in set_registers start_idx words regs)"

section \<open>Commands\<close>

text \<open>The words of a 32 bit value, and the types a value can be stored with.\<close>

definition words_of :: "u32 \<Rightarrow> u16 list" where
  "words_of u = [ucast (u AND 0xFFFF), ucast (drop_bit 16 u)]"

definition store_value :: "string \<Rightarrow> json \<Rightarrow> byte_order \<Rightarrow> int \<Rightarrow> u16 list \<Rightarrow> u16 list outcome" where
  "store_value datatype val bo idx regs =
     (if (datatype = ''uint16'' \<or> datatype = ''int16'') \<and> cJSON_IsNumber (Some val) then
        let v = word_of_int (valueint val); v = (if bo = ORDER_SWAP then swap_bytes v else v)
        in set_register idx v regs
      else if (datatype = ''uint32'' \<or> datatype = ''int32'') \<and> cJSON_IsNumber (Some val) then
        write_registers idx (words_of (word_of_int (valueint val))) bo regs
      else if datatype = ''float'' \<and> cJSON_IsNumber (Some val) then
        write_registers idx (words_of (f32_of_f64 (valuedouble val))) bo regs
      else Returns regs)"

definition updated_line :: "int \<Rightarrow> string \<Rightarrow> string" where
  "updated_line addr datatype = ''{\"status\":\"updated\",\"address\":'' @ dec_int addr @ '',\"datatype\":\"'' @ datatype @ ''\"}''"

text \<open>The members of an update, None when one is missing or of the wrong type.\<close>

definition update_members :: "json \<Rightarrow> (int \<times> string \<times> byte_order \<times> json) option" where
  "update_members root =
     (case (cJSON_GetObjectItemCaseSensitive root ''type'', cJSON_GetObjectItemCaseSensitive root ''address'',
            cJSON_GetObjectItemCaseSensitive root ''datatype'', cJSON_GetObjectItemCaseSensitive root ''value'') of
        (Some (JString _), Some (JNumber a), Some (JString datatype), Some val) \<Rightarrow>
          Some (valueint (JNumber a), datatype,
            parse_byte_order (case cJSON_GetObjectItemCaseSensitive root ''byte_order'' of None \<Rightarrow> Some ''LE'' | Some j \<Rightarrow> valuestring j), val)
      | _ \<Rightarrow> None)"

text \<open>The result, the printed lines and the mapping.\<close>

definition json_command_update_data ::
    "(string \<Rightarrow> json option) \<Rightarrow> string \<Rightarrow> modbus_mapping option \<Rightarrow> (int \<times> string list \<times> modbus_mapping option) outcome" where
  "json_command_update_data parse json_str mapping =
     (case parse json_str of None \<Rightarrow> Returns (-1, [], mapping)
      | Some root \<Rightarrow> (case update_members root of None \<Rightarrow> Returns (-1, [], mapping)
        | Some (addr, datatype, bo, val) \<Rightarrow> (case mapping of None \<Rightarrow> Returns (-1, [], None)
          | Some mb \<Rightarrow>
              if addr < 0 \<or> addr \<ge> nb_registers mb then
                Returns (-1, [''{\"error\":\"index_out_of_bounds\",\"address\":'' @ dec_int addr @ ''}''], mapping)
              else obind (store_value datatype val bo addr (tab_registers mb)) (\<lambda>regs.
                Returns (0, [updated_line addr datatype], Some (mb\<lparr>tab_registers := regs\<rparr>))))))"

datatype server_mode = STATE_STOPPED | STATE_RUNNING

text \<open>The commands; None for a document that is no command.\<close>

definition mode_command :: "json \<Rightarrow> server_mode \<Rightarrow> bool \<Rightarrow> (string list \<times> server_mode \<times> bool) option" where
  "mode_command root state running = (case cJSON_GetObjectItemCaseSensitive root ''cmd'' of
     Some (JString cmd) \<Rightarrow>
       if cmd = ''stop'' then Some ([''{\"status\":\"stopping\"}''], STATE_STOPPED, False)
       else if cmd = ''start'' then
         if state = STATE_RUNNING then Some ([''{\"error\":\"already_running\"}''], state, running)
         else Some ([''{\"status\":\"starting\"}''], STATE_RUNNING, running)
       else if cmd = ''status'' then
         Some ([''{\"status\":\"'' @ (if state = STATE_RUNNING then ''running'' else ''stopped'') @ ''\"}''], state, running)
       else None
   | _ \<Rightarrow> None)"

definition json_command_process :: "(string \<Rightarrow> json option) \<Rightarrow> string \<Rightarrow> modbus_mapping option \<Rightarrow> server_mode \<Rightarrow> bool \<Rightarrow>
    (string list \<times> modbus_mapping option \<times> server_mode \<times> bool) outcome" where
  "json_command_process parse json_str mapping state running =
     (case parse json_str of None \<Rightarrow> Returns ([], mapping, state, running)
      | Some root \<Rightarrow> (case mode_command root state running of
          Some (out, state, running) \<Rightarrow> Returns (out, mapping, state, running)
        | None \<Rightarrow> obind (json_command_update_data parse json_str mapping) (\<lambda>(_, out, mapping). Returns (out, mapping, state, running))))"

text \<open>
  The single file server checks the address against the configured area first, in int, and uses the
  mapping without a test for NULL.
\<close>

definition process_json :: "(string \<Rightarrow> json option) \<Rightarrow> modbus_config \<Rightarrow> string \<Rightarrow> modbus_mapping option \<Rightarrow> server_mode \<Rightarrow> bool \<Rightarrow>
    (string list \<times> modbus_mapping option \<times> server_mode \<times> bool) outcome" where
  "process_json parse c json_str mapping state running =
     (case parse json_str of None \<Rightarrow> Returns ([], mapping, state, running)
      | Some root \<Rightarrow> (case mode_command root state running of
          Some (out, state, running) \<Rightarrow> Returns (out, mapping, state, running)
        | None \<Rightarrow> (case update_members root of None \<Rightarrow> Returns ([], mapping, state, running)
          | Some (addr, datatype, bo, val) \<Rightarrow>
              if addr < holding_regs_start c \<or> addr \<ge> holding_regs_start c + nb_holding_regs c then
                Returns ([''{\"error\":\"address_out_of_range\",\"address\":'' @ dec_int addr @ ''}''], mapping, state, running)
              else (case mapping of None \<Rightarrow> Undefined
                | Some mb \<Rightarrow>
                    let idx = addr - holding_regs_start c
                    in if idx < 0 \<or> idx \<ge> nb_registers mb then
                         Returns ([''{\"error\":\"index_out_of_bounds\"}''], mapping, state, running)
                       else obind (store_value datatype val bo idx (tab_registers mb)) (\<lambda>regs.
                         Returns ([updated_line addr datatype], Some (mb\<lparr>tab_registers := regs\<rparr>), state, running))))))"

section \<open>Reading back\<close>

text \<open>The specification: how a client that knows the byte order reads a value of a type from its registers.\<close>

definition register_width :: "string \<Rightarrow> nat" where
  "register_width datatype = (if datatype = ''uint16'' \<or> datatype = ''int16'' then 1 else 2)"

definition known_type :: "string \<Rightarrow> bool" where
  "known_type datatype \<longleftrightarrow> datatype \<in> {''uint16'', ''int16'', ''uint32'', ''int32'', ''float''}"

definition unordered :: "byte_order \<Rightarrow> u16 list \<Rightarrow> u16 list" where
  "unordered bo ws = (case bo of ORDER_LE \<Rightarrow> ws | ORDER_BE \<Rightarrow> rev ws | ORDER_SWAP \<Rightarrow> map swap_bytes ws)"

definition double_word :: "u16 list \<Rightarrow> u32" where
  "double_word ws = word_cat (ws ! 1) (ws ! 0)"

definition read_value :: "string \<Rightarrow> byte_order \<Rightarrow> u16 list \<Rightarrow> int" where
  "read_value datatype bo ws = (let ws = unordered bo ws in
     if datatype = ''uint16'' then uint (ws ! 0)
     else if datatype = ''int16'' then sint (ws ! 0)
     else if datatype = ''int32'' then sint (double_word ws)
     else uint (double_word ws))"

text \<open>The value of an update; a float is its bit pattern.\<close>

definition update_value :: "string \<Rightarrow> json \<Rightarrow> int" where
  "update_value datatype val = (if datatype = ''float'' then uint (f32_of_f64 (valuedouble val)) else valueint val)"

definition value_fits :: "string \<Rightarrow> int \<Rightarrow> bool" where
  "value_fits datatype v \<longleftrightarrow>
     (if datatype = ''uint16'' then 0 \<le> v \<and> v < 2 ^ 16
      else if datatype = ''int16'' then - (2 ^ 15) \<le> v \<and> v < 2 ^ 15
      else if datatype = ''int32'' then - (2 ^ 31) \<le> v \<and> v < 2 ^ 31
      else 0 \<le> v \<and> v < 2 ^ 32)"

lemma swap_swap [simp]: "swap_bytes (swap_bytes w) = w"
proof (rule bit_word_eqI)
  fix n assume "n < LENGTH(16)"
  then show "bit (swap_bytes (swap_bytes w)) n = bit w n"
    by (cases "8 \<le> n") (auto simp: swap_bytes_def bit_simps dest: bit_imp_le_length)
qed

lemma words_of_eq: "words_of u = [ucast u, ucast (drop_bit 16 u)]"
proof -
  have "(0xFFFF :: u32) = mask 16" by (simp add: mask_eq_exp_minus_1)
  then have "u AND 0xFFFF = take_bit 16 u" by (simp only: take_bit_eq_mask)
  then have "(ucast (u AND 0xFFFF) :: u16) = ucast u" by (simp only:) (rule bit_word_eqI, simp add: bit_simps)
  then show ?thesis by (simp add: words_of_def)
qed

lemma double_word_words [simp]: "double_word (words_of u) = u"
  unfolding words_of_eq double_word_def
  by (rule bit_word_eqI) (auto simp: bit_word_cat_iff bit_simps)

lemma length_words [simp]: "length (words_of u) = 2"
  by (simp add: words_of_def)

lemma set_registers_inside:
  "int i + int (length ws) \<le> int (length regs) \<Longrightarrow>
     set_registers (int i) ws regs = Returns (take i regs @ ws @ drop (i + length ws) regs)"
proof (induction ws arbitrary: i regs)
  case (Cons w ws)
  have "set_register (int i) w regs = Returns (regs[i := w])" using Cons.prems by (simp add: set_register_def)
  moreover have "set_registers (int (Suc i)) ws (regs[i := w]) =
      Returns (take (Suc i) (regs[i := w]) @ ws @ drop (Suc i + length ws) (regs[i := w]))"
    using Cons.prems by (intro Cons.IH) simp
  moreover have "take (Suc i) (regs[i := w]) = take i regs @ [w]"
    using Cons.prems by (simp add: take_Suc_conv_app_nth)
  ultimately show ?case by (simp add: add.commute)
qed simp

lemma set_registers_outside:
  assumes "int i < int (length regs)" "int (length regs) < int i + int (length ws)"
  shows "set_registers (int i) ws regs = Undefined"
  using assms
proof (induction ws arbitrary: i regs)
  case (Cons w ws)
  have w: "set_register (int i) w regs = Returns (regs[i := w])" using Cons.prems by (simp add: set_register_def)
  show ?case
  proof (cases "Suc i < length regs")
    case True
    then have "set_registers (int (Suc i)) ws (regs[i := w]) = Undefined" using Cons.prems by (intro Cons.IH) simp_all
    then show ?thesis using w by (simp add: add.commute)
  next
    case False
    then obtain v vs where "ws = v # vs" using Cons.prems by (cases ws) auto
    then show ?thesis using w False by (simp add: set_register_def)
  qed
qed simp

text \<open>The words an update writes, in the order of the registers.\<close>

definition stored_words :: "string \<Rightarrow> json \<Rightarrow> byte_order \<Rightarrow> u16 list" where
  "stored_words datatype val bo = unordered bo
     (if datatype = ''uint16'' \<or> datatype = ''int16'' then [word_of_int (valueint val)]
      else if datatype = ''float'' then words_of (f32_of_f64 (valuedouble val))
      else words_of (word_of_int (valueint val)))"

lemma write_registers_words:
  "write_registers i (words_of u) bo regs = set_registers i (unordered bo (words_of u)) regs"
  by (cases bo) (simp_all add: write_registers_def unordered_def words_of_def)

lemma store_value_words:
  assumes "known_type datatype" "cJSON_IsNumber (Some val)"
  shows "store_value datatype val bo i regs = set_registers i (stored_words datatype val bo) regs"
proof -
  have one: "set_registers i [w] regs = set_register i w regs" for w by (cases "set_register i w regs") simp_all
  consider "datatype = ''uint16'' \<or> datatype = ''int16''" | "datatype = ''uint32'' \<or> datatype = ''int32''" | "datatype = ''float''"
    using assms(1) unfolding known_type_def by blast
  then show ?thesis
  proof cases
    case 1
    then show ?thesis using assms(2)
      by (cases bo) (auto simp: store_value_def stored_words_def unordered_def one Let_def simp del: set_registers.simps)
  next
    case 2
    then show ?thesis using assms(2) by (auto simp: store_value_def stored_words_def write_registers_words simp del: set_registers.simps)
  next
    case 3
    then show ?thesis using assms(2) by (simp add: store_value_def stored_words_def write_registers_words del: set_registers.simps)
  qed
qed

lemma length_unordered [simp]: "length (unordered bo ws) = length ws"
  by (cases bo) (simp_all add: unordered_def)

lemma length_stored_words: "length (stored_words datatype val bo) = register_width datatype"
  by (simp add: stored_words_def register_width_def)

lemma unordered_unordered: "length ws \<le> 2 \<Longrightarrow> unordered bo (unordered bo ws) = ws"
  by (cases bo) (simp_all add: unordered_def o_def)

lemma sint_fits:
  "- (2 ^ 15) \<le> v \<Longrightarrow> v < 2 ^ 15 \<Longrightarrow> sint (word_of_int v :: u16) = v"
  "- (2 ^ 31) \<le> v \<Longrightarrow> v < 2 ^ 31 \<Longrightarrow> sint (word_of_int v :: u32) = v"
  by (simp_all add: int_word_sint)

lemma uint_fits:
  "0 \<le> v \<Longrightarrow> v < 2 ^ 16 \<Longrightarrow> uint (word_of_int v :: u16) = v"
  "0 \<le> v \<Longrightarrow> v < 2 ^ 32 \<Longrightarrow> uint (word_of_int v :: u32) = v"
  by (simp_all add: uint_word_of_int)

lemma read_stored:
  assumes "known_type datatype" "value_fits datatype (update_value datatype val)"
  shows "read_value datatype bo (stored_words datatype val bo) = update_value datatype val"
proof -
  have short: "unordered bo (unordered bo [w]) = [w]" "unordered bo (unordered bo (words_of u)) = words_of u" for w u
    by (simp_all add: unordered_unordered)
  consider "datatype = ''uint16''" | "datatype = ''int16''" | "datatype = ''uint32''" | "datatype = ''int32''" | "datatype = ''float''"
    using assms(1) unfolding known_type_def by blast
  then show ?thesis
    using assms(2)
    by cases (simp_all add: read_value_def stored_words_def short update_value_def value_fits_def Let_def sint_fits uint_fits
        del: power_numeral)
qed

text \<open>
  What is read back: the integer \<open>valueint\<close> of the document, which cJSON saturates at the limits of int, reduced to
  the range of the type as the conversions of C do; a float is its bit pattern.
\<close>

definition signed_residue :: "nat \<Rightarrow> int \<Rightarrow> int" where
  "signed_residue n v = (v + 2 ^ (n - 1)) mod 2 ^ n - 2 ^ (n - 1)"

definition reduced_value :: "string \<Rightarrow> json \<Rightarrow> int" where
  "reduced_value datatype val =
     (if datatype = ''float'' then uint (f32_of_f64 (valuedouble val))
      else if datatype = ''uint16'' then valueint val mod 2 ^ 16
      else if datatype = ''int16'' then signed_residue 16 (valueint val)
      else if datatype = ''int32'' then signed_residue 32 (valueint val)
      else valueint val mod 2 ^ 32)"

lemma read_stored_reduced:
  assumes "known_type datatype"
  shows "read_value datatype bo (stored_words datatype val bo) = reduced_value datatype val"
proof -
  have short: "unordered bo (unordered bo [w]) = [w]" "unordered bo (unordered bo (words_of u)) = words_of u" for w u
    by (simp_all add: unordered_unordered)
  consider "datatype = ''uint16''" | "datatype = ''int16''" | "datatype = ''uint32''" | "datatype = ''int32''" | "datatype = ''float''"
    using assms(1) unfolding known_type_def by blast
  then show ?thesis
    by cases (simp_all add: read_value_def stored_words_def short reduced_value_def signed_residue_def Let_def uint_word_of_int int_word_sint)
qed

lemma reduced_fits: "known_type datatype \<Longrightarrow> value_fits datatype (update_value datatype val) \<Longrightarrow>
  reduced_value datatype val = update_value datatype val"
  using read_stored read_stored_reduced by metis

section \<open>Updates\<close>

text \<open>
  C29: an update of a numeric type, all of whose registers are inside the configured area and the mapping, is stored so that a
  client that reads the registers of its address in the byte order of the update gets the value of the
  document, whatever the type and the order: the bits of a float, and of an integer type cJSON's \<open>valueint\<close>, which is
  saturated at the limits of int, reduced to the type; it is that integer itself when the type can hold it. No other register changes.
\<close>

theorem update_read_back:
  assumes "parse json_str = Some root" "mode_command root state running = None"
    and "update_members root = Some (addr, datatype, bo, val)" "cJSON_IsNumber (Some val)" "known_type datatype"
    and "int (length (tab_registers mb)) = nb_registers mb" "holding_regs_start c \<le> addr"
    and "addr + int (register_width datatype) \<le> holding_regs_start c + min (nb_holding_regs c) (nb_registers mb)"
  shows "\<exists>regs i. process_json parse c json_str (Some mb) state running =
      Returns ([updated_line addr datatype], Some (mb\<lparr>tab_registers := regs\<rparr>), state, running) \<and>
    int i = addr - holding_regs_start c \<and> length regs = length (tab_registers mb) \<and>
    read_value datatype bo (take (register_width datatype) (drop i regs)) = reduced_value datatype val \<and>
    (value_fits datatype (update_value datatype val) \<longrightarrow> reduced_value datatype val = update_value datatype val) \<and>
    (\<forall>k < length regs. k < i \<or> i + register_width datatype \<le> k \<longrightarrow> regs ! k = tab_registers mb ! k)"
proof -
  let ?ws = "stored_words datatype val bo" and ?old = "tab_registers mb"
  obtain i where i: "int i = addr - holding_regs_start c" using assms(7) by (metis nonneg_int_cases diff_ge_0_iff_ge)
  have w: "0 < register_width datatype" "length ?ws = register_width datatype"
    by (simp_all add: register_width_def length_stored_words)
  have fits: "i + register_width datatype \<le> length ?old" using assms(6,8) i by linarith
  let ?regs = "take i ?old @ ?ws @ drop (i + register_width datatype) ?old"
  have "store_value datatype val bo (int i) ?old = Returns ?regs"
    using set_registers_inside [of i ?ws ?old] fits w by (simp add: store_value_words [OF assms(5,4)])
  moreover have "\<not> (addr < holding_regs_start c \<or> addr \<ge> holding_regs_start c + nb_holding_regs c)"
    "\<not> (int i < 0 \<or> int i \<ge> nb_registers mb)" using assms(6-8) i w(1) by linarith+
  ultimately have run: "process_json parse c json_str (Some mb) state running =
      Returns ([updated_line addr datatype], Some (mb\<lparr>tab_registers := ?regs\<rparr>), state, running)"
    using assms(1-3) by (simp add: process_json_def Let_def flip: i)
  have "take (register_width datatype) (drop i ?regs) = ?ws" using fits w by simp
  then have read: "read_value datatype bo (take (register_width datatype) (drop i ?regs)) = reduced_value datatype val"
    by (simp only: read_stored_reduced [OF assms(5)])
  have same: "length ?regs = length ?old" using fits w by simp
  have rest: "\<forall>k < length ?regs. k < i \<or> i + register_width datatype \<le> k \<longrightarrow> ?regs ! k = ?old ! k"
    using fits w by (auto simp: nth_append)
  show ?thesis by (intro exI conjI, rule run, rule i, rule same, rule read, rule impI, rule reduced_fits [OF assms(5)], assumption, rule rest)
qed

text \<open>
  A 32 bit value for the last register is written behind the registers, by both servers: the check of the
  address counts one register for every type.
\<close>

theorem last_register_overflow:
  assumes "parse json_str = Some root" "mode_command root state running = None"
    and "update_members root = Some (addr, datatype, bo, val)" "cJSON_IsNumber (Some val)"
    and "known_type datatype" "register_width datatype = 2"
    and "int (length (tab_registers mb)) = nb_registers mb" "nb_registers mb = nb_holding_regs c" "0 < nb_registers mb"
  shows "(addr = holding_regs_start c + nb_holding_regs c - 1 \<longrightarrow> process_json parse c json_str (Some mb) state running = Undefined) \<and>
    (addr = nb_registers mb - 1 \<longrightarrow> json_command_process parse json_str (Some mb) state running = Undefined)"
proof -
  obtain i where i: "int i = nb_registers mb - 1" using assms(9) by (metis nonneg_int_cases zle_diff1_eq)
  have "set_registers (int i) (stored_words datatype val bo) (tab_registers mb) = Undefined"
    using set_registers_outside [of i "tab_registers mb" "stored_words datatype val bo"] i assms(6,7)
    by (simp add: length_stored_words)
  then have u: "store_value datatype val bo (nb_registers mb - 1) (tab_registers mb) = Undefined"
    by (simp add: store_value_words [OF assms(5,4)] i)
  have "addr = holding_regs_start c + nb_holding_regs c - 1 \<longrightarrow> process_json parse c json_str (Some mb) state running = Undefined"
    using assms(1-3,8,9) u by (simp add: process_json_def Let_def)
  moreover have "addr = nb_registers mb - 1 \<longrightarrow> json_command_process parse json_str (Some mb) state running = Undefined"
    using assms(1-3,9) u by (simp add: json_command_process_def json_command_update_data_def)
  ultimately show ?thesis by blast
qed

text \<open>
  An update that arrives before the mapping exists, like a line waiting on standard input when the single file server
  starts, makes it dereference NULL; the modular server refuses it.
\<close>

theorem update_before_ready:
  assumes "parse json_str = Some root" "mode_command root state running = None"
    and "update_members root = Some (addr, datatype, bo, val)"
    and "holding_regs_start c \<le> addr" "addr < holding_regs_start c + nb_holding_regs c"
  shows "process_json parse c json_str None state running = Undefined \<and>
    json_command_process parse json_str None state running = Returns ([], None, state, running)"
  using assms by (simp add: process_json_def json_command_process_def json_command_update_data_def)

text \<open>
  For an area that starts at address 0 and has all registers of the mapping, the two servers treat every line alike:
  the same registers, state and behaviour, also when it is undefined. Only the wording of a refusal differs.
\<close>

theorem servers_agree_from_zero:
  assumes "holding_regs_start c = 0" "nb_holding_regs c = nb_registers mb"
  shows "obind (process_json parse c json_str (Some mb) state running) (\<lambda>(out, r). Returns r) =
    obind (json_command_process parse json_str (Some mb) state running) (\<lambda>(out, r). Returns r)"
proof (cases "parse json_str")
  case (Some root)
  have assoc: "obind (obind m f) g = obind m (\<lambda>x. obind (f x) g)" for m :: "'a outcome" and f :: "'a \<Rightarrow> 'b outcome" and g :: "'b \<Rightarrow> 'c outcome"
    by (cases m) simp_all
  show ?thesis using assms Some
    by (auto simp: process_json_def json_command_process_def json_command_update_data_def assoc Let_def split: option.splits)
qed (simp add: process_json_def json_command_process_def)

text \<open>
  The modular server takes the address for an index into the registers. With an area that starts at a positive
  address, an update never changes the register a Modbus client reads at that address.
\<close>

theorem area_start_ignored:
  assumes "parse json_str = Some root" "update_members root = Some (addr, datatype, bo, val)"
    and "int (length (tab_registers mb)) = nb_registers mb" "0 < start_registers mb" "start_registers mb \<le> addr"
    and "json_command_update_data parse json_str (Some mb) = Returns (r, out, Some mb')"
  shows "tab_registers mb' ! nat (addr - start_registers mb) = tab_registers mb ! nat (addr - start_registers mb)"
proof (cases "addr < nb_registers mb")
  case True
  obtain regs where regs: "store_value datatype val bo addr (tab_registers mb) = Returns regs" "mb' = mb\<lparr>tab_registers := regs\<rparr>"
    using assms True by (auto simp: json_command_update_data_def obind_Returns)
  obtain i where i: "int i = addr" "i < length (tab_registers mb)" using assms(3-5) True by (cases addr) auto
  have below: "nat (addr - start_registers mb) < i" using i assms(4,5) by linarith
  show ?thesis
  proof (cases "cJSON_IsNumber (Some val) \<and> known_type datatype")
    case True
    then have s: "set_registers (int i) (stored_words datatype val bo) (tab_registers mb) = Returns regs"
      using regs(1) store_value_words i(1) by metis
    then have "int i + int (length (stored_words datatype val bo)) \<le> int (length (tab_registers mb))"
      using set_registers_outside [of i "tab_registers mb" "stored_words datatype val bo"] i(2) by (intro leI notI) simp
    then have "regs = take i (tab_registers mb) @ stored_words datatype val bo @ drop (i + length (stored_words datatype val bo)) (tab_registers mb)"
      using s set_registers_inside [of i "stored_words datatype val bo" "tab_registers mb"] by simp
    then show ?thesis using below i(2) regs(2) by (simp add: nth_append)
  next
    case False
    then have "regs = tab_registers mb" using regs(1) by (auto simp: store_value_def known_type_def split: if_splits)
    then show ?thesis using regs(2) by simp
  qed
next
  case False
  then show ?thesis using assms by (simp add: json_command_update_data_def)
qed

section \<open>Examples\<close>

text \<open>An update of address 100 by 40, in an area of \<open>n\<close> registers from address \<open>s\<close>.\<close>

definition demo_update_document :: "string \<Rightarrow> json" where
  "demo_update_document datatype = JObject [(''type'', JString ''holding''), (''address'', JNumber 0x4059000000000000),
     (''datatype'', JString datatype), (''byte_order'', JString ''swap''), (''value'', JNumber 0x4044000000000000)]"

definition demo_mapping :: "int \<Rightarrow> nat \<Rightarrow> modbus_mapping" where
  "demo_mapping s n = \<lparr>nb_bits = 0, start_bits = 0, nb_input_bits_of = 0, start_input_bits = 0, nb_input_registers = 0,
     start_input_registers = 0, nb_registers = int n, start_registers = s, tab_bits = [], tab_input_bits = [],
     tab_input_registers = [], tab_registers = replicate n 0\<rparr>"

definition demo_area :: "int \<Rightarrow> nat \<Rightarrow> modbus_config" where
  "demo_area s n = default_config\<lparr>holding_regs_start := s, nb_holding_regs := int n\<rparr>"

lemma demo_update_members: "update_members (demo_update_document datatype) = Some (100, datatype, ORDER_SWAP, JNumber 0x4044000000000000)"
  by (simp add: update_members_def demo_update_document_def cJSON_GetObjectItemCaseSensitive_def demo_modbus_numbers
      parse_byte_order_def strcasecmp_def tolower_def del: valueint.simps)

lemma demo_update_no_command: "mode_command (demo_update_document datatype) state running = None"
  by (simp add: mode_command_def demo_update_document_def cJSON_GetObjectItemCaseSensitive_def)

lemma demo_mapping_simps [simp]: "nb_registers (demo_mapping s n) = int n" "length (tab_registers (demo_mapping s n)) = n"
  "start_registers (demo_mapping s n) = s" "holding_regs_start (demo_area s n) = s" "nb_holding_regs (demo_area s n) = int n"
  by (simp_all add: demo_mapping_def demo_area_def)

text \<open>The value 70000 does not fit 16 bits, 3000000000 does not fit int.\<close>

definition large_update_document :: "string \<Rightarrow> f64 \<Rightarrow> json" where
  "large_update_document datatype d = JObject [(''type'', JString ''holding''), (''address'', JNumber 0x4059000000000000),
     (''datatype'', JString datatype), (''byte_order'', JString ''swap''), (''value'', JNumber d)]"

lemma large_values: "valueint (JNumber 0x40F1170000000000) = 70000" "valueint (JNumber 0x41E65A0BC0000000) = 2147483647"
  by (simp_all add: saturate_int_def f64_val_def fp_decode_def fv_le_def fp_emin_def Let_def signed_def)

lemma large_update_members: "update_members (large_update_document datatype d) = Some (100, datatype, ORDER_SWAP, JNumber d)"
  by (simp add: update_members_def large_update_document_def cJSON_GetObjectItemCaseSensitive_def demo_modbus_numbers
      parse_byte_order_def strcasecmp_def tolower_def del: valueint.simps)

lemma large_update_no_command: "mode_command (large_update_document datatype d) state running = None"
  by (simp add: mode_command_def large_update_document_def cJSON_GetObjectItemCaseSensitive_def)

theorem update_read_back_witness:
  "\<exists>regs regs' regs''. process_json (\<lambda>t. Some (demo_update_document ''int32'')) (demo_area 100 40) [] (Some (demo_mapping 100 40)) STATE_RUNNING True =
      Returns ([updated_line 100 ''int32''], Some (demo_mapping 100 40\<lparr>tab_registers := regs\<rparr>), STATE_RUNNING, True) \<and>
    read_value ''int32'' ORDER_SWAP (take 2 regs) = 40 \<and>
    process_json (\<lambda>t. Some (large_update_document ''uint16'' 0x40F1170000000000)) (demo_area 100 40) [] (Some (demo_mapping 100 40)) STATE_RUNNING True =
      Returns ([updated_line 100 ''uint16''], Some (demo_mapping 100 40\<lparr>tab_registers := regs'\<rparr>), STATE_RUNNING, True) \<and>
    read_value ''uint16'' ORDER_SWAP (take 1 regs') = 4464 \<and>
    process_json (\<lambda>t. Some (large_update_document ''uint32'' 0x41E65A0BC0000000)) (demo_area 100 40) [] (Some (demo_mapping 100 40)) STATE_RUNNING True =
      Returns ([updated_line 100 ''uint32''], Some (demo_mapping 100 40\<lparr>tab_registers := regs''\<rparr>), STATE_RUNNING, True) \<and>
    read_value ''uint32'' ORDER_SWAP (take 2 regs'') = 2147483647"
proof -
  have facts: "cJSON_IsNumber (Some (JNumber d))" "known_type ''int32''" "register_width ''int32'' = 2" "known_type ''uint16''"
    "register_width ''uint16'' = 1" "known_type ''uint32''" "register_width ''uint32'' = 2" for d
    by (simp_all add: known_type_def register_width_def)
  have results: "reduced_value ''int32'' (JNumber 0x4044000000000000) = 40" "reduced_value ''uint16'' (JNumber 0x40F1170000000000) = 4464"
    "reduced_value ''uint32'' (JNumber 0x41E65A0BC0000000) = 2147483647"
    by (simp_all only: reduced_value_def demo_modbus_numbers large_values) (simp_all add: signed_residue_def)
  show ?thesis
    using update_read_back [of "\<lambda>t. Some (demo_update_document ''int32'')" "[]", OF refl demo_update_no_command demo_update_members facts(1,2),
        of "demo_mapping 100 40" "demo_area 100 40" STATE_RUNNING True]
      update_read_back [of "\<lambda>t. Some (large_update_document ''uint16'' 0x40F1170000000000)" "[]", OF refl large_update_no_command
        large_update_members facts(1,4), of "demo_mapping 100 40" "demo_area 100 40" STATE_RUNNING True]
      update_read_back [of "\<lambda>t. Some (large_update_document ''uint32'' 0x41E65A0BC0000000)" "[]", OF refl large_update_no_command
        large_update_members facts(1,6), of "demo_mapping 100 40" "demo_area 100 40" STATE_RUNNING True] results
    by (simp add: facts) blast
qed

theorem last_register_overflow_witness:
  "process_json (\<lambda>t. Some (demo_update_document ''float'')) (demo_area 61 40) [] (Some (demo_mapping 61 40)) STATE_RUNNING True = Undefined"
proof -
  have facts: "cJSON_IsNumber (Some (JNumber 0x4044000000000000))" "known_type ''float''" "register_width ''float'' = 2"
    by (simp_all add: known_type_def register_width_def)
  show ?thesis
    using last_register_overflow [of "\<lambda>t. Some (demo_update_document ''float'')" "[]", OF refl demo_update_no_command demo_update_members facts,
        of "demo_mapping 61 40" "demo_area 61 40" STATE_RUNNING True] by simp
qed

theorem update_before_ready_witness:
  "process_json (\<lambda>t. Some (demo_update_document ''uint16'')) (demo_area 100 40) [] None STATE_RUNNING True = Undefined"
  using update_before_ready [of "\<lambda>t. Some (demo_update_document ''uint16'')" "[]", OF refl demo_update_no_command demo_update_members,
      of "demo_area 100 40" STATE_RUNNING True] by simp

theorem servers_agree_from_zero_witness:
  "obind (json_command_process (\<lambda>t. Some (demo_update_document ''uint32'')) [] (Some (demo_mapping 0 101)) STATE_RUNNING True) (\<lambda>(out, r). Returns r)
     = obind (process_json (\<lambda>t. Some (demo_update_document ''uint32'')) (demo_area 0 101) [] (Some (demo_mapping 0 101)) STATE_RUNNING True)
         (\<lambda>(out, r). Returns r)"
  using servers_agree_from_zero [of "demo_area 0 101" "demo_mapping 0 101" "\<lambda>t. Some (demo_update_document ''uint32'')" "[]" STATE_RUNNING True]
  by simp

theorem area_start_ignored_witness:
  "\<exists>out mb. json_command_update_data (\<lambda>t. Some (demo_update_document ''uint16'')) [] (Some (demo_mapping 60 120)) = Returns (0, out, Some mb) \<and>
     tab_registers mb ! 40 = 0"
proof -
  have "\<exists>out mb. json_command_update_data (\<lambda>t. Some (demo_update_document ''uint16'')) [] (Some (demo_mapping 60 120)) = Returns (0, out, Some mb)"
    by (simp add: json_command_update_data_def demo_update_members store_value_def set_register_def Let_def)
  then obtain out mb where run:
    "json_command_update_data (\<lambda>t. Some (demo_update_document ''uint16'')) [] (Some (demo_mapping 60 120)) = Returns (0, out, Some mb)"
    by blast
  have "tab_registers mb ! 40 = tab_registers (demo_mapping 60 120) ! 40"
    using area_start_ignored [OF refl demo_update_members _ _ _ run] by simp
  moreover have "tab_registers (demo_mapping 60 120) ! 40 = 0" by (simp add: demo_mapping_def)
  ultimately show ?thesis using run by auto
qed

end
