(* ===== verification/Modbus_Backend.thy ===== *)
theory Modbus_Backend
  imports Modbus_Registers
begin

text \<open>
  The connections of the Modbus servers: \<open>adapters/modbus_backend.c\<close>, \<open>tcp_adapter.c\<close> and \<open>rtu_adapter.c\<close> of
  \<open>modbus-server/src\<close>. The results of the calls of libmodbus during one step are a parameter. A context is
  represented by whether it exists. Besides the fields of \<open>ModbusBackend\<close> the record has the
  descriptors that were opened and closed so far.
\<close>

section \<open>State\<close>

definition MAX_TCP_CLIENTS :: nat where "MAX_TCP_CLIENTS = 10"

record modbus_backend =
  ctx_tcp :: bool
  ctx_rtu :: bool
  mapping :: "modbus_mapping option"
  tcp_listen_sock :: int
  tcp_conn_socks :: "int list"
  tcp_conn_count :: int
  opened :: "int list"
  closed :: "int list"

definition modbus_backend_create :: modbus_backend where
  "modbus_backend_create = \<lparr>ctx_tcp = False, ctx_rtu = False, mapping = None, tcp_listen_sock = -1,
     tcp_conn_socks = replicate MAX_TCP_CLIENTS (-1), tcp_conn_count = 0, opened = [], closed = []\<rparr>"

text \<open>
  Results of the library: a context or NULL; a descriptor or -1; the number of bytes of a query, with its bytes, or -1;
  the reply to a query, which may change the mapping, and whether it could be sent; whether \<open>errno\<close> is
  \<open>EAGAIN\<close> after an error of the serial line.
\<close>

record libmodbus =
  lib_new_tcp :: bool
  lib_listen :: int
  lib_accept :: int
  lib_receive :: "int \<Rightarrow> int \<times> bytes"
  lib_reply :: "bytes \<Rightarrow> int \<Rightarrow> modbus_mapping \<Rightarrow> int \<times> modbus_mapping"
  lib_new_rtu :: bool
  lib_rtu_socket :: int
  lib_connect :: int
  lib_rtu_receive :: "int \<times> bytes"
  lib_again :: bool
  lib_mapping :: "modbus_config \<Rightarrow> modbus_mapping option"

definition open_fd :: "int \<Rightarrow> modbus_backend \<Rightarrow> modbus_backend" where
  "open_fd fd b = b\<lparr>opened := fd # opened b\<rparr>"

definition platform_close_fd :: "int \<Rightarrow> modbus_backend \<Rightarrow> modbus_backend" where
  "platform_close_fd fd b = b\<lparr>closed := fd # closed b\<rparr>"

section \<open>TCP\<close>

definition tcp_adapter_init :: "libmodbus \<Rightarrow> modbus_backend \<Rightarrow> int \<times> modbus_backend" where
  "tcp_adapter_init lib b =
     (if \<not> lib_new_tcp lib then (-1, b\<lparr>ctx_tcp := False\<rparr>)
      else if lib_listen lib = -1 then (-1, b\<lparr>ctx_tcp := False, tcp_listen_sock := -1\<rparr>)
      else (0, open_fd (lib_listen lib) (b\<lparr>ctx_tcp := True, tcp_listen_sock := lib_listen lib,
              tcp_conn_socks := replicate MAX_TCP_CLIENTS (-1), tcp_conn_count := 0\<rparr>)))"

definition find_free_tcp_client_slot :: "modbus_backend \<Rightarrow> nat option" where
  "find_free_tcp_client_slot b = first_index (\<lambda>s. s = -1) (tcp_conn_socks b)"

text \<open>The result is the slot, or -1. A client for whom there is no slot is accepted and closed at once.\<close>

definition tcp_adapter_accept_client :: "libmodbus \<Rightarrow> modbus_backend \<Rightarrow> int \<times> modbus_backend" where
  "tcp_adapter_accept_client lib b = (case find_free_tcp_client_slot b of
     None \<Rightarrow> (-1, if lib_accept lib \<noteq> -1 then platform_close_fd (lib_accept lib) (open_fd (lib_accept lib) b) else b)
   | Some slot \<Rightarrow> if lib_accept lib = -1 then (-1, b)
       else (int slot, (open_fd (lib_accept lib) b)\<lparr>tcp_conn_socks := (tcp_conn_socks b)[slot := lib_accept lib],
              tcp_conn_count := tcp_conn_count b + 1\<rparr>))"

text \<open>A query is answered from the mapping; no query can be answered without one.\<close>

definition modbus_reply :: "libmodbus \<Rightarrow> bytes \<Rightarrow> int \<Rightarrow> modbus_backend \<Rightarrow> (int \<times> modbus_backend) outcome" where
  "modbus_reply lib query rc b = (case mapping b of None \<Rightarrow> Undefined
     | Some mb \<Rightarrow> (let (r, mb) = lib_reply lib query rc mb in Returns (r, b\<lparr>mapping := Some mb\<rparr>)))"

definition tcp_adapter_handle_client :: "libmodbus \<Rightarrow> int \<Rightarrow> modbus_backend \<Rightarrow> (int \<times> modbus_backend) outcome" where
  "tcp_adapter_handle_client lib client_index b =
     (if client_index < 0 \<or> client_index \<ge> int MAX_TCP_CLIENTS then Returns (-1, b)
      else let sock = tcp_conn_socks b ! nat client_index
           in if sock = -1 then Returns (-1, b)
              else let (rc, query) = lib_receive lib sock
                   in if rc > 0 then obind (modbus_reply lib query rc b) (\<lambda>(r, b). Returns (if r = -1 then -1 else 1, b))
                      else if rc = -1 then
                        Returns (-1, (platform_close_fd sock b)\<lparr>tcp_conn_socks := (tcp_conn_socks b)[nat client_index := -1],
                          tcp_conn_count := tcp_conn_count b - 1\<rparr>)
                      else Returns (0, b))"

fun close_clients :: "int list \<Rightarrow> modbus_backend \<Rightarrow> modbus_backend" where
  "close_clients [] b = b"
| "close_clients (s # ss) b = close_clients ss (if s \<noteq> -1 then platform_close_fd s b else b)"

definition tcp_adapter_cleanup :: "modbus_backend \<Rightarrow> modbus_backend" where
  "tcp_adapter_cleanup b =
     (let b = (close_clients (tcp_conn_socks b) b)\<lparr>tcp_conn_socks := map (\<lambda>s. -1) (tcp_conn_socks b), tcp_conn_count := 0\<rparr>;
          b = (if tcp_listen_sock b \<noteq> -1 then (platform_close_fd (tcp_listen_sock b) b)\<lparr>tcp_listen_sock := -1\<rparr> else b)
      in b\<lparr>ctx_tcp := False\<rparr>)"

section \<open>Serial line\<close>

definition rtu_adapter_init :: "libmodbus \<Rightarrow> modbus_backend \<Rightarrow> int \<times> modbus_backend" where
  "rtu_adapter_init lib b =
     (if \<not> lib_new_rtu lib then (-1, b\<lparr>ctx_rtu := False\<rparr>)
      else if lib_connect lib = -1 then (-1, b\<lparr>ctx_rtu := False\<rparr>)
      else (0, b\<lparr>ctx_rtu := True\<rparr>))"

definition rtu_adapter_cleanup :: "modbus_backend \<Rightarrow> modbus_backend" where
  "rtu_adapter_cleanup b = b\<lparr>ctx_rtu := False\<rparr>"

definition rtu_adapter_handle :: "libmodbus \<Rightarrow> modbus_backend \<Rightarrow> (int \<times> modbus_backend) outcome" where
  "rtu_adapter_handle lib b =
     (if \<not> ctx_rtu b then Returns (-1, b)
      else let (rc, query) = lib_rtu_receive lib
           in if rc > 0 then obind (modbus_reply lib query rc b) (\<lambda>(r, b). Returns (if r = -1 then -1 else 1, b))
              else if rc = -1 then
                if \<not> lib_again lib then Returns (-1, rtu_adapter_cleanup b) else Returns (0, b)
              else Returns (0, b))"

definition rtu_adapter_reconnect :: "libmodbus \<Rightarrow> modbus_backend \<Rightarrow> int \<times> modbus_backend" where
  "rtu_adapter_reconnect lib b = rtu_adapter_init lib (rtu_adapter_cleanup b)"

section \<open>The single file server\<close>

text \<open>
  Its globals are a configuration, the fields of a backend, the state and the flag \<open>running\<close>; the printed
  lines are kept in order. Before the first start every entry of the array of clients is 0.
\<close>

record modbus_server =
  cfg :: modbus_config
  backend :: modbus_backend
  server_state :: server_mode
  running :: bool
  printed :: "string list"

definition initial_modbus_server :: "modbus_config \<Rightarrow> modbus_server" where
  "initial_modbus_server c = \<lparr>cfg = c, backend = modbus_backend_create\<lparr>tcp_conn_socks := replicate MAX_TCP_CLIENTS 0\<rparr>,
     server_state = STATE_RUNNING, running = True, printed = [''{\"ready\":true}'']\<rparr>"

definition print_line :: "string \<Rightarrow> modbus_server \<Rightarrow> modbus_server" where
  "print_line l s = s\<lparr>printed := printed s @ [l]\<rparr>"

definition signal_handler :: "modbus_server \<Rightarrow> modbus_server" where
  "signal_handler s = s\<lparr>server_state := STATE_STOPPED, running := False\<rparr>"

text \<open>
  What happens during one pass of the loop: a signal during \<open>select\<close>, its result, whether it was interrupted,
  which descriptors are ready, the line on standard input (None at its end), and the calls of the
  library when starting and when serving.
\<close>

record pass_events =
  ev_signal :: bool
  ev_select :: int
  ev_eintr :: bool
  ev_ready :: "int \<Rightarrow> bool"
  ev_line :: "string option"
  ev_start :: libmodbus
  ev_serve :: libmodbus

text \<open>The descriptors given to \<open>select\<close>.\<close>

definition watched :: "libmodbus \<Rightarrow> modbus_server \<Rightarrow> int list" where
  "watched lib s = 0 # (if server_state s = STATE_RUNNING then
       (if enable_tcp (cfg s) \<and> tcp_listen_sock (backend s) \<noteq> -1 then [tcp_listen_sock (backend s)] else []) @
       (if enable_tcp (cfg s) then filter (\<lambda>fd. fd \<noteq> -1) (tcp_conn_socks (backend s)) else []) @
       (if enable_rtu (cfg s) \<and> ctx_rtu (backend s) \<and> lib_rtu_socket lib \<noteq> -1 then [lib_rtu_socket lib] else [])
     else [])"

definition handle_stdin :: "(string \<Rightarrow> json option) \<Rightarrow> string option \<Rightarrow> modbus_server \<Rightarrow> modbus_server outcome" where
  "handle_stdin parse line s = (case line of
     Some l \<Rightarrow> obind (process_json parse (cfg s) l (mapping (backend s)) (server_state s) (running s)) (\<lambda>(out, mb, st, r).
       Returns (s\<lparr>backend := (backend s)\<lparr>mapping := mb\<rparr>, server_state := st, running := r, printed := printed s @ out\<rparr>))
   | None \<Rightarrow> Returns (s\<lparr>running := False, server_state := STATE_STOPPED\<rparr>))"

text \<open>Starting: False when a part fails and the pass is given up.\<close>

definition start_tcp :: "libmodbus \<Rightarrow> modbus_backend \<Rightarrow> bool \<times> modbus_backend" where
  "start_tcp lib b =
     (let b = b\<lparr>ctx_tcp := lib_new_tcp lib\<rparr>
      in if \<not> lib_new_tcp lib then (False, b)
         else let b = b\<lparr>tcp_listen_sock := lib_listen lib\<rparr>
              in if lib_listen lib = -1 then (False, b)
                 else (True, open_fd (lib_listen lib) (b\<lparr>tcp_conn_socks := replicate MAX_TCP_CLIENTS (-1), tcp_conn_count := 0\<rparr>)))"

definition start_rtu :: "libmodbus \<Rightarrow> modbus_backend \<Rightarrow> bool \<times> modbus_backend" where
  "start_rtu lib b =
     (let b = b\<lparr>ctx_rtu := lib_new_rtu lib\<rparr>
      in if \<not> lib_new_rtu lib then (False, b)
         else if lib_connect lib = -1 then (False, b\<lparr>ctx_rtu := False\<rparr>)
         else (True, b))"

definition ready_line :: "modbus_config \<Rightarrow> string" where
  "ready_line c = ''{\"status\":\"server_ready\",\"tcp\":'' @ (if enable_tcp c then ''true'' else ''false'') @ '',\"rtu\":'' @
     (if enable_rtu c then ''true'' else ''false'') @ '',\"unit_id\":'' @ dec_int (unit_id c) @ ''}''"

definition start_server :: "libmodbus \<Rightarrow> modbus_server \<Rightarrow> bool \<times> modbus_server" where
  "start_server lib s =
     (let (ok, b) = (if enable_tcp (cfg s) then start_tcp lib (backend s) else (True, backend s))
      in if \<not> ok then (False, s\<lparr>backend := b\<rparr>)
         else let (ok, b) = (if enable_rtu (cfg s) then start_rtu lib b else (True, b))
              in if \<not> ok then (False, s\<lparr>backend := b\<rparr>)
                 else (case lib_mapping lib (cfg s) of
                     None \<Rightarrow> (False, s\<lparr>backend := b\<lparr>mapping := None\<rparr>\<rparr>)
                   | Some mb \<Rightarrow> (True, print_line (ready_line (cfg s)) (s\<lparr>backend := b\<lparr>mapping := Some mb\<rparr>\<rparr>))))"

text \<open>Stopping, and the clean-up at the end.\<close>

definition stop_server :: "modbus_server \<Rightarrow> modbus_server" where
  "stop_server s =
     (let b = (if enable_tcp (cfg s) then tcp_adapter_cleanup (backend s) else backend s);
          b = (if enable_rtu (cfg s) then rtu_adapter_cleanup b else b)
      in s\<lparr>backend := b\<lparr>mapping := None\<rparr>\<rparr>)"

definition serve_listen :: "libmodbus \<Rightarrow> modbus_backend \<Rightarrow> modbus_backend" where
  "serve_listen lib b = (case find_free_tcp_client_slot b of
     Some slot \<Rightarrow> if lib_accept lib \<noteq> -1 then
         (open_fd (lib_accept lib) b)\<lparr>tcp_conn_socks := (tcp_conn_socks b)[slot := lib_accept lib], tcp_conn_count := tcp_conn_count b + 1\<rparr>
       else b
   | None \<Rightarrow> if lib_accept lib \<noteq> -1 then platform_close_fd (lib_accept lib) (open_fd (lib_accept lib) b) else b)"

definition serve_client :: "libmodbus \<Rightarrow> (int \<Rightarrow> bool) \<Rightarrow> nat \<Rightarrow> modbus_backend \<Rightarrow> modbus_backend outcome" where
  "serve_client lib isset i b =
     (let sock = tcp_conn_socks b ! i
      in if sock \<noteq> -1 \<and> isset sock then
           let (rc, query) = lib_receive lib sock
           in if rc > 0 then obind (modbus_reply lib query rc b) (\<lambda>(_, b). Returns b)
              else if rc = -1 then
                Returns ((platform_close_fd sock b)\<lparr>tcp_conn_socks := (tcp_conn_socks b)[i := -1], tcp_conn_count := tcp_conn_count b - 1\<rparr>)
              else Returns b
         else Returns b)"

fun serve_clients :: "libmodbus \<Rightarrow> (int \<Rightarrow> bool) \<Rightarrow> nat list \<Rightarrow> modbus_backend \<Rightarrow> modbus_backend outcome" where
  "serve_clients lib isset [] b = Returns b"
| "serve_clients lib isset (i # is) b = obind (serve_client lib isset i b) (serve_clients lib isset is)"

definition serve_rtu :: "libmodbus \<Rightarrow> (int \<Rightarrow> bool) \<Rightarrow> modbus_backend \<Rightarrow> modbus_backend outcome" where
  "serve_rtu lib isset b =
     (if ctx_rtu b \<and> lib_rtu_socket lib \<noteq> -1 \<and> isset (lib_rtu_socket lib) then
        let (rc, query) = lib_rtu_receive lib
        in if rc > 0 then obind (modbus_reply lib query rc b) (\<lambda>(_, b). Returns b)
           else if rc = -1 \<and> \<not> lib_again lib then Returns (b\<lparr>ctx_rtu := False\<rparr>)
           else Returns b
      else Returns b)"

definition reconnect :: "libmodbus \<Rightarrow> modbus_backend \<Rightarrow> modbus_backend" where
  "reconnect lib b = (if \<not> ctx_rtu b then b\<lparr>ctx_rtu := lib_new_rtu lib \<and> lib_connect lib \<noteq> -1\<rparr> else b)"

definition serve :: "libmodbus \<Rightarrow> (int \<Rightarrow> bool) \<Rightarrow> modbus_config \<Rightarrow> modbus_backend \<Rightarrow> modbus_backend outcome" where
  "serve lib isset c b =
     (let b = (if enable_tcp c \<and> tcp_listen_sock b \<noteq> -1 \<and> isset (tcp_listen_sock b) then serve_listen lib b else b)
      in obind (if enable_tcp c then serve_clients lib isset [0..<MAX_TCP_CLIENTS] b else Returns b) (\<lambda>b.
         obind (if enable_rtu c then serve_rtu lib isset b else Returns b) (\<lambda>b.
           Returns (if enable_rtu c then reconnect lib b else b))))"

text \<open>One pass; False when the loop is left by \<open>break\<close>.\<close>

definition stop_phase :: "modbus_server \<Rightarrow> modbus_server" where
  "stop_phase s = (if server_state s = STATE_STOPPED \<and> mapping (backend s) \<noteq> None
     then print_line ''{\"status\":\"server_stopped\"}'' (stop_server s) else s)"

definition serve_phase :: "pass_events \<Rightarrow> (int \<Rightarrow> bool) \<Rightarrow> modbus_server \<Rightarrow> modbus_server outcome" where
  "serve_phase e isset s = (if server_state s = STATE_RUNNING \<and> ev_select e > 0
     then obind (serve (ev_serve e) isset (cfg s) (backend s)) (\<lambda>b. Returns (s\<lparr>backend := b\<rparr>)) else Returns s)"

definition main_pass :: "(string \<Rightarrow> json option) \<Rightarrow> pass_events \<Rightarrow> modbus_server \<Rightarrow> (bool \<times> modbus_server) outcome" where
  "main_pass parse e s =
     (let fds = watched (ev_serve e) s; s = (if ev_signal e then signal_handler s else s);
          isset = (\<lambda>fd. ev_select e > 0 \<and> fd \<in> set fds \<and> ev_ready e fd)
      in if ev_select e < 0 then Returns (ev_eintr e, s)
         else obind (if isset 0 then handle_stdin parse (ev_line e) s else Returns s) (\<lambda>s.
           let (ok, s) = (if server_state s = STATE_RUNNING \<and> mapping (backend s) = None then start_server (ev_start e) s else (True, s))
           in if \<not> ok then Returns (True, s)
              else obind (serve_phase e isset (stop_phase s)) (\<lambda>s. Returns (True, s))))"

definition final_cleanup :: "modbus_server \<Rightarrow> modbus_server" where
  "final_cleanup s = print_line ''{\"status\":\"exited\"}'' (if mapping (backend s) \<noteq> None then stop_server s else s)"

text \<open>The loop over the passes, as far as events are given; None when it has not ended with them.\<close>

fun main_loop :: "(string \<Rightarrow> json option) \<Rightarrow> pass_events list \<Rightarrow> modbus_server \<Rightarrow> (bool \<times> modbus_server) outcome" where
  "main_loop parse [] s = Returns (\<not> running s, s)"
| "main_loop parse (e # es) s =
     (if running s then obind (main_pass parse e s) (\<lambda>(go_on, s). if go_on then main_loop parse es s else Returns (True, s))
      else Returns (True, s))"

end
