(* ===== verification/Modbus_Server.thy ===== *)
theory Modbus_Server
  imports Modbus_Backend "HOL-Library.Multiset"
begin

text \<open>
  Properties of the Modbus servers: every descriptor is accounted for, what the command \<open>start\<close> can do,
  and a start that fails half way. The loop of the single file server does the same to its
  connections as the TCP adapter of the modular one.
\<close>

section \<open>Accounts of descriptors\<close>

definition held :: "modbus_backend \<Rightarrow> int multiset" where
  "held b = filter_mset (\<lambda>s. s \<noteq> -1) (mset (tcp_listen_sock b # tcp_conn_socks b))"

text \<open>Ten slots, the counter is the number of those in use, and what was opened is either closed or still held.\<close>

definition accounts_ok :: "modbus_backend \<Rightarrow> bool" where
  "accounts_ok b \<longleftrightarrow> length (tcp_conn_socks b) = MAX_TCP_CLIENTS \<and>
     tcp_conn_count b = int (length (filter (\<lambda>s. s \<noteq> -1) (tcp_conn_socks b))) \<and>
     mset (opened b) = mset (closed b) + held b"

lemma filter_update:
  "i < length xs \<Longrightarrow> filter_mset P (mset (xs[i := v])) + (if P (xs ! i) then {#xs ! i#} else {#}) =
     filter_mset P (mset xs) + (if P v then {#v#} else {#})"
proof (induction xs arbitrary: i)
  case (Cons x xs)
  show ?case
  proof (cases i)
    case (Suc j)
    then have "filter_mset P (mset (xs[j := v])) + (if P (xs ! j) then {#xs ! j#} else {#}) =
        filter_mset P (mset xs) + (if P v then {#v#} else {#})" using Cons by simp
    then show ?thesis using Suc by (auto split: if_splits)
  qed simp
qed simp

lemma length_filter_mset: "length (filter P xs) = size (filter_mset P (mset xs))"
  by (simp flip: mset_filter)

lemma find_free_slot: "find_free_tcp_client_slot b = Some i \<Longrightarrow> i < length (tcp_conn_socks b) \<and> tcp_conn_socks b ! i = -1"
  by (auto simp: find_free_tcp_client_slot_def dest: first_index_SomeD)

text \<open>Opening and closing a client.\<close>

lemma accounts_open:
  assumes "accounts_ok b" "i < length (tcp_conn_socks b)" "tcp_conn_socks b ! i = -1" "fd \<noteq> -1"
  shows "accounts_ok ((open_fd fd b)\<lparr>tcp_conn_socks := (tcp_conn_socks b)[i := fd], tcp_conn_count := tcp_conn_count b + 1\<rparr>)"
proof -
  have "filter_mset (\<lambda>s. s \<noteq> -1) (mset ((tcp_conn_socks b)[i := fd])) = add_mset fd (filter_mset (\<lambda>s. s \<noteq> -1) (mset (tcp_conn_socks b)))"
    using filter_update [OF assms(2), of "\<lambda>s. s \<noteq> -1" fd] assms(3,4) by simp
  then show ?thesis using assms(1) by (simp add: accounts_ok_def held_def open_fd_def length_filter_mset)
qed

lemma accounts_close:
  assumes "accounts_ok b" "i < length (tcp_conn_socks b)" "tcp_conn_socks b ! i = fd" "fd \<noteq> -1"
  shows "accounts_ok ((platform_close_fd fd b)\<lparr>tcp_conn_socks := (tcp_conn_socks b)[i := -1], tcp_conn_count := tcp_conn_count b - 1\<rparr>)"
proof -
  have "filter_mset (\<lambda>s. s \<noteq> -1) (mset (tcp_conn_socks b)) = add_mset fd (filter_mset (\<lambda>s. s \<noteq> -1) (mset ((tcp_conn_socks b)[i := -1])))"
    using filter_update [OF assms(2), of "\<lambda>s. s \<noteq> -1" "-1"] assms(3,4) by simp
  then show ?thesis using assms(1) by (simp add: accounts_ok_def held_def platform_close_fd_def length_filter_mset)
qed

lemma accounts_reject: "accounts_ok b \<Longrightarrow> accounts_ok (platform_close_fd fd (open_fd fd b))"
  by (simp add: accounts_ok_def held_def platform_close_fd_def open_fd_def)

lemma accounts_other: "accounts_ok b \<Longrightarrow> accounts_ok (b\<lparr>mapping := mb\<rparr>)" "accounts_ok b \<Longrightarrow> accounts_ok (b\<lparr>ctx_rtu := r\<rparr>)"
  "accounts_ok b \<Longrightarrow> accounts_ok (b\<lparr>ctx_tcp := r\<rparr>)"
  by (simp_all add: accounts_ok_def held_def)

lemma accounts_accept: "accounts_ok b \<Longrightarrow> accounts_ok (snd (tcp_adapter_accept_client lib b))"
  using find_free_slot accounts_open accounts_reject
  by (auto simp: tcp_adapter_accept_client_def split: option.splits)

lemma modbus_reply_keeps: "modbus_reply lib query rc b = Returns (r, b') \<Longrightarrow> \<exists>mb. mapping b \<noteq> None \<and> b' = b\<lparr>mapping := Some mb\<rparr>"
  by (auto simp: modbus_reply_def split: option.splits prod.splits)

lemma accounts_handle:
  assumes "accounts_ok b" "tcp_adapter_handle_client lib i b = Returns (r, b')"
  shows "accounts_ok b'"
proof -
  have len: "length (tcp_conn_socks b) = MAX_TCP_CLIENTS" using assms(1) by (simp add: accounts_ok_def)
  let ?sock = "tcp_conn_socks b ! nat i"
  consider "b' = b" | mb where "b' = b\<lparr>mapping := Some mb\<rparr>"
    | "0 \<le> i" "i < int MAX_TCP_CLIENTS" "?sock \<noteq> -1"
      "b' = (platform_close_fd ?sock b)\<lparr>tcp_conn_socks := (tcp_conn_socks b)[nat i := -1], tcp_conn_count := tcp_conn_count b - 1\<rparr>"
  proof (cases "i < 0 \<or> i \<ge> int MAX_TCP_CLIENTS \<or> ?sock = -1")
    case True
    then have "b' = b" using assms(2) by (auto simp: tcp_adapter_handle_client_def Let_def split: if_splits)
    then show ?thesis by (rule that(1))
  next
    case False
    obtain rc query where r: "lib_receive lib ?sock = (rc, query)" by (cases "lib_receive lib ?sock")
    have h: "(if rc > 0 then obind (modbus_reply lib query rc b) (\<lambda>(r, b). Returns (if r = -1 then -1 else 1, b))
       else if rc = -1 then
         Returns (-1, (platform_close_fd ?sock b)\<lparr>tcp_conn_socks := (tcp_conn_socks b)[nat i := -1], tcp_conn_count := tcp_conn_count b - 1\<rparr>)
       else Returns (0, b)) = Returns (r, b')"
      using assms(2) False r unfolding tcp_adapter_handle_client_def Let_def by simp
    show ?thesis
    proof (cases "rc > 0")
      case True
      then obtain q where "modbus_reply lib query rc b = Returns (q, b')" using h by (auto simp: obind_Returns)
      then show ?thesis using modbus_reply_keeps that(2) by blast
    next
      case rc: False
      show ?thesis
      proof (cases "rc = -1")
        case True
        then show ?thesis using h False by (intro that(3)) auto
      next
        case False
        then show ?thesis using h rc by (intro that(1)) simp
      qed
    qed
  qed
  then show ?thesis
  proof cases
    case 2
    then show ?thesis using accounts_other(1) [OF assms(1)] by simp
  next
    case 3
    then have "nat i < length (tcp_conn_socks b)" using len by linarith
    then show ?thesis using accounts_close [OF assms(1) _ refl 3(3)] 3(4) by simp
  qed (use assms(1) in simp)
qed

text \<open>After the clean-up nothing is held.\<close>

lemma close_clients_simps [simp]: "opened (close_clients ss b) = opened b" "tcp_listen_sock (close_clients ss b) = tcp_listen_sock b"
  "tcp_conn_socks (close_clients ss b) = tcp_conn_socks b" "mapping (close_clients ss b) = mapping b" "ctx_rtu (close_clients ss b) = ctx_rtu b"
  by (induction ss b rule: close_clients.induct) (auto simp: platform_close_fd_def)

lemma close_clients_closed: "mset (closed (close_clients ss b)) = mset (closed b) + filter_mset (\<lambda>s. s \<noteq> -1) (mset ss)"
  by (induction ss b rule: close_clients.induct) (auto simp: platform_close_fd_def)

lemma cleanup_accounts:
  assumes "accounts_ok b"
  shows "accounts_ok (tcp_adapter_cleanup b) \<and> held (tcp_adapter_cleanup b) = {#}"
proof -
  have [simp]: "filter_mset (\<lambda>s. s \<noteq> -1) (mset (map (\<lambda>s. -1) xs)) = {#}" "filter (\<lambda>s. s \<noteq> -1) (map (\<lambda>s. -1 :: int) xs) = []" for xs :: "int list"
    by (induction xs) simp_all
  show ?thesis using assms
    by (auto simp: accounts_ok_def held_def tcp_adapter_cleanup_def Let_def close_clients_closed platform_close_fd_def)
qed

section \<open>The loop and the adapter\<close>

lemma serve_listen_adapter: "serve_listen lib b = snd (tcp_adapter_accept_client lib b)"
  by (simp add: serve_listen_def tcp_adapter_accept_client_def split: option.splits)

lemma serve_client_adapter:
  assumes "i < MAX_TCP_CLIENTS" "tcp_conn_socks b ! i \<noteq> -1" "isset (tcp_conn_socks b ! i)"
  shows "serve_client lib isset i b = obind (tcp_adapter_handle_client lib (int i) b) (\<lambda>(_, b). Returns b)"
  using assms
  by (cases "modbus_reply lib (snd (lib_receive lib (tcp_conn_socks b ! i))) (fst (lib_receive lib (tcp_conn_socks b ! i))) b")
    (auto simp: serve_client_def tcp_adapter_handle_client_def Let_def split: prod.splits)

lemma accounts_serve_clients:
  "accounts_ok b \<Longrightarrow> \<forall>i \<in> set is. i < MAX_TCP_CLIENTS \<Longrightarrow> serve_clients lib isset is b = Returns b' \<Longrightarrow> accounts_ok b'"
proof (induction "is" arbitrary: b)
  case (Cons i "is")
  obtain c where c: "serve_client lib isset i b = Returns c" "serve_clients lib isset is c = Returns b'"
    using Cons.prems(3) by (auto simp: obind_Returns)
  have "accounts_ok c"
  proof (cases "tcp_conn_socks b ! i \<noteq> -1 \<and> isset (tcp_conn_socks b ! i)")
    case True
    then have "obind (tcp_adapter_handle_client lib (int i) b) (\<lambda>(_, b). Returns b) = Returns c"
      using c(1) serve_client_adapter Cons.prems(2) by simp
    then show ?thesis using accounts_handle [OF Cons.prems(1)] by (auto simp: obind_Returns)
  next
    case False
    then have "c = b" using c(1) by (auto simp: serve_client_def)
    then show ?thesis using Cons.prems(1) by simp
  qed
  then show ?case using Cons c by simp
qed simp

lemma serve_rtu_keeps: "serve_rtu lib isset b = Returns b' \<Longrightarrow> accounts_ok b \<Longrightarrow> accounts_ok b'"
  by (auto simp: serve_rtu_def obind_Returns split: if_splits prod.splits dest!: modbus_reply_keeps intro: accounts_other)

lemma accounts_serve: "serve lib isset c b = Returns b' \<Longrightarrow> accounts_ok b \<Longrightarrow> enable_tcp c \<Longrightarrow> accounts_ok b'"
proof -
  assume s: "serve lib isset c b = Returns b'" and b: "accounts_ok b" and c: "enable_tcp c"
  let ?b = "if enable_tcp c \<and> tcp_listen_sock b \<noteq> -1 \<and> isset (tcp_listen_sock b) then serve_listen lib b else b"
  obtain d e where d: "serve_clients lib isset [0..<MAX_TCP_CLIENTS] ?b = Returns d"
    "(if enable_rtu c then serve_rtu lib isset d else Returns d) = Returns e"
    "b' = (if enable_rtu c then reconnect lib e else e)"
    using s c by (auto simp: serve_def Let_def obind_Returns)
  have "accounts_ok ?b" using b accounts_accept by (simp add: serve_listen_adapter)
  then have "accounts_ok d" using accounts_serve_clients [OF _ _ d(1)] by simp
  then have "accounts_ok e" using d(2) serve_rtu_keeps by (auto split: if_splits)
  then show "accounts_ok b'" using d(3) accounts_other(2) by (simp add: reconnect_def)
qed

section \<open>Passes of the loop\<close>

text \<open>The start is clean when nothing fails behind the listening socket.\<close>

definition starts_clean :: "modbus_config \<Rightarrow> libmodbus \<Rightarrow> bool" where
  "starts_clean c lib \<longleftrightarrow> (enable_rtu c \<longrightarrow> lib_new_rtu lib \<and> lib_connect lib \<noteq> -1) \<and> lib_mapping lib c \<noteq> None"

definition server_ok :: "modbus_config \<Rightarrow> modbus_server \<Rightarrow> bool" where
  "server_ok c s \<longleftrightarrow> cfg s = c \<and> (running s \<longrightarrow> server_state s = STATE_RUNNING) \<and>
     (case mapping (backend s) of None \<Rightarrow> mset (opened (backend s)) = mset (closed (backend s))
      | Some mb \<Rightarrow> accounts_ok (backend s))"

lemma mode_command_keeps: "mode_command root st r = Some (out, st', r') \<Longrightarrow> (r \<longrightarrow> st = STATE_RUNNING) \<Longrightarrow> r' \<longrightarrow> st' = STATE_RUNNING"
  by (auto simp: mode_command_def split: option.splits json.splits if_splits)

lemma process_json_keeps:
  assumes "process_json parse c l mb st r = Returns (out, mb', st', r')"
  shows "(mb' = None \<longleftrightarrow> mb = None) \<and> ((r \<longrightarrow> st = STATE_RUNNING) \<longrightarrow> r' \<longrightarrow> st' = STATE_RUNNING)"
proof (cases "parse l")
  case (Some root)
  show ?thesis
  proof (cases "mode_command root st r")
    case None
    then show ?thesis using assms Some
      by (auto simp: process_json_def Let_def obind_Returns split: option.splits if_splits)
  next
    case (Some a)
    then show ?thesis using assms \<open>parse l = Some root\<close> mode_command_keeps [of root st r]
      by (cases a) (auto simp: process_json_def)
  qed
qed (use assms in \<open>simp add: process_json_def\<close>)

lemma accounts_mapping [simp]: "accounts_ok (b\<lparr>mapping := mb\<rparr>) = accounts_ok b"
  by (simp add: accounts_ok_def held_def)

lemma server_ok_stdin: "handle_stdin parse line s = Returns s' \<Longrightarrow> server_ok c s \<Longrightarrow> server_ok c s'"
  by (cases line) (auto simp: handle_stdin_def obind_Returns server_ok_def split: option.splits dest!: process_json_keeps)

lemma start_tcp_ok:
  assumes "start_tcp lib b = (ok, b')" "mset (opened b) = mset (closed b)"
  shows "if ok then accounts_ok b' else mset (opened b') = mset (closed b')"
proof -
  have [simp]: "filter_mset (\<lambda>s. s \<noteq> -1) (mset (replicate n (-1 :: int))) = {#}" "filter (\<lambda>s. s \<noteq> -1) (replicate n (-1 :: int)) = []" for n
    by (induction n) simp_all
  show ?thesis using assms
    by (auto simp: start_tcp_def Let_def open_fd_def accounts_ok_def held_def split: if_splits)
qed

lemma start_server_ok:
  assumes c: "enable_tcp c" "starts_clean c lib" and s: "server_ok c s" "mapping (backend s) = None"
    and h: "start_server lib s = (ok, s')"
  shows "server_ok c s'"
proof -
  have cfg: "cfg s = c" "mset (opened (backend s)) = mset (closed (backend s))" using s by (simp_all add: server_ok_def)
  obtain t b where t: "start_tcp lib (backend s) = (t, b)" by (cases "start_tcp lib (backend s)")
  note b = start_tcp_ok [OF t cfg(2)]
  have m: "mapping b = None" using t s(2) by (auto simp: start_tcp_def Let_def open_fd_def split: if_splits)
  obtain mb where mb: "lib_mapping lib c = Some mb" using c(2) by (auto simp: starts_clean_def)
  have "start_rtu lib b = (True, b\<lparr>ctx_rtu := True\<rparr>)" if "enable_rtu c"
    using c(2) that by (simp add: start_rtu_def starts_clean_def Let_def)
  then show ?thesis using h s t b m mb c(1) cfg accounts_other(2) [of b True]
    by (cases t; cases "enable_rtu c") (auto simp: start_server_def server_ok_def print_line_def)
qed

lemma server_ok_stop: "server_ok c s \<Longrightarrow> enable_tcp c \<Longrightarrow> mapping (backend s) \<noteq> None \<Longrightarrow>
    mset (opened (backend (stop_server s))) = mset (closed (backend (stop_server s))) \<and> server_ok c (stop_server s)"
  using cleanup_accounts [of "backend s"]
  by (auto simp: server_ok_def stop_server_def Let_def rtu_adapter_cleanup_def accounts_ok_def [of "tcp_adapter_cleanup _"])

lemma serve_mapping: "serve lib isset c b = Returns b' \<Longrightarrow> mapping b \<noteq> None \<Longrightarrow> mapping b' \<noteq> None"
proof -
  have reply: "modbus_reply lib q n b = Returns (r, b') \<Longrightarrow> mapping b' \<noteq> None" for q n b r b'
    by (auto dest: modbus_reply_keeps)
  have client: "serve_client lib isset i b = Returns b' \<Longrightarrow> mapping b \<noteq> None \<Longrightarrow> mapping b' \<noteq> None" for i b b'
    using reply by (auto simp: serve_client_def Let_def obind_Returns platform_close_fd_def split: if_splits prod.splits)
  have clients: "serve_clients lib isset is b = Returns b' \<Longrightarrow> mapping b \<noteq> None \<Longrightarrow> mapping b' \<noteq> None" for "is" b b'
    using client by (induction "is" arbitrary: b) (auto simp: obind_Returns)
  have listen: "mapping b \<noteq> None \<Longrightarrow> mapping (serve_listen lib b) \<noteq> None" for b
    by (auto simp: serve_listen_def open_fd_def platform_close_fd_def split: option.splits)
  have rtu: "serve_rtu lib isset b = Returns b' \<Longrightarrow> mapping b \<noteq> None \<Longrightarrow> mapping b' \<noteq> None" for b b'
    using reply by (auto simp: serve_rtu_def obind_Returns split: if_splits prod.splits)
  assume h: "serve lib isset c b = Returns b'" and b: "mapping b \<noteq> None"
  show ?thesis
    using h b listen clients rtu unfolding serve_def Let_def reconnect_def
    by (elim obindE) (auto split: if_splits)
qed

lemma server_ok_phases: "serve_phase e isset (stop_phase s) = Returns s' \<Longrightarrow> server_ok c s \<Longrightarrow> enable_tcp c \<Longrightarrow>
    (server_state s = STATE_RUNNING \<longrightarrow> mapping (backend s) \<noteq> None) \<Longrightarrow> server_ok c s'"
proof -
  assume h: "serve_phase e isset (stop_phase s) = Returns s'" and s: "server_ok c s" "enable_tcp c"
    and r: "server_state s = STATE_RUNNING \<longrightarrow> mapping (backend s) \<noteq> None"
  show ?thesis
  proof (cases "server_state s")
    case STATE_STOPPED
    then have "s' = stop_phase s"
      using h by (auto simp: serve_phase_def stop_phase_def print_line_def stop_server_def Let_def split: if_splits)
    then show ?thesis using server_ok_stop [OF s] s by (auto simp: stop_phase_def print_line_def server_ok_def split: option.splits)
  next
    case STATE_RUNNING
    then have "s' = s \<or> (\<exists>b. serve (ev_serve e) isset c (backend s) = Returns b \<and> s' = s\<lparr>backend := b\<rparr>)"
      using h s by (auto simp: serve_phase_def stop_phase_def obind_Returns server_ok_def split: if_splits)
    then show ?thesis
    proof (elim disjE exE conjE)
      fix b assume b: "serve (ev_serve e) isset c (backend s) = Returns b" "s' = s\<lparr>backend := b\<rparr>"
      have "mapping (backend s) \<noteq> None" "accounts_ok (backend s)"
        using s(1) r STATE_RUNNING by (auto simp: server_ok_def split: option.splits)
      then have "mapping b \<noteq> None" "accounts_ok b" using accounts_serve [OF b(1) _ s(2)] serve_mapping [OF b(1)] by auto
      then show ?thesis using b(2) s(1) by (auto simp: server_ok_def)
    qed (use s in simp)
  qed
qed

lemma server_ok_pass:
  assumes h: "main_pass parse e s = Returns (go_on, s')" and c: "enable_tcp c" "starts_clean c (ev_start e)" and s: "server_ok c s"
  shows "server_ok c s'"
proof -
  let ?s = "if ev_signal e then signal_handler s else s"
  let ?isset = "\<lambda>fd. ev_select e > 0 \<and> fd \<in> set (watched (ev_serve e) s) \<and> ev_ready e fd"
  have s1: "server_ok c ?s" using s by (simp add: server_ok_def signal_handler_def split: option.splits)
  show ?thesis
  proof (cases "ev_select e < 0")
    case True
    then show ?thesis using h s1 by (simp add: main_pass_def Let_def)
  next
    case False
    obtain s2 where s2: "(if ?isset 0 then handle_stdin parse (ev_line e) ?s else Returns ?s) = Returns s2"
      "(let (ok, s) = (if server_state s2 = STATE_RUNNING \<and> mapping (backend s2) = None then start_server (ev_start e) s2 else (True, s2))
        in if \<not> ok then Returns (True, s)
           else obind (serve_phase e ?isset (stop_phase s)) (\<lambda>s. Returns (True, s))) = Returns (go_on, s')"
      using h False unfolding main_pass_def Let_def by (simp only: if_False) (elim obindE, blast)
    have ok2: "server_ok c s2" using s2(1) s1 server_ok_stdin by (auto split: if_splits)
    obtain ok s3 where s3: "(if server_state s2 = STATE_RUNNING \<and> mapping (backend s2) = None then start_server (ev_start e) s2 else (True, s2)) = (ok, s3)"
      by force
    have ok3: "server_ok c s3" using s3 ok2 start_server_ok [OF c] by (auto split: if_splits)
    show ?thesis
    proof (cases ok)
      case True
      then have r: "server_state s3 = STATE_RUNNING \<longrightarrow> mapping (backend s3) \<noteq> None"
        using s3 by (auto simp: start_server_def Let_def print_line_def split: if_splits prod.splits option.splits)
      obtain s4 where "serve_phase e ?isset (stop_phase s3) = Returns s4" "s' = s4"
        using s2(2) s3 True by (auto simp: obind_Returns)
      then show ?thesis using server_ok_phases [OF _ ok3 c(1) r] by blast
    qed (use s2(2) s3 ok3 in simp)
  qed
qed

lemma server_ok_loop:
  "main_loop parse es s = Returns (ended, s') \<Longrightarrow> enable_tcp c \<Longrightarrow> \<forall>e \<in> set es. starts_clean c (ev_start e) \<Longrightarrow> server_ok c s \<Longrightarrow> server_ok c s'"
proof (induction es arbitrary: s)
  case (Cons e es)
  show ?case
  proof (cases "running s")
    case True
    then obtain go_on t where t: "main_pass parse e s = Returns (go_on, t)"
      "(if go_on then main_loop parse es t else Returns (True, t)) = Returns (ended, s')"
      using Cons.prems(1) by (auto simp: obind_Returns)
    have "server_ok c t" using server_ok_pass [OF t(1)] Cons.prems by simp
    then show ?thesis using t(2) Cons.IH [of t] Cons.prems by (auto split: if_splits)
  qed (use Cons.prems in simp)
qed simp

text \<open>
  C31: the single file server loses no descriptor when TCP is enabled and, in every pass that may start it, nothing fails behind the
  listening socket (a serial line that is enabled is there, and the registers are allocated): then whatever the clients, the
  serial line and the standard input do, the number of clients is the number of slots in use, at most ten, while it runs, and
  after the clean-up at its end every descriptor it opened has been closed, once. A failed start loses the
  listening socket, which the theorem \<open>failed_serial_start_is_final\<close> shows.
\<close>

theorem modbus_descriptors:
  assumes "enable_tcp c" "\<forall>e \<in> set es. starts_clean c (ev_start e)"
    and "main_loop parse es (initial_modbus_server c) = Returns (ended, s)"
  shows "(mapping (backend s) \<noteq> None \<longrightarrow>
      tcp_conn_count (backend s) = int (length (filter (\<lambda>fd. fd \<noteq> -1) (tcp_conn_socks (backend s)))) \<and> tcp_conn_count (backend s) \<le> 10) \<and>
    mset (opened (backend (final_cleanup s))) = mset (closed (backend (final_cleanup s)))"
proof -
  have "server_ok c (initial_modbus_server c)"
    by (simp add: server_ok_def initial_modbus_server_def modbus_backend_create_def)
  then have s: "server_ok c s" using server_ok_loop [OF assms(3,1,2)] by simp
  show ?thesis
  proof (cases "mapping (backend s)")
    case None
    then show ?thesis using s by (simp add: server_ok_def final_cleanup_def print_line_def)
  next
    case (Some mb)
    then have a: "accounts_ok (backend s)" using s by (simp add: server_ok_def)
    then have "int (length (filter (\<lambda>fd. fd \<noteq> -1) (tcp_conn_socks (backend s)))) \<le> 10"
      using length_filter_le [of "\<lambda>fd. fd \<noteq> -1" "tcp_conn_socks (backend s)"] by (simp add: accounts_ok_def MAX_TCP_CLIENTS_def)
    then show ?thesis using a server_ok_stop [OF s assms(1)] Some
      by (simp add: accounts_ok_def final_cleanup_def print_line_def)
  qed
qed

section \<open>The command start\<close>

definition started_while_running :: "modbus_server \<Rightarrow> bool" where
  "started_while_running s \<longleftrightarrow> (running s \<longrightarrow> server_state s = STATE_RUNNING)"

lemma modes_kept [simp]:
  "server_state (print_line l s) = server_state s" "running (print_line l s) = running s"
  "server_state (stop_server s) = server_state s" "running (stop_server s) = running s"
  "server_state (stop_phase s) = server_state s" "running (stop_phase s) = running s"
  by (simp_all add: print_line_def stop_server_def Let_def stop_phase_def)

lemma start_server_modes: "start_server lib s = (ok, s') \<Longrightarrow> server_state s' = server_state s \<and> running s' = running s"
  by (auto simp: start_server_def Let_def print_line_def split: prod.splits option.splits if_splits)

lemma serve_phase_modes: "serve_phase e isset s = Returns s' \<Longrightarrow> server_state s' = server_state s \<and> running s' = running s"
  by (auto simp: serve_phase_def obind_Returns split: if_splits)

lemma stdin_modes: "handle_stdin parse line s = Returns s' \<Longrightarrow> started_while_running s \<Longrightarrow> started_while_running s'"
  by (cases line) (auto simp: handle_stdin_def obind_Returns started_while_running_def dest!: process_json_keeps)

lemma pass_modes:
  assumes h: "main_pass parse e s = Returns (go_on, s')" and s: "started_while_running s"
  shows "started_while_running s'"
proof -
  let ?s = "if ev_signal e then signal_handler s else s"
  let ?isset = "\<lambda>fd. ev_select e > 0 \<and> fd \<in> set (watched (ev_serve e) s) \<and> ev_ready e fd"
  have s1: "started_while_running ?s" using s by (simp add: started_while_running_def signal_handler_def)
  show ?thesis
  proof (cases "ev_select e < 0")
    case True
    then show ?thesis using h s1 by (simp add: main_pass_def Let_def)
  next
    case False
    obtain s2 where s2: "(if ?isset 0 then handle_stdin parse (ev_line e) ?s else Returns ?s) = Returns s2"
      "(let (ok, s) = (if server_state s2 = STATE_RUNNING \<and> mapping (backend s2) = None then start_server (ev_start e) s2 else (True, s2))
        in if \<not> ok then Returns (True, s)
           else obind (serve_phase e ?isset (stop_phase s)) (\<lambda>s. Returns (True, s))) = Returns (go_on, s')"
      using h False unfolding main_pass_def Let_def by (simp only: if_False) (elim obindE, blast)
    have ok2: "started_while_running s2" using s2(1) s1 stdin_modes by (auto split: if_splits)
    obtain ok s3 where s3: "(if server_state s2 = STATE_RUNNING \<and> mapping (backend s2) = None then start_server (ev_start e) s2 else (True, s2)) = (ok, s3)"
      by force
    have "started_while_running s3"
      using s3 ok2 start_server_modes [of "ev_start e" s2 ok s3] by (auto simp: started_while_running_def split: if_splits)
    moreover have "s' = s3 \<or> serve_phase e ?isset (stop_phase s3) = Returns s'"
      using s2(2) s3 by (auto simp: obind_Returns split: if_splits)
    ultimately show ?thesis using serve_phase_modes [of e ?isset "stop_phase s3" s'] by (auto simp: started_while_running_def)
  qed
qed

lemma loop_modes: "main_loop parse es s = Returns (ended, s') \<Longrightarrow> started_while_running s \<Longrightarrow> started_while_running s'"
  by (induction es arbitrary: s) (auto simp: obind_Returns split: if_splits dest: pass_modes)

text \<open>
  The command \<open>start\<close> can never start the single file server: as long as its loop runs the server is in
  the running state, and the command is refused; \<open>stop\<close> always ends the program.
\<close>

theorem start_always_refused:
  assumes "main_loop parse es (initial_modbus_server c) = Returns (ended, s)" "running s"
    and "parse l = Some root" "cJSON_GetObjectItemCaseSensitive root ''cmd'' = Some (JString ''start'')"
  shows "process_json parse c l (mapping (backend s)) (server_state s) (running s) =
    Returns ([''{\"error\":\"already_running\"}''], mapping (backend s), server_state s, running s)"
proof -
  have "started_while_running (initial_modbus_server c)" by (simp add: started_while_running_def initial_modbus_server_def)
  then have "server_state s = STATE_RUNNING" using loop_modes [OF assms(1)] assms(2) by (simp add: started_while_running_def)
  then show ?thesis using assms(2-4) by (simp add: process_json_def mode_command_def)
qed

section \<open>A start that fails half way\<close>

text \<open>
  Passes under the rule of the operating system for addresses in use: as long as the descriptor \<open>fd\<close> listens on the port,
  listening on it again fails.
\<close>

inductive modbus_step :: "(string \<Rightarrow> json option) \<Rightarrow> int \<Rightarrow> modbus_server \<Rightarrow> modbus_server \<Rightarrow> bool" for parse fd where
  "running s \<Longrightarrow> (fd \<in> set (opened (backend s)) \<and> fd \<notin> set (closed (backend s)) \<longrightarrow> lib_listen (ev_start e) = -1) \<Longrightarrow>
   main_pass parse e s = Returns (go_on, s') \<Longrightarrow> modbus_step parse fd s s'"

definition stuck :: "int \<Rightarrow> modbus_server \<Rightarrow> bool" where
  "stuck fd s \<longleftrightarrow> enable_tcp (cfg s) \<and> mapping (backend s) = None \<and> fd \<in> set (opened (backend s)) \<and> fd \<notin> set (closed (backend s))"

lemma stuck_start: "stuck fd s \<Longrightarrow> lib_listen lib = -1 \<Longrightarrow> start_server lib s = (ok, s') \<Longrightarrow> \<not> ok \<and> stuck fd s'"
  by (auto simp: stuck_def start_server_def start_tcp_def Let_def split: if_splits)

lemma stuck_stdin: "handle_stdin parse line s = Returns s' \<Longrightarrow> stuck fd s \<Longrightarrow> stuck fd s'"
  by (cases line) (auto simp: handle_stdin_def obind_Returns stuck_def dest!: process_json_keeps)

lemma stuck_step: "modbus_step parse fd s s' \<Longrightarrow> stuck fd s \<Longrightarrow> stuck fd s'"
proof (induction rule: modbus_step.induct)
  case (1 s e go_on s')
  let ?s = "if ev_signal e then signal_handler s else s"
  let ?isset = "\<lambda>fd. ev_select e > 0 \<and> fd \<in> set (watched (ev_serve e) s) \<and> ev_ready e fd"
  have s1: "stuck fd ?s" using 1(4) by (simp add: stuck_def signal_handler_def)
  have listen: "lib_listen (ev_start e) = -1" using 1(2,4) by (simp add: stuck_def)
  show ?case
  proof (cases "ev_select e < 0")
    case True
    then show ?thesis using 1(3) s1 by (simp add: main_pass_def Let_def)
  next
    case False
    obtain s2 where s2: "(if ?isset 0 then handle_stdin parse (ev_line e) ?s else Returns ?s) = Returns s2"
      "(let (ok, s) = (if server_state s2 = STATE_RUNNING \<and> mapping (backend s2) = None then start_server (ev_start e) s2 else (True, s2))
        in if \<not> ok then Returns (True, s)
           else obind (serve_phase e ?isset (stop_phase s)) (\<lambda>s. Returns (True, s))) = Returns (go_on, s')"
      using 1(3) False unfolding main_pass_def Let_def by (simp only: if_False) (elim obindE, blast)
    have ok2: "stuck fd s2" using s2(1) s1 stuck_stdin by (auto split: if_splits)
    show ?thesis
    proof (cases "server_state s2 = STATE_RUNNING")
      case True
      obtain ok s3 where "start_server (ev_start e) s2 = (ok, s3)" by (cases "start_server (ev_start e) s2")
      then show ?thesis using s2(2) True ok2 stuck_start [OF ok2 listen] by (auto simp: stuck_def)
    next
      case False
      then show ?thesis using s2(2) ok2 by (auto simp: obind_Returns stop_phase_def serve_phase_def stuck_def)
    qed
  qed
qed

text \<open>
  C32: when the serial line is missing at the start, the listening socket that is already open is neither used nor closed, and
  since its port stays in use every later start fails: the server never serves anybody again, even when the
  serial line is plugged in.
\<close>

theorem failed_serial_start_is_final:
  assumes "enable_tcp (cfg s)" "enable_rtu (cfg s)" "mapping (backend s) = None" "fd \<notin> set (closed (backend s))"
    and "lib_new_tcp lib" "lib_listen lib = fd" "fd \<noteq> -1" "lib_connect lib = -1"
    and "start_server lib s = (ok, s1)" "(modbus_step parse fd)\<^sup>*\<^sup>* s1 s2"
  shows "\<not> ok \<and> mapping (backend s2) = None \<and> fd \<in> set (opened (backend s2)) \<and> fd \<notin> set (closed (backend s2))"
proof -
  have s1: "\<not> ok \<and> stuck fd s1"
    using assms(1-9) by (auto simp: start_server_def start_tcp_def start_rtu_def Let_def open_fd_def stuck_def split: if_splits)
  have "stuck fd s2" using assms(10) s1 by (induction rule: rtranclp_induct) (auto intro: stuck_step)
  then show ?thesis using s1 by (simp add: stuck_def)
qed

section \<open>Examples\<close>

text \<open>
  An operating system where everything works: descriptor 5 listens, and clients get descriptor 7. A pass in which
  a client connects, and one in which the input ends.
\<close>

definition good_lib :: libmodbus where
  "good_lib = \<lparr>lib_new_tcp = True, lib_listen = 5, lib_accept = 7, lib_receive = (\<lambda>fd. (0, [])), lib_reply = (\<lambda>q n mb. (0, mb)),
     lib_new_rtu = True, lib_rtu_socket = -1, lib_connect = 0, lib_rtu_receive = (0, []), lib_again = True,
     lib_mapping = (\<lambda>c. Some (demo_mapping (holding_regs_start c) (nat (nb_holding_regs c))))\<rparr>"

definition event_pass :: "int list \<Rightarrow> string option \<Rightarrow> libmodbus \<Rightarrow> pass_events" where
  "event_pass fds line lib = \<lparr>ev_signal = False, ev_select = int (length fds), ev_eintr = False, ev_ready = (\<lambda>fd. fd \<in> set fds),
     ev_line = line, ev_start = lib, ev_serve = good_lib\<rparr>"

lemma good_lib_simps [simp]: "lib_new_tcp good_lib" "lib_listen good_lib = 5" "lib_accept good_lib = 7" "lib_receive good_lib fd = (0, [])"
  "lib_new_rtu good_lib" "lib_rtu_socket good_lib = -1" "lib_connect good_lib = 0"
  "lib_mapping good_lib c = Some (demo_mapping (holding_regs_start c) (nat (nb_holding_regs c)))"
  by (simp_all add: good_lib_def)

lemma event_pass_simps [simp]: "\<not> ev_signal (event_pass fds l lib)" "ev_select (event_pass fds l lib) = int (length fds)"
  "ev_ready (event_pass fds l lib) fd \<longleftrightarrow> fd \<in> set fds" "ev_line (event_pass fds l lib) = l" "ev_start (event_pass fds l lib) = lib"
  "ev_serve (event_pass fds l lib) = good_lib"
  by (simp_all add: event_pass_def)

definition demo_passes :: "pass_events list" where
  "demo_passes = [event_pass [] None good_lib, event_pass [5] None good_lib, event_pass [0] None good_lib]"

lemma default_simps [simp]: "enable_tcp default_config" "\<not> enable_rtu default_config" "holding_regs_start default_config = 0"
  "nb_holding_regs default_config = 0"
  by (simp_all add: default_config_def)

lemma demo_run: "\<exists>s. main_loop parse demo_passes (initial_modbus_server default_config) = Returns (True, s) \<and> opened (backend s) = [7, 5]"
proof -
  have range: "[0..<MAX_TCP_CLIENTS] = [0, 1, 2, 3, 4, 5, 6, 7, 8, 9]" "replicate MAX_TCP_CLIENTS (-1 :: int) = [-1,-1,-1,-1,-1,-1,-1,-1,-1,-1]"
    by (simp_all add: MAX_TCP_CLIENTS_def upt_conv_Cons eval_nat_numeral)
  show ?thesis
    by (simp add: demo_passes_def initial_modbus_server_def modbus_backend_create_def main_pass_def Let_def watched_def
        start_server_def start_tcp_def open_fd_def print_line_def stop_phase_def serve_phase_def serve_def serve_listen_def
        find_free_tcp_client_slot_def range serve_client_def handle_stdin_def stop_server_def tcp_adapter_cleanup_def platform_close_fd_def)
qed

theorem modbus_descriptors_witness:
  "\<exists>s. main_loop (\<lambda>t. None) demo_passes (initial_modbus_server default_config) = Returns (True, s) \<and>
     mset (closed (backend (final_cleanup s))) = {#5, 7#}"
proof -
  obtain s where s: "main_loop (\<lambda>t. None) demo_passes (initial_modbus_server default_config) = Returns (True, s)" "opened (backend s) = [7, 5]"
    using demo_run by blast
  have clean: "\<forall>e \<in> set demo_passes. starts_clean default_config (ev_start e)"
    by (simp add: demo_passes_def starts_clean_def)
  have "opened (backend (final_cleanup s)) = [7, 5]"
    using s(2) by (simp add: final_cleanup_def print_line_def stop_server_def tcp_adapter_cleanup_def rtu_adapter_cleanup_def Let_def platform_close_fd_def)
  then show ?thesis using modbus_descriptors [OF _ clean s(1)] s(1) by (auto simp: add_mset_commute)
qed

theorem start_always_refused_witness:
  "process_json (\<lambda>t. Some (JObject [(''cmd'', JString ''start'')])) default_config [] None STATE_RUNNING True =
     Returns ([''{\"error\":\"already_running\"}''], None, STATE_RUNNING, True)"
proof -
  let ?s = "initial_modbus_server default_config" and ?parse = "\<lambda>t :: string. Some (JObject [(''cmd'', JString ''start'')])"
  have "main_loop ?parse [] ?s = Returns (False, ?s)" "running ?s" by (simp_all add: initial_modbus_server_def)
  from start_always_refused [OF this refl] show ?thesis
    by (simp add: cJSON_GetObjectItemCaseSensitive_def initial_modbus_server_def modbus_backend_create_def)
qed

text \<open>The serial line is missing in the first pass and there in the second, where the port is in use.\<close>

theorem failed_serial_start_is_final_witness:
  "\<exists>s1 s2. start_server (good_lib\<lparr>lib_connect := -1\<rparr>) (initial_modbus_server (default_config\<lparr>enable_rtu := True\<rparr>)) = (False, s1) \<and>
     modbus_step (\<lambda>t. None) 5 s1 s2 \<and> mapping (backend s2) = None"
proof -
  let ?s = "initial_modbus_server (default_config\<lparr>enable_rtu := True\<rparr>)" and ?lib = "good_lib\<lparr>lib_connect := -1\<rparr>"
  let ?e = "event_pass [] None (good_lib\<lparr>lib_listen := -1\<rparr>)"
  obtain ok s1 where s1: "start_server ?lib ?s = (ok, s1)" by (cases "start_server ?lib ?s")
  have s: "enable_tcp (cfg ?s)" "enable_rtu (cfg ?s)" "mapping (backend ?s) = None" "5 \<notin> set (closed (backend ?s))"
    by (simp_all add: initial_modbus_server_def modbus_backend_create_def)
  have ok: "\<not> ok" "running s1"
    using s1 by (auto simp: initial_modbus_server_def modbus_backend_create_def start_server_def start_tcp_def start_rtu_def Let_def open_fd_def)
  obtain go_on s2 where s2: "main_pass (\<lambda>t. None) ?e s1 = Returns (go_on, s2)"
    using s1 ok by (auto simp: initial_modbus_server_def modbus_backend_create_def start_server_def start_tcp_def start_rtu_def Let_def
        open_fd_def main_pass_def)
  then have step: "modbus_step (\<lambda>t. None) 5 s1 s2" using ok by (intro modbus_step.intros) auto
  have "mapping (backend s2) = None"
    using failed_serial_start_is_final [OF s, of ?lib ok s1 "\<lambda>t. None" s2] s1 step by auto
  then show ?thesis using s1 ok step by auto
qed

end
