(* ===== verification/Json_Text.thy ===== *)
theory Json_Text
  imports Json_Tree C_Format Effects
begin

text \<open>
  Numbers and strings of JSON text (\<open>parse_number\<close>, \<open>parse_string\<close>, \<open>print_number\<close> and \<open>print_string_ptr\<close> of
  \<open>cJSON/cJSON.c\<close>). A parse buffer is the list of its bytes from the current offset on; the zero byte
  at the end belongs to it. Reading behind it is undefined. Positions of errors, and memory that
  cannot be allocated, are left out. \<open>strtod\<close> and the conversion \<open>%g\<close> of the C library are
  computed exactly, with one rounding to nearest.
\<close>

section \<open>Numbers\<close>

definition digit :: "char \<Rightarrow> bool" where
  "digit c \<longleftrightarrow> (48 :: nat) \<le> of_char c \<and> (of_char c :: nat) \<le> 57"

text \<open>The decimal number \<open>m * 10^e\<close>; below 1 as a quotient with enough bits and a sticky bit.\<close>

definition decimal :: "bool \<Rightarrow> nat \<Rightarrow> int \<Rightarrow> fval" where
  "decimal s m e =
     (if 0 \<le> e then Fin s (m * 10 ^ nat e) 0
      else let n = 10 ^ nat (- e); k = m * 2 ^ (64 + bitlen n)
           in Fin s (2 * (k div n) + of_bool (k mod n \<noteq> 0)) (- int (65 + bitlen n)))"

definition sign_of :: "string \<Rightarrow> bool \<times> string" where
  "sign_of s = (case s of CHR ''-'' # r \<Rightarrow> (True, r) | CHR ''+'' # r \<Rightarrow> (False, r) | _ \<Rightarrow> (False, s))"

text \<open>The exponent part, if there is one with digits: its value and its length.\<close>

definition exponent_of :: "string \<Rightarrow> int \<times> nat" where
  "exponent_of s = (case s of
     c # r \<Rightarrow> (if c = CHR ''e'' \<or> c = CHR ''E'' then
         let (neg, t) = sign_of r; ds = takeWhile digit t
         in if ds = [] then (0, 0)
            else (if neg then - int (of_digits ds) else int (of_digits ds), 1 + (length r - length t) + length ds)
       else (0, 0))
   | [] \<Rightarrow> (0, 0))"

text \<open>The digits of the mantissa without the point, how many of them follow the point, and the rest.\<close>

definition mantissa_of :: "string \<Rightarrow> string \<times> nat \<times> string" where
  "mantissa_of t = (let whole = takeWhile digit t; rest = dropWhile digit t
     in case rest of
          c # r \<Rightarrow> if c = CHR ''.'' then (whole @ takeWhile digit r, length (takeWhile digit r), dropWhile digit r)
            else (whole, 0, rest)
        | [] \<Rightarrow> (whole, 0, rest))"

text \<open>\<open>strtod\<close> on a text of digits, signs, points and letters e: the value and the number of characters used, 0 for none.\<close>

definition strtod :: "string \<Rightarrow> f64 \<times> nat" where
  "strtod s =
     (let (neg, t) = sign_of s; (ds, n, rest) = mantissa_of t; (e, k) = exponent_of rest
      in if ds = [] then (0, 0)
         else (f64_of (decimal neg (of_digits ds) (e - int n)), length s - length rest + k))"

definition number_char :: "char \<Rightarrow> bool" where
  "number_char c \<longleftrightarrow> digit c \<or> c = CHR ''+'' \<or> c = CHR ''-'' \<or> c = CHR ''e'' \<or> c = CHR ''E'' \<or> c = CHR ''.''"

definition parse_number :: "string \<Rightarrow> (json \<times> string) option" where
  "parse_number s =
     (let (d, n) = strtod (takeWhile number_char (take 63 s))
      in if n = 0 then None else Some (JNumber d, drop n s))"

text \<open>
  \<open>%1.{p}g\<close>: the decimal exponent of \<open>num / den\<close>, its p digits rounded to nearest, ties to even, in the
  style of the exponent, without trailing zeros.
\<close>

definition decimal_exponent :: "nat \<Rightarrow> nat \<Rightarrow> int" where
  "decimal_exponent num den =
     (if den \<le> num then int (length (dec_nat (num div den))) - 1
      else let d = length (dec_nat (den div num)) in if den \<le> num * 10 ^ (d - 1) then - int (d - 1) else - int d)"

definition round_quotient :: "nat \<Rightarrow> nat \<Rightarrow> nat" where
  "round_quotient a b = (let q = a div b; r = a mod b in if b < 2 * r \<or> (b = 2 * r \<and> odd q) then Suc q else q)"

definition significant :: "nat \<Rightarrow> nat \<Rightarrow> nat \<Rightarrow> nat \<times> int" where
  "significant p num den =
     (let x = decimal_exponent num den; t = int p - 1 - x;
          q = (if 0 \<le> t then round_quotient (num * 10 ^ nat t) den else round_quotient num (den * 10 ^ nat (- t)))
      in if q = 10 ^ p then (q div 10, x + 1) else (q, x))"

definition strip_zeros :: "string \<Rightarrow> string" where
  "strip_zeros s = rev (dropWhile (\<lambda>c. c = CHR ''0'') (rev s))"

definition with_point :: "string \<Rightarrow> string \<Rightarrow> string" where
  "with_point whole frac = (let f = strip_zeros frac in if f = [] then whole else whole @ ''.'' @ f)"

definition exponent_text :: "int \<Rightarrow> string" where
  "exponent_text x = ''e'' @ (if x < 0 then ''-'' else ''+'') @ (let s = dec_nat (nat \<bar>x\<bar>) in if length s < 2 then ''0'' @ s else s)"

definition fmt_g :: "nat \<Rightarrow> f64 \<Rightarrow> string" where
  "fmt_g p d = (case f64_val d of NaN \<Rightarrow> ''nan'' | Inf s \<Rightarrow> (if s then ''-inf'' else ''inf'')
     | Fin s m e \<Rightarrow> (if s then ''-'' else []) @
         (if m = 0 then ''0''
          else let (q, x) = (if 0 \<le> e then significant p (m * 2 ^ nat e) 1 else significant p m (2 ^ nat (- e))); ds = dec_nat q
               in if x < -4 \<or> int p \<le> x then with_point (take 1 ds) (drop 1 ds) @ exponent_text x
                  else if x < 0 then with_point ''0'' (replicate (nat (- x - 1)) (CHR ''0'') @ ds)
                  else with_point (take (nat (x + 1)) ds) (drop (nat (x + 1)) ds)))"

text \<open>Comparison with a relative error of \<open>DBL_EPSILON\<close>, in double.\<close>

definition f64_abs :: "f64 \<Rightarrow> f64" where
  "f64_abs a = f64_of (fv_abs (f64_val a))"

definition f64_le :: "f64 \<Rightarrow> f64 \<Rightarrow> bool" where
  "f64_le a b = fv_le (f64_val a) (f64_val b)"

definition DBL_EPSILON :: f64 where "DBL_EPSILON = 0x3CB0000000000000"

definition compare_double :: "f64 \<Rightarrow> f64 \<Rightarrow> bool" where
  "compare_double a b =
     (let maxVal = (if \<not> f64_le (f64_abs a) (f64_abs b) then f64_abs a else f64_abs b)
      in f64_le (f64_abs (f64_sub a b)) (f64_of (fv_mul (f64_val maxVal) (f64_val DBL_EPSILON))))"

definition print_number :: "f64 \<Rightarrow> string" where
  "print_number d = (case f64_val d of Fin s m e \<Rightarrow>
       if fv_eq (f64_val d) (f64_val (f64_of_int (valueint (JNumber d)))) then dec_int (valueint (JNumber d))
       else let text = fmt_g 15 d; (test, n) = strtod text
            in if n = 0 \<or> \<not> compare_double test d then fmt_g 17 d else text
     | _ \<Rightarrow> ''null'')"

section \<open>Strings\<close>

text \<open>The body of a string literal up to its closing quote, and what follows the quote.\<close>

fun scan_string :: "string \<Rightarrow> (string \<times> string) option" where
  "scan_string [] = None"
| "scan_string (c # s) =
     (if c = CHR 0x22 then Some ([], s)
      else if c = CHR 0x5C then
        (case s of [] \<Rightarrow> None | d # s \<Rightarrow> map_option (\<lambda>(b, r). (c # d # b, r)) (scan_string s))
      else map_option (\<lambda>(b, r). (c # b, r)) (scan_string s))"

definition hex_digit :: "char \<Rightarrow> nat option" where
  "hex_digit c = (let n = of_char c in
     if 48 \<le> n \<and> n \<le> 57 then Some (n - 48) else if 65 \<le> n \<and> n \<le> 70 then Some (10 + n - 65)
     else if 97 \<le> n \<and> n \<le> 102 then Some (10 + n - 97) else None)"

text \<open>Four hexadecimal digits; anything else is 0.\<close>

definition parse_hex4 :: "string \<Rightarrow> nat" where
  "parse_hex4 s = (case map hex_digit (take 4 s) of
     [Some a, Some b, Some c, Some d] \<Rightarrow> ((a * 16 + b) * 16 + c) * 16 + d
   | _ \<Rightarrow> 0)"

definition utf8 :: "nat \<Rightarrow> string option" where
  "utf8 n =
     (if n < 0x80 then Some [char_of n]
      else if n < 0x800 then Some [char_of (0xC0 + n div 64), char_of (0x80 + n mod 64)]
      else if n < 0x10000 then Some [char_of (0xE0 + n div 4096), char_of (0x80 + n div 64 mod 64), char_of (0x80 + n mod 64)]
      else if n \<le> 0x10FFFF then
        Some [char_of (0xF0 + n div 262144), char_of (0x80 + n div 4096 mod 64), char_of (0x80 + n div 64 mod 64), char_of (0x80 + n mod 64)]
      else None)"

text \<open>One literal, or two for a surrogate pair, at the start of the text: the bytes and the length, None when it is invalid.\<close>

definition utf16_literal_to_utf8 :: "string \<Rightarrow> (string \<times> nat) option" where
  "utf16_literal_to_utf8 s =
     (if length s < 6 then None
      else let first_code = parse_hex4 (drop 2 s)
           in if 0xDC00 \<le> first_code \<and> first_code \<le> 0xDFFF then None
              else if 0xD800 \<le> first_code \<and> first_code \<le> 0xDBFF then
                (let t = drop 6 s
                 in if length t < 6 then None
                    else if t ! 0 \<noteq> CHR 0x5C \<or> t ! 1 \<noteq> CHR ''u'' then None
                    else let second_code = parse_hex4 (drop 2 t)
                         in if second_code < 0xDC00 \<or> 0xDFFF < second_code then None
                            else map_option (\<lambda>b. (b, 12)) (utf8 (0x10000 + (first_code mod 1024) * 1024 + second_code mod 1024)))
              else map_option (\<lambda>b. (b, 6)) (utf8 first_code))"

definition short_escape :: "char \<Rightarrow> char option" where
  "short_escape c =
     (if c = CHR ''b'' then Some (CHR 0x08) else if c = CHR ''f'' then Some (CHR 0x0C) else if c = CHR ''n'' then Some (CHR 0x0A)
      else if c = CHR ''r'' then Some (CHR 0x0D) else if c = CHR ''t'' then Some (CHR 0x09)
      else if c = CHR 0x22 \<or> c = CHR 0x5C \<or> c = CHR ''/'' then Some c else None)"

text \<open>The body of a literal without its escapes. (A body never ends within an escape, see \<open>scan_string\<close>.)\<close>

function unescape :: "string \<Rightarrow> string option" where
  "unescape [] = Some []"
| "unescape (c # s) =
     (if c \<noteq> CHR 0x5C then map_option (Cons c) (unescape s)
      else case s of [] \<Rightarrow> Some [CHR 0x22]
        | d # t \<Rightarrow>
            if d = CHR ''u'' then
              (case utf16_literal_to_utf8 (c # s) of None \<Rightarrow> None
               | Some (b, n) \<Rightarrow> map_option (append b) (unescape (drop (n - 1) s)))
            else (case short_escape d of None \<Rightarrow> None | Some b \<Rightarrow> map_option (Cons b) (unescape t)))"
  by pat_completeness auto
termination by (relation "measure length") auto

text \<open>A string value is a C string: it ends at its first zero byte.\<close>

definition parse_string :: "string \<Rightarrow> (string \<times> string) option outcome" where
  "parse_string s = (case s of [] \<Rightarrow> Undefined
     | c # r \<Rightarrow> Returns (if c \<noteq> CHR 0x22 then None
         else (case scan_string r of None \<Rightarrow> None
           | Some (body, rest) \<Rightarrow> map_option (\<lambda>b. (takeWhile (\<lambda>c. c \<noteq> CHR 0x00) b, rest)) (unescape body))))"

text \<open>Printing.\<close>

definition hex_char :: "nat \<Rightarrow> char" where
  "hex_char n = (if n < 10 then char_of (48 + n) else char_of (87 + n))"

definition escape_char :: "char \<Rightarrow> string" where
  "escape_char c =
     (let n = of_char c :: nat
      in if 31 < n \<and> c \<noteq> CHR 0x22 \<and> c \<noteq> CHR 0x5C then [c]
         else if c = CHR 0x5C then [CHR 0x5C, CHR 0x5C]
         else if c = CHR 0x22 then [CHR 0x5C, CHR 0x22]
         else if c = CHR 0x08 then [CHR 0x5C, CHR ''b'']
         else if c = CHR 0x0C then [CHR 0x5C, CHR ''f'']
         else if c = CHR 0x0A then [CHR 0x5C, CHR ''n'']
         else if c = CHR 0x0D then [CHR 0x5C, CHR ''r'']
         else if c = CHR 0x09 then [CHR 0x5C, CHR ''t'']
         else [CHR 0x5C, CHR ''u'', CHR ''0'', CHR ''0'', hex_char (n div 16), hex_char (n mod 16)])"

definition print_string_ptr :: "string \<Rightarrow> string" where
  "print_string_ptr s = [CHR 0x22] @ concat (map escape_char s) @ [CHR 0x22]"

end
