(* ===== verification/Json_Parser.thy ===== *)
theory Json_Parser
  imports Json_Text
begin

text \<open>
  Parsing of JSON text (\<open>cJSON/cJSON.c\<close>), the entry of both servers for configuration files and
  input lines. The recursion has a bound on its depth and its loops on their passes; the
  length of the text is always enough, so the parser ends on every text. A C string is never
  read behind its terminating zero.
\<close>

section \<open>White space\<close>

definition white :: "char \<Rightarrow> bool" where
  "white c \<longleftrightarrow> (of_char c :: nat) \<le> 32"

text \<open>At the end of the buffer the last byte is kept.\<close>

definition buffer_skip_whitespace :: "string \<Rightarrow> string" where
  "buffer_skip_whitespace s = (if s = [] then []
     else case dropWhile white s of [] \<Rightarrow> [last s] | r \<Rightarrow> r)"

definition skip_utf8_bom :: "string \<Rightarrow> string" where
  "skip_utf8_bom s = (if length s > 4 \<and> take 3 s = [CHR 0xEF, CHR 0xBB, CHR 0xBF] then drop 3 s else s)"

section \<open>Values\<close>

definition CJSON_NESTING_LIMIT :: nat where "CJSON_NESTING_LIMIT = 1000"

definition starts :: "string \<Rightarrow> string \<Rightarrow> bool" where
  "starts pat s \<longleftrightarrow> take (length pat) s = pat"

text \<open>
  A result is a value with the rest of the buffer, None for an error. The loops over elements and
  members get the parser of their values, and a bound on their passes.
\<close>

type_synonym 'a parsed = "('a \<times> string) option outcome"

primrec parse_elements :: "(string \<Rightarrow> json parsed) \<Rightarrow> nat \<Rightarrow> string \<Rightarrow> json list parsed" where
  "parse_elements value 0 s = Diverges"
| "parse_elements value (Suc n) s =
     obind (value (buffer_skip_whitespace s)) (\<lambda>r. case r of None \<Rightarrow> Returns None
       | Some (j, t) \<Rightarrow>
           (case buffer_skip_whitespace t of [] \<Rightarrow> Returns None
            | c # u \<Rightarrow>
                if c = CHR '','' then obind (parse_elements value n u) (\<lambda>r. Returns (map_option (\<lambda>(js, s). (j # js, s)) r))
                else if c = CHR '']'' then Returns (Some ([j], u))
                else Returns None))"

definition parse_array :: "(string \<Rightarrow> json parsed) \<Rightarrow> nat \<Rightarrow> nat \<Rightarrow> string \<Rightarrow> json parsed" where
  "parse_array value n depth s =
     (if depth \<ge> CJSON_NESTING_LIMIT then Returns None
      else case s of [] \<Rightarrow> Undefined
        | c # t \<Rightarrow>
            if c \<noteq> CHR ''['' then Returns None
            else (case buffer_skip_whitespace t of [] \<Rightarrow> Returns None
              | d # u \<Rightarrow>
                  if d = CHR '']'' then Returns (Some (JArray [], u))
                  else obind (parse_elements value n (d # u)) (\<lambda>r. Returns (map_option (\<lambda>(js, s). (JArray js, s)) r))))"

primrec parse_members :: "(string \<Rightarrow> json parsed) \<Rightarrow> nat \<Rightarrow> string \<Rightarrow> (string \<times> json) list parsed" where
  "parse_members value 0 s = Diverges"
| "parse_members value (Suc n) s =
     obind (parse_string (buffer_skip_whitespace s)) (\<lambda>r. case r of None \<Rightarrow> Returns None
       | Some (name, t) \<Rightarrow>
           (case buffer_skip_whitespace t of [] \<Rightarrow> Returns None
            | c # u \<Rightarrow>
                if c \<noteq> CHR '':'' then Returns None
                else obind (value (buffer_skip_whitespace u)) (\<lambda>r. case r of None \<Rightarrow> Returns None
                  | Some (j, v) \<Rightarrow>
                      (case buffer_skip_whitespace v of [] \<Rightarrow> Returns None
                       | d # w \<Rightarrow>
                           if d = CHR '','' then
                             obind (parse_members value n w) (\<lambda>r. Returns (map_option (\<lambda>(ms, s). ((name, j) # ms, s)) r))
                           else if d = CHR ''}'' then Returns (Some ([(name, j)], w))
                           else Returns None))))"

definition parse_object :: "(string \<Rightarrow> json parsed) \<Rightarrow> nat \<Rightarrow> nat \<Rightarrow> string \<Rightarrow> json parsed" where
  "parse_object value n depth s =
     (if depth \<ge> CJSON_NESTING_LIMIT then Returns None
      else case s of [] \<Rightarrow> Returns None
        | c # t \<Rightarrow>
            if c \<noteq> CHR ''{'' then Returns None
            else (case buffer_skip_whitespace t of [] \<Rightarrow> Returns None
              | d # u \<Rightarrow>
                  if d = CHR ''}'' then Returns (Some (JObject [], u))
                  else obind (parse_members value n (d # u)) (\<lambda>r. Returns (map_option (\<lambda>(ms, s). (JObject ms, s)) r))))"

primrec parse_value :: "nat \<Rightarrow> nat \<Rightarrow> string \<Rightarrow> json parsed" where
  "parse_value 0 depth s = Diverges"
| "parse_value (Suc n) depth s =
     (if starts ''null'' s then Returns (Some (JNull, drop 4 s))
      else if starts ''false'' s then Returns (Some (JFalse, drop 5 s))
      else if starts ''true'' s then Returns (Some (JTrue, drop 4 s))
      else case s of [] \<Rightarrow> Returns None
        | c # _ \<Rightarrow>
            if c = CHR 0x22 then obind (parse_string s) (\<lambda>r. Returns (map_option (\<lambda>(t, s). (JString t, s)) r))
            else if c = CHR ''-'' \<or> digit c then Returns (parse_number s)
            else if c = CHR ''['' then parse_array (parse_value n (Suc depth)) n depth s
            else if c = CHR ''{'' then parse_object (parse_value n (Suc depth)) n depth s
            else Returns None)"

section \<open>Entry points\<close>

text \<open>The whole buffer; the value and the end of the parsed text.\<close>

definition cJSON_ParseWithLengthOpts :: "string \<Rightarrow> bool \<Rightarrow> (json \<times> string) option outcome" where
  "cJSON_ParseWithLengthOpts value require_null_terminated =
     (if value = [] then Returns None
      else let s = buffer_skip_whitespace (skip_utf8_bom value)
           in obind (parse_value (length s + 1) 0 s) (\<lambda>r. case r of None \<Rightarrow> Returns None
             | Some (j, t) \<Rightarrow>
                 if require_null_terminated then
                   let u = buffer_skip_whitespace t
                   in Returns (if u = [] \<or> hd u \<noteq> CHR 0x00 then None else Some (j, u))
                 else Returns (Some (j, t))))"

text \<open>A C string is given without its zero byte, which becomes the last byte of the buffer.\<close>

definition cJSON_ParseWithOpts :: "string \<Rightarrow> bool \<Rightarrow> (json \<times> string) option outcome" where
  "cJSON_ParseWithOpts value require_null_terminated = cJSON_ParseWithLengthOpts (value @ [CHR 0x00]) require_null_terminated"

definition cJSON_Parse :: "string \<Rightarrow> json option outcome" where
  "cJSON_Parse value = obind (cJSON_ParseWithOpts value False) (\<lambda>r. Returns (map_option fst r))"

section \<open>What the parts of the parser leave of the buffer\<close>

lemma skip_Cons: "buffer_skip_whitespace (c # s) = (if white c \<and> s \<noteq> [] then buffer_skip_whitespace s else c # s)"
proof (cases "white c \<and> s \<noteq> []")
  case True
  then show ?thesis by (cases "dropWhile white s") (simp_all add: buffer_skip_whitespace_def del: dropWhile_eq_Nil_conv)
qed (auto simp: buffer_skip_whitespace_def)

lemma skip_Nil [simp]: "buffer_skip_whitespace [] = []"
  by (simp add: buffer_skip_whitespace_def)

lemma length_skip: "length (buffer_skip_whitespace s) \<le> length s"
  by (induction s) (auto simp: skip_Cons)

lemma skip_nonempty: "s \<noteq> [] \<Longrightarrow> buffer_skip_whitespace s \<noteq> []"
  by (induction s) (auto simp: skip_Cons)

text \<open>A buffer that ends with its first zero byte.\<close>

definition terminated :: "string \<Rightarrow> bool" where
  "terminated s \<longleftrightarrow> (\<exists>t. s = t @ [CHR 0x00] \<and> CHR 0x00 \<notin> set t)"

lemma terminated_nonempty: "terminated s \<Longrightarrow> s \<noteq> []"
  by (auto simp: terminated_def)

lemma terminated_Cons: "terminated (c # s) \<longleftrightarrow> (if c = CHR 0x00 then s = [] else terminated s)"
proof
  assume "terminated (c # s)"
  then obtain t where t: "c # s = t @ [CHR 0x00]" "CHR 0x00 \<notin> set t" by (auto simp: terminated_def)
  then show "if c = CHR 0x00 then s = [] else terminated s" by (cases t) (auto simp: terminated_def)
next
  assume h: "if c = CHR 0x00 then s = [] else terminated s"
  show "terminated (c # s)"
  proof (cases "c = CHR 0x00")
    case False
    then obtain t where "s = t @ [CHR 0x00]" "CHR 0x00 \<notin> set t" using h by (auto simp: terminated_def)
    then show ?thesis using False by (auto simp: terminated_def intro!: exI [of _ "c # t"])
  qed (use h in \<open>auto simp: terminated_def\<close>)
qed

lemma terminated_drop: "terminated s \<Longrightarrow> CHR 0x00 \<notin> set (take n s) \<Longrightarrow> terminated (drop n s)"
proof (induction n arbitrary: s)
  case (Suc n)
  then show ?case by (cases s) (auto simp: terminated_Cons split: if_splits)
qed simp

lemma terminated_skip: "terminated s \<Longrightarrow> terminated (buffer_skip_whitespace s)"
  by (induction s) (auto simp: skip_Cons terminated_Cons split: if_splits)

lemma scan_string_rest: "scan_string s = Some (b, r) \<Longrightarrow> length r < length s \<and> (terminated s \<longrightarrow> terminated r)"
proof (induction s arbitrary: b rule: scan_string.induct)
  case (2 c s)
  show ?case
  proof (cases "c = CHR 0x22")
    case True
    then show ?thesis using "2.prems" by (auto simp: terminated_Cons)
  next
    case nq: False
    show ?thesis
    proof (cases "c = CHR 0x5C")
      case True
      then obtain d t b' where s: "s = d # t" "scan_string t = Some (b', r)"
        using "2.prems" by (auto split: list.splits)
      have "length r < length t \<and> (terminated t \<longrightarrow> terminated r)" using "2.IH"(1) [OF nq True s(1) s(2)] .
      moreover have "terminated s \<Longrightarrow> terminated t" using s by (cases "d = CHR 0x00") (auto simp: terminated_Cons)
      ultimately show ?thesis using s(1) True by (auto simp: terminated_Cons)
    next
      case False
      then obtain b' where "scan_string s = Some (b', r)" using "2.prems" nq by auto
      then have "length r < length s \<and> (terminated s \<longrightarrow> terminated r)" using "2.IH"(2) [OF nq False] by blast
      then show ?thesis by (auto simp: terminated_Cons split: if_splits)
    qed
  qed
qed simp

lemma parse_string_rest:
  "parse_string s = Returns (Some (t, r)) \<Longrightarrow> length r < length s \<and> (terminated s \<longrightarrow> terminated r)"
  by (auto simp: parse_string_def terminated_Cons split: list.splits if_splits option.splits dest!: scan_string_rest)

lemma sign_of_length: "length (snd (sign_of s)) \<le> length s"
  by (auto simp: sign_of_def split: list.splits char.splits bool.splits)

lemma exponent_of_length: "snd (exponent_of s) \<le> length s"
proof (cases s)
  case (Cons c r)
  obtain neg t where t: "sign_of r = (neg, t)" by (cases "sign_of r")
  then have "length t \<le> length r" using sign_of_length [of r] by simp
  moreover have "length (takeWhile digit t) \<le> length t" by (rule length_takeWhile_le)
  ultimately have "1 + (length r - length t) + length (takeWhile digit t) \<le> length s" using Cons by simp
  then show ?thesis using Cons t by (simp add: exponent_of_def Let_def)
qed (simp add: exponent_of_def)

lemma mantissa_of_length: "length (snd (snd (mantissa_of t))) \<le> length t"
proof -
  have d: "length (dropWhile digit s) \<le> length s" for s by (rule length_dropWhile_le)
  show ?thesis
  proof (cases "dropWhile digit t")
    case (Cons c r)
    then show ?thesis using d [of t] d [of r] by (simp add: mantissa_of_def Let_def)
  next
    case Nil
    then show ?thesis by (simp only: mantissa_of_def Let_def) simp
  qed
qed

lemma strtod_length: "snd (strtod s) \<le> length s"
proof -
  obtain neg t where t: "sign_of s = (neg, t)" by (cases "sign_of s")
  obtain ds n rest where m: "mantissa_of t = (ds, n, rest)" by (cases "mantissa_of t")
  obtain e k where e: "exponent_of rest = (e, k)" by (cases "exponent_of rest")
  have "k \<le> length rest" "length rest \<le> length s"
    using exponent_of_length [of rest] mantissa_of_length [of t] sign_of_length [of s] t m e by simp_all
  then have "length s - length rest + k \<le> length s" by linarith
  then show ?thesis using t m e by (simp add: strtod_def del: diff_add_assoc2)
qed

lemma number_char_0: "number_char c \<Longrightarrow> c \<noteq> CHR 0x00"
  by (auto simp: number_char_def digit_def)

lemma parse_number_rest:
  assumes "parse_number s = Some (j, r)"
  shows "length r < length s \<and> (terminated s \<longrightarrow> terminated r)"
proof -
  let ?t = "takeWhile number_char (take 63 s)"
  obtain d n where n: "strtod ?t = (d, n)" by (cases "strtod ?t")
  then have r: "n \<noteq> 0" "r = drop n s" using assms by (auto simp: parse_number_def split: if_splits)
  have le: "n \<le> length ?t" using strtod_length [of ?t] n by simp
  have tw: "take (length ?t) s = ?t" by (metis takeWhile_eq_take take_take length_takeWhile_le length_take min_def)
  have "set (take n s) \<subseteq> set ?t" using le tw by (metis set_take_subset_set_take)
  then have "CHR 0x00 \<notin> set (take n s)" using number_char_0 by (auto dest: set_takeWhileD)
  moreover have "s \<noteq> []" using le r by auto
  ultimately show ?thesis using r terminated_drop [of s n] by simp
qed

section \<open>The parser ends and stays inside its buffer\<close>

text \<open>The contract between the parser of values and the loops over elements and members.\<close>

definition stays_inside :: "string \<Rightarrow> 'a parsed \<Rightarrow> bool" where
  "stays_inside s m \<longleftrightarrow> (\<exists>r. m = Returns r \<and> (\<forall>j t. r = Some (j, t) \<longrightarrow> length t < length s \<and> terminated t))"

lemma stays_inside_None [simp]: "stays_inside s (Returns None)"
  by (simp add: stays_inside_def)

lemma stays_inside_Some [simp]: "stays_inside s (Returns (Some (j, t))) \<longleftrightarrow> length t < length s \<and> terminated t"
  by (simp add: stays_inside_def)

lemma stays_inside_longer: "stays_inside t m \<Longrightarrow> length t \<le> length s \<Longrightarrow> stays_inside s m"
  by (auto simp: stays_inside_def)

lemma stays_inside_map: "stays_inside s m \<Longrightarrow> stays_inside s (obind m (\<lambda>r. Returns (map_option (\<lambda>(j, t). (f j, t)) r)))"
  by (auto simp: stays_inside_def)

lemma stays_inside_bind:
  assumes "stays_inside s m" "\<And>j t. length t < length s \<Longrightarrow> terminated t \<Longrightarrow> stays_inside s (f j t)"
  shows "stays_inside s (obind m (\<lambda>r. case r of None \<Rightarrow> Returns None | Some (j, t) \<Rightarrow> f j t))"
  using assms by (auto simp: stays_inside_def split: option.splits)

locale value_parser =
  fixes "value" :: "string \<Rightarrow> json parsed" and bound :: nat
  assumes value_inside: "terminated s \<Longrightarrow> length s < bound \<Longrightarrow> stays_inside s (value s)"
begin

lemma value_skip: "terminated s \<Longrightarrow> length s < bound \<Longrightarrow> stays_inside s (value (buffer_skip_whitespace s))"
  using value_inside [OF terminated_skip] length_skip [of s] stays_inside_longer by fastforce

lemma elements_inside: "terminated s \<Longrightarrow> length s < bound \<Longrightarrow> length s < n \<Longrightarrow> stays_inside s (parse_elements value n s)"
proof (induction n arbitrary: s)
  case (Suc n)
  show ?case unfolding parse_elements.simps
  proof (rule stays_inside_bind [OF value_skip [OF Suc.prems(1,2)]])
    fix j t assume t: "length t < length s" "terminated t"
    obtain c u where u: "buffer_skip_whitespace t = c # u" using t(2) by (metis skip_nonempty terminated_nonempty neq_Nil_conv)
    have "terminated (c # u)" "length u < length t" using terminated_skip [OF t(2)] length_skip [of t] u by simp_all
    then have "c \<noteq> CHR 0x00 \<Longrightarrow> terminated u" "length u < length s" "length u < n" using t(1) Suc.prems(3) by (simp_all add: terminated_Cons)
    then show "stays_inside s (case buffer_skip_whitespace t of [] \<Rightarrow> Returns None
            | c # u \<Rightarrow> if c = CHR '','' then obind (parse_elements value n u) (\<lambda>r. Returns (map_option (\<lambda>(js, s). (j # js, s)) r))
                else if c = CHR '']'' then Returns (Some ([j], u)) else Returns None)"
      using u Suc.IH [of u] Suc.prems(2) stays_inside_longer [of u _ s] stays_inside_map [of s "parse_elements value n u" "Cons j"] by auto
  qed
qed simp

lemma members_inside: "terminated s \<Longrightarrow> length s < bound \<Longrightarrow> length s < n \<Longrightarrow> stays_inside s (parse_members value n s)"
proof (induction n arbitrary: s)
  case (Suc n)
  have name: "stays_inside s (parse_string (buffer_skip_whitespace s))"
  proof -
    have "terminated (buffer_skip_whitespace s)" "length (buffer_skip_whitespace s) \<le> length s"
      using terminated_skip [OF Suc.prems(1)] length_skip by blast+
    moreover obtain r where "parse_string (buffer_skip_whitespace s) = Returns r"
      using terminated_nonempty [OF calculation(1)] by (cases "buffer_skip_whitespace s") (auto simp: parse_string_def)
    ultimately show ?thesis using parse_string_rest [of "buffer_skip_whitespace s"] by (fastforce simp: stays_inside_def)
  qed
  show ?case unfolding parse_members.simps
  proof (rule stays_inside_bind [OF name])
    fix nm t assume t: "length t < length s" "terminated t"
    obtain c u where u: "buffer_skip_whitespace t = c # u" using t(2) by (metis skip_nonempty terminated_nonempty neq_Nil_conv)
    have cu: "terminated (c # u)" "length u < length t" using terminated_skip [OF t(2)] length_skip [of t] u by simp_all
    show "stays_inside s (case buffer_skip_whitespace t of [] \<Rightarrow> Returns None
            | c # u \<Rightarrow>
                if c \<noteq> CHR '':'' then Returns None
                else obind (value (buffer_skip_whitespace u)) (\<lambda>r. case r of None \<Rightarrow> Returns None
                  | Some (j, v) \<Rightarrow>
                      (case buffer_skip_whitespace v of [] \<Rightarrow> Returns None
                       | d # w \<Rightarrow>
                           if d = CHR '','' then
                             obind (parse_members value n w) (\<lambda>r. Returns (map_option (\<lambda>(ms, s). ((nm, j) # ms, s)) r))
                           else if d = CHR ''}'' then Returns (Some ([(nm, j)], w))
                           else Returns None)))"
    proof (cases "c = CHR '':''")
      case True
      then have tu: "terminated u" "length u < bound" using cu t(1) Suc.prems(2) by (auto simp: terminated_Cons)
      have "stays_inside u (obind (value (buffer_skip_whitespace u)) (\<lambda>r. case r of None \<Rightarrow> Returns None
                  | Some (j, v) \<Rightarrow>
                      (case buffer_skip_whitespace v of [] \<Rightarrow> Returns None
                       | d # w \<Rightarrow>
                           if d = CHR '','' then
                             obind (parse_members value n w) (\<lambda>r. Returns (map_option (\<lambda>(ms, s). ((nm, j) # ms, s)) r))
                           else if d = CHR ''}'' then Returns (Some ([(nm, j)], w))
                           else Returns None)))"
      proof (rule stays_inside_bind [OF value_skip [OF tu]])
        fix j v assume v: "length v < length u" "terminated v"
        obtain d w where w: "buffer_skip_whitespace v = d # w" using v(2) by (metis skip_nonempty terminated_nonempty neq_Nil_conv)
        have dw: "terminated (d # w)" "length w < length v" using terminated_skip [OF v(2)] length_skip [of v] w by simp_all
        then have "d \<noteq> CHR 0x00 \<Longrightarrow> terminated w" "length w < length u" "length w < n" "length w < bound"
          using v(1) cu(2) t(1) Suc.prems tu(2) by (simp_all add: terminated_Cons)
        then show "stays_inside u (case buffer_skip_whitespace v of [] \<Rightarrow> Returns None
                       | d # w \<Rightarrow>
                           if d = CHR '','' then
                             obind (parse_members value n w) (\<lambda>r. Returns (map_option (\<lambda>(ms, s). ((nm, j) # ms, s)) r))
                           else if d = CHR ''}'' then Returns (Some ([(nm, j)], w))
                           else Returns None)"
          using w Suc.IH [of w] stays_inside_longer [of w _ u] stays_inside_map [of u "parse_members value n w" "Cons (nm, j)"] by auto
      qed
      from stays_inside_longer [OF this] have "stays_inside s (obind (value (buffer_skip_whitespace u)) (\<lambda>r. case r of None \<Rightarrow> Returns None
                  | Some (j, v) \<Rightarrow>
                      (case buffer_skip_whitespace v of [] \<Rightarrow> Returns None
                       | d # w \<Rightarrow>
                           if d = CHR '','' then
                             obind (parse_members value n w) (\<lambda>r. Returns (map_option (\<lambda>(ms, s). ((nm, j) # ms, s)) r))
                           else if d = CHR ''}'' then Returns (Some ([(nm, j)], w))
                           else Returns None)))"
        using cu(2) t(1) by simp
      then show ?thesis using True u by simp
    qed (use u in simp)
  qed
qed simp

lemma array_inside: "terminated s \<Longrightarrow> length s \<le> bound \<Longrightarrow> length s \<le> n \<Longrightarrow> stays_inside s (parse_array value n depth s)"
proof -
  assume s: "terminated s" "length s \<le> bound" "length s \<le> n"
  obtain c t where ct: "s = c # t" using s(1) by (metis terminated_nonempty neq_Nil_conv)
  show ?thesis
  proof (cases "c = CHR ''['' \<and> depth < CJSON_NESTING_LIMIT")
    case True
    then have t: "terminated t" using s(1) ct by (simp add: terminated_Cons)
    obtain d u where u: "buffer_skip_whitespace t = d # u" using t by (metis skip_nonempty terminated_nonempty neq_Nil_conv)
    have du: "terminated (d # u)" "length (d # u) \<le> length t" using terminated_skip [OF t] length_skip [of t] u by simp_all
    have "stays_inside s (parse_elements value n (d # u))"
      using elements_inside [OF du(1), of n] du(2) s ct stays_inside_longer by fastforce
    then show ?thesis using True ct u du stays_inside_map [of s "parse_elements value n (d # u)" JArray]
      by (auto simp: parse_array_def terminated_Cons)
  qed (use ct in \<open>auto simp: parse_array_def\<close>)
qed

lemma object_inside: "terminated s \<Longrightarrow> length s \<le> bound \<Longrightarrow> length s \<le> n \<Longrightarrow> stays_inside s (parse_object value n depth s)"
proof -
  assume s: "terminated s" "length s \<le> bound" "length s \<le> n"
  obtain c t where ct: "s = c # t" using s(1) by (metis terminated_nonempty neq_Nil_conv)
  show ?thesis
  proof (cases "c = CHR ''{'' \<and> depth < CJSON_NESTING_LIMIT")
    case True
    then have t: "terminated t" using s(1) ct by (simp add: terminated_Cons)
    obtain d u where u: "buffer_skip_whitespace t = d # u" using t by (metis skip_nonempty terminated_nonempty neq_Nil_conv)
    have du: "terminated (d # u)" "length (d # u) \<le> length t" using terminated_skip [OF t] length_skip [of t] u by simp_all
    have "stays_inside s (parse_members value n (d # u))"
      using members_inside [OF du(1), of n] du(2) s ct stays_inside_longer by fastforce
    then show ?thesis using True ct u du stays_inside_map [of s "parse_members value n (d # u)" JObject]
      by (auto simp: parse_object_def terminated_Cons)
  qed (use ct in \<open>auto simp: parse_object_def\<close>)
qed

end

lemma starts_drop:
  assumes "starts pat s" "CHR 0x00 \<notin> set pat" "pat \<noteq> []" "terminated s"
  shows "length (drop (length pat) s) < length s \<and> terminated (drop (length pat) s)"
proof -
  have "CHR 0x00 \<notin> set (take (length pat) s)" using assms(1,2) by (simp add: starts_def)
  moreover have "s \<noteq> []" using assms(4) terminated_nonempty by blast
  ultimately show ?thesis using terminated_drop [OF assms(4)] assms(3) by simp
qed

lemma parse_value_inside: "terminated s \<Longrightarrow> length s < n \<Longrightarrow> stays_inside s (parse_value n depth s)"
proof (induction n arbitrary: depth s)
  case (Suc n)
  have v: "value_parser (parse_value n (Suc depth)) n" by (rule value_parser.intro) (rule Suc.IH)
  obtain c t where ct: "s = c # t" using Suc.prems(1) by (metis terminated_nonempty neq_Nil_conv)
  have "stays_inside s (obind (parse_string s) (\<lambda>r. Returns (map_option (\<lambda>(t, s). (JString t, s)) r)))"
  proof (rule stays_inside_map)
    obtain r where "parse_string s = Returns r" using ct by (auto simp: parse_string_def)
    then show "stays_inside s (parse_string s)" using parse_string_rest [of s] Suc.prems(1) by (fastforce simp: stays_inside_def)
  qed
  moreover have "stays_inside s (Returns (parse_number s))"
    using parse_number_rest [of s] Suc.prems(1) by (auto simp: stays_inside_def)
  moreover have "stays_inside s (parse_array (parse_value n (Suc depth)) n depth s)" "stays_inside s (parse_object (parse_value n (Suc depth)) n depth s)"
    using value_parser.array_inside [OF v] value_parser.object_inside [OF v] Suc.prems by simp_all
  moreover have "starts ''null'' s \<Longrightarrow> stays_inside s (Returns (Some (JNull, drop 4 s)))"
    "starts ''false'' s \<Longrightarrow> stays_inside s (Returns (Some (JFalse, drop 5 s)))"
    "starts ''true'' s \<Longrightarrow> stays_inside s (Returns (Some (JTrue, drop 4 s)))"
    using starts_drop [of "''null''" s] starts_drop [of "''false''" s] starts_drop [of "''true''" s] Suc.prems(1)
    by (simp_all add: eval_nat_numeral)
  ultimately show ?case
    unfolding ct by (simp only: parse_value.simps list.case stays_inside_None if_split) simp
qed simp

interpretation cjson: value_parser "parse_value n depth" n for n depth
  by (rule value_parser.intro) (rule parse_value_inside)

lemma terminated_bom: "terminated s \<Longrightarrow> terminated (skip_utf8_bom s) \<and> length (skip_utf8_bom s) \<le> length s"
  using terminated_drop [of s 3] by (auto simp: skip_utf8_bom_def)

text \<open>
  C34: the parser of both servers ends on every line and every file, with a document or an error, and never
  reads behind the terminating zero of its text, whatever the text is: broken, cut off, or deeply nested.
\<close>

theorem json_parse_ends:
  assumes "CHR 0x00 \<notin> set value"
  shows "\<exists>r. cJSON_ParseWithOpts value require_null_terminated = Returns r \<and>
    (\<forall>j t. r = Some (j, t) \<longrightarrow> terminated t \<and> length t \<le> length value)"
proof -
  let ?s = "buffer_skip_whitespace (skip_utf8_bom (value @ [CHR 0x00]))"
  have "terminated (value @ [CHR 0x00])" using assms by (auto simp: terminated_def)
  then have s: "terminated ?s" "length ?s \<le> length value + 1"
    using terminated_bom terminated_skip length_skip [of "skip_utf8_bom (value @ [CHR 0x00])"] by fastforce+
  obtain r where r: "parse_value (length ?s + 1) 0 ?s = Returns r" "\<And>j t. r = Some (j, t) \<Longrightarrow> length t < length ?s \<and> terminated t"
    using cjson.value_inside [OF s(1), of "length ?s + 1" 0] by (auto simp: stays_inside_def)
  show ?thesis
  proof (cases r)
    case None
    then show ?thesis using r by (simp add: cJSON_ParseWithOpts_def cJSON_ParseWithLengthOpts_def Let_def)
  next
    case (Some jt)
    then obtain j t where t: "r = Some (j, t)" "length t < length ?s" "terminated t" using r(2) by (cases jt) auto
    have "length t \<le> length value" "length (buffer_skip_whitespace t) \<le> length value"
      using t(2) s(2) length_skip [of t] by linarith+
    then show ?thesis using r(1) t terminated_skip [OF t(3)]
      by (cases require_null_terminated) (auto simp: cJSON_ParseWithOpts_def cJSON_ParseWithLengthOpts_def Let_def)
  qed
qed

section \<open>Nesting\<close>

fun json_depth :: "json \<Rightarrow> nat" where
  "json_depth (JArray js) = Suc (foldr max (map json_depth js) 0)"
| "json_depth (JObject ms) = Suc (foldr max (map (\<lambda>(k, j). json_depth j) ms) 0)"
| "json_depth _ = 0"

lemma foldr_max_le: "\<forall>x \<in> set xs. x \<le> k \<Longrightarrow> foldr max xs 0 \<le> (k :: nat)"
  by (induction xs) auto

lemma parse_option_cases:
  assumes "(case r of None \<Rightarrow> Returns None | Some (j, t) \<Rightarrow> f j t) = Returns (Some y)"
  obtains j t where "r = Some (j, t)" "f j t = Returns (Some y)"
  using assms by (cases r) auto

lemma parse_map_option:
  "obind m (\<lambda>r. Returns (map_option (\<lambda>(j, t). (f j, t)) r)) = Returns (Some (y, t)) \<longleftrightarrow> (\<exists>j. m = Returns (Some (j, t)) \<and> y = f j)"
  by (auto simp: obind_Returns)

lemma elements_depth:
  assumes v: "\<And>s j t. value s = Returns (Some (j, t)) \<Longrightarrow> json_depth j \<le> k"
  shows "parse_elements value n s = Returns (Some (js, t)) \<Longrightarrow> \<forall>j \<in> set js. json_depth j \<le> k"
proof (induction n arbitrary: s js t)
  case (Suc n)
  then obtain j u where j: "value (buffer_skip_whitespace s) = Returns (Some (j, u))"
    "(case buffer_skip_whitespace u of [] \<Rightarrow> Returns None
      | c # w \<Rightarrow> if c = CHR '','' then obind (parse_elements value n w) (\<lambda>r. Returns (map_option (\<lambda>(js, s). (j # js, s)) r))
          else if c = CHR '']'' then Returns (Some ([j], w)) else Returns None) = Returns (Some (js, t))"
    unfolding parse_elements.simps by (elim obindE parse_option_cases) blast
  then obtain c w where "buffer_skip_whitespace u = c # w" by (cases "buffer_skip_whitespace u") auto
  then have "js = [j] \<or> (\<exists>is. parse_elements value n w = Returns (Some (is, t)) \<and> js = j # is)"
    using j(2) by (auto simp: parse_map_option split: if_splits)
  then show ?case using Suc.IH v [OF j(1)] by auto
qed simp

lemma members_depth:
  assumes v: "\<And>s j t. value s = Returns (Some (j, t)) \<Longrightarrow> json_depth j \<le> k"
  shows "parse_members value n s = Returns (Some (ms, t)) \<Longrightarrow> \<forall>m \<in> set ms. json_depth (snd m) \<le> k"
proof (induction n arbitrary: s ms t)
  case (Suc n)
  then obtain name u where name: "(case buffer_skip_whitespace u of [] \<Rightarrow> Returns None
            | c # u \<Rightarrow>
                if c \<noteq> CHR '':'' then Returns None
                else obind (value (buffer_skip_whitespace u)) (\<lambda>r. case r of None \<Rightarrow> Returns None
                  | Some (j, v) \<Rightarrow>
                      (case buffer_skip_whitespace v of [] \<Rightarrow> Returns None
                       | d # w \<Rightarrow>
                           if d = CHR '','' then
                             obind (parse_members value n w) (\<lambda>r. Returns (map_option (\<lambda>(ms, s). ((name, j) # ms, s)) r))
                           else if d = CHR ''}'' then Returns (Some ([(name, j)], w))
                           else Returns None))) = Returns (Some (ms, t))"
    unfolding parse_members.simps by (elim obindE parse_option_cases) blast
  then obtain u' where u': "obind (value (buffer_skip_whitespace u')) (\<lambda>r. case r of None \<Rightarrow> Returns None
                  | Some (j, v) \<Rightarrow>
                      (case buffer_skip_whitespace v of [] \<Rightarrow> Returns None
                       | d # w \<Rightarrow>
                           if d = CHR '','' then
                             obind (parse_members value n w) (\<lambda>r. Returns (map_option (\<lambda>(ms, s). ((name, j) # ms, s)) r))
                           else if d = CHR ''}'' then Returns (Some ([(name, j)], w))
                           else Returns None)) = Returns (Some (ms, t))"
    by (cases "buffer_skip_whitespace u") (auto split: if_splits)
  then obtain j v' where j: "value (buffer_skip_whitespace u') = Returns (Some (j, v'))"
    "(case buffer_skip_whitespace v' of [] \<Rightarrow> Returns None
       | d # w \<Rightarrow>
           if d = CHR '','' then
             obind (parse_members value n w) (\<lambda>r. Returns (map_option (\<lambda>(ms, s). ((name, j) # ms, s)) r))
           else if d = CHR ''}'' then Returns (Some ([(name, j)], w))
           else Returns None) = Returns (Some (ms, t))"
    by (elim obindE parse_option_cases) blast
  then obtain d w where "buffer_skip_whitespace v' = d # w" by (cases "buffer_skip_whitespace v'") auto
  then have "ms = [(name, j)] \<or> (\<exists>ns. parse_members value n w = Returns (Some (ns, t)) \<and> ms = (name, j) # ns)"
    using j(2) by (auto simp: parse_map_option split: if_splits)
  then show ?case using Suc.IH v [OF j(1)] by fastforce
qed simp

lemma value_depth: "parse_value n depth s = Returns (Some (j, t)) \<Longrightarrow> json_depth j \<le> CJSON_NESTING_LIMIT - depth"
proof (induction n arbitrary: depth s j t)
  case (Suc n)
  let ?v = "parse_value n (Suc depth)"
  have nested: "Suc (foldr max ks 0) \<le> CJSON_NESTING_LIMIT - depth"
    if "depth < CJSON_NESTING_LIMIT" "\<forall>k \<in> set ks. k \<le> CJSON_NESTING_LIMIT - Suc depth" for ks
    using foldr_max_le [OF that(2)] that(1) by linarith
  have array: "json_depth j \<le> CJSON_NESTING_LIMIT - depth" if h: "parse_array ?v n depth s = Returns (Some (j, t))"
  proof -
    have d: "depth < CJSON_NESTING_LIMIT" using h by (auto simp: parse_array_def split: if_splits)
    obtain js where js: "j = JArray js" "js = [] \<or> (\<exists>u. parse_elements ?v n u = Returns (Some (js, t)))"
      using h by (auto simp: parse_array_def parse_map_option split: if_splits list.splits)
    have "\<forall>j \<in> set js. json_depth j \<le> CJSON_NESTING_LIMIT - Suc depth"
      using js(2) elements_depth [of ?v, OF Suc.IH] by (elim disjE exE) simp_all
    then show ?thesis using nested [OF d, of "map json_depth js"] js(1) by simp
  qed
  have object: "json_depth j \<le> CJSON_NESTING_LIMIT - depth" if h: "parse_object ?v n depth s = Returns (Some (j, t))"
  proof -
    have d: "depth < CJSON_NESTING_LIMIT" using h by (auto simp: parse_object_def split: if_splits)
    obtain ms where ms: "j = JObject ms" "ms = [] \<or> (\<exists>u. parse_members ?v n u = Returns (Some (ms, t)))"
      using h by (auto simp: parse_object_def parse_map_option split: if_splits list.splits)
    have "\<forall>m \<in> set ms. json_depth (snd m) \<le> CJSON_NESTING_LIMIT - Suc depth"
      using ms(2) members_depth [of ?v, OF Suc.IH] by (elim disjE exE) simp_all
    then show ?thesis using nested [OF d, of "map (\<lambda>(k, j). json_depth j) ms"] ms(1) by (auto simp: case_prod_beta)
  qed
  have scalar: "json_depth j = 0" if "parse_number s = Some (j, t) \<or> (\<exists>u. j = JString u) \<or> j \<in> {JNull, JTrue, JFalse}"
    using that by (auto simp: parse_number_def Let_def split: prod.splits if_splits)
  show ?case
  proof (cases s)
    case (Cons c u)
    have "parse_array ?v n depth s = Returns (Some (j, t)) \<or> parse_object ?v n depth s = Returns (Some (j, t)) \<or>
        parse_number s = Some (j, t) \<or> (\<exists>u. j = JString u) \<or> j \<in> {JNull, JTrue, JFalse}"
      using Suc.prems unfolding parse_value.simps Cons list.case by (simp only: parse_map_option split: if_splits) auto
    then show ?thesis using array object scalar by auto
  qed (use Suc.prems in \<open>simp add: starts_def\<close>)
qed simp

lemma json_parse_depth: "cJSON_ParseWithOpts value req = Returns (Some (j, t)) \<Longrightarrow> json_depth j \<le> CJSON_NESTING_LIMIT"
proof -
  assume "cJSON_ParseWithOpts value req = Returns (Some (j, t))"
  then obtain i u where i: "parse_value (length (buffer_skip_whitespace (skip_utf8_bom (value @ [CHR 0x00]))) + 1) 0
        (buffer_skip_whitespace (skip_utf8_bom (value @ [CHR 0x00]))) = Returns (Some (i, u))"
    "(if req then let w = buffer_skip_whitespace u in Returns (if w = [] \<or> hd w \<noteq> CHR 0x00 then None else Some (i, w))
      else Returns (Some (i, u))) = Returns (Some (j, t))"
    unfolding cJSON_ParseWithOpts_def cJSON_ParseWithLengthOpts_def Let_def
    by (simp only: append_is_Nil_conv list.distinct simp_thms if_False) (elim obindE parse_option_cases, blast)
  then have "i = j" by (auto simp: Let_def split: if_splits)
  then show ?thesis using value_depth [OF i(1)] by simp
qed

theorem json_parse_ends_witness:
  "\<exists>r. cJSON_ParseWithOpts ''[1,{'' False = Returns r"
  using json_parse_ends [of "''[1,{''" False] by auto

end
