(* ===== verification/Json_Print.thy ===== *)
theory Json_Print
  imports Json_Parser
begin

text \<open>
  Printing of JSON documents (\<open>print_value\<close>, \<open>print_array\<close>, \<open>print_object\<close> of \<open>cJSON/cJSON.c\<close>), with and without
  format, and the round trip: the parser gives back what was printed. The growing buffer of the
  printer is its text.
\<close>

section \<open>Printing\<close>

fun join :: "string \<Rightarrow> string list \<Rightarrow> string" where
  "join sep [] = []"
| "join sep [s] = s"
| "join sep (s # t # ss) = s @ sep @ join sep (t # ss)"

definition print_array :: "bool \<Rightarrow> string list \<Rightarrow> string" where
  "print_array format texts = ''['' @ join (if format then '', '' else '','') texts @ '']''"

definition newline :: "bool \<Rightarrow> string" where
  "newline format = (if format then [CHR 0x0A] else [])"

definition tabs :: "bool \<Rightarrow> nat \<Rightarrow> string" where
  "tabs format depth = (if format then replicate depth (CHR 0x09) else [])"

definition print_member :: "bool \<Rightarrow> nat \<Rightarrow> string \<Rightarrow> string \<Rightarrow> string" where
  "print_member format depth name text = tabs format depth @ print_string_ptr name @ '':'' @ tabs format 1 @ text"

definition print_object :: "bool \<Rightarrow> nat \<Rightarrow> string list \<Rightarrow> string" where
  "print_object format depth members = ''{'' @ newline format @ join ('','' @ newline format) members @
     (if members = [] then [] else newline format) @ tabs format depth @ ''}''"

text \<open>The depth is that of the value; it indents the members of objects.\<close>

fun print_value :: "bool \<Rightarrow> nat \<Rightarrow> json \<Rightarrow> string" where
  "print_value format depth JNull = ''null''"
| "print_value format depth JFalse = ''false''"
| "print_value format depth JTrue = ''true''"
| "print_value format depth (JNumber d) = print_number d"
| "print_value format depth (JString s) = print_string_ptr s"
| "print_value format depth (JArray js) = print_array format (map (print_value format (Suc depth)) js)"
| "print_value format depth (JObject ms) = print_object format depth
     (map (\<lambda>(name, j). print_member format (Suc depth) name (print_value format (Suc depth) j)) ms)"

definition cJSON_Print :: "json \<Rightarrow> string" where
  "cJSON_Print j = print_value True 0 j"

definition cJSON_PrintUnformatted :: "json \<Rightarrow> string" where
  "cJSON_PrintUnformatted j = print_value False 0 j"

section \<open>Strings\<close>

lemma of_char_hex: "k < 16 \<Longrightarrow> (of_char (hex_char k) :: nat) = (if k < 10 then 48 + k else 87 + k)"
  by (simp add: hex_char_def)

lemma hex_char_plain: "k < 16 \<Longrightarrow> hex_char k \<noteq> CHR 0x22 \<and> hex_char k \<noteq> CHR 0x5C"
  using of_char_hex [of k] by (auto split: if_splits)

lemma hex_digit_hex_char: "k < 16 \<Longrightarrow> hex_digit (hex_char k) = Some k"
  using of_char_hex [of k] by (auto simp: hex_digit_def Let_def)

lemma escape_char_cases:
  obtains (plain) "escape_char c = [c]" "c \<noteq> CHR 0x22" "c \<noteq> CHR 0x5C"
    | (short) d where "escape_char c = [CHR 0x5C, d]" "d \<noteq> CHR ''u''" "short_escape d = Some c"
    | (code) "escape_char c = [CHR 0x5C, CHR ''u'', CHR ''0'', CHR ''0'', hex_char (of_char c div 16), hex_char (of_char c mod 16)]"
        "(of_char c :: nat) < 32"
proof (cases "31 < (of_char c :: nat) \<and> c \<noteq> CHR 0x22 \<and> c \<noteq> CHR 0x5C")
  case True
  then show ?thesis by (intro plain) (simp_all add: escape_char_def Let_def)
next
  case outer: False
  show ?thesis
  proof (cases "c \<in> {CHR 0x5C, CHR 0x22, CHR 0x08, CHR 0x0C, CHR 0x0A, CHR 0x0D, CHR 0x09}")
    case True
    then show ?thesis
      by (elim insertE) (auto simp: escape_char_def short_escape_def intro: short)
  next
    case False
    then show ?thesis using outer by (intro code) (auto simp: escape_char_def Let_def)
  qed
qed

lemma scan_escaped: "scan_string (escape_char c @ r) = map_option (\<lambda>(b, t). (escape_char c @ b, t)) (scan_string r)"
proof (cases c rule: escape_char_cases)
  case code
  then have "of_char c div 16 < (16 :: nat)" "of_char c mod 16 < (16 :: nat)" by auto
  then show ?thesis using code(1) hex_char_plain
    by (cases "scan_string r") auto
qed (cases "scan_string r", auto)+

lemma scan_string_escaped: "scan_string (concat (map escape_char s) @ CHR 0x22 # rest) = Some (concat (map escape_char s), rest)"
  by (induction s) (simp_all add: scan_escaped)

lemma utf16_escaped:
  assumes "n < 32"
  shows "utf16_literal_to_utf8 ([CHR 0x5C, CHR ''u'', CHR ''0'', CHR ''0'', hex_char (n div 16), hex_char (n mod 16)] @ r) = Some ([char_of n], 6)"
proof -
  have "n div 16 < 16" "n mod 16 < 16" using assms by auto
  then have "parse_hex4 ([CHR ''0'', CHR ''0'', hex_char (n div 16), hex_char (n mod 16)] @ r) = n"
    using hex_digit_hex_char by (simp add: parse_hex4_def hex_digit_def)
  then show ?thesis using assms by (simp add: utf16_literal_to_utf8_def utf8_def Let_def)
qed

lemma unescape_code:
  "unescape (CHR 0x5C # CHR ''u'' # s) = (case utf16_literal_to_utf8 (CHR 0x5C # CHR ''u'' # s) of None \<Rightarrow> None
     | Some (b, n) \<Rightarrow> map_option (append b) (unescape (drop (n - 1) (CHR ''u'' # s))))"
  by simp

lemma unescape_escaped: "unescape (escape_char c @ r) = map_option (Cons c) (unescape r)"
proof (cases c rule: escape_char_cases)
  case (short d)
  then show ?thesis by simp
next
  case code
  let ?s = "[CHR ''0'', CHR ''0'', hex_char (of_char c div 16), hex_char (of_char c mod 16)] @ r"
  have t: "escape_char c @ r = CHR 0x5C # CHR ''u'' # ?s" using code(1) by simp
  have "utf16_literal_to_utf8 (CHR 0x5C # CHR ''u'' # ?s) = Some ([c], 6)" using utf16_escaped [OF code(2), of r] by simp
  moreover have "drop (6 - 1) (CHR ''u'' # ?s) = r" by simp
  ultimately have "unescape (CHR 0x5C # CHR ''u'' # ?s) = map_option (append [c]) (unescape r)"
    by (simp only: unescape_code option.case prod.case)
  then show ?thesis unfolding t by (cases "unescape r") simp_all
qed simp

lemma unescape_string: "unescape (concat (map escape_char s)) = Some s"
  by (induction s) (simp_all add: unescape_escaped)

lemma parse_print_string:
  assumes "CHR 0x00 \<notin> set s"
  shows "parse_string (print_string_ptr s @ rest) = Returns (Some (s, rest))"
proof -
  have "takeWhile (\<lambda>c. c \<noteq> CHR 0x00) s = s" using assms by (auto simp: takeWhile_eq_all_conv)
  then show ?thesis by (simp add: parse_string_def print_string_ptr_def scan_string_escaped unescape_string)
qed

section \<open>Numbers\<close>

text \<open>An integer of at most 53 bits is a double without rounding.\<close>

lemma bitlen_bounds: "0 < m \<Longrightarrow> 2 ^ (bitlen m - 1) \<le> m \<and> m < 2 ^ bitlen m \<and> 0 < bitlen m"
proof -
  assume m: "0 < m"
  then have pos: "0 < bitlen m" using bitlen_ge [of 0 m] by simp
  have "\<not> m < 2 ^ (bitlen m - 1)" using bitlen_le [of m "bitlen m - 1"] pos by auto
  moreover have "\<not> 2 ^ bitlen m \<le> m" using bitlen_ge [of "bitlen m" m] by auto
  ultimately show ?thesis using pos by simp
qed

lemma unat_small: "n < 2 ^ 64 \<Longrightarrow> unat (word_of_nat n :: u64) = n"
  by (simp add: unsigned_of_nat take_bit_nat_eq_self)

lemma sign_bit: "n < 2 ^ 63 \<Longrightarrow> odd ((of_bool s * 2 ^ 63 + n) div (2 :: nat) ^ 63) = s"
  by (cases s) (simp_all add: div_add_self1)

lemma scaled_le: "0 < p \<Longrightarrow> i * p < j * p \<or> i * p = j * p \<longleftrightarrow> i \<le> (j :: int)"
  by auto

lemma f64_val_exact:
  assumes "0 < m" "m < 2 ^ 53"
  shows "f64_val (f64_of (Fin s m 0)) = Fin s (m * 2 ^ (53 - bitlen m)) (int (bitlen m) - 53)"
proof -
  let ?k = "bitlen m" and ?q = "m * 2 ^ (53 - bitlen m)"
  have k: "0 < ?k" "?k \<le> 53" and m: "2 ^ (?k - 1) \<le> m" "m < 2 ^ ?k"
    using bitlen_bounds [OF assms(1)] bitlen_le [OF assms(2)] by auto
  have "2 ^ (?k - 1) * 2 ^ (53 - ?k) = (2 :: nat) ^ 52" "2 ^ ?k * 2 ^ (53 - ?k) = (2 :: nat) ^ 53"
    unfolding power_add [symmetric] using k by simp_all
  then have q: "2 ^ 52 \<le> ?q" "?q < 2 ^ 53"
    using mult_le_mono1 [OF m(1), of "2 ^ (53 - ?k)"] mult_less_mono1 [OF m(2), of "2 ^ (53 - ?k)"] by simp_all
  let ?n = "(?k + 1021) * 2 ^ 52 + ?q"
  have n: "?n = (?k + 1022) * 2 ^ 52 + (?q - 2 ^ 52)" using q(1) by simp
  have lt: "?q - 2 ^ 52 < 2 ^ 52" using q by simp
  have top: "?n < 2047 * 2 ^ 52" using k q by simp
  have round: "fp_round_fin 52 11 m 0 = ?n"
  proof -
    have "max (int ?k - int (52 + 1)) (fp_emin 52 11 - 0) = int ?k - 53" using k by (simp add: fp_emin_def)
    moreover have "nat (- (int ?k - 53)) = 53 - ?k" "nat (0 + (int ?k - 53) - fp_emin 52 11) = ?k + 1021"
      using k by (simp_all add: fp_emin_def)
    moreover have "int ?k - 53 \<le> 0" using k by simp
    ultimately show ?thesis using top assms(1) unfolding fp_round_fin_def Let_def by simp
  qed
  let ?w = "of_bool s * 2 ^ 63 + ?n"
  have small: "?n < 2 ^ 63" using top by simp
  have w: "fp_encode 52 11 (Fin s m 0) = ?w" using round by (simp add: fp_encode_def)
  have "?w < 2 ^ 64" using small by (cases s) simp_all
  then have u: "unat (f64_of (Fin s m 0)) = ?w" unfolding f64_of_def w by (rule unat_small)
  have sign: "odd (?w div 2 ^ (52 + 11)) = s" using sign_bit [OF small] by simp
  have frac: "?w mod 2 ^ 52 = ?q - 2 ^ 52"
  proof -
    have "?w = (of_bool s * 2 ^ 11 + (?k + 1022)) * 2 ^ 52 + (?q - 2 ^ 52)" unfolding n by simp
    then show ?thesis using lt by (simp only: mod_mult_self3 mod_less)
  qed
  have exp: "?w div 2 ^ 52 = of_bool s * 2 ^ 11 + (?k + 1022)"
  proof -
    have "?w = (?q - 2 ^ 52) + (of_bool s * 2 ^ 11 + (?k + 1022)) * 2 ^ 52" unfolding n by simp
    then show ?thesis using lt by (simp only: div_mult_self1) simp
  qed
  have ex: "(?w div 2 ^ 52) mod 2 ^ 11 = ?k + 1022" 
    unfolding exp mod_mult_self3 using k by (intro mod_less) simp
  show ?thesis unfolding f64_val_def u fp_decode_def Let_def sign frac ex using k q by (simp add: fp_emin_def)
qed

lemma saturate_exact: "-2147483648 \<le> i \<Longrightarrow> i \<le> 2147483647 \<Longrightarrow> saturate_int (f64_of_int i) = i"
proof (cases "i = 0")
  case True
  then show ?thesis by (simp add: f64_of_int_def saturate_int_def f64_of_def fp_encode_def fp_round_fin_def f64_val_def fp_decode_def
      fp_emin_def Let_def fv_le_def signed_def)
next
  case False
  assume i: "-2147483648 \<le> i" "i \<le> 2147483647"
  let ?m = "nat \<bar>i\<bar>"
  let ?p = "2 ^ (53 - bitlen ?m) :: int"
  have m: "0 < ?m" "?m < 2 ^ 53" using i False by simp_all
  then have k: "bitlen ?m \<le> 53" by (intro bitlen_le)
  have e: "nat (int (bitlen ?m) - 53) = 0" "nat (53 - int (bitlen ?m)) = 53 - bitlen ?m" "nat (- (int (bitlen ?m) - 53)) = 53 - bitlen ?m"
      "min 0 (int (bitlen ?m) - 53) = int (bitlen ?m) - 53" "min (int (bitlen ?m) - 53) 0 = int (bitlen ?m) - 53"
    using k by simp_all
  have s: "signed (i < 0) (?m * 2 ^ (53 - bitlen ?m)) = i * ?p" by (auto simp: signed_def)
  have p: "0 < ?p" by simp
  have val: "f64_val (f64_of_int i) = Fin (i < 0) (?m * 2 ^ (53 - bitlen ?m)) (int (bitlen ?m) - 53)"
    unfolding f64_of_int_def by (rule f64_val_exact [OF m])
  have shift: "nat (0 - (int (bitlen ?m) - 53)) = 53 - bitlen ?m"
    "nat (int (bitlen ?m) - 53 - (int (bitlen ?m) - 53)) = 0" using k by simp_all
  have c: "signed False 2147483647 = 2147483647" "signed True 2147483648 = -2147483648" by (simp_all add: signed_def)
  have le1: "fv_le (Fin False 2147483647 0) (f64_val (f64_of_int i)) \<longleftrightarrow> 2147483647 \<le> i"
    unfolding val fv_le_def fv_less.simps fv_eq.simps Let_def e shift s c power_0 mult_1_right by (rule scaled_le [OF p])
  have le2: "fv_le (f64_val (f64_of_int i)) (Fin True 2147483648 0) \<longleftrightarrow> i \<le> -2147483648"
    unfolding val fv_le_def fv_less.simps fv_eq.simps Let_def e shift s c power_0 mult_1_right by (rule scaled_le [OF p])
  have "fv_trunc (f64_val (f64_of_int i)) = Some i"
    unfolding val fv_trunc.simps e using k by (auto simp: signed_def)
  then show ?thesis unfolding saturate_int_def le1 le2 using i by simp
qed

definition int_number :: "f64 \<Rightarrow> bool" where
  "int_number d \<longleftrightarrow> d = f64_of_int (valueint (JNumber d)) \<and> \<bar>valueint (JNumber d)\<bar> \<le> 2147483648"

text \<open>A number that is an integer of 32 bits is printed as that integer.\<close>

lemma int_number_of_int: "-2147483648 \<le> i \<Longrightarrow> i \<le> 2147483647 \<Longrightarrow> int_number (f64_of_int i)"
  by (simp add: int_number_def saturate_exact)

lemma fv_eq_refl: "v = Fin s m e \<Longrightarrow> fv_eq v v"
  by simp

lemma f64_of_int_finite: "\<bar>i\<bar> \<le> 2147483648 \<Longrightarrow> \<exists>s m e. f64_val (f64_of_int i) = Fin s m e"
proof (cases "i = 0")
  case True
  then show ?thesis by (auto simp: f64_of_int_def f64_of_def fp_encode_def fp_round_fin_def f64_val_def fp_decode_def fp_emin_def Let_def)
next
  case False
  assume "\<bar>i\<bar> \<le> 2147483648"
  then have "0 < nat \<bar>i\<bar>" "nat \<bar>i\<bar> < 2 ^ 53" using False by simp_all
  then show ?thesis unfolding f64_of_int_def using f64_val_exact by blast
qed

lemma print_int_number: "int_number d \<Longrightarrow> print_number d = dec_int (valueint (JNumber d))"
proof -
  assume h: "int_number d"
  obtain s m e where v: "f64_val (f64_of_int (valueint (JNumber d))) = Fin s m e" "f64_val d = Fin s m e"
    using h f64_of_int_finite [of "valueint (JNumber d)"] unfolding int_number_def by metis
  then have "fv_eq (f64_val d) (f64_val (f64_of_int (valueint (JNumber d))))" by simp
  then show ?thesis unfolding print_number_def using v(2) by (simp add: Let_def)
qed

lemma digit_dec: "c \<in> set (dec_nat n) \<Longrightarrow> digit c"
  using dec_nat_digits [of c n] by (auto simp: digit_def)

lemma takeWhile_digits: "\<forall>c \<in> set s. P c \<Longrightarrow> (t = [] \<or> \<not> P (hd t)) \<Longrightarrow> takeWhile P (s @ t) = s"
  by (cases t) (auto simp: takeWhile_append)

lemma dec_nat_length: "n < 10 ^ k \<Longrightarrow> 0 < k \<Longrightarrow> length (dec_nat n) \<le> k"
proof (induction k arbitrary: n)
  case (Suc k)
  show ?case
  proof (cases "n < 10")
    case False
    then have "n div 10 < 10 ^ k" "0 < k" using Suc.prems(1) by (auto intro: gr0I)
    then show ?thesis using Suc.IH False by (subst dec_nat.simps) simp
  qed (subst dec_nat.simps, simp)
qed simp

lemma sign_of_dec: "sign_of (dec_int i) = (i < 0, dec_nat (nat \<bar>i\<bar>))"
proof (cases "i < 0")
  case False
  obtain c s where c: "dec_nat (nat i) = c # s" by (cases "dec_nat (nat i)") simp_all
  then have "digit c" using digit_dec [of c "nat i"] by simp
  then have "c \<noteq> CHR ''-''" "c \<noteq> CHR ''+''" by (auto simp: digit_def)
  then show ?thesis using False c by (auto simp: sign_of_def dec_int_def split: char.splits bool.splits)
qed (simp add: sign_of_def dec_int_def)

lemma strtod_dec: "strtod (dec_int i) = (f64_of_int i, length (dec_int i))"
proof -
  let ?ds = "dec_nat (nat \<bar>i\<bar>)"
  have "takeWhile digit ?ds = ?ds" "dropWhile digit ?ds = []"
    using digit_dec by (auto simp: takeWhile_eq_all_conv)
  then have "mantissa_of ?ds = (?ds, 0, [])" unfolding mantissa_of_def Let_def by (simp only: list.case)
  then show ?thesis by (simp add: strtod_def sign_of_dec exponent_of_def of_digits_dec decimal_def f64_of_int_def)
qed

lemma number_chars_dec: "c \<in> set (dec_int i) \<Longrightarrow> number_char c"
  using digit_dec by (auto simp: dec_int_def number_char_def split: if_splits)

lemma parse_dec_int:
  assumes "length (dec_int i) \<le> 62" "\<not> number_char c"
  shows "parse_number (dec_int i @ c # rest) = Some (JNumber (f64_of_int i), c # rest)"
proof -
  have "take 63 (dec_int i @ c # rest) = dec_int i @ take (63 - length (dec_int i)) (c # rest)" using assms(1) by simp
  also have "takeWhile number_char \<dots> = dec_int i"
    using assms number_chars_dec by (intro takeWhile_digits) (auto simp: hd_take take_Cons' )
  finally have "takeWhile number_char (take 63 (dec_int i @ c # rest)) = dec_int i" .
  moreover have "dec_int i \<noteq> []" by (simp add: dec_int_def)
  ultimately show ?thesis by (simp add: parse_number_def strtod_dec)
qed

lemma dec_int_length: "\<bar>i\<bar> \<le> 2147483648 \<Longrightarrow> length (dec_int i) \<le> 62"
proof -
  assume "\<bar>i\<bar> \<le> 2147483648"
  then have "nat \<bar>i\<bar> < 10 ^ 10" by simp
  then have "length (dec_nat (nat \<bar>i\<bar>)) \<le> 10" by (rule dec_nat_length) simp
  then show ?thesis by (cases "i < 0") (auto simp: dec_int_def)
qed

lemma parse_print_number:
  "int_number d \<Longrightarrow> \<not> number_char c \<Longrightarrow> parse_number (print_number d @ c # rest) = Some (JNumber d, c # rest)"
  using parse_dec_int [of "valueint (JNumber d)" c rest] dec_int_length [of "valueint (JNumber d)"] print_int_number [of d]
  unfolding int_number_def by (metis)

section \<open>Documents\<close>

text \<open>
  The values that are printed without loss: numbers are integers of 32 bits, and no name or string
  has a zero byte (no C string has).
\<close>

fun printable :: "json \<Rightarrow> bool" where
  "printable (JNumber d) = int_number d"
| "printable (JString s) = (CHR 0x00 \<notin> set s)"
| "printable (JArray js) = list_all printable js"
| "printable (JObject ms) = list_all (\<lambda>(name, j). CHR 0x00 \<notin> set name \<and> printable j) ms"
| "printable _ = True"

lemma skip_white: "set w \<subseteq> Collect white \<Longrightarrow> \<not> white c \<Longrightarrow> buffer_skip_whitespace (w @ c # s) = c # s"
  by (induction w) (auto simp: skip_Cons)

lemma white_space: "set (newline format) \<subseteq> Collect white" "set (tabs format k) \<subseteq> Collect white"
  by (auto simp: newline_def tabs_def white_def)

lemma visible: "\<not> white (CHR '','')" "\<not> white (CHR '']'')" "\<not> white (CHR ''}'')" "\<not> white (CHR '':'')" "\<not> white (CHR 0x22)"
  "\<not> white (CHR ''['')" "\<not> white (CHR ''{'')"
  by (simp_all add: white_def)

lemma digit_visible: "c = CHR ''-'' \<or> digit c \<Longrightarrow> \<not> white c"
  by (auto simp: white_def digit_def)

definition starts_value :: "char \<Rightarrow> bool" where
  "starts_value c \<longleftrightarrow> c \<in> {CHR ''n'', CHR ''f'', CHR ''t'', CHR 0x22, CHR ''['', CHR ''{'', CHR ''-''} \<or> digit c"

lemma starts_value_visible: "starts_value c \<Longrightarrow> \<not> white c \<and> c \<noteq> CHR '']'' \<and> c \<noteq> CHR ''}'' \<and> c \<noteq> CHR 0xEF"
  unfolding starts_value_def by (elim disjE insertE) (auto simp: white_def digit_def)

lemma dec_int_first: "\<exists>c t. dec_int i = c # t \<and> (c = CHR ''-'' \<or> digit c)"
proof -
  obtain c t where "dec_nat (nat \<bar>i\<bar>) = c # t" by (cases "dec_nat (nat \<bar>i\<bar>)") simp_all
  then show ?thesis using digit_dec [of c "nat \<bar>i\<bar>"] by (cases "i < 0") (auto simp: dec_int_def)
qed

lemma print_first: "printable j \<Longrightarrow> \<exists>c t. print_value format depth j = c # t \<and> starts_value c"
proof (cases j)
  case (JNumber d)
  assume "printable j"
  then show ?thesis using JNumber dec_int_first [of "valueint (JNumber d)"] by (auto simp: print_int_number starts_value_def)
qed (auto simp: print_string_ptr_def print_array_def print_object_def starts_value_def)

text \<open>A parser reads back a printed value, whatever follows that cannot belong to a number.\<close>

definition after_value :: "string \<Rightarrow> bool" where
  "after_value u \<longleftrightarrow> u \<noteq> [] \<and> \<not> number_char (hd u)"

definition reads_back :: "(string \<Rightarrow> json parsed) \<Rightarrow> string \<Rightarrow> json \<Rightarrow> bool" where
  "reads_back value text j \<longleftrightarrow> (\<forall>u. after_value u \<longrightarrow> value (text @ u) = Returns (Some (j, u))) \<and>
     (\<exists>c t. text = c # t \<and> starts_value c)"

lemma after_separator: "c \<in> {CHR '','', CHR '']'', CHR ''}'', CHR 0x0A, CHR 0x00} \<Longrightarrow> after_value (c # r)"
  unfolding after_value_def by (elim insertE) (simp_all add: number_char_def digit_def)

lemma after_white: "set w \<subseteq> Collect white \<Longrightarrow> after_value (w @ CHR ''}'' # r)"
  by (cases w) (auto simp: after_value_def number_char_def digit_def white_def)

lemma reads_back_skip:
  assumes "reads_back value text j" "set w \<subseteq> Collect white" "after_value u"
  shows "value (buffer_skip_whitespace (w @ text @ u)) = Returns (Some (j, u))"
proof -
  obtain d t where "text = d # t" "starts_value d" using assms(1) by (auto simp: reads_back_def)
  then have "buffer_skip_whitespace (w @ text @ u) = text @ u"
    using skip_white [OF assms(2), of d] starts_value_visible by simp
  then show ?thesis using assms(1,3) by (simp add: reads_back_def)
qed

lemma skip_visible: "\<not> white c \<Longrightarrow> buffer_skip_whitespace (c # s) = c # s"
  by (simp add: skip_Cons)

lemma parse_printed_elements:
  assumes "\<forall>j \<in> set js. reads_back value (print j) j" "js \<noteq> []" "length js \<le> n" "set w \<subseteq> Collect white" "set w' \<subseteq> Collect white"
  shows "parse_elements value n (w @ join (CHR '','' # w') (map print js) @ CHR '']'' # r) = Returns (Some (js, r))"
  using assms
proof (induction js arbitrary: n w)
  case (Cons j js)
  obtain m where n: "n = Suc m" "length js \<le> m" using Cons.prems(3) by (cases n) auto
  have j: "reads_back value (print j) j" using Cons.prems(1) by simp
  show ?case
  proof (cases js)
    case Nil
    have "value (buffer_skip_whitespace (w @ print j @ CHR '']'' # r)) = Returns (Some (j, CHR '']'' # r))"
      by (rule reads_back_skip [OF j Cons.prems(4) after_separator]) simp
    then show ?thesis using Nil n by (simp add: skip_visible visible)
  next
    case (Cons k ks)
    let ?t = "w' @ join (CHR '','' # w') (map print js) @ CHR '']'' # r"
    have "value (buffer_skip_whitespace (w @ print j @ CHR '','' # ?t)) = Returns (Some (j, CHR '','' # ?t))"
      by (rule reads_back_skip [OF j Cons.prems(4) after_separator]) simp
    moreover have "parse_elements value m ?t = Returns (Some (js, r))"
      using Cons.IH [of m w'] Cons.prems Cons n by simp
    ultimately show ?thesis using Cons n by (simp add: skip_visible visible)
  qed
qed simp

definition member_text :: "string \<Rightarrow> string \<Rightarrow> (json \<Rightarrow> string) \<Rightarrow> string \<times> json \<Rightarrow> string" where
  "member_text s s' print m = s @ print_string_ptr (fst m) @ CHR '':'' # s' @ print (snd m)"

text \<open>One pass of the loop over the members, up to what follows the value.\<close>

lemma parse_printed_member:
  assumes "CHR 0x00 \<notin> set (fst m)" "reads_back value (print (snd m)) (snd m)" "after_value u"
    "set w \<subseteq> Collect white" "set s \<subseteq> Collect white" "set s' \<subseteq> Collect white"
  shows "parse_members value (Suc n) (w @ member_text s s' print m @ u) =
    (case buffer_skip_whitespace u of [] \<Rightarrow> Returns None
     | d # v \<Rightarrow>
         if d = CHR '','' then obind (parse_members value n v) (\<lambda>r. Returns (map_option (\<lambda>(ms, s). (m # ms, s)) r))
         else if d = CHR ''}'' then Returns (Some ([m], v)) else Returns None)"
proof -
  let ?t = "CHR '':'' # s' @ print (snd m) @ u"
  have "buffer_skip_whitespace ((w @ s) @ CHR 0x22 # concat (map escape_char (fst m)) @ CHR 0x22 # ?t)
      = CHR 0x22 # concat (map escape_char (fst m)) @ CHR 0x22 # ?t"
    by (rule skip_white) (use assms in \<open>auto simp: visible\<close>)
  then have "buffer_skip_whitespace (w @ member_text s s' print m @ u) = print_string_ptr (fst m) @ ?t"
    by (simp add: member_text_def print_string_ptr_def)
  then have name: "parse_string (buffer_skip_whitespace (w @ member_text s s' print m @ u)) = Returns (Some (fst m, ?t))"
    using parse_print_string [OF assms(1)] by simp
  have colon: "buffer_skip_whitespace ?t = ?t" by (rule skip_visible) (simp add: visible)
  show ?thesis unfolding parse_members.simps name obind.simps option.case prod.case colon list.case
    using reads_back_skip [OF assms(2,6,3)] by (cases m) (simp split: list.split)
qed

lemma parse_printed_members:
  assumes "\<forall>m \<in> set ms. CHR 0x00 \<notin> set (fst m) \<and> reads_back value (print (snd m)) (snd m)" "ms \<noteq> []" "length ms \<le> n"
    "set w \<subseteq> Collect white" "set w' \<subseteq> Collect white" "set s \<subseteq> Collect white" "set s' \<subseteq> Collect white" "set e \<subseteq> Collect white"
  shows "parse_members value n (w @ join (CHR '','' # w') (map (member_text s s' print) ms) @ e @ CHR ''}'' # r) = Returns (Some (ms, r))"
  using assms
proof (induction ms arbitrary: n w)
  case (Cons m ms)
  obtain k where n: "n = Suc k" "length ms \<le> k" using Cons.prems(3) by (cases n) auto
  have m: "CHR 0x00 \<notin> set (fst m)" "reads_back value (print (snd m)) (snd m)" using Cons.prems(1) by simp_all
  show ?case
  proof (cases ms)
    case Nil
    have "buffer_skip_whitespace (e @ CHR ''}'' # r) = CHR ''}'' # r" by (rule skip_white) (use Cons.prems in \<open>simp_all add: visible\<close>)
    then show ?thesis using parse_printed_member [where print = print and n = k, OF m after_white [OF Cons.prems(8), of r] Cons.prems(4,6,7)] Nil n by simp
  next
    case (Cons m' ms')
    let ?t = "w' @ join (CHR '','' # w') (map (member_text s s' print) ms) @ e @ CHR ''}'' # r"
    have u: "after_value (CHR '','' # ?t)" by (rule after_separator) simp
    have "parse_members value k ?t = Returns (Some (ms, r))" using Cons.IH [of k w'] Cons.prems Cons n by simp
    then show ?thesis using parse_printed_member [where print = print and n = k, OF m u Cons.prems(4,6,7)] Cons n by (simp add: skip_visible visible)
  qed
qed simp

section \<open>The round trip\<close>

lemma print_object_members:
  "print_value format depth (JObject ms) = CHR ''{'' # newline format @
     join (CHR '','' # newline format) (map (member_text (tabs format (Suc depth)) (tabs format 1) (print_value format (Suc depth))) ms) @
     ((if ms = [] then [] else newline format) @ tabs format depth) @ ''}''"
proof -
  have "(\<lambda>(name, j). print_member format (Suc depth) name (print_value format (Suc depth) j))
      = member_text (tabs format (Suc depth)) (tabs format 1) (print_value format (Suc depth))"
    by (auto simp: fun_eq_iff print_member_def member_text_def)
  then show ?thesis by (simp add: print_object_def)
qed

lemma length_join: "length xs \<le> Suc (length (join (CHR '','' # w) xs))"
proof (induction xs rule: induct_list012)
  case (3 x y xs)
  then show ?case by simp
qed simp_all

lemma length_join_member: "x \<in> set xs \<Longrightarrow> length x \<le> length (join sep xs)"
proof (induction xs rule: induct_list012)
  case (3 x' y xs)
  then show ?case by auto
qed auto

lemma foldr_max_bound: "foldr max xs 0 \<le> (k :: nat) \<Longrightarrow> x \<in> set xs \<Longrightarrow> x \<le> k"
  by (induction xs) auto

lemma parse_array_printed:
  assumes "\<forall>j \<in> set js. reads_back value (print j) j" "length js \<le> n" "depth < CJSON_NESTING_LIMIT" "set w \<subseteq> Collect white"
  shows "parse_array value n depth (CHR ''['' # join (CHR '','' # w) (map print js) @ CHR '']'' # r) = Returns (Some (JArray js, r))"
proof (cases js)
  case Nil
  then show ?thesis using assms(3) by (simp add: parse_array_def skip_visible visible)
next
  case (Cons j ks)
  obtain c t where c: "print j = c # t" "starts_value c" using assms(1) Cons by (auto simp: reads_back_def)
  then obtain u where u: "join (CHR '','' # w) (map print js) = c # u" using Cons by (cases ks) auto
  have "parse_elements value n ([] @ join (CHR '','' # w) (map print js) @ CHR '']'' # r) = Returns (Some (js, r))"
    by (rule parse_printed_elements) (use assms Cons in auto)
  then show ?thesis using u assms(3) starts_value_visible [OF c(2)] by (simp add: parse_array_def skip_visible)
qed

lemma parse_object_printed:
  assumes "\<forall>m \<in> set ms. CHR 0x00 \<notin> set (fst m) \<and> reads_back value (print (snd m)) (snd m)" "length ms \<le> n"
    "depth < CJSON_NESTING_LIMIT" "set w \<subseteq> Collect white" "set s \<subseteq> Collect white" "set s' \<subseteq> Collect white" "set e \<subseteq> Collect white"
  shows "parse_object value n depth (CHR ''{'' # w @ join (CHR '','' # w) (map (member_text s s' print) ms) @ e @ CHR ''}'' # r)
    = Returns (Some (JObject ms, r))"
proof (cases ms)
  case Nil
  have "buffer_skip_whitespace ((w @ e) @ CHR ''}'' # r) = CHR ''}'' # r" by (rule skip_white) (use assms in \<open>auto simp: visible\<close>)
  then show ?thesis using Nil assms(3) by (simp add: parse_object_def)
next
  case (Cons m ks)
  obtain t where t: "join (CHR '','' # w) (map (member_text s s' print) ms) = s @ CHR 0x22 # t"
    using Cons by (cases ks) (auto simp: member_text_def print_string_ptr_def)
  have skip: "buffer_skip_whitespace ((w @ s) @ CHR 0x22 # t @ e @ CHR ''}'' # r) = CHR 0x22 # t @ e @ CHR ''}'' # r"
    by (rule skip_white) (use assms in \<open>auto simp: visible\<close>)
  have "parse_members value n (s @ CHR 0x22 # t @ e @ CHR ''}'' # r) = Returns (Some (ms, r))"
    using parse_printed_members [of ms "value" print n "[]" w s s' e r] assms Cons t by simp
  moreover have "parse_members value n (CHR 0x22 # t @ e @ CHR ''}'' # r) = parse_members value n (s @ CHR 0x22 # t @ e @ CHR ''}'' # r)"
  proof (cases n)
    case (Suc k)
    have "buffer_skip_whitespace (s @ CHR 0x22 # t @ e @ CHR ''}'' # r) = CHR 0x22 # t @ e @ CHR ''}'' # r"
      by (rule skip_white) (use assms in \<open>auto simp: visible\<close>)
    then show ?thesis using Suc by (simp add: skip_visible visible)
  qed simp
  ultimately show ?thesis using skip t assms(3) by (simp add: parse_object_def)
qed

lemma not_starts: "c \<noteq> hd pat \<Longrightarrow> pat \<noteq> [] \<Longrightarrow> \<not> starts pat (c # s)"
  by (cases pat) (auto simp: starts_def)

lemma parse_value_punct:
  assumes "c \<in> {CHR 0x22, CHR ''['', CHR ''{''}"
  shows "parse_value (Suc n) depth (c # s) =
    (if c = CHR 0x22 then obind (parse_string (c # s)) (\<lambda>r. Returns (map_option (\<lambda>(t, s). (JString t, s)) r))
     else if c = CHR ''['' then parse_array (parse_value n (Suc depth)) n depth (c # s)
     else parse_object (parse_value n (Suc depth)) n depth (c # s))"
  using assms by (elim insertE) (simp_all add: not_starts digit_def)

lemma parse_value_number: "c = CHR ''-'' \<or> digit c \<Longrightarrow> parse_value (Suc n) depth (c # s) = Returns (parse_number (c # s))"
  by (auto simp: not_starts digit_def starts_def)

declare parse_value.simps [simp del]

lemma printed_array_read:
  assumes IH: "\<And>j n. j \<in> set js \<Longrightarrow> printable j \<Longrightarrow> json_depth j + Suc depth \<le> CJSON_NESTING_LIMIT \<Longrightarrow>
      length (print_value format (Suc depth) j) \<le> n \<Longrightarrow> reads_back (parse_value (Suc n) (Suc depth)) (print_value format (Suc depth) j) j"
    and "printable (JArray js)" "json_depth (JArray js) + depth \<le> CJSON_NESTING_LIMIT"
    "length (print_value format depth (JArray js)) \<le> n"
  shows "reads_back (parse_value (Suc n) depth) (print_value format depth (JArray js)) (JArray js)"
proof -
  let ?w = "if format then '' '' else []" and ?print = "print_value format (Suc depth)"
  have shape: "print_value format depth (JArray js) = CHR ''['' # join (CHR '','' # ?w) (map ?print js) @ CHR '']'' # []"
    by (simp add: print_array_def)
  let ?l = "length (join (CHR '','' # ?w) (map ?print js))"
  have n: "?l + 2 \<le> n" using assms(4) unfolding shape by simp
  then obtain m where m: "n = Suc m" "?l < m" by (cases n) auto
  have fits: "json_depth j + Suc depth \<le> CJSON_NESTING_LIMIT" if "j \<in> set js" for j
  proof -
    have "foldr max (map json_depth js) 0 \<le> CJSON_NESTING_LIMIT - Suc depth" using assms(3) by simp
    from foldr_max_bound [OF this, of "json_depth j"] that assms(3) show ?thesis by auto
  qed
  have "length (?print j) \<le> m" if "j \<in> set js" for j
    using length_join_member [of "?print j" "map ?print js" "CHR '','' # ?w"] that m by simp
  then have inner: "\<forall>j \<in> set js. reads_back (parse_value n (Suc depth)) (?print j) j"
    using IH fits assms(2) m(1) by (auto simp: list_all_iff)
  have count: "length js \<le> n" using length_join [of "map ?print js" ?w] n by simp
  have blank: "set ?w \<subseteq> Collect white" by (auto simp: white_def)
  have limit0: "depth < CJSON_NESTING_LIMIT" using assms(3) by simp
  show ?thesis unfolding reads_back_def shape
    using parse_array_printed [OF inner count limit0 blank] by (simp add: parse_value_punct starts_value_def)
qed

lemma printed_object_read:
  assumes IH: "\<And>m n. m \<in> set ms \<Longrightarrow> printable (snd m) \<Longrightarrow> json_depth (snd m) + Suc depth \<le> CJSON_NESTING_LIMIT \<Longrightarrow>
      length (print_value format (Suc depth) (snd m)) \<le> n \<Longrightarrow>
      reads_back (parse_value (Suc n) (Suc depth)) (print_value format (Suc depth) (snd m)) (snd m)"
    and "printable (JObject ms)" "json_depth (JObject ms) + depth \<le> CJSON_NESTING_LIMIT"
    "length (print_value format depth (JObject ms)) \<le> n"
  shows "reads_back (parse_value (Suc n) depth) (print_value format depth (JObject ms)) (JObject ms)"
proof -
  let ?print = "print_value format (Suc depth)" and ?s = "tabs format (Suc depth)" and ?s' = "tabs format 1"
  let ?text = "member_text ?s ?s' ?print" and ?e = "(if ms = [] then [] else newline format) @ tabs format depth"
  have shape: "print_value format depth (JObject ms)
      = CHR ''{'' # newline format @ join (CHR '','' # newline format) (map ?text ms) @ ?e @ CHR ''}'' # []"
    by (simp only: print_object_members append_Nil)
  let ?l = "length (join (CHR '','' # newline format) (map ?text ms))"
  have n: "?l + 2 \<le> n" using assms(4) unfolding shape by (simp del: append_assoc)
  then obtain m where m: "n = Suc m" "?l < m" by (cases n) auto
  have fits: "json_depth (snd x) + Suc depth \<le> CJSON_NESTING_LIMIT" if "x \<in> set ms" for x
  proof -
    have "foldr max (map (\<lambda>(k, j). json_depth j) ms) 0 \<le> CJSON_NESTING_LIMIT - Suc depth" using assms(3) by simp
    moreover have "json_depth (snd x) \<in> set (map (\<lambda>(k, j). json_depth j) ms)" using that by (auto simp: image_iff case_prod_beta)
    ultimately have "json_depth (snd x) \<le> CJSON_NESTING_LIMIT - Suc depth" by (rule foldr_max_bound)
    then show ?thesis using assms(3) by simp
  qed
  have "length (?print (snd x)) \<le> m" if "x \<in> set ms" for x
    using length_join_member [of "?text x" "map ?text ms" "CHR '','' # newline format"] that m by (simp add: member_text_def)
  then have inner: "\<forall>x \<in> set ms. CHR 0x00 \<notin> set (fst x) \<and> reads_back (parse_value n (Suc depth)) (?print (snd x)) (snd x)"
    using IH fits assms(2) m(1) by (fastforce simp: list_all_iff)
  have count: "length ms \<le> n" using length_join [of "map ?text ms" "newline format"] n by simp
  have e: "set ?e \<subseteq> Collect white" using white_space by auto
  have limit0: "depth < CJSON_NESTING_LIMIT" using assms(3) by simp
  show ?thesis unfolding reads_back_def shape
    using parse_object_printed [OF inner count limit0 white_space(1) white_space(2) white_space(2) e, of format]
    by (simp add: parse_value_punct starts_value_def)
qed

lemma printed_value_read:
  "printable j \<Longrightarrow> json_depth j + depth \<le> CJSON_NESTING_LIMIT \<Longrightarrow> length (print_value format depth j) \<le> n \<Longrightarrow>
   reads_back (parse_value (Suc n) depth) (print_value format depth j) j"
proof (induction format depth j arbitrary: n rule: print_value.induct)
  case (4 format depth d)
  obtain c t where c: "dec_int (valueint (JNumber d)) = c # t" "c = CHR ''-'' \<or> digit c" using dec_int_first by blast
  have "parse_value (Suc n) depth (print_number d @ u) = Returns (Some (JNumber d, u))" if "after_value u" for u
  proof -
    obtain e r where u: "u = e # r" "\<not> number_char e" using \<open>after_value u\<close> unfolding after_value_def by (metis list.sel(1) neq_Nil_conv)
    have "parse_number (print_number d @ u) = Some (JNumber d, u)" unfolding u(1) using 4(1) u(2) by (intro parse_print_number) simp_all
    then show ?thesis using c(1) 4(1) parse_value_number [OF c(2)] by (simp add: print_int_number)
  qed
  moreover have "\<exists>c t. print_number d = c # t \<and> starts_value c" using c 4(1) by (auto simp: print_int_number starts_value_def)
  ultimately show ?case unfolding reads_back_def print_value.simps by blast
next
  case (5 format depth s)
  then show ?case using parse_print_string [of s] by (simp add: reads_back_def print_string_ptr_def parse_value_punct starts_value_def)
next
  case (6 format depth js)
  then show ?case by (intro printed_array_read) auto
next
  case (7 format depth ms)
  have "reads_back (parse_value (Suc k) (Suc depth)) (print_value format (Suc depth) (snd m)) (snd m)"
    if "m \<in> set ms" "printable (snd m)" "json_depth (snd m) + Suc depth \<le> CJSON_NESTING_LIMIT"
      "length (print_value format (Suc depth) (snd m)) \<le> k" for m k
    using "7.IH" [of m "fst m" "snd m" k] that by simp
  then show ?case using "7.prems" by (intro printed_object_read) auto
qed (simp_all add: parse_value.simps reads_back_def starts_def starts_value_def)

text \<open>
  C33: A document that is printed, with or without format, and parsed again is the same document,
  member by member and byte by byte, when its numbers are integers of 32 bits and it is nested at
  most as deep as the parser allows: what the servers print can be read by their own parser.
\<close>

theorem json_print_parse:
  assumes "printable j" "json_depth j \<le> CJSON_NESTING_LIMIT"
  shows "cJSON_Parse (if format then cJSON_Print j else cJSON_PrintUnformatted j) = Returns (Some j)"
proof -
  let ?text = "print_value format 0 j"
  obtain c t where c: "?text = c # t" "starts_value c" using print_first [OF assms(1)] by blast
  have "reads_back (parse_value (length ?text + 2) 0) ?text j" using assms printed_value_read [of j 0 format "Suc (length ?text)"] by simp
  then have read: "parse_value (length ?text + 2) 0 (?text @ [CHR 0x00]) = Returns (Some (j, [CHR 0x00]))"
    unfolding reads_back_def using after_separator [of "CHR 0x00" "[]"] by simp
  have bom: "skip_utf8_bom (?text @ [CHR 0x00]) = ?text @ [CHR 0x00]" using c starts_value_visible [OF c(2)] by (simp add: skip_utf8_bom_def)
  have skip: "buffer_skip_whitespace (?text @ [CHR 0x00]) = ?text @ [CHR 0x00]" using c starts_value_visible [OF c(2)] by (simp add: skip_visible)
  have "cJSON_Parse ?text = Returns (Some j)"
    unfolding cJSON_Parse_def cJSON_ParseWithOpts_def cJSON_ParseWithLengthOpts_def Let_def bom skip using read by simp
  then show ?thesis by (cases format) (simp_all add: cJSON_Print_def cJSON_PrintUnformatted_def)
qed

lemma sample_document_printable: "printable (JObject [(''count'', JNumber (f64_of_int 2)), (''list'', JArray [JTrue, JString ''a\"'', JNull])])"
  using int_number_of_int [of 2] by simp

theorem json_print_parse_witness:
  "cJSON_Parse (cJSON_Print (JObject [(''count'', JNumber (f64_of_int 2)), (''list'', JArray [JTrue, JString ''a\"'', JNull])]))
   = Returns (Some (JObject [(''count'', JNumber (f64_of_int 2)), (''list'', JArray [JTrue, JString ''a\"'', JNull])]))"
  using json_print_parse [OF sample_document_printable, of True] by (simp add: CJSON_NESTING_LIMIT_def)

end
