(* ===== verification/Single_Server_Data.thy ===== *)
theory Single_Server_Data
  imports Config_Parser C_Format Command_Handler
begin

text \<open>
  The older server in a single file (\<open>json-iec104-server/json-iec104-server.c\<close>): its process image with one
  pair of arrays per type, the configuration that allocates them, and the update of a point. Where the modular
  server has one generic context, this file repeats the code for each of its ten types; what differs is how two values
  are compared. Its select table is, line for line, the one of the command handler.
\<close>

section \<open>State\<close>

text \<open>
  A configured type: \<open>config_T.ioa_list\<close> and \<open>config_T.count\<close>, the array \<open>T_data\<close> and the array
  \<open>last_offline_update_T\<close>, None when it is NULL. A pointer that has not been allocated is an empty list.
\<close>

record 'p points =
  pts_ioa_list :: "int list"
  pts_count :: nat
  pts_data :: "'p list"
  pts_last_offline :: "u64 list option"

text \<open>The structs of a value with its qualifier.\<close>

record 'v point =
  pt_value :: 'v
  pt_qualifier :: u8

record single_period =
  sp_enabled :: bool
  sp_period_ms :: u32
  sp_last_sent :: u64

record single_server =
  s1_offline_udt_time :: int
  s1_ASDU :: int
  s1_deadband :: f32
  s1_command_mode :: string
  s1_running :: bool
  s1_periodic_M_ME_NC_1 :: single_period
  s1_periodic_M_SP_TB_1 :: single_period
  pts_M_SP_TB_1 :: "bool point points"
  pts_M_DP_TB_1 :: "u32 point points"
  pts_M_ME_TD_1 :: "f32 point points"
  pts_M_IT_TB_1 :: "bytes points"
  pts_M_SP_NA_1 :: "bool point points"
  pts_M_DP_NA_1 :: "u32 point points"
  pts_M_ME_NA_1 :: "u16 point points"
  pts_M_ME_NB_1 :: "u16 point points"
  pts_M_ME_NC_1 :: "f32 point points"
  pts_M_ME_ND_1 :: "u32 points"
  ioas_C_SC_NA_1 :: "int list"
  ioas_C_DC_NA_1 :: "int list"
  ioas_C_SE_NA_1 :: "int list"
  ioas_C_SE_NC_1 :: "int list"
  s1_selectTable :: select_table

definition no_points :: "'p points" where
  "no_points = \<lparr>pts_ioa_list = [], pts_count = 0, pts_data = [], pts_last_offline = None\<rparr>"

definition single_period_default :: single_period where
  "single_period_default = \<lparr>sp_enabled = False, sp_period_ms = 1000, sp_last_sent = 0\<rparr>"

text \<open>The static variables at program start.\<close>

definition initial_single_server :: single_server where
  "initial_single_server = \<lparr>s1_offline_udt_time = 300, s1_ASDU = 1, s1_deadband = f32_0, s1_command_mode = ''direct'',
     s1_running = True, s1_periodic_M_ME_NC_1 = single_period_default, s1_periodic_M_SP_TB_1 = single_period_default,
     pts_M_SP_TB_1 = no_points, pts_M_DP_TB_1 = no_points, pts_M_ME_TD_1 = no_points, pts_M_IT_TB_1 = no_points,
     pts_M_SP_NA_1 = no_points, pts_M_DP_NA_1 = no_points, pts_M_ME_NA_1 = no_points, pts_M_ME_NB_1 = no_points,
     pts_M_ME_NC_1 = no_points, pts_M_ME_ND_1 = no_points, ioas_C_SC_NA_1 = [], ioas_C_DC_NA_1 = [],
     ioas_C_SE_NA_1 = [], ioas_C_SE_NC_1 = [], s1_selectTable = empty_select_table\<rparr>"

section \<open>Configuration\<close>

text \<open>
  The arrays come from \<open>malloc\<close>, and an element of the document that is no number leaves its address as it was:
  \<open>fresh_ints\<close> is the content of the new array for a key, \<open>fresh_counters\<close> that of the counter readings. \<open>malloc\<close> succeeds.
\<close>

record fresh_memory =
  fresh_ints :: "string \<Rightarrow> nat \<Rightarrow> int"
  fresh_counters :: "nat \<Rightarrow> bytes"

definition ioa_array :: "(nat \<Rightarrow> int) \<Rightarrow> json \<Rightarrow> int list" where
  "ioa_array fresh arr = map (\<lambda>i. case cJSON_GetArrayItem arr i of Some (JNumber d) \<Rightarrow> valueint (JNumber d) | _ \<Rightarrow> fresh i)
     [0..<cJSON_GetArraySize arr]"

definition parse_points :: "fresh_memory \<Rightarrow> json \<Rightarrow> string \<Rightarrow> (nat \<Rightarrow> 'p) \<Rightarrow> bool \<Rightarrow> 'p points \<Rightarrow> 'p points" where
  "parse_points mem j key initial keeps_times pts =
     (let item = cJSON_GetObjectItemCaseSensitive j key
      in if cJSON_IsArray item then
           let n = cJSON_GetArraySize (the item)
           in pts\<lparr>pts_ioa_list := ioa_array (fresh_ints mem key) (the item), pts_count := n,
                  pts_data := map initial [0..<n],
                  pts_last_offline := (if keeps_times then Some (replicate n 0) else pts_last_offline pts)\<rparr>
         else pts)"

definition parse_command_ioas :: "fresh_memory \<Rightarrow> json \<Rightarrow> string \<Rightarrow> int list \<Rightarrow> int list" where
  "parse_command_ioas mem j key ioas =
     (let item = cJSON_GetObjectItemCaseSensitive j key
      in if cJSON_IsArray item then ioa_array (fresh_ints mem key) (the item) else ioas)"

definition invalid_point :: "'v \<Rightarrow> nat \<Rightarrow> 'v point" where
  "invalid_point v i = \<lparr>pt_value = v, pt_qualifier = QUALITY_INVALID\<rparr>"

definition invalid_counter :: "fresh_memory \<Rightarrow> nat \<Rightarrow> bytes" where
  "invalid_counter mem i = BinaryCounterReading_setInvalid True (BinaryCounterReading_setValue 0 (fresh_counters mem i))"

definition parse_mode :: "json \<Rightarrow> string \<Rightarrow> string" where
  "parse_mode j mode =
     (case cJSON_GetObjectItemCaseSensitive j ''mode_command'' of
        Some (JString s) \<Rightarrow> if s = ''sbo'' \<or> s = ''direct'' then s else ''direct''
      | _ \<Rightarrow> mode)"

text \<open>The period is printed with \<open>%d\<close>.\<close>

definition parse_single_period :: "json \<Rightarrow> string \<Rightarrow> string \<Rightarrow> single_period \<Rightarrow> action list \<times> single_period" where
  "parse_single_period periodic key info p =
     (let item = cJSON_GetObjectItemCaseSensitive periodic key
      in if cJSON_IsObject item then
           let enabled = cJSON_GetObjectItemCaseSensitive (the item) ''enabled'';
               period = cJSON_GetObjectItemCaseSensitive (the item) ''period_ms'';
               p = (if enabled \<noteq> None then p\<lparr>sp_enabled := cJSON_IsTrue enabled\<rparr> else p);
               p = (if cJSON_IsNumber period then p\<lparr>sp_period_ms := word_of_int (valueint (the period))\<rparr> else p)
           in ([Print (''{\"info\":\"Read periodic '' @ info @ ''config - enabled:'' @ dec_int (of_bool (sp_enabled p)) @
                  '', period:'' @ dec_int (sint (sp_period_ms p)) @ '' ms\"}'')], p)
         else ([], p))"

definition parse_config_json_single ::
    "fresh_memory \<Rightarrow> json \<Rightarrow> single_server \<Rightarrow> action list \<times> single_server" where
  "parse_config_json_single mem j sv =
     (let udt = cJSON_GetObjectItemCaseSensitive j ''offline_udt_time'';
          udt_info = (if cJSON_IsNumber udt then [Print (''{\"info\":\"offline_udt_time set to '' @
             dec_int (valueint (the udt)) @ '' seconds\"}'')] else []);
          sv = on_number j ''offline_udt_time'' (\<lambda>v sv. sv\<lparr>s1_offline_udt_time := valueint v\<rparr>) sv;
          sv = on_number j ''ASDU'' (\<lambda>v sv. sv\<lparr>s1_ASDU := valueint v\<rparr>) sv;
          sv = on_number j ''M_ME_NC_1_deadband_percent'' (\<lambda>v sv. sv\<lparr>s1_deadband := f32_of_f64 (valuedouble v)\<rparr>) sv;
          sv = sv\<lparr>pts_M_SP_TB_1 := parse_points mem j ''M_SP_TB_1_config'' (invalid_point False) True (pts_M_SP_TB_1 sv),
                  pts_M_DP_TB_1 := parse_points mem j ''M_DP_TB_1_config'' (invalid_point 0) True (pts_M_DP_TB_1 sv),
                  pts_M_ME_TD_1 := parse_points mem j ''M_ME_TD_1_config'' (invalid_point f32_0) False (pts_M_ME_TD_1 sv),
                  pts_M_IT_TB_1 := parse_points mem j ''M_IT_TB_1_config'' (invalid_counter mem) False (pts_M_IT_TB_1 sv),
                  pts_M_SP_NA_1 := parse_points mem j ''M_SP_NA_1_config'' (invalid_point False) True (pts_M_SP_NA_1 sv),
                  pts_M_DP_NA_1 := parse_points mem j ''M_DP_NA_1_config'' (invalid_point 0) False (pts_M_DP_NA_1 sv),
                  pts_M_ME_NA_1 := parse_points mem j ''M_ME_NA_1_config'' (invalid_point 0) True (pts_M_ME_NA_1 sv),
                  pts_M_ME_NB_1 := parse_points mem j ''M_ME_NB_1_config'' (invalid_point 0) False (pts_M_ME_NB_1 sv),
                  pts_M_ME_NC_1 := parse_points mem j ''M_ME_NC_1_config'' (invalid_point f32_0) True (pts_M_ME_NC_1 sv),
                  pts_M_ME_ND_1 := parse_points mem j ''M_ME_ND_1_config'' (\<lambda>_. 0) False (pts_M_ME_ND_1 sv),
                  ioas_C_SC_NA_1 := parse_command_ioas mem j ''C_SC_NA_1_config'' (ioas_C_SC_NA_1 sv),
                  ioas_C_DC_NA_1 := parse_command_ioas mem j ''C_DC_NA_1_config'' (ioas_C_DC_NA_1 sv),
                  ioas_C_SE_NA_1 := parse_command_ioas mem j ''C_SE_NA_1_config'' (ioas_C_SE_NA_1 sv),
                  ioas_C_SE_NC_1 := parse_command_ioas mem j ''C_SE_NC_1_config'' (ioas_C_SE_NC_1 sv),
                  s1_command_mode := parse_mode j (s1_command_mode sv)\<rparr>;
          periodic = cJSON_GetObjectItemCaseSensitive j ''periodic''
      in if cJSON_IsObject periodic then
           let (info1, p1) = parse_single_period (the periodic) ''M_ME_NC_1'' [] (s1_periodic_M_ME_NC_1 sv);
               (info2, p2) = parse_single_period (the periodic) ''M_SP_TB_1'' ''M_SP_TB_1 '' (s1_periodic_M_SP_TB_1 sv)
           in (udt_info @ info1 @ info2, sv\<lparr>s1_periodic_M_ME_NC_1 := p1, s1_periodic_M_SP_TB_1 := p2\<rparr>)
         else (udt_info, sv))"

definition parse_config_from_json_single ::
    "(string \<Rightarrow> json option) \<Rightarrow> fresh_memory \<Rightarrow> string \<Rightarrow> single_server \<Rightarrow> bool \<times> action list \<times> single_server" where
  "parse_config_from_json_single cJSON_Parse mem input sv =
     (case cJSON_Parse input of
        None \<Rightarrow> (False, [Print ''{\"error\":\"failed to parse config json\"}''], sv)
      | Some j \<Rightarrow> let (acts, sv) = parse_config_json_single mem j sv in (True, acts, sv))"

text \<open>\<open>file\<close> is the content of the file, None when it cannot be opened; the text ends at the first NUL.\<close>

definition init_config_from_file_single ::
    "(string \<Rightarrow> json option) \<Rightarrow> fresh_memory \<Rightarrow> string \<Rightarrow> string option \<Rightarrow> single_server \<Rightarrow>
       bool \<times> action list \<times> single_server" where
  "init_config_from_file_single cJSON_Parse mem filename file sv =
     (case file of
        None \<Rightarrow> (False, [Print (''{\"error\":\"failed to open config file: '' @ filename @ ''\"}'')], sv)
      | Some content \<Rightarrow>
          if content = [] \<or> length content > 65536 then (False, [Print ''{\"error\":\"invalid config file size\"}''], sv)
          else parse_config_from_json_single cJSON_Parse mem (takeWhile (\<lambda>c. c \<noteq> CHR 0x00) content) sv)"

section \<open>Updates\<close>

text \<open>
  What an operation reads from outside: the parameters of the link, the number of open connections, and the clock with
  the flag \<open>tm_isdst\<close> of the local time.
\<close>

record host =
  h_params :: app_layer_params
  h_connections :: int
  h_reading :: "u64 \<times> bool"

definition IsClientConnected :: "host \<Rightarrow> bool" where
  "IsClientConnected h \<longleftrightarrow> h_connections h > 0"

definition out_of_range_line :: "string \<Rightarrow> int \<Rightarrow> string" where
  "out_of_range_line name address =
     ''{\"error\":\"'' @ name @ '' address '' @ dec_int address @ '' out of range\"}''"

text \<open>\<open>(uint64_t) offline_udt_time * 1000\<close>, a product of 64 bit integers.\<close>

definition allow_offline_update_single :: "int \<Rightarrow> u64 \<Rightarrow> u64 list option \<Rightarrow> nat \<Rightarrow> bool \<times> u64 list option" where
  "allow_offline_update_single udt now arr idx =
     (case arr of None \<Rightarrow> (True, None)
      | Some ts \<Rightarrow> if now - ts ! idx \<ge> word_of_int udt * 1000 then (True, Some (ts[idx := now])) else (False, Some ts))"

text \<open>The end of every update: with a client, or when it is time again, a change is to be reported.\<close>

definition finish_update :: "host \<Rightarrow> int \<Rightarrow> nat \<Rightarrow> bool \<times> 'p list \<Rightarrow> 'p points \<Rightarrow> bool \<times> 'p points" where
  "finish_update h udt i changed_data pts =
     (let (changed, data) = changed_data; pts = pts\<lparr>pts_data := data\<rparr>
      in if \<not> changed then (False, pts)
         else if IsClientConnected h then (True, pts)
         else let (ok, arr) = allow_offline_update_single udt (fst (h_reading h)) (pts_last_offline pts) i
              in (ok, pts\<lparr>pts_last_offline := arr\<rparr>))"

text \<open>Value and qualifier are stored when they differ; whether two values differ depends on the type.\<close>

definition store_point :: "bool \<Rightarrow> 'v \<Rightarrow> int \<Rightarrow> nat \<Rightarrow> 'v point list \<Rightarrow> bool \<times> 'v point list" where
  "store_point differs value qualifier i data =
     (let p = data ! i;
          data = (if differs then data[i := (data ! i)\<lparr>pt_value := value\<rparr>] else data);
          requalified = (uint (pt_qualifier p) \<noteq> qualifier);
          data = (if requalified then data[i := (data ! i)\<lparr>pt_qualifier := word_of_int qualifier\<rparr>] else data)
      in (differs \<or> requalified, data))"

definition in_range :: "int \<Rightarrow> 'p points \<Rightarrow> bool" where
  "in_range address pts \<longleftrightarrow> \<not> (address < 0 \<or> address \<ge> int (pts_count pts))"

definition f32_differs :: "f32 \<Rightarrow> f32 \<Rightarrow> bool" where
  "f32_differs a b \<longleftrightarrow> \<not> fv_eq (f32_val a) (f32_val b)"

definition update_m_sp_tb_1_data ::
    "host \<Rightarrow> int \<Rightarrow> int \<Rightarrow> bool \<Rightarrow> int \<Rightarrow> bool point points \<Rightarrow> bool \<times> action list \<times> bool point points" where
  "update_m_sp_tb_1_data h udt address value qualifier pts =
     (if \<not> in_range address pts then (False, [Print (out_of_range_line ''M_SP_TB_1'' address)], pts)
      else let i = nat address;
               (rc, pts) = finish_update h udt i
                 (store_point (pt_value (pts_data pts ! i) \<noteq> value) value qualifier i (pts_data pts)) pts
           in (rc, [], pts))"

definition update_m_dp_tb_1_data ::
    "host \<Rightarrow> int \<Rightarrow> int \<Rightarrow> u32 \<Rightarrow> int \<Rightarrow> u32 point points \<Rightarrow> bool \<times> action list \<times> u32 point points" where
  "update_m_dp_tb_1_data h udt address value qualifier pts =
     (if \<not> in_range address pts then (False, [Print (out_of_range_line ''M_DP_TB_1'' address)], pts)
      else let i = nat address;
               (rc, pts) = finish_update h udt i
                 (store_point (pt_value (pts_data pts ! i) \<noteq> value) value qualifier i (pts_data pts)) pts
           in (rc, [], pts))"

definition update_m_me_td_1_data ::
    "host \<Rightarrow> int \<Rightarrow> int \<Rightarrow> f32 \<Rightarrow> int \<Rightarrow> f32 point points \<Rightarrow> bool \<times> action list \<times> f32 point points" where
  "update_m_me_td_1_data h udt address value qualifier pts =
     (if \<not> in_range address pts then (False, [Print (out_of_range_line ''M_ME_TD_1'' address)], pts)
      else let i = nat address;
               (rc, pts) = finish_update h udt i
                 (store_point (f32_differs (pt_value (pts_data pts ! i)) value) value qualifier i (pts_data pts)) pts
           in (rc, [], pts))"

definition update_m_it_tb_1_data :: "int \<Rightarrow> u32 \<Rightarrow> bytes points \<Rightarrow> action list \<times> bytes points" where
  "update_m_it_tb_1_data address value pts =
     (if \<not> in_range address pts then ([Print (out_of_range_line ''M_IT_TB_1'' address)], pts)
      else let i = nat address
           in ([], pts\<lparr>pts_data := (pts_data pts)[i := BinaryCounterReading_setValue value (pts_data pts ! i)]\<rparr>))"

text \<open>
  The next two do not test the address. A single point is compared with the number, not with its truth value, and
  then stored as a truth value.
\<close>

definition update_m_sp_na_1_data ::
    "host \<Rightarrow> int \<Rightarrow> int \<Rightarrow> u32 \<Rightarrow> int \<Rightarrow> bool point points \<Rightarrow> (bool \<times> bool point points) outcome" where
  "update_m_sp_na_1_data h udt address value qualifier pts =
     (if \<not> in_range address pts then Undefined
      else let i = nat address
           in Returns (finish_update h udt i
                (store_point (of_bool (pt_value (pts_data pts ! i)) \<noteq> value) (value \<noteq> 0) qualifier i (pts_data pts)) pts))"

definition update_m_dp_na_1_data ::
    "host \<Rightarrow> int \<Rightarrow> int \<Rightarrow> u32 \<Rightarrow> int \<Rightarrow> u32 point points \<Rightarrow> (bool \<times> u32 point points) outcome" where
  "update_m_dp_na_1_data h udt address value qualifier pts =
     (if \<not> in_range address pts then Undefined
      else let i = nat address
           in Returns (finish_update h udt i
                (store_point (pt_value (pts_data pts ! i) \<noteq> value) value qualifier i (pts_data pts)) pts))"

text \<open>The stored 16 bit integer is extended with its sign for the comparison.\<close>

definition i16_differs :: "u16 \<Rightarrow> u32 \<Rightarrow> bool" where
  "i16_differs old value \<longleftrightarrow> word_of_int (sint old) \<noteq> value"

definition update_m_me_na_1_data ::
    "host \<Rightarrow> int \<Rightarrow> int \<Rightarrow> u32 \<Rightarrow> int \<Rightarrow> u16 point points \<Rightarrow> bool \<times> action list \<times> u16 point points" where
  "update_m_me_na_1_data h udt address value qualifier pts =
     (if \<not> in_range address pts then (False, [Print (out_of_range_line ''M_ME_NA_1'' address)], pts)
      else let i = nat address;
               (rc, pts) = finish_update h udt i
                 (store_point (i16_differs (pt_value (pts_data pts ! i)) value) (ucast value) qualifier i (pts_data pts)) pts
           in (rc, [], pts))"

definition update_m_me_nb_1_data ::
    "host \<Rightarrow> int \<Rightarrow> int \<Rightarrow> u32 \<Rightarrow> int \<Rightarrow> u16 point points \<Rightarrow> bool \<times> action list \<times> u16 point points" where
  "update_m_me_nb_1_data h udt address value qualifier pts =
     (if \<not> in_range address pts then (False, [Print (out_of_range_line ''M_ME_NB_1'' address)], pts)
      else let i = nat address;
               (rc, pts) = finish_update h udt i
                 (store_point (i16_differs (pt_value (pts_data pts ! i)) value) (ucast value) qualifier i (pts_data pts)) pts
           in (rc, [], pts))"

text \<open>The change in percent of the old value has to reach the deadband, and the change itself has to exceed an epsilon.\<close>

definition change_percent :: "f32 \<Rightarrow> f32 \<Rightarrow> f32" where
  "change_percent old diff =
     (if f32_less f32_1em6 (f32_abs old) then f32_mul (f32_div diff (f32_abs old)) f32_100
      else if f32_less f32_1em6 diff then f32_100 else f32_0)"

definition moves_enough :: "f32 \<Rightarrow> f32 \<Rightarrow> f32 \<Rightarrow> bool" where
  "moves_enough deadband old value =
     (let diff = f32_abs (f32_sub old value)
      in f32_le deadband (change_percent old diff) \<and> f32_less f32_1em6 diff)"

definition update_m_me_nc_1_data ::
    "host \<Rightarrow> int \<Rightarrow> f32 \<Rightarrow> int \<Rightarrow> f32 \<Rightarrow> int \<Rightarrow> f32 point points \<Rightarrow> bool \<times> action list \<times> f32 point points" where
  "update_m_me_nc_1_data h udt deadband address value qualifier pts =
     (if \<not> in_range address pts then (False, [Print (out_of_range_line ''M_ME_NC_1'' address)], pts)
      else let i = nat address;
               (rc, pts) = finish_update h udt i
                 (store_point (moves_enough deadband (pt_value (pts_data pts ! i)) value) value qualifier i (pts_data pts)) pts
           in (rc, [], pts))"

definition update_m_me_nd_1_data ::
    "host \<Rightarrow> int \<Rightarrow> int \<Rightarrow> u32 \<Rightarrow> u32 points \<Rightarrow> bool \<times> action list \<times> u32 points" where
  "update_m_me_nd_1_data h udt address value pts =
     (if \<not> in_range address pts then (False, [Print (out_of_range_line ''M_ME_ND_1'' address)], pts)
      else let i = nat address; changed = (pts_data pts ! i \<noteq> value);
               (rc, pts) = finish_update h udt i
                 (changed, if changed then (pts_data pts)[i := value] else pts_data pts) pts
           in (rc, [], pts))"

end
