(* ===== verification/Single_Server_Handlers.thy ===== *)
theory Single_Server_Handlers
  imports Single_Server_Data Interrogation Asdu_Dispatch
begin

text \<open>
  The callbacks of the single file server (\<open>json-iec104-server/json-iec104-server.c\<close>): the interrogation, the reset
  of the process, the clock synchronisation and the commands. Commands are executed for configured addresses only.
\<close>

section \<open>Interrogation\<close>

text \<open>The current time as a time stamp; a reading is the clock with the flag \<open>tm_isdst\<close> of the local time.\<close>

definition GetCP56Time2a :: "u64 \<times> bool \<Rightarrow> bytes" where
  "GetCP56Time2a r = CP56Time2a_setSummerTime (snd r) (CP56Time2a_createFromMsTimestamp (fst r))"

lemma length_GetCP56Time2a: "length (GetCP56Time2a r) = 7"
  by (simp add: GetCP56Time2a_def CP56Time2a_createFromMsTimestamp_def CP56Time2a_setFromMsTimestamp_def cp56_setters Let_def)

definition calcMaxIOAs :: "int \<Rightarrow> int \<Rightarrow> int" where
  "calcMaxIOAs maxASDUSize ioaSize = c_div (maxASDUSize - 6) ioaSize"

text \<open>
  The objects are added one after the other, and whether one was added is not tested. None is an object whose value
  could not be converted.
\<close>

fun add_objects :: "information_object option list \<Rightarrow> asdu \<Rightarrow> asdu outcome" where
  "add_objects [] a = Returns a"
| "add_objects (None # ios) a = Undefined"
| "add_objects (Some io # ios) a = add_objects ios (snd (CS101_ASDU_addInformationObject a io))"

text \<open>\<open>for (i = 0; i < count; i += maxIOAs)\<close>: one ASDU for each group of objects.\<close>

definition group_asdus ::
    "app_layer_params \<Rightarrow> int \<Rightarrow> int \<Rightarrow> nat \<Rightarrow> (nat \<Rightarrow> information_object option) \<Rightarrow> asdu list outcome" where
  "group_asdus p ca ioSize count mk =
     obind (of_loop (chunk_loop (calcMaxIOAs (maxSizeOfASDU p) ioSize) (int count) 0))
       (\<lambda>groups. traverse (\<lambda>g. add_objects (map mk (chunk_indices 0 g))
          (CS101_ASDU_create p False (uint COT_INTERROGATED_BY_STATION) ca ca False False)) groups)"

text \<open>
  The object of the point with index \<open>j\<close> of each type. The clock is read again for each object: \<open>time_of\<close> gives the reading for
  a type and an index.
\<close>

definition sp_tb_object :: "(u32 \<Rightarrow> nat \<Rightarrow> u64 \<times> bool) \<Rightarrow> bool point points \<Rightarrow> nat \<Rightarrow> information_object option" where
  "sp_tb_object time_of pts j = Some (SinglePointWithCP56Time2a_create (pts_ioa_list pts ! j) (pt_value (pts_data pts ! j))
     (pt_qualifier (pts_data pts ! j)) (GetCP56Time2a (time_of M_SP_TB_1 j)))"

definition dp_tb_object :: "(u32 \<Rightarrow> nat \<Rightarrow> u64 \<times> bool) \<Rightarrow> u32 point points \<Rightarrow> nat \<Rightarrow> information_object option" where
  "dp_tb_object time_of pts j = Some (DoublePointWithCP56Time2a_create (pts_ioa_list pts ! j) (pt_value (pts_data pts ! j))
     (pt_qualifier (pts_data pts ! j)) (GetCP56Time2a (time_of M_DP_TB_1 j)))"

definition me_td_object :: "(u32 \<Rightarrow> nat \<Rightarrow> u64 \<times> bool) \<Rightarrow> f32 point points \<Rightarrow> nat \<Rightarrow> information_object option" where
  "me_td_object time_of pts j = MeasuredValueNormalizedWithCP56Time2a_create (pts_ioa_list pts ! j) (pt_value (pts_data pts ! j))
     (pt_qualifier (pts_data pts ! j)) (GetCP56Time2a (time_of M_ME_TD_1 j))"

definition sp_na_object :: "bool point points \<Rightarrow> nat \<Rightarrow> information_object option" where
  "sp_na_object pts j = Some (SinglePointInformation_create (pts_ioa_list pts ! j) (pt_value (pts_data pts ! j))
     (pt_qualifier (pts_data pts ! j)))"

definition dp_na_object :: "u32 point points \<Rightarrow> nat \<Rightarrow> information_object option" where
  "dp_na_object pts j = Some (DoublePointInformation_create (pts_ioa_list pts ! j) (pt_value (pts_data pts ! j))
     (pt_qualifier (pts_data pts ! j)))"

definition me_na_object :: "u16 point points \<Rightarrow> nat \<Rightarrow> information_object option" where
  "me_na_object pts j = MeasuredValueNormalized_create (pts_ioa_list pts ! j)
     (f32_of_int (sint (pt_value (pts_data pts ! j)))) (pt_qualifier (pts_data pts ! j))"

definition me_nb_object :: "u16 point points \<Rightarrow> nat \<Rightarrow> information_object option" where
  "me_nb_object pts j = Some (MeasuredValueScaled_create (pts_ioa_list pts ! j)
     (sint (pt_value (pts_data pts ! j))) (pt_qualifier (pts_data pts ! j)))"

definition me_nc_object :: "f32 point points \<Rightarrow> nat \<Rightarrow> information_object option" where
  "me_nc_object pts j = Some (MeasuredValueShort_create (pts_ioa_list pts ! j) (pt_value (pts_data pts ! j))
     (pt_qualifier (pts_data pts ! j)))"

definition me_nd_object :: "u32 points \<Rightarrow> nat \<Rightarrow> information_object option" where
  "me_nd_object pts j = MeasuredValueNormalizedWithoutQuality_create (pts_ioa_list pts ! j)
     (f32_of_int (uint (pts_data pts ! j)))"

text \<open>The types in the order they are sent, with the size per object the code assumes.\<close>

definition interrogation_groups ::
    "(u32 \<Rightarrow> nat \<Rightarrow> u64 \<times> bool) \<Rightarrow> single_server \<Rightarrow> (nat \<times> int \<times> (nat \<Rightarrow> information_object option)) list" where
  "interrogation_groups time_of sv =
     [(pts_count (pts_M_SP_TB_1 sv), 8, sp_tb_object time_of (pts_M_SP_TB_1 sv)),
      (pts_count (pts_M_DP_TB_1 sv), 8, dp_tb_object time_of (pts_M_DP_TB_1 sv)),
      (pts_count (pts_M_ME_TD_1 sv), 10, me_td_object time_of (pts_M_ME_TD_1 sv)),
      (pts_count (pts_M_SP_NA_1 sv), 4, sp_na_object (pts_M_SP_NA_1 sv)),
      (pts_count (pts_M_DP_NA_1 sv), 4, dp_na_object (pts_M_DP_NA_1 sv)),
      (pts_count (pts_M_ME_NA_1 sv), 6, me_na_object (pts_M_ME_NA_1 sv)),
      (pts_count (pts_M_ME_NB_1 sv), 6, me_nb_object (pts_M_ME_NB_1 sv)),
      (pts_count (pts_M_ME_NC_1 sv), 4, me_nc_object (pts_M_ME_NC_1 sv)),
      (pts_count (pts_M_ME_ND_1 sv), 4, me_nd_object (pts_M_ME_ND_1 sv))]"

definition interrogationHandler_single ::
    "app_layer_params \<Rightarrow> (u32 \<Rightarrow> nat \<Rightarrow> u64 \<times> bool) \<Rightarrow> connection \<Rightarrow> asdu \<Rightarrow> u8 \<Rightarrow> single_server \<Rightarrow> single_server answer" where
  "interrogationHandler_single p time_of con a qoi sv =
     (let info = Print (''{\"info\":\"received interrogation for group '' @ dec_int (uint qoi) @ ''\"}'')
      in if qoi = 20 then
           let (a, con_action) = sendACT_CON con a False
           in obind (traverse (\<lambda>(count, ioSize, mk). group_asdus p (s1_ASDU sv) ioSize count mk) (interrogation_groups time_of sv))
                (\<lambda>groups. let (a, term_action) = sendACT_TERM con a
                   in Returns (True, a, info # con_action # map (SendASDU con) (concat groups) @ [term_action], sv))
         else let (a, con_action) = sendACT_CON con a True in Returns (True, a, [info, con_action], sv))"

section \<open>Reset and clock\<close>

text \<open>\<open>memset\<close> of an array that exists: values and qualifiers become zero, and so good.\<close>

definition reset_points :: "'v \<Rightarrow> 'v point points \<Rightarrow> 'v point points" where
  "reset_points v pts = (if pts_data pts \<noteq> [] \<and> pts_count pts > 0
     then pts\<lparr>pts_data := replicate (pts_count pts) \<lparr>pt_value = v, pt_qualifier = 0\<rparr>\<rparr> else pts)"

definition reset_counters :: "bytes points \<Rightarrow> bytes points" where
  "reset_counters pts = (if pts_data pts \<noteq> [] \<and> pts_count pts > 0
     then pts\<lparr>pts_data := map (BinaryCounterReading_setValue 0) (take (pts_count pts) (pts_data pts)) @
       drop (pts_count pts) (pts_data pts)\<rparr> else pts)"

definition resetProcessHandler_single ::
    "connection \<Rightarrow> asdu \<Rightarrow> u8 \<Rightarrow> single_server \<Rightarrow> single_server answer" where
  "resetProcessHandler_single con a qrp sv =
     (let info = Print ''{\"info\":\"received reset process command\"}'';
          (a, con_action) = sendACT_CON con a False;
          (line, sv) = (if qrp = 1
            then (''{\"info\":\"reset all process data completed\"}'',
                  sv\<lparr>pts_M_SP_TB_1 := reset_points False (pts_M_SP_TB_1 sv),
                     pts_M_DP_TB_1 := reset_points 0 (pts_M_DP_TB_1 sv),
                     pts_M_ME_TD_1 := reset_points f32_0 (pts_M_ME_TD_1 sv),
                     pts_M_IT_TB_1 := reset_counters (pts_M_IT_TB_1 sv),
                     pts_M_SP_NA_1 := reset_points False (pts_M_SP_NA_1 sv),
                     pts_M_ME_NC_1 := reset_points f32_0 (pts_M_ME_NC_1 sv)\<rparr>)
            else (''{\"warn\":\"unknown reset process qualifier: '' @ dec_int (uint qrp) @ ''\"}'', sv));
          a = CS101_ASDU_setCOT COT_ACTIVATION_CON a
      in Returns (True, a, [info, con_action, Print line, SendASDU con a], sv))"

text \<open>The reply is left to the library. \<open>strftime\<close> after \<open>mktime\<close> is a parameter.\<close>

definition clockSyncHandler_single :: "(tm \<Rightarrow> string) \<Rightarrow> connection \<Rightarrow> asdu \<Rightarrow> bytes \<Rightarrow> single_server \<Rightarrow> single_server answer" where
  "clockSyncHandler_single iso8601 con a newTime sv =
     Returns (True, a, [Print ''{\"debug\":\"clockSyncHandler triggered\"}'',
       Print (''{\"type\":\"C_CS_NA_1\",\"value\":\"'' @ iso8601 (tm_of_cp56 newTime) @ ''\"}'')], sv)"

section \<open>Commands\<close>

definition COT_UNKNOWN_IOA :: u8 where "COT_UNKNOWN_IOA = 47"

text \<open>The lines of one command: its type, and what an execution prints behind the address.\<close>

definition select_line :: "string \<Rightarrow> string \<Rightarrow> int \<Rightarrow> string" where
  "select_line type_name mode ioa = ''{\"type\":\"'' @ type_name @ ''\",\"action\":\"select\",\"mode\":\"'' @ mode @
     ''\",\"address\":'' @ dec_int ioa @ ''}''"

definition execute_line :: "string \<Rightarrow> string \<Rightarrow> int \<Rightarrow> string \<Rightarrow> string" where
  "execute_line type_name mode ioa rest = ''{\"type\":\"'' @ type_name @ ''\",\"action\":\"execute\",\"mode\":\"'' @ mode @
     ''\",\"address\":'' @ dec_int ioa @ '',\"value\":'' @ rest @ ''}''"

definition not_in_range_line :: "string \<Rightarrow> int \<Rightarrow> string" where
  "not_in_range_line level ioa = ''{\"'' @ level @ ''\":\"received address not in range: '' @ dec_int ioa @ ''\"}''"

definition unknown_type_line :: "u8 \<Rightarrow> string" where
  "unknown_type_line ty = ''{\"warn\":\"received unknown type id: '' @ dec_int (uint ty) @ ''\"}''"

text \<open>
  The results: the request as the replies leave it, the actions in order, the select table. An execution prints, confirms and
  terminates; a select is stored, confirmed and printed.
\<close>

type_synonym command_result = "asdu \<times> action list \<times> select_table"

definition execute_direct :: "connection \<Rightarrow> asdu \<Rightarrow> string \<Rightarrow> select_table \<Rightarrow> command_result" where
  "execute_direct con a line tab =
     (let a = CS101_ASDU_setNegative False (CS101_ASDU_setCOT COT_ACTIVATION_CON a);
          b = CS101_ASDU_setCOT COT_ACTIVATION_TERMINATION a
      in (b, [Print line, SendASDU con a, SendASDU con b], tab))"

definition accept_select :: "u64 \<Rightarrow> int \<Rightarrow> connection \<Rightarrow> asdu \<Rightarrow> string \<Rightarrow> select_table \<Rightarrow> command_result" where
  "accept_select now ioa con a line tab =
     (let a = CS101_ASDU_setNegative False (CS101_ASDU_setCOT COT_ACTIVATION_CON a)
      in (a, [SendASDU con a, Print line], storeSelectState now ioa con tab))"

text \<open>Single commands release the select first and are refused with a confirmation.\<close>

definition single_command_single :: "string \<Rightarrow> u64 \<Rightarrow> int \<Rightarrow> u8 \<Rightarrow> connection \<Rightarrow> asdu \<Rightarrow> select_table \<Rightarrow> command_result" where
  "single_command_single mode now ioa sco con a tab =
     (let isSelect = SingleCommand_isSelect sco;
          execute = (\<lambda>m. execute_line ''C_SC_NA_1'' m ioa (if SingleCommand_getState sco then ''true'' else ''false''))
      in if mode = ''direct'' then
           if \<not> isSelect then execute_direct con a (execute ''direct'') tab
           else accept_select now ioa con a (select_line ''C_SC_NA_1'' ''direct'' ioa) tab
         else if isSelect then accept_select now ioa con a (select_line ''C_SC_NA_1'' ''sbo'' ioa) tab
         else
           let (selected, tab) = isPreviouslySelected now ioa con tab
           in if selected then execute_direct con a (execute ''sbo'') (clearSelectState ioa con tab)
              else let a = CS101_ASDU_setNegative True (CS101_ASDU_setCOT COT_ACTIVATION_CON a)
                   in (a, [SendASDU con a, Print not_selected_line], tab))"

text \<open>The other three print after the confirmation, release the select at the end and are refused with a termination.\<close>

definition valued_command_single ::
    "string \<Rightarrow> string \<Rightarrow> bool \<Rightarrow> string \<Rightarrow> u64 \<Rightarrow> int \<Rightarrow> connection \<Rightarrow> asdu \<Rightarrow> select_table \<Rightarrow> command_result" where
  "valued_command_single type_name mode isSelect rest now ioa con a tab =
     (if mode = ''direct'' then
        if \<not> isSelect then execute_direct con a (execute_line type_name ''direct'' ioa rest) tab
        else accept_select now ioa con a (select_line type_name ''direct'' ioa) tab
      else if isSelect then accept_select now ioa con a (select_line type_name ''sbo'' ioa) tab
      else
        let (selected, tab) = isPreviouslySelected now ioa con tab
        in if selected then
             let a = CS101_ASDU_setNegative False (CS101_ASDU_setCOT COT_ACTIVATION_CON a);
                 b = CS101_ASDU_setCOT COT_ACTIVATION_TERMINATION a
             in (b, [SendASDU con a, Print (execute_line type_name ''sbo'' ioa rest), SendASDU con b],
                 clearSelectState ioa con tab)
           else let a = CS101_ASDU_setNegative True (CS101_ASDU_setCOT COT_ACTIVATION_TERMINATION a)
                in (a, [SendASDU con a, Print (unselected_line ioa)], tab))"

text \<open>The rest of an execution line of a command with a value and a qualifier.\<close>

definition value_qualifier :: "string \<Rightarrow> int \<Rightarrow> string" where
  "value_qualifier v qual = v @ '',\"qualifier\":'' @ dec_int qual"

text \<open>An address that is not configured is refused, whatever the command.\<close>

definition for_configured :: "int list \<Rightarrow> int \<Rightarrow> string \<Rightarrow> connection \<Rightarrow> asdu \<Rightarrow> select_table \<Rightarrow> command_result \<Rightarrow> command_result" where
  "for_configured ioas ioa level con a tab result =
     (if first_index (\<lambda>x. x = ioa) ioas \<noteq> None then result
      else let a = CS101_ASDU_setNegative True (CS101_ASDU_setCOT COT_UNKNOWN_IOA a)
           in (a, [SendASDU con a, Print (not_in_range_line level ioa)], tab))"

text \<open>
  The branches for the four types of commands; None for every other type and for an element that is NULL, which get the same
  reply. The type of the ASDU decides about the type of its element.
\<close>

fun command_branch ::
    "u64 \<Rightarrow> connection \<Rightarrow> asdu \<Rightarrow> information_object option \<Rightarrow> single_server \<Rightarrow> command_result option" where
  "command_branch now con a (Some (SingleCommand ioa sco)) sv =
     Some (for_configured (ioas_C_SC_NA_1 sv) ioa ''error'' con a (s1_selectTable sv)
       (single_command_single (s1_command_mode sv) now ioa sco con a (s1_selectTable sv)))"
| "command_branch now con a (Some (DoubleCommand ioa dcq)) sv =
     Some (for_configured (ioas_C_DC_NA_1 sv) ioa ''warn'' con a (s1_selectTable sv)
       (valued_command_single ''C_DC_NA_1'' (s1_command_mode sv) (DoubleCommand_isSelect dcq)
         (value_qualifier (dec_int (DoubleCommand_getState dcq)) (DoubleCommand_getQU dcq)) now ioa con a (s1_selectTable sv)))"
| "command_branch now con a (Some (SetpointCommandNormalized ioa ev qos)) sv =
     Some (for_configured (ioas_C_SE_NA_1 sv) ioa ''warn'' con a (s1_selectTable sv)
       (valued_command_single ''C_SE_NA_1'' (s1_command_mode sv) (SetpointCommandNormalized_isSelect qos)
         (value_qualifier (fmt_2f (SetpointCommandNormalized_getValue ev)) (SetpointCommandNormalized_getQL qos))
         now ioa con a (s1_selectTable sv)))"
| "command_branch now con a (Some (SetpointCommandShort ioa v qos)) sv =
     Some (for_configured (ioas_C_SE_NC_1 sv) ioa ''warn'' con a (s1_selectTable sv)
       (valued_command_single ''C_SE_NC_1'' (s1_command_mode sv) (SetpointCommandShort_isSelect qos)
         (value_qualifier (fmt_2f v) (SetpointCommandShort_getQL qos)) now ioa con a (s1_selectTable sv)))"
| "command_branch now con a _ sv = None"

definition asduHandler_single :: "u64 \<Rightarrow> connection \<Rightarrow> asdu \<Rightarrow> single_server \<Rightarrow> single_server answer" where
  "asduHandler_single now con a sv =
     (if CS101_ASDU_getCOT a = COT_ACTIVATION then
        obind (CS101_ASDU_getElement a 0) (\<lambda>io.
          case command_branch now con a io sv of
            Some (b, acts, tab) \<Rightarrow> Returns (True, b, acts, sv\<lparr>s1_selectTable := tab\<rparr>)
          | None \<Rightarrow>
              let b = CS101_ASDU_setCOT COT_UNKNOWN_TYPE_ID a
              in Returns (True, b, [SendASDU con b, Print (unknown_type_line (CS101_ASDU_getTypeID a))], sv))
      else let b = CS101_ASDU_setCOT COT_UNKNOWN_COT a in Returns (True, b, [SendASDU con b], sv))"

text \<open>
  The callbacks as \<open>init_server\<close> registers them. The lines that the handler of connection events prints are not in the
  state, so it is the identity here.
\<close>

definition single_handlers ::
    "(tm \<Rightarrow> string) \<Rightarrow> app_layer_params \<Rightarrow> (u32 \<Rightarrow> nat \<Rightarrow> u64 \<times> bool) \<Rightarrow> u64 \<Rightarrow> single_server slave_handlers" where
  "single_handlers iso8601 p time_of now =
     \<lparr>sh_interrogation = Some (interrogationHandler_single p time_of), sh_clockSync = Some (clockSyncHandler_single iso8601),
      sh_resetProcess = Some resetProcessHandler_single, sh_asdu = Some (asduHandler_single now),
      sh_connectionEvent = Some (\<lambda>con event sv. sv)\<rparr>"

end
