(* ===== verification/Single_Server_Interrogation.thy ===== *)
theory Single_Server_Interrogation
  imports Single_Server_Handlers
begin

text \<open>
  What the station interrogation of the single file server sends: the groups of points it forms, how many
  objects of a group its ASDU has room for, and so which points arrive at the master.
\<close>

section \<open>What an interrogation sends\<close>

lemma filter_less_upt: "filter (\<lambda>i. i < c) [0..<l] = take c [0..<l]"
  by (induction l) auto

lemma filter_group:
  assumes "j mod m = 0" "l \<le> m"
  shows "filter (\<lambda>i. i mod m < c) [j..<j + l] = take c [j..<j + l]"
proof -
  have shift: "[j..<j + l] = map (\<lambda>i. i + j) [0..<l]" using map_add_upt [of j l] by (simp add: add.commute)
  have "(i + j) mod m = i" if "i < l" for i using that assms by (simp add: mod_add_eq [symmetric])
  then have "filter (\<lambda>i. (i + j) mod m < c) [0..<l] = filter (\<lambda>i. i < c) [0..<l]" by (intro filter_cong) auto
  then show ?thesis by (simp add: shift filter_map o_def take_map filter_less_upt)
qed

text \<open>The groups start at the multiples of their largest length; of each its first \<open>c\<close> points are wanted.\<close>

lemma chunk_loop_prefixes:
  assumes "0 < m" "j mod m = 0"
  shows "\<exists>cs. chunk_loop (int m) (int n) (int j) = Some cs \<and>
    concat (map (\<lambda>g. take c (chunk_indices 0 g)) cs) = filter (\<lambda>i. i mod m < c) [j..<n] \<and>
    (\<forall>g \<in> set cs. list_all (\<lambda>i. i < n) (chunk_indices 0 g) \<and> chunk_indices 0 g \<noteq> [])"
  using assms(2)
proof (induction "n - j" arbitrary: j rule: less_induct)
  case less
  show ?case
  proof (cases "j < n")
    case False
    then show ?thesis by (subst chunk_loop.simps) simp
  next
    case True
    define l where "l = (if j + m < n then m else n - j)"
    have l: "0 < l" "l \<le> m" "j + l \<le> n" using True assms(1) by (auto simp: l_def)
    have "(j + m) mod m = 0" "n - (j + m) < n - j" using less(2) True assms(1) by (simp_all add: mod_add_eq [symmetric])
    from less(1) [OF this(2,1)] obtain cs where
      cs: "chunk_loop (int m) (int n) (int (j + m)) = Some cs"
      "concat (map (\<lambda>g. take c (chunk_indices 0 g)) cs) = filter (\<lambda>i. i mod m < c) [j + m..<n]"
      "\<forall>g \<in> set cs. list_all (\<lambda>i. i < n) (chunk_indices 0 g) \<and> chunk_indices 0 g \<noteq> []"
      by blast
    have r: "chunk_loop (int m) (int n) (int j) = Some ((int j, int l) # cs)"
      using True cs(1) by (subst chunk_loop.simps) (auto simp: l_def Let_def)
    have idx: "chunk_indices 0 (int j, int l) = [j..<j + l]" by (simp add: chunk_indices_def)
    have split: "[j..<n] = [j..<j + l] @ [j + m..<n]"
    proof (cases "j + m < n")
      case True
      then show ?thesis using upt_add_eq_append [of j "j + m" "n - (j + m)"] by (simp add: l_def)
    qed (use \<open>j < n\<close> in \<open>simp add: l_def\<close>)
    show ?thesis
      using r idx cs(2,3) l filter_group [OF less(2) l(2), of c] by (auto simp: split list_all_iff)
  qed
qed

text \<open>As many objects are taken as there is room for, the others are lost without a message.\<close>

definition capacity :: "app_layer_params \<Rightarrow> nat \<Rightarrow> nat" where
  "capacity p n = nat ((maxSizeOfASDU p - 6) div (3 + int n))"

lemma div_room:
  assumes "0 < (k :: int)"
  shows "a * k \<le> b \<longleftrightarrow> a \<le> b div k"
proof
  assume "a * k \<le> b"
  then show "a \<le> b div k" using zdiv_mono1 [of "a * k" b k] assms by simp
next
  assume "a \<le> b div k"
  then have "a * k \<le> b div k * k" using assms by (simp add: mult_right_mono)
  moreover have "b div k * k \<le> b" using assms by (metis add_increasing2 div_mult_mod_eq order_refl pos_mod_sign)
  ultimately show "a * k \<le> b" by simp
qed

lemma accepts_uniform:
  assumes p: "link_params p" and io: "list_all (\<lambda>io. InformationObject_getType io = ty \<and> io_wf io) (ios @ [io])" "0 < body_size ty"
  shows "accepts p False ios io \<longleftrightarrow> length ios < capacity p (body_size ty)"
proof -
  let ?n = "body_size ty"
  have sz: "sizeOfIOA p = 3" "maxSizeOfASDU p \<le> 249" "asduHeaderLength p = 6" "21 \<le> maxSizeOfASDU p"
    using p by (auto simp: link_params_def asduHeaderLength_def)
  have "int (length (elements_layout p False (ios @ [io]))) = int (length (ios @ [io])) * (3 + int ?n)"
    using length_elements_layout [OF link_params_ok [OF p], of "ios @ [io]" ?n False] io(1) sz(1)
    by (simp add: list_all_iff)
  then have room: "fits p False (ios @ [io]) \<longleftrightarrow> (int (length ios) + 1) * (3 + int ?n) \<le> maxSizeOfASDU p - 6"
    by (simp add: fits_def sz(3) algebra_simps)
  also have "\<dots> \<longleftrightarrow> int (length ios) + 1 \<le> (maxSizeOfASDU p - 6) div (3 + int ?n)"
    by (rule div_room) simp
  finally have fits: "fits p False (ios @ [io]) \<longleftrightarrow> length ios < capacity p ?n"
    by (simp add: capacity_def) linarith
  have "capacity p ?n \<le> 60"
  proof -
    have "(maxSizeOfASDU p - 6) div (3 + int ?n) \<le> (maxSizeOfASDU p - 6) div 4"
      using io(2) sz by (intro zdiv_mono2) auto
    also have "\<dots> \<le> 60" using sz(2) by simp
    finally show ?thesis by (simp add: capacity_def)
  qed
  moreover have "ios \<noteq> [] \<Longrightarrow> type_byte io = type_byte (hd ios)"
    using io(1) by (cases ios) (auto simp: type_byte_def)
  ultimately show ?thesis by (auto simp: accepts_def compatible_def fits)
qed

lemma taken_capacity:
  assumes "link_params p" "list_all (\<lambda>io. InformationObject_getType io = ty \<and> io_wf io) (acc @ ios)" "0 < body_size ty"
    "length acc \<le> capacity p (body_size ty)"
  shows "taken p False acc ios = acc @ take (capacity p (body_size ty) - length acc) ios"
  using assms(2,4)
proof (induction ios arbitrary: acc)
  case (Cons io ios)
  let ?c = "capacity p (body_size ty)"
  have acc: "accepts p False acc io \<longleftrightarrow> length acc < ?c"
    using accepts_uniform [OF assms(1) _ assms(3), of acc io] Cons.prems(1) by (auto simp: list_all_iff)
  show ?case
  proof (cases "length acc < ?c")
    case True
    then show ?thesis
      using Cons.IH [of "acc @ [io]"] Cons.prems acc by (simp add: take_Cons' Suc_diff_Suc)
  next
    case False
    then show ?thesis using Cons.IH [of acc] Cons.prems acc by (simp add: list_all_iff)
  qed
qed simp

lemma add_objects_add_all: "add_objects (map Some ios) a = Returns (add_all ios a)"
  by (induction ios arbitrary: a) (simp_all add: add_all_def)

definition sendable_type :: "app_layer_params \<Rightarrow> u32 \<Rightarrow> nat \<Rightarrow> (nat \<Rightarrow> information_object option) \<Rightarrow> bool" where
  "sendable_type p ty count mk \<longleftrightarrow>
     (\<forall>j < count. \<exists>io. mk j = Some io \<and> InformationObject_getType io = ty \<and> io_wf io \<and> addr_ok p io)"

definition carried :: "app_layer_params \<Rightarrow> int \<Rightarrow> u32 \<Rightarrow> nat \<Rightarrow> nat list" where
  "carried p ioSize ty count =
     filter (\<lambda>j. j mod nat (calcMaxIOAs (maxSizeOfASDU p) ioSize) < capacity p (body_size ty)) [0..<count]"

lemma group_asdu_represents:
  assumes "link_params p" "sendable_type p ty count mk" "0 < body_size ty" "list_all (\<lambda>i. i < count) is"
  shows "\<exists>a. add_objects (map mk is) (CS101_ASDU_create p False cot oa ca False False) = Returns a \<and>
    represents a (map (the \<circ> mk) (take (capacity p (body_size ty)) is))"
proof -
  let ?a = "CS101_ASDU_create p False cot oa ca False False" and ?ios = "map (the \<circ> mk) is"
  have some: "mk i = Some (the (mk i)) \<and> InformationObject_getType (the (mk i)) = ty \<and> io_wf (the (mk i)) \<and> addr_ok p (the (mk i))"
    if "i \<in> set is" for i
    using assms(2,4) that by (force simp: sendable_type_def list_all_iff)
  then have mk: "map mk is = map Some ?ios" by simp
  have "represents (add_all ?ios ?a) (taken p False [] ?ios)"
    using add_all_refines [OF represents_create [OF link_params_ok [OF assms(1)]], of ?ios False cot oa ca False False] some
    by (simp add: list_all_iff)
  moreover have "taken p False [] ?ios = take (capacity p (body_size ty)) ?ios"
    using taken_capacity [OF assms(1) _ assms(3), of "[]" ?ios] some by (simp add: list_all_iff)
  ultimately show ?thesis using add_objects_add_all [of ?ios ?a] by (simp only: mk take_map) blast
qed

lemma group_asdus_carried:
  assumes "link_params p" "sendable_type p ty count mk" "0 < body_size ty" "0 < calcMaxIOAs (maxSizeOfASDU p) ioSize"
  shows "\<exists>asdus oss. group_asdus p ca ioSize count mk = Returns asdus \<and> list_all2 represents asdus oss \<and>
    concat oss = map (the \<circ> mk) (carried p ioSize ty count)"
proof -
  let ?m = "calcMaxIOAs (maxSizeOfASDU p) ioSize" and ?c = "capacity p (body_size ty)"
  have m: "int (nat ?m) = ?m" using assms(4) by simp
  from chunk_loop_prefixes [of "nat ?m" 0 count ?c] assms(4) obtain cs where
    cs: "chunk_loop ?m (int count) 0 = Some cs"
    "concat (map (\<lambda>g. take ?c (chunk_indices 0 g)) cs) = filter (\<lambda>i. i mod nat ?m < ?c) [0..<count]"
    "\<forall>g \<in> set cs. list_all (\<lambda>i. i < count) (chunk_indices 0 g)"
    using m by auto
  have "\<exists>asdus. traverse (\<lambda>g. add_objects (map mk (chunk_indices 0 g))
      (CS101_ASDU_create p False (uint COT_INTERROGATED_BY_STATION) ca ca False False)) cs = Returns asdus \<and>
    list_all2 (\<lambda>g a. represents a (map (the \<circ> mk) (take ?c (chunk_indices 0 g)))) cs asdus"
    using group_asdu_represents [OF assms(1-3)] cs(3) by (intro traverse_ex) blast
  then obtain asdus where t: "group_asdus p ca ioSize count mk = Returns asdus"
    "list_all2 (\<lambda>g a. represents a (map (the \<circ> mk) (take ?c (chunk_indices 0 g)))) cs asdus"
    by (auto simp: group_asdus_def cs(1))
  have "concat (map (\<lambda>g. map (the \<circ> mk) (take ?c (chunk_indices 0 g))) cs) = map (the \<circ> mk) (carried p ioSize ty count)"
    by (simp add: carried_def cs(2) [symmetric] map_concat o_def)
  moreover have "list_all2 represents asdus (map (\<lambda>g. map (the \<circ> mk) (take ?c (chunk_indices 0 g))) cs)"
    using t(2) by (simp add: list_all2_conv_all_nth)
  ultimately show ?thesis using t(1) by blast
qed

section \<open>The objects of the nine types\<close>

definition interrogated_types :: "u32 list" where
  "interrogated_types = [M_SP_TB_1, M_DP_TB_1, M_ME_TD_1, M_SP_NA_1, M_DP_NA_1, M_ME_NA_1, M_ME_NB_1, M_ME_NC_1, M_ME_ND_1]"

lemmas interrogated_objects = sp_tb_object_def dp_tb_object_def me_td_object_def sp_na_object_def dp_na_object_def
  me_na_object_def me_nb_object_def me_nc_object_def me_nd_object_def

text \<open>The points of a server whose addresses are in range and whose values can be converted.\<close>

definition objects_exist :: "app_layer_params \<Rightarrow> nat \<times> int \<times> (nat \<Rightarrow> information_object option) \<Rightarrow> bool" where
  "objects_exist p g \<longleftrightarrow> (case g of (count, ioSize, mk) \<Rightarrow> \<forall>j < count. \<exists>io. mk j = Some io \<and> addr_ok p io)"

lemma object_shapes:
  "sp_tb_object t pts1 j = Some io \<Longrightarrow> InformationObject_getType io = M_SP_TB_1 \<and> io_wf io"
  "dp_tb_object t pts2 j = Some io \<Longrightarrow> InformationObject_getType io = M_DP_TB_1 \<and> io_wf io"
  "me_td_object t pts3 j = Some io \<Longrightarrow> InformationObject_getType io = M_ME_TD_1 \<and> io_wf io"
  "sp_na_object pts1 j = Some io \<Longrightarrow> InformationObject_getType io = M_SP_NA_1 \<and> io_wf io"
  "dp_na_object pts2 j = Some io \<Longrightarrow> InformationObject_getType io = M_DP_NA_1 \<and> io_wf io"
  "me_na_object pts4 j = Some io \<Longrightarrow> InformationObject_getType io = M_ME_NA_1 \<and> io_wf io"
  "me_nb_object pts4 j = Some io \<Longrightarrow> InformationObject_getType io = M_ME_NB_1 \<and> io_wf io"
  "me_nc_object pts3 j = Some io \<Longrightarrow> InformationObject_getType io = M_ME_NC_1 \<and> io_wf io"
  "me_nd_object pts5 j = Some io \<Longrightarrow> InformationObject_getType io = M_ME_ND_1 \<and> io_wf io"
  by (auto simp: interrogated_objects io_create_defs length_GetCP56Time2a setValue_length)

lemma groups_sendable:
  assumes "list_all (objects_exist p) (interrogation_groups time_of sv)"
  shows "list_all2 (\<lambda>(count, ioSize, mk) ty. sendable_type p ty count mk) (interrogation_groups time_of sv) interrogated_types"
proof -
  have s: "sendable_type p ty count mk" if "objects_exist p (count, ioSize, mk)"
    "\<And>j io. mk j = Some io \<Longrightarrow> InformationObject_getType io = ty \<and> io_wf io" for ty count ioSize mk
    using that by (fastforce simp: sendable_type_def objects_exist_def)
  note exist = assms [unfolded interrogation_groups_def list.pred_inject]
  show ?thesis
    unfolding interrogation_groups_def interrogated_types_def list_all2_Cons prod.case
    by (intro conjI list_all2_Nil [THEN iffD2] refl; (rule s)?; (erule object_shapes | (insert exist, elim conjE, assumption))?)
qed

lemma traverse_concat:
  "list_all2 (\<lambda>x z. \<exists>ys. f x = Returns ys \<and> (\<exists>oss. list_all2 R ys oss \<and> concat oss = h x z)) xs zs \<Longrightarrow>
     \<exists>yss oss. traverse f xs = Returns yss \<and> list_all2 R (concat yss) oss \<and> concat oss = concat (map2 h xs zs)"
proof (induction rule: list_all2_induct)
  case (Cons x xs z zs)
  then obtain ys os yss oss where "f x = Returns ys" "list_all2 R ys os" "concat os = h x z" "traverse f xs = Returns yss"
    "list_all2 R (concat yss) oss" "concat oss = concat (map2 h xs zs)" by blast
  then have "traverse f (x # xs) = Returns (ys # yss)" "list_all2 R (concat (ys # yss)) (os @ oss)"
    "concat (os @ oss) = concat (map2 h (x # xs) (z # zs))"
    by (simp_all add: list_all2_appendI)
  then show ?case by blast
qed simp

lemma dec_20: "dec_int 20 = ''20''"
  by code_simp

lemma calcMaxIOAs_positive: "link_params p \<Longrightarrow> 0 < s \<Longrightarrow> s \<le> 15 \<Longrightarrow> 0 < calcMaxIOAs (maxSizeOfASDU p) s"
  by (simp add: calcMaxIOAs_def c_arith link_params_def pos_imp_zdiv_pos_iff)

lemma interrogated_sizes:
  "list_all2 (\<lambda>(count, ioSize, mk) ty. 0 < ioSize \<and> ioSize \<le> 15 \<and> 0 < body_size ty) (interrogation_groups time_of sv) interrogated_types"
  by (simp add: interrogation_groups_def interrogated_types_def)

text \<open>
  C35: what a station interrogation of the single file server sends. It is confirmed, then come the points of the nine types
  with values, in order, and then the termination. Of each group of points that the server means to put into one ASDU only the first
  ones are carried, as many as there is room for; the rest is never sent.
\<close>

theorem single_interrogation_contents:
  assumes "link_params p" "list_all (objects_exist p) (interrogation_groups time_of sv)"
  shows "\<exists>asdus oss. interrogationHandler_single p time_of con a 20 sv =
      Returns (True, reply_asdu COT_ACTIVATION_TERMINATION False (reply_asdu COT_ACTIVATION_CON False a),
        [Print ''{\"info\":\"received interrogation for group 20\"}'', SendASDU con (reply_asdu COT_ACTIVATION_CON False a)] @
        map (SendASDU con) asdus @
        [SendASDU con (reply_asdu COT_ACTIVATION_TERMINATION False (reply_asdu COT_ACTIVATION_CON False a))], sv) \<and>
    list_all2 represents asdus oss \<and>
    concat oss = concat (map2 (\<lambda>(count, ioSize, mk) ty. map (the \<circ> mk) (carried p ioSize ty count))
      (interrogation_groups time_of sv) interrogated_types)"
proof -
  let ?gs = "interrogation_groups time_of sv"
  let ?group = "\<lambda>(count, ioSize, mk). group_asdus p (s1_ASDU sv) ioSize count mk"
  let ?sent = "\<lambda>(count, ioSize, mk) ty. map (the \<circ> mk) (carried p ioSize ty count)"
  have "list_all2 (\<lambda>g ty. \<exists>asdus. ?group g = Returns asdus \<and> (\<exists>oss. list_all2 represents asdus oss \<and> concat oss = ?sent g ty))
      ?gs interrogated_types"
    using groups_sendable [OF assms(2)] interrogated_sizes [of time_of sv] calcMaxIOAs_positive [OF assms(1)] group_asdus_carried [OF assms(1)]
    by (simp add: list_all2_conv_all_nth split_beta)
  from traverse_concat [OF this] obtain groups oss where "traverse ?group ?gs = Returns groups"
    "list_all2 represents (concat groups) oss" "concat oss = concat (map2 ?sent ?gs interrogated_types)" by blast
  then show ?thesis
    by (intro exI [of _ "concat groups"] exI [of _ oss]) (simp add: interrogationHandler_single_def sendACT_simps dec_20)
qed

definition demo_values :: single_server where
  "demo_values = initial_single_server\<lparr>pts_M_ME_NC_1 := \<lparr>pts_ioa_list = map int [1..<32], pts_count = 31,
     pts_data = replicate 31 (invalid_point f32_0 0), pts_last_offline = None\<rparr>\<rparr>"

lemma demo_values_groups:
  "interrogation_groups time_of demo_values =
     [(0, 8, sp_tb_object time_of no_points), (0, 8, dp_tb_object time_of no_points), (0, 10, me_td_object time_of no_points),
      (0, 4, sp_na_object no_points), (0, 4, dp_na_object no_points), (0, 6, me_na_object no_points), (0, 6, me_nb_object no_points),
      (31, 4, me_nc_object (pts_M_ME_NC_1 demo_values)), (0, 4, me_nd_object no_points)]"
  by (simp add: interrogation_groups_def demo_values_def initial_single_server_def no_points_def)

lemma demo_values_exist: "list_all (objects_exist defaultAppLayerParameters) (interrogation_groups time_of demo_values)"
  by (simp add: demo_values_groups objects_exist_def)
    (auto simp: me_nc_object_def demo_values_def MeasuredValueShort_create_def addr_ok_def)

lemma demo_values_carried: "carried defaultAppLayerParameters 4 M_ME_NC_1 31 = [0..<30]" "carried p s ty 0 = []"
  by (simp_all add: carried_def calcMaxIOAs_def capacity_def c_arith upt_rec)

theorem single_interrogation_contents_witness:
  "\<exists>asdus oss acts b. interrogationHandler_single defaultAppLayerParameters (\<lambda>_ _. (0, False)) 1 (command_request (InterrogationCommand 0 20)) 20
      demo_values = Returns (True, b, acts, demo_values) \<and>
    list_all2 represents asdus oss \<and> length (concat oss) = 30 \<and> pts_count (pts_M_ME_NC_1 demo_values) = 31"
proof -
  have n: "length (concat (map2 (\<lambda>(count, ioSize, mk) ty. map (the \<circ> mk) (carried defaultAppLayerParameters ioSize ty count))
      (interrogation_groups (\<lambda>_ _. (0, False)) demo_values) interrogated_types)) = 30"
    by (simp add: demo_values_groups interrogated_types_def demo_values_carried)
  have "pts_count (pts_M_ME_NC_1 demo_values) = 31" by (simp add: demo_values_def)
  with n single_interrogation_contents [OF link_params_default demo_values_exist, of "\<lambda>_ _. (0, False)" 1
      "command_request (InterrogationCommand 0 20)"] show ?thesis by metis
qed

text \<open>
  How many points the server means to put into one ASDU, and how many of them there is room for, with the parameters of the
  link: single and double points with a time stamp 30 and 22, normalized values with a time stamp 24 and 18,
  short floating point values 60 and 30, values without quality 60 and 48. Only the other four types get through whole.
\<close>

theorem single_interrogation_room:
  "map2 (\<lambda>(count, ioSize, mk) ty. (calcMaxIOAs (maxSizeOfASDU defaultAppLayerParameters) ioSize,
        capacity defaultAppLayerParameters (body_size ty))) (interrogation_groups time_of sv) interrogated_types =
     [(30, 22), (30, 22), (24, 18), (60, 60), (60, 60), (40, 40), (40, 40), (60, 30), (60, 48)]"
  by (simp add: interrogation_groups_def interrogated_types_def calcMaxIOAs_def capacity_def c_arith)

end
