(* ===== verification/Single_Server_Commands.thy ===== *)
theory Single_Server_Commands
  imports Single_Server_Handlers
begin

text \<open>
  Commands of the single file server: they are treated like those of the modular server, and refused for addresses that are
  not configured.
\<close>

section \<open>Agreement with the command handler\<close>

definition replies :: "action list \<Rightarrow> asdu list" where
  "replies acts = concat (map (\<lambda>act. case act of SendASDU con a \<Rightarrow> [a] | _ \<Rightarrow> []) acts)"

lemma replies_simps [simp]: "replies [] = []" "replies (SendASDU con a # acts) = a # replies acts"
  "replies (Print s # acts) = replies acts" "replies (xs @ ys) = replies xs @ replies ys"
  by (simp_all add: replies_def)

lemma configured_branch:
  "ioa \<in> set ioas \<Longrightarrow> for_configured ioas ioa level con a tab result = result"
  "ioa \<notin> set ioas \<Longrightarrow> for_configured ioas ioa level con a tab result =
     (reply_asdu COT_UNKNOWN_IOA True a, [SendASDU con (reply_asdu COT_UNKNOWN_IOA True a), Print (not_in_range_line level ioa)], tab)"
proof -
  have "first_index (\<lambda>x. x = ioa) ioas = None \<longleftrightarrow> ioa \<notin> set ioas" by (auto simp: first_index_None)
  then show "ioa \<in> set ioas \<Longrightarrow> for_configured ioas ioa level con a tab result = result"
    "ioa \<notin> set ioas \<Longrightarrow> for_configured ioas ioa level con a tab result =
     (reply_asdu COT_UNKNOWN_IOA True a, [SendASDU con (reply_asdu COT_UNKNOWN_IOA True a), Print (not_in_range_line level ioa)], tab)"
    by (simp_all add: for_configured_def reply_asdu_def Let_def)
qed

lemma answers_agree:
  "handle_single_command mode now con a tab = Returns (r, b, acts, tab') \<Longrightarrow>
   CS101_ASDU_getElement a 0 = Returns (Some (SingleCommand ioa sco)) \<Longrightarrow>
   (\<exists>b2 acts2. single_command_single mode now ioa sco con a tab = (b2, acts2, tab') \<and> length (replies acts2) = length (replies acts))"
  "handle_set_point_command mode now con a tab = Returns (r, b, acts, tab') \<Longrightarrow>
   CS101_ASDU_getElement a 0 = Returns (Some (SetpointCommandShort ioa v qos)) \<Longrightarrow>
   (\<exists>b2 acts2. valued_command_single name mode (SetpointCommandShort_isSelect qos) rest now ioa con a tab = (b2, acts2, tab') \<and>
      length (replies acts2) = length (replies acts))"
  by (auto simp: handle_single_command_def handle_set_point_command_def single_command_single_def valued_command_single_def
      execute_direct_def accept_select_def confirm_def confirm_terminate_def refuse_def Let_def split: if_splits prod.splits)

text \<open>The address of a command is in the list of its own type.\<close>

definition command_configured :: "single_server \<Rightarrow> asdu \<Rightarrow> bool" where
  "command_configured sv a \<longleftrightarrow> (case CS101_ASDU_getElement a 0 of
     Returns (Some (SingleCommand ioa sco)) \<Rightarrow> ioa \<in> set (ioas_C_SC_NA_1 sv)
   | Returns (Some (SetpointCommandShort ioa value qos)) \<Rightarrow> ioa \<in> set (ioas_C_SE_NC_1 sv)
   | _ \<Rightarrow> True)"

text \<open>
  C37: the single file server treats single commands and set points whose address is configured for their type like the command
  handler of the modular server: the select table is the same afterwards, in direct mode and with select before operate, and
  a command is executed, which takes a confirmation and a termination, by both or by none.
\<close>

theorem single_commands_agree:
  assumes "asduHandler mode now con a st = Returns (r, b, acts, st')"
    "ucast (CS101_ASDU_getTypeID a) \<in> {C_SC_NA_1, C_SE_NC_1}" "CS101_ASDU_getCOT a = COT_ACTIVATION"
    "command_configured sv a"
    "s1_command_mode sv = mode" "s1_selectTable sv = cs_table st"
  shows "\<exists>b2 acts2 sv2. asduHandler_single now con a sv = Returns (True, b2, acts2, sv2) \<and>
    s1_selectTable sv2 = cs_table st' \<and> length (replies acts2) = length (replies acts)"
  using assms(2)
proof (elim insertE emptyE)
  assume ty: "ucast (CS101_ASDU_getTypeID a) = C_SC_NA_1"
  then obtain tab where h: "handle_single_command mode now con a (cs_table st) = Returns (r, b, acts, tab)" "st' = st\<lparr>cs_table := tab\<rparr>"
    using assms(1) by (auto simp: asduHandler_def obind_Returns)
  then obtain ioa sco where el: "CS101_ASDU_getElement a 0 = Returns (Some (SingleCommand ioa sco))"
    by (auto simp: handle_single_command_def obind_Returns cast_Returns)
  moreover have "ioa \<in> set (ioas_C_SC_NA_1 sv)" using assms(4) el by (simp add: command_configured_def)
  ultimately show ?thesis
    using answers_agree(1) [OF h(1) el] assms(3,5,6) h(2) by (auto simp: asduHandler_single_def configured_branch)
next
  assume ty: "ucast (CS101_ASDU_getTypeID a) = C_SE_NC_1"
  then obtain tab where h: "handle_set_point_command mode now con a (cs_table st) = Returns (r, b, acts, tab)" "st' = st\<lparr>cs_table := tab\<rparr>"
    using assms(1) by (auto simp: asduHandler_def obind_Returns type_ids)
  then obtain ioa v qos where el: "CS101_ASDU_getElement a 0 = Returns (Some (SetpointCommandShort ioa v qos))"
    by (auto simp: handle_set_point_command_def obind_Returns cast_Returns)
  moreover have "ioa \<in> set (ioas_C_SE_NC_1 sv)" using assms(4) el by (simp add: command_configured_def)
  ultimately show ?thesis
    using answers_agree(2) [OF h(1) el, of "''C_SE_NC_1''" "value_qualifier (fmt_2f v) (SetpointCommandShort_getQL qos)"]
      assms(3,5,6) h(2) by (auto simp: asduHandler_single_def configured_branch)
qed


text \<open>Like the configuration that comes with the server, every type has addresses of its own.\<close>

definition demo_commands_server :: single_server where
  "demo_commands_server = initial_single_server\<lparr>s1_command_mode := ''sbo'', ioas_C_SC_NA_1 := [5, 11], ioas_C_SE_NC_1 := [12, 13]\<rparr>"

lemma demo_select_cause: "CS101_ASDU_getCOT demo_select = COT_ACTIVATION"
proof -
  let ?a = "CS101_ASDU_create defaultAppLayerParameters False 6 0 1 False False"
  have "asdu_header (snd (CS101_ASDU_addInformationObject ?a (SingleCommand 5 0x81))) ! 2 = asdu_header ?a ! 2"
    by (subst add_step [OF represents_create]) (simp_all add: set_header_def addr_ok_def)
  moreover have "asdu_header ?a ! 2 = 6" by (simp add: CS101_ASDU_create_def)
  ultimately show ?thesis
    by (simp add: demo_select_def command_request_def add_all_def CS101_ASDU_getCOT_def COT_ACTIVATION_def)
qed

theorem single_commands_agree_witness:
  "\<exists>b2 acts2 sv2. asduHandler_single 1000 7 demo_select demo_commands_server = Returns (True, b2, acts2, sv2) \<and>
     s1_selectTable sv2 = storeSelectState 1000 5 7 empty_select_table"
proof -
  let ?b = "CS101_ASDU_setCOT COT_ACTIVATION_CON demo_select"
  have h: "asduHandler ''sbo'' 1000 7 demo_select demo_state =
      Returns (True, ?b, [SendASDU 7 ?b, Print (sc_select_line ''sbo'' 5)], demo_selected)"
    using demo_flags
    by (simp add: asduHandler_def demo_types type_ids handle_single_command_def demo_elements confirm_def
        demo_selected_def demo_state_def Let_def)
  have "command_configured demo_commands_server demo_select"
    by (simp add: command_configured_def demo_elements demo_commands_server_def)
  with single_commands_agree [OF h, of demo_commands_server] show ?thesis
    by (auto simp: demo_types type_ids demo_select_cause demo_commands_server_def demo_state_def demo_selected_def initial_single_server_def)
qed

text \<open>The addresses the server is configured with for a command, and the address the command is for.\<close>

fun command_target :: "single_server \<Rightarrow> information_object \<Rightarrow> (int list \<times> int) option" where
  "command_target sv (SingleCommand ioa sco) = Some (ioas_C_SC_NA_1 sv, ioa)"
| "command_target sv (DoubleCommand ioa dcq) = Some (ioas_C_DC_NA_1 sv, ioa)"
| "command_target sv (SetpointCommandNormalized ioa ev qos) = Some (ioas_C_SE_NA_1 sv, ioa)"
| "command_target sv (SetpointCommandShort ioa v qos) = Some (ioas_C_SE_NC_1 sv, ioa)"
| "command_target sv _ = None"

lemma unconfigured_branch:
  "command_target sv io = Some (ioas, ioa) \<Longrightarrow> ioa \<notin> set ioas \<Longrightarrow>
     \<exists>line. command_branch now con a (Some io) sv =
       Some (reply_asdu COT_UNKNOWN_IOA True a, [SendASDU con (reply_asdu COT_UNKNOWN_IOA True a), Print line], s1_selectTable sv) \<and>
       (line = not_in_range_line ''error'' ioa \<or> line = not_in_range_line ''warn'' ioa)"
  by (cases io) (auto simp: configured_branch)

text \<open>
  C38: a command for an address that is not configured is neither executed nor selected: nothing of the server changes, and
  the only reply is the request with the negative cause of an unknown address.
\<close>

theorem single_unconfigured_refused:
  assumes "header_wf a" "CS101_ASDU_getCOT a = COT_ACTIVATION" "CS101_ASDU_getElement a 0 = Returns (Some io)"
    "command_target sv io = Some (ioas, ioa)" "ioa \<notin> set ioas"
  shows "\<exists>b line. asduHandler_single now con a sv = Returns (True, b, [SendASDU con b, Print line], sv) \<and>
    line \<in> {not_in_range_line ''error'' ioa, not_in_range_line ''warn'' ioa} \<and>
    CS101_ASDU_getCOT b = 47 \<and> CS101_ASDU_isNegative b \<and> asdu_payload b = asdu_payload a \<and>
    CS101_ASDU_getTypeID b = CS101_ASDU_getTypeID a \<and> CS101_ASDU_getCA b = CS101_ASDU_getCA a"
proof -
  have "cot_ok COT_UNKNOWN_IOA" by (simp add: cot_ok_def COT_UNKNOWN_IOA_def)
  note fields = reply_fields [OF assms(1) this, of True]
  show ?thesis
    using unconfigured_branch [OF assms(4,5), of now con a] assms(2,3) fields
    by (auto simp: asduHandler_single_def COT_UNKNOWN_IOA_def)
qed

theorem single_unconfigured_refused_witness:
  "\<exists>b line. asduHandler_single 1000 7 demo_select initial_single_server =
      Returns (True, b, [SendASDU 7 b, Print line], initial_single_server) \<and> CS101_ASDU_getCOT b = 47 \<and> CS101_ASDU_isNegative b"
proof -
  have "header_wf demo_select" using demo_represents(1) by (simp add: represents_def)
  from single_unconfigured_refused [OF this demo_select_cause demo_elements(1), of initial_single_server "[]" 5 1000 7]
  show ?thesis by (auto simp: initial_single_server_def)
qed

end
