(* ===== verification/Single_Server.thy ===== *)
theory Single_Server
  imports Single_Server_Handlers Slave
begin

text \<open>
  The single file server (\<open>json-iec104-server/json-iec104-server.c\<close>) as a program: lines of JSON that update points, the threads that
  send periodically, and the start of the server over lib60870.
\<close>

section \<open>Lines\<close>

text \<open>Names without a number get 0, the number of \<open>command\<close>.\<close>

definition GetDataTypeNumber :: "string \<Rightarrow> u32" where
  "GetDataTypeNumber str =
     (if str = ''M_SP_TB_1'' then M_SP_TB_1 else if str = ''M_DP_TB_1'' then M_DP_TB_1
      else if str = ''M_ME_TD_1'' then M_ME_TD_1 else if str = ''M_IT_TB_1'' then M_IT_TB_1
      else if str = ''M_ME_NC_1'' then M_ME_NC_1 else if str = ''M_SP_NA_1'' then M_SP_NA_1 else 0)"

definition GetQualifierNumber :: "string \<Rightarrow> int" where
  "GetQualifierNumber str =
     (if str = ''IEC60870_QUALITY_GOOD'' then 0 else if str = ''IEC60870_QUALITY_INVALID'' then 0x80
      else if str = ''IEC60870_QUALITY_OVERFLOW'' then 0x01 else if str = ''IEC60870_QUALITY_RESERVED'' then 0x04
      else if str = ''IEC60870_QUALITY_ELAPSED_TIME_INVALID'' then 0x08 else if str = ''IEC60870_QUALITY_BLOCKED'' then 0x10
      else if str = ''IEC60870_QUALITY_SUBSTITUTED'' then 0x20 else if str = ''IEC60870_QUALITY_NON_TOPICAL'' then 0x40 else 0)"

text \<open>
  Each of the four members that is missing or of another type prints its error. The address is a conversion from double to int,
  undefined out of its range. The result is None when not all four are there.
\<close>

definition missing_line :: "string \<Rightarrow> action list" where
  "missing_line what = [Print (''{\"error\":\"invalid data '' @ what @ ''\"}'')]"

definition process_json_input ::
    "(string \<Rightarrow> json option) \<Rightarrow> string \<Rightarrow> (action list \<times> (u32 \<times> f64 \<times> int \<times> int) option) outcome" where
  "process_json_input cJSON_Parse input =
     (case cJSON_Parse input of
        None \<Rightarrow> Returns ([Print ''{\"error\":\"invalid json input\"}''], None)
      | Some j \<Rightarrow>
          let type_json = cJSON_GetObjectItemCaseSensitive j ''type'';
              value_json = cJSON_GetObjectItemCaseSensitive j ''value'';
              address_json = cJSON_GetObjectItemCaseSensitive j ''address'';
              qualifier_json = cJSON_GetObjectItemCaseSensitive j ''qualifier'';
              (t, ty) = (case type_json of Some (JString s) \<Rightarrow> ([], Some (GetDataTypeNumber s)) | _ \<Rightarrow> (missing_line ''type'', None));
              (v, value) = (case value_json of Some (JNumber d) \<Rightarrow> ([], Some d) | _ \<Rightarrow> (missing_line ''value'', None));
              (q, qualifier) = (case qualifier_json of Some (JString s) \<Rightarrow> ([], Some (GetQualifierNumber s))
                 | _ \<Rightarrow> (missing_line ''qualifier'', None))
          in obind (case address_json of
                 Some (JNumber d) \<Rightarrow> obind (of_defined (fv_to_int (- (2 ^ 31)) (2 ^ 31 - 1) (f64_val d))) (\<lambda>i. Returns ([], Some i))
               | _ \<Rightarrow> Returns (missing_line ''address'', None)) (\<lambda>(ad, address).
               Returns (t @ v @ ad @ q,
                 case (ty, value, address, qualifier) of
                   (Some ty, Some value, Some address, Some qualifier) \<Rightarrow> Some (ty, value, address, qualifier)
                 | _ \<Rightarrow> None)))"

section \<open>Updates of points\<close>

text \<open>The search for the address among the configured ones.\<close>

definition with_ioa ::
    "string \<Rightarrow> 'p points \<Rightarrow> int \<Rightarrow> (int \<Rightarrow> (action list \<times> 'p points) outcome) \<Rightarrow> (action list \<times> 'p points) outcome" where
  "with_ioa name pts address f =
     (case first_index (\<lambda>x. x = address) (take (pts_count pts) (pts_ioa_list pts)) of
        None \<Rightarrow> Returns ([Print (''{\"error\":\"IOA '' @ dec_int address @ '' not configured for '' @ name @ ''\"}'')], pts)
      | Some i \<Rightarrow> f (int i))"

text \<open>A spontaneous ASDU with one object for the event queue.\<close>

definition enqueue_object :: "host \<Rightarrow> int \<Rightarrow> information_object option \<Rightarrow> action list outcome" where
  "enqueue_object h ca io = obind (of_defined io) (\<lambda>io. Returns [EnqueueASDU (snd (CS101_ASDU_addInformationObject
     (CS101_ASDU_create (h_params h) False (uint COT_SPONTANEOUS) ca ca False False) io))])"

definition report_update ::
    "host \<Rightarrow> int \<Rightarrow> information_object option \<Rightarrow> bool \<times> action list \<times> 'p points \<Rightarrow> (action list \<times> 'p points) outcome" where
  "report_update h ca io r =
     (case r of (rc, acts, pts) \<Rightarrow>
        if rc \<and> IsClientConnected h then obind (enqueue_object h ca io) (\<lambda>s. Returns (acts @ s, pts)) else Returns (acts, pts))"

text \<open>The conversions \<open>(bool) value\<close>, \<open>(uint32_t) value\<close> and \<open>(uint64_t) value\<close>; the last two are undefined out of range.\<close>

definition to_bool :: "f64 \<Rightarrow> bool" where
  "to_bool value \<longleftrightarrow> \<not> fv_eq (f64_val value) (Fin False 0 0)"

definition to_u32 :: "f64 \<Rightarrow> u32 outcome" where
  "to_u32 value = obind (of_defined (fv_to_int 0 (2 ^ 32 - 1) (f64_val value))) (\<lambda>i. Returns (word_of_int i))"

definition to_u64 :: "f64 \<Rightarrow> u64 outcome" where
  "to_u64 value = obind (of_defined (fv_to_int 0 (2 ^ 64 - 1) (f64_val value))) (\<lambda>i. Returns (word_of_int i))"

definition update_sp_tb :: "host \<Rightarrow> f64 \<Rightarrow> int \<Rightarrow> int \<Rightarrow> single_server \<Rightarrow> (action list \<times> bool point points) outcome" where
  "update_sp_tb h value address qualifier sv = with_ioa ''M_SP_TB_1'' (pts_M_SP_TB_1 sv) address (\<lambda>i.
     report_update h (s1_ASDU sv)
       (Some (SinglePointWithCP56Time2a_create address (to_bool value) (word_of_int qualifier) (GetCP56Time2a (h_reading h))))
       (update_m_sp_tb_1_data h (s1_offline_udt_time sv) i (to_bool value) qualifier (pts_M_SP_TB_1 sv)))"

definition update_dp_tb :: "host \<Rightarrow> f64 \<Rightarrow> int \<Rightarrow> int \<Rightarrow> single_server \<Rightarrow> (action list \<times> u32 point points) outcome" where
  "update_dp_tb h value address qualifier sv = with_ioa ''M_DP_TB_1'' (pts_M_DP_TB_1 sv) address (\<lambda>i.
     obind (to_u32 value) (\<lambda>v. report_update h (s1_ASDU sv)
       (Some (DoublePointWithCP56Time2a_create address v (word_of_int qualifier) (GetCP56Time2a (h_reading h))))
       (update_m_dp_tb_1_data h (s1_offline_udt_time sv) i v qualifier (pts_M_DP_TB_1 sv))))"

definition update_me_td :: "host \<Rightarrow> f64 \<Rightarrow> int \<Rightarrow> int \<Rightarrow> single_server \<Rightarrow> (action list \<times> f32 point points) outcome" where
  "update_me_td h value address qualifier sv = with_ioa ''M_ME_TD_1'' (pts_M_ME_TD_1 sv) address (\<lambda>i.
     let v = f32_of_f64 value
     in report_update h (s1_ASDU sv)
       (MeasuredValueNormalizedWithCP56Time2a_create address v (word_of_int qualifier) (GetCP56Time2a (h_reading h)))
       (update_m_me_td_1_data h (s1_offline_udt_time sv) i v qualifier (pts_M_ME_TD_1 sv)))"

text \<open>The counter is reduced modulo \<open>UINT32_MAX\<close>, which is one less than the number of values.\<close>

definition update_it_tb :: "f64 \<Rightarrow> int \<Rightarrow> single_server \<Rightarrow> (action list \<times> bytes points) outcome" where
  "update_it_tb value address sv = with_ioa ''M_IT_TB_1'' (pts_M_IT_TB_1 sv) address (\<lambda>i.
     obind (to_u64 value) (\<lambda>v. Returns (update_m_it_tb_1_data i (ucast (v mod 0xFFFFFFFF)) (pts_M_IT_TB_1 sv))))"

definition update_sp_na :: "host \<Rightarrow> f64 \<Rightarrow> int \<Rightarrow> int \<Rightarrow> single_server \<Rightarrow> (action list \<times> bool point points) outcome" where
  "update_sp_na h value address qualifier sv = with_ioa ''M_SP_NA_1'' (pts_M_SP_NA_1 sv) address (\<lambda>i.
     obind (to_u32 value) (\<lambda>v. obind (update_m_sp_na_1_data h (s1_offline_udt_time sv) i v qualifier (pts_M_SP_NA_1 sv)) (\<lambda>(rc, pts).
       report_update h (s1_ASDU sv)
         (Some (SinglePointInformation_create address (to_bool value) (word_of_int qualifier))) (rc, [], pts))))"

text \<open>A value without quality is reported as one with good quality.\<close>

definition update_me_nd :: "host \<Rightarrow> f64 \<Rightarrow> int \<Rightarrow> single_server \<Rightarrow> (action list \<times> u32 points) outcome" where
  "update_me_nd h value address sv = with_ioa ''M_ME_ND_1'' (pts_M_ME_ND_1 sv) address (\<lambda>i.
     obind (to_u32 value) (\<lambda>v. report_update h (s1_ASDU sv)
       (MeasuredValueNormalized_create address (f32_of_f64 value) 0)
       (update_m_me_nd_1_data h (s1_offline_udt_time sv) i v (pts_M_ME_ND_1 sv))))"

text \<open>Without a client a measured value is queued with a time stamp, after an error line.\<close>

definition update_me_nc :: "host \<Rightarrow> f64 \<Rightarrow> int \<Rightarrow> int \<Rightarrow> single_server \<Rightarrow> (action list \<times> f32 point points) outcome" where
  "update_me_nc h value address qualifier sv = with_ioa ''M_ME_NC_1'' (pts_M_ME_NC_1 sv) address (\<lambda>i.
     let v = f32_of_f64 value;
         (rc, acts, pts) = update_m_me_nc_1_data h (s1_offline_udt_time sv) (s1_deadband sv) i v qualifier (pts_M_ME_NC_1 sv)
     in if \<not> rc then Returns (acts, pts)
        else if IsClientConnected h then
          obind (enqueue_object h (s1_ASDU sv) (Some (MeasuredValueShort_create address v (word_of_int qualifier))))
            (\<lambda>s. Returns (acts @ s, pts))
        else
          obind (enqueue_object h (s1_ASDU sv) (Some (MeasuredValueShortWithCP56Time2a_create address v (word_of_int qualifier)
              (GetCP56Time2a (h_reading h)))))
            (\<lambda>s. Returns (acts @ [Print ''{\"error\":\"client not connected, cannot send M_ME_NC_1 update\"}''] @ s, pts)))"

definition process_data_update ::
    "host \<Rightarrow> u32 \<Rightarrow> f64 \<Rightarrow> int \<Rightarrow> int \<Rightarrow> single_server \<Rightarrow> (action list \<times> single_server) outcome" where
  "process_data_update h ty value address qualifier sv =
     (if ty = M_SP_TB_1 then obind (update_sp_tb h value address qualifier sv) (\<lambda>(acts, pts). Returns (acts, sv\<lparr>pts_M_SP_TB_1 := pts\<rparr>))
      else if ty = M_DP_TB_1 then obind (update_dp_tb h value address qualifier sv) (\<lambda>(acts, pts). Returns (acts, sv\<lparr>pts_M_DP_TB_1 := pts\<rparr>))
      else if ty = M_ME_TD_1 then obind (update_me_td h value address qualifier sv) (\<lambda>(acts, pts). Returns (acts, sv\<lparr>pts_M_ME_TD_1 := pts\<rparr>))
      else if ty = M_IT_TB_1 then obind (update_it_tb value address sv) (\<lambda>(acts, pts). Returns (acts, sv\<lparr>pts_M_IT_TB_1 := pts\<rparr>))
      else if ty = M_SP_NA_1 then obind (update_sp_na h value address qualifier sv) (\<lambda>(acts, pts). Returns (acts, sv\<lparr>pts_M_SP_NA_1 := pts\<rparr>))
      else if ty = M_ME_ND_1 then obind (update_me_nd h value address sv) (\<lambda>(acts, pts). Returns (acts, sv\<lparr>pts_M_ME_ND_1 := pts\<rparr>))
      else if ty = M_ME_NC_1 then obind (update_me_nc h value address qualifier sv) (\<lambda>(acts, pts). Returns (acts, sv\<lparr>pts_M_ME_NC_1 := pts\<rparr>))
      else Returns ([Print ''{\"error\":\"unknown type\"}''], sv))"

text \<open>One pass of the main loop; None is the end of the input. The type 0 with the value 0 stops the server.\<close>

definition server_line ::
    "(string \<Rightarrow> json option) \<Rightarrow> host \<Rightarrow> string option \<Rightarrow> single_server \<Rightarrow> (action list \<times> single_server) outcome" where
  "server_line cJSON_Parse h input sv =
     (case input of
        None \<Rightarrow> Returns ([Print ''{\"error\":\"get input string failed\"}''], sv)
      | Some line \<Rightarrow> obind (process_json_input cJSON_Parse line) (\<lambda>(acts, fields).
          case fields of
            None \<Rightarrow> Returns (acts, sv)
          | Some (ty, value, address, qualifier) \<Rightarrow>
              if ty = 0 \<and> fv_eq (f64_val value) (Fin False 0 0)
              then Returns (acts @ [Print ''{\"info\":\"shutdown server\"}''], sv\<lparr>s1_running := False\<rparr>)
              else obind (process_data_update h ty value address qualifier sv) (\<lambda>(out, sv). Returns (acts @ out, sv))))"

fun run_server_loop ::
    "(string \<Rightarrow> json option) \<Rightarrow> (host \<times> string option) list \<Rightarrow> single_server \<Rightarrow> (action list \<times> single_server) outcome" where
  "run_server_loop cJSON_Parse [] sv = Returns ([], sv)"
| "run_server_loop cJSON_Parse ((h, input) # lines) sv =
     (if \<not> s1_running sv then Returns ([], sv)
      else obind (server_line cJSON_Parse h input sv) (\<lambda>(acts, sv).
        obind (run_server_loop cJSON_Parse lines sv) (\<lambda>(out, sv). Returns (acts @ out, sv))))"

section \<open>Periodic sending\<close>

definition is_due :: "u64 \<Rightarrow> nat \<Rightarrow> single_period \<Rightarrow> bool" where
  "is_due now count p \<longleftrightarrow> sp_enabled p \<and> count > 0 \<and> now - sp_last_sent p \<ge> ucast (sp_period_ms p)"

definition periodic_line :: "string \<Rightarrow> nat \<Rightarrow> string" where
  "periodic_line name count = ''{\"debug\":\"sending periodic '' @ name @ '' data, points:'' @ dec_int (int count) @ ''\"}''"

text \<open>All points go into one ASDU; single points are sent without a time stamp.\<close>

definition periodic_asdu :: "host \<Rightarrow> int \<Rightarrow> nat \<Rightarrow> (nat \<Rightarrow> information_object option) \<Rightarrow> asdu outcome" where
  "periodic_asdu h ca count mk = add_objects (map mk [0..<count])
     (CS101_ASDU_create (h_params h) False (uint COT_PERIODIC) ca ca False False)"

text \<open>One pass of the loop of the thread.\<close>

definition SendPeriodicData :: "host \<Rightarrow> single_server \<Rightarrow> (action list \<times> single_server) outcome" where
  "SendPeriodicData h sv =
     (let now = fst (h_reading h); nc = pts_M_ME_NC_1 sv; sp = pts_M_SP_TB_1 sv
      in if \<not> IsClientConnected h then Returns ([], sv)
         else
           obind (if is_due now (pts_count nc) (s1_periodic_M_ME_NC_1 sv)
             then obind (periodic_asdu h (s1_ASDU sv) (pts_count nc) (me_nc_object nc)) (\<lambda>a.
               Returns ([Print (periodic_line ''M_ME_NC_1'' (pts_count nc)), EnqueueASDU a],
                 sv\<lparr>s1_periodic_M_ME_NC_1 := (s1_periodic_M_ME_NC_1 sv)\<lparr>sp_last_sent := now\<rparr>\<rparr>))
             else Returns ([], sv)) (\<lambda>(acts, sv).
           if is_due now (pts_count sp) (s1_periodic_M_SP_TB_1 sv)
           then obind (periodic_asdu h (s1_ASDU sv) (pts_count sp) (sp_na_object sp)) (\<lambda>a.
             Returns (acts @ [Print (periodic_line ''M_SP_TB_1'' (pts_count sp)), EnqueueASDU a],
               sv\<lparr>s1_periodic_M_SP_TB_1 := (s1_periodic_M_SP_TB_1 sv)\<lparr>sp_last_sent := now\<rparr>\<rparr>))
           else Returns (acts, sv)))"

text \<open>
  Counters are sent at the first second of each minute with a sequence number: the loop over the points changes each reading
  and adds its object. The thread ends at once when there are no counters.
\<close>

definition SendIntegratedTotalsPeriodic ::
    "host \<Rightarrow> int \<Rightarrow> u32 \<Rightarrow> single_server \<Rightarrow> (action list \<times> u32 \<times> single_server) outcome" where
  "SendIntegratedTotalsPeriodic h second sequenc_number sv =
     (let it = pts_M_IT_TB_1 sv
      in if IsClientConnected h \<and> second = 1 then
           let data = map (BinaryCounterReading_setSequenceNumber (sint sequenc_number)) (take (pts_count it) (pts_data it)) @
                 drop (pts_count it) (pts_data it)
           in obind (add_objects (map (\<lambda>j. Some (IntegratedTotals_create (pts_ioa_list it ! j) (data ! j))) [0..<pts_count it])
                (CS101_ASDU_create (h_params h) False (uint COT_PERIODIC) 0 1 False False)) (\<lambda>a.
                Returns ([EnqueueASDU a], sequenc_number + 1, sv\<lparr>pts_M_IT_TB_1 := it\<lparr>pts_data := data\<rparr>\<rparr>))
         else Returns ([], sequenc_number, sv))"

definition start_integrated_totals :: "single_server \<Rightarrow> action list" where
  "start_integrated_totals sv = (if pts_count (pts_M_IT_TB_1 sv) = 0
     then [Print ''{\"info\":\"IntegratedTotals disabled: no IOAs configured\"}''] else [])"

section \<open>Start and stop\<close>

definition sigint_handler :: "single_server \<Rightarrow> single_server" where
  "sigint_handler sv = sv\<lparr>s1_running := False\<rparr>"

text \<open>The slave with queues for 20000 messages and the callbacks; the address comes from a header that is not in the repository.\<close>

definition init_server ::
    "(tm \<Rightarrow> string) \<Rightarrow> app_layer_params \<Rightarrow> (u32 \<Rightarrow> nat \<Rightarrow> u64 \<times> bool) \<Rightarrow> u64 \<Rightarrow> string \<Rightarrow> single_server \<Rightarrow> single_server slave" where
  "init_server iso8601 p time_of now IP_ADDRESS_LOCAL sv =
     set_handlers (\<lambda>_. single_handlers iso8601 p time_of now)
       (CS104_Slave_setLocalAddress IP_ADDRESS_LOCAL (CS104_Slave_create 20000 20000 sv))"

text \<open>
  The slave is started; \<open>bound\<close> is the success of binding its socket, \<open>created\<close> that of creating a thread. The result is the success,
  whether the periodic thread runs, the lines and the slave.
\<close>

definition start_server_single :: "bool \<Rightarrow> bool \<Rightarrow> single_server slave \<Rightarrow> bool \<times> bool \<times> action list \<times> single_server slave" where
  "start_server_single bound created sl =
     (let sl = CS104_Slave_start bound sl; sv = application sl; p = s1_periodic_M_ME_NC_1 sv; n = pts_count (pts_M_ME_NC_1 sv);
          info = [Print (''{\"debug\":\"periodic enabled:'' @ dec_int (of_bool (sp_enabled p)) @ '', points:'' @ dec_int (int n) @ ''\"}'')]
      in if \<not> slave_isRunning sl then (False, False, [Print ''{\"error\":\"server start failed\"}''], sl)
         else if sp_enabled p \<and> n > 0 then
           if \<not> created then (False, False, info @ [Print ''{\"error\":\"periodic send thread creation failed\"}''], sl)
           else (True, True, info @ [Print (''{\"info\":\"periodic send thread started for M_ME_NC_1 with '' @ dec_int (int n) @ '' points\"}''),
                  Print ''{\"info\":\"server start succeeded\"}''], sl)
         else (True, False, info @ [Print ''{\"info\":\"periodic send not enabled or no points configured\"}'',
                Print ''{\"info\":\"server start succeeded\"}''], sl))"

text \<open>One line of the thread that reports the length of the event queue every second.\<close>

definition log_queue_count_periodic :: "single_server slave \<Rightarrow> action list outcome" where
  "log_queue_count_periodic sl =
     obind (if slave_isRunning sl then CS104_Slave_getNumberOfQueueEntries sl else Returns 0)
       (\<lambda>n. Returns [Print (''{\"info\":\"queue_count='' @ dec_int n @ ''\"}'')])"

end
