(* ===== verification/Single_Server_Lines.thy ===== *)
theory Single_Server_Lines
  imports Single_Server
begin

text \<open>
  The state of the single file server keeps its shape: the arrays of a type have the length of its list of addresses, whatever
  lines, ticks, commands and signals come. \<open>single_run\<close> collects the states the threads can reach.
\<close>

section \<open>Well-formed states\<close>

definition points_wf :: "'p points \<Rightarrow> bool" where
  "points_wf pts \<longleftrightarrow> length (pts_ioa_list pts) = pts_count pts \<and> length (pts_data pts) = pts_count pts \<and>
     (case pts_last_offline pts of None \<Rightarrow> True | Some ts \<Rightarrow> length ts = pts_count pts)"

definition server_wf :: "single_server \<Rightarrow> bool" where
  "server_wf sv \<longleftrightarrow> points_wf (pts_M_SP_TB_1 sv) \<and> points_wf (pts_M_DP_TB_1 sv) \<and> points_wf (pts_M_ME_TD_1 sv) \<and>
     points_wf (pts_M_IT_TB_1 sv) \<and> points_wf (pts_M_SP_NA_1 sv) \<and> points_wf (pts_M_DP_NA_1 sv) \<and> points_wf (pts_M_ME_NA_1 sv) \<and>
     points_wf (pts_M_ME_NB_1 sv) \<and> points_wf (pts_M_ME_NC_1 sv) \<and> points_wf (pts_M_ME_ND_1 sv) \<and>
     length (s1_selectTable sv) = MAX_SELECT_ENTRIES"

text \<open>What an operation leaves alone: the configured addresses of a type.\<close>

definition same_points :: "'p points \<Rightarrow> 'q points \<Rightarrow> bool" where
  "same_points pts pts' \<longleftrightarrow> pts_ioa_list pts' = pts_ioa_list pts \<and> pts_count pts' = pts_count pts"

lemma points_wf_simps [simp]: "points_wf no_points" "same_points pts pts"
  by (simp_all add: points_wf_def no_points_def same_points_def)

text \<open>Every change of data of the same length keeps the points well formed.\<close>

definition keeps :: "'p points \<Rightarrow> 'p points \<Rightarrow> bool" where
  "keeps pts pts' \<longleftrightarrow> (points_wf pts \<longrightarrow> points_wf pts') \<and> same_points pts pts'"

lemma keepsI [intro]: "length data = length (pts_data pts) \<Longrightarrow> keeps pts (pts\<lparr>pts_data := data\<rparr>)"
  by (auto simp: keeps_def points_wf_def same_points_def split: option.splits)

lemma keeps_refl [simp]: "keeps pts pts"
  by (simp add: keeps_def)

lemma allow_offline_length:
  "allow_offline_update_single udt now arr i = (ok, arr') \<Longrightarrow> rel_option (\<lambda>ts ts'. length ts' = length ts) arr arr'"
  by (auto simp: allow_offline_update_single_def split: option.splits if_splits)

lemma finish_keeps:
  assumes "finish_update h udt i (c, data) pts = (rc, pts')" "length data = length (pts_data pts)"
  shows "keeps pts pts'"
proof -
  obtain ok arr where a: "allow_offline_update_single udt (fst (h_reading h)) (pts_last_offline pts) i = (ok, arr)" by fastforce
  from allow_offline_length [OF this] show ?thesis
    using assms a by (cases arr; cases "pts_last_offline pts")
      (auto simp: finish_update_def keeps_def points_wf_def same_points_def Let_def split: if_splits)
qed

lemma length_store_point [simp]: "length (snd (store_point c v q i data)) = length data"
  by (simp add: store_point_def Let_def)

lemma finish_store_keeps: "finish_update h udt i (store_point c v q i (pts_data pts)) pts = (rc, pts') \<Longrightarrow> keeps pts pts'"
  by (metis finish_keeps length_store_point prod.collapse)

lemmas update_defs = update_m_sp_tb_1_data_def update_m_dp_tb_1_data_def update_m_me_td_1_data_def update_m_it_tb_1_data_def
  update_m_sp_na_1_data_def update_m_dp_na_1_data_def update_m_me_na_1_data_def update_m_me_nb_1_data_def
  update_m_me_nc_1_data_def update_m_me_nd_1_data_def

lemma updates_keep:
  "update_m_sp_tb_1_data h udt ad v1 q pts1 = (rc, acts, pts1') \<Longrightarrow> keeps pts1 pts1'"
  "update_m_dp_tb_1_data h udt ad v2 q pts2 = (rc, acts, pts2') \<Longrightarrow> keeps pts2 pts2'"
  "update_m_me_td_1_data h udt ad v3 q pts3 = (rc, acts, pts3') \<Longrightarrow> keeps pts3 pts3'"
  "update_m_it_tb_1_data ad v2 pts4 = (acts, pts4') \<Longrightarrow> keeps pts4 pts4'"
  "update_m_sp_na_1_data h udt ad v2 q pts1 = Returns (rc, pts1') \<Longrightarrow> keeps pts1 pts1'"
  "update_m_me_nc_1_data h udt db ad v3 q pts3 = (rc, acts, pts3') \<Longrightarrow> keeps pts3 pts3'"
  "update_m_me_nd_1_data h udt ad v2 pts5 = (rc, acts, pts5') \<Longrightarrow> keeps pts5 pts5'"
  by (auto simp: update_defs Let_def dest: finish_store_keeps finish_keeps split: if_splits prod.splits)

text \<open>A point that is found is in range.\<close>

lemma found_in_range:
  assumes "first_index (\<lambda>x. x = address) (take (pts_count pts) (pts_ioa_list pts)) = Some i"
  shows "in_range (int i) pts"
  using first_index_SomeD [OF assms] by (simp add: in_range_def)

section \<open>Lines do not crash the server\<close>

definition returns_kept :: "'p points \<Rightarrow> (action list \<times> 'p points) outcome \<Rightarrow> bool" where
  "returns_kept pts r \<longleftrightarrow> (\<exists>acts pts'. r = Returns (acts, pts') \<and> keeps pts pts')"

lemma returns_keptI: "keeps pts pts' \<Longrightarrow> returns_kept pts (Returns (acts, pts'))"
  by (auto simp: returns_kept_def)

lemma with_ioa_kept: "(\<And>i. in_range (int i) pts \<Longrightarrow> returns_kept pts (f (int i))) \<Longrightarrow> returns_kept pts (with_ioa name pts address f)"
  by (auto simp: with_ioa_def intro: found_in_range returns_keptI split: option.split)

lemma report_kept: "keeps pts pts' \<Longrightarrow> io \<noteq> None \<Longrightarrow> returns_kept pts (report_update h ca io (rc, acts, pts'))"
  by (auto simp: report_update_def enqueue_object_def intro: returns_keptI)

text \<open>The number of an update suits its type.\<close>

definition value_suits :: "u32 \<Rightarrow> f64 \<Rightarrow> bool" where
  "value_suits ty value \<longleftrightarrow>
     (ty \<in> {M_DP_TB_1, M_SP_NA_1, M_ME_ND_1} \<longrightarrow> fv_to_int 0 (2 ^ 32 - 1) (f64_val value) \<noteq> None) \<and>
     (ty = M_IT_TB_1 \<longrightarrow> fv_to_int 0 (2 ^ 64 - 1) (f64_val value) \<noteq> None) \<and>
     (ty \<in> {M_ME_TD_1, M_ME_ND_1} \<longrightarrow> MeasuredValueNormalized_setValue (f32_of_f64 value) \<noteq> None)"

lemma to_words:
  "value_suits ty value \<Longrightarrow> ty \<in> {M_DP_TB_1, M_SP_NA_1, M_ME_ND_1} \<Longrightarrow> \<exists>v. to_u32 value = Returns v"
  "value_suits M_IT_TB_1 value \<Longrightarrow> \<exists>v. to_u64 value = Returns v"
  by (auto simp: value_suits_def to_u32_def to_u64_def)

lemma update_sp_tb_kept: "returns_kept (pts_M_SP_TB_1 sv) (update_sp_tb h value address q sv)"
proof (unfold update_sp_tb_def, rule with_ioa_kept)
  fix i
  obtain rc acts pts where u: "update_m_sp_tb_1_data h (s1_offline_udt_time sv) (int i) (to_bool value) q (pts_M_SP_TB_1 sv) = (rc, acts, pts)"
    by (metis prod.exhaust)
  show "returns_kept (pts_M_SP_TB_1 sv) (report_update h (s1_ASDU sv)
       (Some (SinglePointWithCP56Time2a_create address (to_bool value) (word_of_int q) (GetCP56Time2a (h_reading h))))
       (update_m_sp_tb_1_data h (s1_offline_udt_time sv) (int i) (to_bool value) q (pts_M_SP_TB_1 sv)))"
    unfolding u by (rule report_kept [OF updates_keep(1) [OF u]]) simp
qed

lemma update_dp_tb_kept:
  assumes "value_suits M_DP_TB_1 value"
  shows "returns_kept (pts_M_DP_TB_1 sv) (update_dp_tb h value address q sv)"
proof (unfold update_dp_tb_def, rule with_ioa_kept)
  fix i
  obtain v where v: "to_u32 value = Returns v" using to_words(1) [OF assms] by auto
  obtain rc acts pts where u: "update_m_dp_tb_1_data h (s1_offline_udt_time sv) (int i) v q (pts_M_DP_TB_1 sv) = (rc, acts, pts)"
    by (metis prod.exhaust)
  show "returns_kept (pts_M_DP_TB_1 sv) (obind (to_u32 value) (\<lambda>v. report_update h (s1_ASDU sv)
       (Some (DoublePointWithCP56Time2a_create address v (word_of_int q) (GetCP56Time2a (h_reading h))))
       (update_m_dp_tb_1_data h (s1_offline_udt_time sv) (int i) v q (pts_M_DP_TB_1 sv))))"
    unfolding v obind.simps u by (rule report_kept [OF updates_keep(2) [OF u]]) simp
qed

lemma update_me_td_kept:
  assumes "value_suits M_ME_TD_1 value"
  shows "returns_kept (pts_M_ME_TD_1 sv) (update_me_td h value address q sv)"
proof (unfold update_me_td_def Let_def, rule with_ioa_kept)
  fix i
  let ?v = "f32_of_f64 value"
  obtain rc acts pts where u: "update_m_me_td_1_data h (s1_offline_udt_time sv) (int i) ?v q (pts_M_ME_TD_1 sv) = (rc, acts, pts)"
    by (metis prod.exhaust)
  show "returns_kept (pts_M_ME_TD_1 sv) (report_update h (s1_ASDU sv)
       (MeasuredValueNormalizedWithCP56Time2a_create address ?v (word_of_int q) (GetCP56Time2a (h_reading h)))
       (update_m_me_td_1_data h (s1_offline_udt_time sv) (int i) ?v q (pts_M_ME_TD_1 sv)))"
    unfolding u using assms
    by (intro report_kept [OF updates_keep(3) [OF u]]) (simp add: value_suits_def MeasuredValueNormalizedWithCP56Time2a_create_def)
qed

lemma update_it_tb_kept:
  assumes "value_suits M_IT_TB_1 value"
  shows "returns_kept (pts_M_IT_TB_1 sv) (update_it_tb value address sv)"
proof (unfold update_it_tb_def, rule with_ioa_kept)
  fix i
  obtain v where v: "to_u64 value = Returns v" using to_words(2) [OF assms] by blast
  obtain acts pts where u: "update_m_it_tb_1_data (int i) (ucast (v mod 0xFFFFFFFF)) (pts_M_IT_TB_1 sv) = (acts, pts)" by fastforce
  then show "returns_kept (pts_M_IT_TB_1 sv) (obind (to_u64 value) (\<lambda>v.
      Returns (update_m_it_tb_1_data (int i) (ucast (v mod 0xFFFFFFFF)) (pts_M_IT_TB_1 sv))))"
    using updates_keep(4) [OF u] by (simp add: v returns_keptI)
qed

lemma update_sp_na_kept:
  assumes "value_suits M_SP_NA_1 value"
  shows "returns_kept (pts_M_SP_NA_1 sv) (update_sp_na h value address q sv)"
proof (unfold update_sp_na_def, rule with_ioa_kept)
  fix i assume i: "in_range (int i) (pts_M_SP_NA_1 sv)"
  obtain v where v: "to_u32 value = Returns v" using to_words(1) [OF assms] by auto
  obtain rc pts where u: "update_m_sp_na_1_data h (s1_offline_udt_time sv) (int i) v q (pts_M_SP_NA_1 sv) = Returns (rc, pts)"
    using i by (simp add: update_m_sp_na_1_data_def) (metis prod.exhaust)
  show "returns_kept (pts_M_SP_NA_1 sv) (obind (to_u32 value) (\<lambda>v.
      obind (update_m_sp_na_1_data h (s1_offline_udt_time sv) (int i) v q (pts_M_SP_NA_1 sv)) (\<lambda>(rc, pts).
        report_update h (s1_ASDU sv) (Some (SinglePointInformation_create address (to_bool value) (word_of_int q))) (rc, [], pts))))"
    unfolding v obind.simps u prod.case by (rule report_kept [OF updates_keep(5) [OF u]]) simp
qed

lemma update_me_nd_kept:
  assumes "value_suits M_ME_ND_1 value"
  shows "returns_kept (pts_M_ME_ND_1 sv) (update_me_nd h value address sv)"
proof (unfold update_me_nd_def, rule with_ioa_kept)
  fix i
  obtain v where v: "to_u32 value = Returns v" using to_words(1) [OF assms] by auto
  obtain rc acts pts where u: "update_m_me_nd_1_data h (s1_offline_udt_time sv) (int i) v (pts_M_ME_ND_1 sv) = (rc, acts, pts)"
    by (metis prod.exhaust)
  show "returns_kept (pts_M_ME_ND_1 sv) (obind (to_u32 value) (\<lambda>v. report_update h (s1_ASDU sv)
       (MeasuredValueNormalized_create address (f32_of_f64 value) 0)
       (update_m_me_nd_1_data h (s1_offline_udt_time sv) (int i) v (pts_M_ME_ND_1 sv))))"
    unfolding v obind.simps u using assms
    by (intro report_kept [OF updates_keep(7) [OF u]]) (simp add: value_suits_def MeasuredValueNormalized_create_def)
qed

lemma update_me_nc_kept: "returns_kept (pts_M_ME_NC_1 sv) (update_me_nc h value address q sv)"
proof (unfold update_me_nc_def Let_def, rule with_ioa_kept)
  fix i
  obtain rc acts pts where u: "update_m_me_nc_1_data h (s1_offline_udt_time sv) (s1_deadband sv) (int i) (f32_of_f64 value) q
      (pts_M_ME_NC_1 sv) = (rc, acts, pts)" by (metis prod.exhaust)
  have k: "keeps (pts_M_ME_NC_1 sv) pts" using updates_keep(6) [OF u] .
  show "returns_kept (pts_M_ME_NC_1 sv) (case update_m_me_nc_1_data h (s1_offline_udt_time sv) (s1_deadband sv) (int i) (f32_of_f64 value) q
      (pts_M_ME_NC_1 sv) of (rc, acts, pts) \<Rightarrow>
        if \<not> rc then Returns (acts, pts)
        else if IsClientConnected h then
          obind (enqueue_object h (s1_ASDU sv) (Some (MeasuredValueShort_create address (f32_of_f64 value) (word_of_int q))))
            (\<lambda>s. Returns (acts @ s, pts))
        else
          obind (enqueue_object h (s1_ASDU sv) (Some (MeasuredValueShortWithCP56Time2a_create address (f32_of_f64 value) (word_of_int q)
              (GetCP56Time2a (h_reading h)))))
            (\<lambda>s. Returns (acts @ [Print ''{\"error\":\"client not connected, cannot send M_ME_NC_1 update\"}''] @ s, pts)))"
    unfolding u prod.case using k by (auto simp: enqueue_object_def intro: returns_keptI)
qed

lemmas updates_kept = update_sp_tb_kept update_dp_tb_kept update_me_td_kept update_it_tb_kept update_sp_na_kept update_me_nd_kept
  update_me_nc_kept

text \<open>The configuration of a server is the addresses of its points and its commands.\<close>

definition same_config :: "single_server \<Rightarrow> single_server \<Rightarrow> bool" where
  "same_config sv sv' \<longleftrightarrow> same_points (pts_M_SP_TB_1 sv) (pts_M_SP_TB_1 sv') \<and> same_points (pts_M_DP_TB_1 sv) (pts_M_DP_TB_1 sv') \<and>
     same_points (pts_M_ME_TD_1 sv) (pts_M_ME_TD_1 sv') \<and> same_points (pts_M_IT_TB_1 sv) (pts_M_IT_TB_1 sv') \<and>
     same_points (pts_M_SP_NA_1 sv) (pts_M_SP_NA_1 sv') \<and> same_points (pts_M_DP_NA_1 sv) (pts_M_DP_NA_1 sv') \<and>
     same_points (pts_M_ME_NA_1 sv) (pts_M_ME_NA_1 sv') \<and> same_points (pts_M_ME_NB_1 sv) (pts_M_ME_NB_1 sv') \<and>
     same_points (pts_M_ME_NC_1 sv) (pts_M_ME_NC_1 sv') \<and> same_points (pts_M_ME_ND_1 sv) (pts_M_ME_ND_1 sv') \<and>
     ioas_C_SC_NA_1 sv' = ioas_C_SC_NA_1 sv \<and> ioas_C_DC_NA_1 sv' = ioas_C_DC_NA_1 sv \<and>
     ioas_C_SE_NA_1 sv' = ioas_C_SE_NA_1 sv \<and> ioas_C_SE_NC_1 sv' = ioas_C_SE_NC_1 sv"

lemmas config_defs = server_wf_def same_config_def

lemma process_data_update_safe:
  assumes "server_wf sv" "value_suits ty value"
  shows "\<exists>acts sv'. process_data_update h ty value address q sv = Returns (acts, sv') \<and> server_wf sv' \<and> same_config sv sv'"
proof -
  consider "ty = M_SP_TB_1" | "ty = M_DP_TB_1" | "ty = M_ME_TD_1" | "ty = M_IT_TB_1" | "ty = M_SP_NA_1" | "ty = M_ME_ND_1" | "ty = M_ME_NC_1"
    | "ty \<notin> {M_SP_TB_1, M_DP_TB_1, M_ME_TD_1, M_IT_TB_1, M_SP_NA_1, M_ME_ND_1, M_ME_NC_1}" by blast
  then show ?thesis
  proof cases
    case 1
    then show ?thesis using updates_kept(1) [of sv h "value" address q] assms
      by (auto simp: process_data_update_def returns_kept_def keeps_def config_defs)
  next
    case 2
    then show ?thesis using updates_kept(2) [of "value" sv h address q] assms
      by (auto simp: process_data_update_def returns_kept_def keeps_def config_defs type_ids)
  next
    case 3
    then show ?thesis using updates_kept(3) [of "value" sv h address q] assms
      by (auto simp: process_data_update_def returns_kept_def keeps_def config_defs type_ids)
  next
    case 4
    then show ?thesis using updates_kept(4) [of "value" sv address] assms
      by (auto simp: process_data_update_def returns_kept_def keeps_def config_defs type_ids)
  next
    case 5
    then show ?thesis using updates_kept(5) [of "value" sv h address q] assms
      by (auto simp: process_data_update_def returns_kept_def keeps_def config_defs type_ids)
  next
    case 6
    then show ?thesis using updates_kept(6) [of "value" sv h address] assms
      by (auto simp: process_data_update_def returns_kept_def keeps_def config_defs type_ids)
  next
    case 7
    then show ?thesis using updates_kept(7) [of sv h "value" address q] assms
      by (auto simp: process_data_update_def returns_kept_def keeps_def config_defs type_ids)
  next
    case 8
    then show ?thesis using assms by (auto simp: process_data_update_def config_defs)
  qed
qed

lemma server_line_safe:
  assumes "server_wf sv" "process_json_input cJSON_Parse line = Returns (acts, found)"
    "\<forall>ty value address q. found = Some (ty, value, address, q) \<longrightarrow> value_suits ty value"
  shows "\<exists>acts sv'. server_line cJSON_Parse h (Some line) sv = Returns (acts, sv') \<and> server_wf sv' \<and> same_config sv sv'"
proof (cases found)
  case None
  then show ?thesis using assms by (auto simp: server_line_def config_defs)
next
  case (Some f)
  obtain ty v address q where f: "f = (ty, v, address, q)" by (cases f)
  show ?thesis
  proof (cases "ty = 0 \<and> fv_eq (f64_val v) (Fin False 0 0)")
    case True
    then show ?thesis using assms Some f by (auto simp: server_line_def config_defs)
  next
    case False
    from process_data_update_safe [OF assms(1), of ty v h address q] assms(3) Some f obtain out sv' where
      "process_data_update h ty v address q sv = Returns (out, sv')" "server_wf sv'" "same_config sv sv'" by blast
    with False show ?thesis using assms(2) Some f by (auto simp: server_line_def)
  qed
qed

section \<open>Every state of a run\<close>

inductive single_run :: "(string \<Rightarrow> json option) \<Rightarrow> single_server \<Rightarrow> single_server \<Rightarrow> bool" for cJSON_Parse sv0 where
  run_start: "single_run cJSON_Parse sv0 sv0"
| run_line: "single_run cJSON_Parse sv0 sv \<Longrightarrow> server_line cJSON_Parse h input sv = Returns (acts, sv') \<Longrightarrow>
    single_run cJSON_Parse sv0 sv'"
| run_periodic: "single_run cJSON_Parse sv0 sv \<Longrightarrow> SendPeriodicData h sv = Returns (acts, sv') \<Longrightarrow> single_run cJSON_Parse sv0 sv'"
| run_totals: "single_run cJSON_Parse sv0 sv \<Longrightarrow> SendIntegratedTotalsPeriodic h second n sv = Returns (acts, n', sv') \<Longrightarrow>
    single_run cJSON_Parse sv0 sv'"
| run_asdu: "single_run cJSON_Parse sv0 sv \<Longrightarrow> handleASDU (single_handlers iso8601 p time_of now) con a sv = Returns (ok, acts, sv') \<Longrightarrow>
    single_run cJSON_Parse sv0 sv'"
| run_signal: "single_run cJSON_Parse sv0 sv \<Longrightarrow> single_run cJSON_Parse sv0 (sigint_handler sv)"

text \<open>One step keeps what the invariant needs.\<close>

definition step_keeps :: "single_server \<Rightarrow> single_server \<Rightarrow> bool" where
  "step_keeps sv sv' \<longleftrightarrow> (server_wf sv \<longrightarrow> server_wf sv') \<and> same_config sv sv'"

lemma same_config_trans: "same_config a b \<Longrightarrow> same_config b c \<Longrightarrow> same_config a c"
  by (auto simp: same_config_def same_points_def)

lemma step_keeps_refl [simp]: "step_keeps sv sv"
  by (simp add: step_keeps_def same_config_def)

lemma update_returns_kept: "update = Returns (acts, pts') \<Longrightarrow> returns_kept pts update \<Longrightarrow> keeps pts pts'"
  by (auto simp: returns_kept_def)

lemma with_ioa_keeps:
  "with_ioa name pts address f = Returns (acts, pts') \<Longrightarrow>
     (\<And>i acts pts'. f (int i) = Returns (acts, pts') \<Longrightarrow> keeps pts pts') \<Longrightarrow> keeps pts pts'"
  by (auto simp: with_ioa_def split: option.splits)

lemma report_keeps: "report_update h ca io (rc, acts, pts) = Returns (acts', pts') \<Longrightarrow> pts' = pts"
  by (auto simp: report_update_def obind_Returns split: if_splits)

lemma table_lengths:
  "length (storeSelectState now ioa con tab) = length tab" "length (clearSelectState ioa con tab) = length tab"
  "isPreviouslySelected now ioa con tab = (r, tab') \<Longrightarrow> length tab' = length tab"
  by (auto simp: storeSelectState_def clearSelectState_def isPreviouslySelected_def split: option.splits if_splits)

lemma command_table_length:
  "single_command_single mode now ioa sco con a tab = (b, acts, tab') \<Longrightarrow> length tab' = length tab"
  "valued_command_single name mode sel rest now ioa con a tab = (b, acts, tab') \<Longrightarrow> length tab' = length tab"
  by (auto simp: single_command_single_def valued_command_single_def execute_direct_def accept_select_def Let_def table_lengths
      split: if_splits prod.splits dest: table_lengths(3))

lemma branch_table_length:
  "command_branch now con a io sv = Some (b, acts, tab) \<Longrightarrow> length tab = length (s1_selectTable sv)"
  by (cases "(now, con, a, io, sv)" rule: command_branch.cases)
    (auto simp: for_configured_def Let_def split: if_splits dest: command_table_length)

lemma select_table_keeps: "length tab = length (s1_selectTable sv) \<Longrightarrow> step_keeps sv (sv\<lparr>s1_selectTable := tab\<rparr>)"
  by (simp add: step_keeps_def config_defs)

lemma commands_keep:
  assumes "asduHandler_single now con a sv = Returns (r, b, acts, sv')"
  shows "step_keeps sv sv'"
proof (cases "CS101_ASDU_getCOT a = COT_ACTIVATION")
  case True
  with assms obtain io where "(case command_branch now con a io sv of
      Some (b, acts, tab) \<Rightarrow> Returns (True, b, acts, sv\<lparr>s1_selectTable := tab\<rparr>)
    | None \<Rightarrow> let b = CS101_ASDU_setCOT COT_UNKNOWN_TYPE_ID a
        in Returns (True, b, [SendASDU con b, Print (unknown_type_line (CS101_ASDU_getTypeID a))], sv)) = Returns (r, b, acts, sv')"
    by (auto simp: asduHandler_single_def obind_Returns)
  then show ?thesis
    by (auto simp: Let_def split: option.splits intro!: select_table_keeps dest: branch_table_length)
qed (use assms in \<open>simp add: asduHandler_single_def Let_def\<close>)

lemma reset_points_keep [simp]:
  "points_wf pts \<Longrightarrow> points_wf (reset_points v pts)" "same_points pts (reset_points v pts)"
  "points_wf cs \<Longrightarrow> points_wf (reset_counters cs)" "same_points cs (reset_counters cs)"
  by (auto simp: points_wf_def same_points_def reset_points_def reset_counters_def split: option.splits)

lemma interrogation_same: "interrogationHandler_single p time_of con a qoi sv = Returns (r, b, acts, sv') \<Longrightarrow> sv' = sv"
  by (auto simp: interrogationHandler_single_def sendACT_simps Let_def elim!: obindE split: if_splits)

lemma handlers_keep:
  "resetProcessHandler_single con a qrp sv = Returns (r, b, acts, sv') \<Longrightarrow> step_keeps sv sv'"
  "interrogationHandler_single p time_of con a qoi sv = Returns (r, b, acts, sv') \<Longrightarrow> step_keeps sv sv'"
  "clockSyncHandler_single iso8601 con a t sv = Returns (r, b, acts, sv') \<Longrightarrow> step_keeps sv sv'"
  by (auto simp: resetProcessHandler_single_def sendACT_simps Let_def step_keeps_def config_defs split: if_splits)
    (auto simp: clockSyncHandler_single_def dest!: interrogation_same)

lemma with_element_keeps:
  assumes "with_element a handler sv = Returns (Some (r, b, acts, sv'))"
    "\<And>h io r b acts sv'. handler = Some h \<Longrightarrow> h io = Returns (r, b, acts, sv') \<Longrightarrow> step_keeps sv sv'"
  shows "step_keeps sv sv'"
  using assms by (auto simp: with_element_def unhandled_def obind_Returns split: option.splits)

lemma call_Returns:
  "interrogation_call h io = Returns x \<Longrightarrow> \<exists>qoi. h qoi = Returns x"
  "reset_process_call h io = Returns x \<Longrightarrow> \<exists>qrp. h qrp = Returns x"
  "clock_sync_call con k io = Returns (r, b, acts, g) \<Longrightarrow> \<exists>t r b acts. k t = Returns (r, b, acts, g)"
  by (auto elim!: interrogation_call.elims reset_process_call.elims intro: sym)
    (auto elim!: clock_sync_call.elims simp: obind_Returns Let_def dest!: sym [of "Returns _" "obind _ _"], blast?)

lemma calls_keep:
  "interrogation_call (\<lambda>qoi. interrogationHandler_single p time_of con a qoi sv) io = Returns (r, b, acts, sv') \<Longrightarrow> step_keeps sv sv'"
  "reset_process_call (\<lambda>qrp. resetProcessHandler_single con a qrp sv) io = Returns (r, b, acts, sv') \<Longrightarrow> step_keeps sv sv'"
  "clock_sync_call con (\<lambda>t. clockSyncHandler_single iso8601 con a t sv) io = Returns (r, b, acts, sv') \<Longrightarrow> step_keeps sv sv'"
  by (blast dest: call_Returns handlers_keep)+

lemma handle_type_keeps:
  "handle_type (single_handlers iso8601 p time_of now) con a sv = Returns (Some (r, b, acts, sv')) \<Longrightarrow> step_keeps sv sv'"
  unfolding handle_type_def Let_def single_handlers_def
  by (auto split: if_splits simp: responseCOTUnknown_def unhandled_def test_command_def Let_def dest!: with_element_keeps calls_keep)

lemma single_handlers_asdu: "sh_asdu (single_handlers iso8601 p time_of now) = Some (asduHandler_single now)"
  by (simp add: single_handlers_def)

lemma handleASDU_keeps:
  assumes "handleASDU (single_handlers iso8601 p time_of now) con a sv = Returns (ok, acts, sv')"
  shows "step_keeps sv sv'"
proof -
  have t: "step_keeps a c" if "step_keeps a b" "step_keeps b c" for a b c
    using that same_config_trans [of a b c] by (auto simp: step_keeps_def)
  from assms obtain res where h: "handle_type (single_handlers iso8601 p time_of now) con a sv = Returns res"
    "(case res of None \<Rightarrow> Returns (False, [], sv)
      | Some (handled, b, acts, g) \<Rightarrow> obind (if \<not> handled then asduHandler_single now con b g else Returns (handled, b, [], g))
          (\<lambda>(handled, b, acts', g). Returns (True, acts @ acts' @
             (if handled then [] else [SendASDU con (CS101_ASDU_setNegative True (CS101_ASDU_setCOT COT_UNKNOWN_TYPE_ID b))]), g))) =
       Returns (ok, acts, sv')"
    unfolding handleASDU_def single_handlers_asdu option.case Let_def by (rule obindE) blast
  show ?thesis
  proof (cases res)
    case None
    then show ?thesis using h(2) by simp
  next
    case (Some x)
    obtain handled b acts1 g where x: "x = (handled, b, acts1, g)" by (cases x)
    then have g: "step_keeps sv g" using h(1) Some handle_type_keeps by blast
    show ?thesis
    proof (cases handled)
      case True
      then show ?thesis using h(2) Some x g by simp
    next
      case False
      then obtain r b2 acts2 where "asduHandler_single now con b g = Returns (r, b2, acts2, sv')"
        using h(2) Some x by (auto simp: obind_Returns)
      then show ?thesis using t [OF g] commands_keep by blast
    qed
  qed
qed

lemma report_result: "report_update h ca io r = Returns (acts, pts') \<Longrightarrow> pts' = snd (snd r)"
  by (cases r) (simp add: report_keeps)

lemma updates_keep_snd:
  "keeps pts1 (snd (snd (update_m_sp_tb_1_data h udt ad v1 q pts1)))"
  "keeps pts2 (snd (snd (update_m_dp_tb_1_data h udt ad v2 q pts2)))"
  "keeps pts3 (snd (snd (update_m_me_td_1_data h udt ad v3 q pts3)))"
  "keeps pts4 (snd (update_m_it_tb_1_data ad v2 pts4))"
  "keeps pts3 (snd (snd (update_m_me_nc_1_data h udt db ad v3 q pts3)))"
  "keeps pts5 (snd (snd (update_m_me_nd_1_data h udt ad v2 pts5)))"
  by (metis prod.collapse updates_keep)+

lemma update_returns_keep:
  "update_sp_tb h v ad q sv = Returns (acts, pts1) \<Longrightarrow> keeps (pts_M_SP_TB_1 sv) pts1"
  "update_dp_tb h v ad q sv = Returns (acts, pts2) \<Longrightarrow> keeps (pts_M_DP_TB_1 sv) pts2"
  "update_me_td h v ad q sv = Returns (acts, pts3) \<Longrightarrow> keeps (pts_M_ME_TD_1 sv) pts3"
  "update_it_tb v ad sv = Returns (acts, pts4) \<Longrightarrow> keeps (pts_M_IT_TB_1 sv) pts4"
  "update_sp_na h v ad q sv = Returns (acts, pts5) \<Longrightarrow> keeps (pts_M_SP_NA_1 sv) pts5"
  "update_me_nd h v ad sv = Returns (acts, pts6) \<Longrightarrow> keeps (pts_M_ME_ND_1 sv) pts6"
  "update_me_nc h v ad q sv = Returns (acts, pts7) \<Longrightarrow> keeps (pts_M_ME_NC_1 sv) pts7"
  subgoal unfolding update_sp_tb_def by (erule with_ioa_keeps) (auto dest!: report_result simp: updates_keep_snd)
  subgoal unfolding update_dp_tb_def by (erule with_ioa_keeps) (auto dest!: report_result simp: updates_keep_snd obind_Returns)
  subgoal unfolding update_me_td_def by (erule with_ioa_keeps) (auto dest!: report_result simp: updates_keep_snd Let_def)
  subgoal unfolding update_it_tb_def by (erule with_ioa_keeps) (auto simp: obind_Returns dest: updates_keep(4))
  subgoal unfolding update_sp_na_def by (erule with_ioa_keeps) (auto dest!: report_result simp: obind_Returns dest: updates_keep(5))
  subgoal unfolding update_me_nd_def by (erule with_ioa_keeps) (auto dest!: report_result simp: updates_keep_snd obind_Returns)
  subgoal unfolding update_me_nc_def
    by (erule with_ioa_keeps) (auto simp: obind_Returns Let_def split: prod.splits if_splits dest!: updates_keep(6))
  done

lemma process_data_update_keeps: "process_data_update h ty v ad q sv = Returns (acts, sv') \<Longrightarrow> step_keeps sv sv'"
  unfolding process_data_update_def
  by (auto simp: obind_Returns step_keeps_def config_defs keeps_def dest!: update_returns_keep split: if_splits)

lemma stop_keeps: "step_keeps sv (sv\<lparr>s1_running := False\<rparr>)"
  by (simp add: step_keeps_def config_defs)

lemma server_line_keeps: "server_line cJSON_Parse h input sv = Returns (acts, sv') \<Longrightarrow> step_keeps sv sv'"
  unfolding server_line_def
  by (auto simp: stop_keeps elim!: obind_pairE split: option.splits if_splits dest!: process_data_update_keeps)

lemma period_keeps: "step_keeps sv (sv\<lparr>s1_periodic_M_ME_NC_1 := p\<rparr>)" "step_keeps sv (sv\<lparr>s1_periodic_M_SP_TB_1 := p\<rparr>)"
  "step_keeps sv (sv\<lparr>s1_periodic_M_ME_NC_1 := p, s1_periodic_M_SP_TB_1 := q\<rparr>)"
  by (simp_all add: step_keeps_def config_defs)

lemma periodic_keeps: "SendPeriodicData h sv = Returns (acts, sv') \<Longrightarrow> step_keeps sv sv'"
  unfolding SendPeriodicData_def Let_def
  by (auto simp: period_keeps elim!: obindE obind_pairE split: if_splits)

lemma counters_keep: "keeps (pts_M_IT_TB_1 sv) it \<Longrightarrow> step_keeps sv (sv\<lparr>pts_M_IT_TB_1 := it\<rparr>)"
  by (simp add: step_keeps_def config_defs keeps_def)

lemma totals_keep:
  assumes "SendIntegratedTotalsPeriodic h second n sv = Returns (acts, n', sv')"
  shows "step_keeps sv sv'"
proof (cases "IsClientConnected h \<and> second = 1")
  case True
  with assms obtain data where "sv' = sv\<lparr>pts_M_IT_TB_1 := (pts_M_IT_TB_1 sv)\<lparr>pts_data := data\<rparr>\<rparr>" "length data = length (pts_data (pts_M_IT_TB_1 sv))"
    by (auto simp: SendIntegratedTotalsPeriodic_def Let_def elim!: obindE)
  then show ?thesis using counters_keep keepsI by metis
qed (use assms in \<open>auto simp: SendIntegratedTotalsPeriodic_def Let_def\<close>)

lemma step_keeps_trans: "step_keeps a b \<Longrightarrow> step_keeps b c \<Longrightarrow> step_keeps a c"
  using same_config_trans [of a b c] by (auto simp: step_keeps_def)

lemma run_keeps: "single_run cJSON_Parse sv0 sv \<Longrightarrow> step_keeps sv0 sv"
proof (induction rule: single_run.induct)
  case run_start
  then show ?case by simp
next
  case (run_signal sv)
  moreover have "step_keeps sv (sigint_handler sv)" by (simp add: sigint_handler_def step_keeps_def config_defs)
  ultimately show ?case by (blast intro: step_keeps_trans)
qed (blast intro: step_keeps_trans dest: server_line_keeps periodic_keeps totals_keep handleASDU_keeps)+


end
