(* ===== verification/Single_Server_Run.thy ===== *)
theory Single_Server_Run
  imports Single_Server_Lines Input_Lines
begin

text \<open>
  The single file server from its configuration on: every state its threads can reach is well formed, and what single lines of the
  input do to it.
\<close>

section \<open>The configuration\<close>

lemma length_ioa_array [simp]: "length (ioa_array fresh arr) = cJSON_GetArraySize arr"
  by (simp add: ioa_array_def)

lemma parse_points_wf: "points_wf pts \<Longrightarrow> pts_last_offline pts = None \<Longrightarrow> points_wf (parse_points mem j key initial keeps_times pts)"
  by (simp add: parse_points_def points_wf_def Let_def)

lemma parse_no_points_wf: "points_wf (parse_points mem j key initial keeps_times no_points)"
  by (rule parse_points_wf) (simp, simp add: no_points_def)

lemma on_number_keeps: "(\<And>v. P (f v g)) \<Longrightarrow> P g \<Longrightarrow> P (on_number j key f g)"
  by (simp add: on_number_def split: option.split)

definition blank :: "single_server \<Rightarrow> bool" where
  "blank sv \<longleftrightarrow> pts_M_SP_TB_1 sv = no_points \<and> pts_M_DP_TB_1 sv = no_points \<and> pts_M_ME_TD_1 sv = no_points \<and>
     pts_M_IT_TB_1 sv = no_points \<and> pts_M_SP_NA_1 sv = no_points \<and> pts_M_DP_NA_1 sv = no_points \<and> pts_M_ME_NA_1 sv = no_points \<and>
     pts_M_ME_NB_1 sv = no_points \<and> pts_M_ME_NC_1 sv = no_points \<and> pts_M_ME_ND_1 sv = no_points \<and>
     length (s1_selectTable sv) = MAX_SELECT_ENTRIES"

lemma blank_initial: "blank initial_single_server"
  by (simp add: blank_def initial_single_server_def empty_select_table_def)

lemma blank_on_number:
  "blank sv \<Longrightarrow> blank (on_number j k (\<lambda>v sv. sv\<lparr>s1_offline_udt_time := F v\<rparr>) sv)"
  "blank sv \<Longrightarrow> blank (on_number j k (\<lambda>v sv. sv\<lparr>s1_ASDU := F v\<rparr>) sv)"
  "blank sv \<Longrightarrow> blank (on_number j k (\<lambda>v sv. sv\<lparr>s1_deadband := G v\<rparr>) sv)"
  by (rule on_number_keeps; simp add: blank_def)+

lemma config_wf: "server_wf (snd (parse_config_json_single mem j initial_single_server))"
proof -
  define sv where "sv = on_number j ''M_ME_NC_1_deadband_percent'' (\<lambda>v sv. sv\<lparr>s1_deadband := f32_of_f64 (valuedouble v)\<rparr>)
    (on_number j ''ASDU'' (\<lambda>v sv. sv\<lparr>s1_ASDU := valueint v\<rparr>)
      (on_number j ''offline_udt_time'' (\<lambda>v sv. sv\<lparr>s1_offline_udt_time := valueint v\<rparr>) initial_single_server))"
  have "blank sv" unfolding sv_def by (intro blank_on_number blank_initial)
  then show ?thesis
    unfolding parse_config_json_single_def Let_def sv_def [symmetric]
    by (simp add: server_wf_def blank_def parse_no_points_wf split: prod.split)
qed

lemma init_wf:
  assumes "init_config_from_file_single cJSON_Parse mem name file initial_single_server = (ok, acts, sv)"
  shows "server_wf sv"
proof -
  have "server_wf initial_single_server" by (simp add: server_wf_def initial_single_server_def empty_select_table_def)
  moreover have "server_wf sv'" if "parse_config_json_single mem j initial_single_server = (acts', sv')" for j acts' sv'
    using config_wf [of mem j] that by simp
  ultimately show ?thesis using assms
    by (auto simp: init_config_from_file_single_def parse_config_from_json_single_def split: option.splits if_splits prod.splits)
qed

text \<open>
  C39: whatever the configuration file holds, in every state of the single file server the arrays of a type have the length of
  its list of addresses, and no operation changes the configured addresses; therefore no line with a number that suits its
  type makes the server follow a wrong index or convert a number out of range, and the next state is such a state again.
\<close>

theorem single_server_invariant:
  assumes "init_config_from_file_single cJSON_Parse mem name file initial_single_server = (ok, acts0, sv0)"
    "single_run cJSON_Parse sv0 sv"
  shows "server_wf sv \<and> same_config sv0 sv \<and>
    (\<forall>h line acts found. process_json_input cJSON_Parse line = Returns (acts, found) \<longrightarrow>
       (\<forall>ty number address q. found = Some (ty, number, address, q) \<longrightarrow> value_suits ty number) \<longrightarrow>
       (\<exists>out sv'. server_line cJSON_Parse h (Some line) sv = Returns (out, sv') \<and> single_run cJSON_Parse sv0 sv'))"
proof -
  have sv: "server_wf sv" "same_config sv0 sv" using run_keeps [OF assms(2)] init_wf [OF assms(1)] by (simp_all add: step_keeps_def)
  moreover have "\<exists>out sv'. server_line cJSON_Parse h (Some line) sv = Returns (out, sv') \<and> single_run cJSON_Parse sv0 sv'"
    if l: "process_json_input cJSON_Parse line = Returns (acts, found)"
      "\<forall>ty number address q. found = Some (ty, number, address, q) \<longrightarrow> value_suits ty number" for h line acts found
    using server_line_safe [OF sv(1) l, of h] run_line [OF assms(2), of h "Some line"] by blast
  ultimately show ?thesis by blast
qed

definition demo_host :: host where
  "demo_host = \<lparr>h_params = defaultAppLayerParameters, h_connections = 1, h_reading = (0, False)\<rparr>"

definition demo_single_parse :: "string \<Rightarrow> json option" where
  "demo_single_parse s = (if s = ''c'' then Some (JObject [(''M_SP_TB_1_config'', JArray [JNumber (0x401C000000000000)])])
     else Some (JObject [(''type'', JString ''M_SP_TB_1''), (''value'', JNumber (0x3FF0000000000000)), (''address'', JNumber (0x401C000000000000)),
        (''qualifier'', JString ''IEC60870_QUALITY_GOOD'')]))"

lemma demo_single_address: "fv_to_int (- (2 ^ 31)) (2 ^ 31 - 1) (f64_val 0x401C000000000000) = Some 7"
  by (simp add: fv_to_int_def f64_val_def fp_decode_def fp_emin_def Soft_Float.signed_def)

lemma demo_single_line:
  "process_json_input demo_single_parse ''u'' = Returns ([], Some (30, 0x3FF0000000000000, 7, 0))"
  using demo_single_address
  by (simp add: process_json_input_def demo_single_parse_def cJSON_GetObjectItemCaseSensitive_def GetDataTypeNumber_def
      GetQualifierNumber_def type_ids Let_def)

theorem single_server_invariant_witness:
  "\<exists>mem sv0 out sv'. snd (snd (init_config_from_file_single demo_single_parse mem ''f'' (Some ''c'') initial_single_server)) = sv0 \<and>
     server_line demo_single_parse demo_host (Some ''u'') sv0 = Returns (out, sv') \<and> single_run demo_single_parse sv0 sv'"
proof -
  define mem where "mem = \<lparr>fresh_ints = (\<lambda>_ _. 0), fresh_counters = (\<lambda>_. replicate 5 0)\<rparr>"
  obtain ok acts sv0 where i: "init_config_from_file_single demo_single_parse mem ''f'' (Some ''c'') initial_single_server = (ok, acts, sv0)"
    by (metis prod.exhaust)
  have "value_suits 30 (0x3FF0000000000000)" by (simp add: value_suits_def type_ids)
  with single_server_invariant [OF i run_start] demo_single_line
  have "\<exists>out sv'. server_line demo_single_parse demo_host (Some ''u'') sv0 = Returns (out, sv') \<and> single_run demo_single_parse sv0 sv'"
    by (metis (no_types, lifting) option.inject prod.inject)
  then show ?thesis using i by (metis snd_conv)
qed

section \<open>What single lines do\<close>

text \<open>
  A line whose type the server has no number for, like the configured types \<open>M_ME_NB_1\<close> and \<open>M_DP_NA_1\<close>, and whose value is 0
  stops the server, whatever its address; nothing behind it is read.
\<close>

theorem single_unknown_type_stops:
  assumes "cJSON_Parse line = Some j" "cJSON_GetObjectItemCaseSensitive j ''type'' = Some (JString name)"
    "name \<notin> {''M_SP_TB_1'', ''M_DP_TB_1'', ''M_ME_TD_1'', ''M_IT_TB_1'', ''M_ME_NC_1'', ''M_SP_NA_1''}"
    "cJSON_GetObjectItemCaseSensitive j ''value'' = Some (JNumber z)" "fv_eq (f64_val z) (Fin False 0 0)"
    "cJSON_GetObjectItemCaseSensitive j ''address'' = Some (JNumber d)" "fv_to_int (- (2 ^ 31)) (2 ^ 31 - 1) (f64_val d) = Some address"
    "cJSON_GetObjectItemCaseSensitive j ''qualifier'' = Some (JString q)" "s1_running sv"
  shows "run_server_loop cJSON_Parse ((h, Some line) # rest) sv =
    Returns ([Print ''{\"info\":\"shutdown server\"}''], sv\<lparr>s1_running := False\<rparr>)"
proof -
  have "GetDataTypeNumber name = 0" using assms(3) by (simp add: GetDataTypeNumber_def)
  then have "process_json_input cJSON_Parse line = Returns ([], Some (0, z, address, GetQualifierNumber q))"
    using assms(1,2,4,6-8) by (simp add: process_json_input_def)
  moreover have "run_server_loop cJSON_Parse rest (sv\<lparr>s1_running := False\<rparr>) = Returns ([], sv\<lparr>s1_running := False\<rparr>)"
    by (cases rest) auto
  ultimately show ?thesis using assms(5,9) by (simp add: server_line_def)
qed

theorem single_unknown_type_stops_witness:
  "run_server_loop (\<lambda>_. Some (JObject [(''type'', JString ''M_ME_NB_1''), (''value'', JNumber 0), (''address'', JNumber 0),
       (''qualifier'', JString ''IEC60870_QUALITY_GOOD'')])) [(demo_host, Some []), (demo_host, Some [])] initial_single_server =
     Returns ([Print ''{\"info\":\"shutdown server\"}''], initial_single_server\<lparr>s1_running := False\<rparr>)"
proof (rule single_unknown_type_stops, rule refl)
  show "fv_eq (f64_val 0) (Fin False 0 0)"
    by (simp add: f64_val_def fp_decode_def fp_emin_def Soft_Float.signed_def Let_def)
  show "fv_to_int (- (2 ^ 31)) (2 ^ 31 - 1) (f64_val 0) = Some 0"
    by (simp add: fv_to_int_def f64_val_def fp_decode_def fp_emin_def Soft_Float.signed_def)
  show "''M_ME_NB_1'' \<notin> {''M_SP_TB_1'', ''M_DP_TB_1'', ''M_ME_TD_1'', ''M_IT_TB_1'', ''M_ME_NC_1'', ''M_SP_NA_1''}" by code_simp
  show "s1_running initial_single_server" by (simp add: initial_single_server_def)
qed (simp_all add: cJSON_GetObjectItemCaseSensitive_def)






end
