(* ===== verification/Spec2Isabelle.thy ===== *)
theory Spec2Isabelle
  imports Command_Handler Input_Lines Thread_Locks Slave_Activity Modbus_Server Json_Print
    Single_Server_Interrogation Single_Server_Commands Single_Server_Run
begin

text \<open>
  IEC 60870-5-104 and Modbus servers: a verification development.

  THE PROGRAM. The repository holds two kinds of servers that are driven by lines of JSON on the
  standard input. The first (\<open>src/json-iec104-server\<close>) is a slave of IEC 60870-5-104: a process writes
  the values of its points as lines, the server keeps them in a process image, reports changes to the
  connected masters, answers interrogations, and prints the commands of the masters as lines for the
  process. It stands on the library lib60870 (\<open>src/json-iec104-server/lib60870\<close>), which encodes and decodes
  the messages and runs one thread per connection, and on cJSON. The second
  (\<open>src/modbus-server\<close>) keeps a table of Modbus registers that lines of JSON change and that clients read
  over TCP or a serial line with libmodbus.

  THE LAYERS, from the wire to the lines, and the theories that model them.

  1. Prelude, Soft_Float, C_Format: fixed width integers, division, search loops and conversions of C;
  IEEE 754 arithmetic on bit patterns; the conversions of \<open>printf\<close> with the round trip of decimal numbers.

  2. Frame, Info_Objects, Info_Types, Info_Encoding, Info_Parsing, Info_Decoding, Asdu, Cp56_Time: the
  messages. A frame is a table of operations over any buffer (locale \<open>frame_interface\<close>, interpreted for the APDU
  buffer of 256 bytes and for the payload of an ASDU). The 54 information objects are constructors of
  one datatype; \<open>io_body\<close> is their specified layout, every \<open>encode\<close> writes it exactly when it fits, every
  \<open>getFromBuffer\<close> reads it back, and \<open>represents\<close> relates an ASDU to the list of its objects.

  3. Ring_Layout, Message_Queue, Message_Queue_Fifo, High_Prio_Queue: the two queues of the slave, entries of
  different sizes in a buffer that is used round. A locale describes the layout; both queues interpret it and
  refine lists.

  4. K_Buffer, K_Window, Connection, Connection_Flow, Asdu_Dispatch, Connection_Thread, Connection_Roles,
  Thread_Locks, Slave, Slave_Activity: a connection with its window of sent messages, the state machine of
  its messages, the dispatch of received ASDUs to the callbacks of the server, and the slave with its five
  slots. The server thread, the threads of the connections and the application take turns as the steps of an
  inductive relation; invariants hold for all its interleavings. The sockets and the clock are the parameter
  \<open>platform\<close>.

  5. Effects, Data_Types, Data_Manager, Interrogation, Periodic_Sender, Command_Handler, Client_Manager,
  Config_Parser, Input_Handler, Offline_Tracking, Input_Lines: the server itself (\<open>src/data\<close>, \<open>src/protocol\<close>,
  \<open>src/threads\<close>, \<open>src/client\<close>, \<open>src/config\<close>, \<open>src/input\<close>, \<open>src/main.c\<close>), one theory per module with the
  functions of the module under their names. A handler returns its actions, a list of messages to send or enqueue
  and of lines to print, next to its new state; the queues of layer 3 perform them.

  6. Json_Tree, Json_Text, Json_Parser, Json_Print: cJSON. Trees with their accessors, numbers and
  strings as text, the parser and both printers, and their round trip.

  7. Modbus_Config, Modbus_Registers, Modbus_Backend, Modbus_Server: both Modbus servers, the modular one and the single
  file \<open>json-modbus-server.c\<close>: configuration, registers and byte orders, the descriptors of the clients and the main loop.
  libmodbus is the parameter \<open>libmodbus\<close>.

  8. Single_Server_Data, Single_Server_Handlers, Single_Server and, with their lemmas, Single_Server_Interrogation,
  Single_Server_Commands, Single_Server_Lines, Single_Server_Run: the older server in the one file
  \<open>src/json-iec104-server/json-iec104-server.c\<close>, over the library of the layers 2 to 4 and the trees of layer 6. Its ten types
  have arrays and functions of their own, kept as one record \<open>points\<close> each; the inductive relation \<open>single_run\<close> lets its
  lines, its two periodic threads, the callbacks and the signal take turns.

  CONVENTIONS. A C struct is a record, an enum a datatype or its number, an integer a word of its width where
  it can wrap and an int otherwise, a string a list of characters, NULL is None. The type \<open>outcome\<close> separates
  undefined behaviour of C, code that does not return, and values; every theorem that says \<open>Returns\<close> therefore also
  says that the code ends and stays within its buffers. Text that a function prints is part of its result.

  LOOPS. Recursion on data or with a measure wherever the code has a bound. The loops over the queues and the window
  follow positions in a buffer and are \<open>partial_function\<close>s; that they end is a part of the refinement theorems
  of layers 3 and 4. The parser of JSON gets fuel for its nested calls, one more than the length of the text; C34 shows
  that it is always enough, and the limit of 1000 nested arrays and objects is that of the code.

  GROUPS OF LEMMAS. Layouts and round trips of messages (C1, C2, C6, C10); refinement of the process image and of the
  interrogation (C3 to C5, C7 to C9); the commands (C11 to C14); clients, periods and configuration (C15 to C18);
  lines (C19 to C21); queues, window and connections (C22 to C28); Modbus (C29 to C32); JSON (C33, C34); the single file
  server (C35 to C40), where C36 puts the planned and the possible number of points of a message side by side, and C37 relates
  its commands to those of layer 5.

  NOT MODELLED. The link layer and the slave of IEC 60870-5-101, the client side, file transfer and TLS of lib60870: the
  servers never reach them. Redundancy groups and the filter of IP addresses, which the server does not configure.
  System calls and libmodbus, which are parameters. Freeing the arrays of the single file server at its
  end. Of the information objects the bit string, test and read commands. The memory of the C heap: only the places where a wrong pointer is followed, or a freed slot is used,
  are visible as \<open>Undefined\<close>. Logging has no state.
\<close>

end
